(* ===== verification/Prelude.thy ===== *)
theory Prelude
  imports Main "HOL-Library.Word"
begin

text \<open>
  Shared ground of the development: the machine-integer types, byte-addressed memory as a
  function from 64-bit addresses to bytes, little-endian fields, the block copies the runtime
  performs, cache-line alignment, and the lemmas about them that every component uses.
  Addresses are 64-bit words and address arithmetic wraps, as \<open>uintptr_t\<close> does;
  \<open>nullptr\<close> is the address 0.
\<close>

unbundle bit_operations_syntax

type_synonym u8 = "8 word"
type_synonym u16 = "16 word"
type_synonym u32 = "32 word"
type_synonym u64 = "64 word"
type_synonym addr = "64 word"
type_synonym mem = "addr \<Rightarrow> u8"

named_theorems mem_simps \<open>reads of memory after writes\<close>
named_theorems wire_defs \<open>layouts of the wire structs\<close>

section \<open>Little-endian fields\<close>

definition le_bytes :: "nat \<Rightarrow> 'a::len word \<Rightarrow> u8 list" where
  "le_bytes n w = map (\<lambda>i. ucast (drop_bit (8 * i) w)) [0..<n]"

primrec le_word :: "u8 list \<Rightarrow> 'a::len word" where
  "le_word [] = 0"
| "le_word (b # bs) = ucast b OR push_bit 8 (le_word bs)"

lemma length_le_bytes [simp]: "length (le_bytes n w) = n"
  by (simp add: le_bytes_def)

lemma bit_le_word:
  "bit (le_word bs :: 'a::len word) k \<longleftrightarrow>
     k < LENGTH('a) \<and> k div 8 < length bs \<and> bit (bs ! (k div 8)) (k mod 8)"
proof (induction bs arbitrary: k)
  case Nil
  then show ?case by simp
next
  case (Cons b bs)
  show ?case
  proof (cases "k < 8")
    case True
    then show ?thesis
      by (auto simp: bit_or_iff bit_push_bit_iff bit_ucast_iff)
  next
    case False
    then have k: "k div 8 = Suc ((k - 8) div 8)" "k mod 8 = (k - 8) mod 8"
      by (auto simp: le_div_geq le_mod_geq)
    have nb: "\<not> bit b k"
      using False bit_imp_le_length [of b k] by auto
    from False nb k show ?thesis
      by (auto simp: bit_or_iff bit_push_bit_iff bit_ucast_iff Cons.IH)
  qed
qed

lemma nth_le_bytes: "i < n \<Longrightarrow> le_bytes n w ! i = ucast (drop_bit (8 * i) w)"
  by (simp add: le_bytes_def)

lemma le_word_le_bytes [simp]:
  assumes "LENGTH('a::len) \<le> 8 * n"
  shows "le_word (le_bytes n (w :: 'a word)) = w"
proof (rule bit_word_eqI)
  fix k assume k: "k < LENGTH('a)"
  with assms have "k div 8 < n" by (auto simp: less_mult_imp_div_less mult.commute)
  moreover have "8 * (k div 8) + k mod 8 = k" by simp
  ultimately show "bit (le_word (le_bytes n w) :: 'a word) k = bit w k"
    using k by (simp add: bit_le_word nth_le_bytes bit_ucast_iff bit_drop_bit_eq)
qed

lemma le_bytes_le_word [simp]:
  assumes "length bs = n" "8 * n \<le> LENGTH('a::len)"
  shows "le_bytes n (le_word bs :: 'a word) = bs"
proof (rule nth_equalityI)
  show "length (le_bytes n (le_word bs :: 'a word)) = length bs" using assms by simp
next
  fix i assume "i < length (le_bytes n (le_word bs :: 'a word))"
  then have i: "i < n" by simp
  show "le_bytes n (le_word bs :: 'a word) ! i = bs ! i"
  proof (rule bit_word_eqI)
    fix k assume k: "k < LENGTH(8)"
    then have k8: "k < 8" by simp
    have d: "(8 * i + k) div 8 = i" using k8 by simp
    have m: "(8 * i + k) mod 8 = k" using k8 by simp
    have l: "8 * i + k < LENGTH('a)" using i assms k8 by linarith
    show "bit (le_bytes n (le_word bs :: 'a word) ! i) k = bit (bs ! i) k"
      using i assms k l by (simp add: nth_le_bytes bit_ucast_iff bit_drop_bit_eq bit_le_word d m)
  qed
qed

section \<open>Byte memory\<close>

definition read_bytes :: "mem \<Rightarrow> addr \<Rightarrow> nat \<Rightarrow> u8 list" where
  "read_bytes m a n = map (\<lambda>i. m (a + of_nat i)) [0..<n]"

definition write_bytes :: "mem \<Rightarrow> addr \<Rightarrow> u8 list \<Rightarrow> mem" where
  "write_bytes m a bs = (\<lambda>x. let k = unat (x - a) in if k < length bs then bs ! k else m x)"

definition read32 :: "mem \<Rightarrow> addr \<Rightarrow> u32" where
  "read32 m a = le_word (read_bytes m a 4)"

definition read64 :: "mem \<Rightarrow> addr \<Rightarrow> u64" where
  "read64 m a = le_word (read_bytes m a 8)"

definition write32 :: "mem \<Rightarrow> addr \<Rightarrow> u32 \<Rightarrow> mem" where
  "write32 m a v = write_bytes m a (le_bytes 4 v)"

definition write64 :: "mem \<Rightarrow> addr \<Rightarrow> u64 \<Rightarrow> mem" where
  "write64 m a v = write_bytes m a (le_bytes 8 v)"

text \<open>The bytes \<open>[a, a + n)\<close> and \<open>[b, b + k)\<close> share no address (both modulo \<open>2 ^ 64\<close>).\<close>

definition disjoint_rng :: "addr \<Rightarrow> nat \<Rightarrow> addr \<Rightarrow> nat \<Rightarrow> bool" where
  "disjoint_rng a n b k \<longleftrightarrow> (n = 0 \<or> k = 0 \<or> (k \<le> unat (a - b) \<and> n \<le> unat (b - a)))"


lemma length_read_bytes [simp]: "length (read_bytes m a n) = n"
  by (simp add: read_bytes_def)

lemma nth_read_bytes: "i < n \<Longrightarrow> read_bytes m a n ! i = m (a + of_nat i)"
  by (simp add: read_bytes_def)

lemma read_bytes_0 [simp]: "read_bytes m a 0 = []"
  by (simp add: read_bytes_def)

lemma write_bytes_Nil [simp]: "write_bytes m a [] = m"
  by (simp add: write_bytes_def)

lemma unat_of_nat_u64: "n < 2 ^ 64 \<Longrightarrow> unat (of_nat n :: 64 word) = n"
  by (simp add: unat_of_nat take_bit_nat_eq_self)

lemma read_bytes_sub:
  "k + n \<le> N \<Longrightarrow> read_bytes m (a + of_nat k) n = take n (drop k (read_bytes m a N))"
  by (rule nth_equalityI) (auto simp: nth_read_bytes add.assoc)

lemma read_bytes_append:
  "read_bytes m a (n + k) = read_bytes m a n @ read_bytes m (a + of_nat n) k"
  by (rule nth_equalityI) (auto simp: nth_read_bytes nth_append)

text \<open>Reading back a part of what has just been written.\<close>

lemma read_write_sub:
  assumes "k + n \<le> length bs" "length bs \<le> 2 ^ 64"
  shows "read_bytes (write_bytes m a bs) (a + of_nat k) n = take n (drop k bs)"
proof (rule nth_equalityI)
  show "length (read_bytes (write_bytes m a bs) (a + of_nat k) n) = length (take n (drop k bs))"
    using assms by simp
next
  fix i assume "i < length (read_bytes (write_bytes m a bs) (a + of_nat k) n)"
  then have i: "i < n" by simp
  have e: "a + of_nat k + of_nat i - a = (of_nat (k + i) :: 64 word)" by simp
  have "k + i < 2 ^ 64" using assms i by linarith
  then have u: "unat (of_nat (k + i) :: 64 word) = k + i" by (rule unat_of_nat_u64)
  have lt: "k + i < length bs" using assms i by linarith
  show "read_bytes (write_bytes m a bs) (a + of_nat k) n ! i = take n (drop k bs) ! i"
    unfolding nth_read_bytes [OF i] write_bytes_def e Let_def u using i lt assms by simp
qed

lemma read_write_same [mem_simps]:
  "length bs \<le> 2 ^ 64 \<Longrightarrow> read_bytes (write_bytes m a bs) a (length bs) = bs"
  using read_write_sub [of 0 "length bs" bs m a] by simp

lemma write_read_same: "n \<le> 2 ^ 64 \<Longrightarrow> write_bytes m a (read_bytes m a n) = m"
  by (rule ext) (auto simp: write_bytes_def Let_def nth_read_bytes)

lemma write_write_same:
  "length bs = length cs \<Longrightarrow> write_bytes (write_bytes m a bs) a cs = write_bytes m a cs"
  by (rule ext) (auto simp: write_bytes_def Let_def)

lemma write_write_cover:
  "length bs \<le> length cs \<Longrightarrow> write_bytes (write_bytes m a bs) a cs = write_bytes m a cs"
  by (rule ext) (auto simp: write_bytes_def Let_def)

lemma unat_sub_add_u64:
  fixes x y :: u64
  assumes "unat x + n < 2 ^ 64"
  shows "unat (x + of_nat n) = unat x + n"
proof -
  have "unat (of_nat n :: u64) = n" by (rule unat_of_nat_u64) (use assms in linarith)
  then show ?thesis using assms by (simp add: unat_word_ariths take_bit_nat_eq_self)
qed

lemma disjoint_rng_sym: "disjoint_rng a n b k = disjoint_rng b k a n"
  by (auto simp: disjoint_rng_def)

lemma unat_lt_u64: "unat (x :: u64) < 2 ^ 64"
  using unsigned_less [of x, where ?'a = nat] by simp

lemma unat_diff_swap:
  fixes a b :: u64
  assumes "a \<noteq> b"
  shows "unat (a - b) + unat (b - a) = 2 ^ 64"
proof -
  have "b - a = - (a - b)" by simp
  then have "uint (b - a) = (- uint (a - b)) mod 2 ^ 64"
    using uint_word_ariths(4) [of "a - b"] by simp
  moreover have "uint (a - b) mod 2 ^ 64 = uint (a - b)"
    using uint_bounded [of "a - b"] by (simp add: mod_pos_pos_trivial)
  moreover have "uint (a - b) \<noteq> 0" using assms by (simp add: uint_0_iff)
  ultimately have "uint (b - a) = 2 ^ 64 - uint (a - b)"
    by (simp add: zmod_zminus1_eq_if)
  then have "int (unat (a - b) + unat (b - a)) = int (2 ^ 64)" by simp
  then show ?thesis by (simp only: of_nat_eq_iff)
qed

lemma disjoint_rng_far:
  assumes "disjoint_rng a n b k" "i < n"
  shows "k \<le> unat (a + of_nat i - b)"
proof (cases "k = 0")
  case False
  with assms have d: "k \<le> unat (a - b)" "n \<le> unat (b - a)" by (auto simp: disjoint_rng_def)
  with False have "a \<noteq> b" by auto
  then have "unat (a - b) + i < 2 ^ 64" using unat_diff_swap [of a b] d assms(2) by linarith
  then have "unat (a - b + of_nat i) = unat (a - b) + i" by (rule unat_sub_add_u64)
  moreover have "a + of_nat i - b = a - b + of_nat i" by simp
  ultimately show ?thesis using d(1) by (metis trans_le_add1)
qed simp

text \<open>A write changes nothing outside its own range.\<close>

lemma read_write_disjoint [mem_simps]:
  assumes "disjoint_rng a n b (length bs)"
  shows "read_bytes (write_bytes m b bs) a n = read_bytes m a n"
proof (rule nth_equalityI)
  fix i assume "i < length (read_bytes (write_bytes m b bs) a n)"
  then have i: "i < n" by simp
  from disjoint_rng_far [OF assms i]
  show "read_bytes (write_bytes m b bs) a n ! i = read_bytes m a n ! i"
    using i by (simp add: nth_read_bytes write_bytes_def Let_def)
qed simp

lemma write_bytes_append:
  assumes "length bs + length cs \<le> 2 ^ 64"
  shows "write_bytes (write_bytes m a bs) (a + of_nat (length bs)) cs = write_bytes m a (bs @ cs)"
proof (rule ext)
  fix x
  let ?d = "unat (x - a)"
  have d: "x - (a + of_nat (length bs)) = x - a - of_nat (length bs)" by simp
  show "write_bytes (write_bytes m a bs) (a + of_nat (length bs)) cs x = write_bytes m a (bs @ cs) x"
  proof (cases "length bs \<le> ?d")
    case True
    then have lb: "length bs < 2 ^ 64" using unat_lt_u64 [of "x - a"] by simp
    then have "(of_nat (length bs) :: u64) \<le> x - a"
      using True by (simp add: word_le_nat_alt unat_of_nat_u64)
    then have "unat (x - a - of_nat (length bs)) = ?d - length bs"
      using lb by (simp add: unat_sub unat_of_nat_u64)
    then show ?thesis using True by (auto simp: write_bytes_def Let_def d nth_append)
  next
    case False
    then have lt: "?d < length bs" by simp
    show ?thesis
    proof (cases "length bs < 2 ^ 64")
      case True
      let ?n = "of_nat (length bs) :: u64"
      have "unat ?n = length bs" using True by (rule unat_of_nat_u64)
      then have ne: "x - a \<noteq> ?n" using lt by auto
      have "unat (?n - (x - a)) = length bs - ?d"
        using True lt by (simp add: unat_sub word_le_nat_alt unat_of_nat_u64)
      then have "unat (x - a - ?n) = 2 ^ 64 - (length bs - ?d)"
        using unat_diff_swap [OF ne] by simp
      then have "length cs \<le> unat (x - a - ?n)" using assms lt by simp
      then show ?thesis using lt by (auto simp: write_bytes_def Let_def d nth_append)
    next
      case False
      then have "length cs = 0" using assms lt by linarith
      then have "cs = []" by simp
      then show ?thesis by simp
    qed
  qed
qed

lemma disjoint_off:
  assumes "unat p + n \<le> unat q" "unat q + k \<le> 2 ^ 64"
  shows "disjoint_rng (base + p) n (base + q) k"
proof (cases "n = 0 \<or> k = 0")
  case False
  then have pq: "unat p < unat q" using assms by simp
  then have ne: "q \<noteq> p" by auto
  have 1: "unat (q - p) = unat q - unat p"
    using pq by (simp add: unat_sub word_le_nat_alt)
  have 2: "base + p - (base + q) = p - q" "base + q - (base + p) = q - p" by simp_all
  have "unat (p - q) = 2 ^ 64 - (unat q - unat p)" using unat_diff_swap [OF ne] 1 by linarith
  moreover have "k \<le> 2 ^ 64 - (unat q - unat p)" "n \<le> unat q - unat p"
    using assms pq by linarith+
  ultimately show ?thesis using 1 by (simp only: disjoint_rng_def 2 simp_thms)
qed (auto simp: disjoint_rng_def)

lemma disjoint_off_rev:
  "unat q + k \<le> unat p \<Longrightarrow> unat p + n \<le> 2 ^ 64 \<Longrightarrow> disjoint_rng (base + p) n (base + q) k"
  using disjoint_off [of q k p n base] by (simp add: disjoint_rng_sym)


section \<open>Field reads at word offsets\<close>

lemma read_write_off:
  assumes "unat p + n \<le> length bs" "length bs \<le> 2 ^ 64"
  shows "read_bytes (write_bytes m a bs) (a + p) n = take n (drop (unat p) bs)"
  using read_write_sub [OF assms, of m a] by simp

lemma read_bytes_off:
  "unat p + n \<le> N \<Longrightarrow> read_bytes m (a + p) n = take n (drop (unat p) (read_bytes m a N))"
  using read_bytes_sub [of "unat p" n N m a] by simp

lemma read_bytes_off_cong:
  assumes "read_bytes m a N = read_bytes m' a N" "unat p + n \<le> N"
  shows "read_bytes m (a + p) n = read_bytes m' (a + p) n"
  using assms by (simp add: read_bytes_off)

lemma read_bytes_pre_cong:
  assumes "read_bytes m a N = read_bytes m' a N" "n \<le> N"
  shows "read_bytes m a n = read_bytes m' a n"
  using read_bytes_off_cong [of m a N m' 0 n] assms by simp

text \<open>A sub-range of a range disjoint from another is disjoint from it.\<close>

lemma disjoint_rng_sub:
  assumes d: "disjoint_rng a n b k" and s: "unat p + i \<le> n" and n: "n \<le> 2 ^ 64"
  shows "disjoint_rng (a + p) i b k"
proof (cases "i = 0 \<or> k = 0")
  case False
  then have ik: "0 < i" "0 < k" by auto
  from d s ik have d': "k \<le> unat (a - b)" "n \<le> unat (b - a)" by (auto simp: disjoint_rng_def)
  have ne: "a \<noteq> b" using d' ik by auto
  have sw: "unat (a - b) + unat (b - a) = 2 ^ 64" by (rule unat_diff_swap [OF ne])
  have 1: "unat (a - b + p) = unat (a - b) + unat p"
    using unat_sub_add_u64 [of "a - b" "unat p"] sw d' s ik by simp
  have e: "a + p - b = a - b + p" by simp
  have ge: "k \<le> unat (a + p - b)" unfolding e 1 using d' by linarith
  have ne': "a + p \<noteq> b" using ge ik by auto
  have sw': "unat (a + p - b) + unat (b - (a + p)) = 2 ^ 64" by (rule unat_diff_swap [OF ne'])
  have "i \<le> unat (b - (a + p))" using sw sw' 1 d' s unfolding e by linarith
  with ge show ?thesis by (simp add: disjoint_rng_def)
qed (auto simp: disjoint_rng_def)

section \<open>Block copies\<close>

text \<open>
  A copy between two ranges of one memory, all bytes read before any is written: the effect of
  \<open>memcpy\<close> where it is defined (the ranges do not overlap).
\<close>

definition memcpy :: "mem \<Rightarrow> addr \<Rightarrow> addr \<Rightarrow> nat \<Rightarrow> mem" where
  "memcpy m dst src n = write_bytes m dst (read_bytes m src n)"

definition memset :: "mem \<Rightarrow> addr \<Rightarrow> u8 \<Rightarrow> nat \<Rightarrow> mem" where
  "memset m dst v n = write_bytes m dst (replicate n v)"

lemma read_memcpy: "n \<le> 2 ^ 64 \<Longrightarrow> read_bytes (memcpy m dst src n) dst n = read_bytes m src n"
  using read_write_same [of "read_bytes m src n" m dst] by (simp add: memcpy_def)

lemma read_memcpy_frame [mem_simps]:
  "disjoint_rng a k dst n \<Longrightarrow> read_bytes (memcpy m dst src n) a k = read_bytes m a k"
  by (simp add: memcpy_def read_write_disjoint)

lemma read_memset: "n \<le> 2 ^ 64 \<Longrightarrow> read_bytes (memset m dst v n) dst n = replicate n v"
  using read_write_same [of "replicate n v" m dst] by (simp add: memset_def)

section \<open>Cache lines\<close>

definition align_down :: "u64 \<Rightarrow> u64 \<Rightarrow> u64" where
  "align_down v al = v AND NOT (al - 1)"

definition align_up :: "u64 \<Rightarrow> u64 \<Rightarrow> u64" where
  "align_up v al = (v + al - 1) AND NOT (al - 1)"

lemma and_not_mask: "(v :: u64) AND NOT (mask n) = push_bit n (drop_bit n v)"
  by (rule bit_word_eqI)
    (auto simp: bit_and_iff bit_not_iff bit_mask_iff bit_push_bit_iff bit_drop_bit_eq)

lemma mask_6_u64: "(64 :: u64) - 1 = mask 6"
  by (simp add: mask_eq_exp_minus_1)

lemma unat_align_down_64: "unat (align_down v 64) = 64 * (unat v div 64)"
proof -
  have "unat (push_bit 6 (drop_bit 6 v)) = take_bit 64 (push_bit 6 (drop_bit 6 (unat v)))"
    using unat_lt_u64 [of v] by (simp only: unsigned_push_bit_eq unsigned_drop_bit_eq) (simp add: take_bit_nat_eq_self)
  also have "\<dots> = take_bit 64 (64 * (unat v div 64))"
    by (simp add: push_bit_eq_mult drop_bit_eq_div mult.commute)
  finally have "unat (push_bit 6 (drop_bit 6 v)) = take_bit 64 (64 * (unat v div 64))" .
  moreover have "64 * (unat v div 64) < 2 ^ 64" using unat_lt_u64 [of v] by simp
  ultimately show ?thesis
    unfolding align_down_def mask_6_u64 and_not_mask by (simp add: take_bit_nat_eq_self)
qed

lemma align_up_64_eq: "align_up v 64 = align_down (v + 63) 64"
  by (simp add: align_up_def align_down_def add.commute)

lemma align_down_le: "align_down v 64 \<le> v"
  by (simp add: word_le_nat_alt unat_align_down_64)

lemma unat_align_down_dvd: "64 dvd unat (align_down v 64)"
  by (simp add: unat_align_down_64)

lemma align_down_idem [simp]: "align_down (align_down v 64) 64 = align_down v 64"
  by (rule unsigned_word_eqI [where ?'a = nat]) (simp add: unat_align_down_64)

lemma align_down_aligned: "64 dvd unat v \<Longrightarrow> align_down v 64 = v"
  by (rule unsigned_word_eqI [where ?'a = nat]) (simp add: unat_align_down_64)

lemma unat_ucast_u32_u64 [simp]: "unat (ucast (d :: u32) :: u64) = unat d"
proof -
  have "unat d < 2 ^ 32" using unsigned_less [of d, where ?'a = nat] by simp
  then show ?thesis by (simp add: unsigned_ucast_eq take_bit_nat_eq_self)
qed

lemma unat_suc_u64: "unat (a :: u64) < unat (b :: u64) \<Longrightarrow> unat (a + 1) = unat a + 1"
  using unat_lt_u64 [of b] by (simp add: unat_word_ariths(1))

lemma unat_suc_less:
  assumes "(i :: 'a::len word) < n"
  shows "unat (i + 1) = unat i + 1"
proof -
  have "unat i < unat n" using assms by (simp add: word_less_nat_alt)
  moreover have "unat n < 2 ^ LENGTH('a)" by (rule unsigned_less)
  ultimately have "Suc (unat i) < 2 ^ LENGTH('a)" by linarith
  then show ?thesis by (simp add: unat_word_ariths)
qed

end
