(* ===== verification/C_Env.thy ===== *)
theory C_Env
  imports Prelude
begin

text \<open>
  The C library functions the runtime configures itself with: \<open>strtoull\<close> with base 0 (as
  ISO C describes it), and the process environment as a function from names to values. The three
  wrappers are the ones of \<^verbatim>\<open>CiraRuntime.cpp\<close> and \<^verbatim>\<open>cira_mmio.cpp\<close>:
  one falls back to a default and accepts trailing text, two demand that the whole text is a
  number. C strings hold no NUL, so a \<open>string\<close> is the text up to its terminator.
\<close>

type_synonym env = "string \<Rightarrow> string option"

section \<open>strtoull\<close>

definition c_isspace :: "char \<Rightarrow> bool" where
  "c_isspace c \<longleftrightarrow> (let n = (of_char c :: nat) in n = 32 \<or> (9 \<le> n \<and> n \<le> 13))"

definition digit_val :: "char \<Rightarrow> nat option" where
  "digit_val c = (let n = (of_char c :: nat) in
     if 48 \<le> n \<and> n \<le> 57 then Some (n - 48)
     else if 97 \<le> n \<and> n \<le> 122 then Some (n - 87)
     else if 65 \<le> n \<and> n \<le> 90 then Some (n - 55)
     else None)"

definition is_digit :: "nat \<Rightarrow> char \<Rightarrow> bool" where
  "is_digit base c \<longleftrightarrow> (case digit_val c of None \<Rightarrow> False | Some d \<Rightarrow> d < base)"

text \<open>The value of the longest digit prefix, and how many characters it has.\<close>

fun scan_digits :: "nat \<Rightarrow> string \<Rightarrow> nat \<Rightarrow> nat \<times> nat" where
  "scan_digits base [] acc = (acc, 0)"
| "scan_digits base (c # cs) acc =
     (case digit_val c of
        None \<Rightarrow> (acc, 0)
      | Some d \<Rightarrow> if d < base then
                   (case scan_digits base cs (acc * base + d) of (v, n) \<Rightarrow> (v, Suc n))
                 else (acc, 0))"

text \<open>Base 0: \<open>0x\<close> before a hexadecimal digit is base 16, a leading \<open>0\<close> base 8, else base 10.\<close>

definition scan_base0 :: "string \<Rightarrow> nat \<times> nat" where
  "scan_base0 s =
     (if 2 < length s \<and> s ! 0 = CHR ''0'' \<and> (s ! 1 = CHR ''x'' \<or> s ! 1 = CHR ''X'')
         \<and> is_digit 16 (s ! 2)
      then (case scan_digits 16 (drop 2 s) 0 of (v, n) \<Rightarrow> (v, n + 2))
      else if s \<noteq> [] \<and> hd s = CHR ''0'' then scan_digits 8 s 0
      else scan_digits 10 s 0)"

text \<open>
  The result: value, number of characters consumed (\<open>end - text\<close>; 0 when there is no number) and
  whether \<open>errno\<close> is ERANGE. A minus sign negates the value modulo \<open>2 ^ 64\<close>; a magnitude that
  does not fit gives \<open>ULLONG_MAX\<close>.
\<close>

definition strtoull0 :: "string \<Rightarrow> u64 \<times> nat \<times> bool" where
  "strtoull0 s =
     (let sp = length (takeWhile c_isspace s);
          t = dropWhile c_isspace s;
          neg = (t \<noteq> [] \<and> hd t = CHR ''-'');
          sg = (if t \<noteq> [] \<and> (hd t = CHR ''-'' \<or> hd t = CHR ''+'') then 1 else 0);
          (v, n) = scan_base0 (drop sg t)
      in if n = 0 then (0, 0, False)
         else if 2 ^ 64 \<le> v then (- 1, sp + sg + n, True)
         else (if neg then - of_nat v else of_nat v, sp + sg + n, False))"

section \<open>Environment lookups\<close>

text \<open>\<^verbatim>\<open>CiraRuntime.cpp\<close>, \<open>parse_env_u64_default\<close>: trailing text is ignored.\<close>

definition parse_env_u64_default :: "env \<Rightarrow> string \<Rightarrow> u64 \<Rightarrow> u64" where
  "parse_env_u64_default env name fallback =
     (case env name of
        None \<Rightarrow> fallback
      | Some value \<Rightarrow>
          if value = [] then fallback
          else (case strtoull0 value of (parsed, n, erange) \<Rightarrow>
                 if erange \<or> n = 0 then fallback else parsed))"

definition env_equals :: "env \<Rightarrow> string \<Rightarrow> string \<Rightarrow> bool" where
  "env_equals env name expected \<longleftrightarrow> env name = Some expected"

text \<open>
  \<^verbatim>\<open>CiraRuntime.cpp\<close>, \<open>parse_env_u64\<close>: \<open>None\<close> is the return value \<open>false\<close>, where the caller's
  variable keeps its value.
\<close>

definition parse_env_u64 :: "env \<Rightarrow> string \<Rightarrow> u64 option" where
  "parse_env_u64 env name =
     (case env name of
        None \<Rightarrow> None
      | Some text \<Rightarrow>
          if text = [] then None
          else (case strtoull0 text of (parsed, n, erange) \<Rightarrow>
                 if erange \<or> n = 0 \<or> n \<noteq> length text then None else Some parsed))"

definition env_flag_enabled :: "env \<Rightarrow> string \<Rightarrow> bool" where
  "env_flag_enabled env name \<longleftrightarrow>
     (case env name of None \<Rightarrow> False | Some value \<Rightarrow> value \<noteq> [] \<and> value \<noteq> ''0'')"

text \<open>
  \<^verbatim>\<open>cira_mmio.cpp\<close>, \<open>parse_env_u64\<close>: the primary name, then the legacy alias if there is one;
  a name whose value does not parse is skipped.
\<close>

fun parse_env_names :: "env \<Rightarrow> string option list \<Rightarrow> u64 option" where
  "parse_env_names env [] = None"
| "parse_env_names env (None # ns) = parse_env_names env ns"
| "parse_env_names env (Some name # ns) =
     (case parse_env_u64 env name of None \<Rightarrow> parse_env_names env ns | Some v \<Rightarrow> Some v)"

definition mmio_parse_env_u64 :: "env \<Rightarrow> string \<Rightarrow> string option \<Rightarrow> u64 option" where
  "mmio_parse_env_u64 env primary legacy = parse_env_names env [Some primary, legacy]"

definition mmio_env_str :: "env \<Rightarrow> string \<Rightarrow> string option \<Rightarrow> string option" where
  "mmio_env_str env primary legacy =
     (case env primary of
        Some v \<Rightarrow> if v \<noteq> [] then Some v else
          (case legacy of None \<Rightarrow> None | Some l \<Rightarrow>
             (case env l of Some w \<Rightarrow> if w \<noteq> [] then Some w else None | None \<Rightarrow> None))
      | None \<Rightarrow>
          (case legacy of None \<Rightarrow> None | Some l \<Rightarrow>
             (case env l of Some w \<Rightarrow> if w \<noteq> [] then Some w else None | None \<Rightarrow> None)))"

section \<open>Numbers written in decimal\<close>

fun dec_digits :: "nat \<Rightarrow> string" where
  "dec_digits n = (if n < 10 then [char_of (48 + n)] else dec_digits (n div 10) @ [char_of (48 + n mod 10)])"

declare dec_digits.simps [simp del]

lemma digit_val_dec [simp]: "d < 10 \<Longrightarrow> digit_val (char_of (48 + d :: nat)) = Some d"
  by (simp add: digit_val_def Let_def of_char_of)

lemma scan_digits_snoc:
  assumes "\<forall>c \<in> set cs. is_digit base c" "digit_val d = Some k" "k < base"
  shows "scan_digits base (cs @ [d]) acc =
    (case scan_digits base cs acc of (v, n) \<Rightarrow> (v * base + k, Suc n))"
  using assms(1)
proof (induction cs arbitrary: acc)
  case Nil
  then show ?case using assms by simp
next
  case (Cons c cs)
  then show ?case by (auto simp: is_digit_def split: option.splits prod.splits)
qed

lemma dec_digits_are_digits: "\<forall>c \<in> set (dec_digits n). is_digit 10 c"
proof (induction n rule: dec_digits.induct)
  case (1 n)
  show ?case
    using 1 by (subst dec_digits.simps) (auto simp: is_digit_def)
qed

lemma scan_dec_digits: "scan_digits 10 (dec_digits n) 0 = (n, length (dec_digits n))"
proof (induction n rule: dec_digits.induct)
  case (1 n)
  show ?case
  proof (cases "n < 10")
    case True
    then show ?thesis by (subst (1 2) dec_digits.simps) simp
  next
    case False
    then have IH: "scan_digits 10 (dec_digits (n div 10)) 0 = (n div 10, length (dec_digits (n div 10)))"
      using 1 by simp
    have "scan_digits 10 (dec_digits (n div 10) @ [char_of (48 + n mod 10)]) 0
        = (n div 10 * 10 + n mod 10, Suc (length (dec_digits (n div 10))))"
      using scan_digits_snoc [OF dec_digits_are_digits, of "char_of (48 + n mod 10)" "n mod 10" "n div 10" 0]
      by (simp add: IH)
    then show ?thesis using False by (subst (1 2) dec_digits.simps) simp
  qed
qed

lemma dec_digits_hd: "0 < n \<Longrightarrow> hd (dec_digits n) \<noteq> CHR ''0'' \<and> dec_digits n \<noteq> []"
proof (induction n rule: dec_digits.induct)
  case (1 n)
  show ?case
  proof (cases "n < 10")
    case True
    then have "char_of (48 + n) \<noteq> (CHR ''0'' :: char)"
      using 1(2) by (auto dest: arg_cong [where f = "of_char :: char \<Rightarrow> nat"] simp: of_char_of)
    then show ?thesis using True by (subst (1 2) dec_digits.simps) simp
  next
    case False
    then have "0 < n div 10" by simp
    with 1(1) [OF False] False show ?thesis by (subst (1 2) dec_digits.simps) simp
  qed
qed

lemma digit_hd:
  assumes "is_digit 10 c"
  shows "\<not> c_isspace c" "c \<noteq> CHR ''-''" "c \<noteq> CHR ''+''"
  using assms by (auto simp: is_digit_def digit_val_def c_isspace_def Let_def split: if_splits)

lemma strtoull0_dec:
  assumes "n < 2 ^ 64"
  shows "strtoull0 (dec_digits n) = (of_nat n, length (dec_digits n), False)"
proof -
  obtain c cs where cc: "dec_digits n = c # cs"
    by (cases "dec_digits n") (auto simp: dec_digits.simps [of n] split: if_splits)
  have d: "is_digit 10 c" using dec_digits_are_digits [of n] cc by simp
  have sb: "scan_base0 (dec_digits n) = (n, length (dec_digits n))"
  proof (cases "n = 0")
    case True
    have "char_of (48 :: nat) = CHR ''0''" by code_simp
    then have "dec_digits 0 = ''0''" by (simp add: dec_digits.simps)
    then show ?thesis using True by (simp add: scan_base0_def digit_val_def)
  next
    case False
    then have "hd (dec_digits n) \<noteq> CHR ''0''" using dec_digits_hd [of n] by simp
    then show ?thesis
      by (simp only: scan_base0_def scan_dec_digits) (auto simp: cc)
  qed
  have "takeWhile c_isspace (dec_digits n) = []" "dropWhile c_isspace (dec_digits n) = dec_digits n"
    using digit_hd [OF d] by (simp_all add: cc)
  moreover have "hd (dec_digits n) \<noteq> CHR ''-''" "hd (dec_digits n) \<noteq> CHR ''+''"
    using digit_hd [OF d] by (simp_all add: cc)
  ultimately show ?thesis using assms sb by (simp add: strtoull0_def cc)
qed

text \<open>A knob written in decimal is read back as the number, by all three wrappers.\<close>

lemma parse_env_u64_dec:
  assumes "n < 2 ^ 64" "env name = Some (dec_digits n)"
  shows "parse_env_u64 env name = Some (of_nat n)"
    and "parse_env_u64_default env name d = of_nat n"
proof -
  have "dec_digits n \<noteq> []" by (auto simp: dec_digits.simps [of n])
  then show "parse_env_u64 env name = Some (of_nat n)" "parse_env_u64_default env name d = of_nat n"
    using assms by (simp_all add: parse_env_u64_def parse_env_u64_default_def strtoull0_dec)
qed

text \<open>Every decimal knob survives the trip through the environment: the number written is the number
  the runtime uses, over the whole 64-bit range, in each of its three parsers.\<close>

theorem decimal_knob_roundtrip:
  assumes "n < 2 ^ 64" "env name = Some (dec_digits n)"
  shows "parse_env_u64 env name = Some (of_nat n) \<and> parse_env_u64_default env name d = of_nat n
    \<and> mmio_parse_env_u64 env name fallback = Some (of_nat n)"
proof -
  have "dec_digits n \<noteq> []" by (auto simp: dec_digits.simps [of n])
  then show ?thesis
    using assms parse_env_u64_dec [of n env name]
    by (simp add: mmio_parse_env_u64_def strtoull0_dec)
qed

lemma decimal_knob_roundtrip_witness:
  "parse_env_u64 (\<lambda>_. Some (dec_digits 4096)) ''CIRA_LLC_SETS'' = Some 4096"
  using decimal_knob_roundtrip [of 4096 "\<lambda>_. Some (dec_digits 4096)" "''CIRA_LLC_SETS''"] by simp

end
