(* ===== verification/Mwait.thy ===== *)
theory Mwait
  imports C_Env
begin

text \<open>
  The cache-resident wait of \<^verbatim>\<open>runtime/cira_mwait.cpp\<close>: selection of the wait instruction
  from the environment and CPUID, and the wait loop itself. The flag is written by another agent
  (the device), so the loop is run against two input streams: \<open>obs k\<close> is the value its \<open>k\<close>-th
  load of the flag returns, \<open>clk c\<close> the value of its \<open>c\<close>-th reading of the clock. The monitor
  instructions only decide when the next load happens, so they are the trace
  \<open>monitor_wait_once\<close> and take no part in the loop's result.
\<close>

section \<open>Backends\<close>

datatype backend = CIRA_WAIT_SPIN | CIRA_WAIT_UMWAIT | CIRA_WAIT_TPAUSE | CIRA_WAIT_MWAITX | CIRA_WAIT_WFE

text \<open>The target the file is compiled for, and what CPUID reports there.\<close>

datatype arch = X86 | AArch64 | Other_Arch

record cpu =
  cpu_arch :: arch
  cpuid_max_leaf :: u32
  cpuid_7_ecx :: u32
  cpuid_max_ext :: u32
  cpuid_80000001_ecx :: u32

definition cpu_has_waitpkg :: "cpu \<Rightarrow> bool" where
  "cpu_has_waitpkg c \<longleftrightarrow> (if cpuid_max_leaf c < 7 then False else bit (cpuid_7_ecx c) 5)"

definition cpu_has_monitorx :: "cpu \<Rightarrow> bool" where
  "cpu_has_monitorx c \<longleftrightarrow>
     (if cpuid_max_ext c < 0x80000001 then False else bit (cpuid_80000001_ecx c) 29)"

fun backend_supported :: "cpu \<Rightarrow> backend \<Rightarrow> bool" where
  "backend_supported c CIRA_WAIT_SPIN = True"
| "backend_supported c CIRA_WAIT_UMWAIT = (cpu_arch c = X86 \<and> cpu_has_waitpkg c)"
| "backend_supported c CIRA_WAIT_TPAUSE = (cpu_arch c = X86 \<and> cpu_has_waitpkg c)"
| "backend_supported c CIRA_WAIT_MWAITX = (cpu_arch c = X86 \<and> cpu_has_monitorx c)"
| "backend_supported c CIRA_WAIT_WFE = (cpu_arch c = AArch64)"

definition backend_from_env :: "env \<Rightarrow> backend option" where
  "backend_from_env env =
     (case env ''CIRA_WAIT_BACKEND'' of
        None \<Rightarrow> None
      | Some v \<Rightarrow>
          if v = [] then None
          else if v = ''spin'' then Some CIRA_WAIT_SPIN
          else if v = ''umwait'' then Some CIRA_WAIT_UMWAIT
          else if v = ''tpause'' then Some CIRA_WAIT_TPAUSE
          else if v = ''mwaitx'' then Some CIRA_WAIT_MWAITX
          else if v = ''wfe'' then Some CIRA_WAIT_WFE
          else None)"

definition detect_backend :: "env \<Rightarrow> cpu \<Rightarrow> backend" where
  "detect_backend env c =
     (case backend_from_env env of
        Some forced \<Rightarrow> if backend_supported c forced then forced else CIRA_WAIT_SPIN
      | None \<Rightarrow>
          (case cpu_arch c of
             X86 \<Rightarrow> if cpu_has_waitpkg c then CIRA_WAIT_UMWAIT
                    else if cpu_has_monitorx c then CIRA_WAIT_MWAITX else CIRA_WAIT_SPIN
           | AArch64 \<Rightarrow> CIRA_WAIT_WFE
           | Other_Arch \<Rightarrow> CIRA_WAIT_SPIN))"

text \<open>The process-wide atomics: the chosen backend (\<open>None\<close> is \<open>-1\<close>, not detected) and the knobs.\<close>

record wait_globals =
  g_backend :: "backend option"
  g_spin_budget :: u32
  g_tsc_hz :: u64

definition init_wait_globals :: wait_globals where
  "init_wait_globals = \<lparr>g_backend = None, g_spin_budget = 4096, g_tsc_hz = 0\<rparr>"

definition current_backend :: "env \<Rightarrow> cpu \<Rightarrow> wait_globals \<Rightarrow> backend \<times> wait_globals" where
  "current_backend env c g =
     (case g_backend g of
        Some b \<Rightarrow> (b, g)
      | None \<Rightarrow> (let detected = detect_backend env c in (detected, g\<lparr>g_backend := Some detected\<rparr>)))"

definition cira_wait_set_backend :: "cpu \<Rightarrow> backend \<Rightarrow> wait_globals \<Rightarrow> wait_globals" where
  "cira_wait_set_backend c b g =
     g\<lparr>g_backend := Some (if backend_supported c b then b else CIRA_WAIT_SPIN)\<rparr>"

definition cira_wait_set_spin_budget :: "u32 \<Rightarrow> wait_globals \<Rightarrow> wait_globals" where
  "cira_wait_set_spin_budget n g = g\<lparr>g_spin_budget := n\<rparr>"

fun cira_wait_backend_name :: "backend \<Rightarrow> string" where
  "cira_wait_backend_name CIRA_WAIT_SPIN = ''spin''"
| "cira_wait_backend_name CIRA_WAIT_UMWAIT = ''umwait''"
| "cira_wait_backend_name CIRA_WAIT_TPAUSE = ''tpause''"
| "cira_wait_backend_name CIRA_WAIT_MWAITX = ''mwaitx''"
| "cira_wait_backend_name CIRA_WAIT_WFE = ''wfe''"

text \<open>
  \<open>cira_wait_tsc_hz\<close>: two readings of the cycle counter around a nap. Like the code it computes
  \<open>(c1 - c0) * 10\<^sup>9\<close> in 64 bits.
\<close>

definition cira_wait_tsc_hz :: "u64 \<Rightarrow> u64 \<Rightarrow> u64 \<Rightarrow> u64 \<Rightarrow> wait_globals \<Rightarrow> u64 \<times> wait_globals" where
  "cira_wait_tsc_hz c0 t0 t1 c1 g =
     (if g_tsc_hz g \<noteq> 0 then (g_tsc_hz g, g)
      else if c0 = 0 then (0, g)
      else if t1 \<le> t0 \<or> c1 \<le> c0 then (0, g)
      else (let hz = (c1 - c0) * 1000000000 div (t1 - t0) in (hz, g\<lparr>g_tsc_hz := hz\<rparr>)))"

section \<open>One monitored sleep\<close>

datatype wait_insn = Umonitor addr | Umwait u32 u64 | Tpause u32 u64 | Monitorx addr | Mwaitx u32
  | Ldxr addr | Wfe | Relax

definition kWaitQuantumCycles :: u64 where "kWaitQuantumCycles = 20000"

text \<open>
  The instructions a sleep on \<open>addr\<close> executes, for the backend in force; \<open>cycles\<close> is the reading
  of the cycle counter. A backend the target has no case for takes the default branch.
\<close>

definition monitor_insns :: "arch \<Rightarrow> backend \<Rightarrow> addr \<Rightarrow> u64 \<Rightarrow> wait_insn list" where
  "monitor_insns ar b p cycles =
     (case b of
        CIRA_WAIT_UMWAIT \<Rightarrow> if ar = X86 then [Umonitor p, Umwait 1 (cycles + kWaitQuantumCycles)] else [Relax]
      | CIRA_WAIT_TPAUSE \<Rightarrow> if ar = X86 then [Tpause 1 (cycles + kWaitQuantumCycles)] else [Relax]
      | CIRA_WAIT_MWAITX \<Rightarrow> if ar = X86 then [Monitorx p, Mwaitx (ucast kWaitQuantumCycles)] else [Relax]
      | CIRA_WAIT_WFE \<Rightarrow> if ar = AArch64 then [Ldxr p, Wfe] else [Relax]
      | CIRA_WAIT_SPIN \<Rightarrow> [Relax])"

definition monitor_wait_once ::
  "env \<Rightarrow> cpu \<Rightarrow> wait_globals \<Rightarrow> addr \<Rightarrow> u64 \<Rightarrow> wait_insn list \<times> wait_globals" where
  "monitor_wait_once env c g p cycles =
     (case current_backend env c g of (b, g') \<Rightarrow> (monitor_insns (cpu_arch c) b p cycles, g'))"

section \<open>The wait loop\<close>

datatype predicate = Equal | NotEqual

definition satisfied :: "predicate \<Rightarrow> u32 \<Rightarrow> u32 \<Rightarrow> bool" where
  "satisfied pred value observed =
     (case pred of Equal \<Rightarrow> observed = value | NotEqual \<Rightarrow> observed \<noteq> value)"

text \<open>Phase 1, the bounded PAUSE spin from load \<open>k\<close> on: outcome and number of loads so far.\<close>

fun spin_phase :: "(nat \<Rightarrow> u32) \<Rightarrow> (u32 \<Rightarrow> bool) \<Rightarrow> nat \<Rightarrow> nat \<Rightarrow> bool \<times> nat" where
  "spin_phase obs sat k 0 = (False, k)"
| "spin_phase obs sat k (Suc budget) =
     (if sat (obs k) then (True, Suc k) else spin_phase obs sat (Suc k) budget)"

text \<open>Phase 2, the monitor-wait loop: \<open>None\<close> when it never ends.\<close>

partial_function (option) monitor_phase ::
  "(nat \<Rightarrow> u32) \<Rightarrow> (nat \<Rightarrow> u64) \<Rightarrow> (u32 \<Rightarrow> bool) \<Rightarrow> u64 \<Rightarrow> nat \<Rightarrow> nat \<Rightarrow> (bool \<times> nat) option" where
  "monitor_phase obs clk sat deadline_ns k c =
     (if sat (obs k) then Some (True, Suc k)
      else if deadline_ns \<noteq> 0 \<and> deadline_ns \<le> clk c then Some (False, Suc k)
      else monitor_phase obs clk sat deadline_ns (Suc k) (if deadline_ns \<noteq> 0 then Suc c else c))"

definition deadline :: "(nat \<Rightarrow> u64) \<Rightarrow> u64 \<Rightarrow> u64" where
  "deadline clk timeout_ns = (if timeout_ns \<noteq> 0 then clk 0 + timeout_ns else 0)"

text \<open>\<open>wait_impl\<close>: the returned flag, and how many times the flag was loaded.\<close>

definition wait_impl ::
  "u32 \<Rightarrow> addr \<Rightarrow> (nat \<Rightarrow> u32) \<Rightarrow> (nat \<Rightarrow> u64) \<Rightarrow> u32 \<Rightarrow> predicate \<Rightarrow> u64 \<Rightarrow> (bool \<times> nat) option" where
  "wait_impl budget flag obs clk value pred timeout_ns =
     (if flag = 0 then Some (False, 0)
      else let sat = satisfied pred value in
        if sat (obs 0) then Some (True, 1)
        else let deadline_ns = deadline clk timeout_ns in
          (case spin_phase obs sat 1 (unat budget) of
             (True, k) \<Rightarrow> Some (True, k)
           | (False, k) \<Rightarrow>
               monitor_phase obs clk sat deadline_ns k (if timeout_ns \<noteq> 0 then 1 else 0)))"

definition cira_wait_u32 ::
  "u32 \<Rightarrow> addr \<Rightarrow> (nat \<Rightarrow> u32) \<Rightarrow> (nat \<Rightarrow> u64) \<Rightarrow> u32 \<Rightarrow> u64 \<Rightarrow> (bool \<times> nat) option" where
  "cira_wait_u32 budget flag obs clk expect timeout_ns =
     wait_impl budget flag obs clk expect Equal timeout_ns"

definition cira_wait_u32_ne ::
  "u32 \<Rightarrow> addr \<Rightarrow> (nat \<Rightarrow> u32) \<Rightarrow> (nat \<Rightarrow> u64) \<Rightarrow> u32 \<Rightarrow> u64 \<Rightarrow> (bool \<times> nat) option" where
  "cira_wait_u32_ne budget flag obs clk unexpected timeout_ns =
     wait_impl budget flag obs clk unexpected NotEqual timeout_ns"

section \<open>Properties of the loop\<close>

lemma spin_phase_result:
  "spin_phase obs sat k n = (r, k') \<Longrightarrow>
     (r \<longrightarrow> k < k' \<and> sat (obs (k' - 1)) \<and> (\<forall>j. k \<le> j \<and> j < k' - 1 \<longrightarrow> \<not> sat (obs j)) \<and> k' \<le> k + n) \<and>
     (\<not> r \<longrightarrow> k' = k + n \<and> (\<forall>j. k \<le> j \<and> j < k' \<longrightarrow> \<not> sat (obs j)))"
proof (induction n arbitrary: k)
  case 0
  then show ?case by auto
next
  case (Suc n)
  show ?case
  proof (cases "sat (obs k)")
    case True
    with Suc.prems show ?thesis by auto
  next
    case False
    with Suc.prems have "spin_phase obs sat (Suc k) n = (r, k')" by simp
    note IH = Suc.IH [OF this]
    have ext: "\<not> sat (obs j)" if "k \<le> j" "Suc k \<le> j \<longrightarrow> \<not> sat (obs j)" for j
      using that False by (cases "j = k") auto
    show ?thesis using IH ext by auto
  qed
qed

definition monitor_post ::
  "(nat \<Rightarrow> u32) \<Rightarrow> (nat \<Rightarrow> u64) \<Rightarrow> (u32 \<Rightarrow> bool) \<Rightarrow> u64 \<Rightarrow> nat \<Rightarrow> nat \<Rightarrow> bool \<times> nat \<Rightarrow> bool" where
  "monitor_post obs clk sat dl k c rk \<longleftrightarrow>
     k < snd rk \<and> (\<forall>j. k \<le> j \<and> j < snd rk - 1 \<longrightarrow> \<not> sat (obs j)) \<and>
     (fst rk \<longleftrightarrow> sat (obs (snd rk - 1))) \<and>
     (\<not> fst rk \<longrightarrow> dl \<noteq> 0 \<and> (\<exists>c'. c \<le> c' \<and> dl \<le> clk c'))"

lemma monitor_post_step:
  assumes "monitor_post obs clk sat dl (Suc k) (if dl \<noteq> 0 then Suc c else c) rk" "\<not> sat (obs k)"
  shows "monitor_post obs clk sat dl k c rk"
proof -
  have ext: "\<not> sat (obs j)" if "k \<le> j" "Suc k \<le> j \<longrightarrow> \<not> sat (obs j)" for j
    using that assms(2) by (cases "j = k") auto
  have "\<exists>c'. c \<le> c' \<and> dl \<le> clk c'" if "\<not> fst rk"
  proof -
    from assms(1) that obtain c' where "(if dl \<noteq> 0 then Suc c else c) \<le> c'" "dl \<le> clk c'"
      unfolding monitor_post_def by blast
    then have "c \<le> c'" by (simp split: if_splits)
    with \<open>dl \<le> clk c'\<close> show ?thesis by blast
  qed
  with assms(1) ext show ?thesis unfolding monitor_post_def by auto
qed

lemma monitor_phase_sound:
  assumes "monitor_phase obs clk sat dl k c = Some rk"
  shows "monitor_post obs clk sat dl k c rk"
proof (rule monitor_phase.raw_induct [where P = monitor_post, OF _ assms])
  fix f obs clk sat dl k c rk
  assume IH: "\<And>obs clk sat dl k c rk. f obs clk sat dl k c = Some rk \<Longrightarrow> monitor_post obs clk sat dl k c rk"
    and eq: "(if sat (obs k) then Some (True, Suc k)
       else if dl \<noteq> 0 \<and> dl \<le> clk c then Some (False, Suc k)
       else f obs clk sat dl (Suc k) (if dl \<noteq> 0 then Suc c else c)) = Some rk"
  show "monitor_post obs clk sat dl k c rk"
  proof (cases "sat (obs k) \<or> (dl \<noteq> 0 \<and> dl \<le> clk c)")
    case True
    with eq show ?thesis by (auto simp: monitor_post_def split: if_splits)
  next
    case False
    then have "f obs clk sat dl (Suc k) (if dl \<noteq> 0 then Suc c else c) = Some rk"
      using eq by (simp split: if_splits)
    from IH [OF this] False show ?thesis by (blast intro: monitor_post_step)
  qed
qed

text \<open>
  What an answer means: \<open>true\<close> is given at the first load that satisfies the predicate; \<open>false\<close>
  only for a null flag, or with a timeout set, no load having satisfied it and the clock having
  reached the deadline.
\<close>

lemma wait_impl_true:
  assumes "wait_impl budget flag obs clk value pred timeout = Some (True, k)"
  shows "0 < k \<and> satisfied pred value (obs (k - 1)) \<and> (\<forall>j < k - 1. \<not> satisfied pred value (obs j))"
proof -
  let ?sat = "satisfied pred value"
  have f: "flag \<noteq> 0" using assms by (auto simp: wait_impl_def split: if_splits)
  show ?thesis
  proof (cases "?sat (obs 0)")
    case True
    then show ?thesis using assms f by (auto simp: wait_impl_def Let_def)
  next
    case ns: False
    obtain r k1 where s: "spin_phase obs ?sat 1 (unat budget) = (r, k1)" by fastforce
    note sp = spin_phase_result [OF s]
    have all: "\<not> ?sat (obs j)" if "1 \<le> j \<longrightarrow> \<not> ?sat (obs j)" for j
      using that ns by (cases "j = 0") auto
    show ?thesis
    proof (cases r)
      case True
      with assms f ns s have "k = k1" by (simp add: wait_impl_def Let_def)
      with sp True all show ?thesis by auto
    next
      case False
      with assms f ns s have
        "monitor_phase obs clk ?sat (deadline clk timeout) k1 (if timeout \<noteq> 0 then 1 else 0) = Some (True, k)"
        by (simp add: wait_impl_def Let_def)
      note mp = monitor_phase_sound [OF this, unfolded monitor_post_def, simplified]
      have "\<not> ?sat (obs j)" if "j < k - 1" for j
        using that mp sp False all by (cases "j < k1") auto
      with mp show ?thesis by auto
    qed
  qed
qed

lemma wait_impl_false:
  assumes "wait_impl budget flag obs clk value pred timeout = Some (False, k)" and f: "flag \<noteq> 0"
  shows "timeout \<noteq> 0 \<and> (\<forall>j < k. \<not> satisfied pred value (obs j)) \<and> unat budget + 1 < k \<and>
    (\<exists>c. 1 \<le> c \<and> clk 0 + timeout \<le> clk c)"
proof -
  let ?sat = "satisfied pred value"
  have ns: "\<not> ?sat (obs 0)" using assms by (auto simp: wait_impl_def Let_def split: if_splits)
  obtain r k1 where s: "spin_phase obs ?sat 1 (unat budget) = (r, k1)" by fastforce
  have nr: "\<not> r" using assms ns s by (auto simp: wait_impl_def Let_def split: bool.splits)
  note sp = spin_phase_result [OF s]
  from assms ns s nr have
    "monitor_phase obs clk ?sat (deadline clk timeout) k1 (if timeout \<noteq> 0 then 1 else 0) = Some (False, k)"
    by (simp add: wait_impl_def Let_def)
  note mp = monitor_phase_sound [OF this, unfolded monitor_post_def, simplified]
  have t: "timeout \<noteq> 0" using mp by (auto simp: deadline_def)
  have "\<not> ?sat (obs j)" if "j < k" for j
  proof -
    have "j = 0 \<or> (1 \<le> j \<and> j < k1) \<or> (k1 \<le> j \<and> j < k - 1) \<or> j = k - 1"
      using that by arith
    then show ?thesis using mp sp nr ns by auto
  qed
  with mp sp nr t show ?thesis by (auto simp: deadline_def)
qed

text \<open>With no deadline, phase 2 ends at the first satisfying load.\<close>

lemma monitor_phase_reaches:
  "sat (obs (k + n)) \<Longrightarrow> \<exists>k'. monitor_phase obs clk sat 0 k c = Some (True, k')"
proof (induction n arbitrary: k)
  case 0
  then show ?case by (subst monitor_phase.simps) simp
next
  case (Suc n)
  then show ?case
    by (cases "sat (obs k)") (subst monitor_phase.simps, simp)+
qed

lemma monitor_phase_deadline:
  "dl \<noteq> 0 \<Longrightarrow> dl \<le> clk (c + n) \<Longrightarrow> \<exists>r. monitor_phase obs clk sat dl k c = Some r"
proof (induction n arbitrary: k c)
  case 0
  then show ?case by (cases "sat (obs k)") (subst monitor_phase.simps, auto)+
next
  case (Suc n)
  then show ?case
    by (cases "sat (obs k)"; cases "dl \<le> clk c") (subst monitor_phase.simps, auto)+
qed

text \<open>Liveness: an untimed wait returns as soon as the device stores the awaited value.\<close>

lemma wait_impl_untimed_returns:
  assumes "flag \<noteq> 0" "satisfied pred value (obs n)"
  shows "\<exists>k. wait_impl budget flag obs clk value pred 0 = Some (True, k)"
proof (cases "satisfied pred value (obs 0)")
  case True
  then show ?thesis using assms by (simp add: wait_impl_def)
next
  case ns: False
  obtain r k1 where s: "spin_phase obs (satisfied pred value) 1 (unat budget) = (r, k1)" by fastforce
  note sp = spin_phase_result [OF s]
  show ?thesis
  proof (cases r)
    case True
    then show ?thesis using assms ns s by (simp add: wait_impl_def Let_def)
  next
    case False
    have "k1 \<le> n"
    proof (rule ccontr)
      assume "\<not> k1 \<le> n"
      moreover have "n \<noteq> 0" using ns assms(2) by (cases n) auto
      ultimately have "\<not> satisfied pred value (obs n)" using sp False by auto
      with assms(2) show False by simp
    qed
    then have "satisfied pred value (obs (k1 + (n - k1)))" using assms by simp
    from monitor_phase_reaches [of "satisfied pred value" obs k1 "n - k1" clk, OF this]
    show ?thesis using assms ns s False by (simp add: wait_impl_def Let_def deadline_def)
  qed
qed

text \<open>With a timeout whose deadline does not wrap to 0, the wait returns once the clock reaches it.\<close>

lemma wait_impl_timed_returns:
  assumes "timeout \<noteq> 0" "clk 0 + timeout \<noteq> 0" "clk 0 + timeout \<le> clk c" "1 \<le> c"
  shows "\<exists>r. wait_impl budget flag obs clk value pred timeout = Some r"
proof -
  obtain r k1 where s: "spin_phase obs (satisfied pred value) 1 (unat budget) = (r, k1)" by fastforce
  have "clk 0 + timeout \<le> clk (1 + (c - 1))" using assms by simp
  from monitor_phase_deadline [OF assms(2), of clk 1 "c - 1", OF this]
  have "\<exists>r. monitor_phase obs clk (satisfied pred value) (clk 0 + timeout) k1 1 = Some r" by blast
  then show ?thesis using assms s by (auto simp: wait_impl_def Let_def deadline_def split: bool.splits)
qed

lemma detect_backend_supported: "backend_supported c (detect_backend env c)"
  by (auto simp: detect_backend_def split: option.splits arch.splits)

section \<open>Properties\<close>

text \<open>A wait that returns tells the truth. True: the last load of the flag satisfied the predicate and
  no earlier load did. False: a timeout was given, not one load (the bounded spin and at least one
  monitored round included) satisfied the predicate, and the clock had reached the deadline.\<close>

theorem wait_result_sound:
  assumes "flag \<noteq> 0" "wait_impl budget flag obs clk val pred timeout = Some (r, k)"
  shows "if r then 0 < k \<and> satisfied pred val (obs (k - 1)) \<and> (\<forall>j < k - 1. \<not> satisfied pred val (obs j))
    else timeout \<noteq> 0 \<and> unat budget + 1 < k \<and> (\<forall>j < k. \<not> satisfied pred val (obs j)) \<and>
      (\<exists>c. 1 \<le> c \<and> clk 0 + timeout \<le> clk c)"
  using assms wait_impl_true [of budget flag obs clk val pred timeout k]
    wait_impl_false [of budget flag obs clk val pred timeout k] by (cases r) auto

lemma demo_wait: "wait_impl 1 0x40 (\<lambda>k. if k < 5 then 0 else 7) (\<lambda>_. 0) 7 Equal 0 = Some (True, 6)"
  by (simp add: wait_impl_def satisfied_def deadline_def monitor_phase.simps)

lemma wait_result_sound_witness:
  "satisfied Equal 7 (if (6 :: nat) - 1 < 5 then 0 else 7)"
  using wait_result_sound [OF _ demo_wait] by simp

text \<open>Termination of the wait. Without a timeout it returns true as soon as some load can satisfy the
  predicate, whatever the spin budget; with a timeout whose deadline is not the reserved val 0 it
  returns once the clock reads the deadline, even when the flag is never set.\<close>

theorem wait_returns:
  assumes "flag \<noteq> 0"
    and "if timeout = 0 then \<exists>n. satisfied pred val (obs n)
         else clk 0 + timeout \<noteq> 0 \<and> (\<exists>c \<ge> 1. clk 0 + timeout \<le> clk c)"
  shows "\<exists>r k. wait_impl budget flag obs clk val pred timeout = Some (r, k) \<and> (timeout = 0 \<longrightarrow> r)"
proof (cases "timeout = 0")
  case True
  then obtain n where "satisfied pred val (obs n)" using assms(2) by auto
  with True wait_impl_untimed_returns [of flag pred val obs n budget clk] assms(1) show ?thesis by auto
next
  case False
  then obtain c where "1 \<le> c" "clk 0 + timeout \<le> clk c" "clk 0 + timeout \<noteq> 0"
    using assms(2) by auto
  with False wait_impl_timed_returns [of timeout clk c budget flag obs val pred]
  show ?thesis by fastforce
qed

lemma wait_returns_witness:
  "\<exists>r k. wait_impl 4096 0x40 (\<lambda>_. 0) (\<lambda>c. of_nat c * 10) 1 Equal 100 = Some (r, k)"
proof -
  have "\<exists>c \<ge> 1. (of_nat 0 :: u64) * 10 + 100 \<le> of_nat c * 10"
    by (rule exI [of _ 10]) simp
  then show ?thesis
    using wait_returns [of "0x40" 100 Equal 1 "\<lambda>_. 0" "\<lambda>c. of_nat c * 10" 4096] by auto
qed

text \<open>The deadline is computed modulo 2^64. With the largest timeout (a natural way to ask for an
  endless wait) and a clock past 0, the wait gives up right after the spin phase, after
  \<open>budget + 2\<close> loads, although the flag would have been set by the very next one.\<close>

theorem huge_timeout_expires_at_once:
  assumes "flag \<noteq> 0" "2 \<le> clk 0" "clk 0 \<le> clk 1" "\<And>j. j < unat budget + 2 \<Longrightarrow> \<not> satisfied pred val (obs j)"
  shows "wait_impl budget flag obs clk val pred (-1) = Some (False, unat budget + 2)"
proof -
  let ?sat = "satisfied pred val"
  obtain r k where s: "spin_phase obs ?sat 1 (unat budget) = (r, k)" by fastforce
  note sp = spin_phase_result [OF s]
  have nr: "\<not> r"
  proof
    assume r
    with sp have "?sat (obs (k - 1))" "k - 1 < unat budget + 2" by auto
    with assms(4) show False by blast
  qed
  then have k: "k = 1 + unat budget" using sp by simp
  have nz: "clk 0 \<noteq> 0" "clk 0 \<noteq> 1" using assms(2) by (auto simp: word_le_nat_alt)
  then have dn: "clk 0 + - 1 \<noteq> 0" by simp
  have "clk 0 - 1 \<le> clk 0" using nz(1) by (simp add: word_le_nat_alt unat_minus_one)
  then have dl: "clk 0 + - 1 \<le> clk 1" using assms(3) by simp
  have "monitor_phase obs clk ?sat (clk 0 + - 1) k 1 = Some (False, Suc k)"
    using dn dl assms(4) [of k] k by (subst monitor_phase.simps) simp
  then show ?thesis
    using assms(1) assms(4) [of 0] s nr k by (simp add: wait_impl_def deadline_def Let_def)
qed

lemma huge_timeout_expires_at_once_witness:
  "wait_impl 2 0x40 (\<lambda>k. if k < 4 then 0 else 1) (\<lambda>_. 5000) 1 Equal (-1) = Some (False, 4)"
  using huge_timeout_expires_at_once [of "0x40" "\<lambda>_. 5000" 2 Equal 1 "\<lambda>k. if k < 4 then 0 else 1"]
  by (simp add: satisfied_def)

text \<open>The wait backend in force is always one the processor supports, however it came about: detected,
  forced by the environment, or set by the caller; and detection happens once.\<close>

theorem backend_always_supported:
  assumes "\<forall>b. g_backend g = Some b \<longrightarrow> backend_supported c b"
  shows "(case current_backend env c g of (b, g') \<Rightarrow> backend_supported c b \<and> g_backend g' = Some b \<and>
           current_backend env' c g' = (b, g')) \<and>
    (\<exists>b'. g_backend (cira_wait_set_backend c b g) = Some b' \<and> backend_supported c b')"
  using assms
  by (auto simp: current_backend_def cira_wait_set_backend_def detect_backend_supported Let_def
      split: option.splits)

definition monitorx_cpu :: cpu where
  "monitorx_cpu = \<lparr>cpu_arch = X86, cpuid_max_leaf = 7, cpuid_7_ecx = 0, cpuid_max_ext = 0x80000001,
     cpuid_80000001_ecx = 0x20000000\<rparr>"

lemma backend_always_supported_witness:
  "backend_supported monitorx_cpu (fst (current_backend (\<lambda>_. None) monitorx_cpu init_wait_globals))"
  using backend_always_supported [of init_wait_globals monitorx_cpu "\<lambda>_. None" "\<lambda>_. None" CIRA_WAIT_SPIN]
  by (simp add: init_wait_globals_def split: prod.splits)

end
