(* ===== verification/Cxl_Job.thy ===== *)
theory Cxl_Job
  imports Prelude
begin

text \<open>
  The host/device wire format of \<^verbatim>\<open>runtime/include/cira_cxl_job.h\<close>: the constants of the
  control window, the structs exchanged through it as records, their byte layout (the C ABI's
  field offsets and padding), and the interface \<open>wire_struct\<close> every struct satisfies.
\<close>

section \<open>Constants\<close>

definition CIRA_CXL_JOB_MAGIC :: u64 where "CIRA_CXL_JOB_MAGIC = 0x565843584c4a4f42"
definition CIRA_CXL_PACC_JOB_MAGIC :: u64 where "CIRA_CXL_PACC_JOB_MAGIC = 0x4847505550414343"
definition CIRA_CXL_JOB_VERSION :: u32 where "CIRA_CXL_JOB_VERSION = 1"
definition CIRA_CXL_COMPLETION_MAGIC :: u32 where "CIRA_CXL_COMPLETION_MAGIC = 0xDEADBEEF"
definition CIRA_CXL_CACHELINE_SIZE :: u64 where "CIRA_CXL_CACHELINE_SIZE = 64"

definition CIRA_CXL_CONTROL_BYTES :: u64 where "CIRA_CXL_CONTROL_BYTES = 0x2000"
definition CIRA_CXL_DOORBELL_OFF :: u64 where "CIRA_CXL_DOORBELL_OFF = 0"
definition CIRA_CXL_ARG_BASE_OFF :: u64 where "CIRA_CXL_ARG_BASE_OFF = 0x100"
definition CIRA_CXL_ARG_SLOT_BYTES :: u64 where "CIRA_CXL_ARG_SLOT_BYTES = 0x400"
definition CIRA_CXL_STATUS_OFF :: u64 where "CIRA_CXL_STATUS_OFF = 0x1f20"

definition CIRA_CXL_JOB_NOP :: u32 where "CIRA_CXL_JOB_NOP = 0"
definition CIRA_CXL_JOB_INSTALL_CACHELINE :: u32 where "CIRA_CXL_JOB_INSTALL_CACHELINE = 1"
definition CIRA_CXL_JOB_PREFETCH_CHAIN :: u32 where "CIRA_CXL_JOB_PREFETCH_CHAIN = 2"
definition CIRA_CXL_JOB_STREAM_PREFETCH :: u32 where "CIRA_CXL_JOB_STREAM_PREFETCH = 3"
definition CIRA_CXL_JOB_CALL :: u32 where "CIRA_CXL_JOB_CALL = 4"
definition CIRA_CXL_JOB_MAX :: u32 where "CIRA_CXL_JOB_MAX = CIRA_CXL_JOB_CALL"

definition CIRA_CXL_STATUS_SUCCESS :: u32 where "CIRA_CXL_STATUS_SUCCESS = 0"
definition CIRA_CXL_STATUS_RUNNING :: u32 where "CIRA_CXL_STATUS_RUNNING = 1"
definition CIRA_CXL_STATUS_BAD_VERSION :: u32 where "CIRA_CXL_STATUS_BAD_VERSION = 0xffff0001"
definition CIRA_CXL_STATUS_BAD_ARGS :: u32 where "CIRA_CXL_STATUS_BAD_ARGS = 0xffff0002"
definition CIRA_CXL_STATUS_BAD_JOB :: u32 where "CIRA_CXL_STATUS_BAD_JOB = 0xffff00ff"

lemmas magic_defs = CIRA_CXL_JOB_MAGIC_def CIRA_CXL_PACC_JOB_MAGIC_def CIRA_CXL_JOB_VERSION_def
  CIRA_CXL_COMPLETION_MAGIC_def

lemmas window_defs = CIRA_CXL_CONTROL_BYTES_def CIRA_CXL_DOORBELL_OFF_def
  CIRA_CXL_ARG_BASE_OFF_def CIRA_CXL_ARG_SLOT_BYTES_def CIRA_CXL_STATUS_OFF_def
  CIRA_CXL_CACHELINE_SIZE_def

lemmas job_id_defs = CIRA_CXL_JOB_NOP_def CIRA_CXL_JOB_INSTALL_CACHELINE_def
  CIRA_CXL_JOB_PREFETCH_CHAIN_def CIRA_CXL_JOB_STREAM_PREFETCH_def CIRA_CXL_JOB_CALL_def
  CIRA_CXL_JOB_MAX_def

lemmas status_defs = CIRA_CXL_STATUS_SUCCESS_def CIRA_CXL_STATUS_RUNNING_def
  CIRA_CXL_STATUS_BAD_VERSION_def CIRA_CXL_STATUS_BAD_ARGS_def CIRA_CXL_STATUS_BAD_JOB_def

definition cira_cxl_valid_magic :: "u64 \<Rightarrow> bool" where
  "cira_cxl_valid_magic magic \<longleftrightarrow> magic = CIRA_CXL_JOB_MAGIC \<or> magic = CIRA_CXL_PACC_JOB_MAGIC"

definition cira_cxl_arg_slot_off :: "u32 \<Rightarrow> u64" where
  "cira_cxl_arg_slot_off job_id = CIRA_CXL_ARG_BASE_OFF + ucast job_id * CIRA_CXL_ARG_SLOT_BYTES"

section \<open>The structs\<close>

record doorbell =
  db_magic :: u64
  db_version :: u32
  db_job_id :: u32
  db_flags :: u32
  db_status :: u32
  db_seq :: u64

record arg_slot =
  as_magic :: u64
  as_version :: u32
  as_job_id :: u32
  as_seq :: u64
  as_arg_len :: u64

record host_status =
  hs_magic :: u64
  hs_version :: u32
  hs_job_id :: u32
  hs_status :: u32
  hs_seq :: u64

record completion =
  cp_magic :: u32
  cp_status :: u32
  cp_result :: u64
  cp_cycles :: u64
  cp_timestamp :: u64

record install_cacheline_job =
  ij_addr :: u64
  ij_size :: u64
  ij_completion_addr :: u64
  ij_cache_level :: u32
  ij_reserved :: u32

record prefetch_chain_job =
  pj_start_node_addr :: u64
  pj_buf_addr :: u64
  pj_completion_addr :: u64
  pj_depth :: u32
  pj_next_ptr_offset :: u32
  pj_data_offset :: u32
  pj_data_size :: u32

record stream_prefetch_job =
  sj_base_addr :: u64
  sj_buf_addr :: u64
  sj_completion_addr :: u64
  sj_count :: u64
  sj_stride :: u32
  sj_elem_size :: u32
  sj_reserved :: u32

record call_job =
  cj_func_addr :: u64
  cj_operands_addr :: u64
  cj_completion_addr :: u64
  cj_num_operands :: u32
  cj_reserved :: u32

text \<open>Sizes under the C ABI: \<open>sizeof\<close> each struct, padding included.\<close>

definition sizeof_doorbell :: nat where "sizeof_doorbell = 32"
definition sizeof_arg_slot :: nat where "sizeof_arg_slot = 32"
definition sizeof_host_status :: nat where "sizeof_host_status = 32"
definition sizeof_completion :: nat where "sizeof_completion = 64"
definition sizeof_install_job :: nat where "sizeof_install_job = 32"
definition sizeof_chain_job :: nat where "sizeof_chain_job = 40"
definition sizeof_stream_job :: nat where "sizeof_stream_job = 48"
definition sizeof_call_job :: nat where "sizeof_call_job = 32"

lemmas sizeof_defs = sizeof_doorbell_def sizeof_arg_slot_def sizeof_host_status_def
  sizeof_completion_def sizeof_install_job_def sizeof_chain_job_def sizeof_stream_job_def
  sizeof_call_job_def

definition CIRA_CXL_ARG_PAYLOAD_BYTES :: u64 where
  "CIRA_CXL_ARG_PAYLOAD_BYTES = CIRA_CXL_ARG_SLOT_BYTES - of_nat sizeof_arg_slot"

section \<open>Byte images and field access\<close>

text \<open>
  A struct stored by a block copy goes through its byte image (\<open>enc_\<dots>\<close>); a struct read or
  written through a pointer is accessed field by field (\<open>load_\<dots>\<close>).
\<close>

definition enc_doorbell :: "doorbell \<Rightarrow> u8 list" where
  "enc_doorbell d = le_bytes 8 (db_magic d) @ le_bytes 4 (db_version d) @ le_bytes 4 (db_job_id d)
     @ le_bytes 4 (db_flags d) @ le_bytes 4 (db_status d) @ le_bytes 8 (db_seq d)"

definition load_doorbell :: "mem \<Rightarrow> addr \<Rightarrow> doorbell" where
  "load_doorbell m a = \<lparr>db_magic = read64 m a, db_version = read32 m (a + 8),
     db_job_id = read32 m (a + 12), db_flags = read32 m (a + 16), db_status = read32 m (a + 20),
     db_seq = read64 m (a + 24)\<rparr>"

definition enc_arg_slot :: "arg_slot \<Rightarrow> u8 list" where
  "enc_arg_slot s = le_bytes 8 (as_magic s) @ le_bytes 4 (as_version s) @ le_bytes 4 (as_job_id s)
     @ le_bytes 8 (as_seq s) @ le_bytes 8 (as_arg_len s)"

definition load_arg_slot :: "mem \<Rightarrow> addr \<Rightarrow> arg_slot" where
  "load_arg_slot m a = \<lparr>as_magic = read64 m a, as_version = read32 m (a + 8),
     as_job_id = read32 m (a + 12), as_seq = read64 m (a + 16), as_arg_len = read64 m (a + 24)\<rparr>"

definition load_host_status :: "mem \<Rightarrow> addr \<Rightarrow> host_status" where
  "load_host_status m a = \<lparr>hs_magic = read64 m a, hs_version = read32 m (a + 8),
     hs_job_id = read32 m (a + 12), hs_status = read32 m (a + 16), hs_seq = read64 m (a + 24)\<rparr>"

definition load_completion :: "mem \<Rightarrow> addr \<Rightarrow> completion" where
  "load_completion m a = \<lparr>cp_magic = read32 m a, cp_status = read32 m (a + 4),
     cp_result = read64 m (a + 8), cp_cycles = read64 m (a + 16), cp_timestamp = read64 m (a + 24)\<rparr>"

definition enc_install_job :: "install_cacheline_job \<Rightarrow> u8 list" where
  "enc_install_job j = le_bytes 8 (ij_addr j) @ le_bytes 8 (ij_size j)
     @ le_bytes 8 (ij_completion_addr j) @ le_bytes 4 (ij_cache_level j) @ le_bytes 4 (ij_reserved j)"

definition load_install_job :: "mem \<Rightarrow> addr \<Rightarrow> install_cacheline_job" where
  "load_install_job m a = \<lparr>ij_addr = read64 m a, ij_size = read64 m (a + 8),
     ij_completion_addr = read64 m (a + 16), ij_cache_level = read32 m (a + 24),
     ij_reserved = read32 m (a + 28)\<rparr>"

definition enc_chain_job :: "prefetch_chain_job \<Rightarrow> u8 list" where
  "enc_chain_job j = le_bytes 8 (pj_start_node_addr j) @ le_bytes 8 (pj_buf_addr j)
     @ le_bytes 8 (pj_completion_addr j) @ le_bytes 4 (pj_depth j) @ le_bytes 4 (pj_next_ptr_offset j)
     @ le_bytes 4 (pj_data_offset j) @ le_bytes 4 (pj_data_size j)"

definition load_chain_job :: "mem \<Rightarrow> addr \<Rightarrow> prefetch_chain_job" where
  "load_chain_job m a = \<lparr>pj_start_node_addr = read64 m a, pj_buf_addr = read64 m (a + 8),
     pj_completion_addr = read64 m (a + 16), pj_depth = read32 m (a + 24),
     pj_next_ptr_offset = read32 m (a + 28), pj_data_offset = read32 m (a + 32),
     pj_data_size = read32 m (a + 36)\<rparr>"

text \<open>The stream job's last four bytes are padding (the struct is 8-aligned); they are zero here.\<close>

definition enc_stream_job :: "stream_prefetch_job \<Rightarrow> u8 list" where
  "enc_stream_job j = le_bytes 8 (sj_base_addr j) @ le_bytes 8 (sj_buf_addr j)
     @ le_bytes 8 (sj_completion_addr j) @ le_bytes 8 (sj_count j) @ le_bytes 4 (sj_stride j)
     @ le_bytes 4 (sj_elem_size j) @ le_bytes 4 (sj_reserved j) @ [0, 0, 0, 0]"

definition load_stream_job :: "mem \<Rightarrow> addr \<Rightarrow> stream_prefetch_job" where
  "load_stream_job m a = \<lparr>sj_base_addr = read64 m a, sj_buf_addr = read64 m (a + 8),
     sj_completion_addr = read64 m (a + 16), sj_count = read64 m (a + 24),
     sj_stride = read32 m (a + 32), sj_elem_size = read32 m (a + 36), sj_reserved = read32 m (a + 40)\<rparr>"

definition enc_call_job :: "call_job \<Rightarrow> u8 list" where
  "enc_call_job j = le_bytes 8 (cj_func_addr j) @ le_bytes 8 (cj_operands_addr j)
     @ le_bytes 8 (cj_completion_addr j) @ le_bytes 4 (cj_num_operands j) @ le_bytes 4 (cj_reserved j)"

definition load_call_job :: "mem \<Rightarrow> addr \<Rightarrow> call_job" where
  "load_call_job m a = \<lparr>cj_func_addr = read64 m a, cj_operands_addr = read64 m (a + 8),
     cj_completion_addr = read64 m (a + 16), cj_num_operands = read32 m (a + 24),
     cj_reserved = read32 m (a + 28)\<rparr>"

lemmas load_defs = load_doorbell_def load_arg_slot_def load_host_status_def load_completion_def
  load_install_job_def load_chain_job_def load_stream_job_def load_call_job_def

lemmas enc_defs = enc_doorbell_def enc_arg_slot_def enc_install_job_def enc_chain_job_def
  enc_stream_job_def enc_call_job_def

section \<open>The interface of a struct read in place\<close>

text \<open>
  A struct of \<open>n\<close> bytes read through a pointer depends on its own bytes only. From that law
  follows that any write outside it leaves what is read unchanged.
\<close>

locale wire_view =
  fixes ld :: "mem \<Rightarrow> addr \<Rightarrow> 'a" and n :: nat
  assumes ld_local: "read_bytes m a n = read_bytes m' a n \<Longrightarrow> ld m a = ld m' a"
begin

lemma ld_write: "disjoint_rng a n b (length bs) \<Longrightarrow> ld (write_bytes m b bs) a = ld m a"
  by (rule ld_local) (simp add: read_write_disjoint)

lemma ld_write32: "disjoint_rng a n b 4 \<Longrightarrow> ld (write32 m b v) a = ld m a"
  by (simp add: write32_def ld_write)

lemma ld_write64: "disjoint_rng a n b 8 \<Longrightarrow> ld (write64 m b v) a = ld m a"
  by (simp add: write64_def ld_write)

lemma ld_memcpy: "disjoint_rng a n b k \<Longrightarrow> ld (memcpy m b src k) a = ld m a"
  by (simp add: memcpy_def ld_write)

end

text \<open>
  A struct that is also stored as a byte image: the image has the struct's size and reading it
  back gives the struct. A whole image followed by a write elsewhere still reads back.
\<close>

locale wire_struct = wire_view +
  fixes enc :: "'a \<Rightarrow> u8 list"
  assumes enc_length: "length (enc x) = n"
    and enc_roundtrip: "ld (write_bytes m a (enc x)) a = x"
begin

lemma enc_inj: "enc x = enc y \<Longrightarrow> x = y"
  by (metis enc_roundtrip)

lemma stored_survives:
  "disjoint_rng a n b (length bs) \<Longrightarrow> ld (write_bytes (write_bytes m a (enc x)) b bs) a = x"
  by (simp add: ld_write enc_roundtrip)

lemma ld_of_image:
  assumes "read_bytes m a n = enc x" "n \<le> 2 ^ 64"
  shows "ld m a = x"
proof -
  have "read_bytes (write_bytes m a (enc x)) a n = enc x"
    using read_write_same [of "enc x" m a] assms(2) by (simp add: enc_length)
  then have "ld m a = ld (write_bytes m a (enc x)) a" using assms by (intro ld_local) simp
  then show ?thesis by (simp add: enc_roundtrip)
qed

end

lemma read32_local:
  "read_bytes m a N = read_bytes m' a N \<Longrightarrow> unat p + 4 \<le> N \<Longrightarrow> read32 m (a + p) = read32 m' (a + p)"
  unfolding read32_def by (metis read_bytes_off_cong)

lemma read64_local:
  "read_bytes m a N = read_bytes m' a N \<Longrightarrow> unat p + 8 \<le> N \<Longrightarrow> read64 m (a + p) = read64 m' (a + p)"
  unfolding read64_def by (metis read_bytes_off_cong)

lemma read64_local0: "read_bytes m a N = read_bytes m' a N \<Longrightarrow> 8 \<le> N \<Longrightarrow> read64 m a = read64 m' a"
  unfolding read64_def by (metis read_bytes_pre_cong)

lemma read32_local0: "read_bytes m a N = read_bytes m' a N \<Longrightarrow> 4 \<le> N \<Longrightarrow> read32 m a = read32 m' a"
  unfolding read32_def by (metis read_bytes_pre_cong)

lemmas field_local = read32_local read64_local read32_local0 read64_local0

text \<open>Fields of a stored image, by their offset.\<close>

lemma read64_image:
  "unat p + 8 \<le> length bs \<Longrightarrow> length bs \<le> 2 ^ 64 \<Longrightarrow>
     read64 (write_bytes m a bs) (a + p) = le_word (take 8 (drop (unat p) bs))"
  by (simp add: read64_def read_write_off)

lemma read32_image:
  "unat p + 4 \<le> length bs \<Longrightarrow> length bs \<le> 2 ^ 64 \<Longrightarrow>
     read32 (write_bytes m a bs) (a + p) = le_word (take 4 (drop (unat p) bs))"
  by (simp add: read32_def read_write_off)

lemma read64_image0:
  "8 \<le> length bs \<Longrightarrow> length bs \<le> 2 ^ 64 \<Longrightarrow> read64 (write_bytes m a bs) a = le_word (take 8 bs)"
  using read64_image [of 0 bs m a] by simp

lemma read32_image0:
  "4 \<le> length bs \<Longrightarrow> length bs \<le> 2 ^ 64 \<Longrightarrow> read32 (write_bytes m a bs) a = le_word (take 4 bs)"
  using read32_image [of 0 bs m a] by simp

lemmas field_image = read32_image read64_image read32_image0 read64_image0

section \<open>Every struct satisfies the interface\<close>

interpretation db: wire_struct load_doorbell sizeof_doorbell enc_doorbell
proof
  show "load_doorbell m a = load_doorbell m' a"
    if "read_bytes m a sizeof_doorbell = read_bytes m' a sizeof_doorbell" for m m' a
    unfolding load_doorbell_def using that
    by (simp add: field_local [OF that] sizeof_doorbell_def)
qed (simp_all add: load_doorbell_def enc_doorbell_def sizeof_doorbell_def field_image)

interpretation slot: wire_struct load_arg_slot sizeof_arg_slot enc_arg_slot
proof
  show "load_arg_slot m a = load_arg_slot m' a"
    if "read_bytes m a sizeof_arg_slot = read_bytes m' a sizeof_arg_slot" for m m' a
    unfolding load_arg_slot_def by (simp add: field_local [OF that] sizeof_arg_slot_def)
qed (simp_all add: load_arg_slot_def enc_arg_slot_def sizeof_arg_slot_def field_image)

interpretation hs: wire_view load_host_status sizeof_host_status
proof
  show "load_host_status m a = load_host_status m' a"
    if "read_bytes m a sizeof_host_status = read_bytes m' a sizeof_host_status" for m m' a
    unfolding load_host_status_def by (simp add: field_local [OF that] sizeof_host_status_def)
qed

interpretation cp: wire_view load_completion sizeof_completion
proof
  show "load_completion m a = load_completion m' a"
    if "read_bytes m a sizeof_completion = read_bytes m' a sizeof_completion" for m m' a
    unfolding load_completion_def by (simp add: field_local [OF that] sizeof_completion_def)
qed

interpretation ijob: wire_struct load_install_job sizeof_install_job enc_install_job
proof
  show "load_install_job m a = load_install_job m' a"
    if "read_bytes m a sizeof_install_job = read_bytes m' a sizeof_install_job" for m m' a
    unfolding load_install_job_def by (simp add: field_local [OF that] sizeof_install_job_def)
qed (simp_all add: load_install_job_def enc_install_job_def sizeof_install_job_def field_image)

interpretation pjob: wire_struct load_chain_job sizeof_chain_job enc_chain_job
proof
  show "load_chain_job m a = load_chain_job m' a"
    if "read_bytes m a sizeof_chain_job = read_bytes m' a sizeof_chain_job" for m m' a
    unfolding load_chain_job_def by (simp add: field_local [OF that] sizeof_chain_job_def)
qed (simp_all add: load_chain_job_def enc_chain_job_def sizeof_chain_job_def field_image)

interpretation sjob: wire_struct load_stream_job sizeof_stream_job enc_stream_job
proof
  show "load_stream_job m a = load_stream_job m' a"
    if "read_bytes m a sizeof_stream_job = read_bytes m' a sizeof_stream_job" for m m' a
    unfolding load_stream_job_def by (simp add: field_local [OF that] sizeof_stream_job_def)
qed (simp_all add: load_stream_job_def enc_stream_job_def sizeof_stream_job_def field_image)

interpretation cjob: wire_struct load_call_job sizeof_call_job enc_call_job
proof
  show "load_call_job m a = load_call_job m' a"
    if "read_bytes m a sizeof_call_job = read_bytes m' a sizeof_call_job" for m m' a
    unfolding load_call_job_def by (simp add: field_local [OF that] sizeof_call_job_def)
qed (simp_all add: load_call_job_def enc_call_job_def sizeof_call_job_def field_image)

end
