(* ===== verification/Publication.thy ===== *)
theory Publication
  imports Prelude
begin

text \<open>
  Stores another agent can observe. An operation on shared memory is the list of its stores and
  fences, in program order; its effect is to run them all, and what the other side may see is the
  memory after any prefix of them. The interface \<open>publication\<close> is the protocol the runtime uses
  everywhere: the word that announces a record is stored last.
\<close>

datatype event = Store addr "u8 list" | Fence

fun run_event :: "event \<Rightarrow> mem \<Rightarrow> mem" where
  "run_event (Store a bs) m = write_bytes m a bs"
| "run_event Fence m = m"

fun run_events :: "event list \<Rightarrow> mem \<Rightarrow> mem" where
  "run_events [] m = m"
| "run_events (e # es) m = run_events es (run_event e m)"

text \<open>An event leaves the range \<open>[a, a + n)\<close> alone.\<close>

fun avoids :: "addr \<Rightarrow> nat \<Rightarrow> event \<Rightarrow> bool" where
  "avoids a n (Store b bs) = disjoint_rng a n b (length bs)"
| "avoids a n Fence = True"

lemma run_events_append [simp]: "run_events (xs @ ys) m = run_events ys (run_events xs m)"
  by (induction xs arbitrary: m) auto

lemma run_event_avoids: "avoids a n e \<Longrightarrow> read_bytes (run_event e m) a n = read_bytes m a n"
  by (cases e) (auto simp: read_write_disjoint)

lemma run_events_avoids:
  "\<forall>e \<in> set es. avoids a n e \<Longrightarrow> read_bytes (run_events es m) a n = read_bytes m a n"
  by (induction es arbitrary: m) (auto simp: run_event_avoids)

lemma run_events_fences: "\<forall>e \<in> set es. e = Fence \<Longrightarrow> run_events es m = m"
  by (induction es arbitrary: m) auto

section \<open>Word-by-word stores\<close>

text \<open>
  \<open>store_bytes\<close> of \<^verbatim>\<open>cira_mmio.cpp\<close>: eight-byte stores while they fit, then single bytes.
  The source buffer is caller memory, given by its contents. Offsets are natural numbers: every
  length stored is at most the size of a mapped window, so \<open>off + 8\<close> does not wrap.
\<close>

function store_words :: "addr \<Rightarrow> u8 list \<Rightarrow> nat \<Rightarrow> nat \<Rightarrow> event list \<times> nat" where
  "store_words dst src off len =
     (if off + 8 \<le> len then
        (case store_words dst src (off + 8) len of (es, off') \<Rightarrow>
           (Store (dst + of_nat off) (take 8 (drop off src)) # es, off'))
      else ([], off))"
  by pat_completeness auto
termination by (relation "measure (\<lambda>(dst, src, off, len). len - off)") auto

function store_tail :: "addr \<Rightarrow> u8 list \<Rightarrow> nat \<Rightarrow> nat \<Rightarrow> event list" where
  "store_tail dst src off len =
     (if off < len then Store (dst + of_nat off) (take 1 (drop off src)) # store_tail dst src (off + 1) len
      else [])"
  by pat_completeness auto
termination by (relation "measure (\<lambda>(dst, src, off, len). len - off)") auto

declare store_words.simps [simp del] store_tail.simps [simp del]

definition store_bytes :: "addr \<Rightarrow> u8 list \<Rightarrow> nat \<Rightarrow> event list" where
  "store_bytes dst src len =
     (case store_words dst src 0 len of (es, off) \<Rightarrow> es @ store_tail dst src off len)"

text \<open>Both loops together store the first \<open>len\<close> bytes of the source: the reference is one block write.\<close>

lemma write_bytes_step:
  assumes "off + k \<le> length src" "length src \<le> 2 ^ 64"
  shows "write_bytes (write_bytes m dst (take off src)) (dst + of_nat off) (take k (drop off src))
       = write_bytes m dst (take (off + k) src)"
proof -
  have "take off src @ take k (drop off src) = take (off + k) src"
    by (simp add: take_add)
  moreover have "length (take off src) = off" using assms by simp
  ultimately show ?thesis
    using write_bytes_append [of "take off src" "take k (drop off src)" m dst] assms by simp
qed

lemma run_store_tail:
  assumes "len \<le> length src" "length src \<le> 2 ^ 64" "off \<le> len"
  shows "run_events (store_tail dst src off len) (write_bytes m dst (take off src))
       = write_bytes m dst (take len src)"
  using assms
proof (induction dst src off len rule: store_tail.induct)
  case (1 dst src off len)
  show ?case
  proof (cases "off < len")
    case True
    have "run_events (store_tail dst src off len) (write_bytes m dst (take off src)) =
       run_events (store_tail dst src (off + 1) len) (write_bytes m dst (take (off + 1) src))"
      using True 1(2-) write_bytes_step [of off 1 src m dst]
      by (subst store_tail.simps) simp
    then show ?thesis using 1 True by simp
  next
    case False
    then show ?thesis using 1 by (subst store_tail.simps) simp
  qed
qed

lemma run_store_words:
  assumes "len \<le> length src" "length src \<le> 2 ^ 64" "off \<le> len" "store_words dst src off len = (es, off')"
  shows "run_events es (write_bytes m dst (take off src)) = write_bytes m dst (take off' src)
     \<and> off \<le> off' \<and> off' \<le> len"
  using assms
proof (induction dst src off len arbitrary: es rule: store_words.induct)
  case (1 dst src off len)
  show ?case
  proof (cases "off + 8 \<le> len")
    case True
    with 1(5) obtain es1 where e: "store_words dst src (off + 8) len = (es1, off')"
      and es: "es = Store (dst + of_nat off) (take 8 (drop off src)) # es1"
      by (subst (asm) store_words.simps) (auto split: prod.splits)
    have "write_bytes (write_bytes m dst (take off src)) (dst + of_nat off) (take 8 (drop off src))
       = write_bytes m dst (take (off + 8) src)"
      using True 1(2,3) by (intro write_bytes_step) simp_all
    with 1(1) [OF True _ _ _ e] 1(2,3) True show ?thesis by (simp add: es)
  next
    case False
    with 1(5) have "es = [] \<and> off' = off" by (subst (asm) store_words.simps) simp
    then show ?thesis using 1(4) by simp
  qed
qed

lemma run_store_bytes [mem_simps]:
  assumes "len \<le> length src" "length src \<le> 2 ^ 64"
  shows "run_events (store_bytes dst src len) m = write_bytes m dst (take len src)"
proof -
  obtain es off where s: "store_words dst src 0 len = (es, off)" by fastforce
  from run_store_words [OF assms _ s, of m]
  have w: "run_events es m = write_bytes m dst (take off src)" "off \<le> len" by simp_all
  then show ?thesis
    using run_store_tail [OF assms w(2)] by (simp add: store_bytes_def s)
qed

text \<open>Every single store of the loops lies inside the destination range.\<close>

definition within :: "addr \<Rightarrow> nat \<Rightarrow> nat \<Rightarrow> event \<Rightarrow> bool" where
  "within dst off len e \<longleftrightarrow>
     (\<exists>k bs. e = Store (dst + of_nat k) bs \<and> off \<le> k \<and> k + length bs \<le> len)"

lemma store_tail_within:
  "\<forall>e \<in> set (store_tail dst src off len). within dst off len e"
proof (induction dst src off len rule: store_tail.induct)
  case (1 dst src off len)
  show ?case
  proof (cases "off < len")
    case True
    have "within dst off len e" if "within dst (off + 1) len e" for e
      using that unfolding within_def by (metis add_leD1)
    moreover have "within dst off len (Store (dst + of_nat off) (take 1 (drop off src)))"
      unfolding within_def using True by (intro exI [of _ off] exI conjI refl) auto
    ultimately show ?thesis using 1 True by (subst store_tail.simps) auto
  next
    case False
    then show ?thesis by (subst store_tail.simps) simp
  qed
qed

lemma store_words_within:
  "store_words dst src off len = (es, off') \<Longrightarrow> (\<forall>e \<in> set es. within dst off len e) \<and> off \<le> off'"
proof (induction dst src off len arbitrary: es rule: store_words.induct)
  case (1 dst src off len)
  show ?case
  proof (cases "off + 8 \<le> len")
    case True
    with 1(2) obtain es1 where e: "store_words dst src (off + 8) len = (es1, off')"
      and es: "es = Store (dst + of_nat off) (take 8 (drop off src)) # es1"
      by (subst (asm) store_words.simps) (auto split: prod.splits)
    have "within dst off len e" if "within dst (off + 8) len e" for e
      using that unfolding within_def by (metis add_leD1)
    moreover have "within dst off len (Store (dst + of_nat off) (take 8 (drop off src)))"
      unfolding within_def using True by (intro exI [of _ off] exI conjI refl) auto
    ultimately show ?thesis using 1(1) [OF True e] by (auto simp: es)
  next
    case False
    with 1(2) show ?thesis by (subst (asm) store_words.simps) simp
  qed
qed

lemma store_bytes_within: "\<forall>e \<in> set (store_bytes dst src len). within dst 0 len e"
proof -
  obtain es off where s: "store_words dst src 0 len = (es, off)" by fastforce
  have "within dst 0 len e" if "within dst off len e" for e
    using that unfolding within_def by blast
  then show ?thesis
    using store_words_within [OF s] store_tail_within [of dst src off len]
    by (auto simp: store_bytes_def s)
qed

lemma within_avoids:
  assumes w: "within dst 0 len e" and d: "disjoint_rng a n dst len" and l: "len \<le> 2 ^ 64"
  shows "avoids a n e"
proof -
  from w obtain k bs where e: "e = Store (dst + of_nat k) bs" "k + length bs \<le> len"
    unfolding within_def by blast
  show ?thesis
  proof (cases "bs = []")
    case True
    then show ?thesis by (simp add: e disjoint_rng_def)
  next
    case False
    then have "0 < length bs" by simp
    then have k: "k < 2 ^ 64" using e(2) l by linarith
    have "disjoint_rng dst len a n" using d by (simp add: disjoint_rng_sym)
    from disjoint_rng_sub [OF this, of "of_nat k" "length bs"] e(2) l
    have "disjoint_rng (dst + of_nat k) (length bs) a n" by (simp add: unat_of_nat_u64 [OF k])
    then show ?thesis by (simp add: e disjoint_rng_sym)
  qed
qed

lemma store_bytes_avoids:
  assumes "disjoint_rng a n dst len" "len \<le> 2 ^ 64"
  shows "\<forall>e \<in> set (store_bytes dst src len). avoids a n e"
  using store_bytes_within [of dst src len] within_avoids [OF _ assms] by blast

section \<open>The publication protocol\<close>

text \<open>
  Events \<open>pre\<close> that build a record, the store of its announcing word at \<open>flag\<close>, and fences after
  it. An observer between any two stores sees the old announcing word, or the finished record.
\<close>

locale publication =
  fixes pre :: "event list" and flag :: addr and v :: "u8 list" and post :: "event list"
  assumes pre_avoids: "\<forall>e \<in> set pre. avoids flag (length v) e"
    and post_fences: "\<forall>e \<in> set post. e = Fence"
begin

lemma published: "run_events (pre @ Store flag v # post) m = write_bytes (run_events pre m) flag v"
  by (simp add: run_events_fences [OF post_fences])

lemma prefix_unannounced:
  assumes "k \<le> length pre"
  shows "read_bytes (run_events (take k (pre @ Store flag v # post)) m) flag (length v)
       = read_bytes m flag (length v)"
proof -
  have "take k (pre @ Store flag v # post) = take k pre" using assms by simp
  moreover have "\<forall>e \<in> set (take k pre). avoids flag (length v) e"
    using pre_avoids by (auto dest: in_set_takeD)
  ultimately show ?thesis by (simp add: run_events_avoids)
qed

lemma prefix_complete:
  assumes "length pre < k"
  shows "run_events (take k (pre @ Store flag v # post)) m = run_events (pre @ Store flag v # post) m"
proof -
  obtain j where j: "k - length pre = Suc j" using assms by (cases "k - length pre") auto
  have t: "take k (pre @ Store flag v # post) = pre @ Store flag v # take j post"
    using assms j by simp
  have "\<forall>e \<in> set (take j post). e = Fence" using post_fences by (auto dest: in_set_takeD)
  then show ?thesis unfolding t by (simp add: run_events_fences run_events_fences [OF post_fences])
qed

lemma prefix_old_or_done:
  "read_bytes (run_events (take k (pre @ Store flag v # post)) m) flag (length v)
      = read_bytes m flag (length v)
   \<or> run_events (take k (pre @ Store flag v # post)) m = run_events (pre @ Store flag v # post) m"
  using prefix_unannounced [of k m] prefix_complete [of k m] by linarith

end

end
