(* ===== verification/Mmio.thy ===== *)
theory Mmio
  imports Cxl_Job Publication Mwait
begin

text \<open>
  The CXL control window of \<^verbatim>\<open>runtime/cira_mmio.cpp\<close>: opening it, bounds-checked register
  access, completion lines, and the job submission path. The window is a range of the global
  byte memory. An operation that stores to it returns its stores in order (\<open>event list\<close>), so that
  what the device can observe between two stores is part of the model. The operating system's
  answers (allocation, \<open>open\<close>, \<open>mmap\<close>) are inputs.
\<close>

datatype mmio_rc = CIRA_MMIO_OK | CIRA_MMIO_EINVAL | CIRA_MMIO_ENODEV | CIRA_MMIO_EIO
  | CIRA_MMIO_ETIMEDOUT | CIRA_MMIO_ERANGE

text \<open>\<open>w_self\<close> is the address of the window object itself; pointers to windows compare by it.\<close>

record window =
  w_self :: addr
  w_base :: addr
  w_size :: u64
  w_fd :: int
  w_owns_mapping :: bool
  w_emulated :: bool
  w_read_only :: bool
  w_next_seq :: u64

record mmio_config =
  cfg_path :: "string option"
  cfg_offset :: u64
  cfg_size :: u64
  cfg_fixed_addr :: u64
  cfg_emulate :: bool
  cfg_read_only :: bool

text \<open>What the system answers: \<open>new\<close>, an anonymous mapping, \<open>open\<close> and a file mapping.\<close>

record os =
  os_new :: "addr option"
  os_mmap_anon :: "u64 \<Rightarrow> addr option"
  os_open :: "string \<Rightarrow> bool \<Rightarrow> int option"
  os_mmap_fd :: "int \<Rightarrow> u64 \<Rightarrow> u64 \<Rightarrow> bool \<Rightarrow> addr option"

datatype os_call = Opened int | Closed int | Munmapped addr u64

definition in_range :: "window option \<Rightarrow> u64 \<Rightarrow> u64 \<Rightarrow> bool" where
  "in_range w offset len \<longleftrightarrow>
     (case w of None \<Rightarrow> False
      | Some w \<Rightarrow> w_base w \<noteq> 0 \<and> len \<le> w_size w \<and> offset \<le> w_size w - len)"

section \<open>Window lifetime\<close>

definition new_window :: "addr \<Rightarrow> u64 \<Rightarrow> bool \<Rightarrow> window" where
  "new_window self sz ro = \<lparr>w_self = self, w_base = 0, w_size = sz, w_fd = -1,
     w_owns_mapping = False, w_emulated = False, w_read_only = ro, w_next_seq = 1\<rparr>"

text \<open>The path of a configuration that has one.\<close>

definition the_path :: "mmio_config \<Rightarrow> string" where
  "the_path cfg = (case cfg_path cfg of None \<Rightarrow> [] | Some p \<Rightarrow> p)"

text \<open>
  \<open>cira_mmio_open\<close>: return code, \<open>*out\<close>, the calls made on file descriptors, and the memory
  (an emulated window is zeroed). \<open>out_ok\<close> is \<open>out != nullptr\<close>.
\<close>

definition cira_mmio_open ::
  "os \<Rightarrow> bool \<Rightarrow> mmio_config option \<Rightarrow> mem \<Rightarrow> mmio_rc \<times> window option \<times> os_call list \<times> mem" where
  "cira_mmio_open os out_ok cfgp m =
     (case cfgp of
        None \<Rightarrow> (CIRA_MMIO_EINVAL, None, [], m)
      | Some cfg \<Rightarrow>
        if \<not> out_ok then (CIRA_MMIO_EINVAL, None, [], m)
        else let sz = (if cfg_size cfg \<noteq> 0 then cfg_size cfg else CIRA_CXL_CONTROL_BYTES) in
          if sz < CIRA_CXL_CONTROL_BYTES then (CIRA_MMIO_ERANGE, None, [], m)
          else case os_new os of
            None \<Rightarrow> (CIRA_MMIO_EIO, None, [], m)
          | Some self \<Rightarrow>
            let w = new_window self sz (cfg_read_only cfg) in
            if cfg_fixed_addr cfg \<noteq> 0 then
              (CIRA_MMIO_OK, Some (w\<lparr>w_base := cfg_fixed_addr cfg\<rparr>), [], m)
            else if cfg_emulate cfg \<or> cfg_path cfg = None then
              (if \<not> cfg_emulate cfg then (CIRA_MMIO_ENODEV, None, [], m)
               else case os_mmap_anon os sz of
                      None \<Rightarrow> (CIRA_MMIO_EIO, None, [], m)
                    | Some mp \<Rightarrow>
                        (CIRA_MMIO_OK, Some (w\<lparr>w_base := mp, w_owns_mapping := True, w_emulated := True\<rparr>),
                         [], memset m mp 0 (unat sz)))
            else
              (case os_open os (the_path cfg) (cfg_read_only cfg) of
                 None \<Rightarrow> (CIRA_MMIO_ENODEV, None, [], m)
               | Some fd \<Rightarrow>
                   (case os_mmap_fd os fd (cfg_offset cfg) sz (cfg_read_only cfg) of
                      None \<Rightarrow> (CIRA_MMIO_EIO, None, [Opened fd, Closed fd], m)
                    | Some mp \<Rightarrow>
                        (CIRA_MMIO_OK, Some (w\<lparr>w_fd := fd, w_base := mp, w_owns_mapping := True\<rparr>),
                         [Opened fd], m))))"

text \<open>\<open>cira_mmio_open_env\<close>, first its configuration (\<open>None\<close>: no device is configured).\<close>

definition env_config :: "env \<Rightarrow> mmio_config option" where
  "env_config env =
     (let sz = (case mmio_parse_env_u64 env ''CIRA_CXL_MMIO_SIZE'' (Some ''CIRA_TYPE2_MMIO_SIZE'') of
                    None \<Rightarrow> CIRA_CXL_CONTROL_BYTES | Some v \<Rightarrow> v);
          offset = (case mmio_parse_env_u64 env ''CIRA_CXL_MMIO_OFFSET'' (Some ''CIRA_TYPE2_MMIO_OFFSET'') of
                    None \<Rightarrow> 0 | Some v \<Rightarrow> v);
          cfg = \<lparr>cfg_path = None, cfg_offset = offset, cfg_size = sz, cfg_fixed_addr = 0,
                 cfg_emulate = False, cfg_read_only = False\<rparr>;
          a = (case mmio_parse_env_u64 env ''CIRA_CXL_MMIO_ADDR'' (Some ''CIRA_TYPE2_MMIO_ADDR'') of
                    None \<Rightarrow> 0 | Some v \<Rightarrow> v)
      in if a \<noteq> 0 then Some (cfg\<lparr>cfg_fixed_addr := a\<rparr>)
         else let path = mmio_env_str env ''CIRA_CXL_MMIO_PATH'' (Some ''CIRA_TYPE2_MMIO_PATH'');
                  em = env_flag_enabled env ''CIRA_CXL_MMIO_EMULATE''
              in if path = None \<and> \<not> em then None
                 else Some (cfg\<lparr>cfg_path := (if em then None else path), cfg_emulate := em\<rparr>))"

definition cira_mmio_open_env ::
  "env \<Rightarrow> os \<Rightarrow> bool \<Rightarrow> mem \<Rightarrow> mmio_rc \<times> window option \<times> os_call list \<times> mem" where
  "cira_mmio_open_env env os out_ok m =
     (if \<not> out_ok then (CIRA_MMIO_EINVAL, None, [], m)
      else case env_config env of
        None \<Rightarrow> (CIRA_MMIO_ENODEV, None, [], m)
      | Some cfg \<Rightarrow> cira_mmio_open os out_ok (Some cfg) m)"

definition cira_mmio_close :: "window option \<Rightarrow> os_call list" where
  "cira_mmio_close w =
     (case w of None \<Rightarrow> []
      | Some w \<Rightarrow>
          (if w_owns_mapping w \<and> w_base w \<noteq> 0 then [Munmapped (w_base w) (w_size w)] else []) @
          (if 0 \<le> w_fd w then [Closed (w_fd w)] else []))"

text \<open>The process-wide window and device entry point.\<close>

record mmio_globals =
  g_default_window :: "window option"
  g_default_probed :: bool
  g_device_func :: addr

definition cira_mmio_default ::
  "env \<Rightarrow> os \<Rightarrow> mmio_globals \<Rightarrow> mem \<Rightarrow> window option \<times> mmio_globals \<times> os_call list \<times> mem" where
  "cira_mmio_default env os g m =
     (if g_default_window g \<noteq> None \<or> g_default_probed g then (g_default_window g, g, [], m)
      else let g1 = g\<lparr>g_default_probed := True\<rparr> in
        (case cira_mmio_open_env env os True m of
           (rc, w, calls, m') \<Rightarrow>
             (let g2 = (if rc = CIRA_MMIO_OK then g1\<lparr>g_default_window := w\<rparr> else g1)
              in (g_default_window g2, g2, calls, m'))))"

definition cira_mmio_set_default :: "window option \<Rightarrow> mmio_globals \<Rightarrow> mmio_globals \<times> os_call list" where
  "cira_mmio_set_default w g =
     (let calls = (case g_default_window g of
                     None \<Rightarrow> []
                   | Some old \<Rightarrow>
                       if map_option w_self w \<noteq> Some (w_self old) then cira_mmio_close (Some old) else [])
      in (g\<lparr>g_default_window := w, g_default_probed := (w \<noteq> None)\<rparr>, calls))"

definition cira_mmio_base :: "window option \<Rightarrow> addr" where
  "cira_mmio_base w = (case w of None \<Rightarrow> 0 | Some w \<Rightarrow> w_base w)"

definition cira_mmio_size :: "window option \<Rightarrow> u64" where
  "cira_mmio_size w = (case w of None \<Rightarrow> 0 | Some w \<Rightarrow> w_size w)"

definition cira_mmio_is_emulated :: "window option \<Rightarrow> bool" where
  "cira_mmio_is_emulated w = (case w of None \<Rightarrow> False | Some w \<Rightarrow> w_emulated w)"

section \<open>Register access\<close>

definition win_read_only :: "window option \<Rightarrow> bool" where
  "win_read_only w = (case w of None \<Rightarrow> False | Some w \<Rightarrow> w_read_only w)"

definition cira_mmio_read32 :: "mem \<Rightarrow> window option \<Rightarrow> u64 \<Rightarrow> u32" where
  "cira_mmio_read32 m w offset =
     (if \<not> in_range w offset 4 then 0 else read32 m (cira_mmio_base w + offset))"

definition cira_mmio_read64 :: "mem \<Rightarrow> window option \<Rightarrow> u64 \<Rightarrow> u64" where
  "cira_mmio_read64 m w offset =
     (if \<not> in_range w offset 8 then 0 else read64 m (cira_mmio_base w + offset))"

definition cira_mmio_write32 :: "window option \<Rightarrow> u64 \<Rightarrow> u32 \<Rightarrow> mmio_rc \<times> event list" where
  "cira_mmio_write32 w offset value =
     (if win_read_only w then (CIRA_MMIO_EINVAL, [])
      else if \<not> in_range w offset 4 then (CIRA_MMIO_ERANGE, [])
      else (CIRA_MMIO_OK, [Store (cira_mmio_base w + offset) (le_bytes 4 value)]))"

definition cira_mmio_write64 :: "window option \<Rightarrow> u64 \<Rightarrow> u64 \<Rightarrow> mmio_rc \<times> event list" where
  "cira_mmio_write64 w offset value =
     (if win_read_only w then (CIRA_MMIO_EINVAL, [])
      else if \<not> in_range w offset 8 then (CIRA_MMIO_ERANGE, [])
      else (CIRA_MMIO_OK, [Store (cira_mmio_base w + offset) (le_bytes 8 value)]))"

text \<open>Buffers of the caller are given by their contents, \<open>None\<close> for a null pointer.\<close>

definition cira_mmio_write_block ::
  "window option \<Rightarrow> u64 \<Rightarrow> u8 list option \<Rightarrow> u64 \<Rightarrow> mmio_rc \<times> event list" where
  "cira_mmio_write_block w offset src len =
     (if win_read_only w then (CIRA_MMIO_EINVAL, [])
      else if src = None \<and> len \<noteq> 0 then (CIRA_MMIO_EINVAL, [])
      else if \<not> in_range w offset len then (CIRA_MMIO_ERANGE, [])
      else (CIRA_MMIO_OK,
            store_bytes (cira_mmio_base w + offset) (case src of None \<Rightarrow> [] | Some s \<Rightarrow> s) (unat len)))"

text \<open>\<open>load_bytes\<close>: eight-byte loads while they fit, then single bytes.\<close>

function load_words :: "mem \<Rightarrow> addr \<Rightarrow> nat \<Rightarrow> nat \<Rightarrow> u8 list \<times> nat" where
  "load_words m src off len =
     (if off + 8 \<le> len then
        (case load_words m src (off + 8) len of (bs, off') \<Rightarrow>
           (le_bytes 8 (read64 m (src + of_nat off)) @ bs, off'))
      else ([], off))"
  by pat_completeness auto
termination by (relation "measure (\<lambda>(m, src, off, len). len - off)") auto

function load_tail :: "mem \<Rightarrow> addr \<Rightarrow> nat \<Rightarrow> nat \<Rightarrow> u8 list" where
  "load_tail m src off len =
     (if off < len then m (src + of_nat off) # load_tail m src (off + 1) len else [])"
  by pat_completeness auto
termination by (relation "measure (\<lambda>(m, src, off, len). len - off)") auto

declare load_words.simps [simp del] load_tail.simps [simp del]

definition load_bytes :: "mem \<Rightarrow> addr \<Rightarrow> nat \<Rightarrow> u8 list" where
  "load_bytes m src len = (case load_words m src 0 len of (bs, off) \<Rightarrow> bs @ load_tail m src off len)"

definition cira_mmio_read_block ::
  "mem \<Rightarrow> window option \<Rightarrow> u64 \<Rightarrow> bool \<Rightarrow> u64 \<Rightarrow> mmio_rc \<times> u8 list" where
  "cira_mmio_read_block m w offset dst_ok len =
     (if \<not> dst_ok \<and> len \<noteq> 0 then (CIRA_MMIO_EINVAL, [])
      else if \<not> in_range w offset len then (CIRA_MMIO_ERANGE, [])
      else (CIRA_MMIO_OK, load_bytes m (cira_mmio_base w + offset) (unat len)))"

section \<open>Completion lines\<close>

definition cira_mmio_arm_completion :: "addr \<Rightarrow> mem \<Rightarrow> mem" where
  "cira_mmio_arm_completion c m =
     (if c = 0 then m else memset m c 0 (unat CIRA_CXL_CACHELINE_SIZE))"

definition signal_pre :: "addr \<Rightarrow> u32 \<Rightarrow> u64 \<Rightarrow> event list" where
  "signal_pre c status result =
     [Store (c + 4) (le_bytes 4 status), Store (c + 8) (le_bytes 8 result),
      Store (c + 16) (le_bytes 8 (0 :: u64)), Store (c + 24) (le_bytes 8 (0 :: u64)), Fence]"

definition cira_mmio_signal_completion :: "addr \<Rightarrow> u32 \<Rightarrow> u64 \<Rightarrow> event list" where
  "cira_mmio_signal_completion c status result =
     (if c = 0 then []
      else signal_pre c status result @ [Store c (le_bytes 4 CIRA_CXL_COMPLETION_MAGIC)])"

text \<open>
  The wait runs against a memory another agent changes: \<open>snap t\<close> is the memory at the host's
  \<open>t\<close>-th load. \<open>None\<close> is a wait that never returns.
\<close>

definition cira_mmio_wait_completion ::
  "u32 \<Rightarrow> (nat \<Rightarrow> mem) \<Rightarrow> (nat \<Rightarrow> u64) \<Rightarrow> addr \<Rightarrow> u64 \<Rightarrow> (mmio_rc \<times> nat) option" where
  "cira_mmio_wait_completion budget snap clk c timeout_ns =
     (if c = 0 then Some (CIRA_MMIO_EINVAL, 0)
      else map_option (\<lambda>(ok, k). (if ok then CIRA_MMIO_OK else CIRA_MMIO_ETIMEDOUT, k))
        (cira_wait_u32 budget c (\<lambda>t. read32 (snap t) c) clk CIRA_CXL_COMPLETION_MAGIC timeout_ns))"

definition cira_mmio_default_timeout_ns :: "env \<Rightarrow> u64" where
  "cira_mmio_default_timeout_ns env =
     (case mmio_parse_env_u64 env ''CIRA_CXL_MMIO_TIMEOUT_NS'' None of None \<Rightarrow> 0 | Some ns \<Rightarrow> ns)"

definition cira_mmio_device_func :: "env \<Rightarrow> mmio_globals \<Rightarrow> addr" where
  "cira_mmio_device_func env g =
     (if g_device_func g \<noteq> 0 then g_device_func g
      else case mmio_parse_env_u64 env ''CIRA_CXL_DEVICE_FUNC_ADDR'' (Some ''CIRA_TYPE2_DEVICE_FUNC_ADDR'') of
             Some a \<Rightarrow> if a \<noteq> 0 then a else 0
           | None \<Rightarrow> 0)"

definition cira_mmio_set_device_func :: "addr \<Rightarrow> mmio_globals \<Rightarrow> mmio_globals" where
  "cira_mmio_set_device_func f g = g\<lparr>g_device_func := f\<rparr>"

section \<open>Job submission\<close>

text \<open>\<open>next_seq.fetch_add\<close>, skipping the value 0 after a wrap-around.\<close>

definition take_seq :: "window \<Rightarrow> u64 \<times> window" where
  "take_seq w =
     (let seq = w_next_seq w; w1 = w\<lparr>w_next_seq := seq + 1\<rparr>
      in if seq = 0 then (w_next_seq w1, w1\<lparr>w_next_seq := w_next_seq w1 + 1\<rparr>) else (seq, w1))"

definition job_header :: "u32 \<Rightarrow> u64 \<Rightarrow> u64 \<Rightarrow> arg_slot" where
  "job_header job_id seq arg_len = \<lparr>as_magic = CIRA_CXL_JOB_MAGIC, as_version = CIRA_CXL_JOB_VERSION,
     as_job_id = job_id, as_seq = seq, as_arg_len = arg_len\<rparr>"

definition job_doorbell :: "u32 \<Rightarrow> u32 \<Rightarrow> u32 \<Rightarrow> u64 \<Rightarrow> doorbell" where
  "job_doorbell job_id flags status seq = \<lparr>db_magic = CIRA_CXL_JOB_MAGIC,
     db_version = CIRA_CXL_JOB_VERSION, db_job_id = job_id, db_flags = flags, db_status = status,
     db_seq = seq\<rparr>"

text \<open>
  \<open>cira_mmio_submit_job\<close>: return code, the window with its sequence counter advanced, the stores in
  order (payload, slot header, doorbell, each followed by a fence) and the committed sequence number.
\<close>

definition submit_stores :: "addr \<Rightarrow> u32 \<Rightarrow> u8 list \<Rightarrow> u64 \<Rightarrow> u32 \<Rightarrow> u64 \<Rightarrow> event list" where
  "submit_stores base job_id args arg_len flags seq =
     (let slot = base + cira_cxl_arg_slot_off job_id in
      (if arg_len \<noteq> 0 then store_bytes (slot + of_nat sizeof_arg_slot) args (unat arg_len) @ [Fence] else []) @
      store_bytes slot (enc_arg_slot (job_header job_id seq arg_len)) sizeof_arg_slot @ [Fence] @
      store_bytes (base + CIRA_CXL_DOORBELL_OFF)
        (enc_doorbell (job_doorbell job_id flags CIRA_CXL_STATUS_RUNNING seq)) sizeof_doorbell @ [Fence])"

definition cira_mmio_submit_job ::
  "window option \<Rightarrow> u32 \<Rightarrow> u8 list option \<Rightarrow> u64 \<Rightarrow> u32
     \<Rightarrow> mmio_rc \<times> window option \<times> event list \<times> u64 option" where
  "cira_mmio_submit_job w job_id args arg_len flags =
     (if cira_mmio_base w = 0 then (CIRA_MMIO_ENODEV, w, [], None)
      else if win_read_only w then (CIRA_MMIO_EINVAL, w, [], None)
      else if job_id = CIRA_CXL_JOB_NOP \<or> CIRA_CXL_JOB_MAX < job_id then (CIRA_MMIO_EINVAL, w, [], None)
      else if CIRA_CXL_ARG_PAYLOAD_BYTES < arg_len then (CIRA_MMIO_ERANGE, w, [], None)
      else if arg_len \<noteq> 0 \<and> args = None then (CIRA_MMIO_EINVAL, w, [], None)
      else if \<not> in_range w (cira_cxl_arg_slot_off job_id) CIRA_CXL_ARG_SLOT_BYTES
           \<or> \<not> in_range w CIRA_CXL_DOORBELL_OFF (of_nat sizeof_doorbell)
        then (CIRA_MMIO_ERANGE, w, [], None)
      else case w of
        None \<Rightarrow> (CIRA_MMIO_ENODEV, w, [], None)
      | Some win \<Rightarrow>
          (case take_seq win of (seq, win') \<Rightarrow>
             (CIRA_MMIO_OK, Some win',
              submit_stores (w_base win) job_id (case args of None \<Rightarrow> [] | Some s \<Rightarrow> s) arg_len flags seq,
              Some seq)))"

definition cira_mmio_submit_call ::
  "env \<Rightarrow> mmio_globals \<Rightarrow> window option \<Rightarrow> addr \<Rightarrow> addr \<Rightarrow> u32 \<Rightarrow> addr
     \<Rightarrow> mmio_rc \<times> window option \<times> event list \<times> u64 option" where
  "cira_mmio_submit_call env g w func operands num_operands completion =
     (if num_operands \<noteq> 0 \<and> operands = 0 then (CIRA_MMIO_EINVAL, w, [], None)
      else let target = (if func \<noteq> 0 then func else cira_mmio_device_func env g) in
        if target = 0 then (CIRA_MMIO_ENODEV, w, [], None)
        else cira_mmio_submit_job w CIRA_CXL_JOB_CALL
               (Some (enc_call_job \<lparr>cj_func_addr = target, cj_operands_addr = operands,
                  cj_completion_addr = completion, cj_num_operands = num_operands, cj_reserved = 0\<rparr>))
               (of_nat sizeof_call_job) 0)"

section \<open>Waiting for a sequence number\<close>

text \<open>
  One load of the status line's \<open>seq\<close> at time \<open>t\<close>, then either its \<open>status\<close> at the next load, or
  a wait on the low half until it changes. \<open>clks j\<close> are the clock readings of the \<open>j\<close>-th wait.
\<close>

partial_function (option) wait_seq_loop ::
  "u32 \<Rightarrow> (nat \<Rightarrow> mem) \<Rightarrow> (nat \<Rightarrow> nat \<Rightarrow> u64) \<Rightarrow> addr \<Rightarrow> u64 \<Rightarrow> u64 \<Rightarrow> nat \<Rightarrow> nat \<Rightarrow> mmio_rc option" where
  "wait_seq_loop budget snap clks st seq timeout_ns t j =
     (let observed = read64 (snap t) (st + 24) in
      if seq \<le> observed then
        Some (if read32 (snap (t + 1)) (st + 16) = CIRA_CXL_STATUS_SUCCESS then CIRA_MMIO_OK else CIRA_MMIO_EIO)
      else case cira_wait_u32_ne budget (st + 24) (\<lambda>k. read32 (snap (t + 1 + k)) (st + 24)) (clks j)
                  (ucast observed) timeout_ns of
             None \<Rightarrow> None
           | Some (ok, k) \<Rightarrow>
               if ok then wait_seq_loop budget snap clks st seq timeout_ns (t + 1 + k) (j + 1)
               else Some CIRA_MMIO_ETIMEDOUT)"

definition cira_mmio_wait_seq ::
  "u32 \<Rightarrow> (nat \<Rightarrow> mem) \<Rightarrow> (nat \<Rightarrow> nat \<Rightarrow> u64) \<Rightarrow> window option \<Rightarrow> u64 \<Rightarrow> u64 \<Rightarrow> mmio_rc option" where
  "cira_mmio_wait_seq budget snap clks w seq timeout_ns =
     (if cira_mmio_base w = 0 then Some CIRA_MMIO_ENODEV
      else if \<not> in_range w CIRA_CXL_STATUS_OFF (of_nat sizeof_host_status) then Some CIRA_MMIO_ERANGE
      else wait_seq_loop budget snap clks (cira_mmio_base w + CIRA_CXL_STATUS_OFF) seq timeout_ns 0 0)"


section \<open>The window is carved without overlaps\<close>

lemma job_id_cases:
  assumes "job_id \<le> CIRA_CXL_JOB_MAX"
  obtains "job_id = 0" | "job_id = 1" | "job_id = 2" | "job_id = 3" | "job_id = 4"
proof -
  have "unat job_id \<le> 4" using assms by (simp add: job_id_defs word_le_nat_alt)
  then consider "unat job_id = unat (0 :: u32)" | "unat job_id = unat (1 :: u32)"
    | "unat job_id = unat (2 :: u32)" | "unat job_id = unat (3 :: u32)" | "unat job_id = unat (4 :: u32)"
    by (simp, linarith)
  then show thesis using that by cases (blast dest: unsigned_word_eqI)+
qed

lemma slot_off_bounds:
  assumes "job_id \<le> CIRA_CXL_JOB_MAX"
  shows "0x100 \<le> unat (cira_cxl_arg_slot_off job_id)"
    and "unat (cira_cxl_arg_slot_off job_id) + 0x400 \<le> 0x1500"
    and "unat (cira_cxl_arg_slot_off job_id) = 0x100 + 0x400 * unat job_id"
  by (rule job_id_cases [OF assms]; simp add: cira_cxl_arg_slot_off_def window_defs)+

lemma slot_doorbell_disjoint:
  assumes "job_id \<le> CIRA_CXL_JOB_MAX" "p + n \<le> 0x400" "q + k \<le> 0x100"
  shows "disjoint_rng (base + of_nat q) k (base + cira_cxl_arg_slot_off job_id + of_nat p) n"
proof (cases "n = 0 \<or> k = 0")
  case False
  let ?s = "cira_cxl_arg_slot_off job_id"
  have u: "unat (of_nat p :: u64) = p" "unat (of_nat q :: u64) = q"
    using assms False by (auto intro!: unat_of_nat_u64)
  have "unat (?s + of_nat p) = unat ?s + p"
    using slot_off_bounds(2) [OF assms(1)] assms(2) by (intro unat_sub_add_u64) simp
  then have "disjoint_rng (base + of_nat q) k (base + (?s + of_nat p)) n"
    using slot_off_bounds [OF assms(1)] assms by (intro disjoint_off) (simp_all add: u)
  then show ?thesis by (simp add: add.assoc)
qed (auto simp: disjoint_rng_def)

lemma store_bytes_32:
  "store_bytes dst src 32 = [Store dst (take 8 src), Store (dst + 8) (take 8 (drop 8 src)),
     Store (dst + 16) (take 8 (drop 16 src)), Store (dst + 24) (take 8 (drop 24 src))]"
  by (simp add: store_bytes_def store_words.simps store_tail.simps)

section \<open>Submission publishes a complete job\<close>

definition submit_pre :: "addr \<Rightarrow> u32 \<Rightarrow> u8 list \<Rightarrow> u64 \<Rightarrow> u32 \<Rightarrow> u64 \<Rightarrow> event list" where
  "submit_pre base job_id args arg_len flags seq =
     (let slot = base + cira_cxl_arg_slot_off job_id;
          img = enc_doorbell (job_doorbell job_id flags CIRA_CXL_STATUS_RUNNING seq) in
      (if arg_len \<noteq> 0 then store_bytes (slot + of_nat sizeof_arg_slot) args (unat arg_len) @ [Fence] else []) @
      store_bytes slot (enc_arg_slot (job_header job_id seq arg_len)) sizeof_arg_slot @ [Fence] @
      [Store base (take 8 img), Store (base + 8) (take 8 (drop 8 img)), Store (base + 16) (take 8 (drop 16 img))])"

lemma submit_stores_split:
  "submit_stores base job_id args arg_len flags seq =
     submit_pre base job_id args arg_len flags seq @ Store (base + 24) (le_bytes 8 seq) # [Fence]"
proof -
  have "take 8 (drop 24 (enc_doorbell (job_doorbell job_id flags CIRA_CXL_STATUS_RUNNING seq))) = le_bytes 8 seq"
    by (simp add: enc_doorbell_def job_doorbell_def)
  then show ?thesis
    by (simp add: submit_stores_def submit_pre_def Let_def sizeof_doorbell_def store_bytes_32
        CIRA_CXL_DOORBELL_OFF_def)
qed

lemma submit_publication:
  assumes j: "job_id \<le> CIRA_CXL_JOB_MAX" and l: "arg_len \<le> CIRA_CXL_ARG_PAYLOAD_BYTES"
  shows "publication (submit_pre base job_id args arg_len flags seq) (base + 24) (le_bytes 8 seq) [Fence]"
proof
  have l': "unat arg_len \<le> 992"
    using l by (simp add: CIRA_CXL_ARG_PAYLOAD_BYTES_def window_defs sizeof_defs word_le_nat_alt)
  have p: "\<forall>e \<in> set (store_bytes (base + cira_cxl_arg_slot_off job_id + of_nat sizeof_arg_slot) args (unat arg_len)).
      avoids (base + 24) 8 e"
    using slot_doorbell_disjoint [OF j, of 32 "unat arg_len" 24 8 base] l'
    by (intro store_bytes_avoids) (simp_all add: sizeof_defs)
  have h: "\<forall>e \<in> set (store_bytes (base + cira_cxl_arg_slot_off job_id) bs sizeof_arg_slot).
      avoids (base + 24) 8 e" for bs
    using slot_doorbell_disjoint [OF j, of 0 32 24 8 base]
    by (intro store_bytes_avoids) (simp_all add: sizeof_defs)
  have d: "disjoint_rng (base + 24) 8 base n" "disjoint_rng (base + 24) 8 (base + 8) n"
      "disjoint_rng (base + 24) 8 (base + 16) n" if "n \<le> 8" for n
    using that disjoint_off_rev [of 0 n 24 8 base] disjoint_off_rev [of 8 n 24 8 base]
      disjoint_off_rev [of 16 n 24 8 base] by simp_all
  show "\<forall>e \<in> set (submit_pre base job_id args arg_len flags seq). avoids (base + 24) (length (le_bytes 8 seq)) e"
    using p h d by (auto simp: submit_pre_def Let_def)
qed simp

lemma run_submit_stores:
  assumes l: "arg_len \<le> CIRA_CXL_ARG_PAYLOAD_BYTES" and a: "unat arg_len \<le> length args" "length args \<le> 2 ^ 64"
  shows "run_events (submit_stores base job_id args arg_len flags seq) m =
    write_bytes
      (write_bytes
        (write_bytes m (base + cira_cxl_arg_slot_off job_id + 32) (take (unat arg_len) args))
        (base + cira_cxl_arg_slot_off job_id) (enc_arg_slot (job_header job_id seq arg_len)))
      base (enc_doorbell (job_doorbell job_id flags CIRA_CXL_STATUS_RUNNING seq))"
proof -
  have h: "length (enc_arg_slot x) = 32" for x using slot.enc_length by (simp add: sizeof_defs)
  have d: "length (enc_doorbell x) = 32" for x using db.enc_length by (simp add: sizeof_defs)
  have hb: "run_events (store_bytes b (enc_arg_slot x) 32) mm = write_bytes mm b (enc_arg_slot x)" for b x mm
    using run_store_bytes [of 32 "enc_arg_slot x" b mm] by (simp add: h)
  have db: "run_events (store_bytes b (enc_doorbell x) 32) mm = write_bytes mm b (enc_doorbell x)" for b x mm
    using run_store_bytes [of 32 "enc_doorbell x" b mm] by (simp add: d)
  show ?thesis
    using a by (simp add: submit_stores_def Let_def sizeof_defs hb db run_store_bytes CIRA_CXL_DOORBELL_OFF_def)
qed

text \<open>
  The committed job as the device reads it: the doorbell, the slot header that matches it, the
  payload behind it; and nothing else in memory changed.
\<close>

lemma submitted_job:
  assumes j: "job_id \<le> CIRA_CXL_JOB_MAX" and l: "arg_len \<le> CIRA_CXL_ARG_PAYLOAD_BYTES"
    and a: "unat arg_len \<le> length args" "length args \<le> 2 ^ 64"
    and m': "m' = run_events (submit_stores base job_id args arg_len flags seq) m"
  shows "load_doorbell m' base = job_doorbell job_id flags CIRA_CXL_STATUS_RUNNING seq"
    and "load_arg_slot m' (base + cira_cxl_arg_slot_off job_id) = job_header job_id seq arg_len"
    and "read_bytes m' (base + cira_cxl_arg_slot_off job_id + 32) (unat arg_len) = take (unat arg_len) args"
    and "disjoint_rng p n base 32 \<Longrightarrow> disjoint_rng p n (base + cira_cxl_arg_slot_off job_id) 0x400 \<Longrightarrow>
         read_bytes m' p n = read_bytes m p n"
proof -
  let ?s = "base + cira_cxl_arg_slot_off job_id"
  have l': "unat arg_len \<le> 992"
    using l by (simp add: CIRA_CXL_ARG_PAYLOAD_BYTES_def window_defs sizeof_defs word_le_nat_alt)
  have h: "length (enc_arg_slot x) = 32" for x using slot.enc_length by (simp add: sizeof_defs)
  have d: "length (enc_doorbell x) = 32" for x using db.enc_length by (simp add: sizeof_defs)
  note run = m' [unfolded run_submit_stores [OF l a]]
  show "load_doorbell m' base = job_doorbell job_id flags CIRA_CXL_STATUS_RUNNING seq"
    unfolding run by (rule db.enc_roundtrip)
  have ds: "disjoint_rng ?s 32 base 32"
    using slot_doorbell_disjoint [OF j, of 0 32 0 32 base] by (simp add: disjoint_rng_sym)
  show "load_arg_slot m' ?s = job_header job_id seq arg_len"
    unfolding run using ds by (intro slot.stored_survives) (simp add: sizeof_defs d)
  have dp: "disjoint_rng (?s + 32) (unat arg_len) base 32"
    using slot_doorbell_disjoint [OF j, of 32 "unat arg_len" 0 32 base] l' by (simp add: disjoint_rng_sym)
  have dh: "disjoint_rng (?s + 32) (unat arg_len) ?s 32"
    using disjoint_off_rev [of 0 32 32 "unat arg_len" ?s] l' by simp
  have "length (take (unat arg_len) args) = unat arg_len" using a by simp
  then show "read_bytes m' (?s + 32) (unat arg_len) = take (unat arg_len) args"
    unfolding run using dp dh a read_write_same [of "take (unat arg_len) args" m "?s + 32"]
    by (simp add: read_write_disjoint h d)
  assume p1: "disjoint_rng p n base 32" and p2: "disjoint_rng p n ?s 0x400"
  have "disjoint_rng ?s 32 p n" "disjoint_rng (?s + 32) (unat arg_len) p n"
    using disjoint_rng_sub [of ?s "0x400" p n 0 32] disjoint_rng_sub [of ?s "0x400" p n 32 "unat arg_len"]
      p2 l' by (simp_all add: disjoint_rng_sym)
  then show "read_bytes m' p n = read_bytes m p n"
    unfolding run using p1 a by (simp add: read_write_disjoint h d disjoint_rng_sym)
qed

section \<open>Completion lines are published\<close>

interpretation sig: publication "signal_pre c status result" c "le_bytes 4 CIRA_CXL_COMPLETION_MAGIC" "[]"
  for c status result
proof
  have d: "disjoint_rng c 4 (c + 4) 4" "disjoint_rng c 4 (c + 8) 8" "disjoint_rng c 4 (c + 16) 8"
      "disjoint_rng c 4 (c + 24) 8"
    using disjoint_off [of 0 4 4 4 c] disjoint_off [of 0 4 8 8 c] disjoint_off [of 0 4 16 8 c]
      disjoint_off [of 0 4 24 8 c] by simp_all
  show "\<forall>e \<in> set (signal_pre c status result). avoids c (length (le_bytes 4 CIRA_CXL_COMPLETION_MAGIC)) e"
    by (simp add: signal_pre_def d)
qed simp

section \<open>Block loads\<close>

lemma load_words_bytes:
  "off \<le> len \<Longrightarrow> load_words m src off len = (bs, off') \<Longrightarrow>
     off \<le> off' \<and> off' \<le> len \<and> bs = read_bytes m (src + of_nat off) (off' - off)"
proof (induction m src off len arbitrary: bs rule: load_words.induct)
  case (1 m src off len)
  show ?case
  proof (cases "off + 8 \<le> len")
    case True
    with 1(3) obtain bs1 where e: "load_words m src (off + 8) len = (bs1, off')"
      and bs: "bs = le_bytes 8 (read64 m (src + of_nat off)) @ bs1"
      by (subst (asm) load_words.simps) (auto split: prod.splits)
    note ih = 1(1) [OF True True e]
    have "le_bytes 8 (read64 m (src + of_nat off)) = read_bytes m (src + of_nat off) 8"
      by (simp add: read64_def)
    moreover have "off' - off = 8 + (off' - (off + 8))" using ih by simp
    ultimately show ?thesis
      using ih read_bytes_append [of m "src + of_nat off" 8 "off' - (off + 8)"]
      by (auto simp: bs add_ac)
  next
    case False
    with 1(2,3) show ?thesis by (subst (asm) load_words.simps) simp
  qed
qed

lemma load_tail_bytes: "load_tail m src off len = read_bytes m (src + of_nat off) (len - off)"
proof (induction m src off len rule: load_tail.induct)
  case (1 m src off len)
  show ?case
  proof (cases "off < len")
    case True
    then have "len - off = 1 + (len - (off + 1))" by simp
    with 1 [OF True] True show ?thesis
      using read_bytes_append [of m "src + of_nat off" 1 "len - (off + 1)"]
      by (subst load_tail.simps) (simp add: read_bytes_def [of m _ "Suc 0"] add_ac)
  next
    case False
    then show ?thesis by (subst load_tail.simps) simp
  qed
qed

lemma load_bytes_read [mem_simps]: "load_bytes m src len = read_bytes m src len"
proof -
  obtain bs off where w: "load_words m src 0 len = (bs, off)" by fastforce
  from load_words_bytes [OF _ w] have
    o: "off \<le> len" "bs = read_bytes m src off" by simp_all
  have "read_bytes m src len = read_bytes m src off @ read_bytes m (src + of_nat off) (len - off)"
    using read_bytes_append [of m src off "len - off"] o(1) by simp
  then show ?thesis by (simp add: load_bytes_def w load_tail_bytes o)
qed

lemma in_range_Some: "in_range w offset len \<Longrightarrow> \<exists>win. w = Some win"
  by (cases w) (auto simp: in_range_def)

lemma in_range_bounds:
  assumes "in_range (Some win) offset len"
  shows "w_base win \<noteq> 0" "unat offset + unat len \<le> unat (w_size win)"
proof -
  have "len \<le> w_size win" "offset \<le> w_size win - len" using assms by (auto simp: in_range_def)
  then show "unat offset + unat len \<le> unat (w_size win)"
    by (simp add: word_le_nat_alt unat_sub)
qed (use assms in \<open>auto simp: in_range_def\<close>)

section \<open>A signalled completion line\<close>

lemma read_write64_same [simp]: "read64 (write_bytes m a (le_bytes 8 v)) a = v"
  using read_write_same [of "le_bytes 8 v" m a] by (simp add: read64_def)

lemma read_write32_same [simp]: "read32 (write_bytes m a (le_bytes 4 v)) a = v"
  using read_write_same [of "le_bytes 4 v" m a] by (simp add: read32_def)

lemma read64_write_other: "disjoint_rng a 8 b (length bs) \<Longrightarrow> read64 (write_bytes m b bs) a = read64 m a"
  by (simp add: read64_def read_write_disjoint)

lemma read32_write_other: "disjoint_rng a 4 b (length bs) \<Longrightarrow> read32 (write_bytes m b bs) a = read32 m a"
  by (simp add: read32_def read_write_disjoint)

lemma signalled_line:
  assumes "c \<noteq> 0"
  shows "load_completion (run_events (cira_mmio_signal_completion c status result) m) c =
    \<lparr>cp_magic = CIRA_CXL_COMPLETION_MAGIC, cp_status = status, cp_result = result, cp_cycles = 0,
     cp_timestamp = 0\<rparr>"
proof -
  have d: "disjoint_rng (c + 4) 4 (c + 8) 8" "disjoint_rng (c + 4) 4 (c + 16) 8"
      "disjoint_rng (c + 4) 4 (c + 24) 8" "disjoint_rng (c + 8) 8 (c + 16) 8"
      "disjoint_rng (c + 8) 8 (c + 24) 8" "disjoint_rng (c + 16) 8 (c + 24) 8"
    using disjoint_off [of 4 4 8 8 c] disjoint_off [of 4 4 16 8 c] disjoint_off [of 4 4 24 8 c]
      disjoint_off [of 8 8 16 8 c] disjoint_off [of 8 8 24 8 c] disjoint_off [of 16 8 24 8 c] by simp_all
  have d0: "disjoint_rng (c + 4) 4 c 4" "disjoint_rng (c + 8) 8 c 4" "disjoint_rng (c + 16) 8 c 4"
      "disjoint_rng (c + 24) 8 c 4"
    using disjoint_off_rev [of 0 4 4 4 c] disjoint_off_rev [of 0 4 8 8 c] disjoint_off_rev [of 0 4 16 8 c]
      disjoint_off_rev [of 0 4 24 8 c] by simp_all
  have r: "run_events (cira_mmio_signal_completion c status result) m =
    write_bytes (write_bytes (write_bytes (write_bytes (write_bytes m (c + 4) (le_bytes 4 status))
      (c + 8) (le_bytes 8 result)) (c + 16) (le_bytes 8 (0 :: u64))) (c + 24) (le_bytes 8 (0 :: u64)))
      c (le_bytes 4 CIRA_CXL_COMPLETION_MAGIC)"
    using assms by (simp add: cira_mmio_signal_completion_def signal_pre_def)
  show ?thesis
    unfolding r load_completion_def
    by (simp only: read32_write_other read64_write_other length_le_bytes d d0
        read_write64_same read_write32_same)
qed

lemma le_word_zeros: "(le_word (replicate n 0) :: 'a::len word) = 0"
  by (rule bit_word_eqI) (simp add: bit_le_word)

lemma armed_line: "c \<noteq> 0 \<Longrightarrow> read32 (cira_mmio_arm_completion c m) c = 0"
  using read_bytes_sub [of 0 4 64 "memset m c 0 64" c] read_memset [of 64 m c 0]
  by (simp add: cira_mmio_arm_completion_def window_defs read32_def le_word_zeros)

section \<open>Outcomes of a submission\<close>

definition submit_ok :: "window \<Rightarrow> u32 \<Rightarrow> u8 list option \<Rightarrow> u64 \<Rightarrow> bool" where
  "submit_ok win job_id args arg_len \<longleftrightarrow>
     w_base win \<noteq> 0 \<and> \<not> w_read_only win \<and> job_id \<noteq> CIRA_CXL_JOB_NOP \<and> job_id \<le> CIRA_CXL_JOB_MAX \<and>
     arg_len \<le> CIRA_CXL_ARG_PAYLOAD_BYTES \<and> (arg_len = 0 \<or> args \<noteq> None) \<and>
     in_range (Some win) (cira_cxl_arg_slot_off job_id) CIRA_CXL_ARG_SLOT_BYTES \<and>
     in_range (Some win) CIRA_CXL_DOORBELL_OFF (of_nat sizeof_doorbell)"

lemma take_seq_props:
  "take_seq win = (seq, win') \<Longrightarrow>
     seq \<noteq> 0 \<and> w_next_seq win' = seq + 1 \<and> seq = (if w_next_seq win = 0 then 1 else w_next_seq win) \<and>
     win'\<lparr>w_next_seq := 0\<rparr> = win\<lparr>w_next_seq := 0\<rparr>"
  by (auto simp: take_seq_def Let_def split: if_splits)

lemma submit_job_ok:
  "submit_ok win job_id args arg_len \<Longrightarrow> take_seq win = (seq, win') \<Longrightarrow>
     cira_mmio_submit_job (Some win) job_id args arg_len flags =
       (CIRA_MMIO_OK, Some win',
        submit_stores (w_base win) job_id (case args of None \<Rightarrow> [] | Some s \<Rightarrow> s) arg_len flags seq, Some seq)"
  by (auto simp: submit_ok_def cira_mmio_submit_job_def cira_mmio_base_def win_read_only_def not_le not_less)

lemma submit_job_rejected:
  assumes "\<not> submit_ok win job_id args arg_len"
    and "cira_mmio_submit_job (Some win) job_id args arg_len flags = (rc, w', es, out)"
  shows "rc \<noteq> CIRA_MMIO_OK \<and> w' = Some win \<and> es = [] \<and> out = None"
  using assms
  by (auto simp: submit_ok_def cira_mmio_submit_job_def cira_mmio_base_def win_read_only_def not_less
      split: if_splits prod.splits)

lemma submit_job_OK_cases:
  assumes "cira_mmio_submit_job (Some win) job_id args arg_len flags = (CIRA_MMIO_OK, w', es, out)"
  obtains seq win' where "submit_ok win job_id args arg_len" "take_seq win = (seq, win')"
    "w' = Some win'" "out = Some seq"
    "es = submit_stores (w_base win) job_id (case args of None \<Rightarrow> [] | Some s \<Rightarrow> s) arg_len flags seq"
proof -
  have ok: "submit_ok win job_id args arg_len"
    using submit_job_rejected [OF _ assms] by blast
  obtain seq win' where t: "take_seq win = (seq, win')" by fastforce
  show thesis using that [OF ok t] submit_job_ok [OF ok t, of flags] assms by simp
qed

section \<open>Waits for a sequence number\<close>

definition wait_seq_post ::
  "u32 \<Rightarrow> (nat \<Rightarrow> mem) \<Rightarrow> (nat \<Rightarrow> nat \<Rightarrow> u64) \<Rightarrow> addr \<Rightarrow> u64 \<Rightarrow> u64 \<Rightarrow> nat \<Rightarrow> nat \<Rightarrow> mmio_rc \<Rightarrow> bool" where
  "wait_seq_post budget snap clks st seq timeout_ns t j rc \<longleftrightarrow>
     (\<exists>n \<ge> t. seq \<le> read64 (snap n) (st + 24) \<and>
       rc = (if read32 (snap (n + 1)) (st + 16) = CIRA_CXL_STATUS_SUCCESS then CIRA_MMIO_OK else CIRA_MMIO_EIO)) \<or>
     rc = CIRA_MMIO_ETIMEDOUT \<and> (st + 24 = 0 \<or> timeout_ns \<noteq> 0)"

lemma wait_seq_post_later:
  "wait_seq_post budget snap clks st seq timeout_ns t' j' rc \<Longrightarrow> t \<le> t' \<Longrightarrow>
     wait_seq_post budget snap clks st seq timeout_ns t j rc"
  unfolding wait_seq_post_def using order_trans by blast

lemma wait_ne_timed_out:
  assumes "cira_wait_u32_ne budget flag obs clk u timeout_ns = Some (False, k)"
  shows "flag = 0 \<or> timeout_ns \<noteq> 0"
  using assms wait_impl_false [of budget flag obs clk u NotEqual timeout_ns k]
  by (auto simp: cira_wait_u32_ne_def)

lemma wait_seq_sound:
  assumes "wait_seq_loop budget snap clks st seq timeout_ns t j = Some rc"
  shows "wait_seq_post budget snap clks st seq timeout_ns t j rc"
proof (rule wait_seq_loop.raw_induct [where P = wait_seq_post, OF _ assms])
  fix f budget snap clks st seq timeout_ns t j rc
  assume IH: "\<And>budget snap clks st seq timeout_ns t j rc.
      f budget snap clks st seq timeout_ns t j = Some rc \<Longrightarrow>
      wait_seq_post budget snap clks st seq timeout_ns t j rc"
    and eq: "(let observed = read64 (snap t) (st + 24) in
      if seq \<le> observed then
        Some (if read32 (snap (t + 1)) (st + 16) = CIRA_CXL_STATUS_SUCCESS then CIRA_MMIO_OK else CIRA_MMIO_EIO)
      else case cira_wait_u32_ne budget (st + 24) (\<lambda>k. read32 (snap (t + 1 + k)) (st + 24)) (clks j)
                  (ucast observed) timeout_ns of
             None \<Rightarrow> None
           | Some (ok, k) \<Rightarrow>
               if ok then f budget snap clks st seq timeout_ns (t + 1 + k) (j + 1)
               else Some CIRA_MMIO_ETIMEDOUT) = Some rc"
  show "wait_seq_post budget snap clks st seq timeout_ns t j rc"
  proof (cases "seq \<le> read64 (snap t) (st + 24)")
    case True
    then have "rc = (if read32 (snap (t + 1)) (st + 16) = CIRA_CXL_STATUS_SUCCESS
        then CIRA_MMIO_OK else CIRA_MMIO_EIO)"
      using eq by (simp add: Let_def)
    then show ?thesis unfolding wait_seq_post_def using True by blast
  next
    case False
    with eq obtain ok k where
      w: "cira_wait_u32_ne budget (st + 24) (\<lambda>k. read32 (snap (t + 1 + k)) (st + 24)) (clks j)
          (ucast (read64 (snap t) (st + 24))) timeout_ns = Some (ok, k)"
      and r: "(if ok then f budget snap clks st seq timeout_ns (t + 1 + k) (j + 1)
          else Some CIRA_MMIO_ETIMEDOUT) = Some rc"
      by (auto simp: Let_def split: option.splits)
    show ?thesis
    proof (cases ok)
      case True
      with r have "wait_seq_post budget snap clks st seq timeout_ns (t + 1 + k) (j + 1) rc"
        using IH by simp
      then show ?thesis by (rule wait_seq_post_later) simp
    next
      case False
      then show ?thesis using r wait_ne_timed_out w unfolding wait_seq_post_def by auto
    qed
  qed
qed

text \<open>Once the status word holds a late enough number for good, an untimed wait returns.\<close>

lemma wait_seq_returns:
  assumes v: "\<And>t. n \<le> t \<Longrightarrow> read64 (snap t) (st + 24) = v" "seq \<le> v" "st + 24 \<noteq> 0"
    and lo: "\<And>t t'. read64 (snap t) (st + 24) < seq \<Longrightarrow> n \<le> t' \<Longrightarrow>
       read32 (snap t') (st + 24) \<noteq> ucast (read64 (snap t) (st + 24))"
  shows "\<exists>rc. wait_seq_loop budget snap clks st seq 0 t j = Some rc"
proof (induction "n - t" arbitrary: t j rule: less_induct)
  case less
  show ?case
  proof (cases "seq \<le> read64 (snap t) (st + 24)")
    case True
    then show ?thesis by (subst wait_seq_loop.simps) (simp add: Let_def)
  next
    case False
    then have t: "t < n" using v(1) [of t] v(2) by (cases "n \<le> t") auto
    let ?obs = "\<lambda>k. read32 (snap (t + 1 + k)) (st + 24)"
    have "satisfied NotEqual (ucast (read64 (snap t) (st + 24))) (?obs (n - t))"
      using lo [of t "t + 1 + (n - t)"] False t by (simp add: satisfied_def)
    with v(3) wait_impl_untimed_returns [of "st + 24" NotEqual _ ?obs "n - t" budget "clks j"] obtain k where
      k: "cira_wait_u32_ne budget (st + 24) ?obs (clks j) (ucast (read64 (snap t) (st + 24))) 0 = Some (True, k)"
      unfolding cira_wait_u32_ne_def by metis
    have "\<exists>rc. wait_seq_loop budget snap clks st seq 0 (t + 1 + k) (j + 1) = Some rc"
      using t by (intro less) simp
    then show ?thesis using False k by (subst wait_seq_loop.simps) (simp add: Let_def)
  qed
qed

section \<open>Properties\<close>

text \<open>The window the witnesses use: 8 KiB of registers at a fixed address.\<close>

definition demo_window :: window where
  "demo_window = \<lparr>w_self = 0x500, w_base = 0x10000, w_size = 0x2000, w_fd = -1,
     w_owns_mapping = False, w_emulated = False, w_read_only = False, w_next_seq = 0\<rparr>"

text \<open>Bounds. A block write either stores nothing and reports why, or every single store it makes lies
  inside the window (\<open>offset + len\<close> cannot wrap) and a block read of the same range gives back
  exactly the bytes written.\<close>

theorem write_block_read_block:
  assumes "cira_mmio_write_block (Some win) offset (Some src) len = (rc, es)"
    and "length src \<le> 2 ^ 64" "unat len \<le> length src"
  shows "if rc = CIRA_MMIO_OK then
      unat offset + unat len \<le> unat (w_size win) \<and>
      (\<forall>e \<in> set es. within (w_base win + offset) 0 (unat len) e) \<and>
      cira_mmio_read_block (run_events es m) (Some win) offset True len
        = (CIRA_MMIO_OK, take (unat len) src)
    else es = []"
proof -
  have "read_bytes (run_events (store_bytes a src (unat len)) m) a (unat len) = take (unat len) src" for a
    using assms(2,3) read_write_same [of "take (unat len) src" m a] by (simp add: run_store_bytes)
  then show ?thesis
    using assms(1) store_bytes_within in_range_bounds(2) [of win offset len]
    by (auto simp: cira_mmio_write_block_def cira_mmio_read_block_def load_bytes_read
        cira_mmio_base_def split: if_splits)
qed

lemma write_block_read_block_witness:
  "cira_mmio_read_block (run_events (store_bytes 0x10ffe [1, 2] 2) (\<lambda>_. 0)) (Some demo_window) 0xffe True 2
     = (CIRA_MMIO_OK, [1, 2])"
  using write_block_read_block [of demo_window "0xffe" "[1, 2]" 2 CIRA_MMIO_OK "store_bytes 0x10ffe [1, 2] 2" "\<lambda>_. 0"]
  by (simp add: cira_mmio_write_block_def in_range_def win_read_only_def cira_mmio_base_def demo_window_def)

text \<open>C21
  Submission is decided by its arguments alone. It succeeds exactly when the window is mapped and
  writable, the job id is one of the four jobs, the payload fits its slot and slot and doorbell lie
  in the window; then it returns a fresh sequence number that is never 0. A rejected submission
  stores nothing and consumes no sequence number.\<close>

theorem submit_job_outcome:
  assumes "cira_mmio_submit_job (Some win) job_id args arg_len flags = (rc, w', es, out)"
  shows "(rc = CIRA_MMIO_OK) = submit_ok win job_id args arg_len \<and>
    (case out of None \<Rightarrow> rc \<noteq> CIRA_MMIO_OK \<and> w' = Some win \<and> es = []
     | Some seq \<Rightarrow> rc = CIRA_MMIO_OK \<and> seq \<noteq> 0 \<and>
         seq = (if w_next_seq win = 0 then 1 else w_next_seq win) \<and>
         w' = Some (win\<lparr>w_next_seq := seq + 1\<rparr>))"
proof (cases "submit_ok win job_id args arg_len")
  case True
  obtain seq win' where t: "take_seq win = (seq, win')" by fastforce
  have w: "win' = win\<lparr>w_next_seq := seq + 1\<rparr>"
    using t by (auto simp: take_seq_def Let_def split: if_splits)
  have s: "seq \<noteq> 0" "seq = (if w_next_seq win = 0 then 1 else w_next_seq win)"
    using take_seq_props [OF t] by blast+
  have "rc = CIRA_MMIO_OK" "w' = Some win'" "out = Some seq"
    using submit_job_ok [OF True t, of flags] assms by simp_all
  then show ?thesis using True w s by simp
next
  case False
  then show ?thesis using submit_job_rejected [OF False assms] by simp
qed

lemma demo_submit_ok: "submit_ok demo_window CIRA_CXL_JOB_CALL (Some [7]) 1"
  by (simp add: submit_ok_def demo_window_def in_range_def job_id_defs window_defs sizeof_defs
      CIRA_CXL_ARG_PAYLOAD_BYTES_def cira_cxl_arg_slot_off_def)

lemma demo_take_seq: "take_seq demo_window = (1, demo_window\<lparr>w_next_seq := 2\<rparr>)"
  by (simp add: take_seq_def demo_window_def)

lemma submit_job_outcome_witness:
  "case cira_mmio_submit_job (Some demo_window) CIRA_CXL_JOB_CALL (Some [7]) 1 0 of (rc, w', es, out) \<Rightarrow>
     rc = CIRA_MMIO_OK \<and> out = Some 1 \<and> w' = Some (demo_window\<lparr>w_next_seq := 2\<rparr>)"
proof -
  obtain rc w' es out where
    e: "cira_mmio_submit_job (Some demo_window) CIRA_CXL_JOB_CALL (Some [7]) 1 0 = (rc, w', es, out)"
    by (metis prod.exhaust)
  show ?thesis
    unfolding e using submit_job_outcome [OF e] demo_submit_ok by (auto simp: demo_window_def split: option.splits)
qed

text \<open>C14
  A job is published whole. Whatever prefix of a submission's stores the device has seen, either
  the doorbell still carries its previous sequence number, or the whole job is in place: the
  doorbell, the header of the job's slot with the same id and sequence number, and the payload
  behind it; and nothing outside the doorbell and that slot has changed.\<close>

theorem submit_never_torn:
  assumes "cira_mmio_submit_job (Some win) job_id args arg_len flags = (CIRA_MMIO_OK, w', es, Some seq)"
    and "payload = (case args of None \<Rightarrow> [] | Some s \<Rightarrow> s)"
    and "unat arg_len \<le> length payload" "length payload \<le> 2 ^ 64"
    and "seen = run_events (take k es) m"
  shows "read64 seen (w_base win + 24) = read64 m (w_base win + 24) \<or>
    (load_doorbell seen (w_base win) = job_doorbell job_id flags CIRA_CXL_STATUS_RUNNING seq \<and>
     load_arg_slot seen (w_base win + cira_cxl_arg_slot_off job_id) = job_header job_id seq arg_len \<and>
     read_bytes seen (w_base win + cira_cxl_arg_slot_off job_id + 32) (unat arg_len) = take (unat arg_len) payload \<and>
     (\<forall>p n. disjoint_rng p n (w_base win) 32 \<and>
            disjoint_rng p n (w_base win + cira_cxl_arg_slot_off job_id) 0x400 \<longrightarrow>
            read_bytes seen p n = read_bytes m p n))"
proof -
  from assms(1) obtain win' where ok: "submit_ok win job_id args arg_len"
    and es: "es = submit_stores (w_base win) job_id payload arg_len flags seq"
    by (elim submit_job_OK_cases) (auto simp: assms(2))
  have j: "job_id \<le> CIRA_CXL_JOB_MAX" "arg_len \<le> CIRA_CXL_ARG_PAYLOAD_BYTES"
    using ok by (simp_all add: submit_ok_def)
  let ?es = "submit_stores (w_base win) job_id payload arg_len flags seq"
  have img: "read_bytes mm a 8 = read_bytes mm' a 8 \<Longrightarrow> read64 mm a = read64 mm' a" for mm mm' a
    by (simp add: read64_def)
  have "read64 seen (w_base win + 24) = read64 m (w_base win + 24) \<or> seen = run_events ?es m"
    using publication.prefix_old_or_done [OF submit_publication [OF j, of "w_base win" payload flags seq],
        of k m, folded submit_stores_split]
    by (auto simp: assms(5) es intro: img)
  then show ?thesis
  proof
    assume s: "seen = run_events ?es m"
    show ?thesis
      using submitted_job(1-3) [OF j assms(3,4) s] submitted_job(4) [OF j assms(3,4) s] by blast
  qed simp
qed

lemma submit_never_torn_witness:
  "load_doorbell (run_events (take 99 (submit_stores 0x10000 CIRA_CXL_JOB_CALL [7] 1 0 1)) (\<lambda>_. 0)) 0x10000
     = job_doorbell CIRA_CXL_JOB_CALL 0 CIRA_CXL_STATUS_RUNNING 1"
proof -
  let ?es = "submit_stores 0x10000 CIRA_CXL_JOB_CALL [7] 1 0 1"
  have e: "cira_mmio_submit_job (Some demo_window) CIRA_CXL_JOB_CALL (Some [7]) 1 0
      = (CIRA_MMIO_OK, Some (demo_window\<lparr>w_next_seq := 2\<rparr>), ?es, Some 1)"
    using submit_job_ok [OF demo_submit_ok demo_take_seq, of 0] by (simp add: demo_window_def)
  have b: "w_base demo_window = 0x10000" by (simp add: demo_window_def)
  have l: "length ?es \<le> 99"
    by (simp add: submit_stores_def Let_def sizeof_defs store_bytes_32 store_bytes_def store_words.simps
        store_tail.simps)
  have "read64 (run_events ?es (\<lambda>_. 0)) (0x10000 + 24) = 1"
  proof -
    have "read_bytes (run_events ?es (\<lambda>_. 0)) (0x10000 + 24) 8 = le_bytes 8 (1 :: u64)"
      using read_write_same [of "le_bytes 8 (1 :: u64)"]
      by (simp only: submit_stores_split publication.published [OF submit_publication]) simp
    then show ?thesis by (simp add: read64_def)
  qed
  moreover have "read64 (\<lambda>_. 0) (0x10000 + 24) = (0 :: u64)"
    by (simp add: read64_def read_bytes_def upt_conv_Cons le_word_def)
  ultimately show ?thesis
    using submit_never_torn [OF e refl, of "run_events (take 99 ?es) (\<lambda>_. 0)" 99 "\<lambda>_. 0"] l
    by (simp add: b)
qed



text \<open>C22
  The completion handshake. The host arms a line and waits on it without a timeout while the device
  signals it, each load of the host seeing some prefix of the device's stores. Once the host can see
  them all, the wait returns OK, and the line it then reads is the complete record: status and
  result are those signalled, never a half-written line.\<close>

theorem completion_handshake:
  assumes "c \<noteq> 0"
    and "\<And>t. snap t = run_events (take (f t) (cira_mmio_signal_completion c status result))
                        (cira_mmio_arm_completion c m)"
    and "6 \<le> f n"
  shows "\<exists>k. cira_mmio_wait_completion budget snap clk c 0 = Some (CIRA_MMIO_OK, k) \<and>
    load_completion (snap (k - 1)) c = \<lparr>cp_magic = CIRA_CXL_COMPLETION_MAGIC, cp_status = status,
      cp_result = result, cp_cycles = 0, cp_timestamp = 0\<rparr>"
proof -
  let ?es = "cira_mmio_signal_completion c status result"
  let ?m = "cira_mmio_arm_completion c m"
  have es: "?es = signal_pre c status result @ Store c (le_bytes 4 CIRA_CXL_COMPLETION_MAGIC) # []"
    using assms(1) by (simp add: cira_mmio_signal_completion_def)
  have "take (f n) ?es = ?es" using assms(3) by (simp add: es signal_pre_def)
  then have n: "read32 (snap n) c = CIRA_CXL_COMPLETION_MAGIC"
    using signalled_line [OF assms(1), of status result ?m] by (simp add: assms(2) load_completion_def)
  then obtain k where k: "wait_impl budget c (\<lambda>t. read32 (snap t) c) clk CIRA_CXL_COMPLETION_MAGIC Equal 0
      = Some (True, k)"
    using wait_impl_untimed_returns [of c Equal CIRA_CXL_COMPLETION_MAGIC "\<lambda>t. read32 (snap t) c" n budget clk]
      assms(1) by (auto simp: satisfied_def)
  from wait_impl_true [OF k] have seen: "read32 (snap (k - 1)) c = CIRA_CXL_COMPLETION_MAGIC"
    by (simp add: satisfied_def)
  have "read_bytes (snap (k - 1)) c 4 = read_bytes ?m c 4 \<or> snap (k - 1) = run_events ?es ?m"
    using sig.prefix_old_or_done [of "f (k - 1)" c status result ?m] by (simp add: assms(2) es)
  moreover have "read_bytes (snap (k - 1)) c 4 \<noteq> read_bytes ?m c 4"
    using seen armed_line [OF assms(1), of m] by (auto simp: read32_def magic_defs)
  ultimately have "snap (k - 1) = run_events ?es ?m" by blast
  then show ?thesis
    using k signalled_line [OF assms(1)] assms(1)
    by (auto simp: cira_mmio_wait_completion_def cira_wait_u32_def)
qed

lemma completion_handshake_witness:
  "\<exists>k. cira_mmio_wait_completion 16 (\<lambda>t. run_events (take t (cira_mmio_signal_completion 0x3000 0 42))
      (cira_mmio_arm_completion 0x3000 (\<lambda>_. 0xff))) (\<lambda>_. 0) 0x3000 0 = Some (CIRA_MMIO_OK, k)"
  using completion_handshake [of "0x3000" "\<lambda>t. run_events (take t (cira_mmio_signal_completion 0x3000 0 42))
      (cira_mmio_arm_completion 0x3000 (\<lambda>_. 0xff))" "\<lambda>t. t" 0 42 "\<lambda>_. 0xff" 6 16 "\<lambda>_. 0"] by auto

text \<open>C20
  A wait for a submission returns. Once the device has published the awaited sequence number (or a
  later one) for good, an untimed wait ends, provided no earlier number seen in the status line
  agrees with the published one in its low half, the only part the code can monitor.\<close>

theorem wait_seq_terminates:
  assumes "in_range (Some win) CIRA_CXL_STATUS_OFF (of_nat sizeof_host_status)" "w_base win + 0x1f38 \<noteq> 0"
    and "\<And>t. n \<le> t \<Longrightarrow> read64 (snap t) (w_base win + 0x1f38) = v" "seq \<le> v"
    and "\<And>t t'. read64 (snap t) (w_base win + 0x1f38) < seq \<Longrightarrow> n \<le> t' \<Longrightarrow>
       read32 (snap t') (w_base win + 0x1f38) \<noteq> ucast (read64 (snap t) (w_base win + 0x1f38))"
  shows "cira_mmio_wait_seq budget snap clks (Some win) seq 0 \<noteq> None"
proof -
  have off: "w_base win + CIRA_CXL_STATUS_OFF + 24 = w_base win + 0x1f38" by (simp add: window_defs)
  have "w_base win \<noteq> 0" using in_range_bounds(1) [OF assms(1)] .
  then show ?thesis
    using assms(1) wait_seq_returns [of n snap "w_base win + CIRA_CXL_STATUS_OFF" v seq budget clks 0 0,
        unfolded off, OF assms(3,4,2,5)]
    by (auto simp: cira_mmio_wait_seq_def cira_mmio_base_def)
qed

lemma wait_seq_terminates_witness:
  "cira_mmio_wait_seq 8 (\<lambda>_. write_bytes (\<lambda>_. 0) 0x11f38 (le_bytes 8 (3 :: u64))) (\<lambda>_ _. 0)
     (Some demo_window) 3 0 \<noteq> None"
  by (rule wait_seq_terminates [of demo_window 0 _ 3])
    (simp_all add: in_range_def demo_window_def window_defs sizeof_defs)

lemma open_cases:
  assumes "\<And>p ro fd. os_open os p ro = Some fd \<Longrightarrow> 0 \<le> fd"
    and "\<And>n a. os_mmap_anon os n = Some a \<Longrightarrow> a \<noteq> 0" "\<And>fd off n ro a. os_mmap_fd os fd off n ro = Some a \<Longrightarrow> a \<noteq> 0"
    and "cira_mmio_open os out_ok cfgp m = (rc, w, calls, m')"
  obtains "rc \<noteq> CIRA_MMIO_OK" "w = None" "m' = m" "calls = []"
  | fd where "rc \<noteq> CIRA_MMIO_OK" "w = None" "m' = m" "calls = [Opened fd, Closed fd]"
  | win where "rc = CIRA_MMIO_OK" "w = Some win" "w_base win \<noteq> 0" "CIRA_CXL_CONTROL_BYTES \<le> w_size win"
      "w_next_seq win = 1" "calls = (if 0 \<le> w_fd win then [Opened (w_fd win)] else [])"
proof -
  let ?G = "rc \<noteq> CIRA_MMIO_OK \<and> w = None \<and> m' = m \<and> (calls = [] \<or> (\<exists>fd. calls = [Opened fd, Closed fd]))
    \<or> (\<exists>win. rc = CIRA_MMIO_OK \<and> w = Some win \<and> w_base win \<noteq> 0 \<and> CIRA_CXL_CONTROL_BYTES \<le> w_size win \<and>
        w_next_seq win = 1 \<and> calls = (if 0 \<le> w_fd win then [Opened (w_fd win)] else []))"
  have ?G
  proof (cases "cfgp = None \<or> \<not> out_ok \<or> os_new os = None")
    case True
    then show ?thesis using assms(4) by (auto simp: cira_mmio_open_def Let_def split: option.splits if_splits)
  next
    case False
    then obtain cfg self where c: "cfgp = Some cfg" "out_ok" "os_new os = Some self" by auto
    let ?sz = "if cfg_size cfg \<noteq> 0 then cfg_size cfg else CIRA_CXL_CONTROL_BYTES"
    let ?w = "new_window self ?sz (cfg_read_only cfg)"
    have w: "w_next_seq ?w = 1" "w_fd ?w = -1" "w_size ?w = ?sz" by (simp_all add: new_window_def)
    note eq = assms(4) [unfolded cira_mmio_open_def Let_def c option.simps, folded new_window_def]
    show ?thesis
    proof (cases "?sz < CIRA_CXL_CONTROL_BYTES")
      case True
      then show ?thesis using eq c(2) by (simp only: if_True not_True_eq_False if_False) auto
    next
      case False
      consider "cfg_fixed_addr cfg \<noteq> 0"
        | "cfg_fixed_addr cfg = 0" "cfg_emulate cfg" | "cfg_fixed_addr cfg = 0" "\<not> cfg_emulate cfg" "cfg_path cfg = None"
        | p where "cfg_fixed_addr cfg = 0" "\<not> cfg_emulate cfg" "cfg_path cfg = Some p" by blast
      then show ?thesis
      proof cases
        case 1
        then show ?thesis using eq c(2) False w
          by (intro disjI2 exI [of _ "?w\<lparr>w_base := cfg_fixed_addr cfg\<rparr>"]) (simp add: not_less)
      next
        case 2
        show ?thesis
        proof (cases "os_mmap_anon os ?sz")
          case None
          then show ?thesis using eq c(2) False 2 by simp
        next
          case (Some a)
          then show ?thesis using eq c(2) False w assms(2) [OF Some] 2
            by (intro disjI2 exI [of _ "?w\<lparr>w_base := a, w_owns_mapping := True, w_emulated := True\<rparr>"])
              (simp add: not_less)
        qed
      next
        case 3
        then show ?thesis using eq c(2) False by simp
      next
        case 4
        note fixed = 4
        have p: "the_path cfg = p" using 4 by (simp add: the_path_def)
        show ?thesis
        proof (cases "os_open os p (cfg_read_only cfg)")
          case None
          then show ?thesis using eq c(2) False fixed p by simp
        next
          case fd: (Some fd)
          show ?thesis
          proof (cases "os_mmap_fd os fd (cfg_offset cfg) ?sz (cfg_read_only cfg)")
            case None
            then show ?thesis using eq c(2) False fixed p fd by auto
          next
            case (Some a)
            then show ?thesis using eq c(2) False w assms(1) [OF fd] assms(3) [OF Some] fixed p fd
              by (intro disjI2 exI [of _ "?w\<lparr>w_fd := fd, w_base := a, w_owns_mapping := True\<rparr>"])
                (simp add: not_less)
          qed
        qed
      qed
    qed
  qed
  then show thesis using that by blast
qed

text \<open>Opening a window leaks nothing. Given that \<open>open\<close> returns non-negative descriptors and no mapping
  is placed at address 0, every descriptor a call opens is closed exactly once, by the call itself
  when it fails or by closing the window when it succeeds; a failed call yields no window and leaves
  memory alone; an opened window has every slot, the doorbell and the status line in range, and a
  freshly numbered sequence.\<close>

theorem open_close_balanced:
  assumes "\<And>p ro fd. os_open os p ro = Some fd \<Longrightarrow> 0 \<le> fd"
    and "\<And>n a. os_mmap_anon os n = Some a \<Longrightarrow> a \<noteq> 0" "\<And>fd off n ro a. os_mmap_fd os fd off n ro = Some a \<Longrightarrow> a \<noteq> 0"
    and "cira_mmio_open os out_ok cfgp m = (rc, w, calls, m')"
  shows "(\<forall>fd. count_list (calls @ cira_mmio_close w) (Opened fd) = count_list (calls @ cira_mmio_close w) (Closed fd)) \<and>
    (case w of None \<Rightarrow> rc \<noteq> CIRA_MMIO_OK \<and> m' = m
     | Some win \<Rightarrow> rc = CIRA_MMIO_OK \<and> w_next_seq win = 1 \<and>
         in_range w CIRA_CXL_DOORBELL_OFF (of_nat sizeof_doorbell) \<and>
         in_range w CIRA_CXL_STATUS_OFF (of_nat sizeof_host_status) \<and>
         (\<forall>job_id \<le> CIRA_CXL_JOB_MAX. in_range w (cira_cxl_arg_slot_off job_id) CIRA_CXL_ARG_SLOT_BYTES))"
proof -
  have r: "in_range (Some win) off n" if b: "w_base win \<noteq> 0" "CIRA_CXL_CONTROL_BYTES \<le> w_size win"
    and o: "unat off + unat n \<le> 0x2000" for win off n
  proof -
    have z: "0x2000 \<le> unat (w_size win)" using b(2) by (simp add: window_defs word_le_nat_alt)
    then have "n \<le> w_size win" using o by (simp add: word_le_nat_alt)
    then show ?thesis using b(1) o z by (simp add: in_range_def word_le_nat_alt unat_sub)
  qed
  show ?thesis
  proof (rule open_cases [OF assms])
    fix win
    assume w: "rc = CIRA_MMIO_OK" "w = Some win" "w_base win \<noteq> 0" "CIRA_CXL_CONTROL_BYTES \<le> w_size win"
      "w_next_seq win = 1" "calls = (if 0 \<le> w_fd win then [Opened (w_fd win)] else [])"
    have "in_range w (cira_cxl_arg_slot_off job_id) CIRA_CXL_ARG_SLOT_BYTES" if "job_id \<le> CIRA_CXL_JOB_MAX" for job_id
      using slot_off_bounds(2) [OF that] by (auto simp: w(2) window_defs intro!: r w)
    then show ?thesis
      using w by (auto simp: cira_mmio_close_def window_defs sizeof_defs intro!: r)
  qed (auto simp: cira_mmio_close_def)
qed

lemma open_close_balanced_witness:
  "case cira_mmio_open \<lparr>os_new = Some 0x500, os_mmap_anon = \<lambda>_. None, os_open = \<lambda>_ _. Some 3,
      os_mmap_fd = \<lambda>_ _ _ _. None\<rparr> True (Some \<lparr>cfg_path = Some ''/dev/uio0'', cfg_offset = 0, cfg_size = 0,
      cfg_fixed_addr = 0, cfg_emulate = False, cfg_read_only = False\<rparr>) (\<lambda>_. 0) of
     (rc, w, calls, m') \<Rightarrow> w = None \<and> count_list calls (Opened 3) = count_list calls (Closed 3)"
proof -
  let ?os = "\<lparr>os_new = Some 0x500, os_mmap_anon = \<lambda>_. None, os_open = \<lambda>_ _. Some 3, os_mmap_fd = \<lambda>_ _ _ _. None\<rparr>"
  let ?cfg = "\<lparr>cfg_path = Some ''/dev/uio0'', cfg_offset = 0, cfg_size = 0,
      cfg_fixed_addr = 0, cfg_emulate = False, cfg_read_only = False\<rparr>"
  have e: "cira_mmio_open ?os True (Some ?cfg) (\<lambda>_. 0) = (CIRA_MMIO_EIO, None, [Opened 3, Closed 3], \<lambda>_. 0)"
    by (simp add: cira_mmio_open_def Let_def window_defs)
  show ?thesis
    unfolding e using open_close_balanced [OF _ _ _ e] by (simp add: cira_mmio_close_def)
qed

end
