(* ===== verification/Firmware.thy ===== *)
theory Firmware
  imports Mmio
begin

text \<open>
  The device-side firmware of \<^verbatim>\<open>runtime/vortex_device.cpp\<close>: it polls the doorbell of the control
  window, runs the job behind it and reports through the status line and a completion line. An
  operation returns the stores it makes, in order; the memory it reads is the memory those stores
  have produced so far. Job arguments are read through the pointer into the slot each time the code
  reads them, so a job that overwrites its own slot is part of the model. The cycle counter is a
  stream of readings \<open>cyc\<close>, and the function a CALL job names is the parameter \<open>fn\<close>:
  its operands, their number and the completion line give the stores it makes on a memory.
\<close>

datatype vortex_rc = VORTEX_SUCCESS | VORTEX_ERROR_INIT | VORTEX_ERROR_MEMORY | VORTEX_ERROR_KERNEL
  | VORTEX_ERROR_LAUNCH | VORTEX_ERROR_TIMEOUT | VORTEX_ERROR_INVALID

type_synonym callee = "addr \<Rightarrow> addr \<Rightarrow> u32 \<Rightarrow> addr \<Rightarrow> mem \<Rightarrow> event list"

section \<open>Copies and line installation\<close>

text \<open>\<open>vortex_cxl_copy_bytes\<close>: words, then bytes, each loaded from the memory as it is then.\<close>

function copy_words :: "mem \<Rightarrow> addr \<Rightarrow> addr \<Rightarrow> nat \<Rightarrow> nat \<Rightarrow> event list \<times> nat" where
  "copy_words m dst src off sz =
     (if off + 8 \<le> sz then
        let e = Store (dst + of_nat off) (le_bytes 8 (read64 m (src + of_nat off))) in
        (case copy_words (run_event e m) dst src (off + 8) sz of (es, off') \<Rightarrow> (e # es, off'))
      else ([], off))"
  by pat_completeness auto
termination by (relation "measure (\<lambda>(m, dst, src, off, sz). sz - off)") auto

function copy_tail :: "mem \<Rightarrow> addr \<Rightarrow> addr \<Rightarrow> nat \<Rightarrow> nat \<Rightarrow> event list" where
  "copy_tail m dst src off sz =
     (if off < sz then
        let e = Store (dst + of_nat off) [m (src + of_nat off)] in
        e # copy_tail (run_event e m) dst src (off + 1) sz
      else [])"
  by pat_completeness auto
termination by (relation "measure (\<lambda>(m, dst, src, off, sz). sz - off)") auto

declare copy_words.simps [simp del] copy_tail.simps [simp del]

definition vortex_cxl_copy_bytes :: "mem \<Rightarrow> addr \<Rightarrow> addr \<Rightarrow> u64 \<Rightarrow> event list" where
  "vortex_cxl_copy_bytes m dst src sz =
     (case copy_words m dst src 0 (unat sz) of
        (es, off) \<Rightarrow> es @ copy_tail (run_events es m) dst src off (unat sz))"

text \<open>\<open>vortex_cxl_store_bytes\<close>: byte by byte.\<close>

definition vortex_cxl_store_bytes :: "addr \<Rightarrow> u8 list \<Rightarrow> nat \<Rightarrow> event list" where
  "vortex_cxl_store_bytes dst src sz =
     map (\<lambda>off. Store (dst + of_nat off) (take 1 (drop off src))) [0..<sz]"

text \<open>One line: load its eight words, fence, store them back.\<close>

definition line_events :: "mem \<Rightarrow> addr \<Rightarrow> event list" where
  "line_events m line =
     Fence # map (\<lambda>i. Store (line + of_nat (8 * i)) (le_bytes 8 (read64 m (line + of_nat (8 * i))))) [0..<8]"

partial_function (option) install_loop ::
  "mem \<Rightarrow> addr \<Rightarrow> addr \<Rightarrow> u64 \<Rightarrow> (event list \<times> u64) option" where
  "install_loop m line end installed =
     (if line < end then
        Option.bind (install_loop (run_events (line_events m line) m) (line + CIRA_CXL_CACHELINE_SIZE) end (installed + 1))
          (\<lambda>(es, n). Some (line_events m line @ es, n))
      else Some ([], installed))"

definition vortex_cxl_install_range :: "mem \<Rightarrow> addr \<Rightarrow> u64 \<Rightarrow> (event list \<times> u64) option" where
  "vortex_cxl_install_range m a sz =
     (if a = 0 \<or> sz = 0 then Some ([], 0)
      else Option.bind
             (install_loop m (align_down a CIRA_CXL_CACHELINE_SIZE) (align_up (a + sz) CIRA_CXL_CACHELINE_SIZE) 0)
             (\<lambda>(es, n). Some (es @ [Fence], n)))"

section \<open>Pointer chasing\<close>

lemma visited_step: "visited < depth \<Longrightarrow> unat depth - unat (visited + 1 :: u64) < unat depth - unat visited"
  using unat_lt_u64 [of depth]
  by (auto simp: word_less_nat_alt unat_word_ariths(1) mod_less)

function chain_impl_loop :: "mem \<Rightarrow> addr \<Rightarrow> u64 \<Rightarrow> u64 \<Rightarrow> u64 \<Rightarrow> (event list \<times> u64) option" where
  "chain_impl_loop m node next_ptr_offset depth visited =
     (if node \<noteq> 0 \<and> visited < depth then
        Option.bind (vortex_cxl_install_range m node CIRA_CXL_CACHELINE_SIZE) (\<lambda>(es, _).
          let m1 = run_events es m in
          Option.bind (chain_impl_loop m1 (read64 m1 (node + next_ptr_offset)) next_ptr_offset depth (visited + 1))
            (\<lambda>(es', n). Some (es @ es', n)))
      else Some ([], visited))"
  by pat_completeness auto
termination
  by (relation "measure (\<lambda>(m, node, off, depth, visited). unat depth - unat visited)")
    (auto simp: visited_step)

declare chain_impl_loop.simps [simp del]

definition vortex_cxl_prefetch_chain_impl :: "mem \<Rightarrow> addr \<Rightarrow> u64 \<Rightarrow> u64 \<Rightarrow> (event list \<times> u64) option" where
  "vortex_cxl_prefetch_chain_impl m start_node next_ptr_offset depth =
     chain_impl_loop m start_node next_ptr_offset depth 0"

section \<open>Reporting\<close>

definition completion_pre :: "addr \<Rightarrow> u32 \<Rightarrow> u64 \<Rightarrow> u64 \<Rightarrow> (nat \<Rightarrow> u64) \<Rightarrow> event list" where
  "completion_pre c status result start_cycles cyc =
     [Store (c + 8) (le_bytes 8 result), Store (c + 16) (le_bytes 8 (cyc 0 - start_cycles)),
      Store (c + 24) (le_bytes 8 (cyc 1)), Store (c + 4) (le_bytes 4 status), Fence]"

definition vortex_cxl_write_completion :: "addr \<Rightarrow> u32 \<Rightarrow> u64 \<Rightarrow> u64 \<Rightarrow> (nat \<Rightarrow> u64) \<Rightarrow> event list" where
  "vortex_cxl_write_completion completion_addr status result start_cycles cyc =
     (if completion_addr = 0 then []
      else completion_pre completion_addr status result start_cycles cyc @
           [Store completion_addr (le_bytes 4 CIRA_CXL_COMPLETION_MAGIC), Fence])"

definition status_pre :: "addr \<Rightarrow> u32 \<Rightarrow> u32 \<Rightarrow> event list" where
  "status_pre host job_id status =
     [Store host (le_bytes 8 CIRA_CXL_JOB_MAGIC), Store (host + 8) (le_bytes 4 CIRA_CXL_JOB_VERSION),
      Store (host + 12) (le_bytes 4 job_id), Store (host + 16) (le_bytes 4 status)]"

definition vortex_cxl_mirror_status :: "addr \<Rightarrow> u32 \<Rightarrow> u64 \<Rightarrow> u32 \<Rightarrow> event list" where
  "vortex_cxl_mirror_status control job_id seq status =
     (if control = 0 then []
      else status_pre (control + CIRA_CXL_STATUS_OFF) job_id status @
           [Store (control + CIRA_CXL_STATUS_OFF + 24) (le_bytes 8 seq), Fence])"

section \<open>Arguments\<close>

text \<open>Pointers into the window: \<open>None\<close> is a null pointer.\<close>

definition vortex_cxl_arg_slot :: "addr \<Rightarrow> u32 \<Rightarrow> addr option" where
  "vortex_cxl_arg_slot control job_id =
     (if control = 0 then None
      else if CIRA_CXL_JOB_CALL < job_id then None
      else Some (control + cira_cxl_arg_slot_off job_id))"

definition vortex_cxl_arg_payload :: "addr \<Rightarrow> addr" where
  "vortex_cxl_arg_payload slot = slot + of_nat sizeof_arg_slot"

definition vortex_cxl_checked_arg :: "nat \<Rightarrow> mem \<Rightarrow> addr option \<Rightarrow> doorbell \<Rightarrow> addr option" where
  "vortex_cxl_checked_arg n m slot doorbell =
     (case slot of
        None \<Rightarrow> None
      | Some s \<Rightarrow>
          let h = load_arg_slot m s in
          if \<not> cira_cxl_valid_magic (as_magic h) \<or> as_version h \<noteq> CIRA_CXL_JOB_VERSION \<or>
             as_job_id h \<noteq> db_job_id doorbell \<or> as_seq h \<noteq> db_seq doorbell \<or> as_arg_len h < of_nat n
          then None else Some (vortex_cxl_arg_payload s))"

section \<open>Jobs\<close>

text \<open>Each returns its status and stores; \<open>None\<close> would be a job that never ends.\<close>

definition vortex_cxl_run_install ::
  "mem \<Rightarrow> addr option \<Rightarrow> u64 \<Rightarrow> (nat \<Rightarrow> u64) \<Rightarrow> (u32 \<times> event list) option" where
  "vortex_cxl_run_install m job start_cycles cyc =
     (case job of
        None \<Rightarrow> Some (CIRA_CXL_STATUS_BAD_ARGS, [])
      | Some p \<Rightarrow>
          let j = load_install_job m p in
          if ij_addr j = 0 \<or> ij_size j = 0 then Some (CIRA_CXL_STATUS_BAD_ARGS, [])
          else Option.bind (vortex_cxl_install_range m (ij_addr j) (ij_size j)) (\<lambda>(es, lines).
            let j' = load_install_job (run_events es m) p in
            Some (CIRA_CXL_STATUS_SUCCESS,
              es @ vortex_cxl_write_completion (ij_completion_addr j') CIRA_CXL_STATUS_SUCCESS lines start_cycles cyc)))"

text \<open>One node of a chain: install its line, copy its data if asked to; then follow the pointer.\<close>

definition chain_copy :: "mem \<Rightarrow> addr \<Rightarrow> addr \<Rightarrow> addr \<Rightarrow> u64 \<Rightarrow> event list" where
  "chain_copy m p node dst visited =
     (let j = load_chain_job m p in
      if dst \<noteq> 0 \<and> pj_data_size j \<noteq> 0
      then vortex_cxl_copy_bytes m (dst + visited * ucast (pj_data_size j)) (node + ucast (pj_data_offset j))
             (ucast (pj_data_size j))
      else [])"

text \<open>\<open>visited\<close> stays below the 32-bit \<open>depth\<close>, whatever value of it is read in a round.\<close>

lemma visited_step32:
  "(visited :: u64) < ucast (d :: u32) \<Longrightarrow> 2 ^ 32 - unat (visited + 1) < 2 ^ 32 - unat visited"
proof -
  assume "visited < ucast d"
  then have "unat visited < unat d" by (simp add: word_less_nat_alt)
  moreover have "unat d < 2 ^ 32" using unsigned_less [of d, where ?'a = nat] by simp
  ultimately show ?thesis by (simp add: unat_word_ariths(1))
qed

function chain_job_loop :: "mem \<Rightarrow> addr \<Rightarrow> addr \<Rightarrow> addr \<Rightarrow> u64 \<Rightarrow> (event list \<times> u64) option" where
  "chain_job_loop m p dst node visited =
     (if node \<noteq> 0 \<and> visited < ucast (pj_depth (load_chain_job m p)) then
        Option.bind (vortex_cxl_install_range m node CIRA_CXL_CACHELINE_SIZE) (\<lambda>(es, _).
          let m1 = run_events es m; ec = chain_copy m1 p node dst visited; m2 = run_events ec m1;
              next = read64 m2 (node + ucast (pj_next_ptr_offset (load_chain_job m2 p))) in
          Option.bind (chain_job_loop m2 p dst next (visited + 1)) (\<lambda>(es', n). Some (es @ ec @ es', n)))
      else Some ([], visited))"
  by pat_completeness auto
termination
  by (relation "measure (\<lambda>(m, p, dst, node, visited). 2 ^ 32 - unat visited)")
    (auto dest: visited_step32)

declare chain_job_loop.simps [simp del]

definition vortex_cxl_run_prefetch_chain ::
  "mem \<Rightarrow> addr option \<Rightarrow> u64 \<Rightarrow> (nat \<Rightarrow> u64) \<Rightarrow> (u32 \<times> event list) option" where
  "vortex_cxl_run_prefetch_chain m job start_cycles cyc =
     (case job of
        None \<Rightarrow> Some (CIRA_CXL_STATUS_BAD_ARGS, [])
      | Some p \<Rightarrow>
          let j = load_chain_job m p in
          if pj_start_node_addr j = 0 then Some (CIRA_CXL_STATUS_BAD_ARGS, [])
          else Option.bind (chain_job_loop m p (pj_buf_addr j) (pj_start_node_addr j) 0) (\<lambda>(es, visited).
            let j' = load_chain_job (run_events es m) p in
            Some (CIRA_CXL_STATUS_SUCCESS,
              es @ vortex_cxl_write_completion (pj_completion_addr j') CIRA_CXL_STATUS_SUCCESS visited start_cycles cyc)))"

text \<open>One element of a stream: install its lines, copy it if there is a buffer.\<close>

definition stream_copy :: "mem \<Rightarrow> addr \<Rightarrow> addr \<Rightarrow> addr \<Rightarrow> u64 \<Rightarrow> event list" where
  "stream_copy m p src dst i =
     (let j = load_stream_job m p in
      if dst \<noteq> 0
      then vortex_cxl_copy_bytes m (dst + i * ucast (sj_elem_size j)) src (ucast (sj_elem_size j))
      else [])"

lemma count_step: "(i :: u64) < c \<Longrightarrow> 2 ^ 64 - unat (i + 1) < 2 ^ 64 - unat i"
  using visited_step [of i c] unat_lt_u64 [of c] by (auto simp: word_less_nat_alt unat_word_ariths(1))

function stream_job_loop :: "mem \<Rightarrow> addr \<Rightarrow> addr \<Rightarrow> addr \<Rightarrow> u64 \<Rightarrow> u64 \<Rightarrow> event list option" where
  "stream_job_loop m p base dst stride i =
     (if i < sj_count (load_stream_job m p) then
        let src = base + i * stride in
        Option.bind (vortex_cxl_install_range m src (ucast (sj_elem_size (load_stream_job m p)))) (\<lambda>(es, _).
          let m1 = run_events es m; ec = stream_copy m1 p src dst i; m2 = run_events ec m1 in
          Option.bind (stream_job_loop m2 p base dst stride (i + 1)) (\<lambda>es'. Some (es @ ec @ es')))
      else Some [])"
  by pat_completeness auto
termination
  by (relation "measure (\<lambda>(m, p, base, dst, stride, i). 2 ^ 64 - unat i)")
    (auto dest: count_step)

declare stream_job_loop.simps [simp del]

definition vortex_cxl_run_stream_prefetch ::
  "mem \<Rightarrow> addr option \<Rightarrow> u64 \<Rightarrow> (nat \<Rightarrow> u64) \<Rightarrow> (u32 \<times> event list) option" where
  "vortex_cxl_run_stream_prefetch m job start_cycles cyc =
     (case job of
        None \<Rightarrow> Some (CIRA_CXL_STATUS_BAD_ARGS, [])
      | Some p \<Rightarrow>
          let j = load_stream_job m p in
          if sj_base_addr j = 0 \<or> sj_count j = 0 \<or> sj_elem_size j = 0 then Some (CIRA_CXL_STATUS_BAD_ARGS, [])
          else let stride = (if sj_stride j \<noteq> 0 then ucast (sj_stride j) else ucast (sj_elem_size j)) in
            Option.bind (stream_job_loop m p (sj_base_addr j) (sj_buf_addr j) stride 0) (\<lambda>es.
              let j' = load_stream_job (run_events es m) p in
              Some (CIRA_CXL_STATUS_SUCCESS,
                es @ vortex_cxl_write_completion (sj_completion_addr j') CIRA_CXL_STATUS_SUCCESS (sj_count j')
                  start_cycles cyc)))"

definition vortex_cxl_run_call ::
  "callee \<Rightarrow> mem \<Rightarrow> addr option \<Rightarrow> u64 \<Rightarrow> (nat \<Rightarrow> u64) \<Rightarrow> (u32 \<times> event list) option" where
  "vortex_cxl_run_call fn m job start_cycles cyc =
     (case job of
        None \<Rightarrow> Some (CIRA_CXL_STATUS_BAD_ARGS, [])
      | Some p \<Rightarrow>
          let j = load_call_job m p in
          if cj_func_addr j = 0 then Some (CIRA_CXL_STATUS_BAD_ARGS, [])
          else let es = fn (cj_func_addr j) (cj_operands_addr j) (cj_num_operands j) (cj_completion_addr j) m;
                   j' = load_call_job (run_events es m) p in
            Some (CIRA_CXL_STATUS_SUCCESS,
              es @ vortex_cxl_write_completion (cj_completion_addr j') CIRA_CXL_STATUS_SUCCESS 0 start_cycles cyc))"

text \<open>\<open>cyc 0\<close> is the start reading, \<open>cyc 1\<close> and \<open>cyc 2\<close> those of the completion.\<close>

definition vortex_cxl_run_job ::
  "callee \<Rightarrow> (nat \<Rightarrow> u64) \<Rightarrow> mem \<Rightarrow> addr \<Rightarrow> doorbell \<Rightarrow> (u32 \<times> event list) option" where
  "vortex_cxl_run_job fn cyc m control doorbell =
     (if db_version doorbell \<noteq> CIRA_CXL_JOB_VERSION then Some (CIRA_CXL_STATUS_BAD_VERSION, [])
      else if db_job_id doorbell = CIRA_CXL_JOB_NOP then Some (CIRA_CXL_STATUS_SUCCESS, [])
      else let start_cycles = cyc 0; rest = (\<lambda>k. cyc (k + 1));
               slot = vortex_cxl_arg_slot control (db_job_id doorbell) in
        if db_job_id doorbell = CIRA_CXL_JOB_INSTALL_CACHELINE
        then vortex_cxl_run_install m (vortex_cxl_checked_arg sizeof_install_job m slot doorbell) start_cycles rest
        else if db_job_id doorbell = CIRA_CXL_JOB_PREFETCH_CHAIN
        then vortex_cxl_run_prefetch_chain m (vortex_cxl_checked_arg sizeof_chain_job m slot doorbell) start_cycles rest
        else if db_job_id doorbell = CIRA_CXL_JOB_STREAM_PREFETCH
        then vortex_cxl_run_stream_prefetch m (vortex_cxl_checked_arg sizeof_stream_job m slot doorbell) start_cycles rest
        else if db_job_id doorbell = CIRA_CXL_JOB_CALL
        then vortex_cxl_run_call fn m (vortex_cxl_checked_arg sizeof_call_job m slot doorbell) start_cycles rest
        else Some (CIRA_CXL_STATUS_BAD_JOB, []))"

section \<open>Submission from the device library\<close>

text \<open>The counter \<open>next_seq\<close> is a static of the function; it starts at 1.\<close>

definition commit_seq :: "u64 \<Rightarrow> u64 \<Rightarrow> u64 \<times> u64" where
  "commit_seq seq next_seq =
     (if seq \<noteq> 0 then (seq, next_seq)
      else if next_seq \<noteq> 0 then (next_seq, next_seq + 1)
      else (next_seq + 1, next_seq + 2))"

definition vortex_cxl_submit_job_mmio ::
  "addr \<Rightarrow> u32 \<Rightarrow> u8 list option \<Rightarrow> u64 \<Rightarrow> u64 \<Rightarrow> u32 \<Rightarrow> u64 \<Rightarrow> vortex_rc \<times> event list \<times> u64" where
  "vortex_cxl_submit_job_mmio control job_id arg_data arg_len seq flags next_seq =
     (if control = 0 then (VORTEX_ERROR_INVALID, [], next_seq)
      else if job_id = CIRA_CXL_JOB_NOP \<or> CIRA_CXL_JOB_CALL < job_id then (VORTEX_ERROR_INVALID, [], next_seq)
      else if CIRA_CXL_ARG_PAYLOAD_BYTES < arg_len then (VORTEX_ERROR_INVALID, [], next_seq)
      else if arg_len \<noteq> 0 \<and> arg_data = None then (VORTEX_ERROR_INVALID, [], next_seq)
      else (case commit_seq seq next_seq of (cs, next') \<Rightarrow>
        (case vortex_cxl_arg_slot control job_id of
           None \<Rightarrow> (VORTEX_ERROR_INVALID, [], next')
         | Some slot \<Rightarrow>
             (VORTEX_SUCCESS,
              (if arg_len \<noteq> 0 then vortex_cxl_store_bytes (vortex_cxl_arg_payload slot)
                 (case arg_data of None \<Rightarrow> [] | Some s \<Rightarrow> s) (unat arg_len) else []) @
              vortex_cxl_store_bytes slot (enc_arg_slot (job_header job_id cs arg_len)) sizeof_arg_slot @ [Fence] @
              vortex_cxl_store_bytes (control + CIRA_CXL_DOORBELL_OFF)
                (enc_doorbell (job_doorbell job_id flags 0 cs)) sizeof_doorbell @ [Fence],
              next'))))"

definition vortex_cxl_submit_call_mmio ::
  "addr \<Rightarrow> u64 \<Rightarrow> addr \<Rightarrow> addr \<Rightarrow> u32 \<Rightarrow> addr \<Rightarrow> u64 \<Rightarrow> vortex_rc \<times> event list \<times> u64" where
  "vortex_cxl_submit_call_mmio control seq func operands num_operands completion next_seq =
     (if func = 0 then (VORTEX_ERROR_INVALID, [], next_seq)
      else if num_operands \<noteq> 0 \<and> operands = 0 then (VORTEX_ERROR_INVALID, [], next_seq)
      else vortex_cxl_submit_job_mmio control CIRA_CXL_JOB_CALL
             (Some (enc_call_job \<lparr>cj_func_addr = func, cj_operands_addr = operands,
                cj_completion_addr = completion, cj_num_operands = num_operands, cj_reserved = 0\<rparr>))
             (of_nat sizeof_call_job) seq 0 next_seq)"

section \<open>Hooks emitted by the compiler\<close>

definition vortex_install_cacheline :: "mem \<Rightarrow> addr \<Rightarrow> u64 \<Rightarrow> int \<Rightarrow> event list option" where
  "vortex_install_cacheline m a sz cache_level = map_option fst (vortex_cxl_install_range m a sz)"

definition vortex_prefetch_chain :: "mem \<Rightarrow> addr \<Rightarrow> u64 \<Rightarrow> u64 \<Rightarrow> event list option" where
  "vortex_prefetch_chain m start_node offset depth =
     map_option fst (vortex_cxl_prefetch_chain_impl m start_node offset depth)"

definition vortex_prefetch_chain_kernel :: "mem \<Rightarrow> addr \<Rightarrow> u64 \<Rightarrow> event list option" where
  "vortex_prefetch_chain_kernel m stream depth =
     (if stream = 0 \<or> depth = 0 then Some []
      else if cira_cxl_valid_magic (read64 m stream)
      then map_option fst (vortex_cxl_prefetch_chain_impl m (read64 m (stream + 8)) (read64 m (stream + 16)) depth)
      else map_option fst (vortex_cxl_prefetch_chain_impl m stream 0 depth))"

section \<open>The service loop\<close>

definition vortex_cxl_firmware_service_once ::
  "callee \<Rightarrow> (nat \<Rightarrow> u64) \<Rightarrow> mem \<Rightarrow> addr \<Rightarrow> (u32 \<times> event list) option" where
  "vortex_cxl_firmware_service_once fn cyc m control =
     (if control = 0 then Some (CIRA_CXL_STATUS_BAD_ARGS, [])
      else let db = control + CIRA_CXL_DOORBELL_OFF in
        if \<not> cira_cxl_valid_magic (read64 m db) then Some (CIRA_CXL_STATUS_BAD_ARGS, [Fence])
        else let local = load_doorbell m db;
                 es = Fence # Store (db + 20) (le_bytes 4 CIRA_CXL_STATUS_RUNNING) #
                      vortex_cxl_mirror_status control (db_job_id local) (db_seq local) CIRA_CXL_STATUS_RUNNING in
          Option.bind (vortex_cxl_run_job fn cyc (run_events es m) control local) (\<lambda>(status, ej).
            Some (status,
              es @ ej @ Store (db + 20) (le_bytes 4 status) #
              vortex_cxl_mirror_status control (db_job_id local) (db_seq local) status)))"

text \<open>
  One round of \<open>vortex_cxl_firmware_loop\<close>, the memory standing still during it: the last sequence
  number serviced, and the stores of the service if there was one (\<open>None\<close> inside: it waits).
\<close>

definition firmware_round ::
  "callee \<Rightarrow> (nat \<Rightarrow> u64) \<Rightarrow> addr \<Rightarrow> u64 \<Rightarrow> mem \<Rightarrow> (u64 \<times> (u32 \<times> event list) option) option" where
  "firmware_round fn cyc control last_seq m =
     (let db = control + CIRA_CXL_DOORBELL_OFF in
      if cira_cxl_valid_magic (read64 m db) \<and> read64 m (db + 24) \<noteq> last_seq
      then map_option (\<lambda>r. (read64 m (db + 24), Some r)) (vortex_cxl_firmware_service_once fn cyc m control)
      else Some (last_seq, None))"

section \<open>Quiet stores: a line is written back unchanged\<close>

text \<open>No observer can tell a quiet event sequence from nothing.\<close>

definition quiet :: "mem \<Rightarrow> event list \<Rightarrow> bool" where
  "quiet m es \<longleftrightarrow> (\<forall>e \<in> set es. run_event e m = m)"

lemma quiet_simps [simp]:
  "quiet m []" "quiet m (e # es) \<longleftrightarrow> run_event e m = m \<and> quiet m es"
  "quiet m (es @ es') \<longleftrightarrow> quiet m es \<and> quiet m es'"
  by (auto simp: quiet_def)

lemma quiet_run: "quiet m es \<Longrightarrow> run_events es m = m"
  by (induction es) auto

lemma quiet_take: "quiet m es \<Longrightarrow> quiet m (take k es)"
  by (auto simp: quiet_def dest: in_set_takeD)

lemma store_back [simp]: "write_bytes m a (le_bytes 8 (read64 m a)) = m"
  by (simp add: read64_def write_read_same)

lemma quiet_line: "quiet m (line_events m line)"
  by (simp add: line_events_def quiet_def)

section \<open>Installing a range\<close>

text \<open>The closed form of the loop: the lines one after another.\<close>

definition lines_events :: "mem \<Rightarrow> addr \<Rightarrow> nat \<Rightarrow> event list" where
  "lines_events m line n = concat (map (\<lambda>i. line_events m (line + of_nat (64 * i))) [0..<n])"

lemma lines_events_Suc: "lines_events m line (Suc n) = line_events m line @ lines_events m (line + 64) n"
proof -
  have "map (\<lambda>i. line_events m (line + of_nat (64 * i))) [0..<Suc n] =
      line_events m line # map (\<lambda>i. line_events m (line + 64 + of_nat (64 * i))) [0..<n]"
    by (simp only: upt_conv_Cons [of 0 "Suc n"] map_Suc_upt [symmetric]) (simp add: algebra_simps)
  then show ?thesis by (simp add: lines_events_def)
qed

lemma quiet_lines: "quiet m (lines_events m line n)"
  using quiet_line by (fastforce simp: lines_events_def quiet_def)

lemma install_loop_closed:
  assumes "unat end - unat line = 64 * n"
  shows "install_loop m line end k = Some (lines_events m line n, k + of_nat n)"
  using assms
proof (induction n arbitrary: line k)
  case 0
  then have "\<not> line < end" by (simp add: word_less_nat_alt)
  then show ?case by (subst install_loop.simps) (simp add: lines_events_def)
next
  case (Suc n)
  then have l: "unat line + 64 \<le> unat end" by simp
  then have "line < end" by (simp add: word_less_nat_alt)
  moreover have "unat (line + 64) = unat line + 64"
    using l unat_lt_u64 [of "end"] by (simp add: unat_word_ariths(1))
  then have "unat end - unat (line + 64) = 64 * n" using Suc.prems by simp
  from Suc.IH [OF this, of "k + 1"] have "install_loop m (line + 64) end (k + 1) =
      Some (lines_events m (line + 64) n, k + 1 + of_nat n)" .
  moreover have "run_events (line_events m line) m = m" by (rule quiet_run [OF quiet_line])
  ultimately show ?case
    by (subst install_loop.simps) (simp add: window_defs lines_events_Suc add_ac)
qed

definition range_lines :: "addr \<Rightarrow> u64 \<Rightarrow> nat" where
  "range_lines a sz =
     (if a = 0 \<or> sz = 0 then 0 else (unat (align_up (a + sz) 64) - unat (align_down a 64)) div 64)"

definition range_events :: "mem \<Rightarrow> addr \<Rightarrow> u64 \<Rightarrow> event list" where
  "range_events m a sz =
     (if a = 0 \<or> sz = 0 then [] else lines_events m (align_down a 64) (range_lines a sz) @ [Fence])"

lemma install_range_closed:
  "vortex_cxl_install_range m a sz = Some (range_events m a sz, of_nat (range_lines a sz))"
proof (cases "a = 0 \<or> sz = 0")
  case False
  let ?b = "align_down a 64" and ?e = "align_up (a + sz) 64"
  have "64 dvd unat ?e - unat ?b"
    by (intro dvd_diff_nat) (simp_all add: align_up_64_eq unat_align_down_dvd)
  then have "unat ?e - unat ?b = 64 * range_lines a sz"
    using False by (simp add: range_lines_def)
  from install_loop_closed [OF this, of m 0] show ?thesis
    using False by (simp add: vortex_cxl_install_range_def range_events_def window_defs)
qed (simp add: vortex_cxl_install_range_def range_events_def range_lines_def)

lemma quiet_range: "quiet m (range_events m a sz)"
  by (simp add: range_events_def quiet_lines)

lemma run_range [simp]: "run_events (range_events m a sz) m = m"
  by (rule quiet_run [OF quiet_range])

lemma range_lines_count:
  assumes "a \<noteq> 0" "sz \<noteq> 0" "unat a + unat sz + 63 < 2 ^ 64"
  shows "range_lines a sz = (unat a + unat sz + 63) div 64 - unat a div 64"
proof -
  have "unat (a + sz) = unat a + unat sz" using assms(3) by (simp add: unat_word_ariths(1))
  then have "unat (a + sz + 63) = unat a + unat sz + 63"
    using assms(3) by (simp add: unat_word_ariths(1))
  then show ?thesis
    using assms(1,2) by (simp add: range_lines_def align_up_64_eq unat_align_down_64)
qed

section \<open>Copies\<close>

lemma copy_words_run:
  assumes "disjoint_rng src n dst n" "n \<le> 2 ^ 64" "off \<le> n"
    and "copy_words (write_bytes m dst (read_bytes m src off)) dst src off n = (es, off')"
  shows "run_events es (write_bytes m dst (read_bytes m src off)) = write_bytes m dst (read_bytes m src off')
    \<and> off \<le> off' \<and> off' \<le> n \<and> (\<forall>e \<in> set es. within dst 0 n e)"
  using assms
proof (induction "n - off" arbitrary: off es rule: less_induct)
  case less
  note d = less.prems(1) and n = less.prems(2) and o = less.prems(3)
  let ?m = "\<lambda>k. write_bytes m dst (read_bytes m src k)"
  show ?case
  proof (cases "off + 8 \<le> n")
    case True
    have u: "unat (of_nat off :: u64) = off" using True n by (intro unat_of_nat_u64) simp
    have "disjoint_rng (src + of_nat off) 8 dst n"
      using disjoint_rng_sub [OF d, of "of_nat off" 8] True n by (simp add: u)
    then have "disjoint_rng dst off (src + of_nat off) 8"
      using disjoint_rng_sub [of dst n "src + of_nat off" 8 0 off] True n by (simp add: disjoint_rng_sym)
    then have rd: "read_bytes (?m off) (src + of_nat off) 8 = read_bytes m (src + of_nat off) 8"
      by (simp add: read_write_disjoint disjoint_rng_sym)
    let ?e = "Store (dst + of_nat off) (le_bytes 8 (read64 (?m off) (src + of_nat off)))"
    have le: "le_bytes 8 (read64 (?m off) (src + of_nat off)) = read_bytes m (src + of_nat off) 8"
      by (simp add: read64_def rd)
    have st: "run_event ?e (?m off) = ?m (off + 8)"
      using write_bytes_append [of "read_bytes m src off" "read_bytes m (src + of_nat off) 8" m dst] True n
      by (simp add: le read_bytes_append)
    from less.prems(4) True obtain es1 where
      e1: "copy_words (?m (off + 8)) dst src (off + 8) n = (es1, off')" and es: "es = ?e # es1"
      by (subst (asm) copy_words.simps) (auto simp only: Let_def st if_True split: prod.splits)
    have w: "within dst 0 n ?e" unfolding within_def using True by (intro exI [of _ off]) auto
    have lt: "n - (off + 8) < n - off" using True by simp
    show ?thesis using less.hyps [OF lt d n True e1] w by (simp add: es st del: run_event.simps)
  next
    case False
    then have "es = [] \<and> off' = off" using less.prems(4) by (subst (asm) copy_words.simps) simp
    then show ?thesis using o by simp
  qed
qed

lemma copy_tail_run:
  assumes "disjoint_rng src n dst n" "n \<le> 2 ^ 64" "off \<le> n"
  shows "run_events (copy_tail (write_bytes m dst (read_bytes m src off)) dst src off n)
      (write_bytes m dst (read_bytes m src off)) = write_bytes m dst (read_bytes m src n)
    \<and> (\<forall>e \<in> set (copy_tail (write_bytes m dst (read_bytes m src off)) dst src off n). within dst 0 n e)"
  using assms
proof (induction "n - off" arbitrary: off rule: less_induct)
  case less
  note d = less.prems(1) and n = less.prems(2)
  let ?m = "\<lambda>k. write_bytes m dst (read_bytes m src k)"
  show ?case
  proof (cases "off < n")
    case True
    have u: "unat (of_nat off :: u64) = off" using True n by (intro unat_of_nat_u64) simp
    have "disjoint_rng (src + of_nat off) 1 dst n"
      using disjoint_rng_sub [OF d, of "of_nat off" 1] True n by (simp add: u)
    then have "disjoint_rng dst off (src + of_nat off) 1"
      using disjoint_rng_sub [of dst n "src + of_nat off" 1 0 off] True n by (simp add: disjoint_rng_sym)
    then have "read_bytes (?m off) (src + of_nat off) 1 = read_bytes m (src + of_nat off) 1"
      by (simp add: read_write_disjoint disjoint_rng_sym)
    then have le: "[?m off (src + of_nat off)] = read_bytes m (src + of_nat off) 1"
      by (simp add: read_bytes_def)
    let ?e = "Store (dst + of_nat off) [?m off (src + of_nat off)]"
    have st: "run_event ?e (?m off) = ?m (off + 1)"
      using write_bytes_append [of "read_bytes m src off" "read_bytes m (src + of_nat off) 1" m dst] True n
      unfolding run_event.simps le read_bytes_append by simp
    have w: "within dst 0 n ?e" unfolding within_def using True by (intro exI [of _ off]) auto
    have c: "copy_tail (?m off) dst src off n = ?e # copy_tail (?m (off + 1)) dst src (off + 1) n"
      using True by (subst copy_tail.simps) (simp only: Let_def st if_True)
    show ?thesis using less.hyps [OF _ d n, of "off + 1"] True w
      by (simp add: c st del: run_event.simps)
  next
    case False
    then show ?thesis using less.prems(3) by (subst (1 2) copy_tail.simps) simp
  qed
qed

text \<open>Between disjoint ranges the copy is a block copy, and every store is inside the destination.\<close>

lemma copy_bytes_run:
  assumes "disjoint_rng src (unat n) dst (unat n)"
  shows "run_events (vortex_cxl_copy_bytes m dst src n) m = memcpy m dst src (unat n)
    \<and> (\<forall>e \<in> set (vortex_cxl_copy_bytes m dst src n). within dst 0 (unat n) e)"
proof -
  have n: "unat n \<le> 2 ^ 64" using unat_lt_u64 [of n] by simp
  obtain es off where c: "copy_words m dst src 0 (unat n) = (es, off)" by fastforce
  from copy_words_run [OF assms n, of 0 m es off] c
  have w: "run_events es m = write_bytes m dst (read_bytes m src off)" "off \<le> unat n"
      "\<forall>e \<in> set es. within dst 0 (unat n) e" by simp_all
  from copy_tail_run [OF assms n w(2), of m] w show ?thesis
    by (auto simp: vortex_cxl_copy_bytes_def c memcpy_def)
qed

section \<open>Prefetch hooks touch nothing\<close>

lemma chain_impl_quiet:
  "\<exists>es n. chain_impl_loop m node off depth visited = Some (es, n) \<and> quiet m es"
proof (induction m node off depth visited rule: chain_impl_loop.induct)
  case (1 m node off depth visited)
  show ?case
  proof (cases "node \<noteq> 0 \<and> visited < depth")
    case True
    let ?es = "range_events m node CIRA_CXL_CACHELINE_SIZE"
    have "\<exists>es n. chain_impl_loop m (read64 m (node + off)) off depth (visited + 1) = Some (es, n) \<and> quiet m es"
      using 1 [OF True install_range_closed refl refl] by simp
    then show ?thesis using True
      by (subst chain_impl_loop.simps) (auto simp: install_range_closed quiet_range)
  next
    case False
    then show ?thesis by (subst chain_impl_loop.simps) auto
  qed
qed

section \<open>Gathering a chain\<close>

text \<open>The nodes a chase visits, on a memory that stands still: the specification of the chain job.\<close>

fun chase :: "mem \<Rightarrow> u64 \<Rightarrow> addr \<Rightarrow> nat \<Rightarrow> addr list" where
  "chase m off node 0 = []"
| "chase m off node (Suc n) = (if node = 0 then [] else node # chase m off (read64 m (node + off)) n)"

lemma length_chase: "length (chase m off node n) \<le> n"
  by (induction n arbitrary: node) auto

text \<open>One record appended to the buffer behind those already gathered.\<close>

lemma gather_step:
  assumes d: "disjoint_rng src (unat sz) dst (unat sz * n)" and n: "Suc (length done) \<le> n" "unat sz * n \<le> 2 ^ 64"
    and l: "\<forall>bs \<in> set done. length bs = unat sz"
    and p: "dst' = dst + of_nat (length done) * sz"
  shows "run_events (vortex_cxl_copy_bytes (write_bytes m dst (concat done)) dst' src sz) (write_bytes m dst (concat done))
      = write_bytes m dst (concat (done @ [read_bytes m src (unat sz)]))"
proof -
  let ?m = "write_bytes m dst (concat done)"
  let ?k = "unat sz * length done"
  have len: "length (concat done) = ?k" using l by (induction "done") auto
  have fit: "?k + unat sz \<le> unat sz * n"
    using mult_le_mono2 [OF n(1), of "unat sz"] by simp
  have dst': "dst' = dst + of_nat ?k" by (simp add: p)
  have sub: "disjoint_rng (dst + of_nat q) i src (unat sz)" if "q + i \<le> unat sz * n" for q i
  proof (cases "i = 0")
    case False
    then have u: "unat (of_nat q :: u64) = q" using that n(2) by (intro unat_of_nat_u64) simp
    show ?thesis
      using disjoint_rng_sub [of dst "unat sz * n" src "unat sz" "of_nat q" i] that n(2) d
      by (simp add: u disjoint_rng_sym)
  qed (simp add: disjoint_rng_def)
  have "disjoint_rng src (unat sz) dst' (unat sz)"
    using sub [of ?k "unat sz"] fit by (simp add: dst' disjoint_rng_sym)
  note run = conjunct1 [OF copy_bytes_run [OF this, of ?m]]
  have "0 + ?k \<le> unat sz * n" using fit by linarith
  from sub [OF this] have "disjoint_rng src (unat sz) dst ?k" by (simp add: disjoint_rng_sym)
  then have rd: "read_bytes ?m src (unat sz) = read_bytes m src (unat sz)"
    by (simp add: read_write_disjoint len)
  show ?thesis
    unfolding run memcpy_def rd
    using write_bytes_append [of "concat done" "read_bytes m src (unat sz)" m dst] fit n(2)
    by (simp add: len dst')
qed

text \<open>What the gather relies on: the buffer meets neither the argument nor the nodes it reads.\<close>

definition chain_frame :: "mem \<Rightarrow> addr \<Rightarrow> addr list \<Rightarrow> bool" where
  "chain_frame m p nodes \<longleftrightarrow>
     (let j = load_chain_job m p; n = unat (pj_data_size j) * length nodes; dst = pj_buf_addr j in
      n \<le> 2 ^ 64 \<and> disjoint_rng p sizeof_chain_job dst n \<and>
      (\<forall>a \<in> set nodes. disjoint_rng (a + ucast (pj_next_ptr_offset j)) 8 dst n \<and>
         disjoint_rng (a + ucast (pj_data_offset j)) (unat (pj_data_size j)) dst n))"

lemma length_gather: "length (concat (map (\<lambda>a. read_bytes m (f a) n) xs)) = n * length xs"
  by (induction xs) auto

lemma of_nat_depth:
  "k \<le> unat (pj_depth j) \<Longrightarrow> unat (of_nat k :: u64) = k"
  using unsigned_less [of "pj_depth j", where ?'a = nat] by (intro unat_of_nat_u64) simp

lemma disjoint_rng_mono: "disjoint_rng a n b k \<Longrightarrow> i \<le> k \<Longrightarrow> k \<le> 2 ^ 64 \<Longrightarrow> disjoint_rng a n b i"
  using disjoint_rng_sub [of b k a n 0 i] by (simp add: disjoint_rng_sym)

lemma chain_stays:
  assumes f: "chain_frame m p (pre @ rest)"
  defines "j \<equiv> load_chain_job m p"
  defines "m' \<equiv> write_bytes m (pj_buf_addr j)
     (concat (map (\<lambda>a. read_bytes m (a + ucast (pj_data_offset j)) (unat (pj_data_size j))) pre))"
  shows chain_job_stays: "load_chain_job m' p = j"
    and chain_ptr_stays: "a \<in> set (pre @ rest) \<Longrightarrow>
      read64 m' (a + ucast (pj_next_ptr_offset j)) = read64 m (a + ucast (pj_next_ptr_offset j))"
proof -
  have le: "unat (pj_data_size j) * length pre \<le> unat (pj_data_size j) * length (pre @ rest)" by simp
  note fr = f [unfolded chain_frame_def Let_def, folded j_def]
  have "disjoint_rng p sizeof_chain_job (pj_buf_addr j) (unat (pj_data_size j) * length pre)"
    by (rule disjoint_rng_mono [OF _ le]) (use fr in blast)+
  then show "load_chain_job m' p = j"
    unfolding m'_def j_def by (intro pjob.ld_write) (simp add: length_gather)
  assume a: "a \<in> set (pre @ rest)"
  have "disjoint_rng (a + ucast (pj_next_ptr_offset j)) 8 (pj_buf_addr j) (unat (pj_data_size j) * length pre)"
    by (rule disjoint_rng_mono [OF _ le]) (use fr a in blast)+
  then show "read64 m' (a + ucast (pj_next_ptr_offset j)) = read64 m (a + ucast (pj_next_ptr_offset j))"
    unfolding m'_def by (intro read64_write_other) (simp add: length_gather)
qed

lemma chain_job_gathers:
  fixes m p
  defines "j \<equiv> load_chain_job m p"
  assumes b: "pj_buf_addr j \<noteq> 0" "pj_data_size j \<noteq> 0"
    and f: "chain_frame m p nodes"
    and nodes: "nodes = pre @ chase m (ucast (pj_next_ptr_offset j)) node (unat (pj_depth j) - length pre)"
    and pre: "length pre \<le> unat (pj_depth j)"
  defines "rec \<equiv> \<lambda>a. read_bytes m (a + ucast (pj_data_offset j)) (unat (pj_data_size j))"
  shows "\<exists>es. chain_job_loop (write_bytes m (pj_buf_addr j) (concat (map rec pre))) p (pj_buf_addr j) node
        (of_nat (length pre)) = Some (es, of_nat (length nodes)) \<and>
      run_events es (write_bytes m (pj_buf_addr j) (concat (map rec pre)))
        = write_bytes m (pj_buf_addr j) (concat (map rec nodes))"
  using nodes pre
proof (induction "unat (pj_depth j) - length pre" arbitrary: pre node)
  case base: 0
  let ?dst = "pj_buf_addr j"
  have n: "nodes = pre" using base by simp
  have "load_chain_job (write_bytes m ?dst (concat (map rec pre))) p = j"
    using chain_job_stays [of m p pre "[]"] f by (simp add: n rec_def j_def)
  moreover have "\<not> of_nat (length pre) < (ucast (pj_depth j) :: u64)"
    using base of_nat_depth [of "length pre" j] by (simp add: word_less_nat_alt)
  ultimately show ?case by (subst chain_job_loop.simps) (simp add: n)
next
  case step: (Suc x)
  let ?dst = "pj_buf_addr j" and ?off = "ucast (pj_next_ptr_offset j) :: u64"
    and ?sz = "ucast (pj_data_size j) :: u64"
  let ?m = "\<lambda>q. write_bytes m ?dst (concat (map rec q))"
  have lt: "length pre < unat (pj_depth j)" using step(2) by linarith
  then have guard: "of_nat (length pre) < (ucast (pj_depth j) :: u64)"
    using of_nat_depth [of "length pre" j] by (simp add: word_less_nat_alt)
  have stay: "load_chain_job (?m pre) p = j"
    using chain_job_stays [of m p pre] f step(3) by (simp add: rec_def j_def)
  show ?case
  proof (cases "node = 0")
    case True
    then have "nodes = pre" using step(2,3) by (simp flip: step(2))
    then show ?thesis using True by (subst chain_job_loop.simps) simp
  next
    case False
    let ?next = "read64 m (node + ?off)"
    have ns: "nodes = pre @ node # chase m ?off ?next x" using step(3) False by (simp flip: step(2))
    have x: "x = unat (pj_depth j) - length (pre @ [node])" using step(2) by simp
    have in_nodes: "node \<in> set nodes" by (simp add: ns)
    note fr = f [unfolded chain_frame_def Let_def, folded j_def]
    have cc: "chain_copy (?m pre) p node ?dst (of_nat (length pre)) =
        vortex_cxl_copy_bytes (?m pre) (?dst + of_nat (length pre) * ?sz) (node + ucast (pj_data_offset j)) ?sz"
      using b by (simp add: chain_copy_def stay)
    have "disjoint_rng (node + ucast (pj_data_offset j)) (unat ?sz) ?dst (unat ?sz * length nodes)"
      "unat ?sz * length nodes \<le> 2 ^ 64" using fr in_nodes by simp_all
    note gs = gather_step [OF this(1) _ this(2), of "map rec pre" "?dst + of_nat (length pre) * ?sz" m]
    have copy: "run_events (chain_copy (?m pre) p node ?dst (of_nat (length pre))) (?m pre) = ?m (pre @ [node])"
      unfolding cc using gs by (simp add: ns rec_def)
    have stay': "load_chain_job (?m (pre @ [node])) p = j"
      using chain_job_stays [of m p "pre @ [node]" "chase m ?off ?next x"] f by (simp add: ns rec_def j_def)
    have nxt: "read64 (?m (pre @ [node])) (node + ?off) = ?next"
      using chain_ptr_stays [of m p "pre @ [node]" "chase m ?off ?next x" node] f in_nodes
      by (simp add: ns rec_def j_def)
    have c: "of_nat (length pre) + 1 = (of_nat (length (pre @ [node])) :: u64)" by simp
    have "nodes = (pre @ [node]) @ chase m ?off ?next (unat (pj_depth j) - length (pre @ [node]))"
      unfolding x [symmetric] by (simp add: ns)
    moreover have "length (pre @ [node]) \<le> unat (pj_depth j)" using lt by simp
    ultimately obtain es where
      rest: "chain_job_loop (?m (pre @ [node])) p ?dst ?next (of_nat (length (pre @ [node])))
          = Some (es, of_nat (length nodes))"
      and run: "run_events es (?m (pre @ [node])) = ?m nodes"
      using step(1) [OF x] by blast
    have "chain_job_loop (?m pre) p ?dst node (of_nat (length pre)) =
      Some (range_events (?m pre) node CIRA_CXL_CACHELINE_SIZE @
        chain_copy (?m pre) p node ?dst (of_nat (length pre)) @ es, of_nat (length nodes))"
      using rest False guard
      by (subst chain_job_loop.simps)
        (simp only: stay install_range_closed bind.bind_lunit prod.case Let_def run_range copy stay' nxt c
          if_True simp_thms)
    then show ?thesis by (simp add: copy run del: map_append)
  qed
qed

section \<open>Gathering a stream\<close>

definition stream_frame :: "mem \<Rightarrow> addr \<Rightarrow> u64 \<Rightarrow> bool" where
  "stream_frame m p stride \<longleftrightarrow>
     (let j = load_stream_job m p; n = unat (sj_elem_size j) * unat (sj_count j); dst = sj_buf_addr j in
      n \<le> 2 ^ 64 \<and> disjoint_rng p sizeof_stream_job dst n \<and>
      (\<forall>i < unat (sj_count j).
         disjoint_rng (sj_base_addr j + of_nat i * stride) (unat (sj_elem_size j)) dst n))"

definition stream_rec :: "mem \<Rightarrow> stream_prefetch_job \<Rightarrow> u64 \<Rightarrow> nat \<Rightarrow> u8 list" where
  "stream_rec m j stride i = read_bytes m (sj_base_addr j + of_nat i * stride) (unat (sj_elem_size j))"

lemma length_stream_rec: "length (concat (map (stream_rec m j stride) xs)) = unat (sj_elem_size j) * length xs"
  by (induction xs) (auto simp: stream_rec_def)

lemma stream_job_stays:
  assumes "stream_frame m p stride" "k \<le> unat (sj_count (load_stream_job m p))"
  shows "load_stream_job (write_bytes m (sj_buf_addr (load_stream_job m p))
    (concat (map (stream_rec m (load_stream_job m p) stride) [0..<k]))) p = load_stream_job m p"
proof -
  let ?j = "load_stream_job m p"
  have le: "unat (sj_elem_size ?j) * k \<le> unat (sj_elem_size ?j) * unat (sj_count ?j)" using assms(2) by simp
  have "disjoint_rng p sizeof_stream_job (sj_buf_addr ?j) (unat (sj_elem_size ?j) * k)"
    by (rule disjoint_rng_mono [OF _ le]) (use assms(1) in \<open>simp_all add: stream_frame_def Let_def\<close>)
  then show ?thesis by (intro sjob.ld_write) (simp add: length_stream_rec)
qed

lemma stream_job_gathers:
  fixes m p stride
  defines "j \<equiv> load_stream_job m p"
  assumes b: "sj_buf_addr j \<noteq> 0" and f: "stream_frame m p stride" and k: "k \<le> unat (sj_count j)"
  defines "mm \<equiv> \<lambda>k. write_bytes m (sj_buf_addr j) (concat (map (stream_rec m j stride) [0..<k]))"
  shows "\<exists>es. stream_job_loop (mm k) p (sj_base_addr j) (sj_buf_addr j) stride (of_nat k) = Some es \<and>
    run_events es (mm k) = mm (unat (sj_count j))"
  using k
proof (induction "unat (sj_count j) - k" arbitrary: k)
  case base: 0
  then have k: "k = unat (sj_count j)" by simp
  have "load_stream_job (mm k) p = j"
    using stream_job_stays [OF f, of k] k by (simp add: mm_def j_def)
  then show ?case by (subst stream_job_loop.simps) (simp add: k)
next
  case step: (Suc x)
  let ?dst = "sj_buf_addr j" and ?sz = "ucast (sj_elem_size j) :: u64"
    and ?src = "sj_base_addr j + of_nat k * stride"
  have lt: "k < unat (sj_count j)" using step(2) by linarith
  have u: "unat (of_nat k :: u64) = k"
    using lt unat_lt_u64 [of "sj_count j"] by (intro unat_of_nat_u64) linarith
  have guard: "of_nat k < sj_count j" using lt by (simp add: word_less_nat_alt u)
  have stay: "load_stream_job (mm k) p = j"
    using stream_job_stays [OF f, of k] step(3) by (simp add: mm_def j_def)
  have stay': "load_stream_job (mm (Suc k)) p = j"
    using stream_job_stays [OF f, of "Suc k"] lt unfolding mm_def j_def by simp
  have cc: "stream_copy (mm k) p ?src ?dst (of_nat k) =
      vortex_cxl_copy_bytes (mm k) (?dst + of_nat k * ?sz) ?src ?sz"
    using b by (simp add: stream_copy_def stay)
  have "disjoint_rng ?src (unat ?sz) ?dst (unat ?sz * unat (sj_count j))"
    "unat ?sz * unat (sj_count j) \<le> 2 ^ 64"
    using f lt by (simp_all add: stream_frame_def Let_def j_def)
  note gs = gather_step [OF this(1) _ this(2), of "map (stream_rec m j stride) [0..<k]"
      "?dst + of_nat k * ?sz" m]
  have copy: "run_events (stream_copy (mm k) p ?src ?dst (of_nat k)) (mm k) = mm (Suc k)"
    unfolding cc using gs lt by (simp add: mm_def stream_rec_def)
  have "x = unat (sj_count j) - Suc k" "Suc k \<le> unat (sj_count j)" using step(2) lt by simp_all
  from step(1) [OF this] obtain es where
    rest: "stream_job_loop (mm (Suc k)) p (sj_base_addr j) ?dst stride (of_nat (Suc k)) = Some es"
    and run: "run_events es (mm (Suc k)) = mm (unat (sj_count j))" by blast
  have c: "of_nat k + 1 = (of_nat (Suc k) :: u64)" by simp
  have "stream_job_loop (mm k) p (sj_base_addr j) ?dst stride (of_nat k) =
    Some (range_events (mm k) ?src ?sz @ stream_copy (mm k) p ?src ?dst (of_nat k) @ es)"
    using rest guard
    by (subst stream_job_loop.simps)
      (simp only: stay install_range_closed bind.bind_lunit prod.case Let_def run_range copy c if_True)
  then show ?case by (simp add: copy run)
qed

section \<open>Every job ends\<close>

lemma chain_job_total: "\<exists>es n. chain_job_loop m p dst node visited = Some (es, n)"
proof (induction m p dst node visited rule: chain_job_loop.induct)
  case (1 m p dst node visited)
  show ?case
  proof (cases "node \<noteq> 0 \<and> visited < ucast (pj_depth (load_chain_job m p))")
    case True
    from 1 [OF True install_range_closed refl refl refl refl refl] show ?thesis
      using True by (subst chain_job_loop.simps) (auto simp: install_range_closed Let_def)
  next
    case False
    then show ?thesis by (subst chain_job_loop.simps) auto
  qed
qed

lemma stream_job_total: "\<exists>es. stream_job_loop m p base dst stride i = Some es"
proof (induction m p base dst stride i rule: stream_job_loop.induct)
  case (1 m p base dst stride i)
  show ?case
  proof (cases "i < sj_count (load_stream_job m p)")
    case True
    from 1 [OF True refl install_range_closed refl refl refl refl] show ?thesis
      using True by (subst stream_job_loop.simps) (auto simp: install_range_closed Let_def)
  next
    case False
    then show ?thesis by (subst stream_job_loop.simps) auto
  qed
qed

lemma run_job_total: "\<exists>st es. vortex_cxl_run_job fn cyc m control doorbell = Some (st, es)"
proof -
  have "\<exists>st es. vortex_cxl_run_install m job s c = Some (st, es)" for job s c
    by (auto simp: vortex_cxl_run_install_def install_range_closed Let_def split: option.splits)
  moreover have "\<exists>st es. vortex_cxl_run_prefetch_chain m job s c = Some (st, es)" for job s c
  proof (cases job)
    case (Some p)
    let ?j = "load_chain_job m p"
    obtain es n where "chain_job_loop m p (pj_buf_addr ?j) (pj_start_node_addr ?j) 0 = Some (es, n)"
      using chain_job_total by blast
    then show ?thesis using Some by (simp add: vortex_cxl_run_prefetch_chain_def Let_def)
  qed (simp add: vortex_cxl_run_prefetch_chain_def)
  moreover have "\<exists>st es. vortex_cxl_run_stream_prefetch m job s c = Some (st, es)" for job s c
  proof (cases job)
    case (Some p)
    let ?j = "load_stream_job m p"
    obtain es where "stream_job_loop m p (sj_base_addr ?j) (sj_buf_addr ?j)
        (if sj_stride ?j \<noteq> 0 then ucast (sj_stride ?j) else ucast (sj_elem_size ?j)) 0 = Some es"
      using stream_job_total by blast
    then show ?thesis using Some by (simp add: vortex_cxl_run_stream_prefetch_def Let_def)
  qed (simp add: vortex_cxl_run_stream_prefetch_def)
  moreover have "\<exists>st es. vortex_cxl_run_call fn m job s c = Some (st, es)" for job s c
    by (auto simp: vortex_cxl_run_call_def Let_def split: option.splits)
  ultimately show ?thesis unfolding vortex_cxl_run_job_def Let_def by simp
qed

section \<open>Status and completion lines are published\<close>

interpretation wc: publication "completion_pre c status result start_cycles cyc" c
    "le_bytes 4 CIRA_CXL_COMPLETION_MAGIC" "[Fence]" for c status result start_cycles cyc
proof
  have d: "disjoint_rng c 4 (c + 4) 4" "disjoint_rng c 4 (c + 8) 8" "disjoint_rng c 4 (c + 16) 8"
      "disjoint_rng c 4 (c + 24) 8"
    using disjoint_off [of 0 4 4 4 c] disjoint_off [of 0 4 8 8 c] disjoint_off [of 0 4 16 8 c]
      disjoint_off [of 0 4 24 8 c] by simp_all
  show "\<forall>e \<in> set (completion_pre c status result start_cycles cyc).
      avoids c (length (le_bytes 4 CIRA_CXL_COMPLETION_MAGIC)) e"
    by (simp add: completion_pre_def d)
qed simp

interpretation ms: publication "status_pre host job_id status" "host + 24" "le_bytes 8 seq" "[Fence]"
  for host job_id status seq
proof
  have d: "disjoint_rng (host + 24) 8 host 8" "disjoint_rng (host + 24) 8 (host + 8) 4"
      "disjoint_rng (host + 24) 8 (host + 12) 4" "disjoint_rng (host + 24) 8 (host + 16) 4"
    using disjoint_off_rev [of 0 8 24 8 host] disjoint_off_rev [of 8 4 24 8 host]
      disjoint_off_rev [of 12 4 24 8 host] disjoint_off_rev [of 16 4 24 8 host] by simp_all
  show "\<forall>e \<in> set (status_pre host job_id status). avoids (host + 24) (length (le_bytes 8 seq)) e"
    by (simp add: status_pre_def d)
qed simp

lemma wc_events:
  "c \<noteq> 0 \<Longrightarrow> vortex_cxl_write_completion c status result start_cycles cyc =
     completion_pre c status result start_cycles cyc @ Store c (le_bytes 4 CIRA_CXL_COMPLETION_MAGIC) # [Fence]"
  by (simp add: vortex_cxl_write_completion_def)

lemma written_completion:
  assumes "c \<noteq> 0"
  shows "load_completion (run_events (vortex_cxl_write_completion c status result start_cycles cyc) m) c =
    \<lparr>cp_magic = CIRA_CXL_COMPLETION_MAGIC, cp_status = status, cp_result = result,
     cp_cycles = cyc 0 - start_cycles, cp_timestamp = cyc 1\<rparr>"
proof -
  have d: "disjoint_rng (c + 8) 8 (c + 4) 4" "disjoint_rng (c + 16) 8 (c + 4) 4" "disjoint_rng (c + 24) 8 (c + 4) 4"
      "disjoint_rng (c + 8) 8 (c + 16) 8" "disjoint_rng (c + 8) 8 (c + 24) 8" "disjoint_rng (c + 16) 8 (c + 24) 8"
    using disjoint_off_rev [of 4 4 8 8 c] disjoint_off_rev [of 4 4 16 8 c] disjoint_off_rev [of 4 4 24 8 c]
      disjoint_off [of 8 8 16 8 c] disjoint_off [of 8 8 24 8 c] disjoint_off [of 16 8 24 8 c] by simp_all
  have d0: "disjoint_rng (c + 4) 4 c 4" "disjoint_rng (c + 8) 8 c 4" "disjoint_rng (c + 16) 8 c 4"
      "disjoint_rng (c + 24) 8 c 4"
    using disjoint_off_rev [of 0 4 4 4 c] disjoint_off_rev [of 0 4 8 8 c] disjoint_off_rev [of 0 4 16 8 c]
      disjoint_off_rev [of 0 4 24 8 c] by simp_all
  have r: "run_events (vortex_cxl_write_completion c status result start_cycles cyc) m =
    write_bytes (write_bytes (write_bytes (write_bytes (write_bytes m (c + 8) (le_bytes 8 result))
      (c + 16) (le_bytes 8 (cyc 0 - start_cycles))) (c + 24) (le_bytes 8 (cyc 1))) (c + 4) (le_bytes 4 status))
      c (le_bytes 4 CIRA_CXL_COMPLETION_MAGIC)"
    using assms by (simp add: vortex_cxl_write_completion_def completion_pre_def)
  show ?thesis
    unfolding r load_completion_def
    by (simp only: read32_write_other read64_write_other length_le_bytes d d0
        read_write64_same read_write32_same)
qed

lemma mirrored_status:
  assumes "control \<noteq> 0"
  shows "load_host_status (run_events (vortex_cxl_mirror_status control job_id seq status) m)
      (control + CIRA_CXL_STATUS_OFF) =
    \<lparr>hs_magic = CIRA_CXL_JOB_MAGIC, hs_version = CIRA_CXL_JOB_VERSION, hs_job_id = job_id,
     hs_status = status, hs_seq = seq\<rparr>"
proof -
  let ?h = "control + CIRA_CXL_STATUS_OFF"
  have d: "disjoint_rng (?h + 8) 4 (?h + 12) 4" "disjoint_rng (?h + 8) 4 (?h + 16) 4" "disjoint_rng (?h + 8) 4 (?h + 24) 8"
      "disjoint_rng (?h + 12) 4 (?h + 16) 4" "disjoint_rng (?h + 12) 4 (?h + 24) 8" "disjoint_rng (?h + 16) 4 (?h + 24) 8"
    using disjoint_off [of 8 4 12 4 ?h] disjoint_off [of 8 4 16 4 ?h] disjoint_off [of 8 4 24 8 ?h]
      disjoint_off [of 12 4 16 4 ?h] disjoint_off [of 12 4 24 8 ?h] disjoint_off [of 16 4 24 8 ?h] by simp_all
  have d0: "disjoint_rng ?h 8 (?h + 8) 4" "disjoint_rng ?h 8 (?h + 12) 4" "disjoint_rng ?h 8 (?h + 16) 4"
      "disjoint_rng ?h 8 (?h + 24) 8"
    using disjoint_off [of 0 8 8 4 ?h] disjoint_off [of 0 8 12 4 ?h] disjoint_off [of 0 8 16 4 ?h]
      disjoint_off [of 0 8 24 8 ?h] by simp_all
  have r: "run_events (vortex_cxl_mirror_status control job_id seq status) m =
    write_bytes (write_bytes (write_bytes (write_bytes (write_bytes m ?h (le_bytes 8 CIRA_CXL_JOB_MAGIC))
      (?h + 8) (le_bytes 4 CIRA_CXL_JOB_VERSION)) (?h + 12) (le_bytes 4 job_id)) (?h + 16) (le_bytes 4 status))
      (?h + 24) (le_bytes 8 seq)"
    using assms by (simp add: vortex_cxl_mirror_status_def status_pre_def)
  show ?thesis
    unfolding r load_host_status_def
    by (simp only: read32_write_other read64_write_other length_le_bytes d d0
        read_write64_same read_write32_same)
qed

section \<open>One service, step by step\<close>

definition running_marks :: "addr \<Rightarrow> doorbell \<Rightarrow> event list" where
  "running_marks control db = Fence # Store (control + 20) (le_bytes 4 CIRA_CXL_STATUS_RUNNING) #
     vortex_cxl_mirror_status control (db_job_id db) (db_seq db) CIRA_CXL_STATUS_RUNNING"

definition final_marks :: "addr \<Rightarrow> doorbell \<Rightarrow> u32 \<Rightarrow> event list" where
  "final_marks control db status = Store (control + 20) (le_bytes 4 status) #
     vortex_cxl_mirror_status control (db_job_id db) (db_seq db) status"

lemma service_runs:
  assumes "control \<noteq> 0" "db = load_doorbell m control" "cira_cxl_valid_magic (db_magic db)"
    and "vortex_cxl_run_job fn cyc (run_events (running_marks control db) m) control db = Some (st, ej)"
  shows "vortex_cxl_firmware_service_once fn cyc m control =
    Some (st, running_marks control db @ ej @ final_marks control db st)"
  using assms
  by (simp add: vortex_cxl_firmware_service_once_def CIRA_CXL_DOORBELL_OFF_def Let_def
      running_marks_def final_marks_def load_doorbell_def)

lemma service_cases:
  assumes "vortex_cxl_firmware_service_once fn cyc m control = Some (st, es)" "control \<noteq> 0"
    and "cira_cxl_valid_magic (db_magic (load_doorbell m control))"
  obtains ej where
    "vortex_cxl_run_job fn cyc (run_events (running_marks control (load_doorbell m control)) m) control
       (load_doorbell m control) = Some (st, ej)"
    "es = running_marks control (load_doorbell m control) @ ej @ final_marks control (load_doorbell m control) st"
proof -
  let ?db = "load_doorbell m control"
  obtain st' ej where r: "vortex_cxl_run_job fn cyc (run_events (running_marks control ?db) m) control ?db = Some (st', ej)"
    using run_job_total by blast
  show thesis using that [of ej] service_runs [OF assms(2) refl assms(3) r] assms(1) r by simp
qed

lemma mirror_avoids:
  assumes "disjoint_rng a n (control + CIRA_CXL_STATUS_OFF) 32"
  shows "\<forall>e \<in> set (vortex_cxl_mirror_status control job_id seq status). avoids a n e"
proof -
  let ?h = "control + CIRA_CXL_STATUS_OFF"
  have s: "disjoint_rng a n (?h + p) k" if "unat p + k \<le> 32" for p :: u64 and k
    using disjoint_rng_sub [of ?h 32 a n p k] assms that by (simp add: disjoint_rng_sym)
  show ?thesis
    using s [of 0 8] s [of 8 4] s [of 12 4] s [of 16 4] s [of 24 8]
    by (simp add: vortex_cxl_mirror_status_def status_pre_def)
qed

lemma wc_avoids:
  assumes "disjoint_rng a n c 32"
  shows "\<forall>e \<in> set (vortex_cxl_write_completion c status result start_cycles cyc). avoids a n e"
proof -
  have s: "disjoint_rng a n (c + p) k" if "unat p + k \<le> 32" for p :: u64 and k
    using disjoint_rng_sub [of c 32 a n p k] assms that by (simp add: disjoint_rng_sym)
  show ?thesis
    using s [of 0 4] s [of 4 4] s [of 8 8] s [of 16 8] s [of 24 8]
    by (simp add: vortex_cxl_write_completion_def completion_pre_def)
qed

lemma marks_avoid:
  assumes "disjoint_rng a n (control + 20) 4" "disjoint_rng a n (control + CIRA_CXL_STATUS_OFF) 32"
  shows "\<forall>e \<in> set (running_marks control db). avoids a n e"
    and "\<forall>e \<in> set (final_marks control db st). avoids a n e"
  using assms(1) mirror_avoids [OF assms(2)] by (simp_all add: running_marks_def final_marks_def)

text \<open>The slots lie between the doorbell and the status line.\<close>

lemma slot_clear_of_marks:
  assumes "job_id \<le> CIRA_CXL_JOB_MAX" "p + n \<le> 0x400"
  shows "disjoint_rng (base + cira_cxl_arg_slot_off job_id + of_nat p) n (base + 20) 4"
    and "disjoint_rng (base + cira_cxl_arg_slot_off job_id + of_nat p) n (base + CIRA_CXL_STATUS_OFF) 32"
proof -
  show "disjoint_rng (base + cira_cxl_arg_slot_off job_id + of_nat p) n (base + 20) 4"
    using slot_doorbell_disjoint [OF assms, of 20 4 base] by (simp add: disjoint_rng_sym)
  show "disjoint_rng (base + cira_cxl_arg_slot_off job_id + of_nat p) n (base + CIRA_CXL_STATUS_OFF) 32"
  proof (cases "n = 0")
    case False
    let ?s = "cira_cxl_arg_slot_off job_id"
    have u: "unat (of_nat p :: u64) = p" using assms(2) by (intro unat_of_nat_u64) simp
    have "unat (?s + of_nat p) = unat ?s + p"
      using slot_off_bounds(2) [OF assms(1)] assms(2) by (intro unat_sub_add_u64) simp
    then have "disjoint_rng (base + (?s + of_nat p)) n (base + CIRA_CXL_STATUS_OFF) 32"
      using slot_off_bounds(2) [OF assms(1)] assms(2)
      by (intro disjoint_off) (simp_all add: window_defs)
    then show ?thesis by (simp add: add.assoc)
  qed (simp add: disjoint_rng_def)
qed

lemma slot_kept:
  assumes "job_id \<le> CIRA_CXL_JOB_MAX"
  shows "load_arg_slot (run_events (running_marks base db) m) (base + cira_cxl_arg_slot_off job_id)
      = load_arg_slot m (base + cira_cxl_arg_slot_off job_id)"
    and "n \<le> 0x3e0 \<Longrightarrow> read_bytes (run_events (running_marks base db) m) (base + cira_cxl_arg_slot_off job_id + 32) n
      = read_bytes m (base + cira_cxl_arg_slot_off job_id + 32) n"
proof -
  show "load_arg_slot (run_events (running_marks base db) m) (base + cira_cxl_arg_slot_off job_id)
      = load_arg_slot m (base + cira_cxl_arg_slot_off job_id)"
    using slot_clear_of_marks [OF assms, of 0 32 base]
    by (intro slot.ld_local run_events_avoids marks_avoid) (simp_all add: sizeof_defs)
  show "read_bytes (run_events (running_marks base db) m) (base + cira_cxl_arg_slot_off job_id + 32) n
      = read_bytes m (base + cira_cxl_arg_slot_off job_id + 32) n" if "n \<le> 0x3e0"
    using slot_clear_of_marks [OF assms, of 32 n base] that
    by (intro run_events_avoids marks_avoid) simp_all
qed

section \<open>Properties\<close>

text \<open>C18
  The firmware always comes back. Whatever the control window, the argument slots and the rest of
  memory hold (cyclic chains, wrapped ranges, any count), one service ends and returns a status.\<close>

theorem service_always_returns: "\<exists>st es. vortex_cxl_firmware_service_once fn cyc m control = Some (st, es)"
proof (cases "control = 0 \<or> \<not> cira_cxl_valid_magic (db_magic (load_doorbell m control))")
  case True
  then show ?thesis
    by (auto simp: vortex_cxl_firmware_service_once_def CIRA_CXL_DOORBELL_OFF_def Let_def load_doorbell_def)
next
  case False
  obtain st ej where "vortex_cxl_run_job fn cyc (run_events (running_marks control (load_doorbell m control)) m)
      control (load_doorbell m control) = Some (st, ej)"
    using run_job_total by blast
  from service_runs [OF _ refl _ this] False show ?thesis by blast
qed

text \<open>The status line tells the truth. After a service the host's status line names the job and sequence
  number of the doorbell serviced, with exactly the status the service returned, whatever the job did
  to memory meanwhile.\<close>

theorem service_reports_status:
  assumes "vortex_cxl_firmware_service_once fn cyc m control = Some (st, es)" "control \<noteq> 0"
    and "cira_cxl_valid_magic (db_magic (load_doorbell m control))"
  shows "load_host_status (run_events es m) (control + CIRA_CXL_STATUS_OFF) =
    \<lparr>hs_magic = CIRA_CXL_JOB_MAGIC, hs_version = CIRA_CXL_JOB_VERSION,
     hs_job_id = db_job_id (load_doorbell m control), hs_status = st,
     hs_seq = db_seq (load_doorbell m control)\<rparr>"
  using assms by (elim service_cases) (auto simp: final_marks_def mirrored_status)

text \<open>C16
  A job is only run for a doorbell that matches its slot. A wrong version, an unknown id, or a slot
  whose magic, version, job id or sequence number differ from the doorbell's, or whose argument is
  too short for the job, are each refused with their own status, and then nothing is stored but the
  doorbell's status word and the status line.\<close>

theorem mismatched_job_refused:
  assumes "control \<noteq> 0" "db = load_doorbell m control" "cira_cxl_valid_magic (db_magic db)"
    and "h = load_arg_slot m (control + cira_cxl_arg_slot_off (db_job_id db))"
    and "need = (if db_job_id db = CIRA_CXL_JOB_PREFETCH_CHAIN then 40
                 else if db_job_id db = CIRA_CXL_JOB_STREAM_PREFETCH then 48 else 32)"
    and "db_version db \<noteq> CIRA_CXL_JOB_VERSION \<or> CIRA_CXL_JOB_MAX < db_job_id db \<or>
      db_job_id db \<noteq> CIRA_CXL_JOB_NOP \<and>
      (\<not> cira_cxl_valid_magic (as_magic h) \<or> as_version h \<noteq> CIRA_CXL_JOB_VERSION \<or>
       as_job_id h \<noteq> db_job_id db \<or> as_seq h \<noteq> db_seq db \<or> as_arg_len h < need)"
  shows "\<exists>st. vortex_cxl_firmware_service_once fn cyc m control =
      Some (st, running_marks control db @ final_marks control db st) \<and>
    st = (if db_version db \<noteq> CIRA_CXL_JOB_VERSION then CIRA_CXL_STATUS_BAD_VERSION
          else if CIRA_CXL_JOB_MAX < db_job_id db then CIRA_CXL_STATUS_BAD_JOB
          else CIRA_CXL_STATUS_BAD_ARGS)"
proof -
  let ?st = "if db_version db \<noteq> CIRA_CXL_JOB_VERSION then CIRA_CXL_STATUS_BAD_VERSION
    else if CIRA_CXL_JOB_MAX < db_job_id db then CIRA_CXL_STATUS_BAD_JOB else CIRA_CXL_STATUS_BAD_ARGS"
  let ?m = "run_events (running_marks control db) m"
  have "vortex_cxl_run_job fn cyc ?m control db = Some (?st, [])"
  proof (cases "db_version db \<noteq> CIRA_CXL_JOB_VERSION \<or> CIRA_CXL_JOB_MAX < db_job_id db")
    case True
    then show ?thesis by (auto simp: vortex_cxl_run_job_def job_id_defs Let_def)
  next
    case False
    then have j: "db_job_id db \<le> CIRA_CXL_JOB_MAX" by (simp add: not_less)
    have h: "load_arg_slot ?m (control + cira_cxl_arg_slot_off (db_job_id db)) = h"
      using slot_kept(1) [OF j] assms(4) by simp
    have "db_job_id db \<noteq> CIRA_CXL_JOB_NOP" using False assms(6) by blast
    with j have ids: "db_job_id db = 1 \<or> db_job_id db = 2 \<or> db_job_id db = 3 \<or> db_job_id db = 4"
      by (elim job_id_cases) (simp_all add: job_id_defs)
    have "vortex_cxl_checked_arg (unat need) ?m (vortex_cxl_arg_slot control (db_job_id db)) db = None"
      using False assms(1,6) j unfolding vortex_cxl_arg_slot_def vortex_cxl_checked_arg_def
      by (auto simp: h Let_def CIRA_CXL_JOB_MAX_def not_less)
    then show ?thesis
      using False ids assms(5)
      by (auto simp: vortex_cxl_run_job_def job_id_defs Let_def sizeof_defs vortex_cxl_run_install_def
          vortex_cxl_run_prefetch_chain_def vortex_cxl_run_stream_prefetch_def vortex_cxl_run_call_def)
  qed
  from service_runs [OF assms(1-3) this] show ?thesis by simp
qed

text \<open>A window at 0x10000 whose doorbell names an unknown job 9, for the witnesses.\<close>

definition demo_mem :: mem where
  "demo_mem = write_bytes (\<lambda>_. 0) 0x10000 (enc_doorbell (job_doorbell 9 0 0 7))"

lemma demo_doorbell: "load_doorbell demo_mem 0x10000 = job_doorbell 9 0 0 7"
  unfolding demo_mem_def by (rule db.enc_roundtrip)

lemma demo_magic: "cira_cxl_valid_magic (db_magic (load_doorbell demo_mem 0x10000))"
  by (simp add: demo_doorbell job_doorbell_def cira_cxl_valid_magic_def)

lemma demo_run_job:
  "vortex_cxl_run_job fn cyc m' control (job_doorbell 9 0 0 7) = Some (CIRA_CXL_STATUS_BAD_JOB, [])"
  by (simp add: vortex_cxl_run_job_def job_doorbell_def job_id_defs)

lemma service_reports_status_witness:
  "\<exists>es. load_host_status (run_events es demo_mem) (0x10000 + CIRA_CXL_STATUS_OFF) =
    \<lparr>hs_magic = CIRA_CXL_JOB_MAGIC, hs_version = CIRA_CXL_JOB_VERSION, hs_job_id = 9,
     hs_status = CIRA_CXL_STATUS_BAD_JOB, hs_seq = 7\<rparr>"
proof -
  have "vortex_cxl_firmware_service_once (\<lambda>_ _ _ _ _. []) (\<lambda>_. 0) demo_mem 0x10000 = Some (CIRA_CXL_STATUS_BAD_JOB,
      running_marks 0x10000 (load_doorbell demo_mem 0x10000) @ [] @
      final_marks 0x10000 (load_doorbell demo_mem 0x10000) CIRA_CXL_STATUS_BAD_JOB)"
    by (rule service_runs [OF _ refl demo_magic]) (simp_all add: demo_doorbell demo_run_job)
  then obtain es where "vortex_cxl_firmware_service_once (\<lambda>_ _ _ _ _. []) (\<lambda>_. 0) demo_mem 0x10000
      = Some (CIRA_CXL_STATUS_BAD_JOB, es)" by blast
  from service_reports_status [OF this _ demo_magic] show ?thesis
    by (intro exI [of _ es]) (simp add: demo_doorbell job_doorbell_def)
qed

lemma mismatched_job_refused_witness:
  "\<exists>es. vortex_cxl_firmware_service_once (\<lambda>_ _ _ _ _. []) (\<lambda>_. 0) demo_mem 0x10000
     = Some (CIRA_CXL_STATUS_BAD_JOB, es)"
  using mismatched_job_refused [of "0x10000" "load_doorbell demo_mem 0x10000" demo_mem _ 32
      "\<lambda>_ _ _ _ _. []" "\<lambda>_. 0", OF _ refl demo_magic refl]
  by (simp add: demo_doorbell job_doorbell_def job_id_defs)

text \<open>The prefetch hooks the compiler emits are invisible. For every address, size, depth and memory
  (a cyclic list included) each hook ends, and after any prefix of its stores memory is what it was.\<close>

theorem prefetch_hooks_transparent:
  "(case vortex_install_cacheline m a sz level of None \<Rightarrow> False | Some es \<Rightarrow> run_events (take k es) m = m) \<and>
   (case vortex_prefetch_chain m a off depth of None \<Rightarrow> False | Some es \<Rightarrow> run_events (take k es) m = m) \<and>
   (case vortex_prefetch_chain_kernel m a depth of None \<Rightarrow> False | Some es \<Rightarrow> run_events (take k es) m = m)"
proof -
  have c: "case map_option fst (vortex_cxl_prefetch_chain_impl m b off d) of None \<Rightarrow> False
      | Some es \<Rightarrow> run_events (take k es) m = m" for b off d
    using chain_impl_quiet [of m b off d 0]
    by (auto simp: vortex_cxl_prefetch_chain_impl_def quiet_run [OF quiet_take])
  have "case vortex_install_cacheline m a sz level of None \<Rightarrow> False | Some es \<Rightarrow> run_events (take k es) m = m"
    by (simp add: vortex_install_cacheline_def install_range_closed quiet_run quiet_take quiet_range)
  then show ?thesis
    using c [of a off depth] c [of "read64 m (a + 8)" "read64 m (a + 16)" depth] c [of a 0 depth]
    by (simp add: vortex_prefetch_chain_def vortex_prefetch_chain_kernel_def)
qed

lemma lines_events_stores:
  assumes "Store x bs \<in> set (lines_events m line n)"
  shows "\<exists>i < n. \<exists>w < 8. x = line + of_nat (64 * i + 8 * w)"
proof -
  from assms obtain i where i: "i < n" "Store x bs \<in> set (line_events m (line + of_nat (64 * i)))"
    by (auto simp: lines_events_def)
  from i(2) obtain w where "w < 8" "x = line + of_nat (64 * i) + of_nat (8 * w)"
    by (auto simp: line_events_def)
  with i(1) show ?thesis by (intro exI [of _ i] conjI exI [of _ w]) (simp_all add: add.assoc)
qed

text \<open>A range is installed exactly once per cache line. When the range does not reach the top of the
  address space, the count returned is the number of 64-byte lines it meets, and the lines written
  are exactly the lines of its bytes.\<close>

theorem install_range_exact:
  assumes "a \<noteq> 0" "sz \<noteq> 0" "unat a + unat sz + 63 < 2 ^ 64"
  shows "\<exists>es n. vortex_cxl_install_range m a sz = Some (es, n) \<and>
    unat n = (unat a + unat sz + 63) div 64 - unat a div 64 \<and>
    {unat x div 64 | x bs. Store x bs \<in> set es} = {unat a div 64 ..< (unat a + unat sz + 63) div 64}"
proof -
  let ?b = "align_down a 64" and ?n = "range_lines a sz"
  have n: "?n = (unat a + unat sz + 63) div 64 - unat a div 64" by (rule range_lines_count [OF assms])
  have top: "64 * (unat a div 64) + 64 * ?n < 2 ^ 64" unfolding n using assms(3) by linarith
  have w: "unat (?b + of_nat (64 * i + 8 * w)) = 64 * (unat a div 64) + 64 * i + 8 * w"
    if "i < ?n" "w < 8" for i w
  proof -
    have "64 * (unat a div 64) + (64 * i + 8 * w) < 2 ^ 64" using top that by linarith
    then have "unat (?b + of_nat (64 * i + 8 * w)) = unat ?b + (64 * i + 8 * w)"
      by (intro unat_sub_add_u64) (simp add: unat_align_down_64)
    then show ?thesis by (simp add: unat_align_down_64)
  qed
  have dv: "(64 * q + 64 * i + 8 * w) div 64 = q + i" if "w < 8" for q i w :: nat
    using that by simp
  have "{unat x div 64 | x bs. Store x bs \<in> set (lines_events m ?b ?n)} = {unat a div 64 ..< unat a div 64 + ?n}"
  proof (intro equalityI subsetI)
    fix l assume "l \<in> {unat x div 64 | x bs. Store x bs \<in> set (lines_events m ?b ?n)}"
    then obtain i v where "i < ?n" "v < 8" "l = unat (?b + of_nat (64 * i + 8 * v)) div 64"
      using lines_events_stores by blast
    then show "l \<in> {unat a div 64 ..< unat a div 64 + ?n}" using w dv by simp
  next
    fix l assume "l \<in> {unat a div 64 ..< unat a div 64 + ?n}"
    then obtain i where i: "i < ?n" "l = unat a div 64 + i" by (metis atLeastLessThan_iff le_Suc_ex nat_add_left_cancel_less)
    have "Store (?b + of_nat (64 * i)) (le_bytes 8 (read64 m (?b + of_nat (64 * i)))) \<in> set (lines_events m ?b ?n)"
    proof -
      have "Store y (le_bytes 8 (read64 m y)) \<in> set (line_events m y)" for y
        by (auto simp: line_events_def image_iff intro!: bexI [of _ 0])
      then show ?thesis using i(1) by (auto simp: lines_events_def intro!: bexI [of _ i])
    qed
    moreover have "unat (?b + of_nat (64 * i)) div 64 = l" using w [of i 0] i by simp
    ultimately show "l \<in> {unat x div 64 | x bs. Store x bs \<in> set (lines_events m ?b ?n)}" by blast
  qed
  moreover have "unat a div 64 + ?n = (unat a + unat sz + 63) div 64" unfolding n by linarith
  moreover have "unat (of_nat ?n :: u64) = ?n" using top by (intro unat_of_nat_u64) linarith
  ultimately show ?thesis
    using assms(1,2) by (simp add: install_range_closed range_events_def n [symmetric])
qed

lemma install_range_exact_witness:
  "\<exists>es n. vortex_cxl_install_range (\<lambda>_. 0) 0x1030 0x20 = Some (es, n) \<and> unat n = 2"
  using install_range_exact [of "0x1030" "0x20" "\<lambda>_. 0"] by auto

text \<open>The write-back of a line is not atomic. A host store into the line between the device's loads
  and its stores is lost: the line ends up with the bytes it had before the host's store.\<close>

theorem install_line_loses_host_store:
  assumes "w < 8"
  shows "run_events (line_events m line) (write64 m (line + of_nat (8 * w)) v) = m"
proof -
  let ?a = "\<lambda>i. line + of_nat (8 * i) :: addr"
  have d: "i \<noteq> w \<Longrightarrow> i < 8 \<Longrightarrow> disjoint_rng (?a w) 8 (?a i) 8" for i
  proof -
    assume i: "i \<noteq> w" "i < 8"
    have u: "unat (of_nat (8 * j) :: u64) = 8 * j" if "j < 8" for j
      using that by (intro unat_of_nat_u64) simp
    show ?thesis
    proof (cases "i < w")
      case True
      then show ?thesis
        by (intro disjoint_off_rev; simp only: u [OF i(2)] u [OF assms]) (use assms in simp_all)
    next
      case False
      then show ?thesis
        by (intro disjoint_off; simp only: u [OF i(2)] u [OF assms]) (use i in simp_all)
    qed
  qed
  have comm: "write_bytes (write64 m (?a w) v) (?a i) (le_bytes 8 (read64 m (?a i))) =
      (if i = w then m else write64 m (?a w) v)" if "i < 8" for i
  proof (cases "i = w")
    case True
    then show ?thesis
      using write_write_same [of "le_bytes 8 v" "le_bytes 8 (read64 m (?a w))" m "?a w"]
      by (simp add: write64_def)
  next
    case False
    have "read64 (write64 m (?a w) v) (?a i) = read64 m (?a i)"
      unfolding write64_def using d [OF False that] by (intro read64_write_other) (simp add: disjoint_rng_sym)
    then show ?thesis using False store_back [of "write64 m (?a w) v" "?a i"] by simp
  qed
  have run: "run_events (map (\<lambda>i. Store (?a i) (le_bytes 8 (read64 m (?a i)))) is) (write64 m (?a w) v) =
      (if w \<in> set is then m else write64 m (?a w) v)" if "\<forall>i \<in> set is. i < 8" for "is"
    using that
  proof (induction "is")
    case (Cons i js)
    have "run_events (map (\<lambda>i. Store (?a i) (le_bytes 8 (read64 m (?a i)))) js) m = m"
      by (intro quiet_run) (auto simp: quiet_def)
    then show ?case using Cons comm [of i] by simp
  qed simp
  show ?thesis using run [of "[0..<8]"] assms by (simp add: line_events_def)
qed

lemma install_line_loses_host_store_witness:
  "run_events (line_events (\<lambda>_. 0) 0x1000) (write64 (\<lambda>_. 0) 0x1000 0xff) = (\<lambda>_. 0)"
  using install_line_loses_host_store [of 0 "\<lambda>_. 0" "0x1000" "0xff"] by simp

lemma read_bytes_keep:
  "disjoint_rng a n c 32 \<Longrightarrow>
     read_bytes (run_events (vortex_cxl_write_completion c status result s cyc) m) a n = read_bytes m a n"
  by (intro run_events_avoids wc_avoids)

text \<open>C15
  The prefetch-chain job gathers the list. With a buffer that meets neither the argument slot nor the
  nodes, and a completion line apart from both, the job visits the first \<open>depth\<close> nodes of the list
  (fewer if it ends), leaves their records in the buffer in list order, and its completion line
  carries SUCCESS and the number of nodes visited.\<close>

theorem chain_job_correct:
  assumes "j = load_chain_job m p" "nodes = chase m (ucast (pj_next_ptr_offset j)) (pj_start_node_addr j) (unat (pj_depth j))"
    and "pj_start_node_addr j \<noteq> 0" "pj_buf_addr j \<noteq> 0" "pj_data_size j \<noteq> 0" "pj_completion_addr j \<noteq> 0"
    and "chain_frame m p nodes"
    and "disjoint_rng (pj_buf_addr j) (unat (pj_data_size j) * length nodes) (pj_completion_addr j) 32"
  shows "\<exists>es. vortex_cxl_run_prefetch_chain m (Some p) start_cycles cyc = Some (CIRA_CXL_STATUS_SUCCESS, es) \<and>
    read_bytes (run_events es m) (pj_buf_addr j) (unat (pj_data_size j) * length nodes) =
      concat (map (\<lambda>a. read_bytes m (a + ucast (pj_data_offset j)) (unat (pj_data_size j))) nodes) \<and>
    load_completion (run_events es m) (pj_completion_addr j) =
      \<lparr>cp_magic = CIRA_CXL_COMPLETION_MAGIC, cp_status = CIRA_CXL_STATUS_SUCCESS, cp_result = of_nat (length nodes),
       cp_cycles = cyc 0 - start_cycles, cp_timestamp = cyc 1\<rparr>"
proof -
  let ?rec = "\<lambda>a. read_bytes m (a + ucast (pj_data_offset j)) (unat (pj_data_size j))"
  let ?buf = "concat (map ?rec nodes)"
  have len: "length ?buf = unat (pj_data_size j) * length nodes" by (rule length_gather)
  have le: "length ?buf \<le> 2 ^ 64"
    unfolding len using assms(7) unfolding chain_frame_def Let_def assms(1) [symmetric] by blast
  from chain_job_gathers [of m p nodes "[]" "pj_start_node_addr j", folded assms(1)] assms(2,4,5,7)
  obtain es where es: "chain_job_loop m p (pj_buf_addr j) (pj_start_node_addr j) 0 = Some (es, of_nat (length nodes))"
    and run: "run_events es m = write_bytes m (pj_buf_addr j) ?buf" by auto
  have j': "load_chain_job (write_bytes m (pj_buf_addr j) ?buf) p = j"
    using chain_job_stays [of m p nodes "[]"] assms(7) by (simp add: assms(1))
  let ?wc = "vortex_cxl_write_completion (pj_completion_addr j) CIRA_CXL_STATUS_SUCCESS (of_nat (length nodes)) start_cycles cyc"
  have "vortex_cxl_run_prefetch_chain m (Some p) start_cycles cyc = Some (CIRA_CXL_STATUS_SUCCESS, es @ ?wc)"
    using assms(3) es by (simp add: vortex_cxl_run_prefetch_chain_def Let_def assms(1) [symmetric] run j')
  moreover have "read_bytes (run_events (es @ ?wc) m) (pj_buf_addr j) (unat (pj_data_size j) * length nodes) = ?buf"
    using read_bytes_keep [OF assms(8)] read_write_same [OF le, of m "pj_buf_addr j"] by (simp add: run len)
  ultimately show ?thesis using written_completion [OF assms(6)] by (intro exI [of _ "es @ ?wc"]) simp
qed

lemma chase_single: "node \<noteq> 0 \<Longrightarrow> 0 < n \<Longrightarrow> read64 m (node + off) = 0 \<Longrightarrow> chase m off node n = [node]"
proof (cases n)
  case (Suc k)
  then show "node \<noteq> 0 \<Longrightarrow> read64 m (node + off) = 0 \<Longrightarrow> ?thesis" by (cases k) auto
qed simp

definition demo_chain :: prefetch_chain_job where
  "demo_chain = \<lparr>pj_start_node_addr = 0x2000, pj_buf_addr = 0x3000, pj_completion_addr = 0x4000, pj_depth = 5,
     pj_next_ptr_offset = 0, pj_data_offset = 8, pj_data_size = 4\<rparr>"

lemma chain_job_correct_witness:
  "\<exists>es. vortex_cxl_run_prefetch_chain (write_bytes (\<lambda>_. 0) 0x1000 (enc_chain_job demo_chain)) (Some 0x1000) 0 (\<lambda>_. 0)
     = Some (CIRA_CXL_STATUS_SUCCESS, es)"
proof -
  let ?m = "write_bytes (\<lambda>_. 0) 0x1000 (enc_chain_job demo_chain)"
  have j: "load_chain_job ?m 0x1000 = demo_chain" by (rule pjob.enc_roundtrip)
  have z: "read_bytes (\<lambda>_. 0) a 8 = replicate 8 0" for a :: addr
    by (rule nth_equalityI) (simp_all add: nth_read_bytes)
  have "length (enc_chain_job demo_chain) = 40" using pjob.enc_length by (simp add: sizeof_defs)
  then have "read64 ?m 0x2000 = 0"
    by (simp add: read64_def read_write_disjoint disjoint_rng_def z le_word_zeros)
  then have n0: "chase ?m 0 0x2000 5 = [0x2000]" by (simp add: chase_single)
  have proj: "pj_next_ptr_offset demo_chain = 0" "pj_start_node_addr demo_chain = 0x2000" "pj_depth demo_chain = 5"
      "pj_buf_addr demo_chain = 0x3000" "pj_completion_addr demo_chain = 0x4000" "pj_data_offset demo_chain = 8"
      "pj_data_size demo_chain = 4"
    by (simp_all add: demo_chain_def)
  have nodes: "chase ?m (ucast (pj_next_ptr_offset demo_chain)) (pj_start_node_addr demo_chain)
      (unat (pj_depth demo_chain)) = [0x2000]"
    using n0 by (simp add: proj)
  show ?thesis
    using chain_job_correct [OF j [symmetric] nodes [symmetric], of 0 "\<lambda>_. 0"]
    by (auto simp: chain_frame_def j proj sizeof_defs disjoint_rng_def Let_def)
qed

text \<open>The stream job gathers the elements. With a buffer that meets neither the argument slot nor the
  elements, and a completion line apart from both, every element of the strided stream is in the
  buffer in order afterwards (a stride of 0 meaning densely packed elements), and the completion
  line carries SUCCESS and the element count.\<close>

theorem stream_job_correct:
  assumes "j = load_stream_job m p"
    and "stride = (if sj_stride j \<noteq> 0 then ucast (sj_stride j) else ucast (sj_elem_size j))"
    and "sj_base_addr j \<noteq> 0" "sj_count j \<noteq> 0" "sj_elem_size j \<noteq> 0" "sj_buf_addr j \<noteq> 0" "sj_completion_addr j \<noteq> 0"
    and "stream_frame m p stride"
    and "disjoint_rng (sj_buf_addr j) (unat (sj_elem_size j) * unat (sj_count j)) (sj_completion_addr j) 32"
  shows "\<exists>es. vortex_cxl_run_stream_prefetch m (Some p) start_cycles cyc = Some (CIRA_CXL_STATUS_SUCCESS, es) \<and>
    read_bytes (run_events es m) (sj_buf_addr j) (unat (sj_elem_size j) * unat (sj_count j)) =
      concat (map (\<lambda>i. read_bytes m (sj_base_addr j + of_nat i * stride) (unat (sj_elem_size j))) [0..<unat (sj_count j)]) \<and>
    load_completion (run_events es m) (sj_completion_addr j) =
      \<lparr>cp_magic = CIRA_CXL_COMPLETION_MAGIC, cp_status = CIRA_CXL_STATUS_SUCCESS, cp_result = sj_count j,
       cp_cycles = cyc 0 - start_cycles, cp_timestamp = cyc 1\<rparr>"
proof -
  let ?buf = "concat (map (stream_rec m j stride) [0..<unat (sj_count j)])"
  have len: "length ?buf = unat (sj_elem_size j) * unat (sj_count j)" by (simp add: length_stream_rec)
  have le: "length ?buf \<le> 2 ^ 64"
    unfolding len using assms(8) unfolding stream_frame_def Let_def assms(1) [symmetric] by blast
  from stream_job_gathers [of m p stride 0, folded assms(1)] assms(6,8)
  obtain es where es: "stream_job_loop m p (sj_base_addr j) (sj_buf_addr j) stride 0 = Some es"
    and run: "run_events es m = write_bytes m (sj_buf_addr j) ?buf" by auto
  have j': "load_stream_job (write_bytes m (sj_buf_addr j) ?buf) p = j"
    using stream_job_stays [OF assms(8), of "unat (sj_count j)"] by (simp add: assms(1))
  let ?wc = "vortex_cxl_write_completion (sj_completion_addr j) CIRA_CXL_STATUS_SUCCESS (sj_count j) start_cycles cyc"
  have "vortex_cxl_run_stream_prefetch m (Some p) start_cycles cyc = Some (CIRA_CXL_STATUS_SUCCESS, es @ ?wc)"
    using assms(3-5) es
    by (simp add: vortex_cxl_run_stream_prefetch_def Let_def assms(1) [symmetric] assms(2) [symmetric] run j')
  moreover have "read_bytes (run_events (es @ ?wc) m) (sj_buf_addr j) (unat (sj_elem_size j) * unat (sj_count j)) = ?buf"
    using read_bytes_keep [OF assms(9)] read_write_same [OF le, of m "sj_buf_addr j"] by (simp add: run len)
  moreover have "stream_rec m j stride = (\<lambda>i. read_bytes m (sj_base_addr j + of_nat i * stride) (unat (sj_elem_size j)))"
    by (rule ext) (simp add: stream_rec_def)
  ultimately show ?thesis
    using written_completion [OF assms(7)] by (intro exI [of _ "es @ ?wc"]) simp
qed

definition demo_stream :: stream_prefetch_job where
  "demo_stream = \<lparr>sj_base_addr = 0x2000, sj_buf_addr = 0x3000, sj_completion_addr = 0x4000, sj_count = 2,
     sj_stride = 0, sj_elem_size = 8, sj_reserved = 0\<rparr>"

lemma stream_job_correct_witness:
  "\<exists>es. vortex_cxl_run_stream_prefetch (write_bytes (\<lambda>_. 0) 0x1000 (enc_stream_job demo_stream)) (Some 0x1000) 0 (\<lambda>_. 0)
     = Some (CIRA_CXL_STATUS_SUCCESS, es)"
proof -
  let ?m = "write_bytes (\<lambda>_. 0) 0x1000 (enc_stream_job demo_stream)"
  have j: "load_stream_job ?m 0x1000 = demo_stream" by (rule sjob.enc_roundtrip)
  have two: "i < 2 \<longleftrightarrow> i = 0 \<or> i = 1" for i :: nat by auto
  have proj: "sj_base_addr demo_stream = 0x2000" "sj_buf_addr demo_stream = 0x3000" "sj_completion_addr demo_stream = 0x4000"
      "sj_count demo_stream = 2" "sj_stride demo_stream = 0" "sj_elem_size demo_stream = 8"
    by (simp_all add: demo_stream_def)
  have "stream_frame ?m 0x1000 8"
    by (auto simp: stream_frame_def j proj sizeof_defs disjoint_rng_def Let_def two)
  then show ?thesis
    using stream_job_correct [OF j [symmetric] refl, of 0 "\<lambda>_. 0"]
    by (auto simp: proj disjoint_rng_def)
qed

end
