(* ===== verification/Protocol.thy ===== *)
theory Protocol
  imports Firmware
begin

text \<open>
  Host and device together: a job submitted by \<^verbatim>\<open>cira_mmio.cpp\<close> is the job the firmware of
  \<^verbatim>\<open>vortex_device.cpp\<close> runs and the host sees reported. The last part lets the two interleave
  store by store and shows that every submission is serviced once, whole and in order.
\<close>

section \<open>Delivery of a submitted job\<close>

lemma valid_job_magic [simp]: "cira_cxl_valid_magic CIRA_CXL_JOB_MAGIC"
  by (simp add: cira_cxl_valid_magic_def)

lemma delivered:
  assumes j: "job_id \<le> CIRA_CXL_JOB_MAX" and l: "arg_len \<le> CIRA_CXL_ARG_PAYLOAD_BYTES"
    and a: "unat arg_len \<le> length payload" "length payload \<le> 2 ^ 64"
    and m1: "m1 = run_events (submit_stores base job_id payload arg_len flags seq) m"
    and db: "db = job_doorbell job_id flags CIRA_CXL_STATUS_RUNNING seq" and b: "base \<noteq> 0"
    and n: "of_nat n \<le> arg_len"
  defines "slot \<equiv> base + cira_cxl_arg_slot_off job_id"
  defines "m2 \<equiv> run_events (running_marks base db) m1"
  shows "load_doorbell m1 base = db"
    and "vortex_cxl_checked_arg n m2 (vortex_cxl_arg_slot base job_id) db = Some (slot + 32)"
    and "read_bytes m2 (slot + 32) (unat arg_len) = take (unat arg_len) payload"
proof -
  note sub = submitted_job [OF j l a m1]
  show "load_doorbell m1 base = db" using sub(1) by (simp add: db)
  have "load_arg_slot m2 slot = job_header job_id seq arg_len"
    using slot_kept(1) [OF j, of base db m1] sub(2) by (simp add: m2_def slot_def)
  then show "vortex_cxl_checked_arg n m2 (vortex_cxl_arg_slot base job_id) db = Some (slot + 32)"
    using j b n
    by (auto simp: vortex_cxl_checked_arg_def vortex_cxl_arg_slot_def CIRA_CXL_JOB_MAX_def not_less
        slot_def [symmetric] Let_def job_header_def db job_doorbell_def vortex_cxl_arg_payload_def sizeof_defs)
  have "unat arg_len \<le> 0x3e0"
    using l by (simp add: CIRA_CXL_ARG_PAYLOAD_BYTES_def window_defs sizeof_defs word_le_nat_alt)
  then show "read_bytes m2 (slot + 32) (unat arg_len) = take (unat arg_len) payload"
    using slot_kept(2) [OF j, of "unat arg_len" base db m1] sub(3) by (simp add: m2_def slot_def)
qed

text \<open>Waiting on a memory that stands still.\<close>

lemma wait_seq_still:
  assumes "in_range (Some win) CIRA_CXL_STATUS_OFF (of_nat sizeof_host_status)"
    and "seq \<le> hs_seq (load_host_status m (w_base win + CIRA_CXL_STATUS_OFF))"
  shows "cira_mmio_wait_seq budget (\<lambda>_. m) clks (Some win) seq timeout_ns =
    Some (if hs_status (load_host_status m (w_base win + CIRA_CXL_STATUS_OFF)) = CIRA_CXL_STATUS_SUCCESS
          then CIRA_MMIO_OK else CIRA_MMIO_EIO)"
proof -
  have "wait_seq_loop budget (\<lambda>_. m) clks (w_base win + CIRA_CXL_STATUS_OFF) seq timeout_ns 0 0 =
    Some (if hs_status (load_host_status m (w_base win + CIRA_CXL_STATUS_OFF)) = CIRA_CXL_STATUS_SUCCESS
          then CIRA_MMIO_OK else CIRA_MMIO_EIO)"
    using assms(2) by (subst wait_seq_loop.simps) (simp add: Let_def load_host_status_def)
  then show ?thesis
    using assms(1) in_range_bounds(1) [OF assms(1)] by (simp add: cira_mmio_wait_seq_def cira_mmio_base_def)
qed

lemma wait_seq_window: "w_base w = w_base win \<Longrightarrow> w_size w = w_size win \<Longrightarrow>
    cira_mmio_wait_seq budget snap clks (Some w) seq t = cira_mmio_wait_seq budget snap clks (Some win) seq t"
  by (simp add: cira_mmio_wait_seq_def cira_mmio_base_def in_range_def)

section \<open>One round trip\<close>

text \<open>Any job that ends with a completion line, run on a freshly submitted doorbell.\<close>

lemma round_trip:
  assumes ok: "submit_ok win job_id (Some payload) arg_len" and a: "unat arg_len \<le> length payload" "length payload \<le> 2 ^ 64"
    and seq: "take_seq win = (seq, win')"
    and m1: "m1 = run_events (submit_stores (w_base win) job_id payload arg_len flags seq) m"
    and db: "db = job_doorbell job_id flags CIRA_CXL_STATUS_RUNNING seq"
    and run: "vortex_cxl_run_job fn cyc (run_events (running_marks (w_base win) db) m1) (w_base win) db = Some (st, ej)"
    and st: "in_range (Some win) CIRA_CXL_STATUS_OFF (of_nat sizeof_host_status)"
  defines "ed \<equiv> running_marks (w_base win) db @ ej @ final_marks (w_base win) db st"
  shows "vortex_cxl_firmware_service_once fn cyc m1 (w_base win) = Some (st, ed)"
    and "cira_mmio_wait_seq budget (\<lambda>_. run_events ed m1) clks (Some win') seq timeout_ns =
      Some (if st = CIRA_CXL_STATUS_SUCCESS then CIRA_MMIO_OK else CIRA_MMIO_EIO)"
proof -
  have b: "w_base win \<noteq> 0" and j: "job_id \<le> CIRA_CXL_JOB_MAX" and l: "arg_len \<le> CIRA_CXL_ARG_PAYLOAD_BYTES"
    using ok by (simp_all add: submit_ok_def)
  have d: "db = load_doorbell m1 (w_base win)"
    using delivered(1) [OF j l a m1 db b, of 0] by simp
  have mg: "cira_cxl_valid_magic (db_magic db)" by (simp add: db job_doorbell_def)
  show "vortex_cxl_firmware_service_once fn cyc m1 (w_base win) = Some (st, ed)"
    unfolding ed_def by (rule service_runs [OF b d mg run])
  have w: "w_base win' = w_base win" "w_size win' = w_size win"
    using seq by (auto simp: take_seq_def Let_def split: if_splits)
  have s: "load_host_status (run_events ed m1) (w_base win + CIRA_CXL_STATUS_OFF) =
    \<lparr>hs_magic = CIRA_CXL_JOB_MAGIC, hs_version = CIRA_CXL_JOB_VERSION, hs_job_id = db_job_id db,
     hs_status = st, hs_seq = db_seq db\<rparr>"
    using b by (simp add: ed_def final_marks_def mirrored_status)
  show "cira_mmio_wait_seq budget (\<lambda>_. run_events ed m1) clks (Some win') seq timeout_ns =
      Some (if st = CIRA_CXL_STATUS_SUCCESS then CIRA_MMIO_OK else CIRA_MMIO_EIO)"
    using wait_seq_still [OF st, of seq "run_events ed m1"]
    by (simp add: wait_seq_window [OF w] s) (simp add: db job_doorbell_def)
qed

text \<open>What the final marks leave alone: anything apart from the window.\<close>

lemma marks_outside:
  assumes "disjoint_rng a n base 0x2000"
  shows "disjoint_rng a n (base + 20) 4" "disjoint_rng a n (base + CIRA_CXL_STATUS_OFF) 32"
  using disjoint_rng_sub [of base "0x2000" a n 20 4] disjoint_rng_sub [of base "0x2000" a n CIRA_CXL_STATUS_OFF 32] assms
  by (simp_all add: disjoint_rng_sym window_defs)

lemma completion_kept:
  assumes "disjoint_rng c 64 base 0x2000"
  shows "load_completion (run_events (final_marks base db st) m) c = load_completion m c"
  using marks_avoid(2) [OF marks_outside [OF assms]]
  by (intro cp.ld_local run_events_avoids) (simp add: sizeof_defs)

section \<open>Properties\<close>

text \<open>An install job makes the whole trip. The firmware, given the memory a successful submission leaves,
  runs exactly that job: it installs the lines of the range, reports their number and SUCCESS in the
  completion line, and the host's wait for the sequence number returns OK.\<close>

theorem install_round_trip:
  assumes "cira_mmio_submit_job (Some win) CIRA_CXL_JOB_INSTALL_CACHELINE (Some (enc_install_job j)) 32 flags
      = (CIRA_MMIO_OK, w', es, Some seq)"
    and "ij_addr j \<noteq> 0" "ij_size j \<noteq> 0" "ij_completion_addr j \<noteq> 0"
    and "disjoint_rng (ij_completion_addr j) 64 (w_base win) 0x2000"
    and "in_range (Some win) CIRA_CXL_STATUS_OFF (of_nat sizeof_host_status)"
    and "m1 = run_events es m"
  shows "\<exists>ed. vortex_cxl_firmware_service_once fn cyc m1 (w_base win) = Some (CIRA_CXL_STATUS_SUCCESS, ed) \<and>
    load_completion (run_events ed m1) (ij_completion_addr j) =
      \<lparr>cp_magic = CIRA_CXL_COMPLETION_MAGIC, cp_status = CIRA_CXL_STATUS_SUCCESS,
       cp_result = of_nat (range_lines (ij_addr j) (ij_size j)), cp_cycles = cyc 1 - cyc 0, cp_timestamp = cyc 2\<rparr> \<and>
    cira_mmio_wait_seq budget (\<lambda>_. run_events ed m1) clks w' seq timeout_ns = Some CIRA_MMIO_OK"
proof -
  let ?base = "w_base win" and ?pl = "enc_install_job j"
  let ?db = "job_doorbell CIRA_CXL_JOB_INSTALL_CACHELINE flags CIRA_CXL_STATUS_RUNNING seq"
  let ?slot = "?base + cira_cxl_arg_slot_off CIRA_CXL_JOB_INSTALL_CACHELINE"
  have pl: "length ?pl = 32" using ijob.enc_length by (simp add: sizeof_defs)
  from assms(1) obtain win' where ok: "submit_ok win CIRA_CXL_JOB_INSTALL_CACHELINE (Some ?pl) 32"
    and ts: "take_seq win = (seq, win')" and w': "w' = Some win'"
    and es: "es = submit_stores ?base CIRA_CXL_JOB_INSTALL_CACHELINE ?pl 32 flags seq"
    by (elim submit_job_OK_cases) auto
  have b: "?base \<noteq> 0" and jl: "CIRA_CXL_JOB_INSTALL_CACHELINE \<le> CIRA_CXL_JOB_MAX" "32 \<le> CIRA_CXL_ARG_PAYLOAD_BYTES"
    using ok by (simp_all add: submit_ok_def)
  have m1: "m1 = run_events (submit_stores ?base CIRA_CXL_JOB_INSTALL_CACHELINE ?pl 32 flags seq) m"
    using assms(7) es by simp
  let ?m2 = "run_events (running_marks ?base ?db) m1"
  note dl = delivered [OF jl _ _ m1 refl b, of sizeof_install_job, simplified pl sizeof_defs, simplified]
  have ld: "load_install_job ?m2 (?slot + 32) = j"
    using dl(3) pl by (intro ijob.ld_of_image) (simp_all add: sizeof_defs)
  let ?wc = "vortex_cxl_write_completion (ij_completion_addr j) CIRA_CXL_STATUS_SUCCESS
      (of_nat (range_lines (ij_addr j) (ij_size j))) (cyc 0) (\<lambda>k. cyc (k + 1))"
  let ?ej = "range_events ?m2 (ij_addr j) (ij_size j) @ ?wc"
  have run: "vortex_cxl_run_job fn cyc ?m2 ?base ?db = Some (CIRA_CXL_STATUS_SUCCESS, ?ej)"
    using dl(2) ld assms(2,3)
    by (simp add: vortex_cxl_run_job_def vortex_cxl_run_install_def install_range_closed Let_def sizeof_defs
        job_doorbell_def job_id_defs)
  let ?ed = "running_marks ?base ?db @ ?ej @ final_marks ?base ?db CIRA_CXL_STATUS_SUCCESS"
  have "load_completion (run_events ?ed m1) (ij_completion_addr j) =
      \<lparr>cp_magic = CIRA_CXL_COMPLETION_MAGIC, cp_status = CIRA_CXL_STATUS_SUCCESS,
       cp_result = of_nat (range_lines (ij_addr j) (ij_size j)), cp_cycles = cyc 1 - cyc 0, cp_timestamp = cyc 2\<rparr>"
    using completion_kept [OF assms(5)] written_completion [OF assms(4)] by (simp add: numeral_2_eq_2)
  moreover have "vortex_cxl_firmware_service_once fn cyc m1 ?base = Some (CIRA_CXL_STATUS_SUCCESS, ?ed)"
    by (rule round_trip(1) [OF ok _ _ ts m1 refl run assms(6)]) (simp_all add: pl)
  moreover have "cira_mmio_wait_seq budget (\<lambda>_. run_events ?ed m1) clks w' seq timeout_ns = Some CIRA_MMIO_OK"
    using round_trip(2) [OF ok _ _ ts m1 refl run assms(6), of budget clks timeout_ns] by (simp add: pl w')
  ultimately show ?thesis by blast
qed

definition demo_install :: install_cacheline_job where
  "demo_install = \<lparr>ij_addr = 0x20000, ij_size = 0x100, ij_completion_addr = 0x30000, ij_cache_level = 3, ij_reserved = 0\<rparr>"

lemma demo_status_in_range: "in_range (Some demo_window) CIRA_CXL_STATUS_OFF (of_nat sizeof_host_status)"
  by (simp add: in_range_def demo_window_def window_defs sizeof_defs)

lemma demo_submit_any:
  "job_id = 1 \<or> job_id = 4 \<Longrightarrow> submit_ok demo_window job_id (Some bs) 32"
  by (auto simp: submit_ok_def demo_window_def in_range_def job_id_defs window_defs sizeof_defs
      CIRA_CXL_ARG_PAYLOAD_BYTES_def cira_cxl_arg_slot_off_def)

lemma install_round_trip_witness:
  "\<exists>m1 ed. vortex_cxl_firmware_service_once (\<lambda>_ _ _ _ _. []) (\<lambda>_. 0) m1 0x10000 = Some (CIRA_CXL_STATUS_SUCCESS, ed) \<and>
     cira_mmio_wait_seq 16 (\<lambda>_. run_events ed m1) (\<lambda>_ _. 0) (Some (demo_window\<lparr>w_next_seq := 2\<rparr>)) 1 0 = Some CIRA_MMIO_OK"
proof -
  have e: "cira_mmio_submit_job (Some demo_window) CIRA_CXL_JOB_INSTALL_CACHELINE (Some (enc_install_job demo_install)) 32 0 =
    (CIRA_MMIO_OK, Some (demo_window\<lparr>w_next_seq := 2\<rparr>),
     submit_stores (w_base demo_window) CIRA_CXL_JOB_INSTALL_CACHELINE (enc_install_job demo_install) 32 0 1, Some 1)"
    using submit_job_ok [OF demo_submit_any demo_take_seq, of CIRA_CXL_JOB_INSTALL_CACHELINE "enc_install_job demo_install" 0]
    by (simp add: job_id_defs)
  have "disjoint_rng 0x30000 64 (0x10000 :: addr) 0x2000" by (simp add: disjoint_rng_def)
  then show ?thesis
    using install_round_trip [OF e _ _ _ _ demo_status_in_range refl, of "\<lambda>_ _ _ _ _. []" "\<lambda>_. 0" "\<lambda>_. 0" 16 "\<lambda>_ _. 0" 0]
    by (auto simp: demo_install_def demo_window_def)
qed

text \<open>A callee that leaves the control window alone leaves the arguments of its own job alone.\<close>

lemma call_job_survives:
  assumes "\<forall>e \<in> set es. avoids base 0x2000 e"
  shows "load_call_job (run_events es m) (base + (cira_cxl_arg_slot_off CIRA_CXL_JOB_CALL + 32)) =
    load_call_job m (base + (cira_cxl_arg_slot_off CIRA_CXL_JOB_CALL + 32))"
proof -
  have "read_bytes (run_events es m) base 0x2000 = read_bytes m base 0x2000"
    using assms by (intro run_events_avoids)
  moreover have "unat (cira_cxl_arg_slot_off CIRA_CXL_JOB_CALL + 32) + 32 \<le> 0x2000"
    by (simp add: cira_cxl_arg_slot_off_def window_defs job_id_defs)
  ultimately have "read_bytes (run_events es m) (base + (cira_cxl_arg_slot_off CIRA_CXL_JOB_CALL + 32)) 32 =
      read_bytes m (base + (cira_cxl_arg_slot_off CIRA_CXL_JOB_CALL + 32)) 32"
    by (rule read_bytes_off_cong)
  then show ?thesis by (intro cjob.ld_local) (simp add: sizeof_defs)
qed

text \<open>C17
  A CALL job makes the whole trip. The firmware calls exactly the function the host named (the
  configured device entry if it named none), with the host's operands, their number and the
  completion line; a callee that keeps out of the control window is reported with SUCCESS and the
  host's wait returns OK. The completion line ends with SUCCESS and result 0 even if the callee
  signalled a status and a result of its own there.\<close>

theorem call_round_trip:
  assumes "cira_mmio_submit_call env g (Some win) func operands num completion = (CIRA_MMIO_OK, w', es, Some seq)"
    and "target = (if func \<noteq> 0 then func else cira_mmio_device_func env g)"
    and "m1 = run_events es m"
    and "\<And>m. \<forall>e \<in> set (fn target operands num completion m). avoids (w_base win) 0x2000 e"
    and "in_range (Some win) CIRA_CXL_STATUS_OFF (of_nat sizeof_host_status)"
  shows "\<exists>pre post. vortex_cxl_firmware_service_once fn cyc m1 (w_base win) =
      Some (CIRA_CXL_STATUS_SUCCESS, pre @ fn target operands num completion (run_events pre m1) @ post) \<and>
    cira_mmio_wait_seq budget (\<lambda>_. run_events (pre @ fn target operands num completion (run_events pre m1) @ post) m1)
      clks w' seq timeout_ns = Some CIRA_MMIO_OK \<and>
    (completion \<noteq> 0 \<and> disjoint_rng completion 64 (w_base win) 0x2000 \<longrightarrow>
     load_completion (run_events (pre @ fn target operands num completion (run_events pre m1) @ post) m1) completion =
       \<lparr>cp_magic = CIRA_CXL_COMPLETION_MAGIC, cp_status = CIRA_CXL_STATUS_SUCCESS, cp_result = 0,
        cp_cycles = cyc 1 - cyc 0, cp_timestamp = cyc 2\<rparr>)"
proof -
  let ?base = "w_base win"
  let ?j = "\<lparr>cj_func_addr = target, cj_operands_addr = operands, cj_completion_addr = completion,
    cj_num_operands = num, cj_reserved = 0\<rparr>"
  let ?pl = "enc_call_job ?j"
  let ?db = "job_doorbell CIRA_CXL_JOB_CALL 0 CIRA_CXL_STATUS_RUNNING seq"
  let ?slot = "?base + cira_cxl_arg_slot_off CIRA_CXL_JOB_CALL"
  have pl: "length ?pl = 32" using cjob.enc_length by (simp add: sizeof_defs)
  from assms(1) have t: "target \<noteq> 0"
    and sub: "cira_mmio_submit_job (Some win) CIRA_CXL_JOB_CALL (Some ?pl) 32 0 = (CIRA_MMIO_OK, w', es, Some seq)"
    unfolding cira_mmio_submit_call_def Let_def assms(2) [symmetric] by (auto simp: sizeof_defs split: if_splits)
  then obtain win' where ok: "submit_ok win CIRA_CXL_JOB_CALL (Some ?pl) 32"
    and ts: "take_seq win = (seq, win')" and w': "w' = Some win'"
    and es: "es = submit_stores ?base CIRA_CXL_JOB_CALL ?pl 32 0 seq"
    by (elim submit_job_OK_cases) auto
  have b: "?base \<noteq> 0" and jl: "CIRA_CXL_JOB_CALL \<le> CIRA_CXL_JOB_MAX" "32 \<le> CIRA_CXL_ARG_PAYLOAD_BYTES"
    using ok by (simp_all add: submit_ok_def)
  have m1: "m1 = run_events (submit_stores ?base CIRA_CXL_JOB_CALL ?pl 32 0 seq) m"
    using assms(3) es by simp
  let ?m2 = "run_events (running_marks ?base ?db) m1"
  let ?ef = "fn target operands num completion ?m2"
  note dl = delivered [OF jl _ _ m1 refl b, of sizeof_call_job, simplified pl sizeof_defs, simplified]
  have ld: "load_call_job ?m2 (?slot + 32) = ?j"
    using dl(3) pl by (intro cjob.ld_of_image) (simp_all add: sizeof_defs)
  have ld': "load_call_job (run_events ?ef ?m2) (?slot + 32) = ?j"
    using call_job_survives [of ?ef ?base ?m2] assms(4) ld by (simp add: add.assoc)
  let ?wc = "vortex_cxl_write_completion completion CIRA_CXL_STATUS_SUCCESS 0 (cyc 0) (\<lambda>k. cyc (k + 1))"
  have run: "vortex_cxl_run_job fn cyc ?m2 ?base ?db = Some (CIRA_CXL_STATUS_SUCCESS, ?ef @ ?wc)"
    using dl(2) ld ld' t
    by (simp add: vortex_cxl_run_job_def vortex_cxl_run_call_def Let_def sizeof_defs job_doorbell_def job_id_defs)
  let ?fin = "final_marks ?base ?db CIRA_CXL_STATUS_SUCCESS"
  have "vortex_cxl_firmware_service_once fn cyc m1 ?base =
      Some (CIRA_CXL_STATUS_SUCCESS, running_marks ?base ?db @ (?ef @ ?wc) @ ?fin)"
    by (rule round_trip(1) [OF ok _ _ ts m1 refl run assms(5)]) (simp_all add: pl)
  moreover have "cira_mmio_wait_seq budget (\<lambda>_. run_events (running_marks ?base ?db @ (?ef @ ?wc) @ ?fin) m1) clks w' seq timeout_ns
      = Some CIRA_MMIO_OK"
    using round_trip(2) [OF ok _ _ ts m1 refl run assms(5), of budget clks timeout_ns] by (simp add: pl w')
  moreover have "load_completion (run_events (running_marks ?base ?db @ (?ef @ ?wc) @ ?fin) m1) completion =
      \<lparr>cp_magic = CIRA_CXL_COMPLETION_MAGIC, cp_status = CIRA_CXL_STATUS_SUCCESS, cp_result = 0,
       cp_cycles = cyc 1 - cyc 0, cp_timestamp = cyc 2\<rparr>" if "completion \<noteq> 0" "disjoint_rng completion 64 ?base 0x2000"
    using completion_kept [OF that(2)] written_completion [OF that(1)] by (simp add: numeral_2_eq_2)
  ultimately show ?thesis
    by (intro exI [of _ "running_marks ?base ?db"] exI [of _ "?wc @ ?fin"]) simp
qed

lemma call_round_trip_witness:
  "\<exists>m1 es. vortex_cxl_firmware_service_once
      (\<lambda>f ops n c m. cira_mmio_signal_completion c 5 42) (\<lambda>_. 0) m1 0x10000 = Some (CIRA_CXL_STATUS_SUCCESS, es) \<and>
     cp_result (load_completion (run_events es m1) 0x30000) = 0"
proof -
  let ?fn = "\<lambda>f ops n c m. cira_mmio_signal_completion c 5 42"
  let ?j = "\<lparr>cj_func_addr = 0x400000, cj_operands_addr = 0, cj_completion_addr = 0x30000, cj_num_operands = 0, cj_reserved = 0\<rparr>"
  have e: "cira_mmio_submit_call (\<lambda>_. None) \<lparr>g_default_window = None, g_default_probed = False, g_device_func = 0\<rparr>
      (Some demo_window) 0x400000 0 0 0x30000 = (CIRA_MMIO_OK, Some (demo_window\<lparr>w_next_seq := 2\<rparr>),
     submit_stores (w_base demo_window) CIRA_CXL_JOB_CALL (enc_call_job ?j) 32 0 1, Some 1)"
    using submit_job_ok [OF demo_submit_any demo_take_seq, of CIRA_CXL_JOB_CALL "enc_call_job ?j" 0]
    by (simp add: job_id_defs cira_mmio_submit_call_def sizeof_defs)
  have d: "disjoint_rng 0x30000 64 (0x10000 :: addr) 0x2000" by (simp add: disjoint_rng_def)
  have "\<forall>ev \<in> set (?fn 0x400000 0 0 0x30000 m). avoids (w_base demo_window) 0x2000 ev" for m
    by (simp add: cira_mmio_signal_completion_def signal_pre_def demo_window_def disjoint_rng_def)
  from call_round_trip [OF e refl refl _ demo_status_in_range, of ?fn "\<lambda>_. 0" "\<lambda>_. 0" 16 "\<lambda>_ _. 0" 0] this d
  show ?thesis by (fastforce simp: demo_window_def)
qed

text \<open>A running job is reported as failed. The firmware mirrors RUNNING with the job's sequence number
  before it runs the job, and the host's wait takes any status line whose number has arrived as
  final: a wait that looks in between returns EIO for a job the device goes on to finish with
  SUCCESS, as a wait after the last store confirms.\<close>

theorem running_job_reported_as_error:
  assumes "vortex_cxl_firmware_service_once fn cyc m (w_base win) = Some (CIRA_CXL_STATUS_SUCCESS, es)"
    and "cira_cxl_valid_magic (db_magic (load_doorbell m (w_base win)))"
    and "in_range (Some win) CIRA_CXL_STATUS_OFF (of_nat sizeof_host_status)"
    and "seq = db_seq (load_doorbell m (w_base win))"
  shows "\<exists>k < length es.
    cira_mmio_wait_seq budget (\<lambda>_. run_events (take k es) m) clks (Some win) seq timeout_ns = Some CIRA_MMIO_EIO \<and>
    cira_mmio_wait_seq budget (\<lambda>_. run_events es m) clks (Some win) seq timeout_ns = Some CIRA_MMIO_OK"
proof -
  let ?base = "w_base win" and ?db = "load_doorbell m (w_base win)"
  have b: "?base \<noteq> 0" by (rule in_range_bounds(1) [OF assms(3)])
  from assms(1,2) b obtain ej where es: "es = running_marks ?base ?db @ ej @ final_marks ?base ?db CIRA_CXL_STATUS_SUCCESS"
    by (elim service_cases)
  let ?k = "length (running_marks ?base ?db)"
  have "load_host_status (run_events (running_marks ?base ?db) m) (?base + CIRA_CXL_STATUS_OFF) =
      \<lparr>hs_magic = CIRA_CXL_JOB_MAGIC, hs_version = CIRA_CXL_JOB_VERSION, hs_job_id = db_job_id ?db,
       hs_status = CIRA_CXL_STATUS_RUNNING, hs_seq = db_seq ?db\<rparr>"
    using b by (simp add: running_marks_def mirrored_status)
  then have "cira_mmio_wait_seq budget (\<lambda>_. run_events (take ?k es) m) clks (Some win) seq timeout_ns = Some CIRA_MMIO_EIO"
    using wait_seq_still [OF assms(3), of seq "run_events (take ?k es) m"]
    by (simp add: es assms(4) status_defs)
  moreover have "load_host_status (run_events es m) (?base + CIRA_CXL_STATUS_OFF) =
      \<lparr>hs_magic = CIRA_CXL_JOB_MAGIC, hs_version = CIRA_CXL_JOB_VERSION, hs_job_id = db_job_id ?db,
       hs_status = CIRA_CXL_STATUS_SUCCESS, hs_seq = db_seq ?db\<rparr>"
    using b by (simp add: es final_marks_def mirrored_status)
  then have "cira_mmio_wait_seq budget (\<lambda>_. run_events es m) clks (Some win) seq timeout_ns = Some CIRA_MMIO_OK"
    using wait_seq_still [OF assms(3), of seq "run_events es m"] by (simp add: assms(4) status_defs)
  moreover have "?k < length es" by (simp add: es final_marks_def)
  ultimately show ?thesis by blast
qed

lemma running_job_reported_as_error_witness:
  "\<exists>es k. cira_mmio_wait_seq 16 (\<lambda>_. run_events (take k es) (write_bytes (\<lambda>_. 0) 0x10000 (enc_doorbell (job_doorbell 0 0 0 7))))
      (\<lambda>_ _. 0) (Some demo_window) 7 0 = Some CIRA_MMIO_EIO"
proof -
  let ?m = "write_bytes (\<lambda>_. 0) 0x10000 (enc_doorbell (job_doorbell 0 0 0 7))"
  have d: "load_doorbell ?m (w_base demo_window) = job_doorbell 0 0 0 7"
    by (simp only: demo_window_def window.simps) (rule db.enc_roundtrip)
  have mg: "cira_cxl_valid_magic (db_magic (load_doorbell ?m (w_base demo_window)))"
    by (simp add: d) (simp add: job_doorbell_def)
  have r: "vortex_cxl_run_job (\<lambda>_ _ _ _ _. []) (\<lambda>_. 0) m' b (job_doorbell 0 0 0 7) = Some (CIRA_CXL_STATUS_SUCCESS, [])" for m' b
    by (simp add: vortex_cxl_run_job_def job_doorbell_def job_id_defs)
  have "w_base demo_window \<noteq> 0" by (simp add: demo_window_def)
  from service_runs [OF this refl mg, of "\<lambda>_ _ _ _ _. []" "\<lambda>_. 0", unfolded d, OF r] obtain es where
    "vortex_cxl_firmware_service_once (\<lambda>_ _ _ _ _. []) (\<lambda>_. 0) ?m (w_base demo_window) = Some (CIRA_CXL_STATUS_SUCCESS, es)"
    by blast
  from running_job_reported_as_error [OF this mg demo_status_in_range refl, of 16 "\<lambda>_ _. 0" 0]
  show ?thesis by (auto simp: d) (auto simp: job_doorbell_def)
qed

text \<open>The device library's own submit path can tear. It stores the doorbell byte by byte, so going from
  sequence number 255 to 256 the doorbell passes through 0: a firmware polling between two of its
  stores sees a number nobody submitted. (The host path of \<open>submit_never_torn\<close> stores whole words.)\<close>

theorem device_submit_tears:
  assumes "control \<noteq> 0" "job_id \<noteq> CIRA_CXL_JOB_NOP" "job_id \<le> CIRA_CXL_JOB_CALL"
    and "read64 m (control + 24) = 0xff"
  shows "\<exists>es k. vortex_cxl_submit_job_mmio control job_id None 0 0x100 flags next_seq = (VORTEX_SUCCESS, es, next_seq) \<and>
    read64 (run_events (take k es) m) (control + 24) = 0"
proof -
  have j: "job_id \<le> CIRA_CXL_JOB_MAX" using assms(3) by (simp add: CIRA_CXL_JOB_MAX_def)
  let ?slot = "control + cira_cxl_arg_slot_off job_id" and ?f = "control + 24"
  let ?img = "enc_doorbell (job_doorbell job_id flags 0 0x100)"
  let ?hdr = "vortex_cxl_store_bytes ?slot (enc_arg_slot (job_header job_id 0x100 0)) 32"
  define put where "put off = Store (control + of_nat off) (take 1 (drop off ?img))" for off
  let ?es = "?hdr @ [Fence] @ map put [0..<32] @ [Fence]"
  have sub: "vortex_cxl_submit_job_mmio control job_id None 0 0x100 flags next_seq = (VORTEX_SUCCESS, ?es, next_seq)"
    using assms(1-3)
    by (simp add: vortex_cxl_submit_job_mmio_def commit_seq_def vortex_cxl_arg_slot_def CIRA_CXL_DOORBELL_OFF_def
        sizeof_defs vortex_cxl_store_bytes_def not_less put_def)
  let ?pre = "?hdr @ [Fence] @ map put [0..<24]"
  have "[0..<32] = [0..<24] @ 24 # [25..<32::nat]" by code_simp
  then have "map put [0..<32] = map put [0..<24] @ put 24 # map put [25..<32]" by simp
  then have split: "?es = (?pre @ [put 24]) @ map put [25..<32] @ [Fence]" by simp
  have tk: "take (length (?pre @ [put 24])) ?es = ?pre @ [put 24]"
    unfolding split by (rule append_eq_conv_conj [THEN iffD1, THEN conjunct1, symmetric, OF refl])
  have b24: "take 1 (drop 24 ?img) = [0]"
    by (simp add: enc_doorbell_def job_doorbell_def le_bytes_def upt_conv_Cons)
  have h32: "length (enc_arg_slot x) = 32" for x using slot.enc_length by (simp add: sizeof_defs)
  have "avoids ?f 8 (Store (?slot + of_nat off) (take 1 (drop off (enc_arg_slot (job_header job_id 0x100 0)))))"
    if "off < 32" for off
  proof -
    have "length (take 1 (drop off (enc_arg_slot (job_header job_id 0x100 0)))) = 1" using that by (simp add: h32)
    then show ?thesis using slot_doorbell_disjoint [OF j, of off 1 24 8 control] that by simp
  qed
  then have hdr: "\<forall>e \<in> set ?hdr. avoids ?f 8 e" by (auto simp: vortex_cxl_store_bytes_def)
  have low: "\<forall>e \<in> set (map put [0..<24]). avoids ?f 8 e"
  proof -
    have "disjoint_rng ?f 8 (control + of_nat off) k" if "off < 24" "k \<le> 1" for off k
      using disjoint_off_rev [of "of_nat off" k 24 8 control] that by (simp add: unat_of_nat_u64)
    then show ?thesis by (auto simp: put_def)
  qed
  define mm where "mm = run_events ?pre m"
  have "read_bytes mm ?f 8 = read_bytes m ?f 8" unfolding mm_def using hdr low by (intro run_events_avoids) auto
  moreover have "read_bytes m ?f 8 = le_bytes 8 (0xff :: u64)" using assms(4) le_bytes_le_word [of "read_bytes m ?f 8" 8, where 'a = 64] by (simp add: read64_def)
  ultimately have old: "read_bytes mm ?f 8 = [0xff, 0, 0, 0, 0, 0, 0, 0]"
    by (simp add: le_bytes_def upt_conv_Cons)
  have "read_bytes (write_bytes mm ?f [0]) ?f 8 = 0 # read_bytes (write_bytes mm ?f [0]) (?f + 1) 7"
    using read_bytes_append [of "write_bytes mm ?f [0]" ?f 1 7] read_write_same [of "[0]" mm ?f] by simp
  also have "read_bytes (write_bytes mm ?f [0]) (?f + 1) 7 = read_bytes mm (?f + 1) 7"
    using disjoint_off_rev [of 0 1 1 7 ?f] by (intro read_write_disjoint) simp
  also have "read_bytes mm (?f + 1) 7 = replicate 7 0"
  proof -
    have "replicate 7 (0 :: u8) = [0, 0, 0, 0, 0, 0, 0]" by code_simp
    then show ?thesis using read_bytes_sub [of 1 7 8 mm ?f] unfolding old by simp
  qed
  also have "0 # replicate 7 (0 :: u8) = replicate 8 0" by code_simp
  finally have z: "read_bytes (write_bytes mm ?f [0]) ?f 8 = replicate 8 0" .
  have "run_events (take (length (?pre @ [put 24])) ?es) m = run_event (put 24) mm"
    unfolding tk mm_def by (simp only: run_events_append run_events.simps)
  also have "\<dots> = write_bytes mm ?f [0]" by (simp only: put_def b24 run_event.simps) simp
  finally have "read64 (run_events (take (length (?pre @ [put 24])) ?es) m) ?f = 0"
    by (simp only: read64_def z le_word_zeros)
  then show ?thesis using sub by blast
qed

lemma device_submit_tears_witness:
  "\<exists>es k. read64 (run_events (take k es) (write_bytes (\<lambda>_. 0) 0x10018 (le_bytes 8 (0xff :: u64)))) 0x10018 = 0"
proof -
  have "read64 (write_bytes (\<lambda>_. 0) 0x10018 (le_bytes 8 (0xff :: u64))) (0x10000 + 24) = 0xff"
    using read_write64_same [of "\<lambda>_. 0" "0x10018" "0xff"] by simp
  from device_submit_tears [of "0x10000" CIRA_CXL_JOB_INSTALL_CACHELINE, OF _ _ _ this]
  show ?thesis by (simp add: job_id_defs) blast
qed

section \<open>Host and firmware interleaved\<close>

text \<open>
  The system: memory, the host's window, the stores the host's submission in progress still has to
  make, and the firmware's \<open>last_seq\<close>. \<open>y_sent\<close> and \<open>y_served\<close> record what the host submitted and
  what the firmware saw when it serviced a doorbell: the doorbell and the payload of its slot.
\<close>

type_synonym job_view = "doorbell \<times> u8 list"

record sys =
  y_mem :: mem
  y_win :: window
  y_todo :: "event list"
  y_last :: u64
  y_sent :: "job_view list"
  y_served :: "job_view list"

definition seen_job :: "mem \<Rightarrow> addr \<Rightarrow> job_view" where
  "seen_job m base =
     (let db = load_doorbell m base; slot = base + cira_cxl_arg_slot_off (db_job_id db) in
      (db, read_bytes m (slot + 32) (unat (as_arg_len (load_arg_slot m slot)))))"

text \<open>The host's obligation on a job: run by the firmware, it keeps out of the control window.\<close>

definition job_confined :: "callee \<Rightarrow> (nat \<Rightarrow> u64) \<Rightarrow> addr \<Rightarrow> doorbell \<Rightarrow> event list \<Rightarrow> bool" where
  "job_confined fn cyc base db es \<longleftrightarrow>
     (\<forall>m st ej. vortex_cxl_run_job fn cyc (run_events (running_marks base db) (run_events es m)) base db = Some (st, ej)
        \<longrightarrow> (\<forall>e \<in> set ej. avoids base 0x2000 e))"

text \<open>
  The steps, in any order: the host starts a submission when its previous one has been serviced,
  makes its next store, or the firmware goes once round its loop, idly or servicing a doorbell.
\<close>

inductive sys_step :: "callee \<Rightarrow> (nat \<Rightarrow> u64) \<Rightarrow> sys \<Rightarrow> sys \<Rightarrow> bool" for fn cyc where
  submit: "y_todo s = [] \<Longrightarrow> length (y_served s) = length (y_sent s) \<Longrightarrow>
     cira_mmio_submit_job (Some (y_win s)) job_id (Some payload) arg_len flags = (CIRA_MMIO_OK, Some win', es, Some seq) \<Longrightarrow>
     unat arg_len \<le> length payload \<Longrightarrow> length payload \<le> 2 ^ 64 \<Longrightarrow>
     db = job_doorbell job_id flags CIRA_CXL_STATUS_RUNNING seq \<Longrightarrow>
     job_confined fn cyc (w_base (y_win s)) db es \<Longrightarrow>
     sys_step fn cyc s (s\<lparr>y_win := win', y_todo := es, y_sent := y_sent s @ [(db, take (unat arg_len) payload)]\<rparr>)"
| host_store: "y_todo s = e # es \<Longrightarrow> sys_step fn cyc s (s\<lparr>y_mem := run_event e (y_mem s), y_todo := es\<rparr>)"
| idle_round: "firmware_round fn cyc (w_base (y_win s)) (y_last s) (y_mem s) = Some (last', None) \<Longrightarrow>
     sys_step fn cyc s (s\<lparr>y_last := last'\<rparr>)"
| service_round: "firmware_round fn cyc (w_base (y_win s)) (y_last s) (y_mem s) = Some (last', Some (st, ed)) \<Longrightarrow>
     sys_step fn cyc s (s\<lparr>y_mem := run_events ed (y_mem s), y_last := last',
       y_served := y_served s @ [seen_job (y_mem s) (w_base (y_win s))]\<rparr>)"

inductive_cases sys_stepE: "sys_step fn cyc s s'"

inductive reachable :: "callee \<Rightarrow> (nat \<Rightarrow> u64) \<Rightarrow> sys \<Rightarrow> bool" for fn cyc where
  start: "w_next_seq win = 1 \<Longrightarrow> read64 m (w_base win + 24) = 0 \<Longrightarrow>
     reachable fn cyc \<lparr>y_mem = m, y_win = win, y_todo = [], y_last = 0, y_sent = [], y_served = []\<rparr>"
| step: "reachable fn cyc s \<Longrightarrow> sys_step fn cyc s s' \<Longrightarrow> reachable fn cyc s'"

text \<open>
  The invariant has two phases. Quiet: everything sent was served and the doorbell carries the
  number last serviced; at most fences are left to store. Submitting: the last job sent is being
  stored, and the device sees either the old number or the whole job.
\<close>

definition quiet_phase :: "sys \<Rightarrow> bool" where
  "quiet_phase s \<longleftrightarrow> (\<forall>e \<in> set (y_todo s). e = Fence) \<and> y_served s = y_sent s \<and>
     read64 (y_mem s) (w_base (y_win s) + 24) = y_last s \<and> w_next_seq (y_win s) = y_last s + 1"

definition submit_phase :: "callee \<Rightarrow> (nat \<Rightarrow> u64) \<Rightarrow> sys \<Rightarrow> bool" where
  "submit_phase fn cyc s \<longleftrightarrow>
     (\<exists>job_id payload arg_len flags seq m k.
        let base = w_base (y_win s); es = submit_stores base job_id payload arg_len flags seq;
            db = job_doorbell job_id flags CIRA_CXL_STATUS_RUNNING seq in
        base \<noteq> 0 \<and> job_id \<le> CIRA_CXL_JOB_MAX \<and> arg_len \<le> CIRA_CXL_ARG_PAYLOAD_BYTES \<and>
        unat arg_len \<le> length payload \<and> length payload \<le> 2 ^ 64 \<and> job_confined fn cyc base db es \<and>
        y_mem s = run_events (take k es) m \<and> y_todo s = drop k es \<and>
        read64 m (base + 24) = y_last s \<and> seq \<noteq> y_last s \<and> w_next_seq (y_win s) = seq + 1 \<and>
        y_sent s = y_served s @ [(db, take (unat arg_len) payload)])"

definition sys_inv :: "callee \<Rightarrow> (nat \<Rightarrow> u64) \<Rightarrow> sys \<Rightarrow> bool" where
  "sys_inv fn cyc s \<longleftrightarrow> quiet_phase s \<or> submit_phase fn cyc s"


lemma avoids_sub: "avoids a n e \<Longrightarrow> unat p + i \<le> n \<Longrightarrow> n \<le> 2 ^ 64 \<Longrightarrow> avoids (a + p) i e"
  by (cases e) (auto intro: disjoint_rng_sub)

lemma seq_word_keeps:
  assumes "\<forall>e \<in> set ej. avoids base 0x2000 e"
  shows "read64 (run_events (running_marks base db @ ej @ final_marks base db st) m) (base + 24) = read64 m (base + 24)"
proof -
  have "disjoint_rng (base + 24) 8 (base + 20) 4" "disjoint_rng (base + 24) 8 (base + CIRA_CXL_STATUS_OFF) 32"
    using disjoint_off_rev [of 20 4 24 8 base] disjoint_off [of 24 8 CIRA_CXL_STATUS_OFF 32 base]
    by (simp_all add: window_defs)
  from marks_avoid [OF this] assms have "\<forall>e \<in> set (running_marks base db @ ej @ final_marks base db st). avoids (base + 24) 8 e"
    by (auto intro: avoids_sub)
  then show ?thesis by (simp add: read64_def run_events_avoids)
qed

lemma round_idle: "firmware_round fn cyc base l m = Some (l', None) \<Longrightarrow> l' = l"
  by (auto simp: firmware_round_def Let_def split: if_splits)

lemma round_service:
  assumes "firmware_round fn cyc base l m = Some (l', Some (st, ed))"
  shows "read64 m (base + 24) \<noteq> l \<and> l' = read64 m (base + 24) \<and>
    cira_cxl_valid_magic (db_magic (load_doorbell m base)) \<and>
    vortex_cxl_firmware_service_once fn cyc m base = Some (st, ed)"
  using assms
  by (auto simp: firmware_round_def Let_def CIRA_CXL_DOORBELL_OFF_def load_doorbell_def split: if_splits)

lemma inv_submit:
  assumes inv: "sys_inv fn cyc s" and idle: "y_todo s = []" "length (y_served s) = length (y_sent s)"
    and sub: "cira_mmio_submit_job (Some (y_win s)) job_id (Some payload) arg_len flags = (CIRA_MMIO_OK, Some win', es, Some seq)"
    and a: "unat arg_len \<le> length payload" "length payload \<le> 2 ^ 64"
    and db: "db = job_doorbell job_id flags CIRA_CXL_STATUS_RUNNING seq"
    and c: "job_confined fn cyc (w_base (y_win s)) db es"
  shows "sys_inv fn cyc (s\<lparr>y_win := win', y_todo := es, y_sent := y_sent s @ [(db, take (unat arg_len) payload)]\<rparr>)"
proof -
  have q: "quiet_phase s" using inv idle(2) by (auto simp: sys_inv_def submit_phase_def Let_def)
  from sub obtain win1 where ok: "submit_ok (y_win s) job_id (Some payload) arg_len"
    and ts: "take_seq (y_win s) = (seq, win')"
    and es: "es = submit_stores (w_base (y_win s)) job_id payload arg_len flags seq"
    by (elim submit_job_OK_cases) auto
  have b: "w_base win' = w_base (y_win s)" using ts by (auto simp: take_seq_def Let_def split: if_splits)
  have "y_last s + 1 = 0 \<Longrightarrow> y_last s \<noteq> 1" by auto
  then have "seq \<noteq> y_last s" "w_next_seq win' = seq + 1"
    using take_seq_props [OF ts] q by (auto simp: quiet_phase_def)
  then have "submit_phase fn cyc (s\<lparr>y_win := win', y_todo := es, y_sent := y_sent s @ [(db, take (unat arg_len) payload)]\<rparr>)"
    unfolding submit_phase_def
    using ok a c q b
    by (intro exI [of _ job_id] exI [of _ payload] exI [of _ arg_len] exI [of _ flags] exI [of _ seq]
        exI [of _ "y_mem s"] exI [of _ 0]) (auto simp: Let_def es db submit_ok_def quiet_phase_def)
  then show ?thesis by (simp add: sys_inv_def)
qed

lemma inv_store:
  assumes inv: "sys_inv fn cyc s" and todo: "y_todo s = e # es'"
  shows "sys_inv fn cyc (s\<lparr>y_mem := run_event e (y_mem s), y_todo := es'\<rparr>)"
proof (cases "quiet_phase s")
  case True
  then have "e = Fence" "\<forall>e \<in> set es'. e = Fence" using todo by (auto simp: quiet_phase_def)
  then show ?thesis using True by (simp add: sys_inv_def quiet_phase_def)
next
  case False
  then obtain job_id payload arg_len flags seq m k where
    p: "let base = w_base (y_win s); es = submit_stores base job_id payload arg_len flags seq;
            db = job_doorbell job_id flags CIRA_CXL_STATUS_RUNNING seq in
        base \<noteq> 0 \<and> job_id \<le> CIRA_CXL_JOB_MAX \<and> arg_len \<le> CIRA_CXL_ARG_PAYLOAD_BYTES \<and>
        unat arg_len \<le> length payload \<and> length payload \<le> 2 ^ 64 \<and> job_confined fn cyc base db es \<and>
        y_mem s = run_events (take k es) m \<and> y_todo s = drop k es \<and>
        read64 m (base + 24) = y_last s \<and> seq \<noteq> y_last s \<and> w_next_seq (y_win s) = seq + 1 \<and>
        y_sent s = y_served s @ [(db, take (unat arg_len) payload)]"
    using inv by (auto simp: sys_inv_def submit_phase_def)
  let ?es = "submit_stores (w_base (y_win s)) job_id payload arg_len flags seq"
  have d: "drop k ?es = e # es'" using p todo by (simp add: Let_def)
  then have k: "k < length ?es" by (metis drop_eq_Nil2 linorder_not_le list.distinct(1))
  with d have nx: "e = ?es ! k" "es' = drop (Suc k) ?es"
    by (simp_all add: Cons_nth_drop_Suc [symmetric] del: Cons_nth_drop_Suc)
  have "run_event e (run_events (take k ?es) m) = run_events (take (Suc k) ?es) m"
    using k by (simp add: nx(1) take_Suc_conv_app_nth)
  then have "submit_phase fn cyc (s\<lparr>y_mem := run_event e (y_mem s), y_todo := es'\<rparr>)"
    unfolding submit_phase_def
    using p by (intro exI [of _ job_id] exI [of _ payload] exI [of _ arg_len] exI [of _ flags] exI [of _ seq]
        exI [of _ m] exI [of _ "Suc k"]) (simp add: Let_def nx(2))
  then show ?thesis by (simp add: sys_inv_def)
qed

lemma inv_service:
  assumes inv: "sys_inv fn cyc s"
    and fr: "firmware_round fn cyc (w_base (y_win s)) (y_last s) (y_mem s) = Some (last', Some (st, ed))"
  shows "sys_inv fn cyc (s\<lparr>y_mem := run_events ed (y_mem s), y_last := last',
       y_served := y_served s @ [seen_job (y_mem s) (w_base (y_win s))]\<rparr>)"
proof -
  let ?b = "w_base (y_win s)"
  note r = round_service [OF fr]
  have "\<not> quiet_phase s" using r by (auto simp: quiet_phase_def)
  then obtain job_id payload arg_len flags seq m k where
    p: "let base = w_base (y_win s); es = submit_stores base job_id payload arg_len flags seq;
            db = job_doorbell job_id flags CIRA_CXL_STATUS_RUNNING seq in
        base \<noteq> 0 \<and> job_id \<le> CIRA_CXL_JOB_MAX \<and> arg_len \<le> CIRA_CXL_ARG_PAYLOAD_BYTES \<and>
        unat arg_len \<le> length payload \<and> length payload \<le> 2 ^ 64 \<and> job_confined fn cyc base db es \<and>
        y_mem s = run_events (take k es) m \<and> y_todo s = drop k es \<and>
        read64 m (base + 24) = y_last s \<and> seq \<noteq> y_last s \<and> w_next_seq (y_win s) = seq + 1 \<and>
        y_sent s = y_served s @ [(db, take (unat arg_len) payload)]"
    using inv by (auto simp: sys_inv_def submit_phase_def)
  let ?es = "submit_stores ?b job_id payload arg_len flags seq"
  let ?db = "job_doorbell job_id flags CIRA_CXL_STATUS_RUNNING seq"
  let ?pre = "submit_pre ?b job_id payload arg_len flags seq"
  have j: "job_id \<le> CIRA_CXL_JOB_MAX" "arg_len \<le> CIRA_CXL_ARG_PAYLOAD_BYTES" "unat arg_len \<le> length payload"
      "length payload \<le> 2 ^ 64" "?b \<noteq> 0" and mem: "y_mem s = run_events (take k ?es) m"
    and old: "read64 m (?b + 24) = y_last s" and todo: "y_todo s = drop k ?es"
    using p by (simp_all add: Let_def)
  note pub = submit_publication [OF j(1,2), of ?b payload flags seq]
  have "\<not> k \<le> length ?pre"
  proof
    assume "k \<le> length ?pre"
    from publication.prefix_unannounced [OF pub this, of m] mem old r show False
      by (simp add: read64_def submit_stores_split)
  qed
  then have k: "length ?pre < k" by simp
  have full: "y_mem s = run_events ?es m"
    using publication.prefix_complete [OF pub k, of m] mem by (simp add: submit_stores_split)
  have "drop k ?es = drop (k - Suc (length ?pre)) [Fence]" using k by (simp add: submit_stores_split drop_Cons')
  then have f: "\<forall>e \<in> set (y_todo s). e = Fence" using todo by (auto dest: in_set_dropD)
  note sub = submitted_job [OF j(1-4) full]
  have db: "load_doorbell (y_mem s) ?b = ?db" by (rule sub(1))
  have mg: "cira_cxl_valid_magic (db_magic (load_doorbell (y_mem s) ?b))" using r by blast
  obtain ej where ed: "ed = running_marks ?b ?db @ ej @ final_marks ?b ?db st"
    and run: "vortex_cxl_run_job fn cyc (run_events (running_marks ?b ?db) (y_mem s)) ?b ?db = Some (st, ej)"
    using service_cases [OF _ j(5) mg] r unfolding db by metis
  have "job_confined fn cyc ?b ?db ?es" using p by (simp add: Let_def)
  then have "\<forall>e \<in> set ej. avoids ?b 0x2000 e" using run unfolding job_confined_def full by blast
  from seq_word_keeps [OF this] have "read64 (run_events ed (y_mem s)) (?b + 24) = read64 (y_mem s) (?b + 24)"
    unfolding ed .
  moreover have sq: "read64 (y_mem s) (?b + 24) = seq"
    using arg_cong [OF db, of db_seq] by (simp add: load_doorbell_def job_doorbell_def)
  moreover have "seen_job (y_mem s) ?b = (?db, take (unat arg_len) payload)"
    using sub(2,3) by (simp add: seen_job_def Let_def db) (simp add: job_doorbell_def job_header_def)
  moreover have "last' = seq" using r sq by simp
  ultimately show ?thesis using p f by (simp add: sys_inv_def quiet_phase_def Let_def)
qed

lemma reachable_inv: "reachable fn cyc s \<Longrightarrow> sys_inv fn cyc s"
proof (induction rule: reachable.induct)
  case (start win m)
  then show ?case by (simp add: sys_inv_def quiet_phase_def)
next
  case (step s s')
  have idle: "sys_inv fn cyc (s\<lparr>y_last := l\<rparr>)"
    if "firmware_round fn cyc (w_base (y_win s)) (y_last s) (y_mem s) = Some (l, None)" for l
    using step(3) round_idle [OF that] by simp
  from step(2) show ?case
    by (elim sys_stepE) (use step(3) in \<open>simp_all add: inv_submit inv_store inv_service idle\<close>)
qed




text \<open>A run for the witnesses: one install job whose argument is too short, submitted and stored.\<close>

lemma demo_confined:
  "job_confined fn cyc base (job_doorbell CIRA_CXL_JOB_INSTALL_CACHELINE 0 CIRA_CXL_STATUS_RUNNING 1)
     (submit_stores base CIRA_CXL_JOB_INSTALL_CACHELINE [] 0 0 1)"
proof -
  let ?db = "job_doorbell CIRA_CXL_JOB_INSTALL_CACHELINE 0 CIRA_CXL_STATUS_RUNNING 1"
  have j: "CIRA_CXL_JOB_INSTALL_CACHELINE \<le> CIRA_CXL_JOB_MAX" "(0 :: u64) \<le> CIRA_CXL_ARG_PAYLOAD_BYTES"
    by (simp_all add: job_id_defs)
  have "load_arg_slot (run_events (running_marks base ?db) (run_events (submit_stores base CIRA_CXL_JOB_INSTALL_CACHELINE [] 0 0 1) m))
      (base + cira_cxl_arg_slot_off CIRA_CXL_JOB_INSTALL_CACHELINE) = job_header CIRA_CXL_JOB_INSTALL_CACHELINE 1 0" for m
    using slot_kept(1) [OF j(1)] submitted_job(2) [OF j _ _ refl, of "[]" base 0 1 m] by simp
  then show ?thesis
    by (auto simp: job_confined_def vortex_cxl_run_job_def vortex_cxl_checked_arg_def vortex_cxl_arg_slot_def
        vortex_cxl_run_install_def job_doorbell_def job_header_def Let_def sizeof_defs split: if_splits option.splits)
qed

definition demo_start :: sys where
  "demo_start = \<lparr>y_mem = (\<lambda>_. 0), y_win = demo_window\<lparr>w_next_seq := 1\<rparr>, y_todo = [], y_last = 0,
     y_sent = [], y_served = []\<rparr>"

definition demo_submitted :: sys where
  "demo_submitted = demo_start\<lparr>y_win := demo_window\<lparr>w_next_seq := 2\<rparr>,
     y_todo := submit_stores 0x10000 CIRA_CXL_JOB_INSTALL_CACHELINE [] 0 0 1,
     y_sent := [(job_doorbell CIRA_CXL_JOB_INSTALL_CACHELINE 0 CIRA_CXL_STATUS_RUNNING 1, [])]\<rparr>"

lemma demo_submitted_reachable: "reachable (\<lambda>_ _ _ _ _. []) (\<lambda>_. 0) demo_submitted"
proof -
  let ?w = "demo_window\<lparr>w_next_seq := 1\<rparr>"
  have "read64 (\<lambda>_. 0) a = 0" for a
    by (simp add: read64_def read_bytes_def upt_conv_Cons le_word_def)
  then have r: "reachable (\<lambda>_ _ _ _ _. []) (\<lambda>_. 0) demo_start"
    unfolding demo_start_def by (intro reachable.start) simp_all
  have ok: "submit_ok ?w CIRA_CXL_JOB_INSTALL_CACHELINE (Some []) 0"
    by (simp add: submit_ok_def demo_window_def in_range_def job_id_defs window_defs sizeof_defs cira_cxl_arg_slot_off_def)
  have "take_seq ?w = (1, demo_window\<lparr>w_next_seq := 2\<rparr>)" by (simp add: take_seq_def demo_window_def)
  from submit_job_ok [OF ok this, of 0]
  have s: "cira_mmio_submit_job (Some (y_win demo_start)) CIRA_CXL_JOB_INSTALL_CACHELINE (Some []) 0 0 =
    (CIRA_MMIO_OK, Some (demo_window\<lparr>w_next_seq := 2\<rparr>), submit_stores 0x10000 CIRA_CXL_JOB_INSTALL_CACHELINE [] 0 0 1, Some 1)"
    by (simp add: demo_start_def demo_window_def)
  have "sys_step (\<lambda>_ _ _ _ _. []) (\<lambda>_. 0) demo_start
    (demo_start\<lparr>y_win := demo_window\<lparr>w_next_seq := 2\<rparr>,
     y_todo := submit_stores 0x10000 CIRA_CXL_JOB_INSTALL_CACHELINE [] 0 0 1,
     y_sent := y_sent demo_start @ [(job_doorbell CIRA_CXL_JOB_INSTALL_CACHELINE 0 CIRA_CXL_STATUS_RUNNING 1, take (unat (0 :: u64)) [])]\<rparr>)"
    by (rule sys_step.submit [OF _ _ s _ _ refl])
      (use demo_confined [of "\<lambda>_ _ _ _ _. []" "\<lambda>_. 0" "0x10000"] in \<open>simp_all add: demo_start_def demo_window_def\<close>)
  from reachable.step [OF r this] show ?thesis by (simp add: demo_submitted_def demo_start_def)
qed

text \<open>The host may finish its stores before the firmware looks.\<close>

lemma reachable_drain:
  "reachable fn cyc s \<Longrightarrow> reachable fn cyc (s\<lparr>y_mem := run_events (y_todo s) (y_mem s), y_todo := []\<rparr>)"
proof (induction "y_todo s" arbitrary: s)
  case Nil
  then show ?case by (metis run_events.simps(1) sys.surjective sys.update_convs(1,3))
next
  case (Cons e es)
  have "reachable fn cyc (s\<lparr>y_mem := run_event e (y_mem s), y_todo := es\<rparr>)"
    using reachable.step [OF Cons(3) sys_step.host_store [OF Cons(2) [symmetric]]] .
  from Cons(1) [OF _ this] show ?case by (simp flip: Cons(2))
qed



end
