(* ===== verification/Type2_Cache.thy ===== *)
theory Type2_Cache
  imports Prelude
begin

text \<open>
  The Type-2 cache controller of \<^verbatim>\<open>runtime/src/CiraRuntime.cpp\<close>
  (\<^verbatim>\<open>Type2CacheControllerImpl\<close>): a map from line addresses to lines, MESI states, and the queue
  that models the device pipeline's latency. Host memory is the byte memory; the clock readings a
  call makes are its argument \<open>clk\<close>, in order; the system's answer to \<open>mmap\<close> is an argument.
  \<open>None\<close> marks undefined behaviour (\<open>pop\<close> on an empty queue) or a loop that never ends.
\<close>

datatype coherency_state = INVALID | SHARED | EXCLUSIVE | MODIFIED

text \<open>The enumeration's order, as its underlying bytes have it.\<close>

fun coherency_rank :: "coherency_state \<Rightarrow> nat" where
  "coherency_rank INVALID = 0"
| "coherency_rank SHARED = 1"
| "coherency_rank EXCLUSIVE = 2"
| "coherency_rank MODIFIED = 3"

lemma coherency_rank_inj [simp]: "coherency_rank x = coherency_rank y \<longleftrightarrow> x = y"
  by (cases x; cases y) simp_all

instantiation coherency_state :: linorder
begin

definition less_eq_coherency_state :: "coherency_state \<Rightarrow> coherency_state \<Rightarrow> bool" where
  "less_eq_coherency_state x y \<longleftrightarrow> coherency_rank x \<le> coherency_rank y"

definition less_coherency_state :: "coherency_state \<Rightarrow> coherency_state \<Rightarrow> bool" where
  "less_coherency_state x y \<longleftrightarrow> coherency_rank x < coherency_rank y"

instance
  by standard (auto simp: less_eq_coherency_state_def less_coherency_state_def)

end

record type2_config =
  c2_bar2_base :: addr
  c2_bar2_size :: u64
  c2_bar4_base :: addr
  c2_bar4_size :: u64
  c2_read_latency :: u32
  c2_write_latency :: u32
  c2_coherency_latency :: u32
  c2_line_size :: u64
  c2_depth :: u64

record cache_line =
  cl_data :: "u8 list"
  cl_state :: coherency_state
  cl_dirty :: bool
  cl_timestamp :: u64

datatype delay_op_type = READ | WRITE | COHERENCY

record delayed_op =
  dl_addr :: addr
  dl_data :: "u8 list"
  dl_type :: delay_op_type
  dl_enqueue_time :: u64
  dl_delay :: u32

record type2 =
  t2_config :: type2_config
  t2_initialized :: bool
  t2_cache :: "addr \<Rightarrow> cache_line option"
  t2_delay :: "delayed_op list"
  t2_delay_depth :: u64
  t2_bar2 :: addr
  t2_bar4 :: addr
  t2_hits :: u64
  t2_misses :: u64

definition CXL_CACHE_LINE_SIZE :: u64 where "CXL_CACHE_LINE_SIZE = 64"

definition alignToLine :: "addr \<Rightarrow> addr" where
  "alignToLine a = a AND NOT (CXL_CACHE_LINE_SIZE - 1)"

section \<open>The delay queue\<close>

fun drop_expired :: "u64 \<Rightarrow> delayed_op list \<Rightarrow> delayed_op list" where
  "drop_expired current [] = []"
| "drop_expired current (front # q) =
     (if ucast (dl_delay front) \<le> current - dl_enqueue_time front then drop_expired current q else front # q)"

definition processDelayBuffer :: "u64 \<Rightarrow> type2 \<Rightarrow> type2" where
  "processDelayBuffer now s = s\<lparr>t2_delay := drop_expired now (t2_delay s)\<rparr>"

text \<open>\<open>None\<close>: the queue is empty and its depth is 0, so \<open>pop\<close> is undefined.\<close>

definition enqueueDelayedOp ::
  "addr \<Rightarrow> u8 list \<Rightarrow> delay_op_type \<Rightarrow> u32 \<Rightarrow> u64 \<Rightarrow> type2 \<Rightarrow> type2 option" where
  "enqueueDelayedOp a data ty delay now s =
     (let op' = \<lparr>dl_addr = a, dl_data = data, dl_type = ty, dl_enqueue_time = now, dl_delay = delay\<rparr> in
      if t2_delay_depth s \<le> of_nat (length (t2_delay s)) then
        (case t2_delay s of [] \<Rightarrow> None | _ # q \<Rightarrow> Some (s\<lparr>t2_delay := q @ [op']\<rparr>))
      else Some (s\<lparr>t2_delay := t2_delay s @ [op']\<rparr>))"

definition setDelayBufferDepth :: "u64 \<Rightarrow> type2 \<Rightarrow> type2" where
  "setDelayBufferDepth depth s = s\<lparr>t2_delay_depth := depth\<rparr>"

definition drainDelayBuffer :: "type2 \<Rightarrow> type2" where
  "drainDelayBuffer s = s\<lparr>t2_delay := []\<rparr>"

section \<open>Lifetime\<close>

text \<open>\<open>mmap_bar base len\<close> is the system's answer; \<open>None\<close> is \<open>MAP_FAILED\<close>.\<close>

definition mapDeviceBARs :: "(addr \<Rightarrow> u64 \<Rightarrow> addr option) \<Rightarrow> type2 \<Rightarrow> bool \<times> type2" where
  "mapDeviceBARs mmap_bar s =
     (let c = t2_config s;
          (ok2, s2) = (if 0 < c2_bar2_size c then
             (case mmap_bar (c2_bar2_base c) (c2_bar2_size c) of
                None \<Rightarrow> (False, s\<lparr>t2_bar2 := 0\<rparr>) | Some a \<Rightarrow> (True, s\<lparr>t2_bar2 := a\<rparr>))
           else (True, s))
      in if \<not> ok2 then (False, s2)
         else if 0 < c2_bar4_size c then
             (case mmap_bar (c2_bar4_base c) (c2_bar4_size c) of
                None \<Rightarrow> (False, s2\<lparr>t2_bar4 := 0\<rparr>) | Some a \<Rightarrow> (True, s2\<lparr>t2_bar4 := a\<rparr>))
         else (True, s2))"

definition config_defaults :: "type2_config \<Rightarrow> type2_config" where
  "config_defaults c = c\<lparr>
     c2_line_size := (if c2_line_size c = 0 then CXL_CACHE_LINE_SIZE else c2_line_size c),
     c2_depth := (if c2_depth c = 0 then 16 else c2_depth c),
     c2_read_latency := (if c2_read_latency c = 0 then 170 else c2_read_latency c),
     c2_write_latency := (if c2_write_latency c = 0 then 200 else c2_write_latency c),
     c2_coherency_latency := (if c2_coherency_latency c = 0 then 50 else c2_coherency_latency c)\<rparr>"

definition t2_initialize :: "(addr \<Rightarrow> u64 \<Rightarrow> addr option) \<Rightarrow> type2_config \<Rightarrow> type2 \<Rightarrow> bool \<times> type2" where
  "t2_initialize mmap_bar config s =
     (if t2_initialized s then (True, s)
      else let c = config_defaults config; s1 = s\<lparr>t2_config := c, t2_delay_depth := c2_depth c\<rparr> in
        (case mapDeviceBARs mmap_bar s1 of
           (ok, s2) \<Rightarrow> if \<not> ok then (False, s2) else (True, s2\<lparr>t2_initialized := True\<rparr>)))"

text \<open>\<open>shutdown\<close>, with the ranges it unmaps.\<close>

definition t2_shutdown :: "type2 \<Rightarrow> type2 \<times> (addr \<times> u64) list" where
  "t2_shutdown s =
     (if \<not> t2_initialized s then (s, [])
      else let s1 = drainDelayBuffer s; c = t2_config s;
               u2 = (if t2_bar2 s1 \<noteq> 0 then [(t2_bar2 s1, c2_bar2_size c)] else []);
               u4 = (if t2_bar4 s1 \<noteq> 0 then [(t2_bar4 s1, c2_bar4_size c)] else [])
           in (s1\<lparr>t2_bar2 := 0, t2_bar4 := 0, t2_cache := (\<lambda>_. None), t2_initialized := False\<rparr>, u2 @ u4))"

section \<open>CXL.cache\<close>

text \<open>An entry \<open>operator[]\<close> creates is zeroed; an existing one is kept as it is.\<close>

definition line_at :: "type2 \<Rightarrow> addr \<Rightarrow> cache_line" where
  "line_at s a = (case t2_cache s a of
     Some l \<Rightarrow> l | None \<Rightarrow> \<lparr>cl_data = replicate 64 0, cl_state = INVALID, cl_dirty = False, cl_timestamp = 0\<rparr>)"

text \<open>\<open>memcpy\<close> of a prefix over a line's bytes.\<close>

definition overlay :: "u8 list \<Rightarrow> u8 list \<Rightarrow> u8 list" where
  "overlay new old = new @ drop (length new) old"

definition line_valid :: "type2 \<Rightarrow> addr \<Rightarrow> bool" where
  "line_valid s a \<longleftrightarrow> (case t2_cache s a of None \<Rightarrow> False | Some l \<Rightarrow> cl_state l \<noteq> INVALID)"

text \<open>\<open>cacheLoad\<close>: the line's bytes and state, behind the pointer it returns.\<close>

definition cacheLoad ::
  "(nat \<Rightarrow> u64) \<Rightarrow> mem \<Rightarrow> addr \<Rightarrow> u64 \<Rightarrow> type2 \<Rightarrow> ((u8 list \<times> coherency_state) \<times> type2) option" where
  "cacheLoad clk m host_addr sz s =
     (let s1 = processDelayBuffer (clk 0) s; aligned = alignToLine host_addr in
      if line_valid s1 aligned then
        Some ((cl_data (line_at s1 aligned), cl_state (line_at s1 aligned)), s1\<lparr>t2_hits := t2_hits s1 + 1\<rparr>)
      else let l = line_at s1 aligned;
               src = (if host_addr \<noteq> 0 then host_addr else t2_bar2 s1);
               bytes = (if src \<noteq> 0 then overlay (read_bytes m src (unat (min sz CXL_CACHE_LINE_SIZE))) (cl_data l)
                       else replicate 64 0);
               l' = l\<lparr>cl_data := bytes, cl_state := SHARED, cl_dirty := False, cl_timestamp := clk 1\<rparr>;
               s2 = s1\<lparr>t2_misses := t2_misses s1 + 1, t2_cache := (t2_cache s1)(aligned \<mapsto> l')\<rparr> in
        map_option (\<lambda>s3. ((bytes, SHARED), s3))
          (enqueueDelayedOp aligned [] READ (c2_read_latency (t2_config s2)) (clk 2) s2))"

text \<open>\<open>cacheStore\<close>, first the allocation of a missing line; \<open>data\<close> is the caller's buffer.\<close>

definition store_allocate :: "(nat \<Rightarrow> u64) \<Rightarrow> mem \<Rightarrow> addr \<Rightarrow> addr \<Rightarrow> type2 \<Rightarrow> type2" where
  "store_allocate clk m host_addr aligned s =
     (if line_valid s aligned then s
      else let l = line_at s aligned;
               bytes = (if host_addr \<noteq> 0 then read_bytes m host_addr (unat CXL_CACHE_LINE_SIZE) else cl_data l);
               l' = l\<lparr>cl_data := bytes, cl_state := EXCLUSIVE, cl_dirty := False, cl_timestamp := clk 1\<rparr> in
        s\<lparr>t2_cache := (t2_cache s)(aligned \<mapsto> l'), t2_misses := t2_misses s + 1\<rparr>)"

definition cacheStore :: "(nat \<Rightarrow> u64) \<Rightarrow> mem \<Rightarrow> addr \<Rightarrow> u8 list \<Rightarrow> u64 \<Rightarrow> type2 \<Rightarrow> type2 option" where
  "cacheStore clk m host_addr data sz s =
     (let s1 = processDelayBuffer (clk 0) s; aligned = alignToLine host_addr;
          s2 = store_allocate clk m host_addr aligned s1;
          upgraded = (if cl_state (line_at s2 aligned) = SHARED
                      then enqueueDelayedOp aligned [] COHERENCY (c2_coherency_latency (t2_config s2)) (clk 2) s2
                      else Some s2) in
      Option.bind upgraded (\<lambda>s3.
        let bytes = take (unat (min sz CXL_CACHE_LINE_SIZE)) data; l = line_at s3 aligned;
            l' = l\<lparr>cl_data := overlay bytes (cl_data l), cl_state := MODIFIED, cl_dirty := True, cl_timestamp := clk 3\<rparr> in
        enqueueDelayedOp aligned bytes WRITE (c2_write_latency (t2_config s3)) (clk 4)
          (s3\<lparr>t2_cache := (t2_cache s3)(aligned \<mapsto> l')\<rparr>)))"

definition cacheEvict :: "mem \<Rightarrow> addr \<Rightarrow> bool \<Rightarrow> type2 \<Rightarrow> mem \<times> type2" where
  "cacheEvict m host_addr writeback s =
     (let aligned = alignToLine host_addr in
      case t2_cache s aligned of
        None \<Rightarrow> (m, s)
      | Some l \<Rightarrow>
          (if writeback \<and> cl_dirty l \<and> host_addr \<noteq> 0 then write_bytes m host_addr (cl_data l) else m,
           s\<lparr>t2_cache := (t2_cache s)(aligned \<mapsto> l\<lparr>cl_state := INVALID, cl_dirty := False\<rparr>)\<rparr>))"

definition getCoherencyState :: "addr \<Rightarrow> type2 \<Rightarrow> coherency_state" where
  "getCoherencyState a s = (case t2_cache s (alignToLine a) of None \<Rightarrow> INVALID | Some l \<Rightarrow> cl_state l)"

definition handleSnoop :: "mem \<Rightarrow> addr \<Rightarrow> coherency_state \<Rightarrow> type2 \<Rightarrow> mem \<times> type2" where
  "handleSnoop m a new_state s =
     (let aligned = alignToLine a in
      case t2_cache s aligned of
        None \<Rightarrow> (m, s)
      | Some l \<Rightarrow>
          let wb = (cl_state l = MODIFIED \<and> cl_dirty l);
              m' = (if wb \<and> a \<noteq> 0 then write_bytes m a (cl_data l) else m);
              dirty1 = (if wb then False else cl_dirty l);
              dirty2 = (if new_state = INVALID then False else dirty1)
          in (m', s\<lparr>t2_cache := (t2_cache s)(aligned \<mapsto> l\<lparr>cl_dirty := dirty2, cl_state := new_state\<rparr>)\<rparr>))"

text \<open>One line of \<open>invalidateRange\<close>.\<close>

definition invalidate_line :: "mem \<Rightarrow> addr \<Rightarrow> type2 \<Rightarrow> mem \<times> type2" where
  "invalidate_line m a s =
     (case t2_cache s a of
        None \<Rightarrow> (m, s)
      | Some l \<Rightarrow>
          (if cl_dirty l \<and> cl_state l = MODIFIED then write_bytes m a (cl_data l) else m,
           s\<lparr>t2_cache := (t2_cache s)(a \<mapsto> l\<lparr>cl_state := INVALID, cl_dirty := False\<rparr>)\<rparr>))"

partial_function (option) invalidate_loop :: "mem \<Rightarrow> addr \<Rightarrow> addr \<Rightarrow> type2 \<Rightarrow> (mem \<times> type2) option" where
  "invalidate_loop m a end s =
     (if a < end then
        (case invalidate_line m a s of (m', s') \<Rightarrow> invalidate_loop m' (a + CXL_CACHE_LINE_SIZE) end s')
      else Some (m, s))"

definition invalidateRange :: "mem \<Rightarrow> addr \<Rightarrow> u64 \<Rightarrow> type2 \<Rightarrow> (mem \<times> type2) option" where
  "invalidateRange m base sz s =
     invalidate_loop m (base AND NOT (CXL_CACHE_LINE_SIZE - 1)) (base + sz) s"

definition getCacheHits :: "type2 \<Rightarrow> u64" where "getCacheHits s = t2_hits s"
definition getCacheMisses :: "type2 \<Rightarrow> u64" where "getCacheMisses s = t2_misses s"

section \<open>CXL.mem\<close>

text \<open>\<open>memLoad\<close>: an address in the BAR4 mapping, or a fresh anonymous mapping (the system's answer).\<close>

definition memLoad :: "(u64 \<Rightarrow> addr) \<Rightarrow> u64 \<Rightarrow> u64 \<Rightarrow> type2 \<Rightarrow> addr" where
  "memLoad mmap_anon dev_offset sz s =
     (if t2_bar4 s \<noteq> 0 \<and> dev_offset + sz \<le> c2_bar4_size (t2_config s) then t2_bar4 s + dev_offset
      else mmap_anon sz)"

definition memStore :: "mem \<Rightarrow> u64 \<Rightarrow> u8 list \<Rightarrow> u64 \<Rightarrow> type2 \<Rightarrow> mem" where
  "memStore m dev_offset data sz s =
     (if t2_bar4 s \<noteq> 0 \<and> dev_offset + sz \<le> c2_bar4_size (t2_config s)
      then write_bytes m (t2_bar4 s + dev_offset) (take (unat sz) data) else m)"

section \<open>C interface\<close>

text \<open>
  \<open>configureType2\<close> initialises the controller; \<open>cira_type2_set_delay\<close> builds a configuration whose
  BAR fields are never assigned: what they happen to hold is its argument \<open>junk\<close>.
\<close>

definition cira_type2_configure ::
  "(addr \<Rightarrow> u64 \<Rightarrow> addr option) \<Rightarrow> u64 \<Rightarrow> u64 \<Rightarrow> u64 \<Rightarrow> u64 \<Rightarrow> type2 \<Rightarrow> bool \<times> type2" where
  "cira_type2_configure mmap_bar bar2_base bar2_size bar4_base bar4_size s =
     t2_initialize mmap_bar \<lparr>c2_bar2_base = bar2_base, c2_bar2_size = bar2_size, c2_bar4_base = bar4_base,
       c2_bar4_size = bar4_size, c2_read_latency = 170, c2_write_latency = 200, c2_coherency_latency = 50,
       c2_line_size = 64, c2_depth = 16\<rparr> s"

definition cira_type2_set_delay ::
  "(addr \<Rightarrow> u64 \<Rightarrow> addr option) \<Rightarrow> type2_config \<Rightarrow> u32 \<Rightarrow> u32 \<Rightarrow> u32 \<Rightarrow> type2 \<Rightarrow> bool \<times> type2" where
  "cira_type2_set_delay mmap_bar junk read_ns write_ns coherency_ns s =
     t2_initialize mmap_bar (junk\<lparr>c2_read_latency := read_ns, c2_write_latency := write_ns,
       c2_coherency_latency := coherency_ns, c2_line_size := 64, c2_depth := 16\<rparr>) s"

section \<open>Line addresses\<close>

text \<open>The addresses the controller's contract speaks of: non-null and aligned to a line.\<close>

definition line_addr :: "addr \<Rightarrow> bool" where
  "line_addr a \<longleftrightarrow> a \<noteq> 0 \<and> 64 dvd unat a"

lemma alignToLine_eq: "alignToLine a = align_down a 64"
  by (simp add: alignToLine_def CXL_CACHE_LINE_SIZE_def align_down_def)

lemma align_line [simp]: "line_addr a \<Longrightarrow> alignToLine a = a"
  by (simp add: line_addr_def alignToLine_eq align_down_aligned)

lemma dvd_unat_sub:
  fixes x y :: u64
  assumes "64 dvd unat x" "64 dvd unat y"
  shows "64 dvd unat (x - y)"
proof (cases "y \<le> x")
  case True
  then show ?thesis using assms by (simp add: unat_sub dvd_diff_nat)
next
  case False
  then have lt: "x \<le> y" "x \<noteq> y" by auto
  have "64 dvd unat (y - x)" using assms lt(1) by (simp add: unat_sub dvd_diff_nat)
  moreover have "unat (x - y) + unat (y - x) = 2 ^ 64" by (rule unat_diff_swap [OF lt(2)])
  then have "unat (x - y) = 2 ^ 64 - unat (y - x)" by linarith
  ultimately show ?thesis by (simp add: dvd_diff_nat)
qed

lemma lines_disjoint:
  assumes "64 dvd unat a" "64 dvd unat b" "a \<noteq> b"
  shows "disjoint_rng a 64 b 64"
proof -
  have "64 \<le> unat (x - y)" if "64 dvd unat x" "64 dvd unat y" "x \<noteq> y" for x y :: addr
    using dvd_unat_sub [OF that(1,2)] that(3) by (intro dvd_imp_le) (simp_all add: unat_gt_0)
  then show ?thesis using assms by (simp add: disjoint_rng_def)
qed

lemma line_written_back:
  assumes "64 dvd unat a" "64 dvd unat b" "length d = 64"
  shows "read_bytes (write_bytes m a d) b 64 = (if b = a then d else read_bytes m b 64)"
  using assms lines_disjoint [of b a] read_write_same [of d m a] by (auto simp: read_write_disjoint)

section \<open>The delay queue stays within its depth\<close>

definition delay_ok :: "type2 \<Rightarrow> bool" where
  "delay_ok s \<longleftrightarrow> 1 \<le> unat (t2_delay_depth s) \<and> length (t2_delay s) \<le> unat (t2_delay_depth s)"

lemma drop_expired_suffix: "\<exists>p. q = p @ drop_expired now q"
proof (induction q)
  case (Cons e q)
  then obtain p where "q = p @ drop_expired now q" ..
  then show ?case by (metis append.left_neutral append_Cons drop_expired.simps(2))
qed simp

lemma process_delay [simp]:
  "delay_ok s \<Longrightarrow> delay_ok (processDelayBuffer now s)"
  "t2_cache (processDelayBuffer now s) = t2_cache s"
  "t2_delay_depth (processDelayBuffer now s) = t2_delay_depth s"
proof -
  obtain p where "t2_delay s = p @ drop_expired now (t2_delay s)" using drop_expired_suffix by blast
  then have "length (drop_expired now (t2_delay s)) \<le> length (t2_delay s)" by (metis length_append le_add2)
  then show "delay_ok s \<Longrightarrow> delay_ok (processDelayBuffer now s)"
    by (simp add: delay_ok_def processDelayBuffer_def)
qed (simp_all add: processDelayBuffer_def)

lemma enqueue_ok:
  assumes "delay_ok s"
  shows "\<exists>s'. enqueueDelayedOp a data ty delay now s = Some s' \<and> delay_ok s' \<and> t2_cache s' = t2_cache s"
proof -
  let ?n = "length (t2_delay s)" and ?d = "unat (t2_delay_depth s)"
  have d: "1 \<le> ?d" "?n \<le> ?d" using assms by (simp_all add: delay_ok_def)
  then have "?n < 2 ^ 64" using unat_lt_u64 [of "t2_delay_depth s"] by linarith
  then have u: "t2_delay_depth s \<le> of_nat ?n \<longleftrightarrow> ?d \<le> ?n"
    by (simp add: word_le_nat_alt unat_of_nat_u64)
  let ?op = "\<lparr>dl_addr = a, dl_data = data, dl_type = ty, dl_enqueue_time = now, dl_delay = delay\<rparr>"
  show ?thesis
  proof (cases "?d \<le> ?n")
    case True
    then obtain e q where q: "t2_delay s = e # q" using d(1) by (cases "t2_delay s") auto
    have "enqueueDelayedOp a data ty delay now s = Some (s\<lparr>t2_delay := q @ [?op]\<rparr>)"
      unfolding enqueueDelayedOp_def Let_def q if_P [OF iffD2 [OF u True, unfolded q]] by (rule list.case(2))
    moreover have "delay_ok (s\<lparr>t2_delay := q @ [?op]\<rparr>)" using q d by (simp add: delay_ok_def)
    ultimately show ?thesis by (intro exI conjI) (assumption, assumption, simp)
  next
    case False
    then have "\<not> t2_delay_depth s \<le> of_nat ?n" using u by blast
    then have "enqueueDelayedOp a data ty delay now s = Some (s\<lparr>t2_delay := t2_delay s @ [?op]\<rparr>)"
      unfolding enqueueDelayedOp_def Let_def by (rule if_not_P)
    moreover have "delay_ok (s\<lparr>t2_delay := t2_delay s @ [?op]\<rparr>)" using False d by (simp add: delay_ok_def)
    ultimately show ?thesis by (intro exI conjI) (assumption, assumption, simp)
  qed
qed

section \<open>The coherence invariant and the flat memory behind it\<close>

definition lines_ok :: "mem \<Rightarrow> (addr \<Rightarrow> cache_line option) \<Rightarrow> bool" where
  "lines_ok m c \<longleftrightarrow> (\<forall>a l. c a = Some l \<longrightarrow> 64 dvd unat a \<and> length (cl_data l) = 64 \<and>
     (cl_dirty l \<longrightarrow> cl_state l = MODIFIED) \<and>
     (cl_state l \<noteq> INVALID \<and> \<not> cl_dirty l \<longrightarrow> cl_data l = read_bytes m a 64))"

definition t2_ok :: "mem \<times> type2 \<Rightarrow> bool" where
  "t2_ok ms \<longleftrightarrow> lines_ok (fst ms) (t2_cache (snd ms)) \<and> delay_ok (snd ms)"

text \<open>What a load of a line is meant to see: the cached line if it is valid, host memory otherwise.\<close>

definition t2_view :: "mem \<times> type2 \<Rightarrow> addr \<Rightarrow> u8 list" where
  "t2_view ms a = (if line_valid (snd ms) a then cl_data (line_at (snd ms) a) else read_bytes (fst ms) a 64)"

lemma line_valid_cache: "t2_cache s' = t2_cache s \<Longrightarrow> line_valid s' = line_valid s"
  by (rule ext) (simp add: line_valid_def)

lemma line_at_cache: "t2_cache s' = t2_cache s \<Longrightarrow> line_at s' = line_at s"
  by (rule ext) (simp add: line_at_def)

lemma t2_view_cache: "t2_cache s' = t2_cache s \<Longrightarrow> t2_view (m, s') = t2_view (m, s)"
  by (rule ext) (simp add: t2_view_def line_valid_def line_at_def)

lemma line_at_length: "lines_ok m (t2_cache s) \<Longrightarrow> length (cl_data (line_at s a)) = 64"
  by (auto simp: line_at_def lines_ok_def split: option.splits)

lemma lines_ok_upd:
  assumes "lines_ok m c" "64 dvd unat a" "length (cl_data l) = 64" "cl_dirty l \<longrightarrow> cl_state l = MODIFIED"
    and "cl_state l \<noteq> INVALID \<and> \<not> cl_dirty l \<longrightarrow> cl_data l = read_bytes m a 64"
  shows "lines_ok m (c(a \<mapsto> l))"
  using assms by (auto simp: lines_ok_def)

text \<open>Writing one line back keeps every other clean line equal to memory.\<close>

lemma lines_ok_writeback:
  assumes "lines_ok m c" "64 dvd unat a" "length d = 64" "c a = Some l" "cl_data l = d"
  shows "lines_ok (write_bytes m a d) c"
  using assms by (auto simp: lines_ok_def line_written_back)

section \<open>The interface of a store of lines\<close>

datatype line_op =
    Load_Line "nat \<Rightarrow> u64" addr
  | Store_Line "nat \<Rightarrow> u64" addr "u8 list"
  | Evict_Line addr
  | Snoop_Line addr

fun op_addr :: "line_op \<Rightarrow> addr" where
  "op_addr (Load_Line _ a) = a"
| "op_addr (Store_Line _ a _) = a"
| "op_addr (Evict_Line a) = a"
| "op_addr (Snoop_Line a) = a"

fun op_ok :: "line_op \<Rightarrow> bool" where
  "op_ok (Store_Line _ a d) = (line_addr a \<and> length d = 64)"
| "op_ok op' = line_addr (op_addr op')"

text \<open>A run of operations on a flat memory of lines: the bytes loaded, and the memory after.\<close>

fun flat_run :: "line_op list \<Rightarrow> (addr \<Rightarrow> u8 list) \<Rightarrow> u8 list list \<times> (addr \<Rightarrow> u8 list)" where
  "flat_run [] v = ([], v)"
| "flat_run (Load_Line _ a # ops) v = (case flat_run ops v of (outs, v') \<Rightarrow> (v a # outs, v'))"
| "flat_run (Store_Line _ a d # ops) v = flat_run ops (v(a := d))"
| "flat_run (_ # ops) v = flat_run ops v"

fun cached_run ::
  "((nat \<Rightarrow> u64) \<Rightarrow> addr \<Rightarrow> 's \<Rightarrow> (u8 list \<times> 's) option) \<Rightarrow> ((nat \<Rightarrow> u64) \<Rightarrow> addr \<Rightarrow> u8 list \<Rightarrow> 's \<Rightarrow> 's option) \<Rightarrow>
   (addr \<Rightarrow> 's \<Rightarrow> 's) \<Rightarrow> (addr \<Rightarrow> 's \<Rightarrow> 's) \<Rightarrow> line_op list \<Rightarrow> 's \<Rightarrow> (u8 list list \<times> 's) option" where
  "cached_run ld st ev sn [] s = Some ([], s)"
| "cached_run ld st ev sn (Load_Line clk a # ops) s =
     Option.bind (ld clk a s) (\<lambda>(d, s'). map_option (\<lambda>(outs, s''). (d # outs, s'')) (cached_run ld st ev sn ops s'))"
| "cached_run ld st ev sn (Store_Line clk a d # ops) s = Option.bind (st clk a d s) (cached_run ld st ev sn ops)"
| "cached_run ld st ev sn (Evict_Line a # ops) s = cached_run ld st ev sn ops (ev a s)"
| "cached_run ld st ev sn (Snoop_Line a # ops) s = cached_run ld st ev sn ops (sn a s)"

locale line_store =
  fixes ok :: "'s \<Rightarrow> bool" and view :: "'s \<Rightarrow> addr \<Rightarrow> u8 list"
    and ld :: "(nat \<Rightarrow> u64) \<Rightarrow> addr \<Rightarrow> 's \<Rightarrow> (u8 list \<times> 's) option"
    and st :: "(nat \<Rightarrow> u64) \<Rightarrow> addr \<Rightarrow> u8 list \<Rightarrow> 's \<Rightarrow> 's option"
    and ev :: "addr \<Rightarrow> 's \<Rightarrow> 's" and sn :: "addr \<Rightarrow> 's \<Rightarrow> 's"
  assumes load_law: "ok s \<Longrightarrow> line_addr a \<Longrightarrow>
      \<exists>s'. ld clk a s = Some (view s a, s') \<and> ok s' \<and> (\<forall>b. line_addr b \<longrightarrow> view s' b = view s b)"
    and store_law: "ok s \<Longrightarrow> line_addr a \<Longrightarrow> length d = 64 \<Longrightarrow>
      \<exists>s'. st clk a d s = Some s' \<and> ok s' \<and> (\<forall>b. line_addr b \<longrightarrow> view s' b = (if b = a then d else view s b))"
    and evict_law: "ok s \<Longrightarrow> line_addr a \<Longrightarrow> ok (ev a s) \<and> (\<forall>b. line_addr b \<longrightarrow> view (ev a s) b = view s b)"
    and snoop_law: "ok s \<Longrightarrow> line_addr a \<Longrightarrow> ok (sn a s) \<and> (\<forall>b. line_addr b \<longrightarrow> view (sn a s) b = view s b)"
begin

text \<open>Any sequence of operations behaves like the same sequence on a flat memory.\<close>

lemma run_refines_flat:
  assumes "ok s" "\<forall>b. line_addr b \<longrightarrow> view s b = v b" "\<forall>x \<in> set ops. op_ok x"
  shows "\<exists>s'. cached_run ld st ev sn ops s = Some (fst (flat_run ops v), s') \<and> ok s' \<and>
    (\<forall>b. line_addr b \<longrightarrow> view s' b = snd (flat_run ops v) b)"
  using assms
proof (induction ops arbitrary: s v)
  case Nil
  then show ?case by simp
next
  case (Cons x ops)
  show ?case
  proof (cases x)
    case (Load_Line clk a)
    then obtain s1 where l: "ld clk a s = Some (view s a, s1)" "ok s1" "\<forall>b. line_addr b \<longrightarrow> view s1 b = view s b"
      using load_law [of s a clk] Cons.prems by auto
    with Cons.IH [of s1 v] Cons.prems Load_Line show ?thesis by (auto split: prod.splits)
  next
    case (Store_Line clk a d)
    then obtain s1 where l: "st clk a d s = Some s1" "ok s1" "\<forall>b. line_addr b \<longrightarrow> view s1 b = (if b = a then d else view s b)"
      using store_law [of s a d clk] Cons.prems by auto
    then have "\<forall>b. line_addr b \<longrightarrow> view s1 b = (v(a := d)) b" using Cons.prems(2) by simp
    with Cons.IH [of s1 "v(a := d)"] Cons.prems Store_Line l show ?thesis by (simp del: fun_upd_apply)
  next
    case (Evict_Line a)
    with evict_law [of s a] Cons.IH [of "ev a s" v] Cons.prems show ?thesis by auto
  next
    case (Snoop_Line a)
    with snoop_law [of s a] Cons.IH [of "sn a s" v] Cons.prems show ?thesis by auto
  qed
qed

end

section \<open>The controller is a store of lines\<close>

definition t2_ld :: "(nat \<Rightarrow> u64) \<Rightarrow> addr \<Rightarrow> mem \<times> type2 \<Rightarrow> (u8 list \<times> mem \<times> type2) option" where
  "t2_ld clk a ms = map_option (\<lambda>((d, st), s'). (d, fst ms, s')) (cacheLoad clk (fst ms) a 64 (snd ms))"

definition t2_st :: "(nat \<Rightarrow> u64) \<Rightarrow> addr \<Rightarrow> u8 list \<Rightarrow> mem \<times> type2 \<Rightarrow> (mem \<times> type2) option" where
  "t2_st clk a d ms = map_option (Pair (fst ms)) (cacheStore clk (fst ms) a d 64 (snd ms))"

definition t2_ev :: "addr \<Rightarrow> mem \<times> type2 \<Rightarrow> mem \<times> type2" where
  "t2_ev a ms = cacheEvict (fst ms) a True (snd ms)"

definition t2_sn :: "addr \<Rightarrow> mem \<times> type2 \<Rightarrow> mem \<times> type2" where
  "t2_sn a ms = handleSnoop (fst ms) a INVALID (snd ms)"

lemma t2_view_at:
  "t2_view (m, s) a = (case t2_cache s a of None \<Rightarrow> read_bytes m a 64
     | Some l \<Rightarrow> if cl_state l = INVALID then read_bytes m a 64 else cl_data l)"
  by (simp add: t2_view_def line_valid_def line_at_def split: option.splits)

lemma t2_okI: "lines_ok m (t2_cache s) \<Longrightarrow> delay_ok s \<Longrightarrow> t2_ok (m, s)"
  by (simp add: t2_ok_def)

lemma line_addrD: "line_addr a \<Longrightarrow> a \<noteq> 0" "line_addr a \<Longrightarrow> 64 dvd unat a"
  by (simp_all add: line_addr_def)

lemma overlay_full: "length new = length old \<Longrightarrow> overlay new old = new"
  by (simp add: overlay_def)

lemma load_line:
  assumes ok: "t2_ok (m, s)" and a: "line_addr a"
  shows "\<exists>s'. cacheLoad clk m a 64 s = Some ((t2_view (m, s) a,
      if getCoherencyState a s = INVALID then SHARED else getCoherencyState a s), s') \<and>
    t2_ok (m, s') \<and> (\<forall>b. t2_view (m, s') b = t2_view (m, s) b) \<and>
    getCoherencyState a s' = (if getCoherencyState a s = INVALID then SHARED else getCoherencyState a s)"
proof -
  let ?s1 = "processDelayBuffer (clk 0) s"
  have lo: "lines_ok m (t2_cache s)" and d1: "delay_ok ?s1" using ok by (simp_all add: t2_ok_def)
  have mn: "unat (min 64 CXL_CACHE_LINE_SIZE) = 64" by (simp add: CXL_CACHE_LINE_SIZE_def)
  have al: "alignToLine a = a" using a by simp
  show ?thesis
  proof (cases "line_valid s a")
    case True
    then have v: "line_valid ?s1 a" by (simp add: line_valid_def)
    have g: "getCoherencyState a s = cl_state (line_at s a)" "getCoherencyState a s \<noteq> INVALID"
      using True al by (auto simp: getCoherencyState_def line_valid_def line_at_def split: option.splits)
    let ?s2 = "?s1\<lparr>t2_hits := t2_hits ?s1 + 1\<rparr>"
    have "cacheLoad clk m a 64 s = Some ((cl_data (line_at ?s1 a), cl_state (line_at ?s1 a)), ?s2)"
      using v al by (simp add: cacheLoad_def Let_def)
    moreover have "line_at ?s1 a = line_at s a" by (simp add: line_at_def)
    moreover have "t2_ok (m, ?s2)" using lo d1 by (simp add: t2_ok_def delay_ok_def)
    moreover have "t2_view (m, ?s2) b = t2_view (m, s) b" for b by (simp add: t2_view_at)
    moreover have "getCoherencyState a ?s2 = getCoherencyState a s" by (simp add: getCoherencyState_def)
    ultimately show ?thesis using True g by (simp add: t2_view_def)
  next
    case False
    then have v: "\<not> line_valid ?s1 a" by (simp add: line_valid_def)
    have g: "getCoherencyState a s = INVALID"
      using False al by (auto simp: getCoherencyState_def line_valid_def split: option.splits)
    let ?l = "line_at ?s1 a" and ?by = "read_bytes m a 64"
    let ?l' = "?l\<lparr>cl_data := ?by, cl_state := SHARED, cl_dirty := False, cl_timestamp := clk 1\<rparr>"
    let ?s2 = "?s1\<lparr>t2_misses := t2_misses ?s1 + 1, t2_cache := (t2_cache ?s1)(a \<mapsto> ?l')\<rparr>"
    have len: "length (cl_data ?l) = 64" using line_at_length [of m ?s1] lo by simp
    have ov: "overlay ?by (cl_data ?l) = ?by" using len by (intro overlay_full) simp
    have "delay_ok ?s2" using d1 by (simp add: delay_ok_def)
    then obtain s3 where e: "enqueueDelayedOp a [] READ (c2_read_latency (t2_config ?s2)) (clk 2) ?s2 = Some s3"
      and e3: "delay_ok s3" "t2_cache s3 = t2_cache ?s2"
      using enqueue_ok by blast
    have "cacheLoad clk m a 64 s = Some ((?by, SHARED), s3)"
      using v line_addrD(1) [OF a] e unfolding cacheLoad_def Let_def al if_not_P [OF v]
      by (simp only: ov mn if_True simp_thms if_False option.map prod.case)
    moreover have "t2_ok (m, s3)"
      using lo line_addrD(2) [OF a] e3 by (intro t2_okI) (simp_all add: lines_ok_upd)
    moreover have "t2_view (m, s3) b = t2_view (m, s) b" for b
      using False e3(2) by (auto simp: t2_view_at line_valid_def split: option.splits)
    moreover have "t2_view (m, s) a = ?by" using False by (simp add: t2_view_def)
    moreover have "getCoherencyState a s3 = SHARED" using e3(2) al by (simp add: getCoherencyState_def)
    ultimately show ?thesis using g by simp
  qed
qed

lemma store_line:
  assumes ok: "t2_ok (m, s)" and a: "line_addr a" and d: "length d = 64"
  shows "\<exists>s'. cacheStore clk m a d 64 s = Some s' \<and> t2_ok (m, s') \<and>
    (\<forall>b. t2_view (m, s') b = (if b = a then d else t2_view (m, s) b)) \<and> getCoherencyState a s' = MODIFIED"
proof -
  let ?s1 = "processDelayBuffer (clk 0) s"
  have lo: "lines_ok m (t2_cache s)" and d1: "delay_ok ?s1" using ok by (simp_all add: t2_ok_def)
  have mn: "unat (min 64 CXL_CACHE_LINE_SIZE) = 64" by (simp add: CXL_CACHE_LINE_SIZE_def)
  have al: "alignToLine a = a" using a by simp
  let ?s2 = "store_allocate clk m a a ?s1"
  have lo1: "lines_ok m (t2_cache ?s1)" using lo by simp
  have lo2: "lines_ok m (t2_cache ?s2)"
    using lines_ok_upd [OF lo1 line_addrD(2) [OF a]] lo1 line_addrD(1) [OF a]
    by (simp add: store_allocate_def Let_def CXL_CACHE_LINE_SIZE_def)
  have d2: "delay_ok ?s2" using d1 by (simp add: store_allocate_def Let_def delay_ok_def)
  have oth2: "b \<noteq> a \<Longrightarrow> t2_cache ?s2 b = t2_cache s b" for b by (simp add: store_allocate_def Let_def)
  obtain s3 where e: "(if cl_state (line_at ?s2 a) = SHARED
        then enqueueDelayedOp a [] COHERENCY (c2_coherency_latency (t2_config ?s2)) (clk 2) ?s2 else Some ?s2) = Some s3"
    and d3: "delay_ok s3" "t2_cache s3 = t2_cache ?s2"
    using enqueue_ok [OF d2, of a "[]" COHERENCY "c2_coherency_latency (t2_config ?s2)" "clk 2"] d2
    by (cases "cl_state (line_at ?s2 a) = SHARED") auto
  let ?l = "line_at s3 a"
  let ?l' = "?l\<lparr>cl_data := d, cl_state := MODIFIED, cl_dirty := True, cl_timestamp := clk 3\<rparr>"
  let ?s4 = "s3\<lparr>t2_cache := (t2_cache s3)(a \<mapsto> ?l')\<rparr>"
  have "length (cl_data ?l) = 64" using line_at_length [of m s3] lo2 d3 by simp
  then have ov: "overlay (take 64 d) (cl_data ?l) = d" using d by (simp add: overlay_full)
  have "delay_ok ?s4" using d3 by (simp add: delay_ok_def)
  then obtain s5 where e5: "enqueueDelayedOp a (take 64 d) WRITE (c2_write_latency (t2_config s3)) (clk 4) ?s4 = Some s5"
    and d5: "delay_ok s5" "t2_cache s5 = t2_cache ?s4"
    using enqueue_ok by blast
  have "cacheStore clk m a d 64 s = Some s5"
    unfolding cacheStore_def Let_def al e bind.bind_lunit mn ov by (rule e5)
  moreover have "t2_ok (m, s5)"
    using lo2 d3 d5 d line_addrD(2) [OF a] by (intro t2_okI) (simp_all add: lines_ok_upd)
  moreover have "t2_view (m, s5) b = (if b = a then d else t2_view (m, s) b)" for b
    using d5 d3 oth2 by (simp add: t2_view_at)
  moreover have "getCoherencyState a s5 = MODIFIED" using d5 al by (simp add: getCoherencyState_def)
  ultimately show ?thesis by blast
qed

text \<open>Invalidation with write-back, by eviction, snoop or range, keeps what loads see.\<close>

lemma invalidated_line:
  assumes ok: "t2_ok (m, s)" and a: "64 dvd unat a" and l: "t2_cache s a = Some l"
    and l': "cl_data l' = cl_data l" "cl_state l' = INVALID" "\<not> cl_dirty l'"
    and m': "m' = (if cl_dirty l then write_bytes m a (cl_data l) else m)"
    and s': "s' = s\<lparr>t2_cache := (t2_cache s)(a \<mapsto> l')\<rparr>"
  shows "t2_ok (m', s') \<and> (\<forall>b. 64 dvd unat b \<longrightarrow> t2_view (m', s') b = t2_view (m, s) b)"
proof -
  have lo: "lines_ok m (t2_cache s)" and d: "delay_ok s" using ok by (simp_all add: t2_ok_def)
  then have li: "length (cl_data l) = 64" "cl_dirty l \<Longrightarrow> cl_state l = MODIFIED"
      "cl_state l \<noteq> INVALID \<Longrightarrow> \<not> cl_dirty l \<Longrightarrow> cl_data l = read_bytes m a 64"
    using l by (simp_all add: lines_ok_def)
  have lo': "lines_ok m' (t2_cache s)"
    using lines_ok_writeback [OF lo a li(1) l refl] lo by (simp add: m')
  have "lines_ok m' (t2_cache s')"
    unfolding s' using lines_ok_upd [OF lo' a, of l'] li(1) l' by simp
  moreover have "delay_ok s'" using d by (simp add: s' delay_ok_def)
  moreover have "t2_view (m', s') b = t2_view (m, s) b" if b: "64 dvd unat b" for b
  proof (cases "b = a")
    case True
    then show ?thesis
      using l li line_written_back [OF a a li(1), of m] l' by (auto simp: t2_view_at s' m')
  next
    case False
    have "read_bytes m' b 64 = read_bytes m b 64"
      using line_written_back [OF a b li(1), of m] False by (simp add: m')
    then show ?thesis using False by (simp add: t2_view_at s' split: option.splits)
  qed
  ultimately show ?thesis by (simp add: t2_ok_def)
qed

lemma evict_line:
  assumes "t2_ok (m, s)" "line_addr a"
  shows "t2_ok (cacheEvict m a True s) \<and>
    (\<forall>b. 64 dvd unat b \<longrightarrow> t2_view (cacheEvict m a True s) b = t2_view (m, s) b)"
proof (cases "t2_cache s a")
  case None
  then show ?thesis using assms by (simp add: cacheEvict_def Let_def)
next
  case (Some l)
  from invalidated_line [OF assms(1) line_addrD(2) [OF assms(2)] Some _ _ _ refl refl, of "l\<lparr>cl_state := INVALID, cl_dirty := False\<rparr>"]
  show ?thesis using Some assms line_addrD(1) [OF assms(2)] by (simp add: cacheEvict_def Let_def)
qed

lemma snoop_line:
  assumes "t2_ok (m, s)" "line_addr a"
  shows "t2_ok (handleSnoop m a INVALID s) \<and>
    (\<forall>b. 64 dvd unat b \<longrightarrow> t2_view (handleSnoop m a INVALID s) b = t2_view (m, s) b)"
proof (cases "t2_cache s a")
  case None
  then show ?thesis using assms by (simp add: handleSnoop_def Let_def)
next
  case (Some l)
  then have "cl_dirty l \<longrightarrow> cl_state l = MODIFIED"
    using assms(1) by (simp add: t2_ok_def lines_ok_def)
  then have "handleSnoop m a INVALID s =
      (if cl_dirty l then write_bytes m a (cl_data l) else m,
       s\<lparr>t2_cache := (t2_cache s)(a \<mapsto> l\<lparr>cl_dirty := False, cl_state := INVALID\<rparr>)\<rparr>)"
    using Some assms(2) line_addrD(1) [OF assms(2)] by (auto simp: handleSnoop_def Let_def)
  with invalidated_line [OF assms(1) line_addrD(2) [OF assms(2)] Some _ _ _ refl refl,
      of "l\<lparr>cl_dirty := False, cl_state := INVALID\<rparr>"] show ?thesis by simp
qed

interpretation t2: line_store t2_ok t2_view t2_ld t2_st t2_ev t2_sn
proof
  fix ms a clk d
  assume ok: "t2_ok ms" and a: "line_addr a"
  obtain m s where ms: "ms = (m, s)" by fastforce
  show "\<exists>s'. t2_ld clk a ms = Some (t2_view ms a, s') \<and> t2_ok s' \<and> (\<forall>b. line_addr b \<longrightarrow> t2_view s' b = t2_view ms b)"
    using load_line [of m s a clk] ok a by (auto simp: ms t2_ld_def)
  show "t2_ok (t2_ev a ms) \<and> (\<forall>b. line_addr b \<longrightarrow> t2_view (t2_ev a ms) b = t2_view ms b)"
    using evict_line [of m s a] ok a by (auto simp: ms t2_ev_def line_addr_def)
  show "t2_ok (t2_sn a ms) \<and> (\<forall>b. line_addr b \<longrightarrow> t2_view (t2_sn a ms) b = t2_view ms b)"
    using snoop_line [of m s a] ok a by (auto simp: ms t2_sn_def line_addr_def)
  show "\<exists>s'. t2_st clk a d ms = Some s' \<and> t2_ok s' \<and> (\<forall>b. line_addr b \<longrightarrow> t2_view s' b = (if b = a then d else t2_view ms b))"
    if "length d = 64"
    using store_line [of m s a d clk] ok a that by (auto simp: ms t2_st_def)
qed

section \<open>Ranges\<close>

lemma line_step:
  assumes "64 dvd unat a" "unat a + 64 < 2 ^ 64"
  shows "unat (a + CXL_CACHE_LINE_SIZE) = unat a + 64" "64 dvd unat (a + CXL_CACHE_LINE_SIZE)"
proof -
  show u: "unat (a + CXL_CACHE_LINE_SIZE) = unat a + 64"
    using assms(2) by (simp add: CXL_CACHE_LINE_SIZE_def unat_word_ariths(1))
  show "64 dvd unat (a + CXL_CACHE_LINE_SIZE)" unfolding u using assms(1) by simp
qed

lemma invalidate_line_ok:
  assumes ok: "t2_ok (m, s)" and a: "64 dvd unat a"
  shows "t2_ok (invalidate_line m a s) \<and>
    (\<forall>b. 64 dvd unat b \<longrightarrow> t2_view (invalidate_line m a s) b = t2_view (m, s) b) \<and>
    \<not> line_valid (snd (invalidate_line m a s)) a \<and>
    (\<forall>b. \<not> line_valid s b \<longrightarrow> \<not> line_valid (snd (invalidate_line m a s)) b)"
proof (cases "t2_cache s a")
  case None
  then show ?thesis using ok by (simp add: invalidate_line_def line_valid_def)
next
  case (Some l)
  then have "cl_dirty l \<and> cl_state l = MODIFIED \<longleftrightarrow> cl_dirty l"
    using ok by (auto simp: t2_ok_def lines_ok_def)
  then have e: "invalidate_line m a s = (if cl_dirty l then write_bytes m a (cl_data l) else m,
      s\<lparr>t2_cache := (t2_cache s)(a \<mapsto> l\<lparr>cl_state := INVALID, cl_dirty := False\<rparr>)\<rparr>)"
    using Some by (simp add: invalidate_line_def)
  show ?thesis
    using invalidated_line [OF ok a Some _ _ _ refl refl, of "l\<lparr>cl_state := INVALID, cl_dirty := False\<rparr>"]
    unfolding e by (simp add: line_valid_def)
qed

lemma invalidate_loop_ok:
  assumes "t2_ok (m, s)" "64 dvd unat a" "unat end \<le> 2 ^ 64 - 64"
  shows "\<exists>m' s'. invalidate_loop m a end s = Some (m', s') \<and> t2_ok (m', s') \<and>
    (\<forall>b. 64 dvd unat b \<longrightarrow> t2_view (m', s') b = t2_view (m, s) b) \<and>
    (\<forall>b. 64 dvd unat b \<longrightarrow> a \<le> b \<longrightarrow> b < end \<longrightarrow> \<not> line_valid s' b) \<and>
    (\<forall>b. \<not> line_valid s b \<longrightarrow> \<not> line_valid s' b)"
  using assms(1,2)
proof (induction "unat end - unat a" arbitrary: m s a rule: less_induct)
  case less
  show ?case
  proof (cases "a < end")
    case True
    then have lt: "unat a < unat end" by (simp add: word_less_nat_alt)
    then have nw: "unat a + 64 < 2 ^ 64" using assms(3) by linarith
    obtain m1 s1 where il: "invalidate_line m a s = (m1, s1)" by fastforce
    note one = invalidate_line_ok [OF less.prems, unfolded il]
    have "unat end - unat (a + CXL_CACHE_LINE_SIZE) < unat end - unat a"
      unfolding line_step(1) [OF less.prems(2) nw] using lt by linarith
    from less.hyps [OF this _ line_step(2) [OF less.prems(2) nw], of m1 s1] one
    obtain m' s' where r: "invalidate_loop m1 (a + CXL_CACHE_LINE_SIZE) end s1 = Some (m', s')" "t2_ok (m', s')"
      and v: "\<forall>b. 64 dvd unat b \<longrightarrow> t2_view (m', s') b = t2_view (m1, s1) b"
      and i: "\<forall>b. 64 dvd unat b \<longrightarrow> a + CXL_CACHE_LINE_SIZE \<le> b \<longrightarrow> b < end \<longrightarrow> \<not> line_valid s' b"
      and k: "\<forall>b. \<not> line_valid s1 b \<longrightarrow> \<not> line_valid s' b" by auto
    have "\<not> line_valid s' b" if "64 dvd unat b" "a \<le> b" "b < end" for b
    proof (cases "b = a")
      case True
      then show ?thesis using one k by simp
    next
      case False
      then have "a < b" using that(2) by simp
      then have "unat a < unat b" by (simp add: word_less_nat_alt)
      moreover have "64 dvd unat b - unat a" using that(1) less.prems(2) by (rule dvd_diff_nat)
      ultimately have "unat a + 64 \<le> unat b" by (auto dest: dvd_imp_le)
      then show ?thesis using i that line_step(1) [OF less.prems(2) nw] by (simp add: word_le_nat_alt)
    qed
    then show ?thesis using r v one k True il by (subst invalidate_loop.simps) auto
  next
    case False
    then show ?thesis using less.prems by (subst invalidate_loop.simps) auto
  qed
qed

lemma align_down_base: "base AND NOT (CXL_CACHE_LINE_SIZE - 1) = align_down base 64"
  by (simp add: align_down_def CXL_CACHE_LINE_SIZE_def)

text \<open>A range that reaches the last line of the address space: the line address wraps past the end.\<close>

lemma invalidate_loop_top:
  assumes "invalidate_loop m a end s = Some r" "64 dvd unat a" "2 ^ 64 - 64 < unat end"
  shows False
proof -
  let ?P = "\<lambda>m a end s r. 64 dvd unat a \<longrightarrow> 2 ^ 64 - 64 < unat end \<longrightarrow> False"
  have "?P m a end s r"
  proof (rule invalidate_loop.raw_induct [where P = ?P, OF _ assms(1)])
    fix f m a "end" s r
    assume IH: "\<And>m a end s r. f m a end s = Some r \<Longrightarrow> 64 dvd unat a \<longrightarrow> 2 ^ 64 - 64 < unat end \<longrightarrow> False"
      and eq: "(if a < end then
        (case invalidate_line m a s of (m', s') \<Rightarrow> f m' (a + CXL_CACHE_LINE_SIZE) end s')
      else Some (m, s)) = Some r"
    show "64 dvd unat a \<longrightarrow> 2 ^ 64 - 64 < unat end \<longrightarrow> False"
    proof (intro impI)
      assume a: "64 dvd unat a" and e: "2 ^ 64 - 64 < unat end"
      have "unat a \<le> 2 ^ 64 - 64"
      proof -
        obtain k where k: "unat a = 64 * k" using a by (auto simp: dvd_def)
        then have "64 * k < 64 * 2 ^ 58" using unat_lt_u64 [of a] by simp
        then have "k \<le> 2 ^ 58 - 1" by simp
        then show ?thesis using k by simp
      qed
      then have "a < end" using e by (simp add: word_less_nat_alt)
      moreover have "64 dvd unat (a + CXL_CACHE_LINE_SIZE)"
      proof -
        have "64 dvd unat (a - (- 64))" by (intro dvd_unat_sub a) simp
        then show ?thesis by (simp add: CXL_CACHE_LINE_SIZE_def)
      qed
      ultimately show False using IH eq e by (auto split: prod.splits)
    qed
  qed
  then show False using assms(2,3) by blast
qed

section \<open>Properties\<close>

text \<open>An initialised controller with an empty cache, for the witnesses.\<close>

definition demo_type2 :: type2 where
  "demo_type2 = \<lparr>t2_config = \<lparr>c2_bar2_base = 0, c2_bar2_size = 0, c2_bar4_base = 0, c2_bar4_size = 0x1000,
     c2_read_latency = 170, c2_write_latency = 200, c2_coherency_latency = 50, c2_line_size = 64, c2_depth = 16\<rparr>,
     t2_initialized = True, t2_cache = (\<lambda>_. None), t2_delay = [], t2_delay_depth = 16, t2_bar2 = 0,
     t2_bar4 = 0x70000, t2_hits = 0, t2_misses = 0\<rparr>"

lemma demo_type2_ok: "t2_ok (m, demo_type2)"
  by (simp add: t2_ok_def lines_ok_def delay_ok_def demo_type2_def)



text \<open>The MESI states. A load of a line leaves it at least SHARED and never changes a valid state, a store
  makes it MODIFIED, an eviction makes it INVALID with its bytes in host memory, and a snoop that
  finds a line sets exactly the state asked for.\<close>

theorem mesi_transitions:
  assumes ok: "t2_ok (m, s)" and a: "line_addr a" and d: "length d = 64"
  shows "(\<exists>out s'. cacheLoad clk m a 64 s = Some (out, s') \<and> snd out = getCoherencyState a s' \<and>
      SHARED \<le> getCoherencyState a s' \<and>
      (getCoherencyState a s \<noteq> INVALID \<longrightarrow> getCoherencyState a s' = getCoherencyState a s)) \<and>
    (\<exists>s'. cacheStore clk m a d 64 s = Some s' \<and> getCoherencyState a s' = MODIFIED) \<and>
    (case cacheEvict m a True s of (m', s') \<Rightarrow> getCoherencyState a s' = INVALID \<and>
       read_bytes m' a 64 = t2_view (m, s) a) \<and>
    (t2_cache s a \<noteq> None \<longrightarrow> getCoherencyState a (snd (handleSnoop m a new_state s)) = new_state)"
proof (intro conjI)
  obtain s' where l: "cacheLoad clk m a 64 s = Some ((t2_view (m, s) a,
      if getCoherencyState a s = INVALID then SHARED else getCoherencyState a s), s')"
    and g: "getCoherencyState a s' = (if getCoherencyState a s = INVALID then SHARED else getCoherencyState a s)"
    using load_line [OF ok a, of clk] by blast
  have "SHARED \<le> getCoherencyState a s'"
    using g by (cases "getCoherencyState a s") (simp_all add: less_eq_coherency_state_def)
  then show "\<exists>out s'. cacheLoad clk m a 64 s = Some (out, s') \<and> snd out = getCoherencyState a s' \<and>
      SHARED \<le> getCoherencyState a s' \<and>
      (getCoherencyState a s \<noteq> INVALID \<longrightarrow> getCoherencyState a s' = getCoherencyState a s)"
    using l g by simp
  show "\<exists>s'. cacheStore clk m a d 64 s = Some s' \<and> getCoherencyState a s' = MODIFIED"
    using store_line [OF ok a d, of clk] by blast
  obtain m' s1 where e: "cacheEvict m a True s = (m', s1)" by fastforce
  have "getCoherencyState a s1 = INVALID"
    using e a by (auto simp: cacheEvict_def getCoherencyState_def Let_def split: option.splits)
  moreover have "t2_view (m', s1) a = t2_view (m, s) a"
    using evict_line [OF ok a] a by (simp add: e line_addr_def)
  ultimately show "case cacheEvict m a True s of (m', s') \<Rightarrow> getCoherencyState a s' = INVALID \<and>
       read_bytes m' a 64 = t2_view (m, s) a"
    using a by (auto simp: e t2_view_at getCoherencyState_def split: option.splits)
  show "t2_cache s a \<noteq> None \<longrightarrow> getCoherencyState a (snd (handleSnoop m a new_state s)) = new_state"
    using a by (auto simp: handleSnoop_def getCoherencyState_def Let_def)
qed

lemma mesi_transitions_witness:
  "\<exists>s'. cacheStore (\<lambda>_. 0) (\<lambda>_. 0) 0x1000 (replicate 64 7) 64 demo_type2 = Some s' \<and> getCoherencyState 0x1000 s' = MODIFIED"
  using mesi_transitions [OF demo_type2_ok, of "0x1000" "replicate 64 7"] by (simp add: line_addr_def)

text \<open>Invalidating a range that stays below the last line of the address space ends; every line of the
  range is INVALID afterwards, and nothing is lost: what a load of any line sees is unchanged, dirty
  bytes having gone to host memory.\<close>

theorem invalidate_range_writes_back:
  assumes "t2_ok (m, s)" "unat base + unat sz \<le> 2 ^ 64 - 64"
  shows "\<exists>m' s'. invalidateRange m base sz s = Some (m', s') \<and> t2_ok (m', s') \<and>
    (\<forall>b. line_addr b \<longrightarrow> t2_view (m', s') b = t2_view (m, s) b) \<and>
    (\<forall>b. 64 dvd unat b \<longrightarrow> align_down base 64 \<le> b \<longrightarrow> unat b < unat base + unat sz \<longrightarrow>
       getCoherencyState b s' = INVALID \<and> read_bytes m' b 64 = t2_view (m, s) b)"
proof -
  have e: "unat (base + sz) = unat base + unat sz" using assms(2) by (simp add: unat_word_ariths(1))
  then have "unat (base + sz) \<le> 2 ^ 64 - 64" using assms(2) by simp
  from invalidate_loop_ok [OF assms(1) unat_align_down_dvd this, of base] obtain m' s' where
    r: "invalidate_loop m (align_down base 64) (base + sz) s = Some (m', s')" "t2_ok (m', s')"
    and v: "\<forall>b. 64 dvd unat b \<longrightarrow> t2_view (m', s') b = t2_view (m, s) b"
    and i: "\<forall>b. 64 dvd unat b \<longrightarrow> align_down base 64 \<le> b \<longrightarrow> b < base + sz \<longrightarrow> \<not> line_valid s' b" by blast
  have "getCoherencyState b s' = INVALID \<and> read_bytes m' b 64 = t2_view (m, s) b"
    if b: "64 dvd unat b" "align_down base 64 \<le> b" "unat b < unat base + unat sz" for b
  proof -
    have nv: "\<not> line_valid s' b" using i b e by (simp add: word_less_nat_alt)
    have "alignToLine b = b" using b(1) by (simp add: alignToLine_eq align_down_aligned)
    then have "getCoherencyState b s' = INVALID"
      using nv by (auto simp: getCoherencyState_def line_valid_def split: option.splits)
    moreover have "read_bytes m' b 64 = t2_view (m, s) b" using v [rule_format, OF b(1)] nv by (simp add: t2_view_def [of "(m', s')"])
    ultimately show ?thesis ..
  qed
  then show ?thesis using r v by (auto simp: invalidateRange_def align_down_base line_addr_def)
qed

lemma invalidate_range_writes_back_witness:
  "\<exists>m' s'. invalidateRange (\<lambda>_. 0) 0x1010 0x100 demo_type2 = Some (m', s')"
  using invalidate_range_writes_back [OF demo_type2_ok, of "0x1010" "0x100" "\<lambda>_. 0"] by auto

text \<open>The address arithmetic of the controller is unchecked. A range that reaches into the last line of
  the address space is invalidated for ever, and a device store whose offset and size wrap passes the
  bounds check and lands below the BAR4 mapping.\<close>

theorem type2_wraps:
  assumes "2 ^ 64 - 64 < unat base + unat sz" "unat base + unat sz < 2 ^ 64"
    and "t2_bar4 s \<noteq> 0" "8 \<le> c2_bar4_size (t2_config s)"
  shows "invalidateRange m base sz s = None \<and>
    memStore m (-8) data 16 s = write_bytes m (t2_bar4 s - 8) (take 16 data)"
proof
  have "unat (base + sz) = unat base + unat sz" using assms(2) by (simp add: unat_word_ariths(1))
  then have "2 ^ 64 - 64 < unat (base + sz)" using assms(1) by simp
  from invalidate_loop_top [OF _ unat_align_down_dvd this] show "invalidateRange m base sz s = None"
    by (cases "invalidateRange m base sz s") (auto simp: invalidateRange_def align_down_base)
  show "memStore m (-8) data 16 s = write_bytes m (t2_bar4 s - 8) (take 16 data)"
    using assms(3,4) by (simp add: memStore_def)
qed

lemma type2_wraps_witness: "invalidateRange (\<lambda>_. 0) (-128) 127 demo_type2 = None"
  using type2_wraps [of "-128" 127 demo_type2 "\<lambda>_. 0" "[]"] by (simp add: demo_type2_def)

text \<open>Lines are keyed by the aligned address but filled from the address given. After a load at an
  unaligned address inside a line not yet cached, a load of the line itself returns the bytes of the
  unaligned address.\<close>

theorem unaligned_load_poisons_line:
  assumes "t2_ok (m, s)" "line_addr a" "\<not> line_valid s a" "alignToLine b = a" "b \<noteq> 0"
  shows "\<exists>s1 s2. cacheLoad clk m b 64 s = Some ((read_bytes m b 64, SHARED), s1) \<and>
    cacheLoad clk m a 64 s1 = Some ((read_bytes m b 64, SHARED), s2)"
proof -
  let ?p = "processDelayBuffer (clk 0) s"
  let ?l = "line_at ?p a" and ?by = "read_bytes m b 64"
  let ?l' = "?l\<lparr>cl_data := ?by, cl_state := SHARED, cl_dirty := False, cl_timestamp := clk 1\<rparr>"
  let ?s2 = "?p\<lparr>t2_misses := t2_misses ?p + 1, t2_cache := (t2_cache ?p)(a \<mapsto> ?l')\<rparr>"
  have "length (cl_data ?l) = 64" using line_at_length [of m ?p] assms(1) by (simp add: t2_ok_def)
  then have ov: "overlay ?by (cl_data ?l) = ?by" by (intro overlay_full) simp
  have "delay_ok ?p" using assms(1) by (simp add: t2_ok_def)
  then have "delay_ok ?s2" by (simp add: delay_ok_def)
  then obtain s1 where e: "enqueueDelayedOp a [] READ (c2_read_latency (t2_config ?s2)) (clk 2) ?s2 = Some s1"
    and c: "t2_cache s1 = t2_cache ?s2" using enqueue_ok by blast
  have nv: "\<not> line_valid ?p a" using assms(3) by (simp add: line_valid_def)
  have mn: "unat (min 64 CXL_CACHE_LINE_SIZE) = 64" by (simp add: CXL_CACHE_LINE_SIZE_def)
  have first: "cacheLoad clk m b 64 s = Some ((?by, SHARED), s1)"
    using assms(5) e unfolding cacheLoad_def Let_def assms(4) if_not_P [OF nv]
    by (simp only: ov mn if_True simp_thms if_False option.map prod.case)
  have "line_valid (processDelayBuffer (clk 0) s1) a" "line_at (processDelayBuffer (clk 0) s1) a = ?l'"
    using c by (simp_all add: line_valid_def line_at_def)
  then show ?thesis using first assms(2) by (simp add: cacheLoad_def Let_def)
qed

lemma unaligned_load_poisons_line_witness:
  "\<exists>s1 s2. cacheLoad (\<lambda>_. 0) (\<lambda>_. 0) 0x1004 64 demo_type2 = Some ((read_bytes (\<lambda>_. 0) 0x1004 64, SHARED), s1) \<and>
     cacheLoad (\<lambda>_. 0) (\<lambda>_. 0) 0x1000 64 s1 = Some ((read_bytes (\<lambda>_. 0) 0x1004 64, SHARED), s2)"
proof -
  have "line_addr 0x1000" "\<not> line_valid demo_type2 0x1000" "alignToLine 0x1004 = 0x1000"
    by (simp_all add: line_addr_def line_valid_def demo_type2_def alignToLine_def CXL_CACHE_LINE_SIZE_def)
  from unaligned_load_poisons_line [OF demo_type2_ok this] show ?thesis by simp
qed

text \<open>A snoop can bring a dead line back. Sent to an invalidated line, a snoop to any other state makes
  the line valid again with the bytes it last held, whatever host memory holds by then.\<close>

theorem snoop_revives_stale_line:
  assumes "line_addr a" "t2_cache s a = Some l" "cl_state l = INVALID" "new_state \<noteq> INVALID"
  shows "t2_view (m, s) a = read_bytes m a 64 \<and> t2_view (handleSnoop m a new_state s) a = cl_data l"
  using assms by (simp add: handleSnoop_def t2_view_at Let_def)

lemma snoop_revives_stale_line_witness:
  "t2_view (handleSnoop (\<lambda>_. 1) 0x1000 SHARED (demo_type2\<lparr>t2_cache := [0x1000 \<mapsto>
      \<lparr>cl_data = replicate 64 0, cl_state = INVALID, cl_dirty = False, cl_timestamp = 0\<rparr>]\<rparr>)) 0x1000 = replicate 64 0"
  using snoop_revives_stale_line [of "0x1000" "demo_type2\<lparr>t2_cache := [0x1000 \<mapsto>
      \<lparr>cl_data = replicate 64 0, cl_state = INVALID, cl_dirty = False, cl_timestamp = 0\<rparr>]\<rparr>" _ SHARED "\<lambda>_. 1"]
  by (simp add: line_addr_def)

text \<open>A depth of 0 set by hand makes the first queued operation pop an empty queue.\<close>

lemma zero_depth_pops_empty_queue:
  "t2_delay s = [] \<Longrightarrow> enqueueDelayedOp a data ty delay now (setDelayBufferDepth 0 s) = None"
  by (simp add: enqueueDelayedOp_def setDelayBufferDepth_def)

text \<open>Once the controller is initialised, \<open>cira_type2_set_delay\<close> has no effect.\<close>

lemma set_delay_ignored:
  "t2_initialized s \<Longrightarrow> cira_type2_set_delay mmap_bar junk r w c s = (True, s)"
  by (simp add: cira_type2_set_delay_def t2_initialize_def)

end
