(* ===== verification/Addr_Translate.thy ===== *)
theory Addr_Translate
  imports C_Env
begin

text \<open>
  Address translation of \<^verbatim>\<open>runtime/src/CiraRuntime.cpp\<close>: the table of registered linear regions,
  the token that imitates an LLC address, and the order in which \<open>translate_runtime_paddr\<close> tries its
  sources. The kernel's answers (page size, pagemap, the translation \<open>ioctl\<close>) are arguments.
  \<open>None\<close> marks a shift the C++ standard leaves undefined.
\<close>

record region =
  rg_virtual :: addr
  rg_size :: u64
  rg_device :: addr
  rg_flags :: u64

definition EINVAL :: int where "EINVAL = 22"
definition ENOENT :: int where "ENOENT = 2"

section \<open>Registered regions\<close>

fun replace_region :: "region \<Rightarrow> region list \<Rightarrow> region list option" where
  "replace_region r [] = None"
| "replace_region r (e # es) =
     (if rg_virtual e = rg_virtual r then Some (r # es) else map_option (Cons e) (replace_region r es))"

definition register_linear_region :: "addr \<Rightarrow> u64 \<Rightarrow> u64 \<Rightarrow> u64 \<Rightarrow> region list \<Rightarrow> int \<times> region list" where
  "register_linear_region virtual_base sz device_base flags regs =
     (if virtual_base = 0 \<or> sz = 0 then (- EINVAL, regs)
      else let r = \<lparr>rg_virtual = virtual_base, rg_size = sz, rg_device = device_base, rg_flags = flags\<rparr> in
        (case replace_region r regs of Some regs' \<Rightarrow> (0, regs') | None \<Rightarrow> (0, regs @ [r])))"

definition unregister_linear_region :: "addr \<Rightarrow> region list \<Rightarrow> int \<times> region list" where
  "unregister_linear_region virtual_base regs =
     (if virtual_base = 0 then (- EINVAL, regs)
      else let regs' = filter (\<lambda>r. rg_virtual r \<noteq> virtual_base) regs in
        if length regs' = length regs then (- ENOENT, regs) else (0, regs'))"

text \<open>The first region that contains the pointer.\<close>

fun translate_registered_region :: "addr \<Rightarrow> region list \<Rightarrow> addr option" where
  "translate_registered_region p [] = None"
| "translate_registered_region p (r # rs) =
     (if p = 0 then None
      else if p < rg_virtual r then translate_registered_region p rs
      else let offset = p - rg_virtual r in
        if rg_size r \<le> offset then translate_registered_region p rs
        else Some (rg_device r + offset))"

section \<open>Parity and masks\<close>

definition parity64 :: "u64 \<Rightarrow> u32" where
  "parity64 value =
     (let v1 = value XOR drop_bit 32 value; v2 = v1 XOR drop_bit 16 v1; v3 = v2 XOR drop_bit 8 v2;
          v4 = v3 XOR drop_bit 4 v3; n = v4 AND 0xf
      in drop_bit (unat n) 0x6996 AND 1)"

fun skip_separators :: "string \<Rightarrow> string" where
  "skip_separators [] = []"
| "skip_separators (c # cs) =
     (if c = CHR '','' \<or> c = CHR '' '' \<or> c = CHR 0x09 then skip_separators cs else c # cs)"

lemma skip_separators_length: "length (skip_separators cs) \<le> length cs"
  by (induction cs) auto

function parse_masks :: "string \<Rightarrow> u64 list" where
  "parse_masks cs =
     (let cursor = skip_separators cs in
      if cursor = [] then []
      else (case strtoull0 cursor of (mk, n, erange) \<Rightarrow>
        if erange \<or> n = 0 then [] else mk # parse_masks (drop n cursor)))"
  by pat_completeness auto
termination
proof (relation "measure length")
  show "wf (measure length)" by simp
next
  fix cs cursor and x :: "u64 \<times> nat \<times> bool" and mk y n erange
  assume "cursor = skip_separators cs" "cursor \<noteq> []" "(mk, y) = x" "(n, erange) = y" "\<not> (erange \<or> n = 0)"
  then have "length (drop n cursor) < length cursor" by simp
  also have "\<dots> \<le> length cs" using skip_separators_length \<open>cursor = skip_separators cs\<close> by simp
  finally show "(drop n cursor, cs) \<in> measure length" by simp
qed

declare parse_masks.simps [simp del]

definition parse_mask_list :: "string option \<Rightarrow> u64 list" where
  "parse_mask_list text = (case text of None \<Rightarrow> [] | Some cs \<Rightarrow> parse_masks cs)"

section \<open>The kernel's translations\<close>

record cache_translate =
  ct_user_va :: u64
  ct_length :: u64
  ct_flags :: u64
  ct_device_addr :: u64
  ct_host_phys_addr :: u64
  ct_cache_id :: u32
  ct_snoop_id :: u32

text \<open>\<open>_IOWR('C', 0xCA, cira_cxl_cache_translate)\<close>, the struct being 48 bytes.\<close>

definition kDefaultCxlCacheTranslateIoctl :: u64 where
  "kDefaultCxlCacheTranslateIoctl =
     push_bit 30 3 OR push_bit 16 48 OR push_bit 8 0x43 OR 0xCA"

record kernel =
  k_open_ok :: "string \<Rightarrow> bool"
  k_ioctl :: "u64 \<Rightarrow> cache_translate \<Rightarrow> cache_translate option"
  k_page_size :: int
  k_pagemap :: "u64 \<Rightarrow> u64 option"

definition kernel_cxl_translate_addr :: "env \<Rightarrow> kernel \<Rightarrow> addr \<Rightarrow> addr option" where
  "kernel_cxl_translate_addr env k p =
     (if p = 0 then None
      else let dev_path = (case env ''CIRA_CXL_CACHE_DEV'' of
                 None \<Rightarrow> ''/dev/cxl/cache0'' | Some v \<Rightarrow> if v = [] then ''/dev/cxl/cache0'' else v) in
        if \<not> k_open_ok k dev_path then None
        else let req = \<lparr>ct_user_va = p, ct_length = parse_env_u64_default env ''CIRA_CXL_TRANSLATE_LEN'' 64,
                   ct_flags = parse_env_u64_default env ''CIRA_CXL_TRANSLATE_FLAGS'' 0, ct_device_addr = 0,
                   ct_host_phys_addr = 0, ct_cache_id = 0, ct_snoop_id = 0\<rparr>;
                 nr = parse_env_u64_default env ''CIRA_CXL_TRANSLATE_IOCTL'' kDefaultCxlCacheTranslateIoctl in
          (case k_ioctl k nr req of
             None \<Rightarrow> None
           | Some r \<Rightarrow> if ct_device_addr r \<noteq> 0 then Some (ct_device_addr r)
                       else if ct_host_phys_addr r \<noteq> 0 then Some (ct_host_phys_addr r) else None))"

definition pagemap_physical_addr :: "kernel \<Rightarrow> addr \<Rightarrow> addr" where
  "pagemap_physical_addr k p =
     (if p = 0 then 0
      else if k_page_size k \<le> 0 then 0
      else let ps = of_int (k_page_size k) :: u64; vpn = p div ps; page_offset = p mod ps in
        (case k_pagemap k (vpn * 8) of
           None \<Rightarrow> 0
         | Some entry \<Rightarrow>
             if entry AND push_bit 63 1 = 0 then 0
             else let pfn = entry AND (push_bit 55 1 - 1) in
               if pfn = 0 then 0 else pfn * ps + page_offset))"

definition address_basis_for_runtime_token :: "env \<Rightarrow> kernel \<Rightarrow> addr \<Rightarrow> addr" where
  "address_basis_for_runtime_token env k p =
     (if env_equals env ''CIRA_PADDR_SOURCE'' ''virtual'' then p
      else let phys = pagemap_physical_addr k p in if phys \<noteq> 0 then phys else p)"

section \<open>The LLC-like token\<close>

record llc_shape =
  ls_line_bits :: u64
  ls_set_bits :: u64
  ls_slice_shift :: u64
  ls_slices :: u64

definition llc_shape_from_env :: "env \<Rightarrow> llc_shape" where
  "llc_shape_from_env env =
     (let line_bits = parse_env_u64_default env ''CIRA_LLC_LINE_BITS'' 6;
          set_bits = parse_env_u64_default env ''CIRA_LLC_SET_BITS'' 11;
          slice_shift = parse_env_u64_default env ''CIRA_LLC_SLICE_SHIFT'' 56;
          num_slices = parse_env_u64_default env ''CIRA_LLC_SLICES'' 1
      in \<lparr>ls_line_bits = (if 63 \<le> line_bits then 6 else line_bits),
          ls_set_bits = (if 32 \<le> set_bits then 11 else set_bits),
          ls_slice_shift = (if 63 \<le> slice_shift then 56 else slice_shift),
          ls_slices = (if num_slices = 0 then 1 else num_slices)\<rparr>)"

text \<open>One bit of the slice number per mask; a mask past the 64th would shift too far.\<close>

fun mask_bits :: "u64 \<Rightarrow> u64 list \<Rightarrow> nat \<Rightarrow> u64" where
  "mask_bits basis [] i = 0"
| "mask_bits basis (m # ms) i = push_bit i (ucast (parity64 (basis AND m))) OR mask_bits basis ms (i + 1)"

definition llc_slice :: "llc_shape \<Rightarrow> u64 list \<Rightarrow> u64 \<Rightarrow> u64 option" where
  "llc_slice sh masks basis =
     (if masks \<noteq> [] then
        if 64 < length masks then None else Some (mask_bits basis masks 0 mod ls_slices sh)
      else if 1 < ls_slices sh then Some (drop_bit (unat (ls_line_bits sh)) basis mod ls_slices sh mod ls_slices sh)
      else Some (0 mod ls_slices sh))"

definition llc_encode :: "llc_shape \<Rightarrow> u64 list \<Rightarrow> u64 \<Rightarrow> u64 option" where
  "llc_encode sh masks basis =
     (let lb = unat (ls_line_bits sh); sb = unat (ls_set_bits sh) in
      if 64 \<le> lb + sb then None
      else (case llc_slice sh masks basis of
        None \<Rightarrow> None
      | Some sl \<Rightarrow>
          let line_mask = push_bit lb 1 - 1; set_mask = push_bit sb 1 - 1;
              offset = basis AND line_mask; st = drop_bit lb basis AND set_mask;
              tag = drop_bit (lb + sb) basis
          in Some (push_bit (sb + lb) tag OR push_bit lb st OR offset OR
                   push_bit (unat (ls_slice_shift sh)) sl)))"

definition reverse_engineered_llc_addr :: "env \<Rightarrow> kernel \<Rightarrow> addr \<Rightarrow> addr option" where
  "reverse_engineered_llc_addr env k p =
     llc_encode (llc_shape_from_env env) (parse_mask_list (env ''CIRA_LLC_SLICE_MASKS''))
       (address_basis_for_runtime_token env k p)"

section \<open>The order of sources\<close>

definition translate_runtime_paddr :: "env \<Rightarrow> kernel \<Rightarrow> region list \<Rightarrow> addr \<Rightarrow> addr option" where
  "translate_runtime_paddr env k regs p =
     (if p = 0 then Some 0
      else let mode = (case env ''CIRA_PADDR_MODE'' of None \<Rightarrow> [] | Some m \<Rightarrow> m);
               llc = reverse_engineered_llc_addr env k p;
               by_region = mode \<in> {[], ''region'', ''linear'', ''device'', ''driver'', ''kernel''};
               by_kernel = mode \<in> {[], ''driver'', ''kernel''};
               region = (if by_region then translate_registered_region p regs else None) in
        (case region of
           Some t \<Rightarrow> Some t
         | None \<Rightarrow>
             if mode \<in> {''region'', ''linear'', ''device''} then llc
             else (case (if by_kernel then kernel_cxl_translate_addr env k p else None) of
                     Some t \<Rightarrow> Some t
                   | None \<Rightarrow>
                       if mode \<in> {''driver'', ''kernel''} then llc
                       else if mode = [] then llc
                       else if mode = ''llc'' then llc
                       else if mode \<in> {''physical'', ''pagemap''} then
                         (let phys = pagemap_physical_addr k p in Some (if phys \<noteq> 0 then phys else p))
                       else if mode = ''virtual'' then Some p
                       else llc)))"

section \<open>Parity\<close>

primrec odd_bits :: "(nat \<Rightarrow> bool) \<Rightarrow> nat \<Rightarrow> bool" where
  "odd_bits f 0 = False"
| "odd_bits f (Suc n) = (odd_bits f n \<noteq> f n)"

lemma odd_bits_xor: "odd_bits (\<lambda>i. f i \<noteq> g i) n = (odd_bits f n \<noteq> odd_bits g n)"
  by (induction n) auto

lemma odd_bits_add: "odd_bits f (n + k) = (odd_bits f n \<noteq> odd_bits (\<lambda>i. f (n + i)) k)"
  by (induction k) auto

lemma odd_bits_cong: "(\<And>i. i < n \<Longrightarrow> f i = g i) \<Longrightarrow> odd_bits f n = odd_bits g n"
  by (induction n) auto

lemma odd_bits_card: "odd_bits f n = odd (card {i. i < n \<and> f i})"
proof (induction n)
  case (Suc n)
  have "{i. i < Suc n \<and> f i} = (if f n then insert n {i. i < n \<and> f i} else {i. i < n \<and> f i})"
    by (auto simp: less_Suc_eq)
  then show ?case using Suc by simp
qed simp

lemma odd_bits_fold: "odd_bits (bit (v XOR drop_bit n v :: u64)) n = odd_bits (bit v) (n + n)"
proof -
  have "odd_bits (bit (v XOR drop_bit n v)) n = odd_bits (\<lambda>i. bit v i \<noteq> bit v (n + i)) n"
    by (intro odd_bits_cong) (simp add: bit_xor_iff bit_drop_bit_eq)
  then show ?thesis by (simp only: odd_bits_xor odd_bits_add)
qed

lemma parity_table: "\<forall>k \<in> set [0..<16]. drop_bit k 0x6996 AND 1 = (of_bool (odd_bits (bit (of_nat k :: u64)) 4) :: u32)"
  by code_simp

lemma odd_bits_nibble: "odd_bits (bit (v AND 0xf :: u64)) 4 = odd_bits (bit v) 4"
proof -
  have m: "(0xf :: u64) = mask 4" by (simp add: mask_eq_exp_minus_1)
  show ?thesis unfolding m by (intro odd_bits_cong) (simp add: bit_and_iff bit_mask_iff)
qed

lemma parity_of_nibble:
  "drop_bit (unat (v AND 0xf :: u64)) 0x6996 AND 1 = (of_bool (odd_bits (bit v) 4) :: u32)"
proof -
  have "v AND 0xf \<le> 0xf" by (rule word_and_le1)
  then have n: "unat (v AND 0xf) \<in> set [0..<16]" by (simp add: word_le_nat_alt)
  have "(of_nat (unat (v AND 0xf)) :: u64) = v AND 0xf" by simp
  then show ?thesis using bspec [OF parity_table n] by (simp only: odd_bits_nibble)
qed

lemma parity64_odd_bits: "parity64 v = of_bool (odd_bits (bit v) 64)"
proof -
  have s: "odd_bits (bit (w XOR drop_bit 4 w)) 4 = odd_bits (bit w) 8"
    "odd_bits (bit (w XOR drop_bit 8 w)) 8 = odd_bits (bit w) 16"
    "odd_bits (bit (w XOR drop_bit 16 w)) 16 = odd_bits (bit w) 32"
    "odd_bits (bit (w XOR drop_bit 32 w)) 32 = odd_bits (bit w) 64" for w :: u64
    using odd_bits_fold [of w 4] odd_bits_fold [of w 8] odd_bits_fold [of w 16] odd_bits_fold [of w 32]
    by (simp_all del: odd_bits.simps)
  show ?thesis by (simp only: parity64_def Let_def parity_of_nibble s)
qed

section \<open>The token\<close>

lemma token_parts:
  fixes b :: u64
  assumes "lb + sb < 64"
  shows "push_bit (sb + lb) (drop_bit (lb + sb) b) OR push_bit lb (drop_bit lb b AND (push_bit sb 1 - 1)) OR
    (b AND (push_bit lb 1 - 1)) OR r = b OR r"
proof -
  have m: "push_bit n 1 - 1 = (mask n :: u64)" for n by (simp add: mask_eq_exp_minus_1 push_bit_of_1)
  show ?thesis
    unfolding m
  proof (rule bit_word_eqI)
    fix n assume "n < LENGTH(64)"
    then show "bit (push_bit (sb + lb) (drop_bit (lb + sb) b) OR push_bit lb (drop_bit lb b AND mask sb) OR
        (b AND mask lb) OR r) n = bit (b OR r) n"
      using assms
      by (cases "n < lb"; cases "n < lb + sb")
        (auto simp: bit_or_iff bit_push_bit_iff bit_drop_bit_eq bit_and_iff bit_mask_iff add.commute)
  qed
qed

lemma llc_encode_eq:
  assumes "unat (ls_line_bits sh) + unat (ls_set_bits sh) < 64" "llc_slice sh masks b = Some sl"
  shows "llc_encode sh masks b = Some (b OR push_bit (unat (ls_slice_shift sh)) sl)"
  unfolding llc_encode_def Let_def if_not_P [OF iffD2 [OF not_le assms(1)]] assms(2) option.case
    token_parts [OF assms(1)] ..

lemma llc_slice_bound:
  assumes "llc_slice sh masks b = Some sl" "ls_slices sh \<noteq> 0"
  shows "sl < ls_slices sh"
proof -
  have "x mod ls_slices sh < ls_slices sh" for x
    using assms(2) by (simp add: word_less_nat_alt unat_mod unat_gt_0)
  then show ?thesis using assms(1) using assms(2) by (auto simp: llc_slice_def word_gt_0 split: if_splits)
qed

section \<open>The table of regions\<close>

definition region_contains :: "region \<Rightarrow> addr \<Rightarrow> bool" where
  "region_contains r p \<longleftrightarrow> rg_virtual r \<le> p \<and> p - rg_virtual r < rg_size r"

lemma translate_Cons:
  "p \<noteq> 0 \<Longrightarrow> translate_registered_region p (r # rs) =
     (if region_contains r p then Some (rg_device r + (p - rg_virtual r)) else translate_registered_region p rs)"
  by (auto simp: region_contains_def Let_def not_le not_less)

lemma translate_skip:
  assumes "p \<noteq> 0" "\<forall>r \<in> set rs. \<not> region_contains r p"
  shows "translate_registered_region p (rs @ rs') = translate_registered_region p rs'"
  using assms(2) by (induction rs) (simp_all add: translate_Cons [OF assms(1)] del: translate_registered_region.simps(2))


section \<open>Properties\<close>

text \<open>The table-driven \<open>parity64\<close> is the parity of the number of bits set in the word.\<close>

theorem parity64_counts_bits: "parity64 v = of_nat (card {i. i < 64 \<and> bit v i} mod 2)"
  by (simp add: parity64_odd_bits odd_bits_card odd_iff_mod_2_eq_one of_bool_def)

lemma llc_encode_Some:
  assumes "llc_encode sh masks b = Some t"
  shows "\<exists>sl. llc_slice sh masks b = Some sl \<and> t = b OR push_bit (unat (ls_slice_shift sh)) sl"
proof -
  have lt: "unat (ls_line_bits sh) + unat (ls_set_bits sh) < 64"
    using assms by (simp add: llc_encode_def Let_def split: if_splits)
  obtain sl where sl: "llc_slice sh masks b = Some sl"
    using assms lt by (cases "llc_slice sh masks b") (simp_all add: llc_encode_def)
  show ?thesis using assms sl by (simp add: llc_encode_eq [OF lt sl])
qed

lemma low_bits_or_high:
  fixes b x :: u64
  assumes "b < push_bit k 1" "k < 64"
  shows "(b OR push_bit k x) AND mask k = b"
proof -
  have "b AND mask k = b" using assms by (intro less_mask_eq) (simp add: push_bit_eq_mult)
  then show ?thesis by (simp add: bit_eq_iff bit_and_iff bit_or_iff bit_mask_iff bit_push_bit_iff) (metis not_le)
qed

text \<open>Two addresses below the slice field get different tokens, and the address is the token's
  low part: the cache-shape fields are a reordering of the address itself.\<close>

theorem llc_token_keeps_address:
  assumes "llc_encode sh masks b = Some t" "b < push_bit (unat (ls_slice_shift sh)) 1"
    "ls_slice_shift sh < 64"
  shows "t AND (push_bit (unat (ls_slice_shift sh)) 1 - 1) = b"
proof -
  obtain sl where t: "t = b OR push_bit (unat (ls_slice_shift sh)) sl" using llc_encode_Some [OF assms(1)] by blast
  have k: "unat (ls_slice_shift sh) < 64" using assms(3) by (simp add: word_less_nat_alt)
  have m: "push_bit (unat (ls_slice_shift sh)) 1 - 1 = (mask (unat (ls_slice_shift sh)) :: u64)"
    by (simp add: mask_eq_exp_minus_1 push_bit_of_1)
  show ?thesis unfolding m t by (rule low_bits_or_high [OF assms(2) k])
qed

theorem llc_token_keeps_address_witness:
  "llc_encode \<lparr>ls_line_bits = 6, ls_set_bits = 11, ls_slice_shift = 56, ls_slices = 4\<rparr> [0x40, 0x80] 0x12345
     = Some 0x100000000012345 \<and>
   (0x100000000012345 :: u64) AND (push_bit (unat (56 :: u64)) 1 - 1) = 0x12345"
proof -
  let ?sh = "\<lparr>ls_line_bits = 6, ls_set_bits = 11, ls_slice_shift = 56, ls_slices = 4\<rparr>"
  have e: "llc_encode ?sh [0x40, 0x80] 0x12345 = Some 0x100000000012345" by code_simp
  have "0x100000000012345 AND (push_bit (unat (ls_slice_shift ?sh)) 1 - 1) = (0x12345 :: u64)"
    by (rule llc_token_keeps_address [OF e]) (code_simp, code_simp)
  then show ?thesis using e by simp
qed

lemma replace_region_None: "replace_region r regs = None \<longleftrightarrow> rg_virtual r \<notin> rg_virtual ` set regs"
  by (induction regs) auto

lemma replace_region_bases: "replace_region r regs = Some regs' \<Longrightarrow> map rg_virtual regs' = map rg_virtual regs"
  by (induction regs arbitrary: regs') (auto split: if_splits)

lemma register_bases_distinct:
  "distinct (map rg_virtual regs) \<Longrightarrow> distinct (map rg_virtual (snd (register_linear_region vb sz db fl regs)))"
  by (auto simp: register_linear_region_def replace_region_None replace_region_bases Let_def split: option.splits)

lemma unregister_bases_distinct:
  "distinct (map rg_virtual regs) \<Longrightarrow> distinct (map rg_virtual (snd (unregister_linear_region vb regs)))"
  by (auto simp: unregister_linear_region_def Let_def distinct_map_filter)

lemma translate_replaced:
  assumes "replace_region r regs = Some regs'" "p \<noteq> 0" "region_contains r p"
    "\<forall>e \<in> set regs. rg_virtual e \<noteq> rg_virtual r \<longrightarrow> \<not> region_contains e p"
  shows "translate_registered_region p regs' = Some (rg_device r + (p - rg_virtual r))"
  using assms(1,4)
  by (induction regs arbitrary: regs')
    (auto simp: translate_Cons [OF assms(2)] assms(3) simp del: translate_registered_region.simps(2) split: if_splits)

lemma translate_registered:
  assumes "vb \<noteq> 0" "sz \<noteq> 0" "p \<noteq> 0" "vb \<le> p" "p - vb < sz"
    "\<forall>e \<in> set regs. rg_virtual e \<noteq> vb \<longrightarrow> \<not> region_contains e p"
  shows "translate_registered_region p (snd (register_linear_region vb sz db fl regs)) = Some (db + (p - vb))"
proof -
  define r where "r = \<lparr>rg_virtual = vb, rg_size = sz, rg_device = db, rg_flags = fl\<rparr>"
  have r: "region_contains r p" "rg_virtual r = vb" "rg_device r = db"
    using assms(4,5) by (simp_all add: r_def region_contains_def)
  show ?thesis
  proof (cases "replace_region r regs")
    case None
    then have "\<forall>e \<in> set regs. \<not> region_contains e p"
      using assms(6) by (auto simp: replace_region_None r(2))
    then have "translate_registered_region p (regs @ [r]) = Some (db + (p - vb))"
      using r by (simp add: translate_skip [OF assms(3)] translate_Cons [OF assms(3)]
        del: translate_registered_region.simps(2))
    then show ?thesis using assms(1,2) None by (simp add: register_linear_region_def r_def)
  next
    case (Some regs')
    then have "translate_registered_region p regs' = Some (db + (p - vb))"
      using translate_replaced [OF Some assms(3) r(1)] assms(6) r by simp
    then show ?thesis using assms(1,2) Some by (simp add: register_linear_region_def r_def)
  qed
qed

section \<open>The address table as an interface\<close>

text \<open>What \<open>translate_runtime_paddr\<close> relies on: a table with an invariant, in which a fresh entry
  is found again and can be taken out without a trace.\<close>

locale address_table =
  fixes ok :: "'t \<Rightarrow> bool"
    and reg :: "addr \<Rightarrow> u64 \<Rightarrow> u64 \<Rightarrow> u64 \<Rightarrow> 't \<Rightarrow> int \<times> 't"
    and unreg :: "addr \<Rightarrow> 't \<Rightarrow> int \<times> 't"
    and known :: "addr \<Rightarrow> 't \<Rightarrow> bool"
  assumes ok_reg: "ok t \<Longrightarrow> ok (snd (reg vb sz db fl t))"
    and ok_unreg: "ok t \<Longrightarrow> ok (snd (unreg vb t))"
    and known_reg: "vb \<noteq> 0 \<Longrightarrow> sz \<noteq> 0 \<Longrightarrow> known b (snd (reg vb sz db fl t)) \<longleftrightarrow> b = vb \<or> known b t"
    and known_unreg: "vb \<noteq> 0 \<Longrightarrow> known b (snd (unreg vb t)) \<longleftrightarrow> b \<noteq> vb \<and> known b t"
    and unreg_result: "vb \<noteq> 0 \<Longrightarrow> fst (unreg vb t) = (if known vb t then 0 else - ENOENT)"
begin

lemma unreg_after_reg: "vb \<noteq> 0 \<Longrightarrow> sz \<noteq> 0 \<Longrightarrow> fst (unreg vb (snd (reg vb sz db fl t))) = 0"
  by (simp add: unreg_result known_reg)

lemma unreg_twice: "vb \<noteq> 0 \<Longrightarrow> fst (unreg vb (snd (unreg vb t))) = - ENOENT"
  by (simp add: unreg_result known_unreg)

end

datatype table_op = Register addr u64 u64 u64 | Unregister addr

definition table_step :: "region list \<Rightarrow> table_op \<Rightarrow> region list" where
  "table_step regs a = (case a of
     Register vb sz db fl \<Rightarrow> snd (register_linear_region vb sz db fl regs)
   | Unregister vb \<Rightarrow> snd (unregister_linear_region vb regs))"

lemma replace_region_members:
  "replace_region r regs = Some regs' \<Longrightarrow> rg_virtual ` set regs' = rg_virtual ` set regs"
  using replace_region_bases [of r regs regs'] by (metis list.set_map)

lemma filter_same_length: "length (filter P xs) = length xs \<longleftrightarrow> (\<forall>x \<in> set xs. P x)"
  by (metis filter_True length_filter_less less_irrefl)

interpretation rt: address_table "\<lambda>regs. distinct (map rg_virtual regs)" register_linear_region
  unregister_linear_region "\<lambda>b regs. b \<in> rg_virtual ` set regs"
proof unfold_locales
  fix vb sz db fl b :: u64 and t :: "region list"
  assume "vb \<noteq> 0" "sz \<noteq> 0"
  then show "b \<in> rg_virtual ` set (snd (register_linear_region vb sz db fl t)) \<longleftrightarrow> b = vb \<or> b \<in> rg_virtual ` set t"
  proof (cases "replace_region \<lparr>rg_virtual = vb, rg_size = sz, rg_device = db, rg_flags = fl\<rparr> t")
    case None
    then show ?thesis using \<open>vb \<noteq> 0\<close> \<open>sz \<noteq> 0\<close> by (auto simp: register_linear_region_def)
  next
    case (Some t')
    moreover have "vb \<in> rg_virtual ` set t" using Some replace_region_None [of "\<lparr>rg_virtual = vb, rg_size = sz, rg_device = db, rg_flags = fl\<rparr>" t]
    by simp
    ultimately show ?thesis using \<open>vb \<noteq> 0\<close> \<open>sz \<noteq> 0\<close> replace_region_members [OF Some]
      by (auto simp: register_linear_region_def)
  qed
next
  fix vb b :: u64 and t :: "region list"
  assume "vb \<noteq> 0"
  then show "b \<in> rg_virtual ` set (snd (unregister_linear_region vb t)) \<longleftrightarrow> b \<noteq> vb \<and> b \<in> rg_virtual ` set t"
    by (auto simp: unregister_linear_region_def Let_def filter_same_length)
next
  fix vb :: u64 and t :: "region list"
  assume "vb \<noteq> 0"
  then show "fst (unregister_linear_region vb t) = (if vb \<in> rg_virtual ` set t then 0 else - ENOENT)"
    by (auto simp: unregister_linear_region_def Let_def filter_same_length)
qed (rule register_bases_distinct unregister_bases_distinct, assumption)+

text \<open>However the regions were registered and removed before, the table holds one entry per base
  address, so that after a removal of the base a second removal reports \<open>ENOENT\<close>.\<close>

theorem region_table_one_entry_per_base:
  "distinct (map rg_virtual (foldl table_step [] ops))"
proof -
  have "distinct (map rg_virtual regs) \<Longrightarrow> distinct (map rg_virtual (foldl table_step regs ops))" for regs
    by (induction ops arbitrary: regs)
      (auto simp: table_step_def rt.ok_reg rt.ok_unreg split: table_op.splits)
  then show ?thesis by simp
qed

text \<open>In every mode that consults the table, a pointer of a registered region translates to the
  device address at the same offset, whatever the kernel or the rest of the environment says, provided
  no region at another base contains the pointer; registering the base again replaces its entry.\<close>

theorem registered_pointer_translates:
  assumes "vb \<noteq> 0" "sz \<noteq> 0" "p \<noteq> 0" "vb \<le> p" "p - vb < sz"
    and "\<forall>e \<in> set regs. rg_virtual e \<noteq> vb \<longrightarrow> \<not> region_contains e p"
    and "env ''CIRA_PADDR_MODE'' \<in> {None, Some [], Some ''region'', Some ''linear'', Some ''device'',
           Some ''driver'', Some ''kernel''}"
  shows "translate_runtime_paddr env k (snd (register_linear_region vb sz db fl regs)) p = Some (db + (p - vb))"
proof -
  have "translate_registered_region p (snd (register_linear_region vb sz db fl regs)) = Some (db + (p - vb))"
    by (rule translate_registered [OF assms(1-6)])
  then show ?thesis using assms(3,7) by (auto simp: translate_runtime_paddr_def Let_def)
qed

definition demo_kernel :: kernel where
  "demo_kernel = \<lparr>k_open_ok = (\<lambda>_. True), k_ioctl = (\<lambda>_ r. Some (r\<lparr>ct_device_addr := 7\<rparr>)), k_page_size = 4096,
     k_pagemap = (\<lambda>_. None)\<rparr>"

theorem registered_pointer_translates_witness:
  "translate_runtime_paddr (\<lambda>_. None) demo_kernel
     (snd (register_linear_region 0x1000 0x100 0x80000 0
       (snd (register_linear_region 0x2000 0x100 0x90000 0 [])))) 0x10f0 = Some 0x800f0"
proof -
  have e: "snd (register_linear_region 0x2000 0x100 0x90000 0 []) =
      [\<lparr>rg_virtual = 0x2000, rg_size = 0x100, rg_device = 0x90000, rg_flags = 0\<rparr>]"
    by (simp add: register_linear_region_def)
  show ?thesis
    unfolding e
    using registered_pointer_translates [of "0x1000" "0x100" "0x10f0"
        "[\<lparr>rg_virtual = 0x2000, rg_size = 0x100, rg_device = 0x90000, rg_flags = 0\<rparr>]" "\<lambda>_. None" demo_kernel
        "0x80000" 0]
    by (simp add: region_contains_def)
qed

text \<open>The two range checks on the cache shape do not exclude a tag shift of 64 or more: with 40 line
  bits and 31 set bits the expression \<open>basis >> (line_bits + set_bits)\<close> is undefined for every pointer.\<close>

theorem llc_shape_checks_admit_undefined_shift:
  assumes "env ''CIRA_LLC_LINE_BITS'' = Some ''40''" "env ''CIRA_LLC_SET_BITS'' = Some ''31''"
  shows "reverse_engineered_llc_addr env k p = None"
proof -
  have d: "''40'' = dec_digits 40" "''31'' = dec_digits 31" by code_simp+
  have "parse_env_u64_default env ''CIRA_LLC_LINE_BITS'' 6 = of_nat 40"
    "parse_env_u64_default env ''CIRA_LLC_SET_BITS'' 11 = of_nat 31"
    using assms unfolding d by (intro parse_env_u64_dec; simp)+
  then show ?thesis
    by (simp add: reverse_engineered_llc_addr_def llc_shape_from_env_def llc_encode_def Let_def)
qed

theorem llc_shape_checks_admit_undefined_shift_witness:
  "reverse_engineered_llc_addr
     ((\<lambda>_. None)(''CIRA_LLC_LINE_BITS'' \<mapsto> ''40'', ''CIRA_LLC_SET_BITS'' \<mapsto> ''31'')) demo_kernel 0x1000 = None"
  by (rule llc_shape_checks_admit_undefined_shift) simp_all

end
