(* ===== verification/Futures.thy ===== *)
theory Futures
  imports Mmio Addr_Translate
begin

text \<open>
  The host side of \<^verbatim>\<open>runtime/src/CiraRuntime.cpp\<close> that compiled code calls: LLC tiles, futures and
  future pools, the phase barrier, offload submission with its software fallback and the GAPBS
  region marker. The process memory, the live heap blocks and the three global tables are one state;
  \<open>posix_memalign\<close> is the argument \<open>alloc\<close> (live blocks, alignment and size give an address or a
  failure). \<open>None\<close> is either a \<open>free\<close> of something that is not a live block or a wait that never
  returns. \<open>world m t\<close> is the memory at the \<open>t\<close>-th load of a wait that starts from \<open>m\<close>.
\<close>

record tile_meta =
  tm_allocation :: addr
  tm_requested_size :: u64
  tm_aligned_size :: u64
  tm_completion :: addr

record futures =
  f_mem :: mem
  f_live :: "(addr \<times> u64) list"
  f_tiles :: "addr \<rightharpoonup> tile_meta"
  f_active :: "addr list"
  f_regions :: "region list"

type_synonym allocator = "(addr \<times> u64) list \<Rightarrow> u64 \<Rightarrow> u64 \<Rightarrow> addr option"

definition CIRA_CACHELINE_BYTES :: u64 where "CIRA_CACHELINE_BYTES = CIRA_CXL_CACHELINE_SIZE"

section \<open>Heap blocks\<close>

definition posix_memalign :: "allocator \<Rightarrow> u64 \<Rightarrow> u64 \<Rightarrow> futures \<Rightarrow> addr \<times> futures" where
  "posix_memalign alloc al sz s =
     (case alloc (f_live s) al sz of
        None \<Rightarrow> (0, s)
      | Some p \<Rightarrow> (p, s\<lparr>f_live := (p, sz) # f_live s\<rparr>))"

definition c_free :: "addr \<Rightarrow> futures \<Rightarrow> futures option" where
  "c_free p s =
     (if p = 0 then Some s
      else if p \<in> fst ` set (f_live s) then Some (s\<lparr>f_live := filter (\<lambda>b. fst b \<noteq> p) (f_live s)\<rparr>)
      else None)"

section \<open>Cache-line hints\<close>

partial_function (option) line_loop :: "addr \<Rightarrow> addr \<Rightarrow> addr list option" where
  "line_loop cl end =
     (if cl < end then Option.bind (line_loop (cl + 64) end) (\<lambda>ls. Some (cl # ls)) else Some [])"

definition prefetch_locality :: "int \<Rightarrow> nat" where
  "prefetch_locality cache_level = (if cache_level = 1 then 3 else if cache_level = 2 then 2 else 1)"

text \<open>The prefetches issued, with their locality argument.\<close>

definition cira_install_cacheline_x86 :: "addr \<Rightarrow> u64 \<Rightarrow> int \<Rightarrow> (nat \<times> addr) list option" where
  "cira_install_cacheline_x86 a sz cache_level =
     (if a = 0 \<or> sz = 0 then Some []
      else map_option (map (Pair (prefetch_locality cache_level)))
             (line_loop (align_down a 64) (align_up (a + sz) 64)))"

definition cira_evict_hint_x86 :: "addr \<Rightarrow> u64 \<Rightarrow> addr list option" where
  "cira_evict_hint_x86 a sz =
     (if a = 0 \<or> sz = 0 then Some [] else line_loop (align_down a 64) (align_up (a + sz) 64))"

section \<open>Completion helpers and the list of active futures\<close>

definition clear_completion :: "addr \<Rightarrow> futures \<Rightarrow> futures" where
  "clear_completion c s = s\<lparr>f_mem := cira_mmio_arm_completion c (f_mem s)\<rparr>"

definition complete_in_software :: "addr \<Rightarrow> u32 \<Rightarrow> u64 \<Rightarrow> futures \<Rightarrow> futures" where
  "complete_in_software c status result s =
     s\<lparr>f_mem := run_events (cira_mmio_signal_completion c status result) (f_mem s)\<rparr>"

definition track_active_future :: "addr \<Rightarrow> futures \<Rightarrow> futures" where
  "track_active_future c s =
     (if c = 0 then s
      else if c \<in> set (f_active s) then s
      else s\<lparr>f_active := f_active s @ [c]\<rparr>)"

definition untrack_active_future :: "addr \<Rightarrow> futures \<Rightarrow> futures" where
  "untrack_active_future c s = (if c = 0 then s else s\<lparr>f_active := filter (\<lambda>p. p \<noteq> c) (f_active s)\<rparr>)"

definition untrack_future_range :: "addr \<Rightarrow> u64 \<Rightarrow> futures \<Rightarrow> futures" where
  "untrack_future_range base bytes s =
     (if base = 0 \<or> bytes = 0 then s
      else s\<lparr>f_active := filter (\<lambda>a. \<not> (base \<le> a \<and> a < base + bytes)) (f_active s)\<rparr>)"

section \<open>Futures\<close>

definition cira_future_alloc :: "allocator \<Rightarrow> futures \<Rightarrow> addr \<times> futures" where
  "cira_future_alloc alloc s =
     (case posix_memalign alloc 64 64 s of (p, s1) \<Rightarrow>
        if p = 0 then (0, s1) else (p, s1\<lparr>f_mem := memset (f_mem s1) p 0 64\<rparr>))"

definition cira_future_free :: "addr \<Rightarrow> futures \<Rightarrow> futures option" where
  "cira_future_free c s = (if c = 0 then Some s else c_free c (untrack_active_future c s))"

text \<open>The address of the result field, and how often the line was loaded.\<close>

definition cira_future_await ::
  "env \<Rightarrow> u32 \<Rightarrow> (nat \<Rightarrow> mem) \<Rightarrow> (nat \<Rightarrow> u64) \<Rightarrow> addr \<Rightarrow> (addr \<times> nat) option" where
  "cira_future_await env budget snap clk c =
     (if c = 0 then Some (0, 0)
      else map_option (\<lambda>(rc, k). (c + 8, k))
             (cira_mmio_wait_completion budget snap clk c (cira_mmio_default_timeout_ns env)))"

section \<open>LLC tiles\<close>

definition align_up_cacheline :: "u64 \<Rightarrow> u64" where
  "align_up_cacheline sz =
     (let requested = (if sz \<noteq> 0 then sz else CIRA_CACHELINE_BYTES) in
      if (- 1) - (CIRA_CACHELINE_BYTES - 1) < requested then 0
      else (requested + CIRA_CACHELINE_BYTES - 1) AND NOT (CIRA_CACHELINE_BYTES - 1))"

definition lookup_llc_tile :: "addr \<Rightarrow> futures \<Rightarrow> tile_meta option" where
  "lookup_llc_tile tile s = (if tile = 0 then None else f_tiles s tile)"

definition cira_llc_tile_alloc :: "allocator \<Rightarrow> u64 \<Rightarrow> futures \<Rightarrow> (addr \<times> futures) option" where
  "cira_llc_tile_alloc alloc sz s =
     (let aligned = align_up_cacheline sz in
      if aligned = 0 then Some (0, s)
      else case posix_memalign alloc CIRA_CACHELINE_BYTES aligned s of (tile, s1) \<Rightarrow>
        if tile = 0 then Some (0, s1)
        else case cira_future_alloc alloc (s1\<lparr>f_mem := memset (f_mem s1) tile 0 (unat aligned)\<rparr>) of (c, s2) \<Rightarrow>
          if c = 0 then map_option (Pair 0) (c_free tile s2)
          else let s3 = s2\<lparr>f_tiles := (f_tiles s2)(tile \<mapsto> \<lparr>tm_allocation = tile,
                     tm_requested_size = (if sz \<noteq> 0 then sz else CIRA_CACHELINE_BYTES),
                     tm_aligned_size = aligned, tm_completion = c\<rparr>)\<rparr>;
                   s4 = complete_in_software c 0 tile s3
               in Option.bind (cira_install_cacheline_x86 tile aligned 3) (\<lambda>_. Some (tile, s4)))"

definition cira_llc_tile_free :: "addr \<Rightarrow> futures \<Rightarrow> futures option" where
  "cira_llc_tile_free tile s =
     (if tile = 0 then Some s
      else case f_tiles s tile of
        None \<Rightarrow> c_free tile s
      | Some md \<Rightarrow>
          Option.bind (cira_future_free (tm_completion md) (s\<lparr>f_tiles := (f_tiles s)(tile := None)\<rparr>))
            (c_free (tm_allocation md)))"

definition cira_llc_tile_future :: "addr \<Rightarrow> futures \<Rightarrow> addr" where
  "cira_llc_tile_future tile s = (case lookup_llc_tile tile s of None \<Rightarrow> 0 | Some md \<Rightarrow> tm_completion md)"

definition cira_llc_tile_install_from_cxl ::
  "allocator \<Rightarrow> addr \<Rightarrow> addr \<Rightarrow> u64 \<Rightarrow> addr \<Rightarrow> futures \<Rightarrow> (addr \<times> futures) option" where
  "cira_llc_tile_install_from_cxl alloc tile cxl sz completion s =
     (if cxl = 0 \<or> sz = 0 then Some (0, s)
      else Option.bind (if tile \<noteq> 0 then Some (tile, s) else cira_llc_tile_alloc alloc sz s) (\<lambda>(dst, s1).
        if dst = 0 then Some (0, s1)
        else let md = lookup_llc_tile dst s1;
                 n = (case md of None \<Rightarrow> sz | Some t \<Rightarrow> min sz (tm_aligned_size t));
                 c = (if completion \<noteq> 0 then completion
                      else case md of None \<Rightarrow> 0 | Some t \<Rightarrow> tm_completion t);
                 s2 = clear_completion c s1;
                 s3 = s2\<lparr>f_mem := memcpy (f_mem s2) dst cxl (unat n)\<rparr>
             in Option.bind (cira_install_cacheline_x86 dst n 3) (\<lambda>_. Some (dst, complete_in_software c 0 dst s3))))"

definition cira_llc_tile_get_mwait ::
  "env \<Rightarrow> u32 \<Rightarrow> (mem \<Rightarrow> nat \<Rightarrow> mem) \<Rightarrow> (nat \<Rightarrow> u64) \<Rightarrow> addr \<Rightarrow> futures \<Rightarrow> addr option" where
  "cira_llc_tile_get_mwait env budget world clk tile s =
     (if tile = 0 then Some 0
      else case lookup_llc_tile tile s of
        None \<Rightarrow> Some tile
      | Some md \<Rightarrow>
          if tm_completion md = 0 then Some tile
          else Option.bind (cira_future_await env budget (world (f_mem s)) clk (tm_completion md)) (\<lambda>_.
            Option.bind (cira_install_cacheline_x86 tile (tm_aligned_size md) 3) (\<lambda>_. Some tile)))"


section \<open>Future pools\<close>

text \<open>A pool is reached through a pointer that may be null; operations that change it return it.\<close>

record future_pool =
  fp_base :: addr
  fp_depth :: u32
  fp_bytes :: u64
  fp_registered :: bool

definition future_pool_entry :: "future_pool option \<Rightarrow> u32 \<Rightarrow> addr" where
  "future_pool_entry pool index =
     (case pool of
        None \<Rightarrow> 0
      | Some p \<Rightarrow> if fp_base p = 0 \<or> fp_depth p \<le> index then 0 else fp_base p + ucast index * CIRA_CACHELINE_BYTES)"

definition cira_future_pool_alloc ::
  "allocator \<Rightarrow> bool \<Rightarrow> u32 \<Rightarrow> futures \<Rightarrow> (future_pool option \<times> futures) option" where
  "cira_future_pool_alloc alloc new_ok depth s =
     (if depth = 0 then Some (None, s)
      else let bytes = ucast depth * CIRA_CACHELINE_BYTES in
        if bytes div CIRA_CACHELINE_BYTES \<noteq> ucast depth then Some (None, s)
        else case posix_memalign alloc CIRA_CACHELINE_BYTES bytes s of (base, s1) \<Rightarrow>
          if base = 0 then Some (None, s1)
          else let s2 = s1\<lparr>f_mem := memset (f_mem s1) base 0 (unat bytes)\<rparr> in
            if \<not> new_ok then map_option (Pair None) (c_free base s2)
            else Some (Some \<lparr>fp_base = base, fp_depth = depth, fp_bytes = bytes, fp_registered = False\<rparr>, s2))"

definition cira_future_pool_free :: "future_pool option \<Rightarrow> futures \<Rightarrow> futures option" where
  "cira_future_pool_free pool s =
     (case pool of
        None \<Rightarrow> Some s
      | Some p \<Rightarrow>
          let s1 = (if fp_registered p
                    then s\<lparr>f_regions := snd (unregister_linear_region (fp_base p) (f_regions s))\<rparr> else s)
          in c_free (fp_base p) (untrack_future_range (fp_base p) (fp_bytes p) s1))"

definition cira_future_pool_depth :: "future_pool option \<Rightarrow> u32" where
  "cira_future_pool_depth pool = (case pool of None \<Rightarrow> 0 | Some p \<Rightarrow> fp_depth p)"

definition cira_future_pool_get :: "future_pool option \<Rightarrow> u32 \<Rightarrow> addr" where
  "cira_future_pool_get pool index = future_pool_entry pool index"

definition cira_future_pool_get_device_addr ::
  "env \<Rightarrow> kernel \<Rightarrow> future_pool option \<Rightarrow> u32 \<Rightarrow> futures \<Rightarrow> addr option" where
  "cira_future_pool_get_device_addr env k pool index s =
     (let entry = cira_future_pool_get pool index in
      if entry \<noteq> 0 then translate_runtime_paddr env k (f_regions s) entry else Some 0)"

definition cira_future_pool_register ::
  "future_pool option \<Rightarrow> u64 \<Rightarrow> u64 \<Rightarrow> futures \<Rightarrow> int \<times> future_pool option \<times> futures" where
  "cira_future_pool_register pool device_base flags s =
     (case pool of
        None \<Rightarrow> (- EINVAL, pool, s)
      | Some p \<Rightarrow>
          if fp_base p = 0 \<or> fp_bytes p = 0 then (- EINVAL, pool, s)
          else case register_linear_region (fp_base p) (fp_bytes p) device_base flags (f_regions s) of (rc, regs) \<Rightarrow>
            (rc, Some (if rc = 0 then p\<lparr>fp_registered := True\<rparr> else p), s\<lparr>f_regions := regs\<rparr>))"

definition cira_future_pool_unregister ::
  "future_pool option \<Rightarrow> futures \<Rightarrow> int \<times> future_pool option \<times> futures" where
  "cira_future_pool_unregister pool s =
     (case pool of
        None \<Rightarrow> (- EINVAL, pool, s)
      | Some p \<Rightarrow>
          if fp_base p = 0 then (- EINVAL, pool, s)
          else case unregister_linear_region (fp_base p) (f_regions s) of (rc, regs) \<Rightarrow>
            (rc, Some (if rc = 0 then p\<lparr>fp_registered := False\<rparr> else p), s\<lparr>f_regions := regs\<rparr>))"

definition cira_future_pool_arm :: "future_pool option \<Rightarrow> u32 \<Rightarrow> futures \<Rightarrow> int \<times> futures" where
  "cira_future_pool_arm pool index s =
     (let entry = cira_future_pool_get pool index in
      if entry = 0 then (- EINVAL, s) else (0, track_active_future entry (clear_completion entry s)))"

section \<open>Phase barrier\<close>

text \<open>
  The active futures are waited for one after the other. \<open>world i m t\<close> is the memory at the \<open>t\<close>-th
  load of the \<open>i\<close>-th wait. The return codes, which the code drops, are kept as a trace.
\<close>

fun barrier_waits ::
  "u32 \<Rightarrow> (nat \<Rightarrow> nat \<Rightarrow> mem) \<Rightarrow> (nat \<Rightarrow> nat \<Rightarrow> u64) \<Rightarrow> u64 \<Rightarrow> nat \<Rightarrow> addr list \<Rightarrow> (mmio_rc \<times> nat) list option" where
  "barrier_waits budget snaps clks timeout_ns i [] = Some []"
| "barrier_waits budget snaps clks timeout_ns i (c # cs) =
     (if c = 0 then barrier_waits budget snaps clks timeout_ns (i + 1) cs
      else Option.bind (cira_mmio_wait_completion budget (snaps i) (clks i) c timeout_ns) (\<lambda>r.
        map_option (Cons r) (barrier_waits budget snaps clks timeout_ns (i + 1) cs)))"

definition cira_phase_barrier ::
  "env \<Rightarrow> u32 \<Rightarrow> (nat \<Rightarrow> nat \<Rightarrow> mem) \<Rightarrow> (nat \<Rightarrow> nat \<Rightarrow> u64) \<Rightarrow> futures \<Rightarrow> ((mmio_rc \<times> nat) list \<times> futures) option" where
  "cira_phase_barrier env budget snaps clks s =
     map_option (\<lambda>rs. (rs, s\<lparr>f_active := []\<rparr>))
       (barrier_waits budget snaps clks (cira_mmio_default_timeout_ns env) 0 (f_active s))"

section \<open>Offload submission\<close>

definition submit_mmio_call ::
  "env \<Rightarrow> os \<Rightarrow> u32 \<Rightarrow> (mem \<Rightarrow> nat \<Rightarrow> mem) \<Rightarrow> (nat \<Rightarrow> u64) \<Rightarrow> addr \<Rightarrow> addr \<Rightarrow> int \<Rightarrow> addr \<Rightarrow> mmio_globals \<Rightarrow> futures
     \<Rightarrow> (bool \<times> mmio_globals \<times> futures) option" where
  "submit_mmio_call env os budget world clk func operands num_operands completion g s =
     (case cira_mmio_default env os g (f_mem s) of (w, g1, calls, m1) \<Rightarrow>
        let s1 = s\<lparr>f_mem := m1\<rparr> in
        if w = None then Some (False, g1, s1)
        else let argc = (if 0 < num_operands then of_int num_operands else 0) in
          (case cira_mmio_submit_call env g1 w func operands argc completion of (rc, w', es, sq) \<Rightarrow>
             if rc \<noteq> CIRA_MMIO_OK then Some (False, g1, s1)
             else let g2 = g1\<lparr>g_default_window := w'\<rparr>; s2 = s1\<lparr>f_mem := run_events es m1\<rparr> in
               if env_flag_enabled env ''CIRA_CXL_MMIO_WAIT'' \<and> completion \<noteq> 0 then
                 map_option (\<lambda>(rc, k). (True, g2, s2\<lparr>f_mem := world (f_mem s2) (k - 1)\<rparr>))
                   (cira_mmio_wait_completion budget (world (f_mem s2)) clk completion (cira_mmio_default_timeout_ns env))
               else Some (True, g2, s2)))"

definition cira_offload_submit ::
  "env \<Rightarrow> os \<Rightarrow> u32 \<Rightarrow> (mem \<Rightarrow> nat \<Rightarrow> mem) \<Rightarrow> (nat \<Rightarrow> u64) \<Rightarrow> addr \<Rightarrow> addr \<Rightarrow> int \<Rightarrow> addr \<Rightarrow> mmio_globals \<Rightarrow> futures
     \<Rightarrow> (mmio_globals \<times> futures) option" where
  "cira_offload_submit env os budget world clk func operands num_operands completion g s =
     Option.bind (submit_mmio_call env os budget world clk func operands num_operands completion g
         (track_active_future completion (clear_completion completion s)))
       (\<lambda>(done, g1, s1). Some (g1, if done then s1 else complete_in_software completion 0 0 s1))"

section \<open>The GAPBS marker\<close>

text \<open>The two gem5 pseudo-instructions, whose answers are the argument \<open>m5\<close>.\<close>

datatype m5_call = M5_Prefetch addr u64 | M5_Prefetch_Csr u64 u64 u64 u64 u64 u64

definition gapbs_record_stride :: "env \<Rightarrow> u32 \<Rightarrow> u64" where
  "gapbs_record_stride env benchmark_id =
     (let stride = (if benchmark_id = 1 then 8 else 4) in
      case parse_env_u64 env ''CIRA_GAPBS_RECORD_STRIDE'' of None \<Rightarrow> stride | Some v \<Rightarrow> v)"

text \<open>The answer, the pseudo-instruction issued if any, and the entries of \<open>out_index\<close> that were read.\<close>

definition emit_gapbs_gem5_cira_marker ::
  "env \<Rightarrow> (m5_call \<Rightarrow> u64) \<Rightarrow> mem \<Rightarrow> u32 \<Rightarrow> addr \<Rightarrow> u64 \<Rightarrow> bool \<times> m5_call option \<times> u64 list" where
  "emit_gapbs_gem5_cira_marker env m5 m benchmark_id a bytes =
     (if a = 0 then (False, None, [])
      else let stride = gapbs_record_stride env benchmark_id;
               num_nodes = read64 m (a + 8); out_index = read64 m (a + 24);
               fallback = M5_Prefetch a (if bytes \<noteq> 0 then bytes else CIRA_CACHELINE_BYTES) in
        if stride = 0 \<or> 0xffff < stride \<or> sint num_nodes \<le> 0 \<or> out_index = 0
        then (m5 fallback \<noteq> 0, Some fallback, [])
        else let row_start0 = (case parse_env_u64 env ''CIRA_GAPBS_CSR_ROW_START'' of None \<Rightarrow> 0 | Some v \<Rightarrow> v);
                 row_start = (if num_nodes < row_start0 then num_nodes else row_start0);
                 row_count0 = num_nodes - row_start;
                 row_count = (case parse_env_u64 env ''CIRA_GAPBS_CSR_ROW_LIMIT'' of
                   None \<Rightarrow> row_count0 | Some l \<Rightarrow> if l < row_count0 then l else row_count0) in
          if row_count = 0 then (False, None, [])
          else let row_end = row_start + row_count;
                   record_begin = read64 m (out_index + 8 * row_start);
                   record_end = read64 m (out_index + 8 * row_end) in
            if record_begin = 0 \<or> record_end \<le> record_begin then (m5 fallback \<noteq> 0, Some fallback, [row_start, row_end])
            else let flags = push_bit 0 1 OR push_bit 3 1;
                     packed = push_bit 8 (stride AND 0xffff) OR push_bit 56 (flags AND 0xff);
                     csr = M5_Prefetch_Csr record_begin record_end 0 row_start row_count packed
                 in (m5 csr \<noteq> 0, Some csr, [row_start, row_end]))"

definition cira_gapbs_region_marker ::
  "env \<Rightarrow> os \<Rightarrow> allocator \<Rightarrow> (m5_call \<Rightarrow> u64) \<Rightarrow> u32 \<Rightarrow> (mem \<Rightarrow> nat \<Rightarrow> mem) \<Rightarrow> (nat \<Rightarrow> u64) \<Rightarrow> (nat \<Rightarrow> u64) \<Rightarrow> addr \<Rightarrow> u32 \<Rightarrow> u32
     \<Rightarrow> addr \<Rightarrow> u64 \<Rightarrow> mmio_globals \<Rightarrow> futures \<Rightarrow> (mmio_globals \<times> futures) option" where
  "cira_gapbs_region_marker env os alloc m5 budget world clk1 clk2 operands benchmark_id region_id a bytes g s =
     (let cache_level = (case parse_env_u64 env ''CIRA_GAPBS_CACHE_LEVEL'' of None \<Rightarrow> 3 | Some v \<Rightarrow> v) in
      Option.bind (if a \<noteq> 0 \<and> bytes \<noteq> 0 \<and> (env_flag_enabled env ''CIRA_GAPBS_PREFETCH'' \<or>
                      env_flag_enabled env ''CIRA_GAPBS_INSTALL_CACHELINE'')
                   then cira_install_cacheline_x86 a bytes (sint (ucast cache_level :: u32)) else Some []) (\<lambda>_.
        if env_flag_enabled env ''CIRA_GAPBS_MARKER_ONLY'' then Some (g, s)
        else if (env_flag_enabled env ''CIRA_GEM5_M5OPS'' \<or> env_flag_enabled env ''CIRA_GAPBS_GEM5_M5OPS'')
             \<and> fst (emit_gapbs_gem5_cira_marker env m5 (f_mem s) benchmark_id a bytes) then Some (g, s)
        else case cira_future_alloc alloc s of (c, s1) \<Rightarrow>
          if c = 0 then Some (g, s1)
          else let s2 = s1\<lparr>f_mem := write_bytes (f_mem s1) operands
                   (le_bytes 8 (ucast benchmark_id :: u64) @ le_bytes 8 (ucast region_id :: u64) @
                    le_bytes 8 a @ le_bytes 8 bytes)\<rparr> in
            Option.bind (cira_offload_submit env os budget world clk1 0 operands 4 c g s2) (\<lambda>(g1, s3).
              Option.bind (cira_future_await env budget (world (f_mem s3)) clk2 c) (\<lambda>(r, k).
                map_option (Pair g1) (cira_future_free c (s3\<lparr>f_mem := world (f_mem s3) (k - 1)\<rparr>))))))"


section \<open>Which lines a hint touches\<close>

lemma line_loop_closed:
  assumes "unat end = unat cl + 64 * n"
  shows "line_loop cl end = Some (map (\<lambda>i. cl + of_nat (64 * i)) [0..<n])"
  using assms
proof (induction n arbitrary: cl)
  case 0
  then show ?case by (subst line_loop.simps) (simp add: word_less_nat_alt)
next
  case (Suc n)
  have "unat cl + 64 < 2 ^ 64" using Suc.prems unat_lt_u64 [of "end"] by simp
  then have "unat (cl + 64) = unat cl + 64" by (simp add: unat_word_ariths(1))
  then have "line_loop (cl + 64) end = Some (map (\<lambda>i. cl + 64 + of_nat (64 * i)) [0..<n])"
    using Suc.prems by (intro Suc.IH) simp
  moreover have "[0..<Suc n] = 0 # map Suc [0..<n]" by (simp add: map_Suc_upt upt_conv_Cons)
  ultimately show ?case
    using Suc.prems by (subst line_loop.simps) (simp add: word_less_nat_alt add.assoc del: upt_Suc)
qed

lemma hint_lines:
  assumes "unat a + unat sz + 63 < 2 ^ 64"
  shows "line_loop (align_down a 64) (align_up (a + sz) 64) =
    Some (map (\<lambda>l. of_nat (64 * l)) [unat a div 64 ..< (unat a + unat sz + 63) div 64])"
proof -
  let ?n = "(unat a + unat sz + 63) div 64 - unat a div 64"
  have "unat (a + sz + 63) = unat a + unat sz + 63" using assms by (simp add: unat_word_ariths)
  then have "unat (align_up (a + sz) 64) = 64 * ((unat a + unat sz + 63) div 64)"
    by (simp add: align_up_64_eq unat_align_down_64)
  also have "\<dots> = unat (align_down a 64) + 64 * ?n"
    by (simp add: unat_align_down_64 diff_mult_distrib2 [symmetric])
  finally have "line_loop (align_down a 64) (align_up (a + sz) 64) =
      Some (map (\<lambda>i. align_down a 64 + of_nat (64 * i)) [0..<?n])" by (rule line_loop_closed)
  moreover have "align_down a 64 = of_nat (64 * (unat a div 64))"
    by (metis of_nat_unat ucast_id unat_align_down_64)
  moreover have "map (\<lambda>i. of_nat (64 * q) + of_nat (64 * i) :: addr) [0..<n - q] = map (\<lambda>l. of_nat (64 * l)) [q..<n]"
    for q n :: nat
    by (rule nth_equalityI) (simp_all add: algebra_simps)
  ultimately show ?thesis by simp
qed

lemma line_loop_total: "64 dvd unat cl \<Longrightarrow> 64 dvd unat end \<Longrightarrow> \<exists>ls. line_loop cl end = Some ls"
proof (cases "cl < end")
  case True
  assume "64 dvd unat cl" "64 dvd unat end"
  then obtain n where "unat end = unat cl + 64 * n" using True
    by (auto simp: word_less_nat_alt dvd_def) (metis add_diff_inverse_nat less_or_eq_imp_le mult_less_cancel1 not_le right_diff_distrib')
  then show ?thesis using line_loop_closed by blast
qed (subst line_loop.simps, simp)

lemma install_hint_total: "\<exists>ls. cira_install_cacheline_x86 a sz lv = Some ls"
proof -
  have "64 dvd unat (align_down a 64)" "64 dvd unat (align_up (a + sz) 64)"
    by (simp_all add: align_up_64_eq unat_align_down_dvd)
  from line_loop_total [OF this] show ?thesis by (auto simp: cira_install_cacheline_x86_def)
qed

lemma bind_install_hint [simp]: "Option.bind (cira_install_cacheline_x86 a sz lv) (\<lambda>_. r) = r"
  using install_hint_total [of a sz lv] by auto


section \<open>Offload without a device\<close>

lemma default_keeps_func: "cira_mmio_default env os g m = (w, g1, calls, m1) \<Longrightarrow> g_device_func g1 = g_device_func g"
  by (auto simp: cira_mmio_default_def Let_def split: if_splits prod.splits)

lemma no_device_submit:
  assumes "fst (cira_mmio_default env os g (f_mem s)) = None \<or> func = 0 \<and> cira_mmio_device_func env g = 0"
  shows "\<exists>g1 m1. submit_mmio_call env os budget world clk func operands num_operands completion g s =
    Some (False, g1, s\<lparr>f_mem := m1\<rparr>)"
proof -
  obtain w g1 calls m1 where d: "cira_mmio_default env os g (f_mem s) = (w, g1, calls, m1)"
    by (metis prod_cases4)
  have "cira_mmio_device_func env g1 = cira_mmio_device_func env g"
    using default_keeps_func [OF d] by (simp add: cira_mmio_device_func_def)
  then have "w = None \<or> fst (cira_mmio_submit_call env g1 w func operands argc completion) \<noteq> CIRA_MMIO_OK" for argc
    using assms d by (auto simp: cira_mmio_submit_call_def)
  then have r: "w = None \<or> rc \<noteq> CIRA_MMIO_OK" if "cira_mmio_submit_call env g1 w func operands argc completion = (rc, x)" for argc rc x
    using that by (metis fst_conv)
  obtain rc w' es sq where c: "cira_mmio_submit_call env g1 w func operands
      (if 0 < num_operands then of_int num_operands else 0) completion = (rc, w', es, sq)" by (metis prod_cases4)
  show ?thesis using r [OF c] unfolding submit_mmio_call_def d Let_def prod.case c by auto
qed

lemma signalled_magic: "c \<noteq> 0 \<Longrightarrow> read32 (run_events (cira_mmio_signal_completion c st r) m) c = CIRA_CXL_COMPLETION_MAGIC"
  using signalled_line [of c st r m] by (simp add: load_completion_def)

lemma wait_at_once:
  assumes "c \<noteq> 0" "read32 (snap 0) c = CIRA_CXL_COMPLETION_MAGIC"
  shows "cira_mmio_wait_completion budget snap clk c timeout = Some (CIRA_MMIO_OK, 1)"
  using assms by (simp add: cira_mmio_wait_completion_def cira_wait_u32_def wait_impl_def satisfied_def)

text \<open>The software fallback. With no control window, or with neither a function nor a configured device
  entry point, \<open>cira_offload_submit\<close> returns with the completion line complete: status and result 0,
  the future active once, and an await on it returns the result field at its first load, without
  waiting, whatever timeout is configured.\<close>

theorem offload_fallback_completes:
  assumes "c \<noteq> 0"
    and "fst (cira_mmio_default env os g (cira_mmio_arm_completion c (f_mem s))) = None \<or>
         func = 0 \<and> cira_mmio_device_func env g = 0"
  shows "\<exists>g' s'. cira_offload_submit env os budget world clk func operands num_operands c g s = Some (g', s') \<and>
    load_completion (f_mem s') c = \<lparr>cp_magic = CIRA_CXL_COMPLETION_MAGIC, cp_status = 0, cp_result = 0,
      cp_cycles = 0, cp_timestamp = 0\<rparr> \<and>
    f_active s' = (if c \<in> set (f_active s) then f_active s else f_active s @ [c]) \<and>
    cira_future_await env budget (\<lambda>_. f_mem s') clk c = Some (c + 8, 1)"
proof -
  let ?s = "track_active_future c (clear_completion c s)"
  have m: "f_mem ?s = cira_mmio_arm_completion c (f_mem s)"
    by (simp add: track_active_future_def clear_completion_def)
  obtain g1 m1 where r: "submit_mmio_call env os budget world clk func operands num_operands c g ?s =
      Some (False, g1, ?s\<lparr>f_mem := m1\<rparr>)"
    using no_device_submit [where s = ?s and env = env and os = os and g = g and func = func] assms(2)
    unfolding m by blast
  let ?m = "run_events (cira_mmio_signal_completion c 0 0) m1"
  have "cira_offload_submit env os budget world clk func operands num_operands c g s = Some (g1, ?s\<lparr>f_mem := ?m\<rparr>)"
    by (simp add: cira_offload_submit_def r complete_in_software_def)
  moreover have "f_active ?s = (if c \<in> set (f_active s) then f_active s else f_active s @ [c])"
    using assms(1) by (simp add: track_active_future_def clear_completion_def)
  moreover have "cira_future_await env budget (\<lambda>_. ?m) clk c = Some (c + 8, 1)"
    using assms(1) by (simp add: cira_future_await_def wait_at_once signalled_magic)
  ultimately show ?thesis using signalled_line [OF assms(1), of 0 0 m1] by auto
qed

definition no_globals :: mmio_globals where
  "no_globals = \<lparr>g_default_window = None, g_default_probed = True, g_device_func = 0\<rparr>"

definition demo_futures :: futures where
  "demo_futures = \<lparr>f_mem = (\<lambda>_. 0), f_live = [], f_tiles = (\<lambda>_. None), f_active = [], f_regions = []\<rparr>"

definition demo_os :: os where
  "demo_os = \<lparr>os_new = None, os_mmap_anon = (\<lambda>_. None), os_open = (\<lambda>_ _. None), os_mmap_fd = (\<lambda>_ _ _ _. None)\<rparr>"

lemma offload_fallback_completes_witness:
  "\<exists>g' s'. cira_offload_submit (\<lambda>_. None) demo_os 16 (\<lambda>m t. m) (\<lambda>_. 0) 0 0 0 0x1000 no_globals demo_futures = Some (g', s') \<and>
    f_active s' = [0x1000]"
  using offload_fallback_completes [of "0x1000" "\<lambda>_. None" demo_os no_globals demo_futures 0 16 "\<lambda>m t. m" "\<lambda>_. 0" 0 0]
  by (auto simp: no_globals_def demo_futures_def cira_mmio_default_def)

section \<open>The phase barrier\<close>

lemma barrier_all:
  assumes "0 \<notin> set cs" "\<forall>j < length cs. \<exists>n. read32 (snaps (i + j) n) (cs ! j) = CIRA_CXL_COMPLETION_MAGIC"
  shows "\<exists>rs. barrier_waits budget snaps clks 0 i cs = Some rs \<and> length rs = length cs \<and>
    (\<forall>j < length cs. fst (rs ! j) = CIRA_MMIO_OK \<and>
       read32 (snaps (i + j) (snd (rs ! j) - 1)) (cs ! j) = CIRA_CXL_COMPLETION_MAGIC)"
  using assms
proof (induction cs arbitrary: i)
  case (Cons c cs)
  have c: "c \<noteq> 0" using Cons.prems(1) by auto
  obtain n where n: "read32 (snaps i n) c = CIRA_CXL_COMPLETION_MAGIC" using Cons.prems(2) by force
  then have "satisfied Equal CIRA_CXL_COMPLETION_MAGIC (read32 (snaps i n) c)" by (simp add: satisfied_def)
  from wait_impl_untimed_returns [OF c, of Equal CIRA_CXL_COMPLETION_MAGIC "\<lambda>t. read32 (snaps i t) c" n budget "clks i", OF this]
  obtain k where k: "wait_impl budget c (\<lambda>t. read32 (snaps i t) c) (clks i) CIRA_CXL_COMPLETION_MAGIC Equal 0 = Some (True, k)"
    by blast
  have first: "read32 (snaps i (k - 1)) c = CIRA_CXL_COMPLETION_MAGIC"
    using wait_impl_true [OF k] by (simp add: satisfied_def)
  have w: "cira_mmio_wait_completion budget (snaps i) (clks i) c 0 = Some (CIRA_MMIO_OK, k)"
    using c k by (simp add: cira_mmio_wait_completion_def cira_wait_u32_def)
  have "\<forall>j < length cs. \<exists>n. read32 (snaps (i + 1 + j) n) (cs ! j) = CIRA_CXL_COMPLETION_MAGIC"
  proof (intro allI impI)
    fix j assume "j < length cs"
    then show "\<exists>n. read32 (snaps (i + 1 + j) n) (cs ! j) = CIRA_CXL_COMPLETION_MAGIC"
      using Cons.prems(2) [rule_format, of "Suc j"] by simp
  qed
  from Cons.IH [OF _ this] Cons.prems(1) obtain rs where
    rs: "barrier_waits budget snaps clks 0 (i + 1) cs = Some rs" "length rs = length cs"
    and all: "\<forall>j < length cs. fst (rs ! j) = CIRA_MMIO_OK \<and>
      read32 (snaps (i + 1 + j) (snd (rs ! j) - 1)) (cs ! j) = CIRA_CXL_COMPLETION_MAGIC" by auto
  have "\<forall>j < length (c # cs). fst (((CIRA_MMIO_OK, k) # rs) ! j) = CIRA_MMIO_OK \<and>
      read32 (snaps (i + j) (snd (((CIRA_MMIO_OK, k) # rs) ! j) - 1)) ((c # cs) ! j) = CIRA_CXL_COMPLETION_MAGIC"
    using first all by (auto simp: nth_Cons split: nat.splits)
  then show ?case using c w rs by (intro exI [of _ "(CIRA_MMIO_OK, k) # rs"]) simp
qed simp



text \<open>With a timeout the barrier forgets futures that are still in flight: a future that never completes
  makes the wait time out, the result is dropped, and the list is cleared all the same.\<close>

theorem phase_barrier_drops_pending:
  assumes "f_active s = [c]" "c \<noteq> 0" "\<forall>t. read32 (snaps 0 t) c \<noteq> CIRA_CXL_COMPLETION_MAGIC"
    and "cira_mmio_default_timeout_ns env = T" "T \<noteq> 0" "clks 0 0 + T \<noteq> 0" "clks 0 0 + T \<le> clks 0 1"
  shows "\<exists>k. cira_phase_barrier env budget snaps clks s = Some ([(CIRA_MMIO_ETIMEDOUT, k)], s\<lparr>f_active := []\<rparr>)"
proof -
  let ?obs = "\<lambda>t. read32 (snaps 0 t) c"
  obtain r k where w: "wait_impl budget c ?obs (clks 0) CIRA_CXL_COMPLETION_MAGIC Equal T = Some (r, k)"
    using wait_impl_timed_returns [OF assms(5,6,7), of budget c ?obs CIRA_CXL_COMPLETION_MAGIC Equal] by auto
  have "\<not> r"
    using wait_impl_true [of budget c ?obs "clks 0" CIRA_CXL_COMPLETION_MAGIC Equal T k] w assms(3)
    by (auto simp: satisfied_def)
  then have "cira_mmio_wait_completion budget (snaps 0) (clks 0) c T = Some (CIRA_MMIO_ETIMEDOUT, k)"
    using w assms(2) by (simp add: cira_mmio_wait_completion_def cira_wait_u32_def)
  then show ?thesis using assms(1,2,4) by (auto simp: cira_phase_barrier_def)
qed

lemma phase_barrier_drops_pending_witness:
  "\<exists>k. cira_phase_barrier (\<lambda>n. if n = ''CIRA_CXL_MMIO_TIMEOUT_NS'' then Some ''100'' else None) 16 (\<lambda>_ _ _. 0)
     (\<lambda>_ t. if t = 0 then 5 else 200) (demo_futures\<lparr>f_active := [0x1000]\<rparr>)
   = Some ([(CIRA_MMIO_ETIMEDOUT, k)], demo_futures\<lparr>f_active := []\<rparr>)"
proof -
  let ?env = "\<lambda>n. if n = ''CIRA_CXL_MMIO_TIMEOUT_NS'' then Some ''100'' else None"
  have d: "''100'' = dec_digits 100" by code_simp
  have "parse_env_u64 ?env ''CIRA_CXL_MMIO_TIMEOUT_NS'' = Some (of_nat 100)"
    unfolding d by (rule parse_env_u64_dec) simp_all
  then have t: "cira_mmio_default_timeout_ns ?env = 100"
    by (simp add: cira_mmio_default_timeout_ns_def mmio_parse_env_u64_def)
  have z: "read_bytes (\<lambda>_. 0) a 4 = replicate 4 0" for a :: addr
    by (rule nth_equalityI) (simp_all add: nth_read_bytes)
  have "\<forall>t. read32 (\<lambda>_. 0) 0x1000 \<noteq> CIRA_CXL_COMPLETION_MAGIC"
    by (simp add: read32_def z le_word_zeros CIRA_CXL_COMPLETION_MAGIC_def)
  then show ?thesis
    using phase_barrier_drops_pending [of "demo_futures\<lparr>f_active := [0x1000]\<rparr>" "0x1000" "\<lambda>_ _ _. 0" ?env 100
        "\<lambda>_ t. if t = 0 then 5 else 200" 16] t by simp
qed


section \<open>The heap behind the tiles\<close>

text \<open>What \<open>posix_memalign\<close> promises: a fresh, aligned, non-null block clear of every live one.\<close>

definition good_alloc :: "allocator \<Rightarrow> bool" where
  "good_alloc alloc \<longleftrightarrow> (\<forall>live al sz p. alloc live al sz = Some p \<longrightarrow>
     p \<noteq> 0 \<and> unat al dvd unat p \<and> unat p + unat sz \<le> 2 ^ 64 \<and> p \<notin> fst ` set live \<and>
     (\<forall>(b, n) \<in> set live. disjoint_rng p (unat sz) b (unat n)))"

definition blocks_ok :: "(addr \<times> u64) list \<Rightarrow> bool" where
  "blocks_ok live \<longleftrightarrow> distinct (map fst live) \<and> (\<forall>b \<in> set live. fst b \<noteq> 0) \<and>
     (\<forall>(a, n) \<in> set live. \<forall>(b, k) \<in> set live. a \<noteq> b \<longrightarrow> disjoint_rng a (unat n) b (unat k))"

text \<open>Every tile owns two live blocks, its own and its completion line, shared with no other tile.\<close>

definition tile_ok :: "futures \<Rightarrow> addr \<Rightarrow> tile_meta \<Rightarrow> bool" where
  "tile_ok s t md \<longleftrightarrow> tm_allocation md = t \<and> (t, tm_aligned_size md) \<in> set (f_live s) \<and>
     (tm_completion md, 64) \<in> set (f_live s) \<and> tm_completion md \<noteq> t"

definition heap_ok :: "futures \<Rightarrow> bool" where
  "heap_ok s \<longleftrightarrow> blocks_ok (f_live s) \<and> (\<forall>t md. f_tiles s t = Some md \<longrightarrow> tile_ok s t md) \<and>
     (\<forall>t md u md'. f_tiles s t = Some md \<longrightarrow> f_tiles s u = Some md' \<longrightarrow> t \<noteq> u \<longrightarrow>
        tm_completion md \<noteq> tm_completion md' \<and> tm_completion md \<noteq> u)"

lemma heap_okD:
  assumes "heap_ok s" "f_tiles s t = Some md"
  shows "tm_allocation md = t" "(t, tm_aligned_size md) \<in> set (f_live s)" "(tm_completion md, 64) \<in> set (f_live s)"
    "tm_completion md \<noteq> t" "t \<noteq> 0" "tm_completion md \<noteq> 0"
proof -
  have nz: "p \<noteq> 0" if "(p, n) \<in> set (f_live s)" for p n
    using assms(1) that by (force simp: heap_ok_def blocks_ok_def)
  have t: "tile_ok s t md" using assms by (simp add: heap_ok_def)
  then show "tm_allocation md = t" "(t, tm_aligned_size md) \<in> set (f_live s)" "(tm_completion md, 64) \<in> set (f_live s)"
    "tm_completion md \<noteq> t" by (simp_all add: tile_ok_def)
  then show "t \<noteq> 0" "tm_completion md \<noteq> 0" using nz by blast+
qed

lemma memalign_Some:
  assumes "good_alloc alloc" "posix_memalign alloc al sz s = (p, s1)" "p \<noteq> 0"
  shows "s1 = s\<lparr>f_live := (p, sz) # f_live s\<rparr>" "p \<notin> fst ` set (f_live s)" "unat al dvd unat p"
    "unat p + unat sz \<le> 2 ^ 64" "\<forall>(b, n) \<in> set (f_live s). disjoint_rng p (unat sz) b (unat n)"
proof -
  have al: "alloc (f_live s) al sz = Some p" "s1 = s\<lparr>f_live := (p, sz) # f_live s\<rparr>"
    using assms(2,3) by (auto simp: posix_memalign_def split: option.splits)
  show "s1 = s\<lparr>f_live := (p, sz) # f_live s\<rparr>" by (rule al(2))
  show "p \<notin> fst ` set (f_live s)" "unat al dvd unat p"
    "unat p + unat sz \<le> 2 ^ 64" "\<forall>(b, n) \<in> set (f_live s). disjoint_rng p (unat sz) b (unat n)"
    using assms(1) al(1) unfolding good_alloc_def by blast+
qed

lemma memalign_None:
  assumes "good_alloc alloc" "posix_memalign alloc al sz s = (0, s1)"
  shows "s1 = s"
  using assms by (auto simp: posix_memalign_def good_alloc_def split: option.splits)

lemma blocks_ok_Cons:
  assumes "blocks_ok live" "p \<noteq> 0" "p \<notin> fst ` set live" "\<forall>(b, n) \<in> set live. disjoint_rng p (unat sz) b (unat n)"
  shows "blocks_ok ((p, sz) # live)"
  using assms by (auto simp: blocks_ok_def disjoint_rng_sym)

lemma blocks_ok_filter: "blocks_ok live \<Longrightarrow> blocks_ok (filter P live)"
  by (auto simp: blocks_ok_def distinct_map_filter)

lemma blocks_ok_unique: "blocks_ok live \<Longrightarrow> (a, n) \<in> set live \<Longrightarrow> (a, k) \<in> set live \<Longrightarrow> n = k"
  by (auto simp: blocks_ok_def intro: eq_key_imp_eq_value)

lemma blocks_ok_disjoint:
  "blocks_ok live \<Longrightarrow> (a, n) \<in> set live \<Longrightarrow> (b, k) \<in> set live \<Longrightarrow> a \<noteq> b \<Longrightarrow> disjoint_rng a (unat n) b (unat k)"
  by (auto simp: blocks_ok_def)

lemma free_block:
  assumes "p \<in> fst ` set (f_live s)" "p \<noteq> 0"
  shows "c_free p s = Some (s\<lparr>f_live := filter (\<lambda>b. fst b \<noteq> p) (f_live s)\<rparr>)"
  using assms by (auto simp: c_free_def)

lemma filter_fresh: "p \<notin> fst ` set live \<Longrightarrow> filter (\<lambda>b. fst b \<noteq> p) live = live"
  by (auto simp: filter_id_conv)

text \<open>Allocation of a tile, in each of its three outcomes.\<close>

lemma tile_alloc_cases:
  assumes "good_alloc alloc"
  obtains (fail) "cira_llc_tile_alloc alloc sz s = Some (0, s)"
  | (late_fail) m where "cira_llc_tile_alloc alloc sz s = Some (0, s\<lparr>f_mem := m\<rparr>)"
  | (tile) t c m where "cira_llc_tile_alloc alloc sz s = Some (t, s\<lparr>f_mem := run_events (cira_mmio_signal_completion c 0 t) m,
        f_live := (c, 64) # (t, align_up_cacheline sz) # f_live s,
        f_tiles := (f_tiles s)(t \<mapsto> \<lparr>tm_allocation = t,
          tm_requested_size = (if sz \<noteq> 0 then sz else CIRA_CACHELINE_BYTES),
          tm_aligned_size = align_up_cacheline sz, tm_completion = c\<rparr>)\<rparr>)"
      "t \<noteq> 0" "c \<noteq> 0" "t \<notin> fst ` set (f_live s)" "c \<notin> fst ` set ((t, align_up_cacheline sz) # f_live s)"
      "\<forall>(b, n) \<in> set (f_live s). disjoint_rng t (unat (align_up_cacheline sz)) b (unat n)"
      "\<forall>(b, n) \<in> set ((t, align_up_cacheline sz) # f_live s). disjoint_rng c 64 b (unat n)"
      "m = memset (memset (f_mem s) t 0 (unat (align_up_cacheline sz))) c 0 64"
      "64 dvd unat t" "unat t + unat (align_up_cacheline sz) \<le> 2 ^ 64"
proof (cases "align_up_cacheline sz = 0")
  case True
  then show thesis using fail by (simp add: cira_llc_tile_alloc_def)
next
  case False
  let ?al = "align_up_cacheline sz"
  obtain t s1 where a: "posix_memalign alloc CIRA_CACHELINE_BYTES ?al s = (t, s1)" by fastforce
  show thesis
  proof (cases "t = 0")
    case True
    then show thesis using fail a False memalign_None [OF assms] by (simp add: cira_llc_tile_alloc_def Let_def)
  next
    case t: False
    note A = memalign_Some [OF assms a t]
    let ?s = "s1\<lparr>f_mem := memset (f_mem s1) t 0 (unat ?al)\<rparr>"
    obtain c s2 where b: "posix_memalign alloc 64 64 ?s = (c, s2)" by fastforce
    show thesis
    proof (cases "c = 0")
      case True
      have "s2 = ?s" using b True memalign_None [OF assms] by simp
      then have "cira_llc_tile_alloc alloc sz s = map_option (Pair 0) (c_free t ?s)"
        using True False t a b by (simp add: cira_llc_tile_alloc_def cira_future_alloc_def Let_def)
      also have "c_free t ?s = Some (s\<lparr>f_mem := memset (f_mem s) t 0 (unat ?al)\<rparr>)"
        using t A(1,2) by (simp add: c_free_def filter_fresh)
      finally show thesis using late_fail by simp
    next
      case c: False
      note B = memalign_Some [OF assms b c]
      show thesis
      proof (rule tile [of t c])
        show "cira_llc_tile_alloc alloc sz s = Some (t, s\<lparr>f_mem := run_events (cira_mmio_signal_completion c 0 t)
              (memset (memset (f_mem s) t 0 (unat ?al)) c 0 64),
            f_live := (c, 64) # (t, ?al) # f_live s, f_tiles := (f_tiles s)(t \<mapsto> \<lparr>tm_allocation = t,
              tm_requested_size = (if sz \<noteq> 0 then sz else CIRA_CACHELINE_BYTES),
              tm_aligned_size = ?al, tm_completion = c\<rparr>)\<rparr>)"
          using False t c a b A(1) B(1)
          by (simp add: cira_llc_tile_alloc_def cira_future_alloc_def complete_in_software_def Let_def)
      qed (use t c A B in \<open>simp_all add: CIRA_CACHELINE_BYTES_def window_defs\<close>)
    qed
  qed
qed


text \<open>Freeing a tile gives back both of its blocks.\<close>

lemma tile_free_known:
  assumes "heap_ok s" "f_tiles s t = Some md"
  shows "cira_llc_tile_free t s = Some (s\<lparr>f_tiles := (f_tiles s)(t := None),
    f_active := filter (\<lambda>p. p \<noteq> tm_completion md) (f_active s),
    f_live := filter (\<lambda>b. fst b \<noteq> t) (filter (\<lambda>b. fst b \<noteq> tm_completion md) (f_live s))\<rparr>)"
proof -
  note d = heap_okD [OF assms]
  have "t \<in> fst ` set (f_live s)" "tm_completion md \<in> fst ` set (f_live s)" using d(2,3) by force+
  then have m: "t \<in> fst ` set (filter (\<lambda>b. fst b \<noteq> tm_completion md) (f_live s))" "tm_completion md \<in> fst ` set (f_live s)"
    using d(4) by auto
  show ?thesis
    using assms(2) d m by (simp add: cira_llc_tile_free_def cira_future_free_def untrack_active_future_def c_free_def)
qed

lemma heap_ok_free:
  assumes "heap_ok s" "f_tiles s t = Some md"
  shows "heap_ok (s\<lparr>f_tiles := (f_tiles s)(t := None), f_active := act,
    f_live := filter (\<lambda>b. fst b \<noteq> t) (filter (\<lambda>b. fst b \<noteq> tm_completion md) (f_live s))\<rparr>)"
  unfolding heap_ok_def
proof (intro conjI allI impI)
  let ?s = "s\<lparr>f_tiles := (f_tiles s)(t := None), f_active := act,
    f_live := filter (\<lambda>b. fst b \<noteq> t) (filter (\<lambda>b. fst b \<noteq> tm_completion md) (f_live s))\<rparr>"
  show "blocks_ok (f_live ?s)" using assms(1) by (simp add: heap_ok_def blocks_ok_filter)
  fix u md' assume u: "f_tiles ?s u = Some md'"
  then have ut: "u \<noteq> t" "f_tiles s u = Some md'" by (auto split: if_splits)
  have "tm_completion md' \<noteq> tm_completion md" "tm_completion md' \<noteq> t" "tm_completion md \<noteq> u"
    using assms ut unfolding heap_ok_def by metis+
  then show "tile_ok ?s u md'" using heap_okD [OF assms(1) ut(2)] ut(1) by (simp add: tile_ok_def)
next
  fix v u md1 md2
  assume "f_tiles (s\<lparr>f_tiles := (f_tiles s)(t := None), f_active := act,
    f_live := filter (\<lambda>b. fst b \<noteq> t) (filter (\<lambda>b. fst b \<noteq> tm_completion md) (f_live s))\<rparr>) v = Some md1"
    "f_tiles (s\<lparr>f_tiles := (f_tiles s)(t := None), f_active := act,
    f_live := filter (\<lambda>b. fst b \<noteq> t) (filter (\<lambda>b. fst b \<noteq> tm_completion md) (f_live s))\<rparr>) u = Some md2" "v \<noteq> u"
  then have "f_tiles s v = Some md1" "f_tiles s u = Some md2" by (auto split: if_splits)
  then show "tm_completion md1 \<noteq> tm_completion md2" "tm_completion md1 \<noteq> u"
    using assms(1) \<open>v \<noteq> u\<close> unfolding heap_ok_def by metis+
qed

lemma heap_ok_cong: "f_live s' = f_live s \<Longrightarrow> f_tiles s' = f_tiles s \<Longrightarrow> heap_ok s' = heap_ok s"
  by (simp add: heap_ok_def tile_ok_def)

lemma heap_ok_new_tile:
  assumes "heap_ok s" "t \<noteq> 0" "c \<noteq> 0" "t \<notin> fst ` set (f_live s)" "c \<notin> fst ` set ((t, al) # f_live s)"
    and "\<forall>(b, n) \<in> set (f_live s). disjoint_rng t (unat al) b (unat n)"
    and "\<forall>(b, n) \<in> set ((t, al) # f_live s). disjoint_rng c 64 b (unat n)"
  shows "heap_ok (s\<lparr>f_mem := m, f_live := (c, 64) # (t, al) # f_live s, f_tiles := (f_tiles s)(t \<mapsto>
    \<lparr>tm_allocation = t, tm_requested_size = rq, tm_aligned_size = al, tm_completion = c\<rparr>)\<rparr>)"
  unfolding heap_ok_def
proof (intro conjI allI impI)
  let ?s = "s\<lparr>f_mem := m, f_live := (c, 64) # (t, al) # f_live s, f_tiles := (f_tiles s)(t \<mapsto>
    \<lparr>tm_allocation = t, tm_requested_size = rq, tm_aligned_size = al, tm_completion = c\<rparr>)\<rparr>"
  have b: "blocks_ok ((t, al) # f_live s)"
    using assms(1,2,4,6) by (intro blocks_ok_Cons) (simp_all add: heap_ok_def)
  show "blocks_ok (f_live ?s)"
    using blocks_ok_Cons [OF b assms(3,5), of 64] assms(7) by simp
  fix u md assume "f_tiles ?s u = Some md"
  then show "tile_ok ?s u md"
    using assms(5) heap_okD [OF assms(1), of u md] by (auto simp: tile_ok_def split: if_splits)
next
  fix v u md1 md2
  assume "f_tiles (s\<lparr>f_mem := m, f_live := (c, 64) # (t, al) # f_live s, f_tiles := (f_tiles s)(t \<mapsto>
    \<lparr>tm_allocation = t, tm_requested_size = rq, tm_aligned_size = al, tm_completion = c\<rparr>)\<rparr>) v = Some md1"
    "f_tiles (s\<lparr>f_mem := m, f_live := (c, 64) # (t, al) # f_live s, f_tiles := (f_tiles s)(t \<mapsto>
    \<lparr>tm_allocation = t, tm_requested_size = rq, tm_aligned_size = al, tm_completion = c\<rparr>)\<rparr>) u = Some md2" "v \<noteq> u"
  then have vu: "if v = t then tm_completion md1 = c else f_tiles s v = Some md1"
    "if u = t then tm_completion md2 = c else f_tiles s u = Some md2" by (auto split: if_splits)
  have old: "tm_completion md \<noteq> t" "tm_completion md \<noteq> c" "w \<noteq> c" if "f_tiles s w = Some md" for w md
    using heap_okD(2,3) [OF assms(1) that] assms(4,5) by force+
  have both: "tm_completion md1 \<noteq> tm_completion md2 \<and> tm_completion md1 \<noteq> u" if "v \<noteq> t" "u \<noteq> t"
    using assms(1) vu that \<open>v \<noteq> u\<close> unfolding heap_ok_def by simp
  have "tm_completion md1 \<noteq> tm_completion md2 \<and> tm_completion md1 \<noteq> u"
  proof (cases "v = t")
    case True
    then have "f_tiles s u = Some md2" "tm_completion md1 = c" using vu \<open>v \<noteq> u\<close> by auto
    then show ?thesis using old(2,3) [of u md2] by simp
  next
    case False
    then have "f_tiles s v = Some md1" using vu by simp
    then show ?thesis using both [OF False] False vu old(1,2) [of v md1] \<open>v \<noteq> u\<close> by (cases "u = t") auto
  qed
  then show "tm_completion md1 \<noteq> tm_completion md2" "tm_completion md1 \<noteq> u" by blast+
qed


lemma zeros_kept:
  assumes "read_bytes m t n = replicate n 0" "disjoint_rng c 64 t n" "n \<le> 2 ^ 64"
  shows "read_bytes (run_events (cira_mmio_signal_completion c st r) (memset m c 0 64)) t n = replicate n 0"
proof -
  have d: "disjoint_rng t n (c + p) k" if "unat p + k \<le> 64" for p k
    using disjoint_rng_sub [of c 64 t n p k] that assms(2,3) by (simp add: disjoint_rng_sym)
  show ?thesis
    using assms(1) assms(2) [unfolded disjoint_rng_sym [of c]] d [of 0 64] d [of 0 4] d [of 4 4] d [of 8 8] d [of 16 8] d [of 24 8]
    by (cases "c = 0") (simp_all add: cira_mmio_signal_completion_def signal_pre_def memset_def read_write_disjoint)
qed

text \<open>The life of a tile. A tile that was allocated is aligned, zero-filled over its whole rounded size,
  found in the table, and its future is complete with the tile as result; freeing it returns exactly
  the heap, table and active list that were there before.\<close>

theorem tile_alloc_free_roundtrip:
  assumes "good_alloc alloc" "heap_ok s" "set (f_active s) \<subseteq> fst ` set (f_live s)"
    and "cira_llc_tile_alloc alloc sz s = Some (t, s1)" "t \<noteq> 0"
  shows "64 dvd unat t \<and>
    read_bytes (f_mem s1) t (unat (align_up_cacheline sz)) = replicate (unat (align_up_cacheline sz)) 0 \<and>
    load_completion (f_mem s1) (cira_llc_tile_future t s1) =
      \<lparr>cp_magic = CIRA_CXL_COMPLETION_MAGIC, cp_status = 0, cp_result = t, cp_cycles = 0, cp_timestamp = 0\<rparr> \<and>
    heap_ok s1 \<and> cira_llc_tile_free t s1 = Some (s\<lparr>f_mem := f_mem s1, f_tiles := (f_tiles s)(t := None)\<rparr>)"
  using assms(1)
proof (cases rule: tile_alloc_cases [of alloc sz s])
  case (tile t' c m)
  let ?al = "align_up_cacheline sz"
  let ?md = "\<lparr>tm_allocation = t', tm_requested_size = (if sz \<noteq> 0 then sz else CIRA_CACHELINE_BYTES),
          tm_aligned_size = ?al, tm_completion = c\<rparr>"
  have t: "t' = t" and s1: "s1 = s\<lparr>f_mem := run_events (cira_mmio_signal_completion c 0 t) m,
      f_live := (c, 64) # (t, ?al) # f_live s, f_tiles := (f_tiles s)(t \<mapsto> ?md)\<rparr>"
    using tile(1) assms(4) by simp_all
  have h: "heap_ok s1" unfolding s1 using heap_ok_new_tile [OF assms(2) tile(2-7)] t by simp
  have md: "f_tiles s1 t = Some ?md" by (simp add: s1)
  have "unat ?al \<le> 2 ^ 64" using tile(10) by simp
  moreover have "read_bytes (memset (f_mem s) t 0 (unat ?al)) t (unat ?al) = replicate (unat ?al) 0"
    using tile(10) by (intro read_memset) simp
  moreover have "disjoint_rng c 64 t (unat ?al)" using tile(7) t by simp
  ultimately have z: "read_bytes (f_mem s1) t (unat ?al) = replicate (unat ?al) 0"
    using zeros_kept [of "memset (f_mem s) t 0 (unat ?al)" t "unat ?al" c 0 t] tile(8) t by (simp add: s1)
  have fut: "cira_llc_tile_future t s1 = c" using assms(5) by (simp add: cira_llc_tile_future_def lookup_llc_tile_def md)
  have comp: "load_completion (f_mem s1) c =
      \<lparr>cp_magic = CIRA_CXL_COMPLETION_MAGIC, cp_status = 0, cp_result = t, cp_cycles = 0, cp_timestamp = 0\<rparr>"
    using signalled_line [OF tile(3), of 0 t m] by (simp add: s1)
  have "c \<notin> fst ` set (f_live s)" "t \<notin> fst ` set (f_live s)" "c \<noteq> t" using tile(4,5) t by auto
  moreover from this have "filter (\<lambda>p. p \<noteq> c) (f_active s) = f_active s"
    using assms(3) by (auto simp: filter_id_conv)
  ultimately have "cira_llc_tile_free t s1 = Some (s\<lparr>f_mem := f_mem s1, f_tiles := (f_tiles s)(t := None)\<rparr>)"
    using tile_free_known [OF h md] by (simp add: s1 filter_fresh)
  then show ?thesis using tile(9) t z fut comp h by simp
qed (use assms(4,5) in simp_all)

text \<open>An allocator that never reuses memory, for the witnesses.\<close>

definition bump_alloc :: allocator where
  "bump_alloc live al sz =
     (let top = foldr (\<lambda>b x. max (unat (fst b) + unat (snd b) + 1) x) live 0x1000;
          p = ((top + unat al - 1) div unat al) * unat al
      in if al \<noteq> 0 \<and> p + unat sz < 2 ^ 64 then Some (of_nat p) else None)"

lemma bump_top: "b \<in> set live \<Longrightarrow> unat (fst b) + unat (snd b) + 1 \<le> foldr (\<lambda>b x. max (unat (fst b) + unat (snd b) + 1) x) live k"
  by (induction live) auto


lemma disjoint_above:
  assumes "unat (b :: u64) + n \<le> unat a" "unat a + k \<le> 2 ^ 64"
  shows "disjoint_rng a k b n"
proof (cases "a = b \<or> n = 0 \<or> k = 0")
  case False
  have "unat (a - b) = unat a - unat b" using assms(1) by (simp add: unat_sub word_le_nat_alt)
  moreover have "unat (a - b) + unat (b - a) = 2 ^ 64" using unat_diff_swap False by blast
  ultimately show ?thesis using assms by (auto simp: disjoint_rng_def)
qed (use assms in \<open>auto simp: disjoint_rng_def\<close>)

lemma bump_alloc_good: "good_alloc bump_alloc"
  unfolding good_alloc_def
proof (intro allI impI)
  fix live al sz p assume b: "bump_alloc live al sz = Some p"
  define top where "top = foldr (\<lambda>b x. max (unat (fst b) + unat (snd b) + 1) x) live 0x1000"
  define q where "q = ((top + unat al - 1) div unat al) * unat al"
  have "(if al \<noteq> 0 \<and> q + unat sz < 2 ^ 64 then Some (of_nat q) else None) = Some p"
    using b unfolding bump_alloc_def Let_def top_def [symmetric] q_def [symmetric] .
  then have al: "0 < unat al" "q + unat sz < 2 ^ 64" "p = of_nat q"
    by (auto simp: unat_gt_0 split: if_splits)
  have up: "unat p = q" using al(2,3) by (simp add: unat_of_nat_u64)
  have "top + unat al - 1 < q + unat al"
    unfolding q_def using al(1) by (metis add.commute dividend_less_div_times mult.commute)
  then have top: "top \<le> q" using al(1) by simp
  have "0x1000 \<le> top" unfolding top_def by (induction live) auto
  then have "0 < unat p" using top up by simp
  moreover have "unat al dvd unat p" by (simp add: up q_def)
  moreover have dis: "disjoint_rng p (unat sz) b (unat n) \<and> unat b + unat n < unat p" if "(b, n) \<in> set live" for b n
  proof -
    have "unat b + unat n + 1 \<le> top" using bump_top [OF that, of "0x1000"] by (simp add: top_def)
    then show ?thesis using top up al(2) by (intro conjI disjoint_above) simp_all
  qed
  moreover have "p \<notin> fst ` set live"
    using dis by fastforce
  ultimately show "p \<noteq> 0 \<and> unat al dvd unat p \<and> unat p + unat sz \<le> 2 ^ 64 \<and> p \<notin> fst ` set live \<and>
     (\<forall>(b, n) \<in> set live. disjoint_rng p (unat sz) b (unat n))"
    using up al(2) by auto
qed


lemma heap_ok_demo: "heap_ok demo_futures"
  by (simp add: heap_ok_def blocks_ok_def demo_futures_def)

lemma tile_alloc_free_roundtrip_witness:
  "\<exists>t s1. cira_llc_tile_alloc bump_alloc 100 demo_futures = Some (t, s1) \<and> t \<noteq> 0 \<and>
     cira_llc_tile_free t s1 = Some (demo_futures\<lparr>f_mem := f_mem s1, f_tiles := (f_tiles demo_futures)(t := None)\<rparr>)"
proof -
  have al: "align_up_cacheline 100 = 128" by code_simp
  have b: "bump_alloc [] 64 128 = Some 0x1000" "bump_alloc [(0x1000, 128)] 64 64 = Some 0x10C0"
    by (simp_all add: bump_alloc_def)
  have p: "posix_memalign bump_alloc 64 128 demo_futures = (0x1000, demo_futures\<lparr>f_live := [(0x1000, 128)]\<rparr>)"
    by (simp add: posix_memalign_def demo_futures_def b)
  obtain s2 where q: "cira_future_alloc bump_alloc (demo_futures\<lparr>f_live := [(0x1000, 128)],
      f_mem := memset (f_mem demo_futures) 0x1000 0 128\<rparr>) = (0x10C0, s2)"
    by (simp add: cira_future_alloc_def posix_memalign_def b)
  have "\<exists>s1. cira_llc_tile_alloc bump_alloc 100 demo_futures = Some (0x1000, s1)"
    using q unfolding cira_llc_tile_alloc_def al CIRA_CACHELINE_BYTES_def CIRA_CXL_CACHELINE_SIZE_def p Let_def
    by simp
  then obtain s1 where a: "cira_llc_tile_alloc bump_alloc 100 demo_futures = Some (0x1000, s1)" ..
  moreover have "set (f_active demo_futures) \<subseteq> fst ` set (f_live demo_futures)" by (simp add: demo_futures_def)
  ultimately show ?thesis using tile_alloc_free_roundtrip [OF bump_alloc_good heap_ok_demo _ a] by auto
qed

section \<open>Any use of the tiles\<close>

datatype tile_op = Tile_Alloc u64 | Tile_Free addr | Tile_Install addr addr u64 addr

definition tile_step :: "allocator \<Rightarrow> tile_op \<Rightarrow> futures \<Rightarrow> futures option" where
  "tile_step alloc x s = (case x of
     Tile_Alloc sz \<Rightarrow> map_option snd (cira_llc_tile_alloc alloc sz s)
   | Tile_Free t \<Rightarrow> cira_llc_tile_free t s
   | Tile_Install t cxl sz c \<Rightarrow> map_option snd (cira_llc_tile_install_from_cxl alloc t cxl sz c s))"

fun tile_run :: "allocator \<Rightarrow> tile_op list \<Rightarrow> futures \<Rightarrow> futures option" where
  "tile_run alloc [] s = Some s"
| "tile_run alloc (x # xs) s =
     (if (case x of Tile_Free t \<Rightarrow> t = 0 \<or> f_tiles s t \<noteq> None | _ \<Rightarrow> True)
      then Option.bind (tile_step alloc x s) (tile_run alloc xs) else Some s)"

text \<open>\<open>tile_run\<close> stops before a free of an address that is not a tile.\<close>

lemma alloc_keeps_heap:
  assumes "good_alloc alloc" "heap_ok s"
  shows "\<exists>t s1. cira_llc_tile_alloc alloc sz s = Some (t, s1) \<and> heap_ok s1"
  using assms(1)
proof (cases rule: tile_alloc_cases [of alloc sz s])
  case (tile t c m)
  then show ?thesis using heap_ok_new_tile [OF assms(2) tile(2-7)] by simp
next
  case (late_fail m)
  have "heap_ok (s\<lparr>f_mem := m\<rparr>)" by (rule iffD2 [OF heap_ok_cong assms(2)]) simp_all
  then show ?thesis using late_fail by simp
qed (use assms(2) in simp)

lemma install_keeps_heap:
  assumes "good_alloc alloc" "heap_ok s"
  shows "\<exists>t s1. cira_llc_tile_install_from_cxl alloc tile cxl sz c s = Some (t, s1) \<and> heap_ok s1"
proof -
  have "\<exists>d s1. (if tile \<noteq> 0 then Some (tile, s) else cira_llc_tile_alloc alloc sz s) = Some (d, s1) \<and> heap_ok s1"
    using alloc_keeps_heap [OF assms, of sz] assms(2) by (cases "tile = 0") simp_all
  then obtain d s1 where d: "(if tile \<noteq> 0 then Some (tile, s) else cira_llc_tile_alloc alloc sz s) = Some (d, s1)" "heap_ok s1"
    by blast
  have k: "heap_ok (complete_in_software c 0 x (clear_completion c s1\<lparr>f_mem := m\<rparr>))" for c x m
    by (rule iffD2 [OF heap_ok_cong d(2)]) (simp_all add: complete_in_software_def clear_completion_def)
  show ?thesis
  proof (cases "cxl = 0 \<or> sz = 0 \<or> d = 0")
    case True
    then show ?thesis using assms(2) d
      by (cases "cxl = 0 \<or> sz = 0") (simp_all add: cira_llc_tile_install_from_cxl_def del: not_gr_zero)
  next
    case False
    then show ?thesis
      unfolding cira_llc_tile_install_from_cxl_def d(1) by (simp add: Let_def k)
  qed
qed



section \<open>Installing from CXL memory\<close>

lemma read_signal_other:
  assumes "disjoint_rng a n c 64" "n \<le> 2 ^ 64"
  shows "read_bytes (run_events (cira_mmio_signal_completion c st r) m) a n = read_bytes m a n"
proof -
  have d: "disjoint_rng a n (c + p) k" if "unat p + k \<le> 64" for p k
    using disjoint_rng_sub [of c 64 a n p k] that assms by (simp add: disjoint_rng_sym)
  show ?thesis
    using d [of 0 4] d [of 4 4] d [of 8 8] d [of 16 8] d [of 24 8]
    by (simp add: cira_mmio_signal_completion_def signal_pre_def read_write_disjoint)
qed

lemma read_arm_other: "disjoint_rng a n c 64 \<Longrightarrow> read_bytes (cira_mmio_arm_completion c m) a n = read_bytes m a n"
  by (simp add: cira_mmio_arm_completion_def memset_def read_write_disjoint window_defs)

text \<open>Installing into a tile. The tile receives the first \<open>min size capacity\<close> bytes of the source, the
  rest of the request being dropped without a trace: the call returns the tile and its future
  completes with status 0 all the same.\<close>

theorem tile_install_copies_prefix:
  assumes "heap_ok s" "f_tiles s t = Some md" "cxl \<noteq> 0" "sz \<noteq> 0"
    and "n = min (unat sz) (unat (tm_aligned_size md))"
    and "disjoint_rng cxl n t (unat (tm_aligned_size md))" "disjoint_rng cxl n (tm_completion md) 64"
  shows "\<exists>s'. cira_llc_tile_install_from_cxl alloc t cxl sz 0 s = Some (t, s') \<and>
    read_bytes (f_mem s') t n = read_bytes (f_mem s) cxl n \<and>
    load_completion (f_mem s') (tm_completion md) =
      \<lparr>cp_magic = CIRA_CXL_COMPLETION_MAGIC, cp_status = 0, cp_result = t, cp_cycles = 0, cp_timestamp = 0\<rparr>"
proof -
  let ?c = "tm_completion md" and ?al = "unat (tm_aligned_size md)"
  note d = heap_okD [OF assms(1,2)]
  have k: "unat (min sz (tm_aligned_size md)) = n" using assms(5) by (simp add: min_def word_le_nat_alt)
  let ?m = "memcpy (cira_mmio_arm_completion ?c (f_mem s)) t cxl n"
  have r: "cira_llc_tile_install_from_cxl alloc t cxl sz 0 s =
      Some (t, complete_in_software ?c 0 t (s\<lparr>f_mem := ?m\<rparr>))"
    using assms(2-4) d k
    by (simp add: cira_llc_tile_install_from_cxl_def lookup_llc_tile_def clear_completion_def Let_def)
  have n: "n \<le> ?al" "?al \<le> 2 ^ 64" using assms(5) unat_lt_u64 [of "tm_aligned_size md"] by simp_all
  have "disjoint_rng t ?al ?c (unat (64 :: u64))"
    using blocks_ok_disjoint [OF _ d(2,3)] assms(1) d(4) by (auto simp: heap_ok_def)
  then have "disjoint_rng t n ?c 64" using disjoint_rng_sub [of t ?al ?c 64 0 n] n by simp
  then have "read_bytes (run_events (cira_mmio_signal_completion ?c 0 t) ?m) t n = read_bytes (f_mem s) cxl n"
    using n assms(7) by (simp add: read_signal_other read_memcpy read_arm_other)
  then show ?thesis
    using r signalled_line [OF d(6), of 0 t ?m] by (simp add: complete_in_software_def)
qed


definition demo_tile :: futures where
  "demo_tile = demo_futures\<lparr>f_live := [(0x2000, 64), (0x1000, 128)],
     f_tiles := [0x1000 \<mapsto> \<lparr>tm_allocation = 0x1000, tm_requested_size = 100, tm_aligned_size = 128, tm_completion = 0x2000\<rparr>]\<rparr>"

lemma tile_install_copies_prefix_witness:
  "\<exists>s'. cira_llc_tile_install_from_cxl bump_alloc 0x1000 0x9000 4096 0 demo_tile = Some (0x1000, s') \<and>
     read_bytes (f_mem s') 0x1000 128 = read_bytes (f_mem demo_tile) 0x9000 128"
proof -
  have h: "heap_ok demo_tile"
    by (auto simp: heap_ok_def blocks_ok_def tile_ok_def demo_tile_def demo_futures_def disjoint_rng_def split: if_splits)
  have t: "f_tiles demo_tile 0x1000 =
      Some \<lparr>tm_allocation = 0x1000, tm_requested_size = 100, tm_aligned_size = 128, tm_completion = 0x2000\<rparr>"
    by (simp add: demo_tile_def)
  show ?thesis using tile_install_copies_prefix [OF h t, of "0x9000" 4096 128 bump_alloc] by (auto simp: disjoint_rng_def)
qed

section \<open>Pools of futures\<close>

lemma pool_offset: "unat (ucast (i :: u32) * 64 :: u64) = unat i * 64"
proof -
  have "unat i * 64 < 2 ^ 64" using unsigned_less [of i, where ?'a = nat] by simp
  then show ?thesis by (simp add: unat_word_ariths)
qed

text \<open>A pool as \<open>cira_future_pool_alloc\<close> hands it out.\<close>

definition pool_ok :: "future_pool \<Rightarrow> futures \<Rightarrow> bool" where
  "pool_ok p s \<longleftrightarrow> fp_base p \<noteq> 0 \<and> fp_depth p \<noteq> 0 \<and> fp_bytes p = ucast (fp_depth p) * 64 \<and>
     64 dvd unat (fp_base p) \<and> unat (fp_base p) + unat (fp_bytes p) \<le> 2 ^ 64 \<and>
     (fp_base p, fp_bytes p) \<in> set (f_live s)"

lemma pool_alloc_Some:
  assumes "good_alloc alloc" "depth \<noteq> 0" "cira_future_pool_alloc alloc True depth s = Some (Some p, s1)"
  shows "pool_ok p s1 \<and> fp_depth p = depth \<and> \<not> fp_registered p \<and>
    s1 = s\<lparr>f_live := (fp_base p, fp_bytes p) # f_live s, f_mem := memset (f_mem s) (fp_base p) 0 (unat (fp_bytes p))\<rparr> \<and>
    fp_base p \<notin> fst ` set (f_live s)"
proof -
  let ?b = "ucast depth * CIRA_CACHELINE_BYTES :: u64"
  obtain base s2 where a: "posix_memalign alloc CIRA_CACHELINE_BYTES ?b s = (base, s2)" by fastforce
  have nz: "base \<noteq> 0" and p: "p = \<lparr>fp_base = base, fp_depth = depth, fp_bytes = ?b, fp_registered = False\<rparr>"
    and s1: "s1 = s2\<lparr>f_mem := memset (f_mem s2) base 0 (unat ?b)\<rparr>"
    using assms(2,3) a by (auto simp: cira_future_pool_alloc_def Let_def split: if_splits)
  note A = memalign_Some [OF assms(1) a nz]
  show ?thesis
    using A nz assms(2) p s1 by (simp add: pool_ok_def CIRA_CACHELINE_BYTES_def CIRA_CXL_CACHELINE_SIZE_def)
qed

lemma pool_top:
  assumes "pool_ok p s"
  shows "unat (fp_bytes p) = unat (fp_depth p) * 64" "unat (fp_base p) + unat (fp_depth p) * 64 \<le> 2 ^ 64"
proof -
  have "fp_bytes p = ucast (fp_depth p) * 64" and le: "unat (fp_base p) + unat (fp_bytes p) \<le> 2 ^ 64"
    using assms unfolding pool_ok_def by blast+
  then show b: "unat (fp_bytes p) = unat (fp_depth p) * 64" by (simp only: pool_offset)
  show "unat (fp_base p) + unat (fp_depth p) * 64 \<le> 2 ^ 64" using le unfolding b .
qed

lemma pool_entry:
  assumes "pool_ok p s" "i < fp_depth p"
  shows "future_pool_entry (Some p) i = fp_base p + ucast i * 64"
    and "unat (future_pool_entry (Some p) i) = unat (fp_base p) + 64 * unat i"
    and "future_pool_entry (Some p) i \<noteq> 0" "fp_base p \<le> future_pool_entry (Some p) i"
    and "future_pool_entry (Some p) i - fp_base p < fp_bytes p"
proof -
  show e: "future_pool_entry (Some p) i = fp_base p + ucast i * 64"
    using assms by (simp add: future_pool_entry_def pool_ok_def CIRA_CACHELINE_BYTES_def window_defs linorder_not_le [symmetric])
  have i: "unat i + 1 \<le> unat (fp_depth p)" using assms(2) by (simp add: word_less_nat_alt)
  note b = pool_top(2) [OF assms(1)]
  have "unat (fp_base p) + unat i * 64 < 2 ^ 64" using i b by linarith
  then show u: "unat (future_pool_entry (Some p) i) = unat (fp_base p) + 64 * unat i"
    unfolding e by (simp add: unat_word_ariths(1) pool_offset)
  show "future_pool_entry (Some p) i \<noteq> 0" using u assms(1) by (auto simp: pool_ok_def unat_eq_0)
  show "fp_base p \<le> future_pool_entry (Some p) i" using u by (simp add: word_le_nat_alt)
  have "unat (ucast i * 64 :: u64) < unat (fp_bytes p)"
    using i by (simp add: pool_top(1) [OF assms(1)] pool_offset)
  then show "future_pool_entry (Some p) i - fp_base p < fp_bytes p"
    unfolding e by (simp add: word_less_nat_alt)
qed

text \<open>The entries of a pool are its cache lines: an entry \<open>i\<close> is 64-byte aligned at offset \<open>64 i\<close> of the
  block, an index past the depth gives the null pointer, two entries share no byte, and after the pool
  is registered at a device address the device sees entry \<open>i\<close> at offset \<open>64 i\<close> of it in every mode
  that consults the region table.\<close>

theorem pool_entries_and_device_addresses:
  assumes "pool_ok p s" "cira_future_pool_register (Some p) db fl s = (rc, p', s')"
    and "\<forall>e \<in> set (f_regions s). rg_virtual e \<noteq> fp_base p \<longrightarrow> (\<forall>a. region_contains e a \<longrightarrow>
       \<not> (fp_base p \<le> a \<and> a - fp_base p < fp_bytes p))"
    and "env ''CIRA_PADDR_MODE'' \<in> {None, Some [], Some ''region'', Some ''linear'', Some ''device'',
           Some ''driver'', Some ''kernel''}"
  shows "rc = 0 \<and> (if i < fp_depth p
      then 64 dvd unat (cira_future_pool_get p' i) \<and>
        unat (cira_future_pool_get p' i) = unat (fp_base p) + 64 * unat i \<and>
        (\<forall>j < fp_depth p. i \<noteq> j \<longrightarrow> disjoint_rng (cira_future_pool_get p' i) 64 (cira_future_pool_get p' j) 64) \<and>
        cira_future_pool_get_device_addr env k p' i s' = Some (db + ucast i * 64)
      else cira_future_pool_get p' i = 0)"
proof -
  let ?b = "fp_base p" and ?n = "fp_bytes p"
  have nz: "?b \<noteq> 0" "64 dvd unat ?b" "?n = ucast (fp_depth p) * 64" "fp_depth p \<noteq> 0"
    using assms(1) by (simp_all add: pool_ok_def)
  note pool_top(1) [OF assms(1)]
  then have n: "?n \<noteq> 0" using nz(4) by (metis mult_eq_0_iff unat_eq_0 zero_neq_numeral)
  have r: "rc = 0" "p' = Some (p\<lparr>fp_registered := True\<rparr>)"
    "f_regions s' = snd (register_linear_region ?b ?n db fl (f_regions s))"
    using assms(2) nz n
    by (auto simp: cira_future_pool_register_def register_linear_region_def Let_def split: option.splits prod.splits)
  have g: "cira_future_pool_get p' i = future_pool_entry (Some p) i" for i
    by (simp add: cira_future_pool_get_def r(2) future_pool_entry_def)
  have tr: "translate_runtime_paddr env k (f_regions s') a = Some (db + (a - ?b))"
    if "a \<noteq> 0" "?b \<le> a" "a - ?b < ?n" for a
  proof -
    have "\<forall>e \<in> set (f_regions s). rg_virtual e \<noteq> ?b \<longrightarrow> \<not> region_contains e a" using assms(3) that by blast
    from translate_registered [OF nz(1) n that this, of db fl] show ?thesis
      unfolding r(3) using that(1) assms(4) by (auto simp: translate_runtime_paddr_def Let_def)
  qed
  have dis: "disjoint_rng (future_pool_entry (Some p) i) 64 (future_pool_entry (Some p) j) 64"
    if "i < fp_depth p" "j < fp_depth p" "unat j < unat i" for i j
  proof (rule disjoint_above)
    note pool_top(2) [OF assms(1)]
    then show "unat (future_pool_entry (Some p) i) + 64 \<le> 2 ^ 64"
      using pool_entry(2) [OF assms(1) that(1)] that(1) by (simp add: word_less_nat_alt)
  qed (use pool_entry(2) [OF assms(1)] that in simp)
  show ?thesis
  proof (cases "i < fp_depth p")
    case True
    note E = pool_entry [OF assms(1) True]
    have "cira_future_pool_get_device_addr env k p' i s' = Some (db + ucast i * 64)"
      using tr [OF E(3-5)] E(1,3) by (simp add: cira_future_pool_get_device_addr_def g)
    moreover have "disjoint_rng (future_pool_entry (Some p) i) 64 (future_pool_entry (Some p) j) 64"
      if "j < fp_depth p" "i \<noteq> j" for j
      using dis [OF True that(1)] dis [OF that(1) True] that(2) disjoint_rng_sym
      by (metis linorder_neqE_nat word_unat_eq_iff)
    ultimately show ?thesis using True E(2) nz(2) r(1) by (simp add: g)
    next
    case False
    then have "fp_depth p \<le> i" by simp
    then show ?thesis using False r(1) by (simp add: g future_pool_entry_def)
  qed
qed


definition demo_pool :: future_pool where
  "demo_pool = \<lparr>fp_base = 0x4000, fp_depth = 8, fp_bytes = 512, fp_registered = False\<rparr>"

lemma pool_entries_and_device_addresses_witness:
  "cira_future_pool_get_device_addr (\<lambda>_. None) demo_kernel (fst (snd (cira_future_pool_register (Some demo_pool) 0x80000 0
     (demo_futures\<lparr>f_live := [(0x4000, 512)]\<rparr>)))) 3
     (snd (snd (cira_future_pool_register (Some demo_pool) 0x80000 0 (demo_futures\<lparr>f_live := [(0x4000, 512)]\<rparr>)))) = Some 0x800C0"
proof -
  let ?s = "demo_futures\<lparr>f_live := [(0x4000, 512)]\<rparr>"
  have ok: "pool_ok demo_pool ?s" by (simp add: pool_ok_def demo_pool_def)
  obtain rc p' s' where r: "cira_future_pool_register (Some demo_pool) 0x80000 0 ?s = (rc, p', s')"
    by (metis prod_cases3)
  have "(3 :: u32) < fp_depth demo_pool" by (simp add: demo_pool_def)
  then show ?thesis
    using pool_entries_and_device_addresses [OF ok r, of "\<lambda>_. None" 3 demo_kernel] r by (simp add: demo_futures_def)
qed

lemma unregister_registered:
  assumes "register_linear_region vb sz db fl regs = (0, regs')" "vb \<notin> rg_virtual ` set regs" "vb \<noteq> 0"
  shows "unregister_linear_region vb regs' = (0, regs)"
proof -
  let ?r = "\<lparr>rg_virtual = vb, rg_size = sz, rg_device = db, rg_flags = fl\<rparr>"
  have "replace_region ?r regs = None" using assms(2) by (simp add: replace_region_None)
  then have "regs' = regs @ [?r]"
    using assms(1) by (auto simp: register_linear_region_def EINVAL_def Let_def split: if_splits)
  moreover have "filter (\<lambda>r. rg_virtual r \<noteq> vb) regs = regs" using assms(2) by (auto simp: filter_id_conv)
  ultimately show ?thesis using assms(3) by (simp add: unregister_linear_region_def)
qed

definition in_pool :: "future_pool \<Rightarrow> addr \<Rightarrow> bool" where
  "in_pool p a \<longleftrightarrow> fp_base p \<le> a \<and> a < fp_base p + fp_bytes p"

lemma pool_entry_inside:
  assumes "pool_ok p s" "unat (fp_base p) + unat (fp_bytes p) < 2 ^ 64" "future_pool_entry (Some p) i \<noteq> 0"
  shows "in_pool p (future_pool_entry (Some p) i)"
proof -
  have i: "i < fp_depth p"
    using assms(3) unfolding future_pool_entry_def option.case by (metis linorder_not_le)
  note E = pool_entry [OF assms(1) i]
  have top: "unat (fp_base p + fp_bytes p) = unat (fp_base p) + unat (fp_bytes p)"
    using assms(2) by (simp add: unat_word_ariths(1))
  have "unat i + 1 \<le> unat (fp_depth p)" using i by (simp add: word_less_nat_alt)
  then have "unat (future_pool_entry (Some p) i) < unat (fp_base p + fp_bytes p)"
    unfolding top E(2) pool_top(1) [OF assms(1)] by simp
  then show ?thesis using E(4) by (simp add: in_pool_def word_less_nat_alt)
qed

text \<open>What arming entries does not touch.\<close>

definition same_outside :: "future_pool \<Rightarrow> futures \<Rightarrow> futures \<Rightarrow> bool" where
  "same_outside p s s' \<longleftrightarrow> f_live s' = f_live s \<and> f_regions s' = f_regions s \<and>
     filter (\<lambda>a. \<not> in_pool p a) (f_active s') = filter (\<lambda>a. \<not> in_pool p a) (f_active s)"

lemma arm_same_outside:
  assumes "\<And>i. cira_future_pool_get pool i \<noteq> 0 \<longrightarrow> in_pool p (cira_future_pool_get pool i)"
  shows "same_outside p s (snd (cira_future_pool_arm pool i s))"
  using assms [of i]
  by (simp add: cira_future_pool_arm_def same_outside_def track_active_future_def clear_completion_def Let_def)

lemma arm_all_same_outside:
  assumes "\<And>i. cira_future_pool_get pool i \<noteq> 0 \<longrightarrow> in_pool p (cira_future_pool_get pool i)"
  shows "same_outside p s (fold (\<lambda>i st. snd (cira_future_pool_arm pool i st)) is s)"
proof (induction "is" arbitrary: s)
  case (Cons i "is")
  show ?case
    using Cons [of "snd (cira_future_pool_arm pool i s)"] arm_same_outside [OF assms, where s = s and i = i]
    by (simp add: same_outside_def)
qed (simp add: same_outside_def)

text \<open>C36
  The life of a pool. Allocating a pool, registering it, arming any of its entries and freeing it leaves
  the heap blocks, the region table and the list of active futures exactly as they were: no future of
  a freed pool stays active, and no region stays behind that would translate a stale pointer.\<close>

theorem pool_lifecycle:
  assumes "good_alloc alloc" "cira_future_pool_alloc alloc True depth s = Some (Some p, s1)" "depth \<noteq> 0"
    and "\<forall>a \<in> set (f_active s). \<not> in_pool p a" "fp_base p \<notin> rg_virtual ` set (f_regions s)"
    and "unat (fp_base p) + unat (fp_bytes p) < 2 ^ 64"
    and "cira_future_pool_register (Some p) db fl s1 = (rc, p2, s2)"
  shows "\<exists>s4. cira_future_pool_free p2 (fold (\<lambda>i st. snd (cira_future_pool_arm p2 i st)) is s2) = Some s4 \<and>
    f_live s4 = f_live s \<and> f_regions s4 = f_regions s \<and> f_active s4 = f_active s"
proof -
  let ?b = "fp_base p" and ?n = "fp_bytes p"
  define s3 where "s3 = fold (\<lambda>i st. snd (cira_future_pool_arm p2 i st)) is s2"
  from pool_alloc_Some [OF assms(1,3,2)] have ok: "pool_ok p s1" and
    s1: "s1 = s\<lparr>f_live := (?b, ?n) # f_live s, f_mem := memset (f_mem s) ?b 0 (unat ?n)\<rparr>"
    and fresh: "?b \<notin> fst ` set (f_live s)" by blast+
  have nz: "?b \<noteq> 0" "fp_depth p \<noteq> 0" using ok by (simp_all add: pool_ok_def)
  then have nn: "?n \<noteq> 0"
    using pool_top(1) [OF ok] by (metis mult_eq_0_iff unat_eq_0 zero_neq_numeral)
  obtain regs where reg: "register_linear_region ?b ?n db fl (f_regions s) = (0, regs)"
    using nz(1) nn by (cases "register_linear_region ?b ?n db fl (f_regions s)")
      (auto simp: register_linear_region_def Let_def split: option.splits)
  have r: "p2 = Some (p\<lparr>fp_registered := True\<rparr>)" "s2 = s1\<lparr>f_regions := regs\<rparr>"
    using assms(7) nz(1) nn reg by (simp_all add: cira_future_pool_register_def s1)
  have same: "cira_future_pool_get p2 i = future_pool_entry (Some p) i" for i
    by (simp add: cira_future_pool_get_def r(1) future_pool_entry_def)
  have inside: "cira_future_pool_get p2 i \<noteq> 0 \<longrightarrow> in_pool p (cira_future_pool_get p2 i)" for i
    unfolding same using pool_entry_inside [OF ok assms(6)] by (intro impI)
  have "same_outside p s2 s3" unfolding s3_def by (rule arm_all_same_outside [OF inside])
  moreover have "filter (\<lambda>a. \<not> in_pool p a) (f_active s) = f_active s" using assms(4) by (simp add: filter_id_conv)
  ultimately have k: "f_live s3 = (?b, ?n) # f_live s" "f_regions s3 = regs"
    "filter (\<lambda>a. \<not> in_pool p a) (f_active s3) = f_active s"
    by (simp_all add: same_outside_def r(2) s1)
  have u: "snd (unregister_linear_region ?b regs) = f_regions s"
    using unregister_registered [OF reg assms(5) nz(1)] by simp
  have "cira_future_pool_free p2 s3 = c_free ?b (s3\<lparr>f_regions := f_regions s, f_active := f_active s\<rparr>)"
    using nz(1) nn k by (simp add: cira_future_pool_free_def r(1) untrack_future_range_def in_pool_def u)
  also have "\<dots> = Some (s3\<lparr>f_regions := f_regions s, f_active := f_active s, f_live := f_live s\<rparr>)"
    using nz(1) k(1) by (simp add: c_free_def filter_fresh [OF fresh])
  finally show ?thesis by (simp add: s3_def)
qed


lemma pool_lifecycle_witness:
  "\<exists>p s1 s4. cira_future_pool_alloc bump_alloc True 2 demo_futures = Some (Some p, s1) \<and>
     cira_future_pool_free (fst (snd (cira_future_pool_register (Some p) 0x80000 0 s1)))
       (fold (\<lambda>i st. snd (cira_future_pool_arm (fst (snd (cira_future_pool_register (Some p) 0x80000 0 s1))) i st)) [0, 1, 7]
         (snd (snd (cira_future_pool_register (Some p) 0x80000 0 s1)))) = Some s4 \<and> f_active s4 = []"
proof -
  have b: "bump_alloc [] 64 128 = Some 0x1000" by (simp add: bump_alloc_def)
  define p where "p = \<lparr>fp_base = 0x1000, fp_depth = 2, fp_bytes = 128, fp_registered = False\<rparr>"
  have "\<exists>s1. cira_future_pool_alloc bump_alloc True 2 demo_futures = Some (Some p, s1)"
    by (simp add: cira_future_pool_alloc_def posix_memalign_def CIRA_CACHELINE_BYTES_def CIRA_CXL_CACHELINE_SIZE_def
        demo_futures_def b p_def)
  then obtain s1 where a: "cira_future_pool_alloc bump_alloc True 2 demo_futures = Some (Some p, s1)" ..
  obtain rc p2 s2 where r: "cira_future_pool_register (Some p) 0x80000 0 s1 = (rc, p2, s2)" by (metis prod_cases3)
  show ?thesis
    using pool_lifecycle [OF bump_alloc_good a _ _ _ _ r, of "[0, 1, 7]"] a r
    by (auto simp: demo_futures_def p_def)
qed

section \<open>The GAPBS marker stays inside the graph\<close>

text \<open>Whatever the row limits in the environment say, the marker reads only the entries \<open>0\<close> to
  \<open>num_nodes\<close> of the graph's row index, and the range it announces is a non-empty range of rows of
  the graph whose record addresses are what the index holds for its first and last row.\<close>

theorem gapbs_marker_in_bounds:
  assumes "emit_gapbs_gem5_cira_marker env m5 m benchmark_id a bytes = (ok, call, rows)"
  shows "(\<forall>r \<in> set rows. r \<le> read64 m (a + 8)) \<and>
    (case call of
       Some (M5_Prefetch_Csr record_begin record_end v row_start row_count packed) \<Rightarrow>
         0 < row_count \<and> unat row_start + unat row_count \<le> unat (read64 m (a + 8)) \<and> record_begin < record_end \<and>
         record_begin = read64 m (read64 m (a + 24) + 8 * row_start) \<and>
         record_end = read64 m (read64 m (a + 24) + 8 * (row_start + row_count))
     | _ \<Rightarrow> True)"
proof -
  define n where "n = read64 m (a + 8)"
  define rs where "rs = (case parse_env_u64 env ''CIRA_GAPBS_CSR_ROW_START'' of None \<Rightarrow> 0 | Some v \<Rightarrow> v)"
  define row_start where "row_start = (if n < rs then n else rs)"
  define row_count where "row_count = (case parse_env_u64 env ''CIRA_GAPBS_CSR_ROW_LIMIT'' of
                   None \<Rightarrow> n - row_start | Some l \<Rightarrow> if l < n - row_start then l else n - row_start)"
  have s: "row_start \<le> n" by (auto simp: row_start_def linorder_not_less)
  have "row_count \<le> n - row_start" by (auto simp: row_count_def split: option.split)
  then have "unat row_start + unat row_count \<le> unat n"
    using s by (simp add: word_le_nat_alt unat_sub)
  moreover from this have "row_start + row_count \<le> n"
    using unat_lt_u64 [of n] by (simp add: word_le_nat_alt unat_word_ariths(1))
  moreover note assms [unfolded emit_gapbs_gem5_cira_marker_def Let_def, folded n_def, folded rs_def,
    folded row_start_def, folded row_count_def]
  ultimately show ?thesis
    using s unfolding n_def [symmetric] by (auto simp: word_gt_0 linorder_not_le split: if_splits)
qed

lemma gapbs_marker_in_bounds_witness:
  "\<exists>record_begin record_end row_count packed.
     emit_gapbs_gem5_cira_marker (\<lambda>_. None) (\<lambda>_. 1)
       (write64 (write64 (write64 (write64 (\<lambda>_. 0) 0x1008 2) 0x1018 0x3000) 0x3000 0x5000) 0x3010 0x5010) 0 0x1000 64
     = (True, Some (M5_Prefetch_Csr record_begin record_end 0 0 row_count packed), [0, 2]) \<and> unat row_count \<le> 2"
proof -
  define m where "m = write64 (write64 (write64 (write64 (\<lambda>_. 0) 0x1008 2) 0x1018 0x3000) 0x3000 0x5000) 0x3010 0x5010"
  have r: "read64 m 0x1008 = 2" "read64 m 0x1018 = 0x3000" "read64 m 0x3000 = 0x5000" "read64 m 0x3010 = 0x5010"
    by (simp_all add: m_def write64_def read64_write_other disjoint_rng_def)
  have st: "gapbs_record_stride (\<lambda>_. None) 0 = 4" by (simp add: gapbs_record_stride_def parse_env_u64_def)
  have e: "emit_gapbs_gem5_cira_marker (\<lambda>_. None) (\<lambda>_. 1) m 0 0x1000 64 =
      (True, Some (M5_Prefetch_Csr 0x5000 0x5010 0 0 2 (push_bit 8 (4 AND 0xffff) OR push_bit 56 ((push_bit 0 1 OR push_bit 3 1) AND 0xff))), [0, 2])"
    by (simp add: emit_gapbs_gem5_cira_marker_def Let_def r st parse_env_u64_def)
  show ?thesis using gapbs_marker_in_bounds [OF e] e unfolding m_def [symmetric] by (simp add: r)
qed

end
