(* ===== verification/Runtime_Services.thy ===== *)
theory Runtime_Services
  imports Addr_Translate "HOL-Library.AList"
begin

text \<open>
  The service objects behind \<^verbatim>\<open>CiraRuntime\<close> (\<^verbatim>\<open>runtime/src/CiraRuntime.cpp\<close>): the offload
  engine with its edge cache, the remote memory manager, the prefetch controller and the graph
  runtime. Prefetches and line flushes are returned as address lists. The operating system's answers
  (\<open>mmap\<close>, \<open>libnuma\<close>, \<open>new\<close>) are arguments. \<open>None\<close> marks a loop that never ends, an access to
  an object that was deleted, or an index outside a vector.
\<close>

section \<open>Memory references\<close>

datatype memory_tier = LOCAL_DRAM | CXL_ATTACHED | CXL_POOLED | FAR_MEMORY | CXL_TYPE2_MEM | CXL_TYPE2_CACHE

record remote_ref =
  rr_base_addr :: addr
  rr_size :: u64
  rr_tier :: memory_tier

section \<open>Offload engine\<close>

record edge_entry =
  ec_data :: addr
  ec_index :: u64
  ec_valid :: bool

type_synonym edge_cache = "addr \<rightharpoonup> edge_entry"

text \<open>The counter of the loop is a \<open>size_t\<close> compared with \<open>\<le>\<close>.\<close>

partial_function (option) edge_prefetch_loop :: "addr \<Rightarrow> u64 \<Rightarrow> u64 \<Rightarrow> u64 \<Rightarrow> addr list option" where
  "edge_prefetch_loop base index i distance =
     (if i \<le> distance then
        Option.bind (edge_prefetch_loop base index (i + 1) distance)
          (\<lambda>ps. Some ((base + (index + i * 64) * 8) # ps))
      else Some [])"

text \<open>The data pointer, the prefetches and the cache.\<close>

definition loadEdge :: "remote_ref \<Rightarrow> u64 \<Rightarrow> u64 \<Rightarrow> edge_cache \<Rightarrow> (addr \<times> addr list \<times> edge_cache) option" where
  "loadEdge edge index prefetch_distance c =
     (let a = rr_base_addr edge + index * 8;
          hit = (case c a of None \<Rightarrow> None | Some e \<Rightarrow> if ec_valid e then Some (ec_data e) else None)
      in case hit of
           Some d \<Rightarrow> Some (d, [], c)
         | None \<Rightarrow>
             Option.bind (if 0 < prefetch_distance then edge_prefetch_loop (rr_base_addr edge) index 1 prefetch_distance
                          else Some [])
               (\<lambda>ps. Some (a, ps, c(a \<mapsto> \<lparr>ec_data = a, ec_index = index, ec_valid = True\<rparr>))))"

definition evictEdge :: "remote_ref \<Rightarrow> u64 \<Rightarrow> edge_cache \<Rightarrow> addr list \<times> edge_cache" where
  "evictEdge edge index c =
     (let a = rr_base_addr edge + index * 8 in
      case c a of None \<Rightarrow> ([], c) | Some e \<Rightarrow> ([a], c(a \<mapsto> e\<lparr>ec_valid := False\<rparr>)))"

text \<open>The node a named field points to; prefetches start at the node itself.\<close>

definition loadNode :: "mem \<Rightarrow> addr \<Rightarrow> string \<Rightarrow> u64 \<Rightarrow> addr \<times> addr list" where
  "loadNode m edge_element field prefetch_distance =
     (let node = (if field = ''from'' then read64 m edge_element
                  else if field = ''to'' then read64 m (edge_element + 8) else 0)
      in (node, if node \<noteq> 0 then map (\<lambda>i. node + of_nat i * 64) [0..<unat prefetch_distance] else []))"

definition getPhysicalAddr :: "env \<Rightarrow> kernel \<Rightarrow> region list \<Rightarrow> string \<Rightarrow> addr \<Rightarrow> addr option" where
  "getPhysicalAddr env k regs field_name node_data = translate_runtime_paddr env k regs node_data"

fun batch_load :: "remote_ref \<Rightarrow> u64 \<Rightarrow> nat list \<Rightarrow> edge_cache \<Rightarrow> (addr list \<times> edge_cache) option" where
  "batch_load edge start [] c = Some ([], c)"
| "batch_load edge start (i # is) c =
     Option.bind (loadEdge edge (start + of_nat i) 1 c) (\<lambda>(d, ps, c1).
       map_option (\<lambda>(ds, c2). (d # ds, c2)) (batch_load edge start is c1))"

definition batchLoadEdges :: "remote_ref \<Rightarrow> u64 \<Rightarrow> u64 \<Rightarrow> edge_cache \<Rightarrow> (addr list \<times> edge_cache) option" where
  "batchLoadEdges edge start_index count c = batch_load edge start_index [0..<unat count] c"

section \<open>Remote memory manager\<close>

record allocation =
  al_addr :: addr
  al_size :: u64
  al_tier :: memory_tier
  al_numa_node :: int

record numa =
  nm_max_node :: int
  nm_alloc :: "u64 \<Rightarrow> int \<Rightarrow> addr"

text \<open>\<open>os_numa = None\<close> is a build without \<open>NUMA_SUPPORT\<close>, or \<open>numa_available() == -1\<close>.
  A failed \<open>mmap\<close> answers \<open>MAP_FAILED\<close>, that is \<open>-1\<close>.\<close>

record mm_os =
  os_mmap :: "u64 \<Rightarrow> bool \<Rightarrow> addr"
  os_numa :: "numa option"
  os_new_ref :: addr

datatype release = Munmap addr u64 | Numa_Free addr u64

record mm =
  mm_allocations :: "(addr \<times> allocation) list"
  mm_addr_to_ref :: "addr \<rightharpoonup> addr"
  mm_objects :: "addr \<rightharpoonup> remote_ref"
  mm_mem :: mem
  mm_released :: "release list"

definition tier_memory :: "mm_os \<Rightarrow> u64 \<Rightarrow> memory_tier \<Rightarrow> addr \<times> int" where
  "tier_memory os sz tier =
     (case tier of
        LOCAL_DRAM \<Rightarrow> (os_mmap os sz False, 0)
      | FAR_MEMORY \<Rightarrow> (os_mmap os sz True, 0)
      | CXL_ATTACHED \<Rightarrow> (case os_numa os of None \<Rightarrow> (os_mmap os sz False, 0)
          | Some nm \<Rightarrow> let node = (if 1 \<le> nm_max_node nm then 1 else 0) in (nm_alloc nm sz node, node))
      | CXL_POOLED \<Rightarrow> (case os_numa os of None \<Rightarrow> (os_mmap os sz False, 0)
          | Some nm \<Rightarrow> let node = (if 1 \<le> nm_max_node nm then 1 else 0) in (nm_alloc nm sz node, node))
      | CXL_TYPE2_MEM \<Rightarrow> (case os_numa os of None \<Rightarrow> (os_mmap os sz False, 0)
          | Some nm \<Rightarrow> (nm_alloc nm sz (nm_max_node nm), nm_max_node nm))
      | CXL_TYPE2_CACHE \<Rightarrow> (case os_numa os of None \<Rightarrow> (os_mmap os sz False, 0)
          | Some nm \<Rightarrow> (nm_alloc nm sz (nm_max_node nm), nm_max_node nm)))"

definition allocateRemote :: "mm_os \<Rightarrow> u64 \<Rightarrow> memory_tier \<Rightarrow> mm \<Rightarrow> addr \<times> mm" where
  "allocateRemote os sz tier s =
     (let ref = os_new_ref os in
      case tier_memory os sz tier of (a, node) \<Rightarrow>
        (ref, s\<lparr>mm_objects := (mm_objects s)(ref \<mapsto> \<lparr>rr_base_addr = a, rr_size = sz, rr_tier = tier\<rparr>),
           mm_allocations := AList.update ref \<lparr>al_addr = a, al_size = sz, al_tier = tier, al_numa_node = node\<rparr>
             (mm_allocations s),
           mm_addr_to_ref := (mm_addr_to_ref s)(a \<mapsto> ref)\<rparr>))"

definition delete_ref :: "addr \<Rightarrow> mm \<Rightarrow> mm option" where
  "delete_ref ref s =
     (if ref = 0 then Some s
      else if mm_objects s ref = None then None
      else Some (s\<lparr>mm_objects := (mm_objects s)(ref := None)\<rparr>))"

definition deallocateRemote :: "mm_os \<Rightarrow> addr \<Rightarrow> mm \<Rightarrow> mm option" where
  "deallocateRemote os ref s =
     (case map_of (mm_allocations s) ref of
        None \<Rightarrow> delete_ref ref s
      | Some a \<Rightarrow>
          let numa_block = al_tier a \<in> {CXL_ATTACHED, CXL_POOLED, CXL_TYPE2_MEM, CXL_TYPE2_CACHE} \<and>
                os_numa os \<noteq> None \<and> 0 < al_numa_node a;
              r = (if numa_block then Numa_Free (al_addr a) (al_size a) else Munmap (al_addr a) (al_size a))
          in delete_ref ref (s\<lparr>mm_released := mm_released s @ [r],
               mm_addr_to_ref := (mm_addr_to_ref s)(al_addr a := None),
               mm_allocations := AList.delete ref (mm_allocations s)\<rparr>))"

definition mapRemote :: "addr \<Rightarrow> mm \<Rightarrow> addr option" where
  "mapRemote ref s = map_option rr_base_addr (mm_objects s ref)"

definition unmapRemote :: "addr \<Rightarrow> mm \<Rightarrow> mm" where
  "unmapRemote a s = s"

text \<open>\<open>*ref = *new_ref\<close> stores through \<open>ref\<close>, which must still be an object.\<close>

definition migrate :: "mm_os \<Rightarrow> addr \<Rightarrow> memory_tier \<Rightarrow> mm \<Rightarrow> mm option" where
  "migrate os ref new_tier s =
     (if map_of (mm_allocations s) ref = None then Some s
      else Option.bind (mm_objects s ref) (\<lambda>old.
        case allocateRemote os (rr_size old) new_tier s of (new_ref, s1) \<Rightarrow>
          Option.bind (mm_objects s1 new_ref) (\<lambda>new.
          Option.bind (mm_objects s1 ref) (\<lambda>old1.
            let s2 = s1\<lparr>mm_mem := memcpy (mm_mem s1) (rr_base_addr new) (rr_base_addr old1) (unat (rr_size old1))\<rparr>
            in Option.bind (deallocateRemote os ref s2) (\<lambda>s3.
              if mm_objects s3 ref = None then None
              else Option.bind (mm_objects s3 new_ref) (\<lambda>n.
                delete_ref new_ref (s3\<lparr>mm_objects := (mm_objects s3)(ref \<mapsto> n)\<rparr>)))))))"

definition getTier :: "addr \<Rightarrow> mm \<Rightarrow> memory_tier option" where
  "getTier ref s = map_option rr_tier (mm_objects s ref)"

definition getUsedMemory :: "memory_tier \<Rightarrow> mm \<Rightarrow> u64" where
  "getUsedMemory tier s =
     foldl (\<lambda>total e. if al_tier (snd e) = tier then total + al_size (snd e) else total) 0 (mm_allocations s)"

definition getAvailableMemory :: "memory_tier \<Rightarrow> u64" where
  "getAvailableMemory tier =
     (case tier of
        LOCAL_DRAM \<Rightarrow> 16 * 1024 * 1024 * 1024
      | CXL_ATTACHED \<Rightarrow> 64 * 1024 * 1024 * 1024
      | CXL_POOLED \<Rightarrow> 64 * 1024 * 1024 * 1024
      | FAR_MEMORY \<Rightarrow> 256 * 1024 * 1024 * 1024
      | CXL_TYPE2_MEM \<Rightarrow> 4 * 1024 * 1024 * 1024
      | CXL_TYPE2_CACHE \<Rightarrow> 128 * 1024 * 1024)"

section \<open>Prefetch controller\<close>

datatype access_pattern = SEQUENTIAL | STRIDED | RANDOM

record prefetcher =
  pf_enabled :: bool
  pf_distance :: u64
  pf_profile :: "access_pattern option"

definition init_prefetcher :: prefetcher where
  "init_prefetcher = \<lparr>pf_enabled = True, pf_distance = 4, pf_profile = None\<rparr>"

definition adaptivePrefetch :: "addr \<Rightarrow> u64 \<Rightarrow> u64 \<Rightarrow> prefetcher \<Rightarrow> addr list" where
  "adaptivePrefetch base stride distance p =
     (if \<not> pf_enabled p then [] else map (\<lambda>i. base + of_nat i * stride) [0..<unat distance])"

definition batchPrefetch :: "addr list \<Rightarrow> prefetcher \<Rightarrow> addr list" where
  "batchPrefetch addresses p = (if \<not> pf_enabled p then [] else addresses)"

definition updateProfile :: "access_pattern \<Rightarrow> prefetcher \<Rightarrow> prefetcher" where
  "updateProfile pattern p =
     p\<lparr>pf_profile := Some pattern,
       pf_distance := (case pattern of SEQUENTIAL \<Rightarrow> 8 | STRIDED \<Rightarrow> 4 | RANDOM \<Rightarrow> 1)\<rparr>"

definition optimizePrefetch :: "access_pattern \<Rightarrow> prefetcher \<Rightarrow> prefetcher" where
  "optimizePrefetch pattern p = updateProfile pattern p"

definition enablePrefetch :: "bool \<Rightarrow> prefetcher \<Rightarrow> prefetcher" where
  "enablePrefetch b p = p\<lparr>pf_enabled := b\<rparr>"

definition setPrefetchDistance :: "u64 \<Rightarrow> prefetcher \<Rightarrow> prefetcher" where
  "setPrefetchDistance d p = p\<lparr>pf_distance := d\<rparr>"


section \<open>Graph runtime\<close>

record graph =
  gr_edges :: addr
  gr_vertices :: addr
  gr_num_edges :: u64
  gr_num_vertices :: u64

definition initializeGraph :: "mm_os \<Rightarrow> mm_os \<Rightarrow> graph \<Rightarrow> mm \<Rightarrow> graph \<times> mm" where
  "initializeGraph os1 os2 g s =
     (case (if gr_edges g = 0 then allocateRemote os1 (gr_num_edges g * 8 * 2) CXL_ATTACHED s else (gr_edges g, s)) of
        (e, s1) \<Rightarrow>
        (case (if gr_vertices g = 0 then allocateRemote os2 (gr_num_vertices g * 8) LOCAL_DRAM s1 else (gr_vertices g, s1)) of
           (v, s2) \<Rightarrow> (g\<lparr>gr_edges := e, gr_vertices := v\<rparr>, s2)))"

text \<open>The calls the programs receive: vertex data and the edge array, or an edge slot with its ends.\<close>

definition executeVertexProgram :: "graph \<Rightarrow> mm \<Rightarrow> (addr \<times> addr) list option" where
  "executeVertexProgram g s =
     Option.bind (mapRemote (gr_vertices g) s) (\<lambda>vertices.
     Option.bind (mapRemote (gr_edges g) s) (\<lambda>edges.
       Some (map (\<lambda>v. (read64 (mm_mem s) (vertices + 8 * of_nat v), edges)) [0..<unat (gr_num_vertices g)])))"

definition executeEdgeProgram :: "graph \<Rightarrow> mm \<Rightarrow> (addr \<times> addr \<times> addr) list option" where
  "executeEdgeProgram g s =
     Option.bind (mapRemote (gr_edges g) s) (\<lambda>edges.
     Option.bind (mapRemote (gr_vertices g) s) (\<lambda>vertices.
       Some (map (\<lambda>e. (edges + 8 * (of_nat e * 2), read64 (mm_mem s) (edges + 8 * (of_nat e * 2)),
              read64 (mm_mem s) (edges + 8 * (of_nat e * 2 + 1)))) [0..<unat (gr_num_edges g)])))"

text \<open>The traversals, which push no neighbours: the vertices visited.\<close>

fun bfs_loop :: "u64 list \<Rightarrow> u64 list" where
  "bfs_loop [] = []"
| "bfs_loop (v # queue) = v # bfs_loop queue"

definition bfsTraversal :: "graph \<Rightarrow> u64 \<Rightarrow> u64 list option" where
  "bfsTraversal g start = (if start < gr_num_vertices g then Some (bfs_loop [start]) else None)"

fun dfs_loop :: "bool list \<Rightarrow> u64 list \<Rightarrow> u64 list option" where
  "dfs_loop visited [] = Some []"
| "dfs_loop visited (v # stack) =
     (if length visited \<le> unat v then None
      else if visited ! unat v then dfs_loop visited stack
      else map_option (Cons v) (dfs_loop (visited[unat v := True]) stack))"

definition dfsTraversal :: "graph \<Rightarrow> u64 \<Rightarrow> u64 list option" where
  "dfsTraversal g start = dfs_loop (replicate (unat (gr_num_vertices g)) False) [start]"

section \<open>The runtime object\<close>

record runtime =
  rt_edges :: edge_cache
  rt_memory :: mm
  rt_prefetch :: prefetcher
  rt_verbosity :: int
  rt_profiling :: bool

definition setVerbosity :: "int \<Rightarrow> runtime \<Rightarrow> runtime" where
  "setVerbosity level r = r\<lparr>rt_verbosity := level\<rparr>"

definition enableProfiling :: "bool \<Rightarrow> runtime \<Rightarrow> runtime" where
  "enableProfiling b r = r\<lparr>rt_profiling := b\<rparr>"

definition cira_runtime_create :: "mem \<Rightarrow> runtime" where
  "cira_runtime_create m = \<lparr>rt_edges = (\<lambda>_. None),
     rt_memory = \<lparr>mm_allocations = [], mm_addr_to_ref = (\<lambda>_. None), mm_objects = (\<lambda>_. None), mm_mem = m, mm_released = []\<rparr>,
     rt_prefetch = init_prefetcher, rt_verbosity = 0, rt_profiling = False\<rparr>"

definition cira_offload_load_edge :: "addr \<Rightarrow> u64 \<Rightarrow> u64 \<Rightarrow> runtime \<Rightarrow> (addr \<times> addr list \<times> runtime) option" where
  "cira_offload_load_edge edge_ptr index prefetch_distance r =
     Option.bind (mm_objects (rt_memory r) edge_ptr) (\<lambda>ref.
       map_option (\<lambda>(d, ps, c). (d, ps, r\<lparr>rt_edges := c\<rparr>)) (loadEdge ref index prefetch_distance (rt_edges r)))"

definition cira_offload_evict_edge :: "addr \<Rightarrow> u64 \<Rightarrow> runtime \<Rightarrow> (addr list \<times> runtime) option" where
  "cira_offload_evict_edge edge_ptr index r =
     Option.bind (mm_objects (rt_memory r) edge_ptr) (\<lambda>ref.
       case evictEdge ref index (rt_edges r) of (ps, c) \<Rightarrow> Some (ps, r\<lparr>rt_edges := c\<rparr>))"

section \<open>The edge cache is invisible\<close>

text \<open>Every entry holds the address it is stored under.\<close>

definition cache_ok :: "edge_cache \<Rightarrow> bool" where
  "cache_ok c \<longleftrightarrow> (\<forall>a e. c a = Some e \<longrightarrow> ec_data e = a)"

lemma unat_inc_u64:
  assumes "(a :: u64) \<noteq> - 1"
  shows "unat (a + 1) = unat a + 1"
proof -
  have "1 + a \<noteq> 0" using assms by (metis add.commute add_eq_0_iff)
  then show ?thesis using unatSuc [of a] by (simp add: add.commute)
qed

lemma edge_prefetch_loop_closed:
  assumes "unat distance = unat i + n" "distance \<noteq> - 1"
  shows "edge_prefetch_loop base index i distance =
    Some (map (\<lambda>j. base + (index + (i + of_nat j) * 64) * 8) [0..<Suc n])"
  using assms(1)
proof (induction n arbitrary: i)
  case 0
  then have "distance = i" by (simp add: word_unat_eq_iff)
  moreover have "\<not> i + 1 \<le> i" using unat_inc_u64 [of i] \<open>distance = i\<close> assms(2) by (simp add: word_le_nat_alt)
  ultimately show ?case
    by (subst edge_prefetch_loop.simps, subst edge_prefetch_loop.simps) simp
next
  case (Suc n)
  have "unat (i + 1) = unat i + 1" using Suc.prems unat_lt_u64 [of distance] by (simp add: unat_word_ariths(1))
  then have "edge_prefetch_loop base index (i + 1) distance =
      Some (map (\<lambda>j. base + (index + (i + 1 + of_nat j) * 64) * 8) [0..<Suc n])"
    using Suc.prems by (intro Suc.IH) simp
  moreover have "[0..<Suc (Suc n)] = 0 # map Suc [0..<Suc n]" by (subst upt_conv_Cons) (simp_all add: map_Suc_upt del: upt_Suc)
  moreover have "i \<le> distance" using Suc.prems by (simp add: word_le_nat_alt)
  ultimately show ?case
    by (subst edge_prefetch_loop.simps) (simp add: algebra_simps del: upt_Suc)
qed


lemma loadEdge_value:
  assumes "cache_ok c" "distance \<noteq> - 1"
  shows "\<exists>ps c'. loadEdge edge index distance c = Some (rr_base_addr edge + index * 8, ps, c') \<and> cache_ok c'"
proof -
  let ?a = "rr_base_addr edge + index * 8"
  have "\<exists>ps. (if 0 < distance then edge_prefetch_loop (rr_base_addr edge) index 1 distance else Some []) = Some ps"
  proof (cases "0 < distance")
    case True
    then obtain n where "unat distance = unat (1 :: u64) + n"
      by (metis One_nat_def Suc_leI le_Suc_ex unat_1 unat_gt_0 word_gt_0)
    then show ?thesis using edge_prefetch_loop_closed [OF _ assms(2)] True by auto
  qed simp
  then show ?thesis
    using assms(1) by (cases "c ?a") (auto simp: loadEdge_def cache_ok_def Let_def)
qed

datatype edge_op = Load_Edge remote_ref u64 u64 | Evict_Edge remote_ref u64

fun edge_run :: "edge_op list \<Rightarrow> edge_cache \<Rightarrow> (addr list \<times> edge_cache) option" where
  "edge_run [] c = Some ([], c)"
| "edge_run (Load_Edge r i d # xs) c =
     Option.bind (loadEdge r i d c) (\<lambda>(a, ps, c1). map_option (\<lambda>(as, c2). (a # as, c2)) (edge_run xs c1))"
| "edge_run (Evict_Edge r i # xs) c = edge_run xs (snd (evictEdge r i c))"

fun edge_results :: "edge_op list \<Rightarrow> addr list" where
  "edge_results [] = []"
| "edge_results (Load_Edge r i d # xs) = (rr_base_addr r + i * 8) # edge_results xs"
| "edge_results (Evict_Edge r i # xs) = edge_results xs"

lemma evict_cache_ok: "cache_ok c \<Longrightarrow> cache_ok (snd (evictEdge r i c))"
  by (auto simp: cache_ok_def evictEdge_def Let_def split: option.split)



lemma batch_load_value:
  assumes "cache_ok c"
  shows "\<exists>c'. batch_load edge start is c = Some (map (\<lambda>i. rr_base_addr edge + (start + of_nat i) * 8) is, c') \<and> cache_ok c'"
  using assms
proof (induction "is" arbitrary: c)
  case (Cons i "is")
  obtain ps c1 where l: "loadEdge edge (start + of_nat i) 1 c = Some (rr_base_addr edge + (start + of_nat i) * 8, ps, c1)"
    "cache_ok c1" using loadEdge_value [OF Cons.prems, of 1 edge "start + of_nat i"] by auto
  then show ?case using Cons.IH [OF l(2)] by (auto simp: algebra_simps)
qed simp

section \<open>What the memory manager accounts for\<close>

text \<open>The manager's tables against its objects: one entry per live reference.\<close>

definition mm_ok :: "mm \<Rightarrow> bool" where
  "mm_ok s \<longleftrightarrow> distinct (map fst (mm_allocations s)) \<and>
     (\<forall>ref a. map_of (mm_allocations s) ref = Some a \<longrightarrow> ref \<noteq> 0 \<and>
        (\<exists>r. mm_objects s ref = Some r \<and> rr_base_addr r = al_addr a \<and> rr_size r = al_size a \<and> rr_tier r = al_tier a))"

lemma used_foldl:
  "foldl (\<lambda>total e. if al_tier (snd e) = t then total + al_size (snd e) else total) (k :: u64) xs =
     k + (\<Sum>e \<leftarrow> xs. if al_tier (snd e) = t then al_size (snd e) else 0)"
  by (induction xs arbitrary: k) (simp_all add: algebra_simps)

lemma used_sum: "getUsedMemory t s = (\<Sum>e \<leftarrow> mm_allocations s. if al_tier (snd e) = t then al_size (snd e) else 0)"
  by (simp add: getUsedMemory_def used_foldl)

lemma sum_update_fresh:
  "k \<notin> fst ` set xs \<Longrightarrow> AList.update k v xs = xs @ [(k, v)]"
  by (induction xs) auto

lemma sum_delete:
  "distinct (map fst xs) \<Longrightarrow> map_of xs k = Some v \<Longrightarrow>
   (\<Sum>e \<leftarrow> xs. f e) = f (k, v) + (\<Sum>e \<leftarrow> AList.delete k xs. (f e :: u64))"
proof (induction xs)
  case (Cons x xs)
  obtain a b where x: "x = (a, b)" by fastforce
  show ?case
  proof (cases "a = k")
    case True
    then have "AList.delete k (x # xs) = xs" using Cons.prems x
      by (simp add: delete_conv AList.delete_id) 
    then show ?thesis using Cons.prems True x by simp
  next
    case False
    then show ?thesis using Cons x by (simp add: algebra_simps)
  qed
qed simp


lemma mm_okD:
  assumes "mm_ok s" "map_of (mm_allocations s) ref = Some a"
  shows "ref \<noteq> 0" "\<exists>r. mm_objects s ref = Some r"
  using assms unfolding mm_ok_def by blast+

lemma mm_ok_fresh:
  assumes "mm_ok s" "mm_objects s ref = None"
  shows "ref \<notin> fst ` set (mm_allocations s)"
proof -
  have "map_of (mm_allocations s) ref = None"
    using mm_okD(2) [OF assms(1), of ref] assms(2) by (cases "map_of (mm_allocations s) ref") auto
  then show ?thesis by (simp only: map_of_eq_None_iff not_False_eq_True)
qed

lemma allocate_ok:
  assumes "mm_ok s" "os_new_ref os \<noteq> 0" "mm_objects s (os_new_ref os) = None"
    and "allocateRemote os sz tier s = (ref, s1)"
  shows "mm_ok s1" "ref = os_new_ref os"
    "getUsedMemory t s1 = getUsedMemory t s + (if tier = t then sz else 0)"
    "map_of (mm_allocations s1) ref = Some \<lparr>al_addr = fst (tier_memory os sz tier), al_size = sz, al_tier = tier,
       al_numa_node = snd (tier_memory os sz tier)\<rparr>"
proof -
  obtain a node where t: "tier_memory os sz tier = (a, node)" by fastforce
  have fresh: "os_new_ref os \<notin> fst ` set (mm_allocations s)" by (rule mm_ok_fresh [OF assms(1,3)])
  have s1: "s1 = s\<lparr>mm_objects := (mm_objects s)(ref \<mapsto> \<lparr>rr_base_addr = a, rr_size = sz, rr_tier = tier\<rparr>),
      mm_allocations := mm_allocations s @ [(ref, \<lparr>al_addr = a, al_size = sz, al_tier = tier, al_numa_node = node\<rparr>)],
      mm_addr_to_ref := (mm_addr_to_ref s)(a \<mapsto> ref)\<rparr>" and ref: "ref = os_new_ref os"
    using assms(4) fresh by (auto simp: allocateRemote_def Let_def t sum_update_fresh)
  show "ref = os_new_ref os" by (rule ref)
  have none: "map_of (mm_allocations s) ref = None"
    unfolding map_of_eq_None_iff using fresh ref by simp
  have mo: "map_of (mm_allocations s1) k = (if k = ref then Some \<lparr>al_addr = a, al_size = sz, al_tier = tier,
      al_numa_node = node\<rparr> else map_of (mm_allocations s) k)" for k
    using none by (auto simp: s1 map_add_def split: option.split)
  have "distinct (map fst (mm_allocations s1))" using assms(1) fresh ref by (simp add: mm_ok_def s1)
  moreover have "k \<noteq> 0 \<and> (\<exists>r. mm_objects s1 k = Some r \<and> rr_base_addr r = al_addr b \<and> rr_size r = al_size b \<and> rr_tier r = al_tier b)"
    if "map_of (mm_allocations s1) k = Some b" for k b
  proof (cases "k = ref")
    case True
    then have "b = \<lparr>al_addr = a, al_size = sz, al_tier = tier, al_numa_node = node\<rparr>" using that by (simp add: mo)
    then show ?thesis using True assms(2) ref by (simp add: s1)
  next
    case False
    then have "map_of (mm_allocations s) k = Some b" using that by (simp add: mo)
    then show ?thesis using assms(1) False unfolding mm_ok_def s1 by simp
  qed
  ultimately show "mm_ok s1" unfolding mm_ok_def by blast
  show "getUsedMemory t s1 = getUsedMemory t s + (if tier = t then sz else 0)" by (simp add: used_sum s1)
  show "map_of (mm_allocations s1) ref = Some \<lparr>al_addr = fst (tier_memory os sz tier), al_size = sz, al_tier = tier,
       al_numa_node = snd (tier_memory os sz tier)\<rparr>"
    by (simp add: mo t)
qed

lemma deallocate_ok:
  assumes "mm_ok s" "map_of (mm_allocations s) ref = Some a"
  shows "\<exists>s1 r. deallocateRemote os ref s = Some s1 \<and> mm_ok s1 \<and> mm_objects s1 = (mm_objects s)(ref := None) \<and>
    mm_released s1 = mm_released s @ [r] \<and> r \<in> {Munmap (al_addr a) (al_size a), Numa_Free (al_addr a) (al_size a)} \<and>
    mm_allocations s1 = AList.delete ref (mm_allocations s)"
proof -
  have r: "ref \<noteq> 0" "mm_objects s ref \<noteq> None" using mm_okD [OF assms] by auto
  have "distinct (map fst (AList.delete ref (mm_allocations s)))"
    using assms(1) by (simp add: mm_ok_def distinct_delete)
  then show ?thesis
    using assms r by (auto simp: deallocateRemote_def Let_def delete_ref_def mm_ok_def delete_conv Let_def)
qed

text \<open>The books balance. An allocation from any tier that is freed later releases exactly the block it
  obtained, once, with the size it was asked for, and leaves the used-memory figure of every tier, the
  table and the set of live references as they were; while it lives it counts in its own tier and in
  no other, also when the operating system had no memory to give.\<close>

theorem allocate_deallocate_balance:
  assumes "mm_ok s" "os_new_ref os \<noteq> 0" "mm_objects s (os_new_ref os) = None"
    and "allocateRemote os sz tier s = (ref, s1)"
  shows "getUsedMemory t s1 = getUsedMemory t s + (if tier = t then sz else 0) \<and>
    (\<exists>s2 r. deallocateRemote os ref s1 = Some s2 \<and> mm_ok s2 \<and>
       mm_objects s2 = mm_objects s \<and> mm_allocations s2 = mm_allocations s \<and> getUsedMemory t s2 = getUsedMemory t s \<and>
       mm_released s2 = mm_released s @ [r] \<and>
       r \<in> {Munmap (fst (tier_memory os sz tier)) sz, Numa_Free (fst (tier_memory os sz tier)) sz})"
proof -
  note A = allocate_ok [OF assms]
  obtain s2 r where d: "deallocateRemote os ref s1 = Some s2" "mm_ok s2" "mm_objects s2 = (mm_objects s1)(ref := None)"
    "mm_released s2 = mm_released s1 @ [r]"
    "r \<in> {Munmap (fst (tier_memory os sz tier)) sz, Numa_Free (fst (tier_memory os sz tier)) sz}"
    "mm_allocations s2 = AList.delete ref (mm_allocations s1)"
    using deallocate_ok [OF A(1,4), of os] by auto
  have fresh: "ref \<notin> fst ` set (mm_allocations s)" using mm_ok_fresh [OF assms(1,3)] A(2) by simp
  have s1: "mm_allocations s1 = mm_allocations s @ [(ref, \<lparr>al_addr = fst (tier_memory os sz tier), al_size = sz,
      al_tier = tier, al_numa_node = snd (tier_memory os sz tier)\<rparr>)]" "mm_released s1 = mm_released s"
    "(mm_objects s1)(ref := None) = mm_objects s"
    using assms(3,4) fresh A(2)
    by (auto simp: allocateRemote_def Let_def sum_update_fresh fun_upd_idem split: prod.splits)
  have "mm_allocations s2 = mm_allocations s"
    using fresh d(6) unfolding s1 by (force simp: AList.delete_eq filter_id_conv)
  then show ?thesis using A(3) d s1 by (auto simp: used_sum)
qed

text \<open>\<open>migrate\<close> writes through the reference it has just deleted: for every live reference, whatever the
  target tier, the call ends in a store to a freed object.\<close>

theorem migrate_uses_freed_reference:
  assumes "mm_ok s" "os_new_ref os \<noteq> 0" "mm_objects s (os_new_ref os) = None"
    and "map_of (mm_allocations s) ref = Some a"
  shows "migrate os ref tier s = None"
proof -
  obtain old where o: "mm_objects s ref = Some old" using mm_okD(2) [OF assms(1,4)] by blast
  obtain new_ref s1 where al: "allocateRemote os (rr_size old) tier s = (new_ref, s1)" by fastforce
  note A = allocate_ok [OF assms(1-3) al]
  have ne: "ref \<noteq> new_ref" using o assms(3) A(2) by auto
  have o1: "mm_objects s1 ref = Some old" "map_of (mm_allocations s1) ref = Some a"
    using al ne o assms(4) A(2) by (auto simp: allocateRemote_def Let_def update_conv split: prod.splits)
  show ?thesis
  proof (cases "mm_objects s1 new_ref")
    case (Some new)
    let ?s2 = "s1\<lparr>mm_mem := memcpy (mm_mem s1) (rr_base_addr new) (rr_base_addr old) (unat (rr_size old))\<rparr>"
    have "mm_ok ?s2" using A(1) by (simp add: mm_ok_def)
    from deallocate_ok [OF this, of ref a os] o1 obtain s3 where
      "deallocateRemote os ref ?s2 = Some s3" "mm_objects s3 ref = None" by auto
    then show ?thesis using assms(4) o o1 al Some by (simp add: migrate_def Let_def)
  qed (use assms(4) o al in \<open>simp add: migrate_def\<close>)
qed


definition demo_mm_os :: mm_os where
  "demo_mm_os = \<lparr>os_mmap = (\<lambda>_ _. 0x100000), os_numa = None, os_new_ref = 0x500\<rparr>"

abbreviation empty_mm :: mm where
  "empty_mm \<equiv> \<lparr>mm_allocations = [], mm_addr_to_ref = (\<lambda>_. None), mm_objects = (\<lambda>_. None), mm_mem = (\<lambda>_. 0), mm_released = []\<rparr>"

lemma allocate_deallocate_balance_witness:
  "\<exists>s1 s2. allocateRemote demo_mm_os 4096 CXL_POOLED empty_mm = (0x500, s1) \<and> getUsedMemory CXL_POOLED s1 = 4096 \<and>
     deallocateRemote demo_mm_os 0x500 s1 = Some s2 \<and> getUsedMemory CXL_POOLED s2 = 0"
proof -
  have ok: "mm_ok empty_mm" by (simp add: mm_ok_def)
  obtain s1 where a: "allocateRemote demo_mm_os 4096 CXL_POOLED empty_mm = (0x500, s1)"
    by (simp add: allocateRemote_def tier_memory_def demo_mm_os_def Let_def)
  show ?thesis
    using allocate_deallocate_balance [OF ok _ _ a, of CXL_POOLED] a by (auto simp: demo_mm_os_def getUsedMemory_def)
qed

lemma migrate_uses_freed_reference_witness:
  "migrate demo_mm_os 0x600 FAR_MEMORY \<lparr>mm_allocations = [(0x600, \<lparr>al_addr = 0x100000, al_size = 64, al_tier = LOCAL_DRAM,
     al_numa_node = 0\<rparr>)], mm_addr_to_ref = [0x100000 \<mapsto> 0x600],
     mm_objects = [0x600 \<mapsto> \<lparr>rr_base_addr = 0x100000, rr_size = 64, rr_tier = LOCAL_DRAM\<rparr>], mm_mem = (\<lambda>_. 0), mm_released = []\<rparr> = None"
  by (rule migrate_uses_freed_reference) (simp_all add: mm_ok_def demo_mm_os_def)

section \<open>Graphs\<close>

text \<open>Without neighbours both traversals visit the start vertex alone.\<close>

lemma traversals_visit_start_only:
  "bfsTraversal g start = (if start < gr_num_vertices g then Some [start] else None)"
  "dfsTraversal g start = (if start < gr_num_vertices g then Some [start] else None)"
  by (auto simp: bfsTraversal_def dfsTraversal_def word_less_nat_alt)

text \<open>A fresh graph is large enough. When the byte counts fit in 64 bits and the operating system returns
  blocks that do not wrap, every slot the edge program is given and both ends it is handed lie inside
  the block allocated for the edges.\<close>

theorem edge_program_in_bounds:
  assumes "gr_edges g = 0" "gr_vertices g \<noteq> 0" "gr_vertices g \<noteq> os_new_ref os1"
    and "initializeGraph os1 os2 g s = (g', s')" "executeEdgeProgram g' s' = Some calls"
    and "unat (gr_num_edges g) * 16 < 2 ^ 64"
    and "base = fst (tier_memory os1 (gr_num_edges g * 8 * 2) CXL_ATTACHED)"
    and "unat base + unat (gr_num_edges g) * 16 \<le> 2 ^ 64"
  shows "length calls = unat (gr_num_edges g) \<and>
    (\<forall>(slot, src, dst) \<in> set calls. base \<le> slot \<and> unat slot + 16 \<le> unat base + unat (rr_size (the (mm_objects s' (gr_edges g')))))"
proof -
  let ?n = "gr_num_edges g"
  obtain a node where t: "tier_memory os1 (?n * 8 * 2) CXL_ATTACHED = (a, node)" by fastforce
  have t': "tier_memory os1 (16 * ?n) CXL_ATTACHED = (a, node)" using t by simp
  have g': "gr_edges g' = os_new_ref os1" "gr_num_edges g' = ?n"
    "mm_objects s' (os_new_ref os1) = Some \<lparr>rr_base_addr = a, rr_size = ?n * 8 * 2, rr_tier = CXL_ATTACHED\<rparr>"
    using assms(1,2,4) by (auto simp: initializeGraph_def allocateRemote_def Let_def t t' split: prod.splits)
  have base: "base = a" using assms(7) t by simp
  have sz: "unat (?n * 8 * 2) = unat ?n * 16" using assms(6) by (simp add: unat_word_ariths mod_simps)
  have calls: "calls = map (\<lambda>e. (a + 8 * (of_nat e * 2), read64 (mm_mem s') (a + 8 * (of_nat e * 2)),
              read64 (mm_mem s') (a + 8 * (of_nat e * 2 + 1)))) [0..<unat ?n]"
    using assms(5) g' by (auto simp: executeEdgeProgram_def mapRemote_def bind_eq_Some_conv)
  have u: "unat (a + 8 * (of_nat e * 2)) = unat a + 16 * e" if "e < unat ?n" for e
  proof -
    have "unat a + 16 * e < 2 ^ 64" using that assms(8) unfolding base by linarith
    then have "unat (a + of_nat (16 * e)) = unat a + 16 * e" by (rule unat_sub_add_u64)
    then show ?thesis by (simp add: mult.assoc)
  qed
  have sz': "unat (16 * ?n) = unat ?n * 16" using sz by simp
  show ?thesis using u by (auto simp: calls base g' sz' word_le_nat_alt)
qed


lemma edge_program_in_bounds_witness:
  "\<exists>calls. executeEdgeProgram (fst (initializeGraph demo_mm_os demo_mm_os \<lparr>gr_edges = 0, gr_vertices = 0x700, gr_num_edges = 5,
       gr_num_vertices = 3\<rparr> (empty_mm\<lparr>mm_objects := [0x700 \<mapsto> \<lparr>rr_base_addr = 0, rr_size = 24, rr_tier = LOCAL_DRAM\<rparr>]\<rparr>)))
     (snd (initializeGraph demo_mm_os demo_mm_os \<lparr>gr_edges = 0, gr_vertices = 0x700, gr_num_edges = 5,
       gr_num_vertices = 3\<rparr> (empty_mm\<lparr>mm_objects := [0x700 \<mapsto> \<lparr>rr_base_addr = 0, rr_size = 24, rr_tier = LOCAL_DRAM\<rparr>]\<rparr>))) =
     Some calls \<and> length calls = 5"
proof -
  let ?g = "\<lparr>gr_edges = 0, gr_vertices = 0x700, gr_num_edges = 5, gr_num_vertices = 3\<rparr>"
  let ?s = "empty_mm\<lparr>mm_objects := [0x700 \<mapsto> \<lparr>rr_base_addr = 0, rr_size = 24, rr_tier = LOCAL_DRAM\<rparr>]\<rparr>"
  obtain g' s' where i: "initializeGraph demo_mm_os demo_mm_os ?g ?s = (g', s')" by fastforce
  then obtain calls where c: "executeEdgeProgram g' s' = Some calls"
    by (auto simp: initializeGraph_def allocateRemote_def executeEdgeProgram_def mapRemote_def demo_mm_os_def Let_def
        split: prod.splits)
  show ?thesis
    using edge_program_in_bounds [OF _ _ _ i c] i c by (simp add: demo_mm_os_def tier_memory_def)
qed

end
