(* ===== verification/Jit_Cost.thy ===== *)
theory Jit_Cost
  imports Complex_Main Prelude
begin

text \<open>
  The cost model of \<^verbatim>\<open>runtime/cira_jit.cpp\<close>, which picks batch size, traversal depth, pipeline
  distance and the host share of an offloaded region. The floating-point unit is an argument: its
  arithmetic, comparisons and conversions on a type \<open>'d\<close> of doubles, with \<open>fp_single\<close> the rounding
  to \<open>float\<close>. Nothing is assumed of it unless a property says so, so NaNs and infinities are included.
\<close>

record 'd fpu =
  fp_lit :: "rat \<Rightarrow> 'd"
  fp_of_u64 :: "u64 \<Rightarrow> 'd"
  fp_add :: "'d \<Rightarrow> 'd \<Rightarrow> 'd"
  fp_sub :: "'d \<Rightarrow> 'd \<Rightarrow> 'd"
  fp_mul :: "'d \<Rightarrow> 'd \<Rightarrow> 'd"
  fp_div :: "'d \<Rightarrow> 'd \<Rightarrow> 'd"
  fp_lt :: "'d \<Rightarrow> 'd \<Rightarrow> bool"
  fp_le :: "'d \<Rightarrow> 'd \<Rightarrow> bool"
  fp_eq :: "'d \<Rightarrow> 'd \<Rightarrow> bool"
  fp_to_u32 :: "'d \<Rightarrow> u32"
  fp_single :: "'d \<Rightarrow> 'd"

definition fp_max :: "'d fpu \<Rightarrow> 'd \<Rightarrow> 'd \<Rightarrow> 'd" where
  "fp_max F a b = (if fp_lt F a b then b else a)"

definition fp_min :: "'d fpu \<Rightarrow> 'd \<Rightarrow> 'd \<Rightarrow> 'd" where
  "fp_min F a b = (if fp_lt F b a then b else a)"

section \<open>Helpers\<close>

definition safe_div :: "'d fpu \<Rightarrow> 'd \<Rightarrow> 'd \<Rightarrow> 'd \<Rightarrow> 'd" where
  "safe_div F a b fallback = (if fp_lt F (fp_lit F 0) b then fp_div F a b else fallback)"

definition clamp_u32 :: "'d fpu \<Rightarrow> 'd \<Rightarrow> u32 \<Rightarrow> u32 \<Rightarrow> u32" where
  "clamp_u32 F v lo hi =
     (if \<not> fp_eq F v v then lo
      else if fp_lt F v (fp_of_u64 F (ucast lo)) then lo
      else if fp_lt F (fp_of_u64 F (ucast hi)) v then hi
      else fp_to_u32 F (fp_add F v (fp_lit F (1 / 2))))"

definition cycles_to_ns :: "'d fpu \<Rightarrow> u64 \<Rightarrow> 'd \<Rightarrow> 'd" where
  "cycles_to_ns F cycles freq_mhz =
     (if fp_lt F (fp_lit F 0) freq_mhz
      then fp_div F (fp_mul F (fp_of_u64 F cycles) (fp_lit F 1000)) freq_mhz else fp_lit F 0)"

definition next_pow2 :: "u32 \<Rightarrow> u32" where
  "next_pow2 v =
     (if v \<le> 1 then 1
      else let v0 = v - 1; v1 = v0 OR drop_bit 1 v0; v2 = v1 OR drop_bit 2 v1; v3 = v2 OR drop_bit 4 v2;
               v4 = v3 OR drop_bit 8 v3; v5 = v4 OR drop_bit 16 v4
           in v5 + 1)"

section \<open>Limits, workload, decision\<close>

record 'd hw_limits =
  hl_max_batch_size :: u32
  hl_min_batch_size :: u32
  hl_max_traversal_depth :: u32
  hl_max_pipeline_distance :: u32
  hl_cache_line_bytes :: u32
  hl_sync_overhead_ns :: 'd
  hl_cxl_latency_ns :: 'd
  hl_llc_hit_latency_ns :: 'd
  hl_clock_freq_mhz :: 'd

definition cira_jit_default_limits :: "'d fpu \<Rightarrow> 'd hw_limits" where
  "cira_jit_default_limits F = \<lparr>hl_max_batch_size = 256, hl_min_batch_size = 4, hl_max_traversal_depth = 64,
     hl_max_pipeline_distance = 64, hl_cache_line_bytes = 64, hl_sync_overhead_ns = fp_lit F 1050,
     hl_cxl_latency_ns = fp_lit F 165, hl_llc_hit_latency_ns = fp_lit F 15, hl_clock_freq_mhz = fp_lit F 200\<rparr>"

record 'd workload =
  wl_host_independent_work_ns :: u64
  wl_vortex_total_time_ns :: u64
  wl_vortex_compute_cycles :: u64
  wl_vortex_memory_stall_cycles :: u64
  wl_vortex_total_cycles :: u64
  wl_cache_hits :: u64
  wl_cache_misses :: u64
  wl_num_elements :: u64
  wl_host_per_elem_ns :: 'd

record 'd decision =
  jd_batch_size :: u32
  jd_traversal_depth :: u32
  jd_pipeline_distance :: u32
  jd_host_device_split :: 'd
  jd_latency_hidden :: bool
  jd_should_offload :: bool
  jd_expected_speedup :: 'd
  jd_reason_bits :: u32

definition CIRA_JIT_REASON_SMALL_REGION :: u32 where "CIRA_JIT_REASON_SMALL_REGION = push_bit 0 1"
definition CIRA_JIT_REASON_COMPUTE_BOUND :: u32 where "CIRA_JIT_REASON_COMPUTE_BOUND = push_bit 1 1"
definition CIRA_JIT_REASON_BATCH_AMORT :: u32 where "CIRA_JIT_REASON_BATCH_AMORT = push_bit 2 1"
definition CIRA_JIT_REASON_DEEP_CHAIN :: u32 where "CIRA_JIT_REASON_DEEP_CHAIN = push_bit 3 1"
definition CIRA_JIT_REASON_LATENCY_HIDDEN :: u32 where "CIRA_JIT_REASON_LATENCY_HIDDEN = push_bit 4 1"
definition CIRA_JIT_REASON_SPLIT_REBALANCE :: u32 where "CIRA_JIT_REASON_SPLIT_REBALANCE = push_bit 5 1"
definition CIRA_JIT_REASON_HW_CLAMPED :: u32 where "CIRA_JIT_REASON_HW_CLAMPED = push_bit 6 1"

text \<open>The clamp on \<open>(decision, clamped)\<close>, one field after the other.\<close>

definition cira_jit_clamp_to_hw :: "'d fpu \<Rightarrow> 'd hw_limits \<Rightarrow> 'd decision \<Rightarrow> 'd decision" where
  "cira_jit_clamp_to_hw F hw d0 =
     (let c0 = jd_batch_size d0 < hl_min_batch_size hw;
          d1 = (if c0 then d0\<lparr>jd_batch_size := hl_min_batch_size hw\<rparr> else d0);
          c1 = hl_max_batch_size hw < jd_batch_size d1;
          d2 = (if c1 then d1\<lparr>jd_batch_size := hl_max_batch_size hw\<rparr> else d1);
          c2 = jd_traversal_depth d2 < 1;
          d3 = (if c2 then d2\<lparr>jd_traversal_depth := 1\<rparr> else d2);
          c3 = hl_max_traversal_depth hw < jd_traversal_depth d3;
          d4 = (if c3 then d3\<lparr>jd_traversal_depth := hl_max_traversal_depth hw\<rparr> else d3);
          c4 = hl_max_pipeline_distance hw < jd_pipeline_distance d4;
          d5 = (if c4 then d4\<lparr>jd_pipeline_distance := hl_max_pipeline_distance hw\<rparr> else d4);
          c5 = fp_lt F (jd_host_device_split d5) (fp_lit F 0);
          d6 = (if c5 then d5\<lparr>jd_host_device_split := fp_lit F 0\<rparr> else d5);
          c6 = fp_lt F (fp_lit F 1) (jd_host_device_split d6);
          d7 = (if c6 then d6\<lparr>jd_host_device_split := fp_lit F 1\<rparr> else d6)
      in if c0 \<or> c1 \<or> c2 \<or> c3 \<or> c4 \<or> c5 \<or> c6
         then d7\<lparr>jd_reason_bits := jd_reason_bits d7 OR CIRA_JIT_REASON_HW_CLAMPED\<rparr> else d7)"


section \<open>The decision\<close>

text \<open>The quantities the decision is made from.\<close>

record 'd costs =
  co_host_ns :: 'd
  co_vortex_ns :: 'd
  co_stall_ns :: 'd
  co_stall_frac :: 'd
  co_elems :: 'd
  co_elem_dev_ns :: 'd
  co_elem_host_ns :: 'd

definition jit_costs :: "'d fpu \<Rightarrow> 'd workload \<Rightarrow> 'd hw_limits \<Rightarrow> 'd costs" where
  "jit_costs F w L =
     (let t_host = fp_of_u64 F (wl_host_independent_work_ns w);
          t_vortex = fp_of_u64 F (wl_vortex_total_time_ns w);
          stall = cycles_to_ns F (wl_vortex_memory_stall_cycles w) (hl_clock_freq_mhz L);
          compute = cycles_to_ns F (wl_vortex_compute_cycles w) (hl_clock_freq_mhz L);
          n = fp_of_u64 F (if wl_num_elements w \<noteq> 0 then wl_num_elements w else 1);
          dev = safe_div F t_vortex n (fp_lit F 1)
      in \<lparr>co_host_ns = t_host, co_vortex_ns = t_vortex, co_stall_ns = stall,
          co_stall_frac = safe_div F stall (fp_add F stall compute) (fp_lit F (1 / 2)),
          co_elems = n, co_elem_dev_ns = dev,
          co_elem_host_ns = (if fp_lt F (fp_lit F 0) (wl_host_per_elem_ns w) then wl_host_per_elem_ns w
                             else safe_div F t_host n dev)\<rparr>)"

text \<open>A decision that keeps the region on the host.\<close>

definition host_decision :: "'d fpu \<Rightarrow> 'd hw_limits \<Rightarrow> bool \<Rightarrow> 'd \<Rightarrow> u32 \<Rightarrow> 'd decision" where
  "host_decision F L hidden speedup reason = \<lparr>jd_batch_size = hl_min_batch_size L, jd_traversal_depth = 1,
     jd_pipeline_distance = 0, jd_host_device_split = fp_lit F 1, jd_latency_hidden = hidden,
     jd_should_offload = False, jd_expected_speedup = speedup, jd_reason_bits = reason\<rparr>"

definition jit_batch :: "'d fpu \<Rightarrow> 'd hw_limits \<Rightarrow> 'd costs \<Rightarrow> u32" where
  "jit_batch F L c =
     (let batch_d = safe_div F (fp_mul F (fp_lit F 4) (hl_sync_overhead_ns L)) (co_elem_dev_ns c)
                      (fp_of_u64 F (ucast (hl_min_batch_size L)));
          batch = next_pow2 (clamp_u32 F batch_d (hl_min_batch_size L) (hl_max_batch_size L))
      in min batch (hl_max_batch_size L))"

definition jit_depth :: "'d fpu \<Rightarrow> 'd hw_limits \<Rightarrow> 'd costs \<Rightarrow> u32" where
  "jit_depth F L c =
     clamp_u32 F (fp_add F (fp_lit F 1) (fp_mul F (fp_lit F 7) (co_stall_frac c))) 1 (hl_max_traversal_depth L)"

definition jit_pipe :: "'d fpu \<Rightarrow> 'd hw_limits \<Rightarrow> 'd costs \<Rightarrow> u32" where
  "jit_pipe F L c =
     clamp_u32 F (safe_div F (co_stall_ns c)
         (fp_max F (fp_lit F 1) (fp_sub F (hl_cxl_latency_ns L) (hl_llc_hit_latency_ns L))) (fp_lit F 4))
       4 (hl_max_pipeline_distance L)"

text \<open>The host share, and whether it was rebalanced.\<close>

definition jit_split :: "'d fpu \<Rightarrow> 'd costs \<Rightarrow> 'd \<times> bool" where
  "jit_split F c =
     (if fp_lt F (co_host_ns c) (co_vortex_ns c) \<and> fp_lt F (fp_lit F 0) (fp_add F (co_host_ns c) (co_vortex_ns c))
      then let r = safe_div F (co_elem_dev_ns c) (fp_add F (co_elem_host_ns c) (co_elem_dev_ns c)) (fp_lit F (1 / 2))
           in (fp_max F (fp_lit F 0) (fp_min F (fp_lit F 1) r), True)
      else (fp_lit F 0, False))"

definition jit_overlapped :: "'d fpu \<Rightarrow> 'd hw_limits \<Rightarrow> 'd costs \<Rightarrow> 'd \<Rightarrow> 'd" where
  "jit_overlapped F L c split =
     (let rest = fp_sub F (fp_lit F 1) split;
          o1 = fp_max F (fp_mul F (co_host_ns c) rest) (fp_mul F (co_vortex_ns c) rest);
          o2 = (if fp_lt F (fp_lit F 0) split
                then fp_max F
                  (fp_add F (co_host_ns c)
                     (fp_mul F (fp_mul F (fp_mul F (co_elem_host_ns c) split) (co_elems c)) (fp_lit F 0)))
                  (fp_add F (fp_mul F rest (co_vortex_ns c))
                     (fp_mul F (fp_mul F split (co_elem_host_ns c)) (co_elems c)))
                else o1)
      in fp_add F o2 (hl_sync_overhead_ns L))"

definition cira_jit_decide :: "'d fpu \<Rightarrow> 'd workload \<Rightarrow> 'd hw_limits \<Rightarrow> 'd decision" where
  "cira_jit_decide F w L =
     (let c = jit_costs F w L; t_host = co_host_ns c; t_vortex = co_vortex_ns c; sync = hl_sync_overhead_ns L in
      if fp_le F t_host (fp_add F t_vortex sync) \<and> fp_lt F t_host (fp_mul F sync (fp_lit F 2))
      then cira_jit_clamp_to_hw F L (host_decision F L True (fp_lit F 1) CIRA_JIT_REASON_SMALL_REGION)
      else if fp_lt F (co_stall_frac c) (fp_lit F (1 / 10)) \<and> fp_lt F (fp_mul F t_host (fp_lit F (3 / 2))) t_vortex
      then cira_jit_clamp_to_hw F L (host_decision F L (fp_le F t_vortex t_host)
             (fp_single F (safe_div F t_vortex t_host (fp_lit F 1))) CIRA_JIT_REASON_COMPUTE_BOUND)
      else
        let depth = jit_depth F L c;
            hidden = fp_le F t_vortex t_host;
            overlapped = jit_overlapped F L c (fst (jit_split F c));
            d = \<lparr>jd_batch_size = jit_batch F L c, jd_traversal_depth = depth, jd_pipeline_distance = jit_pipe F L c,
                 jd_host_device_split = fp_single F (fst (jit_split F c)), jd_latency_hidden = hidden,
                 jd_should_offload = True,
                 jd_expected_speedup = fp_single F (safe_div F (fp_add F t_host sync)
                   (fp_max F overlapped (fp_lit F 1)) (fp_lit F 1)),
                 jd_reason_bits = CIRA_JIT_REASON_BATCH_AMORT OR
                   (if 4 \<le> depth then CIRA_JIT_REASON_DEEP_CHAIN else 0) OR
                   (if snd (jit_split F c) then CIRA_JIT_REASON_SPLIT_REBALANCE else 0) OR
                   (if hidden then CIRA_JIT_REASON_LATENCY_HIDDEN else 0)\<rparr>
        in cira_jit_clamp_to_hw F L d)"

section \<open>Bounds\<close>

text \<open>The fields of a clamped decision.\<close>

lemma clamp_fields:
  fixes F L d
  defines "k \<equiv> cira_jit_clamp_to_hw F L d"
  shows "jd_batch_size k = (let b = max (hl_min_batch_size L) (jd_batch_size d) in min b (hl_max_batch_size L))"
    and "jd_traversal_depth k = (let t = max 1 (jd_traversal_depth d) in min t (hl_max_traversal_depth L))"
    and "jd_pipeline_distance k = min (jd_pipeline_distance d) (hl_max_pipeline_distance L)"
    and "jd_host_device_split k = (let x = (if fp_lt F (jd_host_device_split d) (fp_lit F 0) then fp_lit F 0 else jd_host_device_split d)
           in if fp_lt F (fp_lit F 1) x then fp_lit F 1 else x)"
    and "jd_should_offload k = jd_should_offload d" "jd_expected_speedup k = jd_expected_speedup d"
proof -
  define d1 where "d1 = (if jd_batch_size d < hl_min_batch_size L then d\<lparr>jd_batch_size := hl_min_batch_size L\<rparr> else d)"
  define d2 where "d2 = (if hl_max_batch_size L < jd_batch_size d1 then d1\<lparr>jd_batch_size := hl_max_batch_size L\<rparr> else d1)"
  define d3 where "d3 = (if jd_traversal_depth d2 < 1 then d2\<lparr>jd_traversal_depth := 1\<rparr> else d2)"
  define d4 where "d4 = (if hl_max_traversal_depth L < jd_traversal_depth d3 then d3\<lparr>jd_traversal_depth := hl_max_traversal_depth L\<rparr> else d3)"
  define d5 where "d5 = (if hl_max_pipeline_distance L < jd_pipeline_distance d4
    then d4\<lparr>jd_pipeline_distance := hl_max_pipeline_distance L\<rparr> else d4)"
  define d6 where "d6 = (if fp_lt F (jd_host_device_split d5) (fp_lit F 0) then d5\<lparr>jd_host_device_split := fp_lit F 0\<rparr> else d5)"
  define d7 where "d7 = (if fp_lt F (fp_lit F 1) (jd_host_device_split d6) then d6\<lparr>jd_host_device_split := fp_lit F 1\<rparr> else d6)"
  have "k = d7 \<or> k = d7\<lparr>jd_reason_bits := jd_reason_bits d7 OR CIRA_JIT_REASON_HW_CLAMPED\<rparr>"
    unfolding k_def cira_jit_clamp_to_hw_def Let_def d1_def [symmetric] d2_def [symmetric] d3_def [symmetric]
      d4_def [symmetric] d5_def [symmetric] d6_def [symmetric] d7_def [symmetric] by (metis (full_types))
  then have k: "jd_batch_size k = jd_batch_size d7" "jd_traversal_depth k = jd_traversal_depth d7"
    "jd_pipeline_distance k = jd_pipeline_distance d7" "jd_host_device_split k = jd_host_device_split d7"
    "jd_should_offload k = jd_should_offload d7" "jd_expected_speedup k = jd_expected_speedup d7" by auto
  then show "jd_should_offload k = jd_should_offload d" "jd_expected_speedup k = jd_expected_speedup d"
    by (simp_all add: d3_def d4_def d5_def d6_def d7_def d1_def d2_def)
  have "jd_batch_size d7 = jd_batch_size d2" "jd_batch_size d1 = max (hl_min_batch_size L) (jd_batch_size d)"
    by (auto simp: d3_def d4_def d5_def d6_def d7_def d1_def max_def)
  moreover have "jd_batch_size d2 = min (jd_batch_size d1) (hl_max_batch_size L)"
    by (auto simp: d2_def min_def)
  ultimately show "jd_batch_size k = (let b = max (hl_min_batch_size L) (jd_batch_size d) in min b (hl_max_batch_size L))"
    by (simp add: k)
  have "jd_traversal_depth d7 = jd_traversal_depth d4" "jd_traversal_depth d2 = jd_traversal_depth d"
    by (simp_all add: d5_def d6_def d7_def d1_def d2_def)
  moreover have "jd_traversal_depth d3 = max 1 (jd_traversal_depth d2)"
    by (auto simp: d3_def max_def linorder_not_le)
  moreover have "jd_traversal_depth d4 = min (jd_traversal_depth d3) (hl_max_traversal_depth L)"
    by (auto simp: d4_def min_def)
  ultimately show "jd_traversal_depth k = (let t = max 1 (jd_traversal_depth d) in min t (hl_max_traversal_depth L))"
    by (simp add: k)
  have "jd_pipeline_distance d7 = jd_pipeline_distance d5" "jd_pipeline_distance d4 = jd_pipeline_distance d"
    by (simp_all add: d6_def d7_def d1_def d2_def d3_def d4_def)
  then show "jd_pipeline_distance k = min (jd_pipeline_distance d) (hl_max_pipeline_distance L)"
    by (auto simp: k d5_def min_def)
  have "jd_host_device_split d5 = jd_host_device_split d"
    by (simp add: d1_def d2_def d3_def d4_def d5_def)
  then show "jd_host_device_split k = (let x = (if fp_lt F (jd_host_device_split d) (fp_lit F 0) then fp_lit F 0
      else jd_host_device_split d) in if fp_lt F (fp_lit F 1) x then fp_lit F 1 else x)"
    by (simp add: k d6_def d7_def Let_def)
qed

lemma clamp_bounds:
  assumes "hl_min_batch_size L \<le> hl_max_batch_size L" "1 \<le> hl_max_traversal_depth L"
    and "\<not> fp_lt F (fp_lit F 0) (fp_lit F 0)" "\<not> fp_lt F (fp_lit F 1) (fp_lit F 0)" "\<not> fp_lt F (fp_lit F 1) (fp_lit F 1)"
  shows "hl_min_batch_size L \<le> jd_batch_size (cira_jit_clamp_to_hw F L d)"
    "jd_batch_size (cira_jit_clamp_to_hw F L d) \<le> hl_max_batch_size L"
    "1 \<le> jd_traversal_depth (cira_jit_clamp_to_hw F L d)"
    "jd_traversal_depth (cira_jit_clamp_to_hw F L d) \<le> hl_max_traversal_depth L"
    "jd_pipeline_distance (cira_jit_clamp_to_hw F L d) \<le> hl_max_pipeline_distance L"
    "\<not> fp_lt F (jd_host_device_split (cira_jit_clamp_to_hw F L d)) (fp_lit F 0)"
    "\<not> fp_lt F (fp_lit F 1) (jd_host_device_split (cira_jit_clamp_to_hw F L d))"
  using assms by (simp_all add: clamp_fields Let_def)

lemma clamp_idle:
  assumes "hl_min_batch_size L \<le> jd_batch_size d" "jd_batch_size d \<le> hl_max_batch_size L"
    "1 \<le> jd_traversal_depth d" "jd_traversal_depth d \<le> hl_max_traversal_depth L"
    "jd_pipeline_distance d \<le> hl_max_pipeline_distance L"
    "\<not> fp_lt F (jd_host_device_split d) (fp_lit F 0)" "\<not> fp_lt F (fp_lit F 1) (jd_host_device_split d)"
  shows "cira_jit_clamp_to_hw F L d = d"
  using assms by (simp add: cira_jit_clamp_to_hw_def Let_def linorder_not_less [symmetric])

text \<open>C38
  The hardware limits hold whatever the floating-point unit does. For every workload, every
  implementation of the arithmetic (NaN, infinities and wrong conversions included) and all limits
  that leave room, the decision handed out is within them, and a knob that had to be corrected is
  recorded in the reason bits.\<close>

theorem decision_within_limits:
  assumes "hl_min_batch_size L \<le> hl_max_batch_size L" "1 \<le> hl_max_traversal_depth L"
    and "\<not> fp_lt F (fp_lit F 0) (fp_lit F 0)" "\<not> fp_lt F (fp_lit F 1) (fp_lit F 0)" "\<not> fp_lt F (fp_lit F 1) (fp_lit F 1)"
    and "d = cira_jit_decide F w L"
  shows "hl_min_batch_size L \<le> jd_batch_size d \<and> jd_batch_size d \<le> hl_max_batch_size L \<and>
    1 \<le> jd_traversal_depth d \<and> jd_traversal_depth d \<le> hl_max_traversal_depth L \<and>
    jd_pipeline_distance d \<le> hl_max_pipeline_distance L \<and>
    \<not> fp_lt F (jd_host_device_split d) (fp_lit F 0) \<and> \<not> fp_lt F (fp_lit F 1) (jd_host_device_split d)"
proof -
  have "\<exists>d0. d = cira_jit_clamp_to_hw F L d0"
    unfolding assms(6) cira_jit_decide_def Let_def by (auto split: if_split)
  then show ?thesis using clamp_bounds [OF assms(1-5)] by auto
qed

text \<open>Exact rational arithmetic, for the witnesses.\<close>

definition exact_fpu :: "rat fpu" where
  "exact_fpu = \<lparr>fp_lit = (\<lambda>x. x), fp_of_u64 = (\<lambda>w. of_nat (unat w)), fp_add = (+), fp_sub = (-), fp_mul = (*),
     fp_div = (/), fp_lt = (<), fp_le = (\<le>), fp_eq = (=), fp_to_u32 = (\<lambda>x. of_int \<lfloor>x\<rfloor>), fp_single = (\<lambda>x. x)\<rparr>"

definition demo_workload :: "rat workload" where
  "demo_workload = \<lparr>wl_host_independent_work_ns = 50000, wl_vortex_total_time_ns = 40000, wl_vortex_compute_cycles = 2000,
     wl_vortex_memory_stall_cycles = 6000, wl_vortex_total_cycles = 8000, wl_cache_hits = 10, wl_cache_misses = 90,
     wl_num_elements = 100, wl_host_per_elem_ns = 0\<rparr>"

lemma decision_within_limits_witness:
  "jd_batch_size (cira_jit_decide exact_fpu demo_workload (cira_jit_default_limits exact_fpu)) \<le> 256"
  using decision_within_limits [of "cira_jit_default_limits exact_fpu" exact_fpu _ demo_workload]
  by (simp add: cira_jit_default_limits_def exact_fpu_def)

text \<open>Clamping is idempotent and honest: a decision is changed by the clamp exactly when it breaks a
  limit, and clamping what was clamped changes nothing.\<close>

theorem clamp_idempotent:
  assumes "hl_min_batch_size L \<le> hl_max_batch_size L" "1 \<le> hl_max_traversal_depth L"
    and "\<not> fp_lt F (fp_lit F 0) (fp_lit F 0)" "\<not> fp_lt F (fp_lit F 1) (fp_lit F 0)" "\<not> fp_lt F (fp_lit F 1) (fp_lit F 1)"
  shows "cira_jit_clamp_to_hw F L (cira_jit_clamp_to_hw F L d) = cira_jit_clamp_to_hw F L d"
  by (rule clamp_idle) (rule clamp_bounds [OF assms])+

lemma clamp_idempotent_witness:
  "cira_jit_clamp_to_hw exact_fpu (cira_jit_default_limits exact_fpu) (cira_jit_clamp_to_hw exact_fpu
     (cira_jit_default_limits exact_fpu) (host_decision exact_fpu (cira_jit_default_limits exact_fpu) True 2 0)) =
   cira_jit_clamp_to_hw exact_fpu (cira_jit_default_limits exact_fpu)
     (host_decision exact_fpu (cira_jit_default_limits exact_fpu) True 2 0)"
  by (rule clamp_idempotent) (simp_all add: cira_jit_default_limits_def exact_fpu_def)

text \<open>What the model says of a region the device would slow down: on the compute-bound path the region
  stays on the host, and the \<open>expected_speedup\<close> it carries is the device's slowdown, above 1.5,
  although the field is documented as the speedup over host-only execution.\<close>

theorem compute_bound_reports_slowdown:
  fixes w :: "rat workload"
  assumes "hl_min_batch_size L \<le> hl_max_batch_size L" "1 \<le> hl_max_traversal_depth L"
    and "0 < wl_host_independent_work_ns w" "0 < hl_sync_overhead_ns L"
    and "hl_sync_overhead_ns L * 2 \<le> of_nat (unat (wl_host_independent_work_ns w))"
    and "co_stall_frac (jit_costs exact_fpu w L) < 1 / 10"
    and "of_nat (unat (wl_host_independent_work_ns w)) * (3 / 2) < (of_nat (unat (wl_vortex_total_time_ns w)) :: rat)"
    and "d = cira_jit_decide exact_fpu w L"
  shows "\<not> jd_should_offload d \<and> jd_host_device_split d = 1 \<and> 3 / 2 < jd_expected_speedup d"
proof -
  let ?h = "of_nat (unat (wl_host_independent_work_ns w)) :: rat" and ?v = "of_nat (unat (wl_vortex_total_time_ns w)) :: rat"
  have "0 < unat (wl_host_independent_work_ns w)" using assms(3) by (simp add: word_less_nat_alt)
  then have h: "0 < ?h" by (simp only: of_nat_0_less_iff)
  have c: "co_host_ns (jit_costs exact_fpu w L) = ?h" "co_vortex_ns (jit_costs exact_fpu w L) = ?v"
    by (simp_all add: jit_costs_def exact_fpu_def Let_def)
  have f: "fp_lt exact_fpu x y = (x < y)" "fp_le exact_fpu x y = (x \<le> y)" "fp_mul exact_fpu x y = x * y"
    "fp_add exact_fpu x y = x + y" "fp_lit exact_fpu x = x" "fp_single exact_fpu x = x" "safe_div exact_fpu x y z = (if 0 < y then x / y else z)"
    for x y z by (simp_all add: exact_fpu_def safe_div_def)
  have d: "d = cira_jit_clamp_to_hw exact_fpu L
      (host_decision exact_fpu L (?v \<le> ?h) (?v / ?h) CIRA_JIT_REASON_COMPUTE_BOUND)"
    using assms(5,6,7) h unfolding assms(8) cira_jit_decide_def Let_def c f by simp
  have "3 / 2 < ?v / ?h" using assms(7) h by (simp add: pos_less_divide_eq mult.commute)
  then show ?thesis by (simp add: d clamp_fields host_decision_def f Let_def)
qed

lemma compute_bound_reports_slowdown_witness:
  "\<not> jd_should_offload (cira_jit_decide exact_fpu (demo_workload\<lparr>wl_vortex_total_time_ns := 90000,
      wl_vortex_compute_cycles := 90000, wl_vortex_memory_stall_cycles := 0\<rparr>) (cira_jit_default_limits exact_fpu))"
proof -
  let ?w = "demo_workload\<lparr>wl_vortex_total_time_ns := 90000, wl_vortex_compute_cycles := 90000,
    wl_vortex_memory_stall_cycles := 0\<rparr>"
  have "co_stall_frac (jit_costs exact_fpu ?w (cira_jit_default_limits exact_fpu)) < 1 / 10"
    by (simp add: jit_costs_def exact_fpu_def demo_workload_def cira_jit_default_limits_def safe_div_def cycles_to_ns_def Let_def)
  then show ?thesis
    using compute_bound_reports_slowdown [of "cira_jit_default_limits exact_fpu" ?w]
    by (simp add: cira_jit_default_limits_def exact_fpu_def demo_workload_def)
qed

section \<open>Rounding up to a power of two\<close>

text \<open>Smearing the top bit of a word downwards, by doubling steps.\<close>

definition smeared :: "u32 \<Rightarrow> u32 \<Rightarrow> nat \<Rightarrow> bool" where
  "smeared v w k \<longleftrightarrow> (\<forall>i < 32. bit w i = (\<exists>j < k. i + j < 32 \<and> bit v (i + j)))"

lemma smear_step:
  assumes "smeared v w k"
  shows "smeared v (w OR drop_bit k w) (k + k)"
  unfolding smeared_def
proof (intro allI impI)
  fix i :: nat assume i: "i < 32"
  have d: "bit (drop_bit k w) i = (\<exists>j < k. k + i + j < 32 \<and> bit v (k + i + j))"
  proof (cases "k + i < 32")
    case True
    then show ?thesis using assms by (simp add: bit_drop_bit_eq smeared_def)
  next
    case False
    then show ?thesis by (auto simp: bit_drop_bit_eq dest: bit_imp_le_length)
  qed
  have "(\<exists>j < k + k. i + j < 32 \<and> bit v (i + j)) =
      ((\<exists>j < k. i + j < 32 \<and> bit v (i + j)) \<or> (\<exists>j < k. i + (k + j) < 32 \<and> bit v (i + (k + j))))"
  proof
    assume "\<exists>j < k + k. i + j < 32 \<and> bit v (i + j)"
    then obtain j where j: "j < k + k" "i + j < 32" "bit v (i + j)" by blast
    show "(\<exists>j < k. i + j < 32 \<and> bit v (i + j)) \<or> (\<exists>j < k. i + (k + j) < 32 \<and> bit v (i + (k + j)))"
    proof (cases "j < k")
      case False
      then have "j - k < k" "i + (k + (j - k)) = i + j" using j(1) by simp_all
      then show ?thesis using j by metis
    qed (use j in blast)
  qed (metis add_less_cancel_left trans_less_add1)
  then show "bit (w OR drop_bit k w) i = (\<exists>j < k + k. i + j < 32 \<and> bit v (i + j))"
    using assms i d by (simp add: bit_or_iff smeared_def add_ac)
qed

lemma smeared_start: "smeared v v 1"
  by (auto simp: smeared_def)

lemma uint_below_pow: "uint (v :: u32) < 2 ^ n \<longleftrightarrow> unat v < 2 ^ n"
proof -
  have "uint v = int (unat v)" by simp
  then have "uint v < 2 ^ n \<longleftrightarrow> int (unat v) < int (2 ^ n)" by simp
  then show ?thesis by (simp only: of_nat_less_iff)
qed

lemma smeared_full:
  assumes "smeared v w 32" "v \<noteq> 0"
  shows "\<exists>n < 32. w = mask (Suc n) \<and> 2 ^ n \<le> unat v \<and> unat v < 2 ^ Suc n"
proof -
  define n where "n = Max {i. i < 32 \<and> bit v i}"
  have "\<exists>i. bit v i"
  proof (rule ccontr)
    assume "\<nexists>i. bit v i"
    then have "v = 0" by (intro bit_word_eqI) simp
    then show False using assms(2) by simp
  qed
  then obtain i where "bit v i" ..
  moreover from this have "i < 32" using bit_imp_le_length [of v i] by simp
  ultimately have ne: "{i. i < 32 \<and> bit v i} \<noteq> {}" by blast
  have n: "n < 32" "bit v n" using Max_in [OF _ ne] by (auto simp: n_def)
  have top: "i \<le> n" if "bit v i" for i
    using that by (auto simp: n_def intro!: Max_ge dest: bit_imp_le_length)
  have "w = mask (Suc n)"
  proof (rule bit_word_eqI)
    fix i assume i: "i < LENGTH(32)"
    have "(\<exists>j < 32. i + j < 32 \<and> bit v (i + j)) = (i \<le> n)"
    proof
      assume "i \<le> n"
      then show "\<exists>j < 32. i + j < 32 \<and> bit v (i + j)" using n by (intro exI [of _ "n - i"]) simp
    next
      assume "\<exists>j < 32. i + j < 32 \<and> bit v (i + j)"
      then obtain j where "bit v (i + j)" by blast
      then show "i \<le> n" using top [of "i + j"] by simp
    qed
    then show "bit w i = bit (mask (Suc n) :: u32) i"
      using assms(1) i by (simp add: smeared_def bit_mask_iff less_Suc_eq_le)
  qed
  moreover have "2 ^ n \<le> unat v"
  proof (rule ccontr)
    assume "\<not> 2 ^ n \<le> unat v"
    then have "uint v < 2 ^ n" unfolding uint_below_pow by linarith
    then have "v AND mask n = v" by (simp only: mask_eq_iff)
    moreover have "\<not> bit (v AND mask n) n" by (simp add: bit_and_iff bit_mask_iff)
    ultimately show False using n(2) by simp
  qed
  moreover have "unat v < 2 ^ Suc n"
  proof -
    have "v AND mask (Suc n) = v"
    proof (rule bit_word_eqI)
      fix i :: nat assume "i < LENGTH(32)"
      moreover have "bit v i \<longrightarrow> i < Suc n" using top [of i] by linarith
      ultimately show "bit (v AND mask (Suc n)) i = bit v i" by (auto simp: bit_and_iff bit_mask_iff)
    qed
    then have "uint v < 2 ^ Suc n" by (simp only: mask_eq_iff)
    then show ?thesis unfolding uint_below_pow .
  qed
  ultimately show ?thesis using n(1) by blast
qed


text \<open>Rounding up. For 1 up to 2^31, \<open>next_pow2\<close> is the least power of two that is not below its
  argument; above 2^31 the true answer does not fit and the result wraps to 0.\<close>

theorem next_pow2_least:
  shows "if unat v \<le> 1 then next_pow2 v = 1
    else if unat v \<le> 2 ^ 31 then \<exists>k. next_pow2 v = 2 ^ k \<and> unat v \<le> 2 ^ k \<and> 2 ^ k < 2 * unat v \<and> k \<le> 31
    else next_pow2 v = 0"
proof (cases "unat v \<le> 1")
  case True
  then show ?thesis by (simp add: next_pow2_def word_le_nat_alt)
next
  case False
  define x where "x = v - 1"
  have x: "unat x = unat v - 1" "x \<noteq> 0"
    using False unat_sub [of 1 v] by (auto simp: x_def word_le_nat_alt)
  define v1 v2 v3 v4 w where v: "v1 = x OR drop_bit 1 x" "v2 = v1 OR drop_bit 2 v1" "v3 = v2 OR drop_bit 4 v2"
    "v4 = v3 OR drop_bit 8 v3" "w = v4 OR drop_bit 16 v4"
  have step: "smeared x u' k'" if "smeared x u k" "u' = u OR drop_bit k u" "k' = k + k" for u u' k k'
    using smear_step [OF that(1)] that(2,3) by simp
  have "smeared x v1 2" by (rule step [OF smeared_start v(1)]) simp
  then have "smeared x v2 4" by (rule step [OF _ v(2)]) simp
  then have "smeared x v3 8" by (rule step [OF _ v(3)]) simp
  then have "smeared x v4 16" by (rule step [OF _ v(4)]) simp
  then have "smeared x w 32" by (rule step [OF _ v(5)]) simp
  from smeared_full [OF this x(2)] obtain n where n: "n < 32" "w = mask (Suc n)" "2 ^ n \<le> unat x" "unat x < 2 ^ Suc n" by blast
  have r: "next_pow2 v = w + 1"
    using False unfolding next_pow2_def Let_def x_def [symmetric] v [symmetric] by (simp add: word_le_nat_alt)
  have "w + 1 = 2 ^ Suc n" by (simp add: n(2) mask_eq_exp_minus_1)
  then have "next_pow2 v = 2 ^ Suc n" using r by simp
  show ?thesis
  proof (cases "unat v \<le> 2 ^ 31")
    case True
    then have "(2 :: nat) ^ n < 2 ^ 31" using n(3) x(1) False by linarith
    then have "n < 31" by (rule power_less_imp_less_exp [rotated]) simp
    then have "Suc n \<le> 31" by simp
    then show ?thesis using False True \<open>next_pow2 v = 2 ^ Suc n\<close> n(3,4) x(1) by (auto intro!: exI [of _ "Suc n"])
  next
    case big: False
    then have "(2 :: nat) ^ 31 < 2 ^ Suc n" using n(4) x(1) by linarith
    then have "31 < Suc n" by (rule power_less_imp_less_exp [rotated]) simp
    then have "n = 31" using n(1) by simp
    then show ?thesis using False big \<open>next_pow2 v = 2 ^ Suc n\<close> by simp
  qed
qed

end
