(* ===== verification/Jit_Engine.thy ===== *)
theory Jit_Engine
  imports Jit_Cost Mmio "HOL-Library.Char_ord" "HOL-Library.Multiset"
begin

text \<open>
  The specializer of \<^verbatim>\<open>runtime/cira_jit_engine.cpp\<close>: knobs and their constants, the substitution
  of sentinel globals, the fingerprint and the cache of compiled functions. LLVM is an argument: its
  parsers, its optimizer, its linker and the answers of ORC. A module is what the engine looks at:
  the named globals with their value types and the users of each.
\<close>

section \<open>Knobs\<close>

datatype knob_type = I1 | I8 | I16 | I32 | I64 | F32 | F64 | Ptr

fun knob_type_index :: "knob_type \<Rightarrow> u64" where
  "knob_type_index I1 = 0"
| "knob_type_index I8 = 1"
| "knob_type_index I16 = 2"
| "knob_type_index I32 = 3"
| "knob_type_index I64 = 4"
| "knob_type_index F32 = 5"
| "knob_type_index F64 = 6"
| "knob_type_index Ptr = 7"

record 'd jit_knob =
  kn_name :: string
  kn_type :: knob_type
  kn_ivalue :: u64
  kn_fvalue :: 'd

text \<open>The conversions of the floating-point unit the engine uses beyond those of the cost model.\<close>

record 'd jit_fpu =
  jf_base :: "'d fpu"
  jf_to_u64 :: "'d \<Rightarrow> u64"
  jf_to_i64 :: "'d \<Rightarrow> u64"
  jf_bits :: "'d \<Rightarrow> u64"

definition knob_boolean :: "'d fpu \<Rightarrow> string \<Rightarrow> bool \<Rightarrow> 'd jit_knob" where
  "knob_boolean F n v = \<lparr>kn_name = n, kn_type = I1, kn_ivalue = (if v then 1 else 0), kn_fvalue = fp_lit F 0\<rparr>"

definition knob_i32 :: "'d fpu \<Rightarrow> string \<Rightarrow> u32 \<Rightarrow> 'd jit_knob" where
  "knob_i32 F n v = \<lparr>kn_name = n, kn_type = I32, kn_ivalue = ucast v, kn_fvalue = fp_lit F 0\<rparr>"

definition knob_i64 :: "'d fpu \<Rightarrow> string \<Rightarrow> u64 \<Rightarrow> 'd jit_knob" where
  "knob_i64 F n v = \<lparr>kn_name = n, kn_type = I64, kn_ivalue = v, kn_fvalue = fp_lit F 0\<rparr>"

definition knob_f32 :: "string \<Rightarrow> 'd \<Rightarrow> 'd jit_knob" where
  "knob_f32 n v = \<lparr>kn_name = n, kn_type = F32, kn_ivalue = 0, kn_fvalue = v\<rparr>"

definition knob_f64 :: "string \<Rightarrow> 'd \<Rightarrow> 'd jit_knob" where
  "knob_f64 n v = \<lparr>kn_name = n, kn_type = F64, kn_ivalue = 0, kn_fvalue = v\<rparr>"

definition knob_ptr :: "'d fpu \<Rightarrow> string \<Rightarrow> addr \<Rightarrow> 'd jit_knob" where
  "knob_ptr F n v = \<lparr>kn_name = n, kn_type = Ptr, kn_ivalue = v, kn_fvalue = fp_lit F 0\<rparr>"

definition ciraKnobsFromDecision :: "'d fpu \<Rightarrow> 'd decision \<Rightarrow> 'd jit_knob list" where
  "ciraKnobsFromDecision F d =
     [knob_i32 F ''cira_kBatchSize'' (jd_batch_size d),
      knob_i32 F ''cira_kTraversalDepth'' (jd_traversal_depth d),
      knob_i32 F ''cira_kPipelineDistance'' (jd_pipeline_distance d),
      knob_f32 ''cira_kHostDeviceSplit'' (jd_host_device_split d),
      knob_boolean F ''cira_kShouldOffload'' (jd_should_offload d)]"

fun backend_index :: "backend \<Rightarrow> u32" where
  "backend_index CIRA_WAIT_SPIN = 0"
| "backend_index CIRA_WAIT_UMWAIT = 1"
| "backend_index CIRA_WAIT_TPAUSE = 2"
| "backend_index CIRA_WAIT_MWAITX = 3"
| "backend_index CIRA_WAIT_WFE = 4"

definition ciraKnobsFromDevice ::
  "'d fpu \<Rightarrow> env \<Rightarrow> mmio_globals \<Rightarrow> window option \<Rightarrow> backend \<Rightarrow> 'd jit_knob list" where
  "ciraKnobsFromDevice F env g w b =
     (if w = None then []
      else [knob_ptr F ''cira_kMmioBase'' (cira_mmio_base w),
            knob_i64 F ''cira_kMmioSize'' (cira_mmio_size w),
            knob_ptr F ''cira_kDeviceFunc'' (cira_mmio_device_func env g),
            knob_i32 F ''cira_kWaitBackend'' (backend_index b),
            knob_i32 F ''cira_kCompletionMagic'' CIRA_CXL_COMPLETION_MAGIC])"

section \<open>Folding a knob into a module\<close>

datatype llvm_type = Ty_Int nat | Ty_FP nat | Ty_Pointer | Ty_Other

datatype 'd llvm_const = Const_Int nat u64 | Const_FP llvm_type 'd | Const_Ptr u64

text \<open>Floating types by their width. A user of a global is a load with its identity and type, or anything else.\<close>

datatype global_user = Load_User nat llvm_type | Other_User

record 'd llvm_global =
  gl_type :: llvm_type
  gl_users :: "global_user list"
  gl_init :: "'d llvm_const option"
  gl_constant :: bool
  gl_private :: bool

record 'd llvm_module =
  md_globals :: "string \<rightharpoonup> 'd llvm_global"
  md_replaced :: "(nat \<times> 'd llvm_const) list"

fun typeFor :: "knob_type \<Rightarrow> llvm_type" where
  "typeFor I1 = Ty_Int 1"
| "typeFor I8 = Ty_Int 8"
| "typeFor I16 = Ty_Int 16"
| "typeFor I32 = Ty_Int 32"
| "typeFor I64 = Ty_Int 64"
| "typeFor F32 = Ty_FP 32"
| "typeFor F64 = Ty_FP 64"
| "typeFor Ptr = Ty_Pointer"

definition is_fp_knob :: "'d jit_knob \<Rightarrow> bool" where
  "is_fp_knob k \<longleftrightarrow> kn_type k = F32 \<or> kn_type k = F64"

text \<open>\<open>ConstantInt::get\<close> keeps the low bits of the value that fit the type.\<close>

definition constantFor :: "'d jit_fpu \<Rightarrow> 'd jit_knob \<Rightarrow> llvm_type option \<Rightarrow> 'd llvm_const option" where
  "constantFor J k loadTy =
     (let ty = (case loadTy of Some t \<Rightarrow> t | None \<Rightarrow> typeFor (kn_type k)) in
      case ty of
        Ty_Pointer \<Rightarrow> Some (Const_Ptr (kn_ivalue k))
      | Ty_FP n \<Rightarrow> Some (Const_FP ty (if is_fp_knob k then kn_fvalue k else fp_of_u64 (jf_base J) (kn_ivalue k)))
      | Ty_Int n \<Rightarrow> Some (Const_Int n (take_bit n (if is_fp_knob k then jf_to_u64 J (kn_fvalue k) else kn_ivalue k)))
      | Ty_Other \<Rightarrow> None)"

text \<open>One pass over the users: the loads replaced, and the users that stay.\<close>

fun fold_users :: "'d jit_fpu \<Rightarrow> 'd jit_knob \<Rightarrow> global_user list \<Rightarrow> (nat \<times> 'd llvm_const) list \<times> global_user list" where
  "fold_users J k [] = ([], [])"
| "fold_users J k (u # us) =
     (case fold_users J k us of (rs, ks) \<Rightarrow>
        (case u of
           Load_User i t \<Rightarrow> (case constantFor J k (Some t) of Some c \<Rightarrow> ((i, c) # rs, ks) | None \<Rightarrow> (rs, u # ks))
         | Other_User \<Rightarrow> (rs, u # ks)))"

definition foldKnob :: "'d jit_fpu \<Rightarrow> 'd jit_knob \<Rightarrow> 'd llvm_module \<Rightarrow> bool \<times> 'd llvm_module" where
  "foldKnob J k M =
     (case md_globals M (kn_name k) of
        None \<Rightarrow> (False, M)
      | Some g \<Rightarrow>
          (case fold_users J k (gl_users g) of (rs, ks) \<Rightarrow>
             let init = constantFor J k (Some (gl_type g));
                 g1 = g\<lparr>gl_users := ks\<rparr>;
                 g2 = (case init of None \<Rightarrow> g1
                       | Some c \<Rightarrow> g1\<lparr>gl_init := Some c, gl_constant := True, gl_private := True\<rparr>)
             in (rs \<noteq> [] \<or> init \<noteq> None,
                 M\<lparr>md_replaced := md_replaced M @ rs,
                   md_globals := (md_globals M)(kn_name k := (if ks = [] then None else Some g2))\<rparr>)))"

datatype opt_level = O0 | O1 | O2 | O3

definition optLevelFor :: "u32 \<Rightarrow> opt_level" where
  "optLevelFor level = (if level = 0 then O0 else if level = 1 then O1 else if level = 3 then O3 else O2)"

definition patchAndOptimize ::
  "'d jit_fpu \<Rightarrow> (opt_level \<Rightarrow> 'd llvm_module \<Rightarrow> 'd llvm_module) \<Rightarrow> 'd jit_knob list \<Rightarrow> u32 \<Rightarrow> 'd llvm_module
     \<Rightarrow> 'd llvm_module" where
  "patchAndOptimize J optimize knobs level M =
     optimize (optLevelFor level) (fold (\<lambda>k N. snd (foldKnob J k N)) knobs M)"

section \<open>Hashes\<close>

definition mix64 :: "u64 \<Rightarrow> u64" where
  "mix64 x =
     (let x1 = x XOR drop_bit 33 x; x2 = x1 * 0xff51afd7ed558ccd; x3 = x2 XOR drop_bit 33 x2;
          x4 = x3 * 0xc4ceb9fe1a85ec53 in x4 XOR drop_bit 33 x4)"

definition fnv1a :: "u8 list \<Rightarrow> u64" where
  "fnv1a bs = foldl (\<lambda>h b. (h XOR ucast b) * 1099511628211) 1469598103934665603 bs"

definition hashString :: "string \<Rightarrow> u64" where
  "hashString s = fnv1a (map (\<lambda>c. of_nat (of_char c)) s)"

definition hex_digit :: "nat \<Rightarrow> char" where
  "hex_digit d = (if d < 10 then char_of (48 + d) else char_of (87 + d))"

definition hex16 :: "u64 \<Rightarrow> string" where
  "hex16 w = map (\<lambda>i. hex_digit (unat (drop_bit (60 - 4 * i) w AND 15))) [0..<16]"

definition contentKey :: "u8 list \<Rightarrow> string" where
  "contentKey bs = ''mem@'' @ hex16 (fnv1a bs)"

section \<open>Specifications and their fingerprint\<close>

record 'd jit_spec =
  sp_kernel :: string
  sp_knobs :: "'d jit_knob list"
  sp_opt_level :: u32
  sp_bind_runtime_abi :: bool
  sp_expose_process_symbols :: bool
  sp_variant :: string

definition knob_payload :: "'d jit_fpu \<Rightarrow> 'd jit_knob \<Rightarrow> u64" where
  "knob_payload J k =
     (case kn_type k of
        F32 \<Rightarrow> jf_to_i64 J (fp_mul (jf_base J) (kn_fvalue k) (fp_lit (jf_base J) 256))
      | F64 \<Rightarrow> jf_bits J (kn_fvalue k)
      | _ \<Rightarrow> kn_ivalue k)"

definition knob_hash :: "'d jit_fpu \<Rightarrow> 'd jit_knob \<Rightarrow> u64" where
  "knob_hash J k = mix64 (hashString (kn_name k) XOR mix64 (knob_payload J k) XOR knob_type_index (kn_type k))"

definition fingerprint :: "'d jit_fpu \<Rightarrow> 'd jit_spec \<Rightarrow> u64" where
  "fingerprint J sp =
     (let h = mix64 (ucast (sp_opt_level sp + 1)) XOR mix64 (hashString (sp_variant sp) + 0x9e3779b97f4a7c15) XOR
              mix64 (if sp_bind_runtime_abi sp then 0x11 else 0x22) XOR
              mix64 (if sp_expose_process_symbols sp then 0x33 else 0x44)
      in foldl (\<lambda>h k. h XOR knob_hash J k) h (sp_knobs sp))"

section \<open>The engine\<close>

record cache_key =
  ck_kernel :: string
  ck_source :: string
  ck_variant :: string
  ck_fingerprint :: u64

record jit_engine =
  je_jit :: bool
  je_cache :: "(cache_key \<times> addr) list"
  je_abi_bound :: bool

text \<open>What LLVM answers. A link yields the address of the kernel, or fails.\<close>

record 'd llvm_env =
  lv_create :: bool
  lv_bind_abi :: bool
  lv_optimize :: "opt_level \<Rightarrow> 'd llvm_module \<Rightarrow> 'd llvm_module"
  lv_link :: "'d llvm_module \<Rightarrow> string \<Rightarrow> addr option"
  lv_parse_ir :: "u8 list \<Rightarrow> 'd llvm_module option"
  lv_parse_bitcode :: "u8 list \<Rightarrow> 'd llvm_module option"
  lv_is_bitcode :: "u8 list \<Rightarrow> bool"
  lv_read_file :: "string \<Rightarrow> u8 list option"

definition ensureLLJIT :: "'d llvm_env \<Rightarrow> jit_engine \<Rightarrow> bool \<times> jit_engine" where
  "ensureLLJIT lv e =
     (if je_jit e then (True, e) else if lv_create lv then (True, e\<lparr>je_jit := True\<rparr>) else (False, e))"

definition bindRuntimeAbiLocked :: "'d llvm_env \<Rightarrow> jit_engine \<Rightarrow> bool \<times> jit_engine" where
  "bindRuntimeAbiLocked lv e =
     (if je_abi_bound e \<or> \<not> je_jit e then (True, e)
      else if \<not> lv_bind_abi lv then (False, e) else (True, e\<lparr>je_abi_bound := True\<rparr>))"

text \<open>\<open>emplace\<close> keeps an entry that is there.\<close>

definition emplace :: "cache_key \<Rightarrow> addr \<Rightarrow> jit_engine \<Rightarrow> jit_engine" where
  "emplace key fn e = (if map_of (je_cache e) key = None then e\<lparr>je_cache := (key, fn) # je_cache e\<rparr> else e)"

definition finish :: "'d jit_fpu \<Rightarrow> 'd llvm_env \<Rightarrow> 'd llvm_module \<Rightarrow> 'd jit_spec \<Rightarrow> cache_key \<Rightarrow> jit_engine \<Rightarrow> addr \<times> jit_engine" where
  "finish J lv M sp key e =
     (let M1 = patchAndOptimize J (lv_optimize lv) (sp_knobs sp) (sp_opt_level sp) M in
      case (if sp_bind_runtime_abi sp \<or> sp_expose_process_symbols sp then bindRuntimeAbiLocked lv e else (True, e)) of
        (ok, e1) \<Rightarrow>
          if \<not> ok then (0, e1)
          else (case lv_link lv M1 (sp_kernel sp) of None \<Rightarrow> (0, e1) | Some fn \<Rightarrow> (fn, emplace key fn e1)))"

definition make_key :: "'d jit_fpu \<Rightarrow> 'd jit_spec \<Rightarrow> string \<Rightarrow> cache_key" where
  "make_key J sp src = \<lparr>ck_kernel = sp_kernel sp, ck_source = src, ck_variant = sp_variant sp,
     ck_fingerprint = fingerprint J sp\<rparr>"

text \<open>The part the three entry points share: look the key up, else parse and finish.\<close>

definition specialize_key ::
  "'d jit_fpu \<Rightarrow> 'd llvm_env \<Rightarrow> (unit \<Rightarrow> 'd llvm_module option) \<Rightarrow> 'd jit_spec \<Rightarrow> string \<Rightarrow> jit_engine \<Rightarrow> addr \<times> jit_engine" where
  "specialize_key J lv parse sp src e =
     (let key = make_key J sp src in
      case map_of (je_cache e) key of
        Some fn \<Rightarrow> (fn, e)
      | None \<Rightarrow> (case parse () of None \<Rightarrow> (0, e) | Some M \<Rightarrow> finish J lv M sp key e))"

definition specializeFile :: "'d jit_fpu \<Rightarrow> 'd llvm_env \<Rightarrow> string \<Rightarrow> 'd jit_spec \<Rightarrow> jit_engine \<Rightarrow> addr \<times> jit_engine" where
  "specializeFile J lv path sp e =
     (if sp_kernel sp = [] then (0, e)
      else case ensureLLJIT lv e of (ok, e1) \<Rightarrow>
        if \<not> ok then (0, e1)
        else specialize_key J lv (\<lambda>_. case lv_read_file lv path of
               None \<Rightarrow> None
             | Some buf \<Rightarrow> if lv_is_bitcode lv buf then lv_parse_bitcode lv buf else lv_parse_ir lv buf) sp path e1)"

definition string_bytes :: "string \<Rightarrow> u8 list" where
  "string_bytes s = map (\<lambda>c. of_nat (of_char c)) s"

definition specializeText :: "'d jit_fpu \<Rightarrow> 'd llvm_env \<Rightarrow> string \<Rightarrow> 'd jit_spec \<Rightarrow> jit_engine \<Rightarrow> addr \<times> jit_engine" where
  "specializeText J lv text sp e =
     (if sp_kernel sp = [] then (0, e)
      else case ensureLLJIT lv e of (ok, e1) \<Rightarrow>
        if \<not> ok then (0, e1)
        else specialize_key J lv (\<lambda>_. lv_parse_ir lv (string_bytes text)) sp (contentKey (string_bytes text)) e1)"

definition specializeBitcode ::
  "'d jit_fpu \<Rightarrow> 'd llvm_env \<Rightarrow> u8 list option \<Rightarrow> 'd jit_spec \<Rightarrow> jit_engine \<Rightarrow> addr \<times> jit_engine" where
  "specializeBitcode J lv data sp e =
     (if data = None \<or> data = Some [] \<or> sp_kernel sp = [] then (0, e)
      else case ensureLLJIT lv e of (ok, e1) \<Rightarrow>
        if \<not> ok then (0, e1)
        else specialize_key J lv (\<lambda>_. lv_parse_bitcode lv (the data)) sp (contentKey (the data)) e1)"

definition spec_of_decision :: "'d fpu \<Rightarrow> string \<Rightarrow> 'd decision \<Rightarrow> 'd jit_spec" where
  "spec_of_decision F krn d = \<lparr>sp_kernel = krn, sp_knobs = ciraKnobsFromDecision F d, sp_opt_level = 2,
     sp_bind_runtime_abi = True, sp_expose_process_symbols = True, sp_variant = []\<rparr>"

definition specialize :: "'d jit_fpu \<Rightarrow> 'd llvm_env \<Rightarrow> string \<Rightarrow> string \<Rightarrow> 'd decision \<Rightarrow> jit_engine \<Rightarrow> addr \<times> jit_engine" where
  "specialize J lv path krn d e = specializeFile J lv path (spec_of_decision (jf_base J) krn d) e"

definition specializeFromIR :: "'d jit_fpu \<Rightarrow> 'd llvm_env \<Rightarrow> string \<Rightarrow> string \<Rightarrow> 'd decision \<Rightarrow> jit_engine \<Rightarrow> addr \<times> jit_engine" where
  "specializeFromIR J lv text krn d e = specializeText J lv text (spec_of_decision (jf_base J) krn d) e"

definition resetCache :: "jit_engine \<Rightarrow> jit_engine" where
  "resetCache e = e\<lparr>je_cache := [], je_jit := False, je_abi_bound := False\<rparr>"

definition cacheSize :: "jit_engine \<Rightarrow> nat" where
  "cacheSize e = length (je_cache e)"


section \<open>The mixer loses nothing\<close>

lemma unshift33: "(x XOR drop_bit 33 x) XOR drop_bit 33 (x XOR drop_bit 33 x) = (x :: u64)"
proof -
  have "drop_bit 66 x = 0"
    by (rule bit_word_eqI) (auto simp: bit_drop_bit_eq dest: bit_imp_le_length)
  then show ?thesis by (simp add: drop_bit_xor drop_bit_drop_bit xor.assoc)
qed

lemma mix64_inverses:
  "(0xff51afd7ed558ccd :: u64) * 0x4f74430c22a54005 = 1" "(0xc4ceb9fe1a85ec53 :: u64) * 0x9cb4b2f8129337db = 1"
  by code_simp+

text \<open>Payloads and names enter a fingerprint through a bijection: \<open>mix64\<close> maps different words to
  different words, so it adds no collision of its own.\<close>

theorem mix64_injective: "mix64 x = mix64 y \<longleftrightarrow> x = y"
proof -
  define unshift where "unshift z = z XOR drop_bit 33 z" for z :: u64
  have u: "unshift (unshift z) = z" for z unfolding unshift_def by (rule unshift33)
  have m: "mix64 z = unshift (unshift (unshift z * 0xff51afd7ed558ccd) * 0xc4ceb9fe1a85ec53)" for z
    by (simp add: mix64_def unshift_def Let_def)
  have "unshift (unshift (unshift (mix64 z) * 0x9cb4b2f8129337db) * 0x4f74430c22a54005) = z" for z
    using mix64_inverses by (simp only: m u mult.assoc mult_1_right)
  then show ?thesis by metis
qed

section \<open>Fingerprints see a set of knobs, not a list\<close>

lemma foldl_xor: "foldl (\<lambda>h k. h XOR f k) (h :: u64) ks = h XOR foldl (\<lambda>h k. h XOR f k) 0 ks"
proof (induction ks arbitrary: h)
  case (Cons k ks)
  show ?case using Cons [of "h XOR f k"] Cons [of "f k"] by (simp add: xor.assoc)
qed simp

definition spec_hash :: "'d jit_spec \<Rightarrow> u64" where
  "spec_hash sp = mix64 (ucast (sp_opt_level sp + 1)) XOR mix64 (hashString (sp_variant sp) + 0x9e3779b97f4a7c15) XOR
     mix64 (if sp_bind_runtime_abi sp then 0x11 else 0x22) XOR mix64 (if sp_expose_process_symbols sp then 0x33 else 0x44)"

lemma fingerprint_xor: "fingerprint J sp = spec_hash sp XOR foldl (\<lambda>h k. h XOR knob_hash J k) 0 (sp_knobs sp)"
  unfolding fingerprint_def spec_hash_def Let_def by (rule foldl_xor)

lemma xor_fold_mset:
  "mset xs = mset ys \<Longrightarrow> foldl (\<lambda>h k. h XOR f k) (0 :: u64) xs = foldl (\<lambda>h k. h XOR f k) 0 ys"
proof -
  assume "mset xs = mset ys"
  then have "fold (\<lambda>k h. h XOR f k) xs = fold (\<lambda>k h. h XOR f k) ys"
    by (intro fold_multiset_equiv) (auto simp: fun_eq_iff xor.assoc xor.commute xor.left_commute)
  then show ?thesis by (simp add: foldl_conv_fold)
qed

text \<open>The order of the knobs does not matter: two specifications that list the same knobs in another order
  have the same key, so either finds the code compiled for the other.\<close>

theorem fingerprint_order_independent:
  assumes "mset ks = mset ks'"
  shows "make_key J (sp\<lparr>sp_knobs := ks\<rparr>) src = make_key J (sp\<lparr>sp_knobs := ks'\<rparr>) src"
  using xor_fold_mset [OF assms, of "knob_hash J"] by (simp add: make_key_def fingerprint_xor spec_hash_def)

definition exact_jit_fpu :: "rat jit_fpu" where
  "exact_jit_fpu = \<lparr>jf_base = exact_fpu, jf_to_u64 = (\<lambda>x. of_int \<lfloor>x\<rfloor>), jf_to_i64 = (\<lambda>x. of_int \<lfloor>x\<rfloor>), jf_bits = (\<lambda>x. of_int \<lfloor>x\<rfloor>)\<rparr>"

definition demo_spec :: "rat jit_spec" where
  "demo_spec = \<lparr>sp_kernel = ''region0'', sp_knobs = [], sp_opt_level = 2, sp_bind_runtime_abi = True,
     sp_expose_process_symbols = True, sp_variant = []\<rparr>"

lemma fingerprint_order_independent_witness:
  "make_key exact_jit_fpu (demo_spec\<lparr>sp_knobs := [knob_i32 exact_fpu ''a'' 1, knob_i32 exact_fpu ''b'' 2]\<rparr>) ''t.ll'' =
   make_key exact_jit_fpu (demo_spec\<lparr>sp_knobs := [knob_i32 exact_fpu ''b'' 2, knob_i32 exact_fpu ''a'' 1]\<rparr>) ''t.ll''"
  by (rule fingerprint_order_independent) simp

lemma duplicate_key: "make_key J (sp\<lparr>sp_knobs := k # k # sp_knobs sp\<rparr>) src = make_key J sp src"
  by (simp add: make_key_def fingerprint_xor spec_hash_def)

section \<open>The cache\<close>

lemma finish_cached:
  assumes "finish J lv M sp key e = (fn, e1)" "fn \<noteq> 0" "map_of (je_cache e) key = None"
  shows "map_of (je_cache e1) key = Some fn" "je_jit e1 = je_jit e"
  using assms by (auto simp: finish_def emplace_def bindRuntimeAbiLocked_def Let_def split: if_splits option.splits prod.splits)

lemma specialize_key_cached:
  assumes "specialize_key J lv parse sp src e = (fn, e1)" "fn \<noteq> 0"
  shows "map_of (je_cache e1) (make_key J sp src) = Some fn" "je_jit e1 = je_jit e"
proof -
  have "map_of (je_cache e1) (make_key J sp src) = Some fn \<and> je_jit e1 = je_jit e"
  proof (cases "map_of (je_cache e) (make_key J sp src)")
    case None
    then obtain M where "finish J lv M sp (make_key J sp src) e = (fn, e1)"
      using assms by (auto simp: specialize_key_def Let_def split: option.splits)
    then show ?thesis using finish_cached [OF _ assms(2) None] by blast
  qed (use assms in \<open>auto simp: specialize_key_def\<close>)
  then show "map_of (je_cache e1) (make_key J sp src) = Some fn" "je_jit e1 = je_jit e" by simp_all
qed

lemma specialize_key_hit:
  "map_of (je_cache e) (make_key J sp src) = Some fn \<Longrightarrow> specialize_key J lv parse sp src e = (fn, e)"
  by (simp add: specialize_key_def)

lemma specializeText_cached:
  assumes "specializeText J lv text sp e = (fn, e1)" "fn \<noteq> 0"
  shows "sp_kernel sp \<noteq> []" "je_jit e1"
    "map_of (je_cache e1) (make_key J sp (contentKey (string_bytes text))) = Some fn"
proof -
  obtain e0 where "ensureLLJIT lv e = (True, e0)"
    and k: "specialize_key J lv (\<lambda>_. lv_parse_ir lv (string_bytes text)) sp (contentKey (string_bytes text)) e0 = (fn, e1)"
    and "sp_kernel sp \<noteq> []"
    using assms by (auto simp: specializeText_def split: if_splits prod.splits)
  moreover from this have "je_jit e0" by (auto simp: ensureLLJIT_def split: if_splits)
  ultimately show "sp_kernel sp \<noteq> []" "je_jit e1"
    "map_of (je_cache e1) (make_key J sp (contentKey (string_bytes text))) = Some fn"
    using specialize_key_cached [OF k assms(2)] by simp_all
qed

lemma specializeText_hit:
  assumes "sp_kernel sp \<noteq> []" "je_jit e" "map_of (je_cache e) (make_key J sp (contentKey (string_bytes text))) = Some fn"
  shows "specializeText J lv text sp e = (fn, e)"
  using assms by (simp add: specializeText_def ensureLLJIT_def specialize_key_hit)

text \<open>A specialization is compiled once. After a success the same request is answered with the same
  function from the cache, whatever LLVM would do now, and the engine does not change.\<close>

theorem specialization_is_cached:
  assumes "specializeText J lv text sp e = (fn, e1)" "fn \<noteq> 0"
  shows "specializeText J lv' text sp e1 = (fn, e1)"
  by (rule specializeText_hit [OF specializeText_cached [OF assms]])

definition demo_module :: "rat llvm_module" where
  "demo_module = \<lparr>md_globals = [''cira_kBatchSize'' \<mapsto> \<lparr>gl_type = Ty_Int 32, gl_users = [Load_User 0 (Ty_Int 32), Load_User 1 (Ty_Int 64)],
     gl_init = None, gl_constant = False, gl_private = False\<rparr>], md_replaced = []\<rparr>"

definition demo_llvm :: "rat llvm_env" where
  "demo_llvm = \<lparr>lv_create = True, lv_bind_abi = True, lv_optimize = (\<lambda>_ M. M), lv_link = (\<lambda>M _. Some (0x7000 + of_nat (length (md_replaced M)))),
     lv_parse_ir = (\<lambda>_. Some demo_module), lv_parse_bitcode = (\<lambda>_. None), lv_is_bitcode = (\<lambda>_. False), lv_read_file = (\<lambda>_. None)\<rparr>"

definition empty_engine :: jit_engine where
  "empty_engine = \<lparr>je_jit = False, je_cache = [], je_abi_bound = False\<rparr>"

lemma demo_specialized:
  "\<exists>e1. specializeText exact_jit_fpu demo_llvm ''x'' demo_spec empty_engine = (0x7000, e1)"
  by (simp add: specializeText_def ensureLLJIT_def empty_engine_def demo_llvm_def demo_spec_def specialize_key_def
      finish_def bindRuntimeAbiLocked_def patchAndOptimize_def demo_module_def Let_def)

lemma specialization_is_cached_witness:
  "\<exists>e1. specializeText exact_jit_fpu (demo_llvm\<lparr>lv_link := \<lambda>_ _. None\<rparr>) ''x'' demo_spec e1 = (0x7000, e1)"
  using demo_specialized specialization_is_cached [where ?lv' = "demo_llvm\<lparr>lv_link := \<lambda>_ _. None\<rparr>"] by force

text \<open>A knob listed twice disappears from the fingerprint. Once a template is compiled without a knob, a
  request that lists the knob twice gets that code back from the cache, unspecialized, although the
  substitution it asks for would change the module.\<close>

theorem duplicate_knobs_reuse_code:
  assumes "specializeText J lv text sp e = (fn, e1)" "fn \<noteq> 0"
  shows "specializeText J lv' text (sp\<lparr>sp_knobs := k # k # sp_knobs sp\<rparr>) e1 = (fn, e1)"
proof (rule specializeText_hit)
  note c = specializeText_cached [OF assms]
  show "sp_kernel (sp\<lparr>sp_knobs := k # k # sp_knobs sp\<rparr>) \<noteq> []" "je_jit e1" using c by simp_all
  show "map_of (je_cache e1) (make_key J (sp\<lparr>sp_knobs := k # k # sp_knobs sp\<rparr>) (contentKey (string_bytes text))) = Some fn"
    using c(3) by (simp only: duplicate_key)
qed

lemma duplicate_knobs_reuse_code_witness:
  "(\<exists>e1. specializeText exact_jit_fpu demo_llvm ''x''
     (demo_spec\<lparr>sp_knobs := [knob_i32 exact_fpu ''cira_kBatchSize'' 64, knob_i32 exact_fpu ''cira_kBatchSize'' 64]\<rparr>) e1 = (0x7000, e1)) \<and>
   fst (specializeText exact_jit_fpu demo_llvm ''x''
     (demo_spec\<lparr>sp_knobs := [knob_i32 exact_fpu ''cira_kBatchSize'' 64, knob_i32 exact_fpu ''cira_kBatchSize'' 64]\<rparr>) empty_engine) = 0x7002"
proof
  obtain e1 where e: "specializeText exact_jit_fpu demo_llvm ''x'' demo_spec empty_engine = (0x7000, e1)"
    using demo_specialized by blast
  have k: "sp_knobs demo_spec = []" by (simp add: demo_spec_def)
  show "\<exists>e1. specializeText exact_jit_fpu demo_llvm ''x''
     (demo_spec\<lparr>sp_knobs := [knob_i32 exact_fpu ''cira_kBatchSize'' 64, knob_i32 exact_fpu ''cira_kBatchSize'' 64]\<rparr>) e1 = (0x7000, e1)"
    using duplicate_knobs_reuse_code [OF e, of demo_llvm "knob_i32 exact_fpu ''cira_kBatchSize'' 64"] unfolding k by auto
  show "fst (specializeText exact_jit_fpu demo_llvm ''x''
     (demo_spec\<lparr>sp_knobs := [knob_i32 exact_fpu ''cira_kBatchSize'' 64, knob_i32 exact_fpu ''cira_kBatchSize'' 64]\<rparr>) empty_engine) = 0x7002"
    by (simp add: specializeText_def ensureLLJIT_def empty_engine_def demo_llvm_def demo_spec_def specialize_key_def
      finish_def bindRuntimeAbiLocked_def patchAndOptimize_def demo_module_def foldKnob_def constantFor_def knob_i32_def
      emplace_def Let_def)
qed

text \<open>A failure is not cached.\<close>

lemma failure_not_cached:
  assumes "specialize_key J lv parse sp src e = (0, e1)" "0 \<notin> snd ` set (je_cache e)"
    and "\<And>M. lv_link lv M (sp_kernel sp) \<noteq> Some 0"
  shows "je_cache e1 = je_cache e"
proof (cases "map_of (je_cache e) (make_key J sp src)")
  case (Some fn)
  then have "fn \<in> snd ` set (je_cache e)" by (force dest: map_of_SomeD)
  then show ?thesis using assms(1,2) Some by (auto simp: specialize_key_def)
qed (use assms in \<open>auto simp: specialize_key_def finish_def bindRuntimeAbiLocked_def Let_def
      split: option.splits if_splits prod.splits\<close>)

end
