(* ===== verification/Vortex_Device.thy ===== *)
theory Vortex_Device
  imports Firmware "HOL-Library.Multiset" "HOL-Library.Monad_Syntax"
begin

text \<open>
  The device library of \<^verbatim>\<open>runtime/vortex_device.cpp\<close> (its first half: devices, buffers, kernels and
  their arguments). Handles are addresses of heap objects, 0 is \<open>nullptr\<close>. The Vortex SDK is the
  argument \<open>vx\<close>: what it answers to a call may depend on all calls and answers before, which the
  state keeps, newest first. \<open>new\<close> is the argument \<open>nw\<close>. An operation whose behaviour is undefined
  (a handle that is not, or no longer, an object of its type; a copy past the end of a vector), or
  whose \<open>new\<close> throws, has the result \<open>None\<close>. Messages are not modelled.
\<close>

section \<open>The SDK\<close>

datatype vx_call =
    Vx_Setenv string string | Vx_Dev_Open | Vx_Dev_Close u64 | Vx_Dev_Caps u64 u32
  | Vx_Mem_Alloc u64 u64 u32 | Vx_Mem_Free u64 | Vx_Mem_Address u64
  | Vx_Copy_To_Dev u64 "u8 list" u64 | Vx_Copy_From_Dev u64 u64 u64
  | Vx_Upload_Kernel_Bytes u64 "u8 list" | Vx_Start u64 u64 u64 | Vx_Ready_Wait u64 u64

text \<open>The return value, the word stored through the out parameter and the bytes copied back, both
  only where the return value is 0.\<close>

record vx_answer =
  va_ret :: int
  va_out :: u64
  va_data :: "u8 list"

type_synonym vx_log = "(vx_call \<times> vx_answer) list"
type_synonym vx = "vx_log \<Rightarrow> vx_call \<Rightarrow> vx_answer"

definition VX_MEM_READ_WRITE :: u32 where "VX_MEM_READ_WRITE = 3"
definition VX_MEM_READ :: u32 where "VX_MEM_READ = 1"
definition VX_MAX_TIMEOUT :: u64 where "VX_MAX_TIMEOUT = 0xFFFFFFFF"

text \<open>The stubs that stand in when the SDK is not installed.\<close>

fun vx_stub :: "vx_call \<Rightarrow> int" where
  "vx_stub (Vx_Dev_Close _) = 0"
| "vx_stub (Vx_Mem_Free _) = 0"
| "vx_stub (Vx_Setenv _ _) = 0"
| "vx_stub _ = -1"

section \<open>Objects\<close>

record device_caps =
  dc_num_cores :: u32
  dc_num_warps_per_core :: u32
  dc_num_threads_per_warp :: u32
  dc_global_mem_size :: u64
  dc_local_mem_size :: u64
  dc_cache_line_size :: u32
  dc_isa_flags :: u32

record vortex_device =
  vd_dev :: u64
  vd_caps :: device_caps
  vd_initialized :: bool
  vd_debug_enabled :: bool
  vd_perf_counters :: "(string \<times> u64) list"

record vortex_buffer =
  vb_buf :: u64
  vb_device :: addr
  vb_dev_addr :: u64
  vb_size :: u64

datatype arg_type = VORTEX_ARG_VALUE | VORTEX_ARG_BUFFER | VORTEX_ARG_LOCAL

record kernel_arg =
  ka_host_ptr :: addr
  ka_size :: u64
  ka_alignment :: u32
  ka_type :: arg_type

record vortex_kernel =
  vk_device :: addr
  vk_kernel_buffer :: u64
  vk_args_buffer :: u64
  vk_kernel_addr :: u64
  vk_args_addr :: u64
  vk_args :: "kernel_arg list"

datatype vx_object = Device vortex_device | Buffer vortex_buffer | Kernel vortex_kernel

record vx_world =
  vw_log :: vx_log
  vw_heap :: "addr \<rightharpoonup> vx_object"
  vw_mem :: mem

type_synonym vx_new = "(addr \<rightharpoonup> vx_object) \<Rightarrow> addr"

definition device_at :: "vx_world \<Rightarrow> addr \<Rightarrow> vortex_device option" where
  "device_at w a = (case vw_heap w a of Some (Device d) \<Rightarrow> Some d | _ \<Rightarrow> None)"

definition buffer_at :: "vx_world \<Rightarrow> addr \<Rightarrow> vortex_buffer option" where
  "buffer_at w a = (case vw_heap w a of Some (Buffer b) \<Rightarrow> Some b | _ \<Rightarrow> None)"

definition kernel_at :: "vx_world \<Rightarrow> addr \<Rightarrow> vortex_kernel option" where
  "kernel_at w a = (case vw_heap w a of Some (Kernel k) \<Rightarrow> Some k | _ \<Rightarrow> None)"

text \<open>\<open>new\<close> gives the address of no live object, or throws.\<close>

definition new_object :: "vx_new \<Rightarrow> vx_world \<Rightarrow> addr option" where
  "new_object nw w =
     (let a = nw (vw_heap w) in if a = 0 \<or> vw_heap w a \<noteq> None then None else Some a)"

definition put_object :: "addr \<Rightarrow> vx_object \<Rightarrow> vx_world \<Rightarrow> vx_world" where
  "put_object a x w = w\<lparr>vw_heap := (vw_heap w)(a \<mapsto> x)\<rparr>"

definition delete_object :: "addr \<Rightarrow> vx_world \<Rightarrow> vx_world" where
  "delete_object a w = w\<lparr>vw_heap := (vw_heap w)(a := None)\<rparr>"

definition vx_do :: "vx \<Rightarrow> vx_call \<Rightarrow> vx_world \<Rightarrow> vx_answer \<times> vx_world" where
  "vx_do vx c w = (let r = vx (vw_log w) c in (r, w\<lparr>vw_log := (c, r) # vw_log w\<rparr>))"

section \<open>Devices\<close>

text \<open>
  One capability query. \<open>value\<close> is one uninitialised variable for all queries: a query that fails
  leaves what the last successful one stored.
\<close>

definition query_cap :: "vx \<Rightarrow> u64 \<Rightarrow> u32 \<Rightarrow> u64 \<Rightarrow> vx_world \<Rightarrow> u64 \<times> vx_world" where
  "query_cap vx dev cap v w =
     (case vx_do vx (Vx_Dev_Caps dev cap) w of (r, w1) \<Rightarrow> (if va_ret r = 0 then va_out r else v, w1))"

definition query_caps :: "vx \<Rightarrow> u64 \<Rightarrow> u64 \<Rightarrow> vx_world \<Rightarrow> device_caps \<times> vx_world" where
  "query_caps vx dev junk w =
     (case query_cap vx dev 3 junk w of (cores, w1) \<Rightarrow>
      case query_cap vx dev 2 cores w1 of (warps, w2) \<Rightarrow>
      case query_cap vx dev 1 warps w2 of (threads, w3) \<Rightarrow>
      case query_cap vx dev 5 threads w3 of (gmem, w4) \<Rightarrow>
      case query_cap vx dev 6 gmem w4 of (lmem, w5) \<Rightarrow>
      case query_cap vx dev 4 lmem w5 of (line, w6) \<Rightarrow>
      case query_cap vx dev 7 line w6 of (isa, w7) \<Rightarrow>
        (\<lparr>dc_num_cores = ucast cores, dc_num_warps_per_core = ucast warps,
          dc_num_threads_per_warp = ucast threads, dc_global_mem_size = gmem,
          dc_local_mem_size = lmem, dc_cache_line_size = ucast line, dc_isa_flags = ucast isa\<rparr>, w7))"

text \<open>
  The result of a constructor is its return code, what it stores through the out parameter
  (\<open>None\<close>: nothing) and the state. \<open>out\<close> is whether the out parameter is not null.
\<close>

definition vortex_device_init ::
  "vx \<Rightarrow> vx_new \<Rightarrow> u64 \<Rightarrow> bool \<Rightarrow> string option \<Rightarrow> vx_world \<Rightarrow> (vortex_rc \<times> addr option \<times> vx_world) option" where
  "vortex_device_init vx nw junk out sim_path w =
     (if \<not> out then Some (VORTEX_ERROR_INVALID, None, w)
      else do {
        a \<leftarrow> new_object nw w;
        let w1 = (case sim_path of None \<Rightarrow> w | Some p \<Rightarrow> snd (vx_do vx (Vx_Setenv ''VORTEX_SIM_PATH'' p) w));
        case vx_do vx Vx_Dev_Open w1 of (r, w2) \<Rightarrow>
          if va_ret r \<noteq> 0 then Some (VORTEX_ERROR_INIT, Some 0, w2)
          else case query_caps vx (va_out r) junk w2 of (caps, w3) \<Rightarrow>
            Some (VORTEX_SUCCESS, Some a,
              put_object a (Device \<lparr>vd_dev = va_out r, vd_caps = caps, vd_initialized = True,
                vd_debug_enabled = False, vd_perf_counters = []\<rparr>) w3)
      })"

definition vortex_device_get_caps ::
  "addr \<Rightarrow> bool \<Rightarrow> vx_world \<Rightarrow> (vortex_rc \<times> device_caps option) option" where
  "vortex_device_get_caps device out w =
     (if device = 0 \<or> \<not> out then Some (VORTEX_ERROR_INVALID, None)
      else do {
        d \<leftarrow> device_at w device;
        if \<not> vd_initialized d then Some (VORTEX_ERROR_INIT, None) else Some (VORTEX_SUCCESS, Some (vd_caps d))
      })"

definition vortex_device_destroy :: "vx \<Rightarrow> addr \<Rightarrow> vx_world \<Rightarrow> (vortex_rc \<times> vx_world) option" where
  "vortex_device_destroy vx device w =
     (if device = 0 then Some (VORTEX_ERROR_INVALID, w)
      else do {
        d \<leftarrow> device_at w device;
        let w1 = (if vd_initialized d then snd (vx_do vx (Vx_Dev_Close (vd_dev d)) w) else w);
        Some (VORTEX_SUCCESS, delete_object device w1)
      })"

section \<open>Buffers\<close>

definition vortex_malloc ::
  "vx \<Rightarrow> vx_new \<Rightarrow> addr \<Rightarrow> bool \<Rightarrow> u64 \<Rightarrow> vx_world \<Rightarrow> (vortex_rc \<times> addr option \<times> vx_world) option" where
  "vortex_malloc vx nw device out sz w =
     (if device = 0 \<or> \<not> out \<or> sz = 0 then Some (VORTEX_ERROR_INVALID, None, w)
      else do {
        d \<leftarrow> device_at w device;
        if \<not> vd_initialized d then Some (VORTEX_ERROR_INIT, None, w)
        else do {
          a \<leftarrow> new_object nw w;
          case vx_do vx (Vx_Mem_Alloc (vd_dev d) sz VX_MEM_READ_WRITE) w of (r, w1) \<Rightarrow>
            if va_ret r \<noteq> 0 then Some (VORTEX_ERROR_MEMORY, Some 0, w1)
            else case vx_do vx (Vx_Mem_Address (va_out r)) w1 of (r2, w2) \<Rightarrow>
              if va_ret r2 \<noteq> 0
              then Some (VORTEX_ERROR_MEMORY, Some 0, snd (vx_do vx (Vx_Mem_Free (va_out r)) w2))
              else Some (VORTEX_SUCCESS, Some a,
                put_object a (Buffer \<lparr>vb_buf = va_out r, vb_device = device, vb_dev_addr = va_out r2,
                  vb_size = sz\<rparr>) w2)
        }
      })"

definition vortex_free :: "vx \<Rightarrow> addr \<Rightarrow> vx_world \<Rightarrow> (vortex_rc \<times> vx_world) option" where
  "vortex_free vx buffer w =
     (if buffer = 0 then Some (VORTEX_ERROR_INVALID, w)
      else do {
        b \<leftarrow> buffer_at w buffer;
        Some (VORTEX_SUCCESS, delete_object buffer (snd (vx_do vx (Vx_Mem_Free (vb_buf b)) w)))
      })"

definition vortex_buffer_get_address :: "addr \<Rightarrow> bool \<Rightarrow> vx_world \<Rightarrow> (vortex_rc \<times> u64 option) option" where
  "vortex_buffer_get_address buffer out w =
     (if buffer = 0 \<or> \<not> out then Some (VORTEX_ERROR_INVALID, None)
      else do { b \<leftarrow> buffer_at w buffer; Some (VORTEX_SUCCESS, Some (vb_dev_addr b)) })"

datatype memcpy_kind = VORTEX_MEMCPY_HOST_TO_DEVICE | VORTEX_MEMCPY_DEVICE_TO_HOST | VORTEX_MEMCPY_DEVICE_TO_DEVICE

text \<open>The two directions, shared by the two copies: the host side is memory, the device side the SDK's.\<close>

definition copy_to_dev :: "vx \<Rightarrow> u64 \<Rightarrow> addr \<Rightarrow> u64 \<Rightarrow> u64 \<Rightarrow> vx_world \<Rightarrow> vortex_rc \<times> vx_world" where
  "copy_to_dev vx h src offset sz w =
     (case vx_do vx (Vx_Copy_To_Dev h (read_bytes (vw_mem w) src (unat sz)) offset) w of (r, w1) \<Rightarrow>
        (if va_ret r = 0 then VORTEX_SUCCESS else VORTEX_ERROR_MEMORY, w1))"

definition copy_from_dev :: "vx \<Rightarrow> u64 \<Rightarrow> addr \<Rightarrow> u64 \<Rightarrow> u64 \<Rightarrow> vx_world \<Rightarrow> vortex_rc \<times> vx_world" where
  "copy_from_dev vx h dst offset sz w =
     (case vx_do vx (Vx_Copy_From_Dev h offset sz) w of (r, w1) \<Rightarrow>
        if va_ret r = 0
        then (VORTEX_SUCCESS, w1\<lparr>vw_mem := write_bytes (vw_mem w1) dst (take (unat sz) (va_data r))\<rparr>)
        else (VORTEX_ERROR_MEMORY, w1))"

definition vortex_memcpy ::
  "vx \<Rightarrow> addr \<Rightarrow> addr \<Rightarrow> u64 \<Rightarrow> memcpy_kind \<Rightarrow> vx_world \<Rightarrow> (vortex_rc \<times> vx_world) option" where
  "vortex_memcpy vx dst src sz kind w =
     (if dst = 0 \<or> src = 0 \<or> sz = 0 then Some (VORTEX_ERROR_INVALID, w)
      else case kind of
        VORTEX_MEMCPY_HOST_TO_DEVICE \<Rightarrow> do { b \<leftarrow> buffer_at w dst; Some (copy_to_dev vx (vb_buf b) src 0 sz w) }
      | VORTEX_MEMCPY_DEVICE_TO_HOST \<Rightarrow> do { b \<leftarrow> buffer_at w src; Some (copy_from_dev vx (vb_buf b) dst 0 sz w) }
      | VORTEX_MEMCPY_DEVICE_TO_DEVICE \<Rightarrow> Some (VORTEX_ERROR_INVALID, w))"

definition vortex_memcpy_offset ::
  "vx \<Rightarrow> addr \<Rightarrow> u64 \<Rightarrow> addr \<Rightarrow> u64 \<Rightarrow> memcpy_kind \<Rightarrow> vx_world \<Rightarrow> (vortex_rc \<times> vx_world) option" where
  "vortex_memcpy_offset vx buffer offset src sz kind w =
     (if buffer = 0 \<or> src = 0 \<or> sz = 0 then Some (VORTEX_ERROR_INVALID, w)
      else do {
        b \<leftarrow> buffer_at w buffer;
        if vb_size b < offset + sz then Some (VORTEX_ERROR_INVALID, w)
        else case kind of
          VORTEX_MEMCPY_HOST_TO_DEVICE \<Rightarrow> Some (copy_to_dev vx (vb_buf b) src offset sz w)
        | VORTEX_MEMCPY_DEVICE_TO_HOST \<Rightarrow> Some (copy_from_dev vx (vb_buf b) src offset sz w)
        | VORTEX_MEMCPY_DEVICE_TO_DEVICE \<Rightarrow> Some (VORTEX_ERROR_INVALID, w)
      })"

section \<open>Kernels\<close>

definition vortex_kernel_load ::
  "vx \<Rightarrow> vx_new \<Rightarrow> addr \<Rightarrow> bool \<Rightarrow> u8 list option \<Rightarrow> vx_world \<Rightarrow> (vortex_rc \<times> addr option \<times> vx_world) option" where
  "vortex_kernel_load vx nw device out binary w =
     (if device = 0 \<or> \<not> out \<or> binary = None \<or> binary = Some [] then Some (VORTEX_ERROR_INVALID, None, w)
      else do {
        d \<leftarrow> device_at w device;
        if \<not> vd_initialized d then Some (VORTEX_ERROR_INIT, None, w)
        else do {
          a \<leftarrow> new_object nw w;
          case vx_do vx (Vx_Upload_Kernel_Bytes (vd_dev d) (the binary)) w of (r, w1) \<Rightarrow>
            if va_ret r \<noteq> 0 then Some (VORTEX_ERROR_KERNEL, Some 0, w1)
            else case vx_do vx (Vx_Mem_Address (va_out r)) w1 of (r2, w2) \<Rightarrow>
              if va_ret r2 \<noteq> 0
              then Some (VORTEX_ERROR_KERNEL, Some 0, snd (vx_do vx (Vx_Mem_Free (va_out r)) w2))
              else Some (VORTEX_SUCCESS, Some a,
                put_object a (Kernel \<lparr>vk_device = device, vk_kernel_buffer = va_out r, vk_args_buffer = 0,
                  vk_kernel_addr = va_out r2, vk_args_addr = 0, vk_args = []\<rparr>) w2)
        }
      })"

text \<open>The file system: \<open>open\<close> gives a descriptor, \<open>fstat\<close> the size, \<open>read\<close> the bytes it got (\<open>None\<close>: -1).\<close>

record file_sys =
  fs_open :: "string \<Rightarrow> int"
  fs_fstat :: "int \<Rightarrow> u64 option"
  fs_read :: "int \<Rightarrow> u64 \<Rightarrow> u8 list option"

definition vortex_kernel_load_file ::
  "vx \<Rightarrow> vx_new \<Rightarrow> file_sys \<Rightarrow> addr \<Rightarrow> bool \<Rightarrow> string option \<Rightarrow> vx_world
     \<Rightarrow> (vortex_rc \<times> addr option \<times> os_call list \<times> vx_world) option" where
  "vortex_kernel_load_file vx nw fs device out path w =
     (if device = 0 \<or> \<not> out \<or> path = None then Some (VORTEX_ERROR_INVALID, None, [], w)
      else let fd = fs_open fs (the path) in
        if fd < 0 then Some (VORTEX_ERROR_KERNEL, None, [], w)
        else case fs_fstat fs fd of
          None \<Rightarrow> Some (VORTEX_ERROR_KERNEL, None, [Opened fd, Closed fd], w)
        | Some file_size \<Rightarrow>
            (case fs_read fs fd file_size of
               None \<Rightarrow> Some (VORTEX_ERROR_KERNEL, None, [Opened fd, Closed fd], w)
             | Some bs \<Rightarrow>
                 if length bs \<noteq> unat file_size then Some (VORTEX_ERROR_KERNEL, None, [Opened fd, Closed fd], w)
                 else map_option (\<lambda>(rc, k, w1). (rc, k, [Opened fd, Closed fd], w1))
                        (vortex_kernel_load vx nw device out (Some bs) w)))"

text \<open>\<open>if (h) vx_mem_free(h)\<close>\<close>

definition free_if_set :: "vx \<Rightarrow> u64 \<Rightarrow> vx_world \<Rightarrow> vx_world" where
  "free_if_set vx h w = (if h \<noteq> 0 then snd (vx_do vx (Vx_Mem_Free h) w) else w)"

text \<open>
  Alignment as the code computes it: the mask is the complement of a 32-bit word, so it also clears
  the upper half of the sum.
\<close>

definition align_arg :: "u64 \<Rightarrow> u32 \<Rightarrow> u64" where
  "align_arg v al = (v + ucast al - 1) AND ucast (NOT (al - 1))"

definition args_total :: "kernel_arg list \<Rightarrow> u64" where
  "args_total args = foldl (\<lambda>acc a. acc + align_arg (ka_size a) (ka_alignment a)) 0 args"

definition splice :: "u8 list \<Rightarrow> u64 \<Rightarrow> u8 list \<Rightarrow> u8 list option" where
  "splice buf off bs =
     (if unat off + length bs \<le> length buf
      then Some (take (unat off) buf @ bs @ drop (unat off + length bs) buf) else None)"

text \<open>The bytes an argument contributes.\<close>

definition arg_bytes :: "vx_world \<Rightarrow> kernel_arg \<Rightarrow> u8 list option" where
  "arg_bytes w a =
     (case ka_type a of
        VORTEX_ARG_VALUE \<Rightarrow> Some (read_bytes (vw_mem w) (ka_host_ptr a) (unat (ka_size a)))
      | VORTEX_ARG_BUFFER \<Rightarrow> map_option (\<lambda>b. le_bytes 8 (vb_dev_addr b)) (buffer_at w (ka_host_ptr a))
      | VORTEX_ARG_LOCAL \<Rightarrow> Some [])"

fun pack_args :: "vx_world \<Rightarrow> kernel_arg list \<Rightarrow> u64 \<Rightarrow> u8 list \<Rightarrow> u8 list option" where
  "pack_args w [] off data = Some data"
| "pack_args w (a # as) off data =
     (let off1 = align_arg off (ka_alignment a) in do {
        bs \<leftarrow> arg_bytes w a;
        data1 \<leftarrow> (if ka_type a = VORTEX_ARG_LOCAL then Some data else splice data off1 bs);
        pack_args w as (off1 + ka_size a) data1
      })"

definition vortex_kernel_set_args ::
  "vx \<Rightarrow> addr \<Rightarrow> kernel_arg list option \<Rightarrow> vx_world \<Rightarrow> (vortex_rc \<times> vx_world) option" where
  "vortex_kernel_set_args vx krn args w =
     (if krn = 0 \<or> args = None \<or> args = Some [] then Some (VORTEX_ERROR_INVALID, w)
      else do {
        k \<leftarrow> kernel_at w krn;
        d \<leftarrow> device_at w (vk_device k);
        let as = the args;
        let sz = args_total as;
        let k1 = k\<lparr>vk_args := as\<rparr>;
        let w1 = free_if_set vx (vk_args_buffer k) w;
        case vx_do vx (Vx_Mem_Alloc (vd_dev d) sz VX_MEM_READ) w1 of (r, w2) \<Rightarrow>
          if va_ret r \<noteq> 0 then Some (VORTEX_ERROR_MEMORY, put_object krn (Kernel k1) w2)
          else let k2 = k1\<lparr>vk_args_buffer := va_out r\<rparr> in
          case vx_do vx (Vx_Mem_Address (va_out r)) w2 of (r2, w3) \<Rightarrow>
            if va_ret r2 \<noteq> 0
            then Some (VORTEX_ERROR_MEMORY, put_object krn (Kernel (k2\<lparr>vk_args_buffer := 0\<rparr>))
                         (snd (vx_do vx (Vx_Mem_Free (va_out r)) w3)))
            else let k3 = k2\<lparr>vk_args_addr := va_out r2\<rparr>; w4 = put_object krn (Kernel k3) w3 in do {
              data \<leftarrow> pack_args w4 as 0 (replicate (unat sz) 0);
              case vx_do vx (Vx_Copy_To_Dev (va_out r) data 0) w4 of (r3, w5) \<Rightarrow>
                Some (if va_ret r3 \<noteq> 0 then VORTEX_ERROR_MEMORY else VORTEX_SUCCESS, w5)
            }
      })"

definition vortex_kernel_unload :: "vx \<Rightarrow> addr \<Rightarrow> vx_world \<Rightarrow> (vortex_rc \<times> vx_world) option" where
  "vortex_kernel_unload vx krn w =
     (if krn = 0 then Some (VORTEX_ERROR_INVALID, w)
      else do {
        k \<leftarrow> kernel_at w krn;
        let w1 = free_if_set vx (vk_kernel_buffer k) w;
        let w2 = free_if_set vx (vk_args_buffer k) w1;
        Some (VORTEX_SUCCESS, delete_object krn w2)
      })"

section \<open>Execution, counters, debugging\<close>

definition vortex_kernel_launch :: "vx \<Rightarrow> addr \<Rightarrow> addr \<Rightarrow> bool \<Rightarrow> vx_world \<Rightarrow> (vortex_rc \<times> vx_world) option" where
  "vortex_kernel_launch vx device krn params w =
     (if device = 0 \<or> krn = 0 \<or> \<not> params then Some (VORTEX_ERROR_INVALID, w)
      else do {
        d \<leftarrow> device_at w device;
        if \<not> vd_initialized d then Some (VORTEX_ERROR_INIT, w)
        else do {
          k \<leftarrow> kernel_at w krn;
          case vx_do vx (Vx_Start (vd_dev d) (vk_kernel_buffer k) (vk_args_buffer k)) w of (r, w1) \<Rightarrow>
            if va_ret r \<noteq> 0 then Some (VORTEX_ERROR_LAUNCH, w1)
            else case vx_do vx (Vx_Ready_Wait (vd_dev d) VX_MAX_TIMEOUT) w1 of (r2, w2) \<Rightarrow>
              Some (if va_ret r2 \<noteq> 0 then VORTEX_ERROR_TIMEOUT else VORTEX_SUCCESS, w2)
        }
      })"

definition vortex_device_wait :: "vx \<Rightarrow> addr \<Rightarrow> u64 \<Rightarrow> vx_world \<Rightarrow> (vortex_rc \<times> vx_world) option" where
  "vortex_device_wait vx device timeout_ms w =
     (if device = 0 then Some (VORTEX_ERROR_INVALID, w)
      else do {
        d \<leftarrow> device_at w device;
        if \<not> vd_initialized d then Some (VORTEX_ERROR_INIT, w)
        else case vx_do vx (Vx_Ready_Wait (vd_dev d) timeout_ms) w of (r, w1) \<Rightarrow>
          Some (if va_ret r \<noteq> 0 then VORTEX_ERROR_TIMEOUT else VORTEX_SUCCESS, w1)
      })"

definition vortex_device_synchronize :: "vx \<Rightarrow> addr \<Rightarrow> vx_world \<Rightarrow> (vortex_rc \<times> vx_world) option" where
  "vortex_device_synchronize vx device w = vortex_device_wait vx device VX_MAX_TIMEOUT w"

definition vortex_device_get_perf_counter ::
  "addr \<Rightarrow> string option \<Rightarrow> bool \<Rightarrow> vx_world \<Rightarrow> (vortex_rc \<times> u64 option) option" where
  "vortex_device_get_perf_counter device name out w =
     (if device = 0 \<or> name = None \<or> \<not> out then Some (VORTEX_ERROR_INVALID, None)
      else do {
        d \<leftarrow> device_at w device;
        case map_of (vd_perf_counters d) (the name) of
          Some v \<Rightarrow> Some (VORTEX_SUCCESS, Some v)
        | None \<Rightarrow> Some (VORTEX_ERROR_INVALID, None)
      })"

definition vortex_device_set_debug :: "addr \<Rightarrow> int \<Rightarrow> vx_world \<Rightarrow> (vortex_rc \<times> vx_world) option" where
  "vortex_device_set_debug device enable w =
     (if device = 0 then Some (VORTEX_ERROR_INVALID, w)
      else do {
        d \<leftarrow> device_at w device;
        Some (VORTEX_SUCCESS, put_object device (Device (d\<lparr>vd_debug_enabled := enable \<noteq> 0\<rparr>)) w)
      })"

section \<open>The allocation ledger\<close>

text \<open>The SDK buffers allocated and not freed according to the log, and those the live objects hold.\<close>

fun live :: "vx_log \<Rightarrow> u64 multiset" where
  "live [] = {#}"
| "live ((c, r) # l) =
     (case c of
        Vx_Mem_Alloc _ _ _ \<Rightarrow> if va_ret r = 0 then add_mset (va_out r) (live l) else live l
      | Vx_Upload_Kernel_Bytes _ _ \<Rightarrow> if va_ret r = 0 then add_mset (va_out r) (live l) else live l
      | Vx_Mem_Free h \<Rightarrow> live l - {#h#}
      | _ \<Rightarrow> live l)"

definition handle_if :: "u64 \<Rightarrow> u64 multiset" where
  "handle_if h = (if h = 0 then {#} else {#h#})"

fun handles :: "vx_object \<Rightarrow> u64 multiset" where
  "handles (Device d) = {#}"
| "handles (Buffer b) = {#vb_buf b#}"
| "handles (Kernel k) = handle_if (vk_kernel_buffer k) + handle_if (vk_args_buffer k)"

definition owned :: "(addr \<rightharpoonup> vx_object) \<Rightarrow> u64 multiset" where
  "owned h = (\<Sum>a\<in>dom h. handles (the (h a)))"

definition balanced :: "vx_world \<Rightarrow> bool" where
  "balanced w \<longleftrightarrow> live (vw_log w) = owned (vw_heap w)"

text \<open>What the SDK documents: a buffer it hands out is not null.\<close>

definition vx_handles_ok :: "vx \<Rightarrow> bool" where
  "vx_handles_ok vx \<longleftrightarrow>
     (\<forall>l d s f. va_ret (vx l (Vx_Mem_Alloc d s f)) = 0 \<longrightarrow> va_out (vx l (Vx_Mem_Alloc d s f)) \<noteq> 0) \<and>
     (\<forall>l d b. va_ret (vx l (Vx_Upload_Kernel_Bytes d b)) = 0 \<longrightarrow> va_out (vx l (Vx_Upload_Kernel_Bytes d b)) \<noteq> 0)"

lemma vx_do_case: "(case vx_do vx c w of (r, w1) \<Rightarrow> f r w1) = f (fst (vx_do vx c w)) (snd (vx_do vx c w))"
  by (simp add: case_prod_beta)

lemma vx_do_snd [simp]:
  "vw_log (snd (vx_do vx c w)) = (c, fst (vx_do vx c w)) # vw_log w"
  "vw_heap (snd (vx_do vx c w)) = vw_heap w"
  "vw_mem (snd (vx_do vx c w)) = vw_mem w"
  by (simp_all add: vx_do_def Let_def)

lemma vx_handles_okD:
  assumes "vx_handles_ok vx"
  shows "va_ret (fst (vx_do vx (Vx_Mem_Alloc d s f) w)) = 0 \<Longrightarrow> va_out (fst (vx_do vx (Vx_Mem_Alloc d s f) w)) \<noteq> 0"
    and "va_ret (fst (vx_do vx (Vx_Upload_Kernel_Bytes d b) w)) = 0 \<Longrightarrow> va_out (fst (vx_do vx (Vx_Upload_Kernel_Bytes d b) w)) \<noteq> 0"
  using assms by (auto simp: vx_handles_ok_def vx_do_def Let_def)

lemma if_eq_cases: "((if c then x else y) = z) \<longleftrightarrow> (c \<and> x = z) \<or> (\<not> c \<and> y = z)"
  by auto

lemma object_heap [simp]:
  "vw_heap (put_object a x w) = (vw_heap w)(a \<mapsto> x)" "vw_log (put_object a x w) = vw_log w"
  "vw_mem (put_object a x w) = vw_mem w"
  "vw_heap (delete_object a w) = (vw_heap w)(a := None)" "vw_log (delete_object a w) = vw_log w"
  "vw_mem (delete_object a w) = vw_mem w"
  by (simp_all add: put_object_def delete_object_def)

lemma owned_remove: "h a = Some x \<Longrightarrow> owned h = handles x + owned (h(a := None))"
proof -
  assume a: "h a = Some x"
  then have "owned h = handles (the (h a)) + (\<Sum>b\<in>dom h - {a}. handles (the (h b)))"
    unfolding owned_def by (intro sum.remove) auto
  also have "(\<Sum>b\<in>dom h - {a}. handles (the (h b))) = owned (h(a := None))"
    unfolding owned_def by (intro sum.cong) auto
  finally show ?thesis using a by simp
qed

lemma owned_put: "owned (h(a \<mapsto> x)) = handles x + owned (h(a := None))"
  using owned_remove [of "h(a \<mapsto> x)" a x] by simp

lemma owned_put_fresh: "h a = None \<Longrightarrow> owned (h(a \<mapsto> x)) = handles x + owned h"
  using owned_put [of h a x] by (simp add: fun_upd_idem)

lemma at_objects:
  "device_at w a = Some d \<longleftrightarrow> vw_heap w a = Some (Device d)"
  "buffer_at w a = Some b \<longleftrightarrow> vw_heap w a = Some (Buffer b)"
  "kernel_at w a = Some k \<longleftrightarrow> vw_heap w a = Some (Kernel k)"
  by (auto simp: device_at_def buffer_at_def kernel_at_def split: option.splits vx_object.splits)

lemma new_objectD: "new_object nw w = Some a \<Longrightarrow> a \<noteq> 0 \<and> vw_heap w a = None"
  by (auto simp: new_object_def Let_def split: if_split_asm)

text \<open>Every operation keeps the ledger balanced.\<close>

lemma query_cap_ledger [simp]:
  "live (vw_log (snd (query_cap vx dev c v w))) = live (vw_log w)" "vw_heap (snd (query_cap vx dev c v w)) = vw_heap w"
  by (auto simp: query_cap_def vx_do_case)

lemma query_caps_ledger [simp]:
  "live (vw_log (snd (query_caps vx dev junk w))) = live (vw_log w)" "vw_heap (snd (query_caps vx dev junk w)) = vw_heap w"
  by (simp_all add: query_caps_def case_prod_beta)

lemma free_if_set_ledger [simp]:
  "live (vw_log (free_if_set vx h w)) = live (vw_log w) - handle_if h"
  "vw_heap (free_if_set vx h w) = vw_heap w" "vw_mem (free_if_set vx h w) = vw_mem w"
  by (simp_all add: free_if_set_def handle_if_def)

lemma handle_if_nonzero [simp]: "h \<noteq> 0 \<Longrightarrow> handle_if h = {#h#}"
  by (simp add: handle_if_def)

lemma handle_if_0 [simp]: "handle_if 0 = {#}"
  by (simp add: handle_if_def)

lemmas ledger_simps = if_eq_cases vx_do_case balanced_def bind_eq_Some_conv at_objects Let_def owned_put_fresh owned_remove

lemma vortex_device_init_balanced:
  assumes "vortex_device_init vx nw junk out p w = Some (rc, o', w')" "balanced w"
  shows "balanced w'"
  using assms
  by (auto simp: vortex_device_init_def ledger_simps case_prod_beta split: if_split_asm option.split_asm
      dest!: new_objectD)

lemma vortex_device_destroy_balanced:
  assumes "vortex_device_destroy vx dev w = Some (rc, w')" "balanced w"
  shows "balanced w'"
  using assms by (auto simp: vortex_device_destroy_def ledger_simps)

lemma vortex_malloc_balanced:
  assumes "vortex_malloc vx nw dev out sz w = Some (rc, o', w')" "balanced w"
  shows "balanced w'"
  using assms
  by (auto simp: vortex_malloc_def ledger_simps dest!: new_objectD)

lemma vortex_free_balanced:
  assumes "vortex_free vx b w = Some (rc, w')" "balanced w"
  shows "balanced w'"
  using assms by (auto simp: vortex_free_def ledger_simps)

lemma vortex_kernel_load_balanced:
  assumes "vortex_kernel_load vx nw dev out bin w = Some (rc, o', w')" "balanced w" "vx_handles_ok vx"
  shows "balanced w'"
  using assms
  by (auto simp: vortex_kernel_load_def ledger_simps
      dest: vx_handles_okD dest!: new_objectD)

lemma vortex_kernel_unload_balanced:
  assumes "vortex_kernel_unload vx krn w = Some (rc, w')" "balanced w"
  shows "balanced w'"
  using assms by (auto simp: vortex_kernel_unload_def ledger_simps)

lemma copies_balanced:
  "copy_to_dev vx h src off sz w = (rc, w') \<Longrightarrow> balanced w' = balanced w"
  "copy_from_dev vx h dst off sz w = (rc, w') \<Longrightarrow> balanced w' = balanced w"
  by (auto simp: copy_to_dev_def copy_from_dev_def balanced_def vx_do_case if_eq_cases)

lemma vortex_memcpy_balanced:
  "vortex_memcpy vx dst src sz kind w = Some (rc, w') \<Longrightarrow> balanced w' = balanced w"
  "vortex_memcpy_offset vx buf off src sz kind w = Some (rc, w') \<Longrightarrow> balanced w' = balanced w"
  by (auto simp: vortex_memcpy_def vortex_memcpy_offset_def bind_eq_Some_conv copies_balanced
      split: if_split_asm memcpy_kind.split_asm)


text \<open>The argument buffers are read-only allocations. A refused one leaves a dangling handle, see below.\<close>

definition args_alloc_ok :: "vx \<Rightarrow> bool" where
  "args_alloc_ok vx \<longleftrightarrow> (\<forall>l d s. va_ret (vx l (Vx_Mem_Alloc d s VX_MEM_READ)) = 0)"

lemma args_alloc_okD: "args_alloc_ok vx \<Longrightarrow> va_ret (fst (vx_do vx (Vx_Mem_Alloc d s VX_MEM_READ) w)) = 0"
  by (simp add: args_alloc_ok_def vx_do_def Let_def)

lemma vortex_kernel_set_args_balanced:
  assumes "vortex_kernel_set_args vx krn args w = Some (rc, w')" "balanced w" "vx_handles_ok vx" "args_alloc_ok vx"
  shows "balanced w'"
  using assms
  by (auto simp: vortex_kernel_set_args_def ledger_simps args_alloc_okD vx_handles_okD owned_put)

datatype vx_op =
    Op_Init "string option" | Op_Destroy addr | Op_Malloc addr u64 | Op_Free addr
  | Op_Memcpy addr addr u64 memcpy_kind | Op_Memcpy_Offset addr u64 addr u64 memcpy_kind
  | Op_Kernel_Load addr "u8 list" | Op_Set_Args addr "kernel_arg list" | Op_Unload addr
  | Op_Launch addr addr | Op_Wait addr u64 | Op_Set_Debug addr int

fun vx_step :: "vx \<Rightarrow> vx_new \<Rightarrow> u64 \<Rightarrow> vx_op \<Rightarrow> vx_world \<Rightarrow> vx_world option" where
  "vx_step vx nw junk (Op_Init p) w = map_option (snd \<circ> snd) (vortex_device_init vx nw junk True p w)"
| "vx_step vx nw junk (Op_Destroy d) w = map_option snd (vortex_device_destroy vx d w)"
| "vx_step vx nw junk (Op_Malloc d n) w = map_option (snd \<circ> snd) (vortex_malloc vx nw d True n w)"
| "vx_step vx nw junk (Op_Free b) w = map_option snd (vortex_free vx b w)"
| "vx_step vx nw junk (Op_Memcpy x y n k) w = map_option snd (vortex_memcpy vx x y n k w)"
| "vx_step vx nw junk (Op_Memcpy_Offset b off y n k) w = map_option snd (vortex_memcpy_offset vx b off y n k w)"
| "vx_step vx nw junk (Op_Kernel_Load d bin) w = map_option (snd \<circ> snd) (vortex_kernel_load vx nw d True (Some bin) w)"
| "vx_step vx nw junk (Op_Set_Args k as) w = map_option snd (vortex_kernel_set_args vx k (Some as) w)"
| "vx_step vx nw junk (Op_Unload k) w = map_option snd (vortex_kernel_unload vx k w)"
| "vx_step vx nw junk (Op_Launch d k) w = map_option snd (vortex_kernel_launch vx d k True w)"
| "vx_step vx nw junk (Op_Wait d t) w = map_option snd (vortex_device_wait vx d t w)"
| "vx_step vx nw junk (Op_Set_Debug d n) w = map_option snd (vortex_device_set_debug d n w)"

fun vx_run :: "vx \<Rightarrow> vx_new \<Rightarrow> u64 \<Rightarrow> vx_op list \<Rightarrow> vx_world \<Rightarrow> vx_world option" where
  "vx_run vx nw junk [] w = Some w"
| "vx_run vx nw junk (x # xs) w = (case vx_step vx nw junk x w of None \<Rightarrow> None | Some w1 \<Rightarrow> vx_run vx nw junk xs w1)"

definition vx_start :: "mem \<Rightarrow> vx_world" where
  "vx_start m = \<lparr>vw_log = [], vw_heap = Map.empty, vw_mem = m\<rparr>"

lemma other_ops_balanced:
  "vortex_kernel_launch vx d k p w = Some (rc, w') \<Longrightarrow> balanced w \<Longrightarrow> balanced w'"
  "vortex_device_wait vx d t w = Some (rc, w') \<Longrightarrow> balanced w \<Longrightarrow> balanced w'"
  "vortex_device_set_debug d n w = Some (rc, w') \<Longrightarrow> balanced w \<Longrightarrow> balanced w'"
  by (auto simp: vortex_kernel_launch_def vortex_device_wait_def vortex_device_set_debug_def ledger_simps owned_put)

lemmas op_balanced = vortex_device_init_balanced vortex_device_destroy_balanced vortex_malloc_balanced
  vortex_free_balanced vortex_kernel_load_balanced vortex_kernel_unload_balanced vortex_memcpy_balanced
  vortex_kernel_set_args_balanced other_ops_balanced

lemma vx_step_balanced:
  assumes "vx_step vx nw junk x w = Some w'" "balanced w" "vx_handles_ok vx" "args_alloc_ok vx"
  shows "balanced w'"
  using assms by (cases x) (auto dest: op_balanced)

lemma vx_run_balanced:
  assumes "vx_run vx nw junk xs w = Some w'" "balanced w" "vx_handles_ok vx" "args_alloc_ok vx"
  shows "balanced w'"
  using assms
  by (induction xs arbitrary: w) (auto split: option.split_asm dest: vx_step_balanced)

lemma balanced_start [simp]: "balanced (vx_start m)"
  by (simp add: vx_start_def balanced_def owned_def)


text \<open>A SDK that names a buffer by its size and refuses allocations above a megabyte.\<close>

definition demo_vx :: vx where
  "demo_vx l c =
     (case c of
        Vx_Mem_Alloc d s f \<Rightarrow>
          \<lparr>va_ret = (if f = VX_MEM_READ_WRITE \<and> 0x100000 < s then -1 else 0), va_out = (if s = 0 then 1 else s), va_data = []\<rparr>
      | Vx_Upload_Kernel_Bytes d b \<Rightarrow> \<lparr>va_ret = 0, va_out = 0x5000, va_data = []\<rparr>
      | Vx_Mem_Address h \<Rightarrow> \<lparr>va_ret = 0, va_out = 0x1000 * h, va_data = []\<rparr>
      | _ \<Rightarrow> \<lparr>va_ret = 0, va_out = 7, va_data = []\<rparr>)"


definition demo_new :: vx_new where
  "demo_new h = (if h 0x10 = None then 0x10 else if h 0x20 = None then 0x20 else 0x30)"

definition demo_ops :: "vx_op list" where
  "demo_ops =
     [Op_Init None, Op_Malloc 0x10 64, Op_Kernel_Load 0x10 [1, 2, 3],
      Op_Set_Args 0x30 [\<lparr>ka_host_ptr = 0x20, ka_size = 8, ka_alignment = 8, ka_type = VORTEX_ARG_BUFFER\<rparr>],
      Op_Launch 0x10 0x30, Op_Free 0x20, Op_Malloc 0x10 0x200000, Op_Unload 0x30]"

lemma demo_vx_ok: "vx_handles_ok demo_vx" "args_alloc_ok demo_vx"
proof -
  show "vx_handles_ok demo_vx" by (simp add: vx_handles_ok_def demo_vx_def)
  show "args_alloc_ok demo_vx" by (simp add: args_alloc_ok_def demo_vx_def VX_MEM_READ_def VX_MEM_READ_WRITE_def)
qed

lemma demo_run: "vx_run demo_vx demo_new 0 demo_ops (vx_start (\<lambda>_. 0)) \<noteq> None"
  by (simp add: demo_ops_def vx_start_def vortex_device_init_def vortex_malloc_def vortex_kernel_load_def
      vortex_kernel_set_args_def vortex_kernel_launch_def vortex_free_def vortex_kernel_unload_def
      query_caps_def query_cap_def vx_do_def demo_vx_def new_object_def demo_new_def put_object_def
      delete_object_def device_at_def buffer_at_def kernel_at_def free_if_set_def args_total_def align_arg_def
      arg_bytes_def splice_def Let_def VX_MEM_READ_def VX_MEM_READ_WRITE_def)


section \<open>A refused argument buffer\<close>

definition frees :: "u64 \<Rightarrow> vx_log \<Rightarrow> nat" where
  "frees h l = length (filter (\<lambda>e. fst e = Vx_Mem_Free h) l)"

lemma frees_Cons [simp]: "frees h ((c, r) # l) = frees h l + (if c = Vx_Mem_Free h then 1 else 0)"
  by (simp add: frees_def)

lemma frees_free_if_set [simp]:
  "h \<noteq> 0 \<Longrightarrow> frees h (vw_log (free_if_set vx g w)) = frees h (vw_log w) + (if g = h then 1 else 0)"
  by (auto simp: free_if_set_def)

text \<open>When the SDK refuses the new argument buffer, \<open>vortex_kernel_set_args\<close> has freed the old one and
  leaves its handle in the kernel: unloading the kernel frees the same buffer again.
\<close>

theorem refused_args_freed_twice:
  assumes k: "kernel_at w krn = Some k" "krn \<noteq> 0" "vk_args_buffer k = h" "h \<noteq> 0" "h \<noteq> vk_kernel_buffer k"
    and d: "device_at w (vk_device k) = Some d" and a: "as \<noteq> []"
    and refused: "\<And>l s. va_ret (vx l (Vx_Mem_Alloc (vd_dev d) s VX_MEM_READ)) \<noteq> 0"
  shows "\<exists>w1 w2. vortex_kernel_set_args vx krn (Some as) w = Some (VORTEX_ERROR_MEMORY, w1) \<and>
           vortex_kernel_unload vx krn w1 = Some (VORTEX_SUCCESS, w2) \<and>
           frees h (vw_log w2) = frees h (vw_log w) + 2"
proof -
  have r: "va_ret (fst (vx_do vx (Vx_Mem_Alloc (vd_dev d) s VX_MEM_READ) v)) \<noteq> 0" for s v
    using refused by (simp add: vx_do_def Let_def)
  define w1 where "w1 = put_object krn (Kernel (k\<lparr>vk_args := as\<rparr>))
    (snd (vx_do vx (Vx_Mem_Alloc (vd_dev d) (args_total as) VX_MEM_READ) (free_if_set vx h w)))"
  have s: "vortex_kernel_set_args vx krn (Some as) w = Some (VORTEX_ERROR_MEMORY, w1)"
    using k d a r by (simp add: vortex_kernel_set_args_def vx_do_case w1_def)
  have "kernel_at w1 krn = Some (k\<lparr>vk_args := as\<rparr>)" by (simp add: at_objects w1_def)
  moreover have "frees h (vw_log w1) = frees h (vw_log w) + 1" using k by (simp add: w1_def)
  ultimately show ?thesis using s k by (simp add: vortex_kernel_unload_def)
qed

definition refusing_vx :: vx where
  "refusing_vx l c = \<lparr>va_ret = (case c of Vx_Mem_Alloc _ _ _ \<Rightarrow> -1 | _ \<Rightarrow> 0), va_out = 0, va_data = []\<rparr>"

definition demo_device :: vortex_device where
  "demo_device = \<lparr>vd_dev = 7, vd_caps = \<lparr>dc_num_cores = 1, dc_num_warps_per_core = 4, dc_num_threads_per_warp = 4,
     dc_global_mem_size = 0x100000, dc_local_mem_size = 0x4000, dc_cache_line_size = 64, dc_isa_flags = 0\<rparr>,
     vd_initialized = True, vd_debug_enabled = False, vd_perf_counters = []\<rparr>"

definition demo_vkernel :: vortex_kernel where
  "demo_vkernel = \<lparr>vk_device = 0x10, vk_kernel_buffer = 3, vk_args_buffer = 5, vk_kernel_addr = 0,
     vk_args_addr = 0, vk_args = []\<rparr>"

definition demo_world :: vx_world where
  "demo_world = \<lparr>vw_log = [],
     vw_heap = [0x10 \<mapsto> Device demo_device,
                0x20 \<mapsto> Kernel demo_vkernel,
                0x30 \<mapsto> Buffer \<lparr>vb_buf = 9, vb_device = 0x10, vb_dev_addr = 0x9000, vb_size = 64\<rparr>],
     vw_mem = (\<lambda>a. ucast a)\<rparr>"

lemma refused_args_freed_twice_witness:
  "\<exists>w1 w2. vortex_kernel_set_args refusing_vx 0x20 (Some [\<lparr>ka_host_ptr = 0x30, ka_size = 8, ka_alignment = 8,
             ka_type = VORTEX_ARG_BUFFER\<rparr>]) demo_world = Some (VORTEX_ERROR_MEMORY, w1) \<and>
           vortex_kernel_unload refusing_vx 0x20 w1 = Some (VORTEX_SUCCESS, w2) \<and>
           frees 5 (vw_log w2) = frees 5 (vw_log demo_world) + 2"
  by (rule refused_args_freed_twice [where k = demo_vkernel and d = demo_device])
    (simp_all add: kernel_at_def device_at_def demo_world_def demo_vkernel_def refusing_vx_def)

section \<open>Packed arguments\<close>

text \<open>Argument bytes padded to the next multiple of eight.\<close>

definition pad8 :: "nat \<Rightarrow> nat" where "pad8 n = 8 * ((n + 7) div 8)"

definition padded :: "u8 list \<Rightarrow> u8 list" where
  "padded bs = bs @ replicate (pad8 (length bs) - length bs) 0"

lemma pad8_ge: "n \<le> pad8 n"
  by (simp add: pad8_def)

lemma pad8_add: "pad8 (pad8 m + n) = pad8 m + pad8 n"
proof -
  have "8 * ((m + 7) div 8) + n + 7 = (n + 7) + 8 * ((m + 7) div 8)" by simp
  then show ?thesis by (simp only: pad8_def div_mult_self2 distrib_left)
qed

lemma length_padded [simp]: "length (padded bs) = pad8 (length bs)"
  using pad8_ge [of "length bs"] by (simp add: padded_def)

lemma unat_push_drop_3: "unat (push_bit 3 (drop_bit 3 (v :: u64))) = 8 * (unat v div 8)"
proof -
  have "unat (push_bit 3 (drop_bit 3 v)) = take_bit 64 (push_bit 3 (drop_bit 3 (unat v)))"
    using unat_lt_u64 [of v] by (simp only: unsigned_push_bit_eq unsigned_drop_bit_eq) (simp add: take_bit_nat_eq_self)
  moreover have "8 * (unat v div 8) < 2 ^ 64" using unat_lt_u64 [of v] by simp
  ultimately show ?thesis by (simp add: push_bit_eq_mult drop_bit_eq_div mult.commute take_bit_nat_eq_self)
qed

lemma unat_align_arg_8:
  assumes "unat v + 7 < 2 ^ 32"
  shows "unat (align_arg v 8) = pad8 (unat v)"
proof -
  have v: "unat (v + 7) = unat v + 7"
    using assms by (subst unat_add_lem [THEN iffD1]) auto
  have m: "(ucast (NOT (8 - 1 :: u32)) :: u64) = mask 32 AND NOT (mask 3)" by (simp add: mask_eq_exp_minus_1)
  have e: "v + ucast (8 :: u32) - 1 = v + 7" by simp
  have "align_arg v 8 = ((v + 7) AND mask 32) AND NOT (mask 3)"
    unfolding align_arg_def m e by (simp only: and.assoc)
  also have "(v + 7) AND mask 32 = v + 7"
    using assms v by (intro less_mask_eq) (simp add: word_less_nat_alt)
  finally have "align_arg v 8 = push_bit 3 (drop_bit 3 (v + 7))" by (simp add: and_not_mask)
  then show ?thesis using v by (simp only: unat_push_drop_3 pad8_def)
qed


text \<open>Arguments of alignment 8, each a value or the address of a live buffer.\<close>

definition arg_ok :: "vx_world \<Rightarrow> kernel_arg \<Rightarrow> bool" where
  "arg_ok w a \<longleftrightarrow> ka_alignment a = 8 \<and>
     (ka_type a = VORTEX_ARG_VALUE \<or>
      ka_type a = VORTEX_ARG_BUFFER \<and> ka_size a = 8 \<and> buffer_at w (ka_host_ptr a) \<noteq> None)"

abbreviation args_room :: "kernel_arg list \<Rightarrow> nat" where
  "args_room as \<equiv> (\<Sum>a\<leftarrow>as. pad8 (unat (ka_size a)))"

lemma arg_bytes_ok:
  assumes "arg_ok w a"
  obtains bs where "arg_bytes w a = Some bs" "length bs = unat (ka_size a)"
  using assms by (auto simp: arg_ok_def arg_bytes_def)

lemma splice_fits:
  assumes "unat off = length pre" "length bs \<le> n"
  shows "splice (pre @ replicate n 0) off bs = Some (pre @ bs @ replicate (n - length bs) 0)"
  using assms by (simp add: splice_def drop_replicate)

lemma pack_args_layout:
  assumes "\<forall>a\<in>set as. arg_ok w a" "length pre = pad8 (unat off)" "length pre + args_room as + 7 < 2 ^ 32"
  shows "pack_args w as off (pre @ replicate (args_room as) 0) =
           Some (pre @ concat (map (padded \<circ> the \<circ> arg_bytes w) as))"
  using assms
proof (induction as arbitrary: off pre)
  case Nil
  then show ?case by simp
next
  case (Cons a as)
  from Cons.prems(1) obtain bs where bs: "arg_bytes w a = Some bs" "length bs = unat (ka_size a)"
    by (auto elim: arg_bytes_ok)
  have ty: "ka_alignment a = 8" "ka_type a \<noteq> VORTEX_ARG_LOCAL"
    using Cons.prems(1) by (auto simp: arg_ok_def)
  have "unat off + 7 < 2 ^ 32" using Cons.prems(2,3) pad8_ge [of "unat off"] by simp
  then have off: "unat (align_arg off 8) = length pre" using Cons.prems(2) by (simp add: unat_align_arg_8)
  have le: "length bs \<le> args_room (a # as)" using bs pad8_ge [of "length bs"] by simp
  have room: "replicate (args_room (a # as) - length bs) 0 =
      replicate (pad8 (length bs) - length bs) 0 @ replicate (args_room as) 0"
    using bs pad8_ge [of "length bs"] by (simp flip: replicate_add)
  have spl: "splice (pre @ replicate (args_room (a # as)) 0) (align_arg off 8) bs =
      Some ((pre @ padded bs) @ replicate (args_room as) 0)"
    unfolding splice_fits [OF off le] room by (simp add: padded_def)
  have "unat (align_arg off 8 + ka_size a) = length pre + length bs"
    using off bs Cons.prems(3) pad8_ge [of "length bs"]
    by (subst unat_add_lem [THEN iffD1]) auto
  then have "length (pre @ padded bs) = pad8 (unat (align_arg off 8 + ka_size a))"
    using Cons.prems(2) pad8_add [of "unat off" "length bs"] by simp
  then have "pack_args w as (align_arg off 8 + ka_size a) ((pre @ padded bs) @ replicate (args_room as) 0) =
      Some ((pre @ padded bs) @ concat (map (padded \<circ> the \<circ> arg_bytes w) as))"
    using Cons.prems bs by (intro Cons.IH) auto
  then show ?case using bs ty spl by (simp add: Let_def comp_def)
qed

lemma foldl_args_total:
  assumes "\<forall>a\<in>set as. ka_alignment a = 8" "unat s + args_room as + 7 < 2 ^ 32"
  shows "unat (foldl (\<lambda>acc a. acc + align_arg (ka_size a) (ka_alignment a)) s as) = unat s + args_room as"
  using assms
proof (induction as arbitrary: s)
  case Nil
  then show ?case by simp
next
  case (Cons a as)
  have "unat (align_arg (ka_size a) 8) = pad8 (unat (ka_size a))"
    using Cons.prems(2) pad8_ge [of "unat (ka_size a)"] by (intro unat_align_arg_8) simp
  then have "unat (s + align_arg (ka_size a) 8) = unat s + pad8 (unat (ka_size a))"
    using Cons.prems(2) by (subst unat_add_lem [THEN iffD1]) auto
  then show ?case using Cons.prems by (simp add: Cons.IH)
qed

lemma unat_args_total:
  "\<forall>a\<in>set as. arg_ok w a \<Longrightarrow> args_room as + 7 < 2 ^ 32 \<Longrightarrow> unat (args_total as) = args_room as"
  using foldl_args_total [of as 0] by (simp add: args_total_def arg_ok_def)

text \<open>C25
  Arguments of the default alignment are packed inside the argument buffer, in order, each padded to
  eight bytes: values as they lie in memory, buffers as the device address.
\<close>

theorem aligned_args_layout:
  assumes "\<forall>a\<in>set as. arg_ok w a" "args_room as + 7 < 2 ^ 32"
  shows "pack_args w as 0 (replicate (unat (args_total as)) 0) = Some (concat (map (padded \<circ> the \<circ> arg_bytes w) as))"
  using pack_args_layout [of as w "[]" 0] assms by (simp add: unat_args_total pad8_def)

definition demo_args :: "kernel_arg list" where
  "demo_args = [\<lparr>ka_host_ptr = 0x100, ka_size = 3, ka_alignment = 8, ka_type = VORTEX_ARG_VALUE\<rparr>,
                \<lparr>ka_host_ptr = 0x30, ka_size = 8, ka_alignment = 8, ka_type = VORTEX_ARG_BUFFER\<rparr>]"

lemma aligned_args_layout_witness:
  "pack_args demo_world demo_args 0 (replicate (unat (args_total demo_args)) 0) =
     Some (concat (map (padded \<circ> the \<circ> arg_bytes demo_world) demo_args)) \<and>
   concat (map (padded \<circ> the \<circ> arg_bytes demo_world) demo_args) =
     [0, 1, 2] @ replicate 5 0 @ [0, 0x90, 0, 0, 0, 0, 0, 0]"
proof
  show "pack_args demo_world demo_args 0 (replicate (unat (args_total demo_args)) 0) =
     Some (concat (map (padded \<circ> the \<circ> arg_bytes demo_world) demo_args))"
    by (rule aligned_args_layout) (simp_all add: demo_args_def arg_ok_def buffer_at_def demo_world_def pad8_def)
qed (simp add: demo_args_def arg_bytes_def buffer_at_def demo_world_def padded_def pad8_def read_bytes_def le_bytes_def upt_rec)

lemma ucast_max_u32: "(ucast (- 1 :: u32) :: u64) = 0xFFFFFFFF"
  by (simp add: unsigned_minus_1_eq_mask mask_eq_exp_minus_1)

text \<open>
  With other alignments the size summed up front is not the size packed: a byte followed by a word
  of alignment 8 gets nine bytes and is written up to the sixteenth, past the end of the vector.
\<close>

theorem mixed_alignment_overflows:
  assumes "kernel_at w krn = Some k" "krn \<noteq> 0" "device_at w (vk_device k) = Some d"
    and "va_ret (fst (vx_do vx (Vx_Mem_Alloc (vd_dev d) 9 VX_MEM_READ) (free_if_set vx (vk_args_buffer k) w))) = 0"
    and "\<And>h v. va_ret (fst (vx_do vx (Vx_Mem_Address h) v)) = 0"
  shows "vortex_kernel_set_args vx krn
     (Some [\<lparr>ka_host_ptr = p, ka_size = 1, ka_alignment = 1, ka_type = VORTEX_ARG_VALUE\<rparr>,
            \<lparr>ka_host_ptr = q, ka_size = 8, ka_alignment = 8, ka_type = VORTEX_ARG_VALUE\<rparr>]) w = None"
  using assms by (simp add: vortex_kernel_set_args_def vx_do_case args_total_def align_arg_def arg_bytes_def
      splice_def ucast_max_u32 Let_def)

lemma mixed_alignment_overflows_witness:
  "vortex_kernel_set_args demo_vx 0x20
     (Some [\<lparr>ka_host_ptr = 0x100, ka_size = 1, ka_alignment = 1, ka_type = VORTEX_ARG_VALUE\<rparr>,
            \<lparr>ka_host_ptr = 0x108, ka_size = 8, ka_alignment = 8, ka_type = VORTEX_ARG_VALUE\<rparr>]) demo_world = None"
  by (rule mixed_alignment_overflows [where k = demo_vkernel and d = demo_device])
    (simp_all add: kernel_at_def device_at_def demo_world_def demo_vkernel_def demo_vx_def vx_do_def Let_def
      VX_MEM_READ_def VX_MEM_READ_WRITE_def)

section \<open>Copies\<close>

text \<open>What the log has put into a buffer of the device, and the SDK giving it back.\<close>

fun dev_bytes :: "vx_log \<Rightarrow> u64 \<Rightarrow> nat \<Rightarrow> u8" where
  "dev_bytes [] h i = 0"
| "dev_bytes ((c, r) # l) h i =
     (case c of
        Vx_Copy_To_Dev g bs off \<Rightarrow>
          if va_ret r = 0 \<and> g = h \<and> unat off \<le> i \<and> i < unat off + length bs then bs ! (i - unat off) else dev_bytes l h i
      | _ \<Rightarrow> dev_bytes l h i)"

definition vx_copies_ok :: "vx \<Rightarrow> bool" where
  "vx_copies_ok vx \<longleftrightarrow>
     (\<forall>l h off n. va_ret (vx l (Vx_Copy_From_Dev h off n)) = 0 \<longrightarrow>
        va_data (vx l (Vx_Copy_From_Dev h off n)) = map (dev_bytes l h) [unat off..<unat off + unat n])"

text \<open>Bytes copied into a device buffer are the bytes copied out of the same place.\<close>

theorem device_copy_roundtrip:
  assumes vx: "vx_copies_ok vx"
    and put: "vortex_memcpy_offset vx b off src n VORTEX_MEMCPY_HOST_TO_DEVICE w = Some (VORTEX_SUCCESS, w1)"
    and get: "vortex_memcpy_offset vx b off dst n VORTEX_MEMCPY_DEVICE_TO_HOST w1 = Some (VORTEX_SUCCESS, w2)"
  shows "read_bytes (vw_mem w2) dst (unat n) = read_bytes (vw_mem w) src (unat n)"
proof -
  define bs where "bs = read_bytes (vw_mem w) src (unat n)"
  have len: "length bs = unat n" by (simp add: bs_def)
  from put obtain buf where b: "b \<noteq> 0" "buffer_at w b = Some buf"
    and w1: "copy_to_dev vx (vb_buf buf) src off n w = (VORTEX_SUCCESS, w1)"
    by (auto simp: vortex_memcpy_offset_def bind_eq_Some_conv if_eq_cases)
  from w1 obtain r where "va_ret r = 0"
    and log1: "vw_log w1 = (Vx_Copy_To_Dev (vb_buf buf) bs off, r) # vw_log w" "vw_heap w1 = vw_heap w"
    by (auto simp: copy_to_dev_def bs_def vx_do_case if_eq_cases)
  then have dev: "map (dev_bytes (vw_log w1) (vb_buf buf)) [unat off..<unat off + unat n] = bs"
    by (intro nth_equalityI) (simp_all add: len)
  have "buffer_at w1 b = Some buf" using b log1 by (simp add: at_objects)
  then have c: "copy_from_dev vx (vb_buf buf) dst off n w1 = (VORTEX_SUCCESS, w2)"
    using get b by (auto simp: vortex_memcpy_offset_def if_eq_cases)
  define a where "a = vx (vw_log w1) (Vx_Copy_From_Dev (vb_buf buf) off n)"
  from c have "va_ret a = 0" and w2: "vw_mem w2 = write_bytes (vw_mem w1) dst (take (unat n) (va_data a))"
    by (auto simp: copy_from_dev_def vx_do_def a_def Let_def if_eq_cases)
  then have "va_data a = bs" using vx dev by (simp add: vx_copies_ok_def a_def)
  then have "read_bytes (vw_mem w2) dst (length bs) = bs"
    using w2 len unat_lt_u64 [of n] read_write_same [of bs "vw_mem w1" dst] by simp
  then show ?thesis by (simp add: len bs_def)
qed

definition replay_vx :: vx where
  "replay_vx l c =
     (case c of
        Vx_Copy_From_Dev h off n \<Rightarrow>
          \<lparr>va_ret = 0, va_out = 0, va_data = map (dev_bytes l h) [unat off..<unat off + unat n]\<rparr>
      | _ \<Rightarrow> \<lparr>va_ret = 0, va_out = 1, va_data = []\<rparr>)"

definition demo_put :: vx_world where
  "demo_put = snd (copy_to_dev replay_vx 9 0x100 8 16 demo_world)"

definition demo_got :: vx_world where
  "demo_got = snd (copy_from_dev replay_vx 9 0x200 8 16 demo_put)"

lemma device_copy_roundtrip_witness:
  "read_bytes (vw_mem demo_got) 0x200 (unat (16 :: u64)) = read_bytes (vw_mem demo_world) 0x100 (unat (16 :: u64))"
proof (rule device_copy_roundtrip)
  show "vx_copies_ok replay_vx" by (simp add: vx_copies_ok_def replay_vx_def)
  show "vortex_memcpy_offset replay_vx 0x30 8 0x100 16 VORTEX_MEMCPY_HOST_TO_DEVICE demo_world = Some (VORTEX_SUCCESS, demo_put)"
    by (simp add: vortex_memcpy_offset_def buffer_at_def demo_world_def demo_put_def copy_to_dev_def vx_do_def
        replay_vx_def Let_def)
  show "vortex_memcpy_offset replay_vx 0x30 8 0x200 16 VORTEX_MEMCPY_DEVICE_TO_HOST demo_put = Some (VORTEX_SUCCESS, demo_got)"
    by (simp add: vortex_memcpy_offset_def buffer_at_def demo_got_def demo_put_def demo_world_def copy_to_dev_def
        copy_from_dev_def vx_do_def replay_vx_def Let_def)
qed

text \<open>
  The range check adds in 64 bits: an offset just below 2^64 passes it, and the copy goes to the SDK
  with that offset.
\<close>

lemma offset_check_wraps:
  assumes "buffer_at w b = Some buf" "b \<noteq> 0" "src \<noteq> 0" "8 \<le> vb_size buf"
  shows "vortex_memcpy_offset vx b (- 8) src 16 VORTEX_MEMCPY_HOST_TO_DEVICE w =
           Some (copy_to_dev vx (vb_buf buf) src (- 8) 16 w)"
  using assms by (auto simp: vortex_memcpy_offset_def dest: leD)

text \<open>Nothing writes the performance counters: a device made by the library never finds one.\<close>

definition no_counters :: "(addr \<rightharpoonup> vx_object) \<Rightarrow> bool" where
  "no_counters h \<longleftrightarrow> (\<forall>a d. h a = Some (Device d) \<longrightarrow> vd_perf_counters d = [])"

lemma no_counters_upd:
  "no_counters h \<Longrightarrow> (\<And>d. x = Device d \<Longrightarrow> vd_perf_counters d = []) \<Longrightarrow> no_counters (h(a \<mapsto> x))"
  "no_counters h \<Longrightarrow> no_counters (h(a := None))"
  by (auto simp: no_counters_def)

lemma no_countersD: "no_counters h \<Longrightarrow> h a = Some (Device d) \<Longrightarrow> vd_perf_counters d = []"
  by (auto simp: no_counters_def)

lemma copies_heap:
  "copy_to_dev vx h src off sz w = (rc, w') \<Longrightarrow> vw_heap w' = vw_heap w"
  "copy_from_dev vx h dst off sz w = (rc, w') \<Longrightarrow> vw_heap w' = vw_heap w"
  by (auto simp: copy_to_dev_def copy_from_dev_def vx_do_case if_eq_cases)

lemma memcpy_heap:
  "vortex_memcpy vx dst src sz kind w = Some (rc, w') \<Longrightarrow> vw_heap w' = vw_heap w"
  "vortex_memcpy_offset vx buf off src sz kind w = Some (rc, w') \<Longrightarrow> vw_heap w' = vw_heap w"
  by (cases kind; auto simp: vortex_memcpy_def vortex_memcpy_offset_def bind_eq_Some_conv if_eq_cases dest: copies_heap)+

lemma set_debug_no_counters:
  assumes "vortex_device_set_debug d n w = Some (rc, w')" "no_counters (vw_heap w)"
  shows "no_counters (vw_heap w')"
proof (cases "d = 0")
  case False
  with assms(1) obtain dev where d: "vw_heap w d = Some (Device dev)"
    and w': "w' = put_object d (Device (dev\<lparr>vd_debug_enabled := n \<noteq> 0\<rparr>)) w"
    by (auto simp: vortex_device_set_debug_def bind_eq_Some_conv at_objects)
  have "vd_perf_counters dev = []" by (rule no_countersD [OF assms(2) d])
  then show ?thesis using assms(2) w' by (auto intro!: no_counters_upd)
qed (use assms in \<open>simp add: vortex_device_set_debug_def\<close>)

lemma vx_step_no_counters:
  assumes "vx_step vx nw junk x w = Some w'" "no_counters (vw_heap w)"
  shows "no_counters (vw_heap w')"
proof (cases "\<exists>d n. x = Op_Set_Debug d n")
  case True
  then show ?thesis using assms by (auto dest: set_debug_no_counters)
next
  case False
  then show ?thesis
    using assms
    by (cases x)
      (auto simp: vortex_device_init_def vortex_device_destroy_def vortex_malloc_def vortex_free_def
        vortex_kernel_load_def vortex_kernel_set_args_def vortex_kernel_unload_def vortex_kernel_launch_def
        vortex_device_wait_def bind_eq_Some_conv at_objects Let_def vx_do_case if_eq_cases case_prod_beta
        intro!: no_counters_upd dest: memcpy_heap split: option.split_asm)
qed

lemma vx_run_no_counters:
  "vx_run vx nw junk xs w = Some w' \<Longrightarrow> no_counters (vw_heap w) \<Longrightarrow> no_counters (vw_heap w')"
  by (induction xs arbitrary: w) (auto split: option.split_asm dest: vx_step_no_counters)

lemma perf_counter_never_found:
  assumes "vx_run vx nw junk ops (vx_start m) = Some w" "device_at w d = Some dev" "d \<noteq> 0"
  shows "vortex_device_get_perf_counter d (Some name) True w = Some (VORTEX_ERROR_INVALID, None)"
proof -
  have "no_counters (vw_heap w)"
    using vx_run_no_counters [OF assms(1)] by (simp add: vx_start_def no_counters_def)
  then have "vd_perf_counters dev = []" using assms(2) by (auto simp: at_objects dest: no_countersD)
  then show ?thesis using assms by (simp add: vortex_device_get_perf_counter_def)
qed

end
