(* ===== verification/Vortex_Backend.thy ===== *)
theory Vortex_Backend
  imports Vortex_Device "HOL-Library.AList"
begin

text \<open>
  The offload backend of \<^verbatim>\<open>runtime/vortex_offload_backend.cpp\<close>: it gives out numbers for device
  buffers and kernels, keeps their handles in two maps (association lists: the order of the code's
  hash maps is not specified) and calls the device library. A result is the value returned, the
  backend and the state of the library; \<open>None\<close> is undefined behaviour of the library below.
\<close>

fun rc_int :: "vortex_rc \<Rightarrow> int" where
  "rc_int VORTEX_SUCCESS = 0"
| "rc_int VORTEX_ERROR_INIT = -1"
| "rc_int VORTEX_ERROR_MEMORY = -2"
| "rc_int VORTEX_ERROR_KERNEL = -3"
| "rc_int VORTEX_ERROR_LAUNCH = -4"
| "rc_int VORTEX_ERROR_TIMEOUT = -5"
| "rc_int VORTEX_ERROR_INVALID = -6"

record vx_backend =
  bk_device :: addr
  bk_buffer_map :: "(u64 \<times> addr) list"
  bk_kernel_map :: "(u64 \<times> addr) list"
  bk_next_buffer_id :: u64
  bk_next_kernel_id :: u64
  bk_initialized :: bool

definition new_backend :: vx_backend where
  "new_backend = \<lparr>bk_device = 0, bk_buffer_map = [], bk_kernel_map = [], bk_next_buffer_id = 1,
     bk_next_kernel_id = 1, bk_initialized = False\<rparr>"

section \<open>Lifetime\<close>

definition initialize ::
  "vx \<Rightarrow> vx_new \<Rightarrow> u64 \<Rightarrow> string option \<Rightarrow> vx_backend \<Rightarrow> vx_world \<Rightarrow> (int \<times> vx_backend \<times> vx_world) option" where
  "initialize vx nw junk sim_path b w =
     (if bk_initialized b then Some (-1, b, w)
      else do {
        (rc, out, w1) \<leftarrow> vortex_device_init vx nw junk True sim_path w;
        let b1 = b\<lparr>bk_device := (case out of None \<Rightarrow> bk_device b | Some a \<Rightarrow> a)\<rparr>;
        Some (if rc \<noteq> VORTEX_SUCCESS then (rc_int rc, b1, w1) else (0, b1\<lparr>bk_initialized := True\<rparr>, w1))
      })"

text \<open>A destructor loop: the same release for every handle of a map.\<close>

fun destroy_all ::
  "(addr \<Rightarrow> vx_world \<Rightarrow> (vortex_rc \<times> vx_world) option) \<Rightarrow> (u64 \<times> addr) list \<Rightarrow> vx_world \<Rightarrow> vx_world option" where
  "destroy_all rel [] w = Some w"
| "destroy_all rel (kv # kvs) w =
     (case rel (snd kv) w of None \<Rightarrow> None | Some (_, w1) \<Rightarrow> destroy_all rel kvs w1)"

definition delete_backend :: "vx \<Rightarrow> vx_backend \<Rightarrow> vx_world \<Rightarrow> vx_world option" where
  "delete_backend vx b w =
     do {
       w1 \<leftarrow> destroy_all (vortex_kernel_unload vx) (bk_kernel_map b) w;
       w2 \<leftarrow> destroy_all (vortex_free vx) (bk_buffer_map b) w1;
       if bk_initialized b then map_option snd (vortex_device_destroy vx (bk_device b) w2) else Some w2
     }"

section \<open>Buffers\<close>

definition allocate_device_memory ::
  "vx \<Rightarrow> vx_new \<Rightarrow> u64 \<Rightarrow> vx_backend \<Rightarrow> vx_world \<Rightarrow> (u64 \<times> vx_backend \<times> vx_world) option" where
  "allocate_device_memory vx nw sz b w =
     (if \<not> bk_initialized b then Some (0, b, w)
      else do {
        (rc, out, w1) \<leftarrow> vortex_malloc vx nw (bk_device b) True sz w;
        if rc \<noteq> VORTEX_SUCCESS then Some (0, b, w1)
        else let i = bk_next_buffer_id b in
          Some (i, b\<lparr>bk_next_buffer_id := i + 1, bk_buffer_map := AList.update i (the out) (bk_buffer_map b)\<rparr>, w1)
      })"

definition free_device_memory ::
  "vx \<Rightarrow> u64 \<Rightarrow> vx_backend \<Rightarrow> vx_world \<Rightarrow> (int \<times> vx_backend \<times> vx_world) option" where
  "free_device_memory vx i b w =
     (case map_of (bk_buffer_map b) i of
        None \<Rightarrow> Some (-1, b, w)
      | Some a \<Rightarrow> do {
          (_, w1) \<leftarrow> vortex_free vx a w;
          Some (0, b\<lparr>bk_buffer_map := AList.delete i (bk_buffer_map b)\<rparr>, w1)
        })"

definition host_to_device ::
  "vx \<Rightarrow> u64 \<Rightarrow> addr \<Rightarrow> u64 \<Rightarrow> u64 \<Rightarrow> vx_backend \<Rightarrow> vx_world \<Rightarrow> (int \<times> vx_world) option" where
  "host_to_device vx i host_data offset sz b w =
     (case map_of (bk_buffer_map b) i of
        None \<Rightarrow> Some (-1, w)
      | Some a \<Rightarrow> map_option (apfst rc_int)
          (vortex_memcpy_offset vx a offset host_data sz VORTEX_MEMCPY_HOST_TO_DEVICE w))"

definition device_to_host ::
  "vx \<Rightarrow> addr \<Rightarrow> u64 \<Rightarrow> u64 \<Rightarrow> u64 \<Rightarrow> vx_backend \<Rightarrow> vx_world \<Rightarrow> (int \<times> vx_world) option" where
  "device_to_host vx host_data i offset sz b w =
     (case map_of (bk_buffer_map b) i of
        None \<Rightarrow> Some (-1, w)
      | Some a \<Rightarrow> map_option (apfst rc_int)
          (vortex_memcpy_offset vx a offset host_data sz VORTEX_MEMCPY_DEVICE_TO_HOST w))"

section \<open>Kernels\<close>

text \<open>The part both ways of loading share: number the kernel and keep its handle.\<close>

definition add_kernel :: "vortex_rc \<Rightarrow> addr option \<Rightarrow> vx_backend \<Rightarrow> vx_world \<Rightarrow> u64 \<times> vx_backend \<times> vx_world" where
  "add_kernel rc out b w =
     (if rc \<noteq> VORTEX_SUCCESS then (0, b, w)
      else let i = bk_next_kernel_id b in
        (i, b\<lparr>bk_next_kernel_id := i + 1, bk_kernel_map := AList.update i (the out) (bk_kernel_map b)\<rparr>, w))"

definition load_kernel ::
  "vx \<Rightarrow> vx_new \<Rightarrow> u8 list option \<Rightarrow> vx_backend \<Rightarrow> vx_world \<Rightarrow> (u64 \<times> vx_backend \<times> vx_world) option" where
  "load_kernel vx nw binary b w =
     (if \<not> bk_initialized b then Some (0, b, w)
      else do {
        (rc, out, w1) \<leftarrow> vortex_kernel_load vx nw (bk_device b) True binary w;
        Some (add_kernel rc out b w1)
      })"

definition load_kernel_from_file ::
  "vx \<Rightarrow> vx_new \<Rightarrow> file_sys \<Rightarrow> string option \<Rightarrow> vx_backend \<Rightarrow> vx_world
     \<Rightarrow> (u64 \<times> os_call list \<times> vx_backend \<times> vx_world) option" where
  "load_kernel_from_file vx nw fs path b w =
     (if \<not> bk_initialized b then Some (0, [], b, w)
      else do {
        (rc, out, cs, w1) \<leftarrow> vortex_kernel_load_file vx nw fs (bk_device b) True path w;
        case add_kernel rc out b w1 of (i, b1, w2) \<Rightarrow> Some (i, cs, b1, w2)
      })"

text \<open>Arguments come as pointers with sizes; one of pointer size is taken for a buffer handle.\<close>

definition backend_arg :: "addr \<times> u64 \<Rightarrow> kernel_arg" where
  "backend_arg a = \<lparr>ka_host_ptr = fst a, ka_size = snd a, ka_alignment = 8,
     ka_type = (if snd a = 8 then VORTEX_ARG_BUFFER else VORTEX_ARG_VALUE)\<rparr>"

definition set_kernel_arguments ::
  "vx \<Rightarrow> u64 \<Rightarrow> (addr \<times> u64) list \<Rightarrow> vx_backend \<Rightarrow> vx_world \<Rightarrow> (int \<times> vx_world) option" where
  "set_kernel_arguments vx i args b w =
     (case map_of (bk_kernel_map b) i of
        None \<Rightarrow> Some (-1, w)
      | Some a \<Rightarrow> map_option (apfst rc_int) (vortex_kernel_set_args vx a (Some (map backend_arg args)) w))"

definition launch_kernel :: "vx \<Rightarrow> u64 \<Rightarrow> vx_backend \<Rightarrow> vx_world \<Rightarrow> (int \<times> vx_world) option" where
  "launch_kernel vx i b w =
     (case map_of (bk_kernel_map b) i of
        None \<Rightarrow> Some (-1, w)
      | Some a \<Rightarrow> map_option (apfst rc_int) (vortex_kernel_launch vx (bk_device b) a True w))"

definition synchronize :: "vx \<Rightarrow> vx_backend \<Rightarrow> vx_world \<Rightarrow> (int \<times> vx_world) option" where
  "synchronize vx b w =
     (if \<not> bk_initialized b then Some (-1, w)
      else map_option (apfst rc_int) (vortex_device_synchronize vx (bk_device b) w))"

definition no_caps :: device_caps where
  "no_caps = \<lparr>dc_num_cores = 0, dc_num_warps_per_core = 0, dc_num_threads_per_warp = 0, dc_global_mem_size = 0,
     dc_local_mem_size = 0, dc_cache_line_size = 0, dc_isa_flags = 0\<rparr>"

definition get_device_caps :: "vx_backend \<Rightarrow> vx_world \<Rightarrow> device_caps option" where
  "get_device_caps b w =
     (if \<not> bk_initialized b then Some no_caps
      else map_option (\<lambda>(_, c). case c of None \<Rightarrow> no_caps | Some c \<Rightarrow> c) (vortex_device_get_caps (bk_device b) True w))"

definition set_debug :: "bool \<Rightarrow> vx_backend \<Rightarrow> vx_world \<Rightarrow> vx_world option" where
  "set_debug enable b w =
     (if \<not> bk_initialized b then Some w
      else map_option snd (vortex_device_set_debug (bk_device b) (if enable then 1 else 0) w))"

section \<open>The C interface\<close>

text \<open>\<open>g_backend\<close> and the state of the library.\<close>

type_synonym api_state = "vx_backend option \<times> vx_world"

definition vortex_backend_init ::
  "vx \<Rightarrow> vx_new \<Rightarrow> u64 \<Rightarrow> string option \<Rightarrow> api_state \<Rightarrow> (int \<times> api_state) option" where
  "vortex_backend_init vx nw junk sim_path s =
     (case s of
        (Some b, w) \<Rightarrow> Some (-1, s)
      | (None, w) \<Rightarrow> do {
          (ret, b, w1) \<leftarrow> initialize vx nw junk sim_path new_backend w;
          if ret \<noteq> 0 then map_option (\<lambda>w2. (ret, (None, w2))) (delete_backend vx b w1)
          else Some (0, (Some b, w1))
        })"

definition vortex_backend_cleanup :: "vx \<Rightarrow> api_state \<Rightarrow> api_state option" where
  "vortex_backend_cleanup vx s =
     (case s of (None, w) \<Rightarrow> Some s | (Some b, w) \<Rightarrow> map_option (Pair None) (delete_backend vx b w))"

text \<open>A call on the backend that is there, and the value returned when there is none.\<close>

definition with_backend :: "'r \<Rightarrow> (vx_backend \<Rightarrow> vx_world \<Rightarrow> ('r \<times> vx_backend \<times> vx_world) option) \<Rightarrow> api_state \<Rightarrow> ('r \<times> api_state) option" where
  "with_backend none f s =
     (case s of
        (None, w) \<Rightarrow> Some (none, s)
      | (Some b, w) \<Rightarrow> map_option (\<lambda>(r, b1, w1). (r, (Some b1, w1))) (f b w))"

definition reading :: "(vx_backend \<Rightarrow> vx_world \<Rightarrow> ('r \<times> vx_world) option) \<Rightarrow> vx_backend \<Rightarrow> vx_world \<Rightarrow> ('r \<times> vx_backend \<times> vx_world) option" where
  "reading f b w = map_option (\<lambda>(r, w1). (r, b, w1)) (f b w)"

definition vortex_backend_malloc :: "vx \<Rightarrow> vx_new \<Rightarrow> u64 \<Rightarrow> api_state \<Rightarrow> (u64 \<times> api_state) option" where
  "vortex_backend_malloc vx nw sz = with_backend 0 (allocate_device_memory vx nw sz)"

definition vortex_backend_free :: "vx \<Rightarrow> u64 \<Rightarrow> api_state \<Rightarrow> (int \<times> api_state) option" where
  "vortex_backend_free vx i = with_backend (-1) (free_device_memory vx i)"

definition vortex_backend_h2d :: "vx \<Rightarrow> u64 \<Rightarrow> addr \<Rightarrow> u64 \<Rightarrow> u64 \<Rightarrow> api_state \<Rightarrow> (int \<times> api_state) option" where
  "vortex_backend_h2d vx i src off n = with_backend (-1) (reading (host_to_device vx i src off n))"

definition vortex_backend_d2h :: "vx \<Rightarrow> addr \<Rightarrow> u64 \<Rightarrow> u64 \<Rightarrow> u64 \<Rightarrow> api_state \<Rightarrow> (int \<times> api_state) option" where
  "vortex_backend_d2h vx dst i off n = with_backend (-1) (reading (device_to_host vx dst i off n))"

definition vortex_backend_load_kernel :: "vx \<Rightarrow> vx_new \<Rightarrow> u8 list option \<Rightarrow> api_state \<Rightarrow> (u64 \<times> api_state) option" where
  "vortex_backend_load_kernel vx nw binary = with_backend 0 (load_kernel vx nw binary)"

definition vortex_backend_load_kernel_file ::
  "vx \<Rightarrow> vx_new \<Rightarrow> file_sys \<Rightarrow> string option \<Rightarrow> api_state \<Rightarrow> (u64 \<times> api_state) option" where
  "vortex_backend_load_kernel_file vx nw fs path =
     with_backend 0 (\<lambda>b w. map_option (\<lambda>(i, cs, b1, w1). (i, b1, w1)) (load_kernel_from_file vx nw fs path b w))"

definition vortex_backend_set_args :: "vx \<Rightarrow> u64 \<Rightarrow> (addr \<times> u64) list \<Rightarrow> api_state \<Rightarrow> (int \<times> api_state) option" where
  "vortex_backend_set_args vx i args = with_backend (-1) (reading (set_kernel_arguments vx i args))"

definition vortex_backend_launch :: "vx \<Rightarrow> u64 \<Rightarrow> api_state \<Rightarrow> (int \<times> api_state) option" where
  "vortex_backend_launch vx i = with_backend (-1) (reading (launch_kernel vx i))"

definition vortex_backend_sync :: "vx \<Rightarrow> api_state \<Rightarrow> (int \<times> api_state) option" where
  "vortex_backend_sync vx = with_backend (-1) (reading (synchronize vx))"

definition vortex_backend_set_debug :: "int \<Rightarrow> api_state \<Rightarrow> (unit \<times> api_state) option" where
  "vortex_backend_set_debug enable =
     with_backend () (reading (\<lambda>b w. map_option (Pair ()) (set_debug (enable \<noteq> 0) b w)))"

section \<open>Ownership\<close>

text \<open>
  What a destructor of the library promises: it releases an object of its kind, deletes exactly that
  object and keeps the ledger balanced. The cleanup loops need no more.
\<close>

locale object_dtor =
  fixes kind :: "vx_object \<Rightarrow> bool" and dtor :: "addr \<Rightarrow> vx_world \<Rightarrow> (vortex_rc \<times> vx_world) option"
  assumes dtor_ok: "a \<noteq> 0 \<Longrightarrow> vw_heap w a = Some x \<Longrightarrow> kind x \<Longrightarrow>
      \<exists>w'. dtor a w = Some (VORTEX_SUCCESS, w') \<and> vw_heap w' = (vw_heap w)(a := None)"
    and dtor_balanced: "dtor a w = Some (rc, w') \<Longrightarrow> balanced w \<Longrightarrow> balanced w'"
begin

lemma destroy_all_ok:
  assumes "distinct (map snd kvs)" "\<forall>a\<in>snd ` set kvs. a \<noteq> 0 \<and> (\<exists>x. vw_heap w a = Some x \<and> kind x)"
  shows "\<exists>w'. destroy_all dtor kvs w = Some w' \<and>
    vw_heap w' = (\<lambda>a. if a \<in> snd ` set kvs then None else vw_heap w a)"
  using assms
proof (induction kvs arbitrary: w)
  case Nil
  then show ?case by simp
next
  case (Cons kv kvs)
  from Cons.prems(2) obtain x where "snd kv \<noteq> 0" "vw_heap w (snd kv) = Some x" "kind x" by auto
  then obtain w1 where w1: "dtor (snd kv) w = Some (VORTEX_SUCCESS, w1)" "vw_heap w1 = (vw_heap w)(snd kv := None)"
    using dtor_ok by blast
  have "\<exists>w'. destroy_all dtor kvs w1 = Some w' \<and>
      vw_heap w' = (\<lambda>a. if a \<in> snd ` set kvs then None else vw_heap w1 a)"
  proof (rule Cons.IH)
    show "distinct (map snd kvs)" using Cons.prems(1) by simp
    have "snd kv \<notin> snd ` set kvs" using Cons.prems(1) by simp
    show "\<forall>a\<in>snd ` set kvs. a \<noteq> 0 \<and> (\<exists>x. vw_heap w1 a = Some x \<and> kind x)"
    proof
      fix a assume a: "a \<in> snd ` set kvs"
      then have "a \<noteq> snd kv" using \<open>snd kv \<notin> snd ` set kvs\<close> by blast
      moreover have "a \<in> snd ` set (kv # kvs)" using a by simp
      then have "a \<noteq> 0 \<and> (\<exists>x. vw_heap w a = Some x \<and> kind x)" using Cons.prems(2) by blast
      ultimately show "a \<noteq> 0 \<and> (\<exists>x. vw_heap w1 a = Some x \<and> kind x)" by (simp add: w1(2))
    qed
  qed
  then show ?case using w1 by (auto simp: fun_eq_iff)
qed

lemma destroy_all_balanced: "destroy_all dtor kvs w = Some w' \<Longrightarrow> balanced w \<Longrightarrow> balanced w'"
  by (induction kvs arbitrary: w) (auto split: option.split_asm dest: dtor_balanced)

end

fun is_kernel :: "vx_object \<Rightarrow> bool" where
  "is_kernel (Kernel k) = True" | "is_kernel _ = False"

fun is_buffer :: "vx_object \<Rightarrow> bool" where
  "is_buffer (Buffer b) = True" | "is_buffer _ = False"

interpretation kernel_dtor: object_dtor is_kernel "vortex_kernel_unload vx" for vx
proof
  fix a :: addr and w :: vx_world and x assume "a \<noteq> 0" "vw_heap w a = Some x" "is_kernel x"
  then show "\<exists>w'. vortex_kernel_unload vx a w = Some (VORTEX_SUCCESS, w') \<and> vw_heap w' = (vw_heap w)(a := None)"
    by (cases x) (auto simp: vortex_kernel_unload_def kernel_at_def Let_def)
qed (rule vortex_kernel_unload_balanced)

interpretation buffer_dtor: object_dtor is_buffer "vortex_free vx" for vx
proof
  fix a :: addr and w :: vx_world and x assume "a \<noteq> 0" "vw_heap w a = Some x" "is_buffer x"
  then show "\<exists>w'. vortex_free vx a w = Some (VORTEX_SUCCESS, w') \<and> vw_heap w' = (vw_heap w)(a := None)"
    by (cases x) (auto simp: vortex_free_def buffer_at_def)
qed (rule vortex_free_balanced)

text \<open>The objects of the library are exactly the device and the handles in the two maps.\<close>

definition map_ok :: "(vx_object \<Rightarrow> bool) \<Rightarrow> (u64 \<times> addr) list \<Rightarrow> u64 \<Rightarrow> vx_world \<Rightarrow> bool" where
  "map_ok kind kvs nxt w \<longleftrightarrow>
     distinct (map fst kvs) \<and> distinct (map snd kvs) \<and> (\<forall>i\<in>fst ` set kvs. i < nxt) \<and>
     (\<forall>a\<in>snd ` set kvs. a \<noteq> 0 \<and> (\<exists>x. vw_heap w a = Some x \<and> kind x))"

definition backend_ok :: "vx_backend \<Rightarrow> vx_world \<Rightarrow> bool" where
  "backend_ok b w \<longleftrightarrow>
     bk_initialized b \<and> bk_device b \<noteq> 0 \<and> (\<exists>d. vw_heap w (bk_device b) = Some (Device d)) \<and>
     map_ok is_buffer (bk_buffer_map b) (bk_next_buffer_id b) w \<and>
     map_ok is_kernel (bk_kernel_map b) (bk_next_kernel_id b) w \<and>
     dom (vw_heap w) = insert (bk_device b) (snd ` set (bk_buffer_map b) \<union> snd ` set (bk_kernel_map b))"

lemma map_okD:
  "map_ok kind kvs n w \<Longrightarrow> a \<in> snd ` set kvs \<Longrightarrow> a \<noteq> 0 \<and> (\<exists>x. vw_heap w a = Some x \<and> kind x)"
  "map_ok kind kvs n w \<Longrightarrow> distinct (map fst kvs)" "map_ok kind kvs n w \<Longrightarrow> distinct (map snd kvs)"
  by (auto simp: map_ok_def)

lemma backend_okD:
  assumes "backend_ok b w"
  shows "bk_initialized b" "bk_device b \<noteq> 0" "\<exists>d. vw_heap w (bk_device b) = Some (Device d)"
    "map_ok is_buffer (bk_buffer_map b) (bk_next_buffer_id b) w"
    "map_ok is_kernel (bk_kernel_map b) (bk_next_kernel_id b) w"
    "dom (vw_heap w) = insert (bk_device b) (snd ` set (bk_buffer_map b) \<union> snd ` set (bk_kernel_map b))"
  using assms by (auto simp: backend_ok_def)

lemma kinds_disjoint: "is_kernel x \<Longrightarrow> is_buffer x \<Longrightarrow> False" "\<not> is_kernel (Device d)" "\<not> is_buffer (Device d)"
  by (cases x) auto

lemma owned_empty [simp]: "owned Map.empty = {#}"
  by (simp add: owned_def)

text \<open>Deleting a backend releases everything.\<close>

lemma delete_backend_releases:
  assumes ok: "backend_ok b w" and bal: "balanced w"
  shows "\<exists>w'. delete_backend vx b w = Some w' \<and> vw_heap w' = Map.empty \<and> live (vw_log w') = {#}"
proof -
  note o = backend_okD [OF ok]
  obtain w1 where w1: "destroy_all (vortex_kernel_unload vx) (bk_kernel_map b) w = Some w1"
    and h1: "vw_heap w1 = (\<lambda>a. if a \<in> snd ` set (bk_kernel_map b) then None else vw_heap w a)"
    using kernel_dtor.destroy_all_ok [of "bk_kernel_map b" w vx] map_okD [OF o(5)] by blast
  have "\<forall>a\<in>snd ` set (bk_buffer_map b). a \<noteq> 0 \<and> (\<exists>x. vw_heap w1 a = Some x \<and> is_buffer x)"
  proof
    fix a assume "a \<in> snd ` set (bk_buffer_map b)"
    then obtain x where x: "a \<noteq> 0" "vw_heap w a = Some x" "is_buffer x" using map_okD [OF o(4)] by blast
    then have "a \<notin> snd ` set (bk_kernel_map b)" using map_okD(1) [OF o(5), of a] kinds_disjoint(1) by auto
    then show "a \<noteq> 0 \<and> (\<exists>x. vw_heap w1 a = Some x \<and> is_buffer x)" using x h1 by simp
  qed
  then obtain w2 where w2: "destroy_all (vortex_free vx) (bk_buffer_map b) w1 = Some w2"
    and h2: "vw_heap w2 = (\<lambda>a. if a \<in> snd ` set (bk_buffer_map b) then None else vw_heap w1 a)"
    using buffer_dtor.destroy_all_ok [of "bk_buffer_map b" w1 vx] map_okD [OF o(4)] by blast
  from o(3) obtain d where d: "vw_heap w (bk_device b) = Some (Device d)" by blast
  have "bk_device b \<notin> snd ` set (bk_buffer_map b)" "bk_device b \<notin> snd ` set (bk_kernel_map b)"
    using map_okD(1) [OF o(4), of "bk_device b"] map_okD(1) [OF o(5), of "bk_device b"] d kinds_disjoint(2,3) by auto
  then have "device_at w2 (bk_device b) = Some d" using d h1 h2 by (simp add: at_objects)
  then obtain w3 where w3: "vortex_device_destroy vx (bk_device b) w2 = Some (VORTEX_SUCCESS, w3)"
    and h3: "vw_heap w3 = (vw_heap w2)(bk_device b := None)"
    using o(2) by (auto simp: vortex_device_destroy_def Let_def)
  have "vw_heap w3 a = None" for a
  proof (cases "a \<in> dom (vw_heap w)")
    case True
    then show ?thesis unfolding o(6) using h1 h2 h3 by auto
  next
    case False
    then show ?thesis using h1 h2 h3 by auto
  qed
  then have e: "vw_heap w3 = Map.empty" by (simp add: fun_eq_iff)
  have "balanced w3"
    using w3 w2 w1 bal
    by (blast intro: vortex_device_destroy_balanced buffer_dtor.destroy_all_balanced kernel_dtor.destroy_all_balanced)
  then have "live (vw_log w3) = {#}" using e by (simp add: balanced_def)
  then show ?thesis using w1 w2 w3 e o(1) by (simp add: delete_backend_def)
qed

section \<open>Runs of the C interface\<close>

datatype api_op =
    Api_Malloc u64 | Api_Free u64 | Api_H2d u64 addr u64 u64 | Api_D2h addr u64 u64 u64
  | Api_Load_Kernel "u8 list" | Api_Load_Kernel_File string | Api_Set_Args u64 "(addr \<times> u64) list"
  | Api_Launch u64 | Api_Sync | Api_Set_Debug int

fun api_step :: "vx \<Rightarrow> vx_new \<Rightarrow> file_sys \<Rightarrow> api_op \<Rightarrow> api_state \<Rightarrow> api_state option" where
  "api_step vx nw fs (Api_Malloc n) s = map_option snd (vortex_backend_malloc vx nw n s)"
| "api_step vx nw fs (Api_Free i) s = map_option snd (vortex_backend_free vx i s)"
| "api_step vx nw fs (Api_H2d i p off n) s = map_option snd (vortex_backend_h2d vx i p off n s)"
| "api_step vx nw fs (Api_D2h p i off n) s = map_option snd (vortex_backend_d2h vx p i off n s)"
| "api_step vx nw fs (Api_Load_Kernel bs) s = map_option snd (vortex_backend_load_kernel vx nw (Some bs) s)"
| "api_step vx nw fs (Api_Load_Kernel_File p) s = map_option snd (vortex_backend_load_kernel_file vx nw fs (Some p) s)"
| "api_step vx nw fs (Api_Set_Args i as) s = map_option snd (vortex_backend_set_args vx i as s)"
| "api_step vx nw fs (Api_Launch i) s = map_option snd (vortex_backend_launch vx i s)"
| "api_step vx nw fs Api_Sync s = map_option snd (vortex_backend_sync vx s)"
| "api_step vx nw fs (Api_Set_Debug e) s = map_option snd (vortex_backend_set_debug e s)"

fun api_run :: "vx \<Rightarrow> vx_new \<Rightarrow> file_sys \<Rightarrow> api_op list \<Rightarrow> api_state \<Rightarrow> api_state option" where
  "api_run vx nw fs [] s = Some s"
| "api_run vx nw fs (x # xs) s = (case api_step vx nw fs x s of None \<Rightarrow> None | Some s1 \<Rightarrow> api_run vx nw fs xs s1)"

text \<open>How the library calls move objects.\<close>

lemma map_ok_frame:
  assumes "map_ok kind kvs n w" "vw_heap w' = (vw_heap w)(a := y)" "a \<notin> snd ` set kvs"
  shows "map_ok kind kvs n w'"
  using assms unfolding map_ok_def by (metis fun_upd_other)

lemma map_ok_same: "map_ok kind kvs n w \<Longrightarrow> vw_heap w' = vw_heap w \<Longrightarrow> map_ok kind kvs n w'"
  by (simp add: map_ok_def)

lemma map_ok_put:
  assumes "map_ok kind kvs n w" "vw_heap w' = (vw_heap w)(a \<mapsto> x)" "kind x" "a \<noteq> 0"
  shows "map_ok kind kvs n w'"
  using assms by (auto simp: map_ok_def)

lemma map_ok_insert:
  assumes m: "map_ok kind kvs n w" and h: "vw_heap w' = (vw_heap w)(a \<mapsto> x)" and x: "kind x" "a \<noteq> 0" "vw_heap w a = None"
    and n: "unat n + 1 < 2 ^ 64"
  shows "map_ok kind (AList.update n a kvs) (n + 1) w'" "snd ` set (AList.update n a kvs) = insert a (snd ` set kvs)"
proof -
  have notin: "n \<notin> fst ` set kvs" using m by (auto simp: map_ok_def)
  then have u: "AList.update n a kvs = kvs @ [(n, a)]" by (induction kvs) auto
  have "unat (n + 1) = unat n + 1" using n by (simp add: unat_add_lem [THEN iffD1])
  then have lt: "n < n + 1" "\<And>i. i < n \<Longrightarrow> i < n + 1" by (auto simp: word_less_nat_alt)
  have new: "a \<notin> snd ` set kvs" using map_okD(1) [OF m, of a] x(3) by auto
  then have old: "vw_heap w' c = vw_heap w c" if "c \<in> snd ` set kvs" for c using h that by (auto simp: image_iff)
  show "map_ok kind (AList.update n a kvs) (n + 1) w'"
    unfolding u map_ok_def using m notin new x h lt old by (auto simp: map_ok_def)
  show "snd ` set (AList.update n a kvs) = insert a (snd ` set kvs)" unfolding u by auto
qed

lemma map_ok_remove:
  assumes m: "map_ok kind kvs n w" and i: "map_of kvs i = Some a" and h: "vw_heap w' = (vw_heap w)(a := None)"
  shows "map_ok kind (AList.delete i kvs) n w'" "snd ` set (AList.delete i kvs) = snd ` set kvs - {a}"
proof -
  have d: "distinct (map fst kvs)" "distinct (map snd kvs)" using map_okD [OF m] by auto
  have mem: "(i, a) \<in> set kvs" using i by (rule map_of_SomeD)
  have iff: "(j, c) \<in> set (AList.delete i kvs) \<longleftrightarrow> (j, c) \<in> set kvs \<and> c \<noteq> a" for j c
  proof -
    have "j = i \<longleftrightarrow> c = a" if "(j, c) \<in> set kvs"
      using that mem d by (metis distinct_map fst_conv snd_conv inj_on_def)
    then show ?thesis by (auto simp: AList.delete_eq)
  qed
  show s: "snd ` set (AList.delete i kvs) = snd ` set kvs - {a}"
    using iff by (auto simp: image_iff)
  have "set (AList.delete i kvs) \<subseteq> set kvs" using iff by auto
  moreover have "distinct (map fst (AList.delete i kvs))" "distinct (map snd (AList.delete i kvs))"
    using d by (auto simp: AList.delete_eq distinct_map inj_on_def)
  moreover have "vw_heap w' c = vw_heap w c" if "c \<in> snd ` set (AList.delete i kvs)" for c
    using that h unfolding s by auto
  ultimately show "map_ok kind (AList.delete i kvs) n w'"
    using m s unfolding map_ok_def by (smt (verit) Diff_iff image_mono subset_eq)
qed


lemma vortex_malloc_heap:
  assumes "vortex_malloc vx nw dev True sz w = Some (rc, out, w')"
  shows "rc \<noteq> VORTEX_SUCCESS \<and> vw_heap w' = vw_heap w \<or>
    rc = VORTEX_SUCCESS \<and> (\<exists>a b. out = Some a \<and> a \<noteq> 0 \<and> vw_heap w a = None \<and> vw_heap w' = (vw_heap w)(a \<mapsto> Buffer b))"
  using assms
  by (auto simp: vortex_malloc_def bind_eq_Some_conv at_objects Let_def vx_do_case if_eq_cases dest!: new_objectD)

lemma vortex_kernel_load_heap:
  assumes "vortex_kernel_load vx nw dev True bin w = Some (rc, out, w')"
  shows "rc \<noteq> VORTEX_SUCCESS \<and> vw_heap w' = vw_heap w \<or>
    rc = VORTEX_SUCCESS \<and> (\<exists>a k. out = Some a \<and> a \<noteq> 0 \<and> vw_heap w a = None \<and> vw_heap w' = (vw_heap w)(a \<mapsto> Kernel k))"
  using assms
  by (auto simp: vortex_kernel_load_def bind_eq_Some_conv at_objects Let_def vx_do_case if_eq_cases dest!: new_objectD)

lemma vortex_kernel_load_file_load:
  assumes "vortex_kernel_load_file vx nw fs dev True path w = Some (rc, out, cs, w')"
  shows "rc \<noteq> VORTEX_SUCCESS \<and> w' = w \<or> (\<exists>bin. vortex_kernel_load vx nw dev True bin w = Some (rc, out, w'))"
  using assms by (auto simp: vortex_kernel_load_file_def Let_def if_eq_cases split: option.split_asm)

lemma vortex_kernel_set_args_heap:
  assumes "vortex_kernel_set_args vx krn args w = Some (rc, w')"
  shows "vw_heap w' = vw_heap w \<or> (\<exists>k. krn \<noteq> 0 \<and> vw_heap w' = (vw_heap w)(krn \<mapsto> Kernel k))"
  using assms
  by (auto simp: vortex_kernel_set_args_def bind_eq_Some_conv at_objects Let_def vx_do_case if_eq_cases)

lemma still_heap:
  "vortex_kernel_launch vx d k p w = Some (rc, w') \<Longrightarrow> vw_heap w' = vw_heap w"
  "vortex_device_wait vx d t w = Some (rc, w') \<Longrightarrow> vw_heap w' = vw_heap w"
  by (auto simp: vortex_kernel_launch_def vortex_device_wait_def bind_eq_Some_conv vx_do_case if_eq_cases)

text \<open>The invariant of the backend under the effects of the library on the objects.\<close>

lemma backend_ok_same: "backend_ok b w \<Longrightarrow> vw_heap w' = vw_heap w \<Longrightarrow> backend_ok b w'"
  by (auto simp: backend_ok_def intro: map_ok_same)

lemma device_not_mapped:
  assumes "backend_ok b w"
  shows "bk_device b \<notin> snd ` set (bk_buffer_map b)" "bk_device b \<notin> snd ` set (bk_kernel_map b)"
  using backend_okD(3) [OF assms] map_okD(1) [OF backend_okD(4) [OF assms], of "bk_device b"]
    map_okD(1) [OF backend_okD(5) [OF assms], of "bk_device b"] kinds_disjoint(2,3) by fastforce+

lemma maps_disjoint:
  assumes "backend_ok b w" "a \<in> snd ` set (bk_buffer_map b)"
  shows "a \<notin> snd ` set (bk_kernel_map b)"
  using map_okD(1) [OF backend_okD(4) [OF assms(1)] assms(2)]
    map_okD(1) [OF backend_okD(5) [OF assms(1)], of a] kinds_disjoint(1) by fastforce

lemma fresh_not_mapped:
  assumes "backend_ok b w" "vw_heap w a = None"
  shows "a \<noteq> bk_device b" "a \<notin> snd ` set (bk_buffer_map b)" "a \<notin> snd ` set (bk_kernel_map b)"
  using backend_okD(6) [OF assms(1)] assms(2) by (metis Un_iff domIff insert_iff)+

lemma device_memory_allocate_ok:
  assumes ok: "backend_ok b w" and n: "unat (bk_next_buffer_id b) + 1 < 2 ^ 64"
    and r: "allocate_device_memory vx nw sz b w = Some (i, b', w')"
  shows "backend_ok b' w'"
proof -
  note o = backend_okD [OF ok]
  from r o(1) obtain rc out where m: "vortex_malloc vx nw (bk_device b) True sz w = Some (rc, out, w')"
    and b': "b' = (if rc \<noteq> VORTEX_SUCCESS then b else b\<lparr>bk_next_buffer_id := bk_next_buffer_id b + 1,
       bk_buffer_map := AList.update (bk_next_buffer_id b) (the out) (bk_buffer_map b)\<rparr>)"
    by (auto simp: allocate_device_memory_def bind_eq_Some_conv if_eq_cases Let_def)
  show ?thesis
  proof (cases "rc = VORTEX_SUCCESS")
    case False
    then show ?thesis using vortex_malloc_heap [OF m] b' ok by (simp add: backend_ok_same)
  next
    case True
    then obtain a x where a: "out = Some a" "a \<noteq> 0" "vw_heap w a = None" "vw_heap w' = (vw_heap w)(a \<mapsto> Buffer x)"
      using vortex_malloc_heap [OF m] by auto
    note f = fresh_not_mapped [OF ok a(3)]
    have "map_ok is_buffer (AList.update (bk_next_buffer_id b) a (bk_buffer_map b)) (bk_next_buffer_id b + 1) w'"
      "snd ` set (AList.update (bk_next_buffer_id b) a (bk_buffer_map b)) = insert a (snd ` set (bk_buffer_map b))"
      using map_ok_insert [OF o(4) a(4) _ a(2,3) n] by auto
    moreover have "map_ok is_kernel (bk_kernel_map b) (bk_next_kernel_id b) w'"
      by (rule map_ok_frame [OF o(5) a(4) f(3)])
    ultimately show ?thesis using o b' True a f by (auto simp: backend_ok_def)
  qed
qed

lemma free_ok:
  assumes ok: "backend_ok b w" and r: "free_device_memory vx i b w = Some (rc, b', w')"
  shows "backend_ok b' w'"
proof (cases "map_of (bk_buffer_map b) i")
  case None
  then show ?thesis using r ok by (simp add: free_device_memory_def)
next
  case (Some a)
  note o = backend_okD [OF ok]
  have mem: "a \<in> snd ` set (bk_buffer_map b)" using map_of_SomeD [OF Some] by force
  from map_okD(1) [OF o(4) mem] obtain x where x: "a \<noteq> 0" "vw_heap w a = Some x" "is_buffer x" by blast
  then have h: "vw_heap w' = (vw_heap w)(a := None)"
    and b': "b' = b\<lparr>bk_buffer_map := AList.delete i (bk_buffer_map b)\<rparr>"
    using buffer_dtor.dtor_ok [OF x, of vx] r Some by (auto simp: free_device_memory_def)
  have "a \<notin> snd ` set (bk_kernel_map b)" by (rule maps_disjoint [OF ok mem])
  moreover have "a \<noteq> bk_device b" using x(3) o(3) x(2) kinds_disjoint(3) by auto
  ultimately show ?thesis
    using o map_ok_remove [OF o(4) Some h] map_ok_frame [OF o(5) h] h b' by (auto simp: backend_ok_def)
qed

lemma add_kernel_ok:
  assumes ok: "backend_ok b w" and n: "unat (bk_next_kernel_id b) + 1 < 2 ^ 64"
    and m: "vortex_kernel_load vx nw dev True bin w = Some (rc, out, w1)"
    and r: "add_kernel rc out b w1 = (i, b', w')"
  shows "backend_ok b' w'"
proof -
  note o = backend_okD [OF ok]
  show ?thesis
  proof (cases "rc = VORTEX_SUCCESS")
    case False
    then show ?thesis using vortex_kernel_load_heap [OF m] r ok by (auto simp: add_kernel_def intro: backend_ok_same)
  next
    case True
    then obtain a x where a: "out = Some a" "a \<noteq> 0" "vw_heap w a = None" "vw_heap w1 = (vw_heap w)(a \<mapsto> Kernel x)"
      using vortex_kernel_load_heap [OF m] by auto
    note f = fresh_not_mapped [OF ok a(3)]
    have "map_ok is_kernel (AList.update (bk_next_kernel_id b) a (bk_kernel_map b)) (bk_next_kernel_id b + 1) w1"
      "snd ` set (AList.update (bk_next_kernel_id b) a (bk_kernel_map b)) = insert a (snd ` set (bk_kernel_map b))"
      using map_ok_insert [OF o(5) a(4) _ a(2,3) n] by auto
    moreover have "map_ok is_buffer (bk_buffer_map b) (bk_next_buffer_id b) w1"
      by (rule map_ok_frame [OF o(4) a(4) f(2)])
    moreover have "dom (vw_heap w1) = insert (bk_device b) (snd ` set (bk_buffer_map b) \<union> insert a (snd ` set (bk_kernel_map b)))"
      unfolding a(4) by (simp add: o(6) insert_commute)
    moreover have "vw_heap w1 (bk_device b) = vw_heap w (bk_device b)" using a(4) f(1) by simp
    moreover have "w' = w1" "b' = b\<lparr>bk_next_kernel_id := bk_next_kernel_id b + 1,
        bk_kernel_map := AList.update (bk_next_kernel_id b) a (bk_kernel_map b)\<rparr>"
      using r True a(1) by (auto simp: add_kernel_def Let_def)
    ultimately show ?thesis using o(1,2,3) by (simp add: backend_ok_def)
  qed
qed


lemma set_args_ok:
  assumes ok: "backend_ok b w" and r: "set_kernel_arguments vx i args b w = Some (rc, w')"
  shows "backend_ok b w'"
proof (cases "map_of (bk_kernel_map b) i")
  case None
  then show ?thesis using r ok by (simp add: set_kernel_arguments_def)
next
  case (Some krn)
  note o = backend_okD [OF ok]
  have mem: "krn \<in> snd ` set (bk_kernel_map b)" using map_of_SomeD [OF Some] by force
  from r Some obtain rc' where "vortex_kernel_set_args vx krn (Some (map backend_arg args)) w = Some (rc', w')"
    by (auto simp: set_kernel_arguments_def)
  then consider "vw_heap w' = vw_heap w" | k where "krn \<noteq> 0" "vw_heap w' = (vw_heap w)(krn \<mapsto> Kernel k)"
    using vortex_kernel_set_args_heap by blast
  then show ?thesis
  proof cases
    case 1
    then show ?thesis by (rule backend_ok_same [OF ok])
  next
    case 2
    have "krn \<notin> snd ` set (bk_buffer_map b)" using maps_disjoint [OF ok] mem by blast
    then have "map_ok is_buffer (bk_buffer_map b) (bk_next_buffer_id b) w'" by (rule map_ok_frame [OF o(4) 2(2)])
    moreover have "map_ok is_kernel (bk_kernel_map b) (bk_next_kernel_id b) w'"
      by (rule map_ok_put [OF o(5) 2(2) _ 2(1)]) simp
    moreover have "krn \<noteq> bk_device b" using device_not_mapped [OF ok] mem by blast
    moreover have "dom (vw_heap w') = dom (vw_heap w)" unfolding 2(2) using mem o(6) by auto
    ultimately show ?thesis using o(1,2,3,6) 2(2) by (auto simp: backend_ok_def)
  qed
qed

lemma set_debug_ok:
  assumes ok: "backend_ok b w" and r: "set_debug e b w = Some w'"
  shows "backend_ok b w'"
proof -
  note o = backend_okD [OF ok]
  from r o(1,2) obtain d where h: "vw_heap w' = (vw_heap w)(bk_device b \<mapsto> Device d)"
    by (auto simp: set_debug_def vortex_device_set_debug_def bind_eq_Some_conv)
  note f = device_not_mapped [OF ok]
  have "dom (vw_heap w') = dom (vw_heap w)" unfolding h using o(6) by auto
  then show ?thesis
    using o(1,2,6) h map_ok_frame [OF o(4) h f(1)] map_ok_frame [OF o(5) h f(2)] by (simp add: backend_ok_def)
qed

text \<open>One call of the interface keeps the invariant, the ledger, and takes at most one number of each kind.\<close>

definition api_ok :: "nat \<Rightarrow> api_state \<Rightarrow> bool" where
  "api_ok n s \<longleftrightarrow> (case s of (None, w) \<Rightarrow> False | (Some b, w) \<Rightarrow> backend_ok b w \<and> balanced w \<and>
     unat (bk_next_buffer_id b) \<le> n \<and> unat (bk_next_kernel_id b) \<le> n)"

lemma api_step_ok:
  assumes ok: "api_ok n s" and n: "n + 1 < 2 ^ 64" and vx: "vx_handles_ok vx" "args_alloc_ok vx"
    and r: "api_step vx nw fs x s = Some s'"
  shows "api_ok (n + 1) s'"
proof -
  from ok obtain b w where s: "s = (Some b, w)" and b: "backend_ok b w" and bal: "balanced w"
    and nb: "unat (bk_next_buffer_id b) \<le> n" and nk: "unat (bk_next_kernel_id b) \<le> n"
    by (auto simp: api_ok_def split: prod.split_asm option.split_asm)
  have lt: "unat (bk_next_buffer_id b) + 1 < 2 ^ 64" "unat (bk_next_kernel_id b) + 1 < 2 ^ 64"
    using n nb nk by linarith+
  have inc: "unat (bk_next_buffer_id b + 1) \<le> n + 1" "unat (bk_next_kernel_id b + 1) \<le> n + 1"
    using nb nk unat_word_ariths(1) [of "bk_next_buffer_id b" 1] unat_word_ariths(1) [of "bk_next_kernel_id b" 1]
      mod_less_eq_dividend [of "unat (bk_next_buffer_id b) + 1" "2 ^ 64"]
      mod_less_eq_dividend [of "unat (bk_next_kernel_id b) + 1" "2 ^ 64"] by auto
  show ?thesis
  proof (cases x)
    case (Api_Malloc sz)
    with r s obtain i b' w' where m: "allocate_device_memory vx nw sz b w = Some (i, b', w')" and s': "s' = (Some b', w')"
      by (auto simp: vortex_backend_malloc_def with_backend_def)
    then have "balanced w'" using bal by (auto simp: allocate_device_memory_def bind_eq_Some_conv if_eq_cases Let_def
        dest: vortex_malloc_balanced)
    moreover have "bk_next_buffer_id b' = bk_next_buffer_id b \<or> bk_next_buffer_id b' = bk_next_buffer_id b + 1"
      "bk_next_kernel_id b' = bk_next_kernel_id b"
      using m by (auto simp: allocate_device_memory_def bind_eq_Some_conv if_eq_cases Let_def)
    ultimately show ?thesis using device_memory_allocate_ok [OF b lt(1) m] s' inc nb nk by (auto simp: api_ok_def)
  next
    case (Api_Free i)
    with r s obtain rc b' w' where m: "free_device_memory vx i b w = Some (rc, b', w')" and s': "s' = (Some b', w')"
      by (auto simp: vortex_backend_free_def with_backend_def)
    then have "balanced w'" "bk_next_buffer_id b' = bk_next_buffer_id b" "bk_next_kernel_id b' = bk_next_kernel_id b"
      using bal by (auto simp: free_device_memory_def bind_eq_Some_conv split: option.split_asm dest: vortex_free_balanced)
    then show ?thesis using free_ok [OF b m] s' nb nk by (simp add: api_ok_def)
  next
    case (Api_Load_Kernel bs)
    with r s backend_okD(1) [OF b] obtain rc out w1 i b' w' where
      m: "vortex_kernel_load vx nw (bk_device b) True (Some bs) w = Some (rc, out, w1)"
      and a: "add_kernel rc out b w1 = (i, b', w')" and s': "s' = (Some b', w')"
      by (auto simp: vortex_backend_load_kernel_def with_backend_def load_kernel_def bind_eq_Some_conv)
    have "balanced w'" "bk_next_buffer_id b' = bk_next_buffer_id b"
      "bk_next_kernel_id b' = bk_next_kernel_id b \<or> bk_next_kernel_id b' = bk_next_kernel_id b + 1"
      using vortex_kernel_load_balanced [OF m bal vx(1)] a by (auto simp: add_kernel_def Let_def if_eq_cases)
    then show ?thesis using add_kernel_ok [OF b lt(2) m a] s' inc nb nk by (auto simp: api_ok_def)
  next
    case (Api_Load_Kernel_File p)
    with r s backend_okD(1) [OF b] obtain rc out cs w1 where
      f: "vortex_kernel_load_file vx nw fs (bk_device b) True (Some p) w = Some (rc, out, cs, w1)"
      and snd_s': "s' = (Some (fst (snd (add_kernel rc out b w1))), snd (snd (add_kernel rc out b w1)))"
      by (auto simp: vortex_backend_load_kernel_file_def with_backend_def load_kernel_from_file_def bind_eq_Some_conv
          case_prod_beta)
    obtain i b' w' where a: "add_kernel rc out b w1 = (i, b', w')" by (metis prod_cases3)
    with snd_s' have s': "s' = (Some b', w')" by simp
    from vortex_kernel_load_file_load [OF f] show ?thesis
    proof (elim disjE conjE exE)
      assume "rc \<noteq> VORTEX_SUCCESS" "w1 = w"
      then show ?thesis using a s' b bal nb nk by (auto simp: add_kernel_def api_ok_def)
    next
      fix bin assume m: "vortex_kernel_load vx nw (bk_device b) True bin w = Some (rc, out, w1)"
      have "balanced w'" "bk_next_buffer_id b' = bk_next_buffer_id b"
        "bk_next_kernel_id b' = bk_next_kernel_id b \<or> bk_next_kernel_id b' = bk_next_kernel_id b + 1"
        using vortex_kernel_load_balanced [OF m bal vx(1)] a by (auto simp: add_kernel_def Let_def if_eq_cases)
      then show ?thesis using add_kernel_ok [OF b lt(2) m a] s' inc nb nk by (auto simp: api_ok_def)
    qed
  next
    case (Api_Set_Args i as)
    with r s obtain rc w' where m: "set_kernel_arguments vx i as b w = Some (rc, w')" and s': "s' = (Some b, w')"
      by (auto simp: vortex_backend_set_args_def with_backend_def reading_def)
    then have "balanced w'"
      using bal vx by (auto simp: set_kernel_arguments_def split: option.split_asm dest: vortex_kernel_set_args_balanced)
    then show ?thesis using set_args_ok [OF b m] s' nb nk by (simp add: api_ok_def)
  next
    case (Api_Set_Debug e)
    with r s obtain w' where m: "set_debug (e \<noteq> 0) b w = Some w'" and s': "s' = (Some b, w')"
      by (auto simp: vortex_backend_set_debug_def with_backend_def reading_def)
    then have "balanced w'" using bal by (auto simp: set_debug_def if_eq_cases dest: other_ops_balanced)
    then show ?thesis using set_debug_ok [OF b m] s' nb nk by (simp add: api_ok_def)
  next
    case (Api_H2d i p off k)
    with r s obtain w' where s': "s' = (Some b, w')"
      and m: "w' = w \<or> (\<exists>a rc kind. vortex_memcpy_offset vx a off p k kind w = Some (rc, w'))"
      by (auto simp: vortex_backend_h2d_def with_backend_def reading_def host_to_device_def split: option.split_asm)
    then have "vw_heap w' = vw_heap w" "balanced w'" using bal by (auto simp: vortex_memcpy_balanced dest: memcpy_heap)
    then show ?thesis using backend_ok_same [OF b] s' nb nk by (simp add: api_ok_def)
  next
    case (Api_D2h p i off k)
    with r s obtain w' where s': "s' = (Some b, w')"
      and m: "w' = w \<or> (\<exists>a rc kind. vortex_memcpy_offset vx a off p k kind w = Some (rc, w'))"
      by (auto simp: vortex_backend_d2h_def with_backend_def reading_def device_to_host_def split: option.split_asm)
    then have "vw_heap w' = vw_heap w" "balanced w'" using bal by (auto simp: vortex_memcpy_balanced dest: memcpy_heap)
    then show ?thesis using backend_ok_same [OF b] s' nb nk by (simp add: api_ok_def)
  next
    case (Api_Launch i)
    with r s obtain w' where s': "s' = (Some b, w')"
      and m: "w' = w \<or> (\<exists>a rc. vortex_kernel_launch vx (bk_device b) a True w = Some (rc, w'))"
      by (auto simp: vortex_backend_launch_def with_backend_def reading_def launch_kernel_def split: option.split_asm)
    then have "vw_heap w' = vw_heap w" "balanced w'" using bal by (auto dest: still_heap other_ops_balanced)
    then show ?thesis using backend_ok_same [OF b] s' nb nk by (simp add: api_ok_def)
  next
    case Api_Sync
    with r s backend_okD(1) [OF b] obtain rc w' where s': "s' = (Some b, w')"
      and m: "vortex_device_wait vx (bk_device b) VX_MAX_TIMEOUT w = Some (rc, w')"
      by (auto simp: vortex_backend_sync_def with_backend_def reading_def synchronize_def vortex_device_synchronize_def)
    then have "vw_heap w' = vw_heap w" "balanced w'" using bal by (auto dest: still_heap other_ops_balanced)
    then show ?thesis using backend_ok_same [OF b] s' nb nk by (simp add: api_ok_def)
  qed
qed


lemma api_run_ok:
  assumes "api_ok n s" "n + length ops < 2 ^ 64" "vx_handles_ok vx" "args_alloc_ok vx" "api_run vx nw fs ops s = Some s'"
  shows "\<exists>m. api_ok m s'"
  using assms
proof (induction ops arbitrary: n s)
  case Nil
  then show ?case by auto
next
  case (Cons x xs)
  then obtain s1 where s1: "api_step vx nw fs x s = Some s1" "api_run vx nw fs xs s1 = Some s'"
    by (auto split: option.split_asm)
  have "api_ok (n + 1) s1" using api_step_ok [OF Cons.prems(1) _ Cons.prems(3,4) s1(1)] Cons.prems(2) by simp
  then show ?case using Cons.IH [of "n + 1" s1] Cons.prems s1 by simp
qed

lemma rc_int_0 [simp]: "rc_int rc = 0 \<longleftrightarrow> rc = VORTEX_SUCCESS"
  by (cases rc) auto

lemma not_initialized [simp]: "\<not> bk_initialized new_backend"
  by (simp add: new_backend_def)

lemma init_ok:
  assumes "vortex_backend_init vx nw junk p (None, vx_start m) = Some (0, s)"
  shows "api_ok 1 s"
proof -
  from assms obtain rc out w1 where i: "vortex_device_init vx nw junk True p (vx_start m) = Some (rc, out, w1)"
    and rc: "rc = VORTEX_SUCCESS"
    and s: "s = (Some (new_backend\<lparr>bk_device := (case out of None \<Rightarrow> bk_device new_backend | Some a \<Rightarrow> a), bk_initialized := True\<rparr>), w1)"
    by (auto simp: vortex_backend_init_def initialize_def bind_eq_Some_conv if_eq_cases Let_def)
  from i rc obtain a d where a: "out = Some a" "a \<noteq> 0" "vw_heap w1 = (vw_heap (vx_start m))(a \<mapsto> Device d)"
    by (auto simp: vortex_device_init_def bind_eq_Some_conv if_eq_cases Let_def vx_do_case case_prod_beta
        dest!: new_objectD split: option.split_asm)
  have "balanced w1" by (rule vortex_device_init_balanced [OF i balanced_start])
  then show ?thesis using s a
    by (simp add: api_ok_def backend_ok_def new_backend_def map_ok_def vx_start_def)
qed


definition demo_fs :: file_sys where
  "demo_fs = \<lparr>fs_open = (\<lambda>_. 3), fs_fstat = (\<lambda>_. Some 4), fs_read = (\<lambda>_ _. Some [1, 2, 3, 4])\<rparr>"

definition demo_new4 :: vx_new where
  "demo_new4 h = (if h (demo_new h) = None then demo_new h else 0x40)"

definition demo_api_ops :: "api_op list" where
  "demo_api_ops = [Api_Malloc 64, Api_Load_Kernel_File ''k.bin'', Api_Set_Args 1 [(0x100, 4)], Api_Launch 1,
     Api_Malloc 0x200000, Api_Sync]"

definition demo_api :: api_state where
  "demo_api = snd (the (vortex_backend_init demo_vx demo_new4 0 None (None, vx_start (\<lambda>_. 0))))"

lemmas demo_device_simps = vx_start_def vortex_device_init_def vortex_malloc_def vortex_kernel_load_def
  vortex_kernel_load_file_def vortex_kernel_set_args_def vortex_kernel_launch_def vortex_device_wait_def
  vortex_device_synchronize_def query_caps_def query_cap_def vx_do_def demo_vx_def new_object_def demo_new_def demo_new4_def
  put_object_def device_at_def buffer_at_def kernel_at_def free_if_set_def args_total_def align_arg_def
  arg_bytes_def splice_def Let_def VX_MEM_READ_def VX_MEM_READ_WRITE_def

lemma demo_api_init:
  "vortex_backend_init demo_vx demo_new4 0 None (None, vx_start (\<lambda>_. 0)) = Some (0, demo_api)"
  by (simp add: demo_api_def vortex_backend_init_def initialize_def new_backend_def demo_device_simps)

lemma demo_api_run: "api_run demo_vx demo_new4 demo_fs demo_api_ops demo_api \<noteq> None"
  by (simp add: demo_api_def vortex_backend_init_def initialize_def new_backend_def demo_api_ops_def
      vortex_backend_malloc_def vortex_backend_load_kernel_file_def vortex_backend_set_args_def
      vortex_backend_launch_def vortex_backend_sync_def with_backend_def reading_def allocate_device_memory_def
      load_kernel_from_file_def add_kernel_def set_kernel_arguments_def backend_arg_def launch_kernel_def
      synchronize_def demo_fs_def demo_device_simps)


end
