(* ===== verification/Two_Pass.thy ===== *)
theory Two_Pass
  imports Vortex_Device Jit_Engine C_Env
begin

text \<open>
  The two-pass timing runtime of \<^verbatim>\<open>runtime/vortex_verilator_sim.cpp\<close>: a simulator context, the CXL
  latency model, and the context that profiles offload regions in a first run and injects the missing
  delay in a second. The Verilator model is a shared library found at run time: which symbols it has
  and what it answers are arguments. Clocks are inputs. Undefined behaviour (an access past an array,
  signed overflow) is \<open>None\<close>.
\<close>

section \<open>The simulator\<close>

definition VORTEX_CLOCK_FREQ_MHZ :: rat where "VORTEX_CLOCK_FREQ_MHZ = 200"
definition CXL_BASE_LATENCY_NS :: u64 where "CXL_BASE_LATENCY_NS = 165"

definition sim_cycles_to_ns :: "'d jit_fpu \<Rightarrow> u64 \<Rightarrow> 'd \<Rightarrow> u64" where
  "sim_cycles_to_ns J cycles mhz =
     jf_to_u64 J (fp_div (jf_base J) (fp_mul (jf_base J) (fp_of_u64 (jf_base J) cycles) (fp_lit (jf_base J) 1000)) mhz)"

definition ns_to_cycles :: "'d jit_fpu \<Rightarrow> u64 \<Rightarrow> 'd \<Rightarrow> u64" where
  "ns_to_cycles J ns mhz =
     jf_to_u64 J (fp_div (jf_base J) (fp_mul (jf_base J) (fp_of_u64 (jf_base J) ns) mhz) (fp_lit (jf_base J) 1000))"

record latency_model =
  lm_base_latency_ns :: u64
  lm_protocol_overhead_ns :: u64
  lm_queue_delay_ns :: u64
  lm_contention_factor :: u64

definition cxl_latency_model_init :: latency_model where
  "cxl_latency_model_init = \<lparr>lm_base_latency_ns = CXL_BASE_LATENCY_NS, lm_protocol_overhead_ns = 20,
     lm_queue_delay_ns = 10, lm_contention_factor = 1\<rparr>"

definition cxl_latency_model_calculate :: "latency_model option \<Rightarrow> u64 \<Rightarrow> bool \<Rightarrow> u64" where
  "cxl_latency_model_calculate mo access_size is_sequential =
     (case mo of
        None \<Rightarrow> CXL_BASE_LATENCY_NS
      | Some m \<Rightarrow>
          let latency = lm_base_latency_ns m + lm_protocol_overhead_ns m + lm_queue_delay_ns m;
              latency1 = (if is_sequential \<and> 64 < access_size
                          then lm_base_latency_ns m + ((access_size + 63) div 64 - 1) * 10 + lm_protocol_overhead_ns m
                          else latency)
          in latency1 * lm_contention_factor m)"

definition cxl_latency_model_update :: "'d jit_fpu \<Rightarrow> u64 \<Rightarrow> u64 \<Rightarrow> latency_model \<Rightarrow> latency_model" where
  "cxl_latency_model_update J observed_ns access_size m =
     (let F = jf_base J; alpha = fp_lit F (1 / 10);
          expected = fp_of_u64 F (cxl_latency_model_calculate (Some m) access_size False);
          observed = fp_of_u64 F observed_ns; cf = fp_of_u64 F (lm_contention_factor m)
      in if fp_lt F (fp_mul F expected (fp_lit F (11 / 10))) observed
         then m\<lparr>lm_contention_factor := jf_to_u64 J (fp_mul F cf (fp_add F (fp_lit F 1) alpha))\<rparr>
         else if fp_lt F observed (fp_mul F expected (fp_lit F (9 / 10))) \<and> 1 < lm_contention_factor m
         then m\<lparr>lm_contention_factor := jf_to_u64 J (fp_mul F cf (fp_sub F (fp_lit F 1) alpha))\<rparr>
         else m)"

text \<open>Calls into the Verilator model, with answers as those of the SDK. \<open>sl_symbol\<close> is \<open>dlsym\<close>.\<close>

datatype sim_call =
    Sim_Upload_Kernel "u8 list" | Sim_Copy_To_Dev u64 "u8 list" | Sim_Copy_From_Dev u64 u64
  | Sim_Start | Sim_Ready_Wait u64 | Sim_Get_Cycles | Sim_Destroy

type_synonym sim_log = "(sim_call \<times> vx_answer) list"

record sim_lib =
  sl_symbol :: "string \<Rightarrow> bool"
  sl_created :: bool
  sl_answer :: "sim_log \<Rightarrow> sim_call \<Rightarrow> vx_answer"

record 'd sim_ctx =
  sx_lib :: "sim_lib option"
  sx_memory :: "u64 \<Rightarrow> u8"
  sx_memory_size :: u64
  sx_cxl_latency_cycles :: u64
  sx_clock_freq_mhz :: 'd
  sx_total_cycles :: u64
  sx_memory_stall_cycles :: u64
  sx_cache_hits :: u64
  sx_cache_misses :: u64
  sx_latency_model :: latency_model
  sx_log :: sim_log

text \<open>A function pointer that was found, on a model that was created.\<close>

definition sim_has :: "'d sim_ctx \<Rightarrow> string \<Rightarrow> bool" where
  "sim_has c f = (case sx_lib c of None \<Rightarrow> False | Some l \<Rightarrow> sl_symbol l f \<and> sl_symbol l ''vx_create'' \<and> sl_created l)"

definition sim_do :: "sim_call \<Rightarrow> 'd sim_ctx \<Rightarrow> vx_answer \<times> 'd sim_ctx" where
  "sim_do call c = (let r = sl_answer (the (sx_lib c)) (sx_log c) call in (r, c\<lparr>sx_log := (call, r) # sx_log c\<rparr>))"

text \<open>\<open>dl\<close> is \<open>dlopen\<close>; \<open>calloc_ok\<close> and \<open>mmap_ok\<close> whether memory was obtained.\<close>

definition vortex_sim_init ::
  "'d jit_fpu \<Rightarrow> (string \<Rightarrow> sim_lib option) \<Rightarrow> bool \<Rightarrow> bool \<Rightarrow> string option \<Rightarrow> int \<times> 'd sim_ctx option" where
  "vortex_sim_init J dl calloc_ok mmap_ok sim_path =
     (if \<not> calloc_ok \<or> \<not> mmap_ok then (-1, None)
      else let mhz = fp_lit (jf_base J) VORTEX_CLOCK_FREQ_MHZ in
        (0, Some \<lparr>sx_lib = (case sim_path of None \<Rightarrow> None | Some p \<Rightarrow> if 0 < length p then dl p else None),
                  sx_memory = (\<lambda>_. 0), sx_memory_size = 512 * 1024 * 1024,
                  sx_cxl_latency_cycles = ns_to_cycles J CXL_BASE_LATENCY_NS mhz, sx_clock_freq_mhz = mhz,
                  sx_total_cycles = 0, sx_memory_stall_cycles = 0, sx_cache_hits = 0, sx_cache_misses = 0,
                  sx_latency_model = cxl_latency_model_init, sx_log = []\<rparr>))"

definition vortex_sim_set_memory_latency :: "'d jit_fpu \<Rightarrow> u64 \<Rightarrow> 'd sim_ctx \<Rightarrow> 'd sim_ctx" where
  "vortex_sim_set_memory_latency J latency_ns c =
     c\<lparr>sx_latency_model := (sx_latency_model c)\<lparr>lm_base_latency_ns := latency_ns\<rparr>,
       sx_cxl_latency_cycles := ns_to_cycles J latency_ns (sx_clock_freq_mhz c)\<rparr>"

text \<open>The simulated memory: an array of \<open>sx_memory_size\<close> bytes.\<close>

definition sim_store :: "u64 \<Rightarrow> u8 list \<Rightarrow> 'd sim_ctx \<Rightarrow> 'd sim_ctx option" where
  "sim_store off bs c =
     (if unat off + length bs \<le> unat (sx_memory_size c) then Some (c\<lparr>sx_memory := write_bytes (sx_memory c) off bs\<rparr>)
      else None)"

definition vortex_sim_load_kernel :: "u8 list \<Rightarrow> 'd sim_ctx \<Rightarrow> (int \<times> 'd sim_ctx) option" where
  "vortex_sim_load_kernel binary c =
     (if sim_has c ''vx_upload_kernel''
      then (case sim_do (Sim_Upload_Kernel binary) c of (r, c1) \<Rightarrow> Some (va_ret r, c1))
      else if length binary \<le> unat (sx_memory_size c) then map_option (Pair 0) (sim_store 0 binary c)
      else Some (-1, c))"

definition vortex_sim_upload_data :: "u64 \<Rightarrow> u8 list \<Rightarrow> 'd sim_ctx \<Rightarrow> (int \<times> 'd sim_ctx) option" where
  "vortex_sim_upload_data dev_addr host c =
     (if sim_has c ''vx_copy_to_dev''
      then (case sim_do (Sim_Copy_To_Dev dev_addr host) c of (r, c1) \<Rightarrow> Some (va_ret r, c1))
      else if dev_addr + of_nat (length host) \<le> sx_memory_size c then map_option (Pair 0) (sim_store dev_addr host c)
      else Some (-1, c))"

definition vortex_sim_download_data :: "u64 \<Rightarrow> u64 \<Rightarrow> 'd sim_ctx \<Rightarrow> (int \<times> u8 list \<times> 'd sim_ctx) option" where
  "vortex_sim_download_data dev_addr sz c =
     (if sim_has c ''vx_copy_from_dev''
      then (case sim_do (Sim_Copy_From_Dev dev_addr sz) c of (r, c1) \<Rightarrow> Some (va_ret r, va_data r, c1))
      else if dev_addr + sz \<le> sx_memory_size c
      then (if unat dev_addr + unat sz \<le> unat (sx_memory_size c)
            then Some (0, read_bytes (sx_memory c) dev_addr (unat sz), c) else None)
      else Some (-1, [], c))"

record 'd sim_timing =
  tm_total_cycles :: u64
  tm_compute_cycles :: u64
  tm_memory_stall_cycles :: u64
  tm_sync_cycles :: u64
  tm_total_time_ns :: u64
  tm_compute_time_ns :: u64
  tm_memory_stall_time_ns :: u64
  tm_cache_hits :: u64
  tm_cache_misses :: u64
  tm_memory_requests :: u64
  tm_prefetch_hits :: u64
  tm_prefetch_misses :: u64
  tm_avg_warp_occupancy :: 'd
  tm_divergent_branches :: u64

definition zero_timing :: "'d fpu \<Rightarrow> 'd sim_timing" where
  "zero_timing F = \<lparr>tm_total_cycles = 0, tm_compute_cycles = 0, tm_memory_stall_cycles = 0, tm_sync_cycles = 0,
     tm_total_time_ns = 0, tm_compute_time_ns = 0, tm_memory_stall_time_ns = 0, tm_cache_hits = 0, tm_cache_misses = 0,
     tm_memory_requests = 0, tm_prefetch_hits = 0, tm_prefetch_misses = 0, tm_avg_warp_occupancy = fp_lit F 0,
     tm_divergent_branches = 0\<rparr>"

definition estimate_kernel_cycles :: "u64 \<Rightarrow> bool \<Rightarrow> 'd sim_ctx \<Rightarrow> u64 \<times> 'd sim_ctx" where
  "estimate_kernel_cycles num_elements is_memory_bound c =
     (let compute = num_elements * 10 in
      if is_memory_bound
      then let hit = (num_elements div 2) * 5; miss = (num_elements div 2) * sx_cxl_latency_cycles c in
        (compute + hit + miss,
         c\<lparr>sx_memory_stall_cycles := miss, sx_cache_hits := num_elements div 2, sx_cache_misses := num_elements div 2\<rparr>)
      else (compute, c\<lparr>sx_memory_stall_cycles := 0, sx_cache_hits := num_elements, sx_cache_misses := 0\<rparr>))"

text \<open>The last part of \<open>vortex_sim_run\<close>: the derived fields.\<close>

definition fill_timing :: "'d jit_fpu \<Rightarrow> 'd sim_timing \<Rightarrow> 'd sim_ctx \<Rightarrow> 'd sim_timing \<times> 'd sim_ctx" where
  "fill_timing J t c =
     (let mhz = sx_clock_freq_mhz c; compute = tm_total_cycles t - tm_memory_stall_cycles t in
      (t\<lparr>tm_compute_cycles := compute,
         tm_total_time_ns := sim_cycles_to_ns J (tm_total_cycles t) mhz,
         tm_compute_time_ns := sim_cycles_to_ns J compute mhz,
         tm_memory_stall_time_ns := sim_cycles_to_ns J (tm_memory_stall_cycles t) mhz,
         tm_memory_requests := tm_cache_hits t + tm_cache_misses t,
         tm_avg_warp_occupancy := fp_lit (jf_base J) (3 / 4)\<rparr>,
       c\<lparr>sx_total_cycles := tm_total_cycles t\<rparr>))"

definition sim_cycles :: "'d sim_ctx \<Rightarrow> u64 \<times> 'd sim_ctx" where
  "sim_cycles c =
     (if sim_has c ''vx_get_cycles'' then (case sim_do Sim_Get_Cycles c of (r, c1) \<Rightarrow> (va_out r, c1)) else (0, c))"

definition vortex_sim_run :: "'d jit_fpu \<Rightarrow> 'd sim_ctx \<Rightarrow> int \<times> 'd sim_timing \<times> 'd sim_ctx" where
  "vortex_sim_run J c =
     (let t0 = zero_timing (jf_base J) in
      if sim_has c ''vx_start'' \<and> sim_has c ''vx_ready_wait''
      then (case sim_cycles c of (start, c1) \<Rightarrow>
            case sim_do Sim_Start c1 of (r, c2) \<Rightarrow>
              if va_ret r \<noteq> 0 then (va_ret r, t0, c2)
              else case sim_do (Sim_Ready_Wait 60000) c2 of (r2, c3) \<Rightarrow>
                if va_ret r2 \<noteq> 0 then (va_ret r2, t0, c3)
                else case sim_cycles c3 of (stop, c4) \<Rightarrow>
                  (0, fill_timing J (if sim_has c ''vx_get_cycles'' then t0\<lparr>tm_total_cycles := stop - start\<rparr> else t0) c4))
      else (case estimate_kernel_cycles 10000 True c of (total_cycles, c1) \<Rightarrow>
              (0, fill_timing J (t0\<lparr>tm_total_cycles := total_cycles, tm_memory_stall_cycles := sx_memory_stall_cycles c1,
                    tm_cache_hits := sx_cache_hits c1, tm_cache_misses := sx_cache_misses c1\<rparr>) c1)))"

definition vortex_sim_reset :: "'d sim_ctx \<Rightarrow> 'd sim_ctx" where
  "vortex_sim_reset c = c\<lparr>sx_total_cycles := 0, sx_memory_stall_cycles := 0, sx_cache_hits := 0, sx_cache_misses := 0,
     sx_memory := memset (sx_memory c) 0 0 (unat (sx_memory_size c))\<rparr>"

section \<open>Regions and modes\<close>

record 'd region_profile =
  rp_region_id :: u32
  rp_region_name :: "string option"
  rp_host_independent_work_ns :: u64
  rp_vortex_timing :: "'d sim_timing"
  rp_injection_delay_ns :: u64
  rp_latency_hidden :: bool
  rp_prefetch_slack_ns :: u64
  rp_optimal_prefetch_depth :: u32
  rp_optimal_batch_size :: u32
  rp_optimal_traversal_depth :: u32
  rp_optimal_pipeline_distance :: u32
  rp_host_device_split :: 'd
  rp_should_offload :: bool
  rp_jit_reason_bits :: u32

definition zero_profile :: "'d fpu \<Rightarrow> 'd region_profile" where
  "zero_profile F = \<lparr>rp_region_id = 0, rp_region_name = None, rp_host_independent_work_ns = 0,
     rp_vortex_timing = zero_timing F, rp_injection_delay_ns = 0, rp_latency_hidden = False, rp_prefetch_slack_ns = 0,
     rp_optimal_prefetch_depth = 0, rp_optimal_batch_size = 0, rp_optimal_traversal_depth = 0,
     rp_optimal_pipeline_distance = 0, rp_host_device_split = fp_lit F 0, rp_should_offload = False, rp_jit_reason_bits = 0\<rparr>"

datatype twopass_mode = TWOPASS_MODE_DISABLED | TWOPASS_MODE_PROFILING | TWOPASS_MODE_INJECTION

text \<open>\<open>tp_regions\<close> is the allocated array, \<open>tp_num_regions\<close> how many the program believes in.\<close>

record 'd twopass =
  tp_mode :: twopass_mode
  tp_regions :: "'d region_profile list"
  tp_num_regions :: u32
  tp_regions_capacity :: u32
  tp_current_region_id :: u32
  tp_host_work_start :: "int \<times> int"
  tp_host_work_active :: bool
  tp_sim :: "'d sim_ctx"
  tp_cxl_latency_ns :: u64
  tp_clock_freq_mhz :: 'd

definition twopass_init ::
  "'d jit_fpu \<Rightarrow> (string \<Rightarrow> sim_lib option) \<Rightarrow> bool \<Rightarrow> bool \<Rightarrow> bool \<Rightarrow> string option \<Rightarrow> int \<times> 'd twopass option" where
  "twopass_init J dl regions_ok calloc_ok mmap_ok sim_path =
     (if \<not> regions_ok then (-1, None)
      else case vortex_sim_init J dl calloc_ok mmap_ok sim_path of
        (ret, None) \<Rightarrow> (ret, None)
      | (ret, Some c) \<Rightarrow>
          (0, Some \<lparr>tp_mode = TWOPASS_MODE_DISABLED, tp_regions = replicate 64 (zero_profile (jf_base J)),
                    tp_num_regions = 0, tp_regions_capacity = 64, tp_current_region_id = 0, tp_host_work_start = (0, 0),
                    tp_host_work_active = False, tp_sim = c, tp_cxl_latency_ns = CXL_BASE_LATENCY_NS,
                    tp_clock_freq_mhz = fp_lit (jf_base J) VORTEX_CLOCK_FREQ_MHZ\<rparr>))"

definition twopass_set_profiling_mode :: "'d twopass \<Rightarrow> 'd twopass" where
  "twopass_set_profiling_mode t = t\<lparr>tp_mode := TWOPASS_MODE_PROFILING\<rparr>"

text \<open>\<open>realloc\<close> to a new capacity: \<open>junk\<close> is what new memory holds, \<open>None\<close> that there was none.\<close>

definition grow_regions :: "'d region_profile option \<Rightarrow> 'd twopass \<Rightarrow> 'd twopass option" where
  "grow_regions junk t =
     (let new_capacity = tp_regions_capacity t * 2 in
      case junk of
        None \<Rightarrow> None
      | Some j \<Rightarrow> Some (t\<lparr>tp_regions := take (unat new_capacity) (tp_regions t @ replicate (unat new_capacity) j),
                          tp_regions_capacity := new_capacity\<rparr>))"

definition put_region :: "u32 \<Rightarrow> 'd region_profile \<Rightarrow> 'd twopass \<Rightarrow> 'd twopass option" where
  "put_region i r t =
     (if unat i < length (tp_regions t) then Some (t\<lparr>tp_regions := (tp_regions t)[unat i := r]\<rparr>) else None)"

definition region_at :: "u32 \<Rightarrow> 'd twopass \<Rightarrow> 'd region_profile option" where
  "region_at i t = (if unat i < length (tp_regions t) then Some (tp_regions t ! unat i) else None)"

definition twopass_register_region ::
  "'d fpu \<Rightarrow> 'd region_profile option \<Rightarrow> string option \<Rightarrow> 'd twopass \<Rightarrow> (u32 \<times> 'd twopass) option" where
  "twopass_register_region F junk name t =
     (case (if tp_regions_capacity t \<le> tp_num_regions t then grow_regions junk t else Some t) of
        None \<Rightarrow> Some (- 1, t)
      | Some t1 \<Rightarrow>
          let i = tp_num_regions t1 in
          map_option (Pair i)
            (put_region i ((zero_profile F)\<lparr>rp_region_id := i, rp_region_name := name\<rparr>) (t1\<lparr>tp_num_regions := i + 1\<rparr>)))"

definition twopass_host_work_start :: "int \<times> int \<Rightarrow> u32 \<Rightarrow> 'd twopass \<Rightarrow> 'd twopass" where
  "twopass_host_work_start now region_id t =
     (if tp_mode t \<noteq> TWOPASS_MODE_PROFILING then t
      else t\<lparr>tp_host_work_start := now, tp_current_region_id := region_id, tp_host_work_active := True\<rparr>)"

definition twopass_host_work_end :: "int \<times> int \<Rightarrow> u32 \<Rightarrow> 'd twopass \<Rightarrow> 'd twopass option" where
  "twopass_host_work_end now region_id t =
     (if tp_mode t \<noteq> TWOPASS_MODE_PROFILING \<or> \<not> tp_host_work_active t then Some t
      else let host_ns = of_int (fst now - fst (tp_host_work_start t)) * 1000000000 +
                         of_int (snd now - snd (tp_host_work_start t));
               t1 = t\<lparr>tp_host_work_active := False\<rparr>
        in if region_id < tp_num_regions t
           then do { r \<leftarrow> region_at region_id t; put_region region_id (r\<lparr>rp_host_independent_work_ns := host_ns\<rparr>) t1 }
           else Some t1)"

definition twopass_launch_kernel :: "'d jit_fpu \<Rightarrow> u32 \<Rightarrow> u8 list \<Rightarrow> u8 list \<Rightarrow> 'd twopass \<Rightarrow> (int \<times> 'd twopass) option" where
  "twopass_launch_kernel J region_id binary args t =
     (if tp_mode t \<noteq> TWOPASS_MODE_PROFILING then Some (0, t)
      else if tp_num_regions t \<le> region_id then Some (-1, t)
      else do {
        r \<leftarrow> region_at region_id t;
        (ret, c1) \<leftarrow> vortex_sim_load_kernel binary (tp_sim t);
        if ret \<noteq> 0 then Some (ret, t\<lparr>tp_sim := c1\<rparr>)
        else do {
          (ret2, c2) \<leftarrow> vortex_sim_upload_data 0x10000 args c1;
          if ret2 \<noteq> 0 then Some (ret2, t\<lparr>tp_sim := c2\<rparr>)
          else case vortex_sim_run J c2 of (ret3, timing, c3) \<Rightarrow>
            map_option (Pair ret3) (put_region region_id (r\<lparr>rp_vortex_timing := timing\<rparr>) (t\<lparr>tp_sim := c3\<rparr>))
        }
      })"

section \<open>The synchronization point\<close>

text \<open>The workload handed to the cost model, and its limits.\<close>

definition region_workload :: "'d fpu \<Rightarrow> 'd region_profile \<Rightarrow> 'd workload" where
  "region_workload F r = \<lparr>wl_host_independent_work_ns = rp_host_independent_work_ns r,
     wl_vortex_total_time_ns = tm_total_time_ns (rp_vortex_timing r),
     wl_vortex_compute_cycles = tm_compute_cycles (rp_vortex_timing r),
     wl_vortex_memory_stall_cycles = tm_memory_stall_cycles (rp_vortex_timing r),
     wl_vortex_total_cycles = tm_total_cycles (rp_vortex_timing r), wl_cache_hits = tm_cache_hits (rp_vortex_timing r),
     wl_cache_misses = tm_cache_misses (rp_vortex_timing r), wl_num_elements = 0, wl_host_per_elem_ns = fp_lit F 0\<rparr>"

definition region_limits :: "'d fpu \<Rightarrow> 'd twopass \<Rightarrow> 'd hw_limits" where
  "region_limits F t = (cira_jit_default_limits F)\<lparr>hl_cxl_latency_ns := fp_of_u64 F (tp_cxl_latency_ns t),
     hl_clock_freq_mhz := tp_clock_freq_mhz t\<rparr>"

text \<open>Times are compared as signed; the subtraction is undefined when it overflows.\<close>

definition profile_region :: "'d fpu \<Rightarrow> 'd twopass \<Rightarrow> 'd region_profile \<Rightarrow> 'd region_profile option" where
  "profile_region F t r =
     (let t_host = rp_host_independent_work_ns r; t_vortex = tm_total_time_ns (rp_vortex_timing r);
          gap = sint t_vortex - sint t_host; dec = cira_jit_decide F (region_workload F r) (region_limits F t)
      in if gap < - (2 ^ 63) \<or> 2 ^ 63 \<le> gap then None
         else Some (r\<lparr>rp_injection_delay_ns := t_vortex - t_host, rp_latency_hidden := sint t_vortex \<le> sint t_host,
           rp_optimal_batch_size := jd_batch_size dec, rp_optimal_traversal_depth := jd_traversal_depth dec,
           rp_optimal_pipeline_distance := jd_pipeline_distance dec, rp_optimal_prefetch_depth := jd_pipeline_distance dec,
           rp_host_device_split := jd_host_device_split dec, rp_should_offload := jd_should_offload dec,
           rp_jit_reason_bits := jd_reason_bits dec\<rparr>))"

datatype delay = No_Delay | Usleep u32 | Busy_Wait u64

definition injected_delay :: "'d region_profile \<Rightarrow> delay" where
  "injected_delay r =
     (let d = rp_injection_delay_ns r in
      if sint d \<le> 0 then No_Delay
      else if 1000 \<le> sint d then Usleep (ucast (d div 1000)) else Busy_Wait d)"

text \<open>
  The busy wait on the readings of the clock in nanoseconds: reading 0 is the start, the loop reads
  from reading 1 on. The result is the reading it stops at.
\<close>

partial_function (option) busy_wait :: "(nat \<Rightarrow> u64) \<Rightarrow> u64 \<Rightarrow> nat \<Rightarrow> nat option" where
  "busy_wait clk target n = (if clk n - clk 0 < target then busy_wait clk target (n + 1) else Some n)"

definition twopass_sync_point :: "'d fpu \<Rightarrow> u32 \<Rightarrow> 'd twopass \<Rightarrow> (delay \<times> 'd twopass) option" where
  "twopass_sync_point F region_id t =
     (if tp_num_regions t \<le> region_id then Some (No_Delay, t)
      else do {
        r \<leftarrow> region_at region_id t;
        case tp_mode t of
          TWOPASS_MODE_PROFILING \<Rightarrow> do { r1 \<leftarrow> profile_region F t r; map_option (Pair No_Delay) (put_region region_id r1 t) }
        | TWOPASS_MODE_INJECTION \<Rightarrow> Some (injected_delay r, t)
        | TWOPASS_MODE_DISABLED \<Rightarrow> Some (No_Delay, t)
      })"

section \<open>Prefetch placement\<close>

record placement =
  pp_region_id :: u32
  pp_dominator_block_id :: u32
  pp_user_block_id :: u32
  pp_available_slack_ns :: u64
  pp_required_prefetch_ns :: u64
  pp_can_hide_latency :: bool
  pp_recommended_depth :: u32
  pp_should_hoist_h2d :: bool
  pp_should_sink_d2h :: bool

definition twopass_compute_prefetch_placement ::
  "u32 \<Rightarrow> u32 \<Rightarrow> u32 \<Rightarrow> 'd twopass \<Rightarrow> (int \<times> placement option) option" where
  "twopass_compute_prefetch_placement region_id dominator user t =
     (if tp_num_regions t \<le> region_id then Some (-1, None)
      else do {
        r \<leftarrow> region_at region_id t;
        let slack = rp_host_independent_work_ns r;
        let required = tm_memory_stall_time_ns (rp_vortex_timing r);
        Some (0, Some \<lparr>pp_region_id = region_id, pp_dominator_block_id = dominator, pp_user_block_id = user,
          pp_available_slack_ns = slack, pp_required_prefetch_ns = required, pp_can_hide_latency = required \<le> slack,
          pp_recommended_depth = rp_optimal_prefetch_depth r, pp_should_hoist_h2d = tp_cxl_latency_ns t * 10 < slack,
          pp_should_sink_d2h = True\<rparr>)
      })"

text \<open>The rows of the generated table: region, delay, depth and the three placement flags.\<close>

fun annotation_rows :: "u32 list \<Rightarrow> 'd twopass \<Rightarrow> (u32 \<times> u64 \<times> u32 \<times> bool \<times> bool \<times> bool) list option" where
  "annotation_rows [] t = Some []"
| "annotation_rows (i # is) t =
     do {
       r \<leftarrow> region_at i t;
       (_, p) \<leftarrow> twopass_compute_prefetch_placement i 0 0 t;
       rows \<leftarrow> annotation_rows is t;
       Some ((rp_region_id r, rp_injection_delay_ns r, rp_optimal_prefetch_depth r, pp_can_hide_latency (the p),
              pp_should_hoist_h2d (the p), pp_should_sink_d2h (the p)) # rows)
     }"

section \<open>Loading a profile\<close>

fun strstr :: "string \<Rightarrow> string \<Rightarrow> string option" where
  "strstr key [] = (if key = [] then Some [] else None)"
| "strstr key (c # cs) = (if take (length key) (c # cs) = key then Some (c # cs) else strstr key cs)"

text \<open>\<open>strtoll\<close> in base 10, with its saturation.\<close>

definition strtoll10 :: "string \<Rightarrow> int" where
  "strtoll10 s =
     (let t = dropWhile c_isspace s; neg = (t \<noteq> [] \<and> hd t = CHR ''-'');
          sg = (if t \<noteq> [] \<and> (hd t = CHR ''-'' \<or> hd t = CHR ''+'') then 1 else 0);
          v = int (fst (scan_digits 10 (drop sg t) 0))
      in if neg then max (- (2 ^ 63)) (- v) else min (2 ^ 63 - 1) v)"

text \<open>The text after the first colon that follows a key, without white space.\<close>

definition json_value :: "string \<Rightarrow> string \<Rightarrow> string option" where
  "json_value str key =
     (case strstr (CHR 0x22 # key @ [CHR 0x22]) str of
        None \<Rightarrow> None
      | Some pos \<Rightarrow>
          (case dropWhile (\<lambda>c. c \<noteq> CHR '':'') pos of
             [] \<Rightarrow> None
           | _ # rest \<Rightarrow> Some (dropWhile c_isspace rest)))"

definition parse_json_int :: "string \<Rightarrow> string \<Rightarrow> int" where
  "parse_json_int str key = (case json_value str key of None \<Rightarrow> 0 | Some v \<Rightarrow> strtoll10 v)"

definition parse_json_bool :: "string \<Rightarrow> string \<Rightarrow> bool" where
  "parse_json_bool str key = (case json_value str key of None \<Rightarrow> False | Some v \<Rightarrow> take 4 v = ''true'')"

text \<open>One region, parsed from its \<open>region_id\<close> on.\<close>

definition parse_region :: "'d fpu \<Rightarrow> string \<Rightarrow> 'd region_profile" where
  "parse_region F pos = (zero_profile F)\<lparr>rp_region_id := of_int (parse_json_int pos ''region_id''),
     rp_host_independent_work_ns := of_int (parse_json_int pos ''host_independent_work_ns''),
     rp_vortex_timing := (zero_timing F)\<lparr>tm_total_cycles := of_int (parse_json_int pos ''total_cycles''),
       tm_total_time_ns := of_int (parse_json_int pos ''total_time_ns'')\<rparr>,
     rp_injection_delay_ns := of_int (parse_json_int pos ''injection_delay_ns''),
     rp_latency_hidden := parse_json_bool pos ''latency_hidden'',
     rp_optimal_prefetch_depth := of_int (parse_json_int pos ''optimal_prefetch_depth''),
     rp_optimal_batch_size := of_int (parse_json_int pos ''batch_size''),
     rp_optimal_traversal_depth := of_int (parse_json_int pos ''traversal_depth''),
     rp_optimal_pipeline_distance := of_int (parse_json_int pos ''pipeline_distance''),
     rp_should_offload := parse_json_bool pos ''should_offload'',
     rp_jit_reason_bits := of_int (parse_json_int pos ''reason_bits''),
     rp_host_device_split := fp_lit F 0\<rparr>"

lemma strstr_length: "strstr key s = Some p \<Longrightarrow> length p \<le> length s \<and> (key \<noteq> [] \<longrightarrow> p \<noteq> [])"
  by (induction s) (auto split: if_split_asm)

function load_regions :: "'d fpu \<Rightarrow> 'd region_profile option \<Rightarrow> string \<Rightarrow> u32 \<Rightarrow> 'd twopass \<Rightarrow> 'd twopass option" where
  "load_regions F junk pos idx t =
     (case strstr (CHR 0x22 # ''region_id'' @ [CHR 0x22]) pos of
        None \<Rightarrow> Some t
      | Some p \<Rightarrow>
          if tp_num_regions t \<le> idx then Some t
          else let t1 = (if tp_regions_capacity t \<le> idx
                         then (case grow_regions junk t of None \<Rightarrow> t | Some t1 \<Rightarrow> t1) else t)
            in (case put_region idx (parse_region F p) t1 of
                  None \<Rightarrow> None
                | Some t2 \<Rightarrow> load_regions F junk (tl p) (idx + 1) t2))"
  by pat_completeness auto
termination
  by (relation "measure (\<lambda>(F, junk, pos, idx, t). length pos)") (auto dest!: strstr_length simp: neq_Nil_conv)

declare load_regions.simps [simp del]

text \<open>\<open>fopen\<close> and the whole file as an input; \<open>malloc\<close> may fail.\<close>

definition twopass_load_profile ::
  "'d fpu \<Rightarrow> 'd region_profile option \<Rightarrow> string option \<Rightarrow> bool \<Rightarrow> 'd twopass \<Rightarrow> (int \<times> 'd twopass) option" where
  "twopass_load_profile F junk file malloc_ok t =
     (case file of
        None \<Rightarrow> Some (-1, t)
      | Some content \<Rightarrow>
          if \<not> malloc_ok then Some (-1, t)
          else let t1 = t\<lparr>tp_num_regions := of_int (parse_json_int content ''num_regions''),
                  tp_clock_freq_mhz := fp_lit F (of_int (parse_json_int content ''clock_freq_mhz'')),
                  tp_cxl_latency_ns := of_int (parse_json_int content ''cxl_latency_ns'')\<rparr>
            in (case strstr (CHR 0x22 # ''regions'' @ [CHR 0x22]) content of
                  None \<Rightarrow> Some (0, t1)
                | Some start \<Rightarrow> map_option (Pair 0) (load_regions F junk start 0 t1)))"

text \<open>\<open>profile\<close> is the path, with what opening it gives: \<open>None\<close> is a null path.\<close>

definition twopass_set_injection_mode ::
  "'d fpu \<Rightarrow> 'd region_profile option \<Rightarrow> string option option \<Rightarrow> bool \<Rightarrow> 'd twopass \<Rightarrow> (int \<times> 'd twopass) option" where
  "twopass_set_injection_mode F junk profile malloc_ok t =
     (let t1 = t\<lparr>tp_mode := TWOPASS_MODE_INJECTION\<rparr> in
      case profile of None \<Rightarrow> Some (0, t1) | Some file \<Rightarrow> twopass_load_profile F junk file malloc_ok t1)"

section \<open>The two passes\<close>

lemma region_put_same [simp]: "put_region i r t = Some t' \<Longrightarrow> region_at i t' = Some r"
  by (auto simp: put_region_def region_at_def split: if_split_asm)

lemma put_region_fields:
  "put_region i r t = Some t' \<Longrightarrow> t' = t\<lparr>tp_regions := (tp_regions t)[unat i := r]\<rparr>"
  by (auto simp: put_region_def split: if_split_asm)

lemma sint_of_int_u64: "- (2 ^ 63) \<le> k \<Longrightarrow> k < 2 ^ 63 \<Longrightarrow> sint (of_int k :: u64) = k"
  by (simp add: sint_sbintrunc' signed_take_bit_int_eq_self)

lemma injected_gap:
  assumes "rp_injection_delay_ns r = of_int (int tv - int th)" "th < 2 ^ 63" "tv < 2 ^ 63"
  shows "injected_delay r = (if tv \<le> th then No_Delay else if 1000 \<le> tv - th then Usleep (of_nat ((tv - th) div 1000))
      else Busy_Wait (of_nat (tv - th)))"
proof -
  have s: "sint (rp_injection_delay_ns r) = int tv - int th"
    unfolding assms(1) by (rule sint_of_int_u64) (use assms(2,3) in auto)
  show ?thesis
  proof (cases "tv \<le> th")
    case True
    then show ?thesis by (simp add: injected_delay_def s)
  next
    case False
    then have e: "rp_injection_delay_ns r = of_nat (tv - th)" unfolding assms(1) by (simp add: of_nat_diff)
    have "unat (of_nat (tv - th) :: u64) = tv - th" using assms(3) by (intro unat_of_nat_u64) simp
    then have "unat (of_nat (tv - th) div 1000 :: u64) = (tv - th) div 1000" by (simp add: unat_div)
    then have "ucast (of_nat (tv - th) div 1000 :: u64) = (of_nat ((tv - th) div 1000) :: u32)"
      by (metis of_nat_unat)
    then show ?thesis using False s by (auto simp: injected_delay_def e Let_def)
  qed
qed


definition demo_region :: "rat region_profile" where
  "demo_region = (zero_profile exact_fpu)\<lparr>rp_host_independent_work_ns := 4000,
     rp_vortex_timing := (zero_timing exact_fpu)\<lparr>tm_total_time_ns := 9500, tm_total_cycles := 1900\<rparr>\<rparr>"

definition demo_twopass :: "rat twopass" where
  "demo_twopass = (twopass_set_profiling_mode (the (snd (twopass_init exact_jit_fpu (\<lambda>_. None) True True True None))))
     \<lparr>tp_num_regions := 1, tp_regions := [demo_region]\<rparr>"


section \<open>Busy waiting\<close>

text \<open>The busy wait returns at the first reading that reaches the target, and only if there is one.\<close>

lemma busy_wait_steps:
  assumes "\<forall>k < n. clk (m + k) - clk 0 < target"
  shows "busy_wait clk target m = busy_wait clk target (m + n)"
  using assms
proof (induction n)
  case (Suc n)
  then have "busy_wait clk target m = busy_wait clk target (m + n)" by simp
  also have "\<dots> = busy_wait clk target (m + Suc n)" using Suc.prems by (subst busy_wait.simps) simp
  finally show ?case .
qed simp

theorem busy_wait_first:
  assumes "1 \<le> n" "target \<le> clk n - clk 0" "\<forall>k. 1 \<le> k \<and> k < n \<longrightarrow> clk k - clk 0 < target"
  shows "busy_wait clk target 1 = Some n"
proof -
  have "busy_wait clk target 1 = busy_wait clk target n"
    using busy_wait_steps [of "n - 1" clk 1 target] assms(1,3) by simp
  then show ?thesis using assms(2) by (subst (asm) (2) busy_wait.simps) (auto dest: leD)
qed

lemma busy_wait_first_witness: "busy_wait (\<lambda>k. if k < 3 then 50 else 250) 100 1 = Some 3"
  by (rule busy_wait_first) simp_all

section \<open>The latency model\<close>

text \<open>
  The contention factor starts at 1, and 1.1 truncated is 1: however slow the accesses observed, the
  model never learns contention.
\<close>

theorem latency_model_never_adapts:
  "foldl (\<lambda>m (observed, n). cxl_latency_model_update exact_jit_fpu observed n m) cxl_latency_model_init obs =
     cxl_latency_model_init"
proof (induction obs)
  case (Cons x xs)
  obtain observed n where x: "x = (observed, n)" by (cases x)
  have "\<lfloor>11 / 10 :: rat\<rfloor> = 1" by (rule floor_unique) simp_all
  then have "cxl_latency_model_update exact_jit_fpu observed n cxl_latency_model_init = cxl_latency_model_init"
    by (simp add: cxl_latency_model_update_def cxl_latency_model_init_def exact_jit_fpu_def exact_fpu_def Let_def)
  then show ?case using Cons.IH x by simp
qed simp

section \<open>Saving a profile\<close>

definition qt :: "string \<Rightarrow> string" where "qt s = CHR 0x22 # s @ [CHR 0x22]"
definition nl :: string where "nl = [CHR 0x0A]"

text \<open>One line: indentation, quoted name, value.\<close>

definition field :: "nat \<Rightarrow> string \<Rightarrow> string \<Rightarrow> string" where
  "field ind name v = replicate ind CHR '' '' @ qt name @ '': '' @ v @ nl"

definition udec :: "'a::len word \<Rightarrow> string" where "udec w = dec_digits (unat w)"

definition sdec :: "u64 \<Rightarrow> string" where
  "sdec w = (if sint w < 0 then CHR ''-'' # dec_digits (nat (- sint w)) else dec_digits (nat (sint w)))"

definition bool_text :: "bool \<Rightarrow> string" where "bool_text b = (if b then ''true'' else ''false'')"

text \<open>One region; \<open>fmt4\<close> is the conversion \<open>%.4f\<close>.\<close>

definition region_text :: "('d \<Rightarrow> string) \<Rightarrow> bool \<Rightarrow> 'd region_profile \<Rightarrow> string" where
  "region_text fmt4 is_last r =
     (let t = rp_vortex_timing r in
      ''    {'' @ nl @
      field 6 ''region_id'' (udec (rp_region_id r) @ '','') @
      field 6 ''region_name'' (qt (case rp_region_name r of None \<Rightarrow> [] | Some n \<Rightarrow> n) @ '','') @
      field 6 ''host_independent_work_ns'' (udec (rp_host_independent_work_ns r) @ '','') @
      field 6 ''vortex_timing'' ''{'' @
      field 8 ''total_cycles'' (udec (tm_total_cycles t) @ '','') @
      field 8 ''total_time_ns'' (udec (tm_total_time_ns t) @ '','') @
      field 8 ''compute_cycles'' (udec (tm_compute_cycles t) @ '','') @
      field 8 ''memory_stall_cycles'' (udec (tm_memory_stall_cycles t) @ '','') @
      field 8 ''cache_hits'' (udec (tm_cache_hits t) @ '','') @
      field 8 ''cache_misses'' (udec (tm_cache_misses t)) @
      ''      },'' @ nl @
      field 6 ''injection_delay_ns'' (sdec (rp_injection_delay_ns r) @ '','') @
      field 6 ''latency_hidden'' (bool_text (rp_latency_hidden r) @ '','') @
      field 6 ''optimal_prefetch_depth'' (udec (rp_optimal_prefetch_depth r) @ '','') @
      field 6 ''jit'' ''{'' @
      field 8 ''batch_size'' (udec (rp_optimal_batch_size r) @ '','') @
      field 8 ''traversal_depth'' (udec (rp_optimal_traversal_depth r) @ '','') @
      field 8 ''pipeline_distance'' (udec (rp_optimal_pipeline_distance r) @ '','') @
      field 8 ''host_device_split'' (fmt4 (rp_host_device_split r) @ '','') @
      field 8 ''should_offload'' (bool_text (rp_should_offload r) @ '','') @
      field 8 ''reason_bits'' (udec (rp_jit_reason_bits r)) @
      ''      }'' @ nl @
      ''    }'' @ (if is_last then [] else '','') @ nl)"

fun regions_text :: "('d \<Rightarrow> string) \<Rightarrow> 'd region_profile list \<Rightarrow> string" where
  "regions_text fmt4 [] = []"
| "regions_text fmt4 (r # rs) = region_text fmt4 (rs = []) r @ regions_text fmt4 rs"

definition profile_text :: "('d \<Rightarrow> string) \<Rightarrow> ('d \<Rightarrow> string) \<Rightarrow> 'd twopass \<Rightarrow> string" where
  "profile_text fmt2 fmt4 t =
     ''{'' @ nl @
     field 2 ''num_regions'' (udec (tp_num_regions t) @ '','') @
     field 2 ''clock_freq_mhz'' (fmt2 (tp_clock_freq_mhz t) @ '','') @
     field 2 ''cxl_latency_ns'' (udec (tp_cxl_latency_ns t) @ '','') @
     field 2 ''regions'' ''['' @
     regions_text fmt4 (take (unat (tp_num_regions t)) (tp_regions t)) @
     ''  ]'' @ nl @ ''}'' @ nl"

text \<open>\<open>opened\<close>: the output file could be opened. The result is the return value and what was written.\<close>

definition twopass_save_profile ::
  "('d \<Rightarrow> string) \<Rightarrow> ('d \<Rightarrow> string) \<Rightarrow> bool \<Rightarrow> 'd twopass \<Rightarrow> (int \<times> string option) option" where
  "twopass_save_profile fmt2 fmt4 opened t =
     (if \<not> opened then Some (-1, None)
      else if unat (tp_num_regions t) \<le> length (tp_regions t) then Some (0, Some (profile_text fmt2 fmt4 t)) else None)"

section \<open>Searching a profile\<close>

abbreviation quote_free :: "string \<Rightarrow> bool" where "quote_free s \<equiv> CHR 0x22 \<notin> set s"

lemma strstr_skip: "quote_free a \<Longrightarrow> strstr (qt k) (a @ b) = strstr (qt k) b"
  by (induction a) (auto simp: qt_def)

lemma strstr_hit: "strstr (qt k) (qt k @ b) = Some (qt k @ b)"
  by (simp add: qt_def)

lemma takeWhile_quote: "quote_free m \<Longrightarrow> takeWhile (\<lambda>c. c \<noteq> CHR 0x22) (m @ CHR 0x22 # z) = m"
  by (subst takeWhile_append2) auto

lemma quoted_prefix:
  assumes "take (Suc (length k)) (n @ CHR 0x22 # x) = k @ [CHR 0x22]" "quote_free k" "quote_free n"
  shows "n = k"
proof -
  have "n @ CHR 0x22 # x = (k @ [CHR 0x22]) @ drop (Suc (length k)) (n @ CHR 0x22 # x)"
    unfolding assms(1) [symmetric] by (rule append_take_drop_id [symmetric])
  then have "n @ CHR 0x22 # x = k @ CHR 0x22 # drop (Suc (length k)) (n @ CHR 0x22 # x)"
    by (simp only: append_assoc append_Cons append_Nil)
  then show ?thesis using takeWhile_quote [OF assms(2)] takeWhile_quote [OF assms(3)] by metis
qed

lemma strstr_miss:
  assumes "n \<noteq> k" "quote_free n" "quote_free k" "k \<noteq> []" "hd k \<noteq> c"
  shows "strstr (qt k) (qt n @ c # b) = strstr (qt k) (c # b)"
proof -
  have "take (Suc (length k)) (n @ CHR 0x22 # c # b) \<noteq> k @ [CHR 0x22]"
    using quoted_prefix [of k n "c # b"] assms by blast
  then have "strstr (qt k) (qt n @ c # b) = strstr (qt k) (n @ CHR 0x22 # c # b)" by (simp add: qt_def)
  also have "\<dots> = strstr (qt k) (CHR 0x22 # c # b)" by (rule strstr_skip [OF assms(2)])
  also have "\<dots> = strstr (qt k) (c # b)" using assms(4,5) by (cases k) (auto simp: qt_def)
  finally show ?thesis .
qed

text \<open>Looking a key up in a text that starts with a line of the profile.\<close>

definition key_ok :: "string \<Rightarrow> bool" where
  "key_ok k \<longleftrightarrow> k \<noteq> [] \<and> quote_free k \<and> CHR '':'' \<notin> set k \<and> hd k \<noteq> CHR '',''"

lemma key_okD: "key_ok k \<Longrightarrow> k \<noteq> []" "key_ok k \<Longrightarrow> quote_free k" "key_ok k \<Longrightarrow> hd k \<noteq> CHR '':''"
  "key_ok k \<Longrightarrow> hd k \<noteq> CHR '',''" "key_ok k \<Longrightarrow> CHR '':'' \<notin> set k"
  by (cases k; auto simp: key_ok_def)+

text \<open>A profile as pieces: lines without quotes, fields, and the line with the name of a region.\<close>

datatype piece = Raw string | Fld nat string string | Name string

fun render :: "piece \<Rightarrow> string" where
  "render (Raw l) = l"
| "render (Fld ind n v) = field ind n v"
| "render (Name nm) = field 6 ''region_name'' (qt nm @ '','')"

abbreviation render_all :: "piece list \<Rightarrow> string" where "render_all ps \<equiv> concat (map render ps)"

text \<open>A piece that a search for \<open>k\<close> passes over.\<close>

fun piece_other :: "string \<Rightarrow> piece \<Rightarrow> bool" where
  "piece_other k (Raw l) = quote_free l"
| "piece_other k (Fld ind n v) \<longleftrightarrow> n \<noteq> k \<and> quote_free n \<and> quote_free v"
| "piece_other k (Name nm) \<longleftrightarrow> ''region_name'' \<noteq> k \<and> nm \<noteq> k \<and> quote_free nm"

lemma strstr_field:
  assumes "n \<noteq> k" "key_ok k" "quote_free n"
  shows "strstr (qt k) (field ind n v @ s) = strstr (qt k) (v @ nl @ s)"
proof -
  note k = key_okD [OF assms(2)]
  have "strstr (qt k) (field ind n v @ s) = strstr (qt k) (qt n @ CHR '':'' # CHR '' '' # v @ nl @ s)"
    using strstr_skip [of "replicate ind CHR '' ''" k] by (simp add: field_def)
  also have "\<dots> = strstr (qt k) ((CHR '':'' # [CHR '' '']) @ v @ nl @ s)"
    using strstr_miss [OF assms(1,3) k(2,1,3)] by simp
  also have "\<dots> = strstr (qt k) (v @ nl @ s)" by (rule strstr_skip) simp
  finally show ?thesis .
qed

lemma strstr_piece:
  assumes "piece_other k p" "key_ok k"
  shows "strstr (qt k) (render p @ s) = strstr (qt k) s"
proof (cases p)
  case (Raw l)
  then show ?thesis using strstr_skip assms(1) by simp
next
  case (Fld ind n v)
  then have "strstr (qt k) (render p @ s) = strstr (qt k) ((v @ nl) @ s)" using assms strstr_field by simp
  then show ?thesis using strstr_skip [of "v @ nl" k s] Fld assms(1) by (simp add: nl_def)
next
  case (Name nm)
  then have "strstr (qt k) (render p @ s) = strstr (qt k) (qt nm @ CHR '','' # nl @ s)"
    using assms strstr_field [of "''region_name''" k 6 "qt nm @ '',''" s] by simp
  also have "\<dots> = strstr (qt k) (CHR '','' # nl @ s)"
    using Name assms(1) key_okD [OF assms(2)] by (intro strstr_miss) auto
  also have "\<dots> = strstr (qt k) ((CHR '','' # nl) @ s)" by simp
  also have "\<dots> = strstr (qt k) s" by (rule strstr_skip) (simp add: nl_def)
  finally show ?thesis .
qed

lemma strstr_pieces: "list_all (piece_other k) ps \<Longrightarrow> key_ok k \<Longrightarrow> strstr (qt k) (render_all ps @ s) = strstr (qt k) s"
  by (induction ps) (simp_all add: strstr_piece)

lemma strstr_at_field: "key_ok k \<Longrightarrow> strstr (qt k) (field ind k v @ s) = Some (field 0 k v @ s)"
  using strstr_skip [of "replicate ind CHR '' ''" k] strstr_hit [of k] by (simp add: field_def)

text \<open>After its first character the field is passed over.\<close>

lemma strstr_tl_field:
  assumes "key_ok k" "quote_free v"
  shows "strstr (qt k) (tl (field 0 k v @ s)) = strstr (qt k) s"
proof -
  note k = key_okD [OF assms(1)]
  have "strstr (qt k) (tl (field 0 k v @ s)) = strstr (qt k) (k @ CHR 0x22 # CHR '':'' # CHR '' '' # v @ nl @ s)"
    by (simp add: field_def qt_def)
  also have "\<dots> = strstr (qt k) (CHR 0x22 # CHR '':'' # CHR '' '' # v @ nl @ s)" by (rule strstr_skip [OF k(2)])
  also have "\<dots> = strstr (qt k) ((CHR '':'' # CHR '' '' # v @ nl) @ s)" using k(1,3) by (cases k) (auto simp: qt_def)
  also have "\<dots> = strstr (qt k) s" by (rule strstr_skip) (use assms(2) in \<open>simp add: nl_def\<close>)
  finally show ?thesis .
qed

text \<open>The value of a key after pieces that are passed over.\<close>

lemma json_at_field:
  assumes "key_ok k" "list_all (piece_other k) ps" "v \<noteq> []" "\<not> c_isspace (hd v)"
  shows "json_value (render_all ps @ field ind k v @ s) k = Some (v @ nl @ s)"
proof -
  note k = key_okD [OF assms(1)]
  have "strstr (qt k) (render_all ps @ field ind k v @ s) = Some (field 0 k v @ s)"
    using strstr_pieces [OF assms(2,1)] strstr_at_field [OF assms(1)] by simp
  moreover have "dropWhile (\<lambda>c. c \<noteq> CHR '':'') (field 0 k v @ s) = CHR '':'' # CHR '' '' # v @ nl @ s"
  proof -
    have "field 0 k v @ s = qt k @ CHR '':'' # CHR '' '' # v @ nl @ s" by (simp add: field_def)
    then show ?thesis using k(5) by (simp only:) (subst dropWhile_append2, auto simp: qt_def)
  qed
  moreover have "dropWhile c_isspace (CHR '' '' # v @ nl @ s) = v @ nl @ s"
    using assms(3,4) by (cases v) (simp_all add: c_isspace_def)
  ultimately show ?thesis by (simp add: json_value_def flip: qt_def)
qed

text \<open>Numbers and flags.\<close>

lemma scan_digits_prefix:
  assumes "\<forall>c\<in>set ds. is_digit 10 c" "s = [] \<or> \<not> is_digit 10 (hd s)"
  shows "fst (scan_digits 10 (ds @ s) acc) = fst (scan_digits 10 ds acc)"
  using assms
proof (induction ds arbitrary: acc)
  case Nil
  then show ?case by (cases s) (auto simp: is_digit_def split: option.splits)
next
  case (Cons d ds)
  then show ?case by (auto simp: is_digit_def split: option.splits prod.splits) (metis fst_conv)+
qed

lemma dec_digits_head: "dec_digits n \<noteq> [] \<and> is_digit 10 (hd (dec_digits n))"
proof -
  have "dec_digits n \<noteq> []" by (subst dec_digits.simps) simp
  then show ?thesis using dec_digits_are_digits [of n] by (cases "dec_digits n") auto
qed

lemma digit_not_special: "is_digit 10 c \<Longrightarrow> \<not> c_isspace c \<and> c \<noteq> CHR ''-'' \<and> c \<noteq> CHR ''+'' \<and> c \<noteq> CHR 0x22"
  by (auto simp: is_digit_def digit_val_def c_isspace_def Let_def split: if_split_asm)

lemma strtoll10_dec:
  assumes "s = [] \<or> \<not> is_digit 10 (hd s)"
  shows "strtoll10 (dec_digits n @ s) = min (2 ^ 63 - 1) (int n)"
    "strtoll10 (CHR ''-'' # dec_digits n @ s) = max (- (2 ^ 63)) (- int n)"
proof -
  obtain c cs where d: "dec_digits n = c # cs" "is_digit 10 c" using dec_digits_head [of n] by (cases "dec_digits n") auto
  note sp = digit_not_special [OF d(2)]
  have v: "fst (scan_digits 10 (dec_digits n @ s) 0) = n"
    using scan_digits_prefix [OF dec_digits_are_digits assms] by (simp add: scan_dec_digits)
  have "\<not> c_isspace CHR ''-''" by (simp add: c_isspace_def)
  then show "strtoll10 (dec_digits n @ s) = min (2 ^ 63 - 1) (int n)"
    "strtoll10 (CHR ''-'' # dec_digits n @ s) = max (- (2 ^ 63)) (- int n)"
    using v sp d by (simp_all add: strtoll10_def Let_def)
qed

section \<open>Save and load\<close>

lemma is_digit_special [simp]: "\<not> is_digit 10 CHR '',''" "\<not> is_digit 10 CHR 0x0A"
  by (simp_all add: is_digit_def digit_val_def)

lemma quote_free_dec [simp]: "quote_free (dec_digits n)"
  using dec_digits_are_digits [of n] digit_not_special by blast

lemma quote_free_texts [simp]: "quote_free (udec w)" "quote_free (sdec d)" "quote_free (bool_text b)"
  by (simp_all add: udec_def sdec_def bool_text_def)

text \<open>A value and what follows it: the comma or the end of the line.\<close>

definition ends_value :: "string \<Rightarrow> bool" where
  "ends_value e \<longleftrightarrow> e = '','' \<or> e = []"

lemma ends_value_simps [simp]: "ends_value '',''" "ends_value []"
  by (simp_all add: ends_value_def)

lemma after_value: "ends_value e \<Longrightarrow> e @ nl @ s = [] \<or> \<not> is_digit 10 (hd (e @ nl @ s))"
  by (auto simp: ends_value_def nl_def)

lemma value_head:
  "udec w @ e \<noteq> [] \<and> \<not> c_isspace (hd (udec w @ e))" "sdec d @ e \<noteq> [] \<and> \<not> c_isspace (hd (sdec d @ e))"
  "bool_text b @ e \<noteq> [] \<and> \<not> c_isspace (hd (bool_text b @ e))"
  using dec_digits_head digit_not_special by (auto simp: udec_def sdec_def bool_text_def c_isspace_def)

lemma parse_udec:
  assumes "key_ok k" "list_all (piece_other k) ps" "ends_value e"
  shows "parse_json_int (render_all ps @ field ind k (udec w @ e) @ s) k = min (2 ^ 63 - 1) (int (unat w))"
  using json_at_field [OF assms(1,2)] value_head(1) [of w e] strtoll10_dec(1) [OF after_value [OF assms(3)]]
  by (simp add: parse_json_int_def udec_def)

lemma parse_sdec:
  assumes "key_ok k" "list_all (piece_other k) ps" "ends_value e"
  shows "parse_json_int (render_all ps @ field ind k (sdec d @ e) @ s) k = sint d"
proof -
  have "parse_json_int (render_all ps @ field ind k (sdec d @ e) @ s) k = strtoll10 (sdec d @ e @ nl @ s)"
    using json_at_field [OF assms(1,2)] value_head(2) [of d e] by (simp add: parse_json_int_def)
  also have "\<dots> = sint d"
    using strtoll10_dec [OF after_value [OF assms(3)]] sint_greater_eq [of d] sint_less [of d] by (simp add: sdec_def)
  finally show ?thesis .
qed

lemma parse_bool_text:
  assumes "key_ok k" "list_all (piece_other k) ps"
  shows "parse_json_bool (render_all ps @ field ind k (bool_text b @ e) @ s) k = b"
  using json_at_field [OF assms] value_head(3) [of b e] by (simp add: parse_json_bool_def bool_text_def)

text \<open>The first field of a name, among pieces that are well formed.\<close>

fun find_field :: "string \<Rightarrow> piece list \<Rightarrow> string option" where
  "find_field k [] = None"
| "find_field k (Fld ind n v # ps) = (if n = k then Some v else find_field k ps)"
| "find_field k (Raw l # ps) = find_field k ps"
| "find_field k (Name nm # ps) = find_field k ps"

fun piece_fine :: "string \<Rightarrow> piece \<Rightarrow> bool" where
  "piece_fine k (Raw l) = quote_free l"
| "piece_fine k (Fld ind n v) \<longleftrightarrow> quote_free n \<and> quote_free v"
| "piece_fine k (Name nm) \<longleftrightarrow> ''region_name'' \<noteq> k \<and> nm \<noteq> k \<and> quote_free nm"

lemma find_field_split:
  assumes "list_all (piece_fine k) ps" "find_field k ps = Some v"
  shows "\<exists>ps1 ind ps2. ps = ps1 @ Fld ind k v # ps2 \<and> list_all (piece_other k) ps1"
  using assms
proof (induction k ps rule: find_field.induct)
  case (2 k ind n v' ps)
  show ?case
  proof (cases "n = k")
    case True
    then have "Fld ind n v' # ps = [] @ Fld ind k v # ps \<and> list_all (piece_other k) []" using 2 by simp
    then show ?thesis by blast
  next
    case False
    then obtain ps1 i ps2 where "ps = ps1 @ Fld i k v # ps2" "list_all (piece_other k) ps1" using 2 by auto
    then have "Fld ind n v' # ps = (Fld ind n v' # ps1) @ Fld i k v # ps2 \<and> list_all (piece_other k) (Fld ind n v' # ps1)"
      using 2 False by simp
    then show ?thesis by blast
  qed
next
  case (3 k l ps)
  then obtain ps1 i ps2 where "ps = ps1 @ Fld i k v # ps2" "list_all (piece_other k) ps1" by auto
  then have "Raw l # ps = (Raw l # ps1) @ Fld i k v # ps2 \<and> list_all (piece_other k) (Raw l # ps1)" using 3 by simp
  then show ?case by blast
next
  case (4 k nm ps)
  then obtain ps1 i ps2 where "ps = ps1 @ Fld i k v # ps2" "list_all (piece_other k) ps1" by auto
  then have "Name nm # ps = (Name nm # ps1) @ Fld i k v # ps2 \<and> list_all (piece_other k) (Name nm # ps1)"
    using 4 by simp
  then show ?case by blast
qed simp

lemma find_field_none: "list_all (piece_fine k) ps \<Longrightarrow> find_field k ps = None \<Longrightarrow> list_all (piece_other k) ps"
  by (induction k ps rule: find_field.induct) (auto split: if_split_asm)

lemma find_udec:
  assumes "key_ok k" "list_all (piece_fine k) ps" "find_field k ps = Some (udec w @ e)" "ends_value e"
  shows "parse_json_int (render_all ps @ s) k = min (2 ^ 63 - 1) (int (unat w))"
  using find_field_split [OF assms(2,3)] parse_udec [OF assms(1) _ assms(4)] by auto

lemma find_sdec:
  assumes "key_ok k" "list_all (piece_fine k) ps" "find_field k ps = Some (sdec d @ e)" "ends_value e"
  shows "parse_json_int (render_all ps @ s) k = sint d"
  using find_field_split [OF assms(2,3)] parse_sdec [OF assms(1) _ assms(4)] by auto

lemma find_bool:
  assumes "key_ok k" "list_all (piece_fine k) ps" "find_field k ps = Some (bool_text b @ e)"
  shows "parse_json_bool (render_all ps @ s) k = b"
  using find_field_split [OF assms(2,3)] parse_bool_text [OF assms(1)] by auto

text \<open>The pieces of a region, from its number on.\<close>

definition region_pieces :: "('d \<Rightarrow> string) \<Rightarrow> bool \<Rightarrow> 'd region_profile \<Rightarrow> piece list" where
  "region_pieces fmt4 is_last r =
     (let t = rp_vortex_timing r in
      [Name (case rp_region_name r of None \<Rightarrow> [] | Some n \<Rightarrow> n),
       Fld 6 ''host_independent_work_ns'' (udec (rp_host_independent_work_ns r) @ '',''),
       Fld 6 ''vortex_timing'' ''{'',
       Fld 8 ''total_cycles'' (udec (tm_total_cycles t) @ '',''),
       Fld 8 ''total_time_ns'' (udec (tm_total_time_ns t) @ '',''),
       Fld 8 ''compute_cycles'' (udec (tm_compute_cycles t) @ '',''),
       Fld 8 ''memory_stall_cycles'' (udec (tm_memory_stall_cycles t) @ '',''),
       Fld 8 ''cache_hits'' (udec (tm_cache_hits t) @ '',''),
       Fld 8 ''cache_misses'' (udec (tm_cache_misses t) @ []),
       Raw ''      },'', Raw nl,
       Fld 6 ''injection_delay_ns'' (sdec (rp_injection_delay_ns r) @ '',''),
       Fld 6 ''latency_hidden'' (bool_text (rp_latency_hidden r) @ '',''),
       Fld 6 ''optimal_prefetch_depth'' (udec (rp_optimal_prefetch_depth r) @ '',''),
       Fld 6 ''jit'' ''{'',
       Fld 8 ''batch_size'' (udec (rp_optimal_batch_size r) @ '',''),
       Fld 8 ''traversal_depth'' (udec (rp_optimal_traversal_depth r) @ '',''),
       Fld 8 ''pipeline_distance'' (udec (rp_optimal_pipeline_distance r) @ '',''),
       Fld 8 ''host_device_split'' (fmt4 (rp_host_device_split r) @ '',''),
       Fld 8 ''should_offload'' (bool_text (rp_should_offload r) @ '',''),
       Fld 8 ''reason_bits'' (udec (rp_jit_reason_bits r) @ []),
       Raw ''      }'', Raw nl, Raw ''    }'', Raw (if is_last then [] else '',''), Raw nl])"

lemma region_text_pieces:
  "region_text fmt4 is_last r =
     render_all [Raw ''    {'', Raw nl] @ field 6 ''region_id'' (udec (rp_region_id r) @ '','') @
     render_all (region_pieces fmt4 is_last r)"
  by (simp only: region_text_def region_pieces_def Let_def list.map concat.simps render.simps append_assoc append_Nil2
      append_Nil)

text \<open>Names a profile can hold: no quote, and not a key the parser looks for.\<close>

definition profile_keys :: "string list" where
  "profile_keys = [''num_regions'', ''cxl_latency_ns'', ''regions'', ''region_id'', ''host_independent_work_ns'',
     ''total_cycles'', ''total_time_ns'', ''injection_delay_ns'', ''latency_hidden'', ''optimal_prefetch_depth'',
     ''batch_size'', ''traversal_depth'', ''pipeline_distance'', ''should_offload'', ''reason_bits'']"

lemma profile_key_ok: "k \<in> set profile_keys \<Longrightarrow> key_ok k"
  by (auto simp: profile_keys_def key_ok_def)

definition region_saved_ok :: "('d \<Rightarrow> string) \<Rightarrow> 'd region_profile \<Rightarrow> bool" where
  "region_saved_ok fmt4 r \<longleftrightarrow>
     (case rp_region_name r of None \<Rightarrow> True | Some n \<Rightarrow> quote_free n \<and> n \<notin> set profile_keys) \<and>
     quote_free (fmt4 (rp_host_device_split r)) \<and>
     unat (rp_host_independent_work_ns r) < 2 ^ 63 \<and> unat (tm_total_cycles (rp_vortex_timing r)) < 2 ^ 63 \<and>
     unat (tm_total_time_ns (rp_vortex_timing r)) < 2 ^ 63"

text \<open>What is left of a region after it was saved and loaded.\<close>

definition reloaded :: "'d fpu \<Rightarrow> 'd region_profile \<Rightarrow> 'd region_profile" where
  "reloaded F r = (zero_profile F)\<lparr>rp_region_id := rp_region_id r,
     rp_host_independent_work_ns := rp_host_independent_work_ns r,
     rp_vortex_timing := (zero_timing F)\<lparr>tm_total_cycles := tm_total_cycles (rp_vortex_timing r),
       tm_total_time_ns := tm_total_time_ns (rp_vortex_timing r)\<rparr>,
     rp_injection_delay_ns := rp_injection_delay_ns r, rp_latency_hidden := rp_latency_hidden r,
     rp_optimal_prefetch_depth := rp_optimal_prefetch_depth r, rp_optimal_batch_size := rp_optimal_batch_size r,
     rp_optimal_traversal_depth := rp_optimal_traversal_depth r,
     rp_optimal_pipeline_distance := rp_optimal_pipeline_distance r, rp_should_offload := rp_should_offload r,
     rp_jit_reason_bits := rp_jit_reason_bits r, rp_host_device_split := fp_lit F 0\<rparr>"

lemma min_int_small: "n < 2 ^ 63 \<Longrightarrow> min (2 ^ 63 - 1) (int n) = int n"
  by (intro min_absorb2) simp

lemma of_int_min_u64: "unat w < 2 ^ 63 \<Longrightarrow> (of_int (min (2 ^ 63 - 1) (int (unat w))) :: u64) = w"
  by (simp only: min_int_small) simp

lemma of_int_min_u32: "(of_int (min (2 ^ 63 - 1) (int (unat (w :: u32)))) :: u32) = w"
proof -
  have "unat w < 2 ^ 63" by (rule order.strict_trans2 [OF unsigned_less]) simp
  then show ?thesis by (simp only: min_int_small) simp
qed

text \<open>Parsing the text of a region.\<close>

lemma region_pieces_fine:
  assumes "region_saved_ok fmt4 r" "k \<in> set profile_keys"
  shows "list_all (piece_fine k) (region_pieces fmt4 is_last r)"
proof -
  have "\<forall>n. rp_region_name r = Some n \<longrightarrow> quote_free n \<and> n \<noteq> k" "quote_free (fmt4 (rp_host_device_split r))"
    using assms by (auto simp: region_saved_ok_def)
  moreover have "[] \<noteq> k" "''region_name'' \<noteq> k" using assms(2) by (auto simp: profile_keys_def)
  ultimately show ?thesis by (auto simp: region_pieces_def nl_def Let_def split: option.splits)
qed

lemma parse_region_text:
  assumes "region_saved_ok fmt4 r"
  shows "parse_region F (field 0 ''region_id'' (udec (rp_region_id r) @ '','') @
           render_all (region_pieces fmt4 is_last r) @ s) = reloaded F r"
proof -
  define ps where "ps = Fld 0 ''region_id'' (udec (rp_region_id r) @ '','') # region_pieces fmt4 is_last r"
  have fine: "list_all (piece_fine k) ps" if "k \<in> set profile_keys" for k
    using region_pieces_fine [OF assms that] by (simp add: ps_def)
  note defs = ps_def region_pieces_def profile_keys_def
  have ints:
    "parse_json_int (render_all ps @ s) ''region_id'' = min (2 ^ 63 - 1) (int (unat (rp_region_id r)))"
    "parse_json_int (render_all ps @ s) ''host_independent_work_ns'' = min (2 ^ 63 - 1) (int (unat (rp_host_independent_work_ns r)))"
    "parse_json_int (render_all ps @ s) ''total_cycles'' = min (2 ^ 63 - 1) (int (unat (tm_total_cycles (rp_vortex_timing r))))"
    "parse_json_int (render_all ps @ s) ''total_time_ns'' = min (2 ^ 63 - 1) (int (unat (tm_total_time_ns (rp_vortex_timing r))))"
    "parse_json_int (render_all ps @ s) ''optimal_prefetch_depth'' = min (2 ^ 63 - 1) (int (unat (rp_optimal_prefetch_depth r)))"
    "parse_json_int (render_all ps @ s) ''batch_size'' = min (2 ^ 63 - 1) (int (unat (rp_optimal_batch_size r)))"
    "parse_json_int (render_all ps @ s) ''traversal_depth'' = min (2 ^ 63 - 1) (int (unat (rp_optimal_traversal_depth r)))"
    "parse_json_int (render_all ps @ s) ''pipeline_distance'' = min (2 ^ 63 - 1) (int (unat (rp_optimal_pipeline_distance r)))"
    by (rule find_udec [OF profile_key_ok fine, where e = "'',''"]; simp add: defs Let_def)+
  have reason: "parse_json_int (render_all ps @ s) ''reason_bits'' = min (2 ^ 63 - 1) (int (unat (rp_jit_reason_bits r)))"
    by (rule find_udec [OF profile_key_ok fine, where e = "[]"]; simp add: defs Let_def)
  have delay: "parse_json_int (render_all ps @ s) ''injection_delay_ns'' = sint (rp_injection_delay_ns r)"
    by (rule find_sdec [OF profile_key_ok fine, where e = "'',''"]; simp add: defs Let_def)
  have flags: "parse_json_bool (render_all ps @ s) ''latency_hidden'' = rp_latency_hidden r"
    "parse_json_bool (render_all ps @ s) ''should_offload'' = rp_should_offload r"
    by (rule find_bool [OF profile_key_ok fine, where e = "'',''"]; simp add: defs Let_def)+
  have small: "unat (rp_host_independent_work_ns r) < 2 ^ 63" "unat (tm_total_cycles (rp_vortex_timing r)) < 2 ^ 63"
    "unat (tm_total_time_ns (rp_vortex_timing r)) < 2 ^ 63"
    using assms by (simp_all add: region_saved_ok_def)
  have "parse_region F (render_all ps @ s) = reloaded F r"
    unfolding parse_region_def reloaded_def ints reason delay flags of_int_min_u32
      of_int_min_u64 [OF small(1)] of_int_min_u64 [OF small(2)] of_int_min_u64 [OF small(3)] by simp
  then show ?thesis by (simp add: ps_def)
qed

text \<open>The loop over the regions of the text.\<close>

lemma region_key_ok [simp]: "key_ok ''region_id''"
  by (simp add: key_ok_def)

lemma load_regions_text:
  assumes "\<forall>r\<in>set rs. region_saved_ok fmt4 r" "unat idx + length rs = unat (tp_num_regions t)"
    and "length (tp_regions t) = unat (tp_regions_capacity t)" "unat (tp_num_regions t) \<le> unat (tp_regions_capacity t)"
    and "quote_free tail"
  shows "load_regions F junk (regions_text fmt4 rs @ tail) idx t =
    Some (t\<lparr>tp_regions := take (unat idx) (tp_regions t) @ map (reloaded F) rs @
      drop (unat (tp_num_regions t)) (tp_regions t)\<rparr>)"
  using assms(1-4)
proof (induction rs arbitrary: idx t)
  case Nil
  have "strstr (qt ''region_id'') (tail @ []) = None" using strstr_skip [OF assms(5), of "''region_id''" "[]"] by (simp add: qt_def)
  then show ?case using Nil by (subst load_regions.simps) (simp add: qt_def)
next
  case (Cons r rs)
  define rest where "rest = regions_text fmt4 rs @ tail"
  define p where "p = field 0 ''region_id'' (udec (rp_region_id r) @ '','') @ render_all (region_pieces fmt4 (rs = []) r) @ rest"
  have "strstr (qt ''region_id'') (regions_text fmt4 (r # rs) @ tail) = Some p"
    using strstr_pieces [of "''region_id''" "[Raw ''    {'', Raw nl]"] strstr_at_field [of "''region_id''" 6]
    by (simp add: region_text_pieces p_def rest_def nl_def)
  then have hit: "strstr (CHR 0x22 # ''region_id'' @ [CHR 0x22]) (regions_text fmt4 (r # rs) @ tail) = Some p"
    by (simp add: qt_def)
  have parse: "parse_region F p = reloaded F r" unfolding p_def using Cons.prems(1) by (intro parse_region_text) simp
  have "list_all (piece_other ''region_id'') (region_pieces fmt4 (rs = []) r)"
    using Cons.prems(1) by (intro find_field_none region_pieces_fine) (simp_all add: profile_keys_def region_pieces_def Let_def)
  then have tl: "strstr (qt ''region_id'') (tl p) = strstr (qt ''region_id'') rest"
    unfolding p_def using strstr_tl_field strstr_pieces by simp
  have lt: "unat idx < unat (tp_num_regions t)" using Cons.prems(2) by simp
  then have idx: "unat (idx + 1) = unat idx + 1"
    using unsigned_less [of "tp_num_regions t", where ?'a = nat] by (simp add: unat_word_ariths(1))
  define t2 where "t2 = t\<lparr>tp_regions := (tp_regions t)[unat idx := reloaded F r]\<rparr>"
  have cap: "\<not> tp_num_regions t \<le> idx" "\<not> tp_regions_capacity t \<le> idx"
    using lt Cons.prems(4) by (simp_all add: word_le_nat_alt)
  have put: "put_region idx (reloaded F r) t = Some t2"
    using lt Cons.prems(3,4) by (simp add: put_region_def t2_def)
  have "load_regions F junk (tl p) (idx + 1) t2 = load_regions F junk rest (idx + 1) t2"
    by (subst (1 2) load_regions.simps) (use tl in \<open>simp add: qt_def\<close>)
  moreover have "load_regions F junk rest (idx + 1) t2 =
    Some (t2\<lparr>tp_regions := take (unat (idx + 1)) (tp_regions t2) @ map (reloaded F) rs @
      drop (unat (tp_num_regions t2)) (tp_regions t2)\<rparr>)"
    unfolding rest_def using Cons.prems idx by (intro Cons.IH) (simp_all add: t2_def)
  ultimately show ?case
    using hit cap put parse lt idx Cons.prems(3,4)
    by (subst load_regions.simps) (simp add: t2_def take_Suc_conv_app_nth)
qed

definition header_pieces :: "('d \<Rightarrow> string) \<Rightarrow> 'd twopass \<Rightarrow> piece list" where
  "header_pieces fmt2 t = [Raw ''{'', Raw nl, Fld 2 ''num_regions'' (udec (tp_num_regions t) @ '',''),
     Fld 2 ''clock_freq_mhz'' (fmt2 (tp_clock_freq_mhz t) @ '',''),
     Fld 2 ''cxl_latency_ns'' (udec (tp_cxl_latency_ns t) @ '','')]"

definition profile_tail :: string where "profile_tail = ''  ]'' @ nl @ ''}'' @ nl"

lemma profile_text_pieces:
  "profile_text fmt2 fmt4 t = render_all (header_pieces fmt2 t) @ field 2 ''regions'' ''['' @
     regions_text fmt4 (take (unat (tp_num_regions t)) (tp_regions t)) @ profile_tail"
  by (simp only: profile_text_def header_pieces_def profile_tail_def list.map concat.simps render.simps append_assoc append_Nil)

lemma header_fine:
  "quote_free (fmt2 (tp_clock_freq_mhz t)) \<Longrightarrow> list_all (piece_fine k) (header_pieces fmt2 t)"
  by (simp add: header_pieces_def nl_def)

lemma saved_text_loads:
  assumes save: "twopass_save_profile fmt2 fmt4 True t = Some (0, Some tx)"
    and ok: "\<forall>r\<in>set (take (unat (tp_num_regions t)) (tp_regions t)). region_saved_ok fmt4 r"
    and fmt: "quote_free (fmt2 (tp_clock_freq_mhz t))" and cxl: "unat (tp_cxl_latency_ns t) < 2 ^ 63"
    and room: "unat (tp_num_regions t) \<le> unat (tp_regions_capacity t0)" "length (tp_regions t0) = unat (tp_regions_capacity t0)"
  shows "\<exists>t1. twopass_load_profile F junk (Some tx) True t0 = Some (0, t1) \<and>
    tp_num_regions t1 = tp_num_regions t \<and> tp_cxl_latency_ns t1 = tp_cxl_latency_ns t \<and>
    take (unat (tp_num_regions t)) (tp_regions t1) = map (reloaded F) (take (unat (tp_num_regions t)) (tp_regions t))"
proof -
  define rs where "rs = take (unat (tp_num_regions t)) (tp_regions t)"
  have len: "length rs = unat (tp_num_regions t)"
    using save by (simp add: twopass_save_profile_def rs_def split: if_split_asm)
  define rest where "rest = field 2 ''regions'' ''['' @ regions_text fmt4 rs @ profile_tail"
  have tx: "tx = render_all (header_pieces fmt2 t) @ rest"
    using save by (simp add: twopass_save_profile_def profile_text_pieces rest_def rs_def split: if_split_asm)
  have keys: "key_ok ''num_regions''" "key_ok ''cxl_latency_ns''" "key_ok ''regions''" by (simp_all add: key_ok_def)
  have fine: "list_all (piece_fine k) (header_pieces fmt2 t)" for k by (rule header_fine) (rule fmt)
  have num: "parse_json_int tx ''num_regions'' = min (2 ^ 63 - 1) (int (unat (tp_num_regions t)))"
    unfolding tx by (rule find_udec [OF keys(1) fine, where e = "'',''"]) (simp_all add: header_pieces_def)
  have lat: "parse_json_int tx ''cxl_latency_ns'' = min (2 ^ 63 - 1) (int (unat (tp_cxl_latency_ns t)))"
    unfolding tx by (rule find_udec [OF keys(2) fine, where e = "'',''"]) (simp_all add: header_pieces_def)
  define start where "start = field 0 ''regions'' ''['' @ regions_text fmt4 rs @ profile_tail"
  have "list_all (piece_other ''regions'') (header_pieces fmt2 t)"
    by (rule find_field_none [OF fine]) (simp add: header_pieces_def)
  then have start: "strstr (qt ''regions'') tx = Some start"
    unfolding tx rest_def start_def using strstr_pieces [OF _ keys(3)] strstr_at_field [OF keys(3)] by simp
  define t1 where "t1 = t0\<lparr>tp_num_regions := tp_num_regions t,
    tp_clock_freq_mhz := fp_lit F (of_int (parse_json_int tx ''clock_freq_mhz'')), tp_cxl_latency_ns := tp_cxl_latency_ns t\<rparr>"
  have "strstr (qt ''region_id'') start = strstr (qt ''region_id'') (regions_text fmt4 rs @ profile_tail)"
    using strstr_piece [of "''region_id''" "Fld 0 ''regions'' ''[''"] by (simp add: start_def)
  then have "load_regions F junk start 0 t1 = load_regions F junk (regions_text fmt4 rs @ profile_tail) 0 t1"
    by (subst (1 2) load_regions.simps) (simp add: qt_def)
  also have "\<dots> = Some (t1\<lparr>tp_regions := take (unat (0 :: u32)) (tp_regions t1) @ map (reloaded F) rs @
      drop (unat (tp_num_regions t1)) (tp_regions t1)\<rparr>)"
    by (rule load_regions_text) (use ok len room in \<open>simp_all add: t1_def rs_def profile_tail_def nl_def\<close>)
  finally have load: "load_regions F junk start 0 t1 = Some (t1\<lparr>tp_regions := map (reloaded F) rs @
      drop (unat (tp_num_regions t)) (tp_regions t1)\<rparr>)" by (simp add: t1_def)
  have "twopass_load_profile F junk (Some tx) True t0 = map_option (Pair 0) (load_regions F junk start 0 t1)"
    using start by (simp only: twopass_load_profile_def option.case not_True_eq_False if_False num lat of_int_min_u32
        of_int_min_u64 [OF cxl] Let_def flip: qt_def) (simp add: t1_def)
  then show ?thesis using load len by (simp add: t1_def rs_def [symmetric])
qed

text \<open>C23
  Loading what was saved gives back the number of regions, the latency and, of every region, its
  identity, the two times, the delay to inject, the flags and the knobs. The name, the cycle breakdown
  and the host share are lost.
\<close>

theorem profile_save_load:
  assumes save: "twopass_save_profile fmt2 fmt4 True t = Some (0, Some tx)"
    and ok: "\<forall>r\<in>set (take (unat (tp_num_regions t)) (tp_regions t)). region_saved_ok fmt4 r"
    and fmt: "quote_free (fmt2 (tp_clock_freq_mhz t))" and cxl: "unat (tp_cxl_latency_ns t) < 2 ^ 63"
    and room: "unat (tp_num_regions t) \<le> unat (tp_regions_capacity t0)" "length (tp_regions t0) = unat (tp_regions_capacity t0)"
  shows "\<exists>t1. twopass_load_profile F junk (Some tx) True t0 = Some (0, t1) \<and>
    tp_num_regions t1 = tp_num_regions t \<and> tp_cxl_latency_ns t1 = tp_cxl_latency_ns t \<and>
    take (unat (tp_num_regions t)) (tp_regions t1) = map (reloaded F) (take (unat (tp_num_regions t)) (tp_regions t))"
  using saved_text_loads [OF assms] .

definition fresh_twopass :: "rat twopass" where
  "fresh_twopass = the (snd (twopass_init exact_jit_fpu (\<lambda>_. None) True True True None))"

lemma profile_save_load_witness:
  "\<exists>t1. twopass_load_profile exact_fpu None
      (Some (profile_text (\<lambda>_. ''200.00'') (\<lambda>_. ''0.5000'') demo_twopass)) True fresh_twopass = Some (0, t1) \<and>
    tp_num_regions t1 = tp_num_regions demo_twopass \<and> tp_cxl_latency_ns t1 = tp_cxl_latency_ns demo_twopass \<and>
    take (unat (tp_num_regions demo_twopass)) (tp_regions t1) =
      map (reloaded exact_fpu) (take (unat (tp_num_regions demo_twopass)) (tp_regions demo_twopass))"
proof (rule profile_save_load)
  show "twopass_save_profile (\<lambda>_. ''200.00'') (\<lambda>_. ''0.5000'') True demo_twopass =
      Some (0, Some (profile_text (\<lambda>_. ''200.00'') (\<lambda>_. ''0.5000'') demo_twopass))"
    by (simp add: twopass_save_profile_def demo_twopass_def)
qed (simp_all add: demo_twopass_def demo_region_def region_saved_ok_def zero_profile_def zero_timing_def
    twopass_set_profiling_mode_def twopass_init_def vortex_sim_init_def CXL_BASE_LATENCY_NS_def fresh_twopass_def Let_def)

section \<open>What a loaded profile lacks\<close>

lemma reloaded_no_stall [simp]: "tm_memory_stall_time_ns (rp_vortex_timing (reloaded F r)) = 0"
  by (simp add: reloaded_def zero_timing_def)

text \<open>The stall time is not read back, so the placement computed from a loaded profile takes every
  region's latency for hidden, whatever was measured.
\<close>

theorem loaded_profile_hides_all:
  fixes t t0 :: "'d twopass"
  assumes "twopass_save_profile fmt2 fmt4 True t = Some (0, Some tx)"
    and "\<forall>r\<in>set (take (unat (tp_num_regions t)) (tp_regions t)). region_saved_ok fmt4 r"
    and "quote_free (fmt2 (tp_clock_freq_mhz t))" "unat (tp_cxl_latency_ns t) < 2 ^ 63"
    and "unat (tp_num_regions t) \<le> unat (tp_regions_capacity t0)" "length (tp_regions t0) = unat (tp_regions_capacity t0)"
    and "i < tp_num_regions t"
  shows "\<exists>t1 p. twopass_load_profile F junk (Some tx) True t0 = Some (0, t1) \<and>
    twopass_compute_prefetch_placement i d u t1 = Some (0, Some p) \<and> pp_can_hide_latency p"
proof -
  obtain t1 where t1: "twopass_load_profile F junk (Some tx) True t0 = Some (0, t1)" "tp_num_regions t1 = tp_num_regions t"
    and rs: "take (unat (tp_num_regions t)) (tp_regions t1) = map (reloaded F) (take (unat (tp_num_regions t)) (tp_regions t))"
    using saved_text_loads [OF assms(1-6)] by blast
  have i: "unat i < unat (tp_num_regions t)" using assms(7) by (simp add: word_less_nat_alt)
  have n: "unat (tp_num_regions t) \<le> length (tp_regions t)"
    using assms(1) by (simp add: twopass_save_profile_def split: if_split_asm)
  have len: "length (take (unat (tp_num_regions t)) (tp_regions t1)) = unat (tp_num_regions t)"
    unfolding rs using n by simp
  have "tp_regions t1 ! unat i = reloaded F (tp_regions t ! unat i)"
    using arg_cong [OF rs, of "\<lambda>xs. xs ! unat i"] i n by simp
  then have "region_at i t1 = Some (reloaded F (tp_regions t ! unat i))"
    using i len by (simp add: region_at_def)
  then show ?thesis
    using t1 assms(7) by (auto simp: twopass_compute_prefetch_placement_def Let_def dest: leD)
qed

lemma loaded_profile_hides_all_witness:
  "\<exists>t1 p. twopass_load_profile exact_fpu None
      (Some (profile_text (\<lambda>_. ''200.00'') (\<lambda>_. ''0.5000'') demo_twopass)) True fresh_twopass = Some (0, t1) \<and>
    twopass_compute_prefetch_placement 0 1 2 t1 = Some (0, Some p) \<and> pp_can_hide_latency p"
proof (rule loaded_profile_hides_all)
  show "twopass_save_profile (\<lambda>_. ''200.00'') (\<lambda>_. ''0.5000'') True demo_twopass =
      Some (0, Some (profile_text (\<lambda>_. ''200.00'') (\<lambda>_. ''0.5000'') demo_twopass))"
    by (simp add: twopass_save_profile_def demo_twopass_def)
qed (simp_all add: demo_twopass_def demo_region_def region_saved_ok_def zero_profile_def zero_timing_def
    twopass_set_profiling_mode_def twopass_init_def vortex_sim_init_def CXL_BASE_LATENCY_NS_def fresh_twopass_def Let_def)

text \<open>
  The number of regions is taken from the file as it stands: a file that announces more than the
  array holds leaves a context on which the next synchronization reads past the array.
\<close>

lemma announced_regions_overrun:
  "\<exists>t1. twopass_load_profile exact_fpu None (Some (qt ''num_regions'' @ '': 100'')) True fresh_twopass = Some (0, t1) \<and>
     twopass_sync_point exact_fpu 70 t1 = None"
  by (simp add: twopass_load_profile_def fresh_twopass_def twopass_init_def vortex_sim_init_def qt_def parse_json_int_def
      json_value_def strtoll10_def c_isspace_def digit_val_def twopass_sync_point_def region_at_def Let_def)

section \<open>The simulated memory\<close>

text \<open>
  Without a Verilator model, data uploaded is the data downloaded. The range check adds in 64 bits, so
  an address near 2^64 passes it and the copy leaves the array.
\<close>

theorem sim_upload_download:
  assumes "\<not> sim_has c ''vx_copy_to_dev''" "\<not> sim_has c ''vx_copy_from_dev''"
    and "unat a + length bs \<le> unat (sx_memory_size c)"
  shows "\<exists>c1. vortex_sim_upload_data a bs c = Some (0, c1) \<and>
    vortex_sim_download_data a (of_nat (length bs)) c1 = Some (0, bs, c1)"
proof -
  have lt: "length bs < 2 ^ 64" "unat a + length bs < 2 ^ 64"
    using assms(3) unat_lt_u64 [of "sx_memory_size c"] by linarith+
  then have n: "unat (of_nat (length bs) :: u64) = length bs" by (intro unat_of_nat_u64) simp
  then have "unat (a + of_nat (length bs)) = unat a + length bs" using lt by (subst unat_add_lem [THEN iffD1]) auto
  then have le: "a + of_nat (length bs) \<le> sx_memory_size c" using assms(3) by (simp add: word_le_nat_alt)
  define c1 where "c1 = c\<lparr>sx_memory := write_bytes (sx_memory c) a bs\<rparr>"
  have "vortex_sim_upload_data a bs c = Some (0, c1)"
    using assms le by (simp add: vortex_sim_upload_data_def sim_store_def c1_def)
  moreover have "sim_has c1 f = sim_has c f" for f by (simp add: sim_has_def c1_def)
  then have "vortex_sim_download_data a (of_nat (length bs)) c1 = Some (0, bs, c1)"
    using assms le n lt read_write_same [of bs "sx_memory c" a] by (simp add: vortex_sim_download_data_def c1_def)
  ultimately show ?thesis by blast
qed

lemma sim_upload_download_witness:
  "\<exists>c1. vortex_sim_upload_data 0x10000 [1, 2, 3] (tp_sim fresh_twopass) = Some (0, c1) \<and>
    vortex_sim_download_data 0x10000 (of_nat (length [1, 2, 3 :: u8])) c1 = Some (0, [1, 2, 3], c1)"
  by (rule sim_upload_download)
    (simp_all add: fresh_twopass_def twopass_init_def vortex_sim_init_def sim_has_def Let_def)

lemma sim_range_check_wraps:
  assumes "\<not> sim_has c ''vx_copy_to_dev''" "8 \<le> sx_memory_size c"
  shows "vortex_sim_upload_data (- 8) (replicate 16 0) c = None"
proof -
  have "unat (sx_memory_size c) < 2 ^ 64" by (rule unat_lt_u64)
  moreover have "unat (- 8 :: u64) = 2 ^ 64 - 8" by simp
  ultimately show ?thesis using assms by (simp add: vortex_sim_upload_data_def sim_store_def)
qed

end
