(* ===== verification/Type2_Gpu.thy ===== *)
theory Type2_Gpu
  imports Prelude Publication
begin

text \<open>
  The Type 2 GPU device of \<^verbatim>\<open>runtime/src/Type2GpuDevice.cpp\<close>: the mappings of BAR0 and of the shared
  memory with their two fallbacks, the kernel launch as stores to the control registers, the polling
  wait, and the matrix product computed on the host. The operating system is an argument; what it hands
  out and takes back is recorded as a list of events. The registers are memory at the BAR0 mapping.
  Messages are not modelled.
\<close>

section \<open>The device object\<close>

text \<open>The failure of \<open>mmap\<close>, and what \<open>open\<close>, \<open>mmap\<close> and \<open>malloc\<close> answer.\<close>

definition MAP_FAILED :: addr where "MAP_FAILED = - 1"

record gpu_os =
  go_open :: "string \<Rightarrow> int"
  go_mmap :: "int \<Rightarrow> u64 \<Rightarrow> addr"
  go_malloc :: "u64 \<Rightarrow> addr"

datatype gpu_event = Fd_Open int | Fd_Close int | Mapped addr u64 | Unmapped addr u64 | Heap_New addr | Heap_Free addr

record gpu_device =
  gd_bar0_fd :: int
  gd_bar0_base :: addr
  gd_dax_fd :: int
  gd_shared_mem :: addr
  gd_shared_size :: u64
  gd_cycles :: u64
  gd_instructions :: u64

definition new_gpu_device :: gpu_device where
  "new_gpu_device = \<lparr>gd_bar0_fd = - 1, gd_bar0_base = 0, gd_dax_fd = - 1, gd_shared_mem = 0,
     gd_shared_size = 16 * 1024 * 1024, gd_cycles = 0, gd_instructions = 0\<rparr>"

definition BAR0_SIZE :: u64 where "BAR0_SIZE = 2 * 1024 * 1024"
definition BAR2_SIZE :: u64 where "BAR2_SIZE = 128 * 1024"

section \<open>Mapping and unmapping\<close>

definition map_bar0 :: "gpu_os \<Rightarrow> string \<Rightarrow> gpu_device \<Rightarrow> bool \<times> gpu_device \<times> gpu_event list" where
  "map_bar0 os pci_device d =
     (let fd = go_open os (''/sys/bus/pci/devices/'' @ pci_device @ ''/resource0'') in
      if fd < 0 then (False, d\<lparr>gd_bar0_fd := fd\<rparr>, [])
      else let a = go_mmap os fd BAR0_SIZE in
        if a = MAP_FAILED then (False, d\<lparr>gd_bar0_base := a, gd_bar0_fd := - 1\<rparr>, [Fd_Open fd, Fd_Close fd])
        else (True, d\<lparr>gd_bar0_base := a, gd_bar0_fd := fd\<rparr>, [Fd_Open fd, Mapped a BAR0_SIZE]))"

definition map_bar2 :: "gpu_os \<Rightarrow> gpu_device \<Rightarrow> gpu_device option \<times> gpu_event list" where
  "map_bar2 os d =
     (let fd = go_open os ''/sys/bus/pci/devices/0000:3b:00.0/resource2'' in
      if 0 \<le> fd then
        let a = go_mmap os fd BAR2_SIZE in
        if a \<noteq> MAP_FAILED
        then (Some (d\<lparr>gd_shared_mem := a, gd_dax_fd := fd, gd_shared_size := BAR2_SIZE\<rparr>),
              [Fd_Open fd, Mapped a BAR2_SIZE])
        else (None, [Fd_Open fd, Fd_Close fd])
      else (None, []))"

definition map_dax :: "gpu_os \<Rightarrow> string \<Rightarrow> gpu_device \<Rightarrow> bool \<times> gpu_device \<times> gpu_event list" where
  "map_dax os dax_device d =
     (let fd = go_open os dax_device;
          a = go_mmap os fd (gd_shared_size d)
      in if 0 \<le> fd \<and> a \<noteq> MAP_FAILED
         then (True, d\<lparr>gd_dax_fd := fd, gd_shared_mem := a\<rparr>, [Fd_Open fd, Mapped a (gd_shared_size d)])
         else let d2 = (if 0 \<le> fd then d\<lparr>gd_shared_mem := a, gd_dax_fd := - 1\<rparr> else d\<lparr>gd_dax_fd := fd\<rparr>);
                  es = (if 0 \<le> fd then [Fd_Open fd, Fd_Close fd] else [])
           in case map_bar2 os d2 of
                (Some d3, es2) \<Rightarrow> (True, d3, es @ es2)
              | (None, es2) \<Rightarrow>
                  let p = go_malloc os (gd_shared_size d2)
                  in (p \<noteq> 0, d2\<lparr>gd_shared_mem := p\<rparr>, es @ es2 @ (if p \<noteq> 0 then [Heap_New p] else [])))"

definition gpu_initialize :: "gpu_os \<Rightarrow> gpu_device \<Rightarrow> bool \<times> gpu_device \<times> gpu_event list" where
  "gpu_initialize os d =
     (case map_bar0 os ''0000:3b:00.0'' d of
        (False, d1, es) \<Rightarrow> (False, d1, es)
      | (True, d1, es) \<Rightarrow> (case map_dax os ''/dev/dax0.0'' d1 of (r, d2, es2) \<Rightarrow> (True, d2, es @ es2)))"

definition gpu_shutdown :: "gpu_device \<Rightarrow> gpu_device \<times> gpu_event list" where
  "gpu_shutdown d =
     (d\<lparr>gd_bar0_base := 0, gd_bar0_fd := (if 0 \<le> gd_bar0_fd d then - 1 else gd_bar0_fd d),
        gd_shared_mem := 0, gd_dax_fd := (if 0 \<le> gd_dax_fd d then - 1 else gd_dax_fd d)\<rparr>,
      (if gd_bar0_base d \<noteq> 0 then [Unmapped (gd_bar0_base d) BAR0_SIZE] else []) @
      (if 0 \<le> gd_bar0_fd d then [Fd_Close (gd_bar0_fd d)] else []) @
      (if gd_shared_mem d \<noteq> 0
       then [if 0 \<le> gd_dax_fd d then Unmapped (gd_shared_mem d) (gd_shared_size d) else Heap_Free (gd_shared_mem d)]
       else []) @
      (if 0 \<le> gd_dax_fd d then [Fd_Close (gd_dax_fd d)] else []))"

text \<open>The three arguments of the factory are not used.\<close>

definition create_type2_gpu_device ::
  "gpu_os \<Rightarrow> string \<Rightarrow> string \<Rightarrow> bool \<Rightarrow> gpu_device option \<times> gpu_event list" where
  "create_type2_gpu_device os pci_device dax_device use_simulation =
     (case gpu_initialize os new_gpu_device of
        (False, d, es) \<Rightarrow> (None, es @ snd (gpu_shutdown d))
      | (True, d, es) \<Rightarrow> (Some d, es))"

definition gpu_is_available :: "gpu_device \<Rightarrow> bool" where
  "gpu_is_available d \<longleftrightarrow> gd_bar0_base d \<noteq> 0 \<or> gd_shared_mem d \<noteq> 0"

section \<open>Memory\<close>

definition gpu_allocate_shared :: "u64 \<Rightarrow> gpu_device \<Rightarrow> addr" where
  "gpu_allocate_shared sz d = gd_shared_mem d"

definition gpu_allocate_device :: "u64 \<Rightarrow> gpu_device \<Rightarrow> addr" where
  "gpu_allocate_device sz d = (if gd_shared_mem d = 0 then 0 else gd_shared_mem d + 8 * 1024 * 1024)"

definition gpu_copy :: "addr \<Rightarrow> addr \<Rightarrow> u64 \<Rightarrow> mem \<Rightarrow> bool \<times> mem" where
  "gpu_copy dst src sz m = (if dst = 0 \<or> src = 0 then (False, m) else (True, memcpy m dst src (unat sz)))"

section \<open>Control registers\<close>

definition CSR_BASE_OFFSET :: u32 where "CSR_BASE_OFFSET = 0x180100"

datatype csr = KERNEL_ADDR_LO | KERNEL_ADDR_HI | KERNEL_ARGS_LO | KERNEL_ARGS_HI | GRID_DIM_X | GRID_DIM_Y
  | GRID_DIM_Z | BLOCK_DIM_X | BLOCK_DIM_Y | BLOCK_DIM_Z | LAUNCH | STATUS | CYCLE_LO | CYCLE_HI | INSTR_LO
  | INSTR_HI | COMPLETION_LO | COMPLETION_HI | DCOH_ENABLE

fun csr_offset :: "csr \<Rightarrow> u32" where
  "csr_offset KERNEL_ADDR_LO = 0x100"
| "csr_offset KERNEL_ADDR_HI = 0x104"
| "csr_offset KERNEL_ARGS_LO = 0x108"
| "csr_offset KERNEL_ARGS_HI = 0x10C"
| "csr_offset GRID_DIM_X = 0x110"
| "csr_offset GRID_DIM_Y = 0x114"
| "csr_offset GRID_DIM_Z = 0x118"
| "csr_offset BLOCK_DIM_X = 0x11C"
| "csr_offset BLOCK_DIM_Y = 0x120"
| "csr_offset BLOCK_DIM_Z = 0x124"
| "csr_offset LAUNCH = 0x128"
| "csr_offset STATUS = 0x12C"
| "csr_offset CYCLE_LO = 0x130"
| "csr_offset CYCLE_HI = 0x134"
| "csr_offset INSTR_LO = 0x138"
| "csr_offset INSTR_HI = 0x13C"
| "csr_offset COMPLETION_LO = 0x140"
| "csr_offset COMPLETION_HI = 0x144"
| "csr_offset DCOH_ENABLE = 0x148"

definition STATUS_DONE :: u32 where "STATUS_DONE = 0x02"
definition STATUS_ERROR :: u32 where "STATUS_ERROR = 0xFF"

text \<open>Pointer arithmetic on words: the index is the byte offset divided by 4.\<close>

definition csr_addr :: "addr \<Rightarrow> csr \<Rightarrow> addr" where
  "csr_addr base r = base + 4 * ucast ((CSR_BASE_OFFSET + csr_offset r) div 4)"

definition write_csr :: "addr \<Rightarrow> csr \<Rightarrow> u32 \<Rightarrow> event list" where
  "write_csr base r v = (if base = 0 then [] else [Store (csr_addr base r) (le_bytes 4 v)])"

definition read_csr :: "addr \<Rightarrow> mem \<Rightarrow> csr \<Rightarrow> u32" where
  "read_csr base m r = (if base = 0 then 0 else read32 m (csr_addr base r))"

section \<open>Launch\<close>

record kernel_request =
  kr_kernel_addr :: u64
  kr_args_addr :: u64
  kr_grid_x :: u32
  kr_grid_y :: u32
  kr_grid_z :: u32
  kr_block_x :: u32
  kr_block_y :: u32
  kr_block_z :: u32
  kr_completion_addr :: u64
  kr_dcoh_enabled :: bool
  kr_timeout_ms :: u32

definition lo32 :: "u64 \<Rightarrow> u32" where "lo32 v = ucast (v AND 0xFFFFFFFF)"
definition hi32 :: "u64 \<Rightarrow> u32" where "hi32 v = ucast (drop_bit 32 v AND 0xFFFFFFFF)"

definition launch_setup :: "addr \<Rightarrow> kernel_request \<Rightarrow> event list" where
  "launch_setup base q =
     write_csr base KERNEL_ADDR_LO (lo32 (kr_kernel_addr q)) @ write_csr base KERNEL_ADDR_HI (hi32 (kr_kernel_addr q)) @
     write_csr base KERNEL_ARGS_LO (lo32 (kr_args_addr q)) @ write_csr base KERNEL_ARGS_HI (hi32 (kr_args_addr q)) @
     write_csr base GRID_DIM_X (kr_grid_x q) @ write_csr base GRID_DIM_Y (kr_grid_y q) @
     write_csr base GRID_DIM_Z (kr_grid_z q) @
     write_csr base BLOCK_DIM_X (kr_block_x q) @ write_csr base BLOCK_DIM_Y (kr_block_y q) @
     write_csr base BLOCK_DIM_Z (kr_block_z q) @
     (if kr_dcoh_enabled q
      then write_csr base COMPLETION_LO (lo32 (kr_completion_addr q)) @
           write_csr base COMPLETION_HI (hi32 (kr_completion_addr q)) @ write_csr base DCOH_ENABLE 1
      else [])"

definition gpu_launch_kernel :: "kernel_request \<Rightarrow> gpu_device \<Rightarrow> bool \<times> event list" where
  "gpu_launch_kernel q d =
     (if gd_bar0_base d \<noteq> 0
      then (True, launch_setup (gd_bar0_base d) q @ write_csr (gd_bar0_base d) LAUNCH 1)
      else (True, []))"

section \<open>Waiting\<close>

text \<open>
  The registers at the \<open>n\<close>-th poll are \<open>regs n\<close>, the milliseconds elapsed after it \<open>ms n\<close>. The result
  is the outcome and the number of the poll it was decided at.
\<close>

definition max_iterations :: "u32 \<Rightarrow> u32" where
  "max_iterations timeout_ms = (timeout_ms * 1000) div 1000"

partial_function (option) gpu_poll ::
  "(nat \<Rightarrow> csr \<Rightarrow> u32) \<Rightarrow> (nat \<Rightarrow> int) \<Rightarrow> u32 \<Rightarrow> u32 \<Rightarrow> nat \<Rightarrow> (bool \<times> nat) option" where
  "gpu_poll regs ms timeout_ms iter n =
     (if iter < max_iterations timeout_ms \<or> timeout_ms = 0 then
        if regs n STATUS = STATUS_DONE then Some (True, n)
        else if regs n STATUS = STATUS_ERROR then Some (False, n)
        else if 0 < timeout_ms \<and> int (unat timeout_ms) < ms n then Some (False, n)
        else gpu_poll regs ms timeout_ms (iter + 1) (n + 1)
      else Some (False, n))"

definition wait_kernel_completion ::
  "(nat \<Rightarrow> csr \<Rightarrow> u32) \<Rightarrow> (nat \<Rightarrow> int) \<Rightarrow> u32 \<Rightarrow> gpu_device \<Rightarrow> (bool \<times> gpu_device) option" where
  "wait_kernel_completion regs ms timeout_ms d =
     (if gd_bar0_base d \<noteq> 0 then
        map_option (\<lambda>(ok, n).
          if ok then (True, d\<lparr>gd_cycles := push_bit 32 (ucast (regs n CYCLE_HI)) OR ucast (regs n CYCLE_LO),
                   gd_instructions := push_bit 32 (ucast (regs n INSTR_HI)) OR ucast (regs n INSTR_LO)\<rparr>)
          else (False, d)) (gpu_poll regs ms timeout_ms 0 0)
      else Some (True, d\<lparr>gd_cycles := 1000000, gd_instructions := 536576\<rparr>))"

section \<open>Matrix product\<close>

text \<open>
  The arithmetic of \<open>float\<close> is an argument. Matrices are cells of four bytes in one memory of floats, so
  that they may overlap; the index arithmetic is in 32 bits.
\<close>

record 'f f32 =
  f_zero :: 'f
  f_add :: "'f \<Rightarrow> 'f \<Rightarrow> 'f"
  f_mul :: "'f \<Rightarrow> 'f \<Rightarrow> 'f"

definition cell :: "addr \<Rightarrow> u32 \<Rightarrow> addr" where "cell base i = base + 4 * ucast i"

text \<open>\<open>for (uint32_t i = from; i < n; i++)\<close>\<close>

function u32_for :: "u32 \<Rightarrow> u32 \<Rightarrow> (u32 \<Rightarrow> 's \<Rightarrow> 's) \<Rightarrow> 's \<Rightarrow> 's" where
  "u32_for i n f s = (if i < n then u32_for (i + 1) n f (f i s) else s)"
  by pat_completeness auto
termination
proof (relation "measure (\<lambda>(i, n, f, s). unat n - unat i)")
  fix i n :: u32 and f :: "u32 \<Rightarrow> 's \<Rightarrow> 's" and s
  assume "i < n"
  then show "((i + 1, n, f, f i s), i, n, f, s) \<in> measure (\<lambda>(i, n, f, s). unat n - unat i)"
    using \<open>i < n\<close> by (simp add: unat_suc_less word_less_nat_alt)
qed simp

declare u32_for.simps [simp del]

definition gemm_dot :: "'f f32 \<Rightarrow> (addr \<Rightarrow> 'f) \<Rightarrow> addr \<Rightarrow> addr \<Rightarrow> u32 \<Rightarrow> u32 \<Rightarrow> u32 \<Rightarrow> u32 \<Rightarrow> 'f" where
  "gemm_dot R fm A B N K i j =
     u32_for 0 K (\<lambda>k acc. f_add R acc (f_mul R (fm (cell A (i * K + k))) (fm (cell B (k * N + j))))) (f_zero R)"

definition gemm_cell ::
  "'f f32 \<Rightarrow> addr \<Rightarrow> addr \<Rightarrow> addr \<Rightarrow> u32 \<Rightarrow> u32 \<Rightarrow> 'f \<Rightarrow> 'f \<Rightarrow> u32 \<Rightarrow> u32 \<Rightarrow> (addr \<Rightarrow> 'f) \<Rightarrow> 'f" where
  "gemm_cell R C A B N K alpha beta i j fm =
     f_add R (f_mul R alpha (gemm_dot R fm A B N K i j)) (f_mul R beta (fm (cell C (i * N + j))))"

definition gemm_f32 ::
  "'f f32 \<Rightarrow> addr \<Rightarrow> addr \<Rightarrow> addr \<Rightarrow> u32 \<Rightarrow> u32 \<Rightarrow> u32 \<Rightarrow> 'f \<Rightarrow> 'f \<Rightarrow> (addr \<Rightarrow> 'f) \<Rightarrow> gpu_device \<Rightarrow>
     bool \<times> (addr \<Rightarrow> 'f) \<times> gpu_device" where
  "gemm_f32 R C A B M N K alpha beta fm d =
     (if C = 0 \<or> A = 0 \<or> B = 0 then (False, fm, d)
      else (True,
        u32_for 0 M (\<lambda>i. u32_for 0 N (\<lambda>j m. m(cell C (i * N + j) := gemm_cell R C A B N K alpha beta i j m))) fm,
        d\<lparr>gd_cycles := ucast M * ucast N * ucast K div 8, gd_instructions := ucast M * ucast N * ucast K\<rparr>))"

section \<open>Every resource is given back\<close>

text \<open>
  Every descriptor opened is closed, every mapping removed with its own size and every block freed, as
  often as it was obtained. The address \<open>MAP_FAILED\<close> is no mapping: \<open>munmap\<close> refuses it.
\<close>

definition gpu_balanced :: "gpu_event list \<Rightarrow> bool" where
  "gpu_balanced es \<longleftrightarrow>
     (\<forall>fd. count_list es (Fd_Open fd) = count_list es (Fd_Close fd)) \<and>
     (\<forall>a n. a \<noteq> MAP_FAILED \<longrightarrow> count_list es (Mapped a n) = count_list es (Unmapped a n)) \<and>
     (\<forall>p. count_list es (Heap_New p) = count_list es (Heap_Free p))"

definition mmap_ok :: "gpu_os \<Rightarrow> bool" where
  "mmap_ok os \<longleftrightarrow> (\<forall>fd n. go_mmap os fd n \<noteq> 0)"

text \<open>What the device object holds is what it will give back.\<close>

definition holds :: "gpu_event list \<Rightarrow> gpu_device \<Rightarrow> bool" where
  "holds es d \<longleftrightarrow> gpu_balanced (es @ snd (gpu_shutdown d))"

lemma gpu_balanced_Nil: "gpu_balanced []"
  by (simp add: gpu_balanced_def)

lemma gpu_balanced_open_close: "gpu_balanced [Fd_Open fd, Fd_Close fd]"
  by (simp add: gpu_balanced_def)

lemma gpu_balanced_append: "gpu_balanced es \<Longrightarrow> gpu_balanced es' \<Longrightarrow> gpu_balanced (es @ es')"
  by (simp add: gpu_balanced_def)

lemma gpu_balanced_drop: "gpu_balanced es \<Longrightarrow> gpu_balanced (xs @ ys) \<Longrightarrow> gpu_balanced (xs @ es @ ys)"
  by (simp add: gpu_balanced_def)

lemma map_bar0_fail:
  assumes "map_bar0 os pci new_gpu_device = (False, d, es)"
  shows "holds es d"
proof -
  let ?fd = "go_open os (''/sys/bus/pci/devices/'' @ pci @ ''/resource0'')"
  have u: "gpu_balanced [Unmapped MAP_FAILED BAR0_SIZE]" by (simp add: gpu_balanced_def)
  have n: "MAP_FAILED \<noteq> 0" by (simp add: MAP_FAILED_def)
  show ?thesis
  proof (cases "?fd < 0")
    case True
    then have "es = []" "d = new_gpu_device\<lparr>gd_bar0_fd := ?fd\<rparr>"
      using assms by (simp_all add: map_bar0_def Let_def)
    then have "es @ snd (gpu_shutdown d) = []" using True by (simp add: gpu_shutdown_def new_gpu_device_def)
    then show ?thesis by (simp add: holds_def gpu_balanced_Nil)
  next
    case False
    then have "es = [Fd_Open ?fd, Fd_Close ?fd]" "d = new_gpu_device\<lparr>gd_bar0_base := MAP_FAILED, gd_bar0_fd := - 1\<rparr>"
      using assms by (auto simp: map_bar0_def Let_def split: if_splits)
    then have "es @ snd (gpu_shutdown d) = [Fd_Open ?fd, Fd_Close ?fd] @ [Unmapped MAP_FAILED BAR0_SIZE]"
      using n by (simp add: gpu_shutdown_def new_gpu_device_def)
    then show ?thesis unfolding holds_def by (simp only: gpu_balanced_append gpu_balanced_open_close u)
  qed
qed

lemma map_bar0_ok:
  assumes "map_bar0 os pci new_gpu_device = (True, d, es)" "mmap_ok os"
  obtains fd a where "0 \<le> fd" "a \<noteq> 0" "a \<noteq> MAP_FAILED" "es = [Fd_Open fd, Mapped a BAR0_SIZE]"
    "d = new_gpu_device\<lparr>gd_bar0_base := a, gd_bar0_fd := fd\<rparr>"
  using assms by (auto simp: map_bar0_def Let_def mmap_ok_def split: if_splits)

text \<open>What \<open>map_dax\<close> obtains in the end; what it tried before is already given back.\<close>

definition shared_part :: "gpu_device \<Rightarrow> gpu_event list \<Rightarrow> bool" where
  "shared_part d es \<longleftrightarrow>
     (0 \<le> gd_dax_fd d \<and> gd_shared_mem d \<noteq> 0 \<and> es = [Fd_Open (gd_dax_fd d), Mapped (gd_shared_mem d) (gd_shared_size d)]) \<or>
     (gd_dax_fd d < 0 \<and> gd_shared_mem d \<noteq> 0 \<and> es = [Heap_New (gd_shared_mem d)]) \<or>
     (gd_dax_fd d < 0 \<and> gd_shared_mem d = 0 \<and> es = [])"

lemma map_bar2_cases:
  assumes "map_bar2 os d = (r, es)" "mmap_ok os"
  shows "(r = None \<and> gpu_balanced es) \<or>
    (\<exists>d'. r = Some d' \<and> shared_part d' es \<and> gd_bar0_base d' = gd_bar0_base d \<and> gd_bar0_fd d' = gd_bar0_fd d)"
  using assms
  by (auto simp: map_bar2_def Let_def shared_part_def mmap_ok_def gpu_balanced_Nil gpu_balanced_open_close
      split: if_splits)

lemma map_dax_cases:
  assumes "map_dax os dax d = (r, d', es)" "mmap_ok os"
  shows "\<exists>pre tail. es = pre @ tail \<and> gpu_balanced pre \<and> shared_part d' tail \<and>
    gd_bar0_base d' = gd_bar0_base d \<and> gd_bar0_fd d' = gd_bar0_fd d"
proof (cases "0 \<le> go_open os dax \<and> go_mmap os (go_open os dax) (gd_shared_size d) \<noteq> MAP_FAILED")
  case True
  then have "shared_part d' es \<and> gd_bar0_base d' = gd_bar0_base d \<and> gd_bar0_fd d' = gd_bar0_fd d"
    using assms by (auto simp: map_dax_def Let_def shared_part_def mmap_ok_def)
  then show ?thesis using gpu_balanced_Nil by (intro exI [of _ "[]"] exI [of _ es]) simp
next
  case False
  let ?fd = "go_open os dax"
  define d2 where "d2 = (if 0 \<le> ?fd then d\<lparr>gd_shared_mem := go_mmap os ?fd (gd_shared_size d), gd_dax_fd := - 1\<rparr>
    else d\<lparr>gd_dax_fd := ?fd\<rparr>)"
  define p where "p = (if 0 \<le> ?fd then [Fd_Open ?fd, Fd_Close ?fd] else [])"
  have p: "gpu_balanced p" by (simp add: p_def gpu_balanced_Nil gpu_balanced_open_close)
  have d2: "gd_dax_fd d2 < 0" "gd_bar0_base d2 = gd_bar0_base d" "gd_bar0_fd d2 = gd_bar0_fd d"
    by (simp_all add: d2_def)
  have f: "(0 \<le> ?fd \<and> go_mmap os ?fd (gd_shared_size d) \<noteq> MAP_FAILED) = False" using False by simp
  obtain r2 es2 where b: "map_bar2 os d2 = (r2, es2)" by fastforce
  have e: "(r, d', es) = (case r2 of Some d3 \<Rightarrow> (True, d3, p @ es2)
    | None \<Rightarrow> (go_malloc os (gd_shared_size d2) \<noteq> 0, d2\<lparr>gd_shared_mem := go_malloc os (gd_shared_size d2)\<rparr>,
        p @ es2 @ (if go_malloc os (gd_shared_size d2) \<noteq> 0 then [Heap_New (go_malloc os (gd_shared_size d2))] else [])))"
    using assms(1) b unfolding map_dax_def Let_def f if_False d2_def [symmetric] p_def [symmetric]
    by (simp split: option.splits)
  show ?thesis
  proof (cases r2)
    case None
    with map_bar2_cases [OF b assms(2)] have "gpu_balanced (p @ es2)" by (simp add: p gpu_balanced_append)
    then show ?thesis using e None d2
      by (intro exI [of _ "p @ es2"] exI [of _ "if gd_shared_mem d' \<noteq> 0 then [Heap_New (gd_shared_mem d')] else []"])
        (simp add: shared_part_def)
  next
    case (Some d3)
    with map_bar2_cases [OF b assms(2)] e d2 p show ?thesis
      by (intro exI [of _ p] exI [of _ es2]) simp
  qed
qed

lemma shared_part_released:
  "shared_part d es \<Longrightarrow> gd_bar0_base d = a \<Longrightarrow> gd_bar0_fd d = fd \<Longrightarrow> 0 \<le> fd \<Longrightarrow> a \<noteq> 0 \<Longrightarrow>
    gpu_balanced (([Fd_Open fd, Mapped a BAR0_SIZE] @ es) @ snd (gpu_shutdown d))"
  by (elim shared_part_def [THEN iffD1, elim_format] disjE conjE) (simp_all add: gpu_shutdown_def gpu_balanced_def)

lemma map_dax_holds:
  assumes "map_dax os dax d0 = (r, d, es)" "mmap_ok os"
    and "gd_bar0_base d0 = a" "gd_bar0_fd d0 = fd" "0 \<le> fd" "a \<noteq> 0"
  shows "holds ([Fd_Open fd, Mapped a BAR0_SIZE] @ es) d"
proof -
  obtain pre tail where e: "es = pre @ tail" "gpu_balanced pre" "shared_part d tail"
    and b: "gd_bar0_base d = a" "gd_bar0_fd d = fd"
    using map_dax_cases [OF assms(1,2)] assms(3,4) by auto
  have "gpu_balanced ([Fd_Open fd, Mapped a BAR0_SIZE] @ tail @ snd (gpu_shutdown d))"
    using shared_part_released [OF e(3) b assms(5,6)] by simp
  from gpu_balanced_drop [OF e(2) this] show ?thesis by (simp add: holds_def e(1))
qed

text \<open>C40
  The device leaks nothing: on every path of the factory, its fallbacks and failures included, whatever
  was obtained is given back by the factory itself when it refuses, and by \<open>shutdown\<close> when it succeeds.
  A second shutdown gives nothing back twice.
\<close>

theorem gpu_resources_released:
  assumes "mmap_ok os" "create_type2_gpu_device os pci dax sim = (r, es)"
  shows "case r of None \<Rightarrow> gpu_balanced es
    | Some d \<Rightarrow> gpu_balanced (es @ snd (gpu_shutdown d)) \<and> snd (gpu_shutdown (fst (gpu_shutdown d))) = []"
proof (cases "map_bar0 os ''0000:3b:00.0'' new_gpu_device")
  case (fields ok d1 es1)
  show ?thesis
  proof (cases ok)
    case False
    then show ?thesis
      using assms(2) fields map_bar0_fail [of os "''0000:3b:00.0''" d1 es1]
      by (auto simp: create_type2_gpu_device_def gpu_initialize_def holds_def)
  next
    case True
    with fields assms(1) obtain fd a where o: "0 \<le> fd" "a \<noteq> 0" "a \<noteq> MAP_FAILED"
      "es1 = [Fd_Open fd, Mapped a BAR0_SIZE]" "d1 = new_gpu_device\<lparr>gd_bar0_base := a, gd_bar0_fd := fd\<rparr>"
      by (metis map_bar0_ok)
    obtain q d2 es2 where m: "map_dax os ''/dev/dax0.0'' d1 = (q, d2, es2)" by (metis prod_cases3)
    have "holds (es1 @ es2) d2" unfolding o(4) using map_dax_holds [OF m assms(1) _ _ o(1,2)] o(5) by simp
    then show ?thesis
      using assms(2) fields True m
      by (auto simp: create_type2_gpu_device_def gpu_initialize_def holds_def gpu_shutdown_def)
  qed
qed

definition demo_gpu_os :: gpu_os where
  "demo_gpu_os = \<lparr>go_open = (\<lambda>p. if p = ''/dev/dax0.0'' then - 1 else int (length p)),
     go_mmap = (\<lambda>fd n. 0x700000000000), go_malloc = (\<lambda>_. 0)\<rparr>"

theorem gpu_resources_released_witness:
  "\<exists>d es. create_type2_gpu_device demo_gpu_os [] [] True = (Some d, es) \<and>
     gpu_balanced (es @ snd (gpu_shutdown d)) \<and> gd_shared_size d = 128 * 1024 \<and> length es = 4"
proof -
  have m: "mmap_ok demo_gpu_os" by (simp add: mmap_ok_def demo_gpu_os_def)
  obtain d es where e: "create_type2_gpu_device demo_gpu_os [] [] True = (Some d, es)"
    and s: "gd_shared_size d = 128 * 1024" "length es = 4"
    by (simp add: create_type2_gpu_device_def gpu_initialize_def map_bar0_def map_dax_def map_bar2_def
        Let_def demo_gpu_os_def new_gpu_device_def MAP_FAILED_def BAR2_SIZE_def)
  show ?thesis using gpu_resources_released [OF m e] e s by auto
qed

text \<open>
  Device memory outside of the mapping: with BAR2 as the shared memory (128 KiB), the pointer handed out
  for device memory lies 8 MiB behind its start.
\<close>

lemma device_memory_outside_bar2:
  assumes "map_bar2 os d = (Some d', es)" "gd_shared_mem d' \<noteq> 0" "n \<le> BAR2_SIZE"
  shows "gpu_allocate_device n d' - gd_shared_mem d' \<ge> gd_shared_size d'"
  using assms by (auto simp: map_bar2_def Let_def gpu_allocate_device_def BAR2_SIZE_def split: if_splits)

section \<open>A launch is published\<close>

lemma csr_offsets:
  "unat ((CSR_BASE_OFFSET + csr_offset r) div 4) * 4 = 0x180100 + unat (csr_offset r)"
  "unat (csr_offset r) \<le> 0x148"
  by (cases r; simp add: CSR_BASE_OFFSET_def)+

lemma csr_offset_inj: "csr_offset r = csr_offset q \<longleftrightarrow> r = q"
  by (cases r; cases q; simp)

lemma csr_addr_off: "csr_addr base r = base + of_nat (0x180100 + unat (csr_offset r))"
  by (cases r; simp add: csr_addr_def CSR_BASE_OFFSET_def)

lemma unat_csr: "unat (of_nat (0x180100 + unat (csr_offset r)) :: u64) = 0x180100 + unat (csr_offset r)"
  using csr_offsets(2) [of r] by (intro unat_of_nat_u64) simp

lemma unat_csr_offset_dvd: "4 dvd unat (csr_offset r)"
  by (cases r; simp)

lemma csr_apart:
  "unat (csr_offset r) \<noteq> unat (csr_offset q) \<Longrightarrow>
    unat (csr_offset r) + 4 \<le> unat (csr_offset q) \<or> unat (csr_offset q) + 4 \<le> unat (csr_offset r)"
  using unat_csr_offset_dvd [of r] unat_csr_offset_dvd [of q] by presburger

text \<open>Two registers are four different bytes each, inside the two megabytes of the mapping.\<close>

lemma csr_disjoint: "r \<noteq> q \<Longrightarrow> disjoint_rng (csr_addr base r) 4 (csr_addr base q) 4"
proof -
  assume "r \<noteq> q"
  then have "unat (csr_offset r) \<noteq> unat (csr_offset q)" by (simp add: csr_offset_inj unsigned_word_eqI word_unat_eq_iff [symmetric])
  then consider "unat (csr_offset r) + 4 \<le> unat (csr_offset q)" | "unat (csr_offset q) + 4 \<le> unat (csr_offset r)"
    using csr_apart by blast
  then show ?thesis
  proof cases
    case 1
    then show ?thesis unfolding csr_addr_off using csr_offsets(2) [of q]
      by (intro disjoint_off; unfold unat_csr) simp_all
  next
    case 2
    then show ?thesis unfolding csr_addr_off using csr_offsets(2) [of r]
      by (intro disjoint_off_rev; unfold unat_csr) simp_all
  qed
qed

lemma read_csr_write:
  "base \<noteq> 0 \<Longrightarrow> read_csr base (write_bytes m (csr_addr base q) (le_bytes 4 v)) r = (if r = q then v else read_csr base m r)"
  using read_write_same [of "le_bytes 4 v" m "csr_addr base q"]
  by (auto simp: read_csr_def read32_def read_write_disjoint csr_disjoint)

lemma run_write_csr:
  "base \<noteq> 0 \<Longrightarrow> read_csr base (run_events (write_csr base q v) m) r = (if r = q then v else read_csr base m r)"
  by (simp add: write_csr_def read_csr_write)

lemma hi_lo: "push_bit 32 (ucast (hi32 v)) OR ucast (lo32 v) = (v :: u64)"
proof -
  have m: "(0xFFFFFFFF :: u64) = mask 32" by (simp add: mask_eq_exp_minus_1)
  show ?thesis unfolding hi32_def lo32_def m by (rule bit_word_eqI) (auto simp: bit_simps)
qed

text \<open>The announcing word of a launch is the \<open>LAUNCH\<close> register, and nothing before touches it.\<close>

interpretation gl: publication "launch_setup base q" "csr_addr base LAUNCH" "le_bytes 4 (1 :: u32)" "[]"
  for base q
proof
  have "disjoint_rng (csr_addr base LAUNCH) 4 (csr_addr base r) 4" if "r \<noteq> LAUNCH" for r
    using csr_disjoint [of LAUNCH r base] that by simp
  then show "\<forall>e \<in> set (launch_setup base q). avoids (csr_addr base LAUNCH) (length (le_bytes 4 (1 :: u32))) e"
    by (auto simp: launch_setup_def write_csr_def split: if_splits)
qed simp

definition csr64 :: "addr \<Rightarrow> mem \<Rightarrow> csr \<Rightarrow> csr \<Rightarrow> u64" where
  "csr64 base m hi lo = push_bit 32 (ucast (read_csr base m hi)) OR ucast (read_csr base m lo)"

text \<open>What the device finds in its registers when it is told to start.\<close>

definition launched :: "addr \<Rightarrow> mem \<Rightarrow> kernel_request \<Rightarrow> bool" where
  "launched base m q \<longleftrightarrow>
     csr64 base m KERNEL_ADDR_HI KERNEL_ADDR_LO = kr_kernel_addr q \<and>
     csr64 base m KERNEL_ARGS_HI KERNEL_ARGS_LO = kr_args_addr q \<and>
     read_csr base m GRID_DIM_X = kr_grid_x q \<and> read_csr base m GRID_DIM_Y = kr_grid_y q \<and>
     read_csr base m GRID_DIM_Z = kr_grid_z q \<and> read_csr base m BLOCK_DIM_X = kr_block_x q \<and>
     read_csr base m BLOCK_DIM_Y = kr_block_y q \<and> read_csr base m BLOCK_DIM_Z = kr_block_z q \<and>
     (kr_dcoh_enabled q \<longrightarrow>
        csr64 base m COMPLETION_HI COMPLETION_LO = kr_completion_addr q \<and> read_csr base m DCOH_ENABLE = 1)"

lemma launch_complete:
  "base \<noteq> 0 \<Longrightarrow> launched base (run_events (launch_setup base q @ write_csr base LAUNCH 1) m) q"
  by (simp add: launched_def csr64_def launch_setup_def run_write_csr hi_lo)

text \<open>
  However far the stores of a launch have come, the device finds the \<open>LAUNCH\<close> register as it was, or the
  whole request in its registers: it never starts a kernel with half of its parameters.
\<close>

theorem gpu_launch_published:
  assumes "gd_bar0_base d \<noteq> 0" "gpu_launch_kernel q d = (ok, es)" "mk = run_events (take k es) m"
  shows "ok \<and> (read_csr (gd_bar0_base d) mk LAUNCH = read_csr (gd_bar0_base d) m LAUNCH \<or>
    read_csr (gd_bar0_base d) mk LAUNCH = 1 \<and> launched (gd_bar0_base d) mk q)"
proof -
  let ?b = "gd_bar0_base d"
  have es: "ok" "es = launch_setup ?b q @ write_csr ?b LAUNCH 1"
    using assms by (auto simp: gpu_launch_kernel_def)
  have w: "write_csr ?b LAUNCH 1 = [Store (csr_addr ?b LAUNCH) (le_bytes 4 (1 :: u32))]"
    using assms(1) by (simp add: write_csr_def)
  from gl.prefix_old_or_done [where base = ?b and q = q and k = k and m = m]
  show ?thesis
  proof
    assume "read_bytes (run_events (take k (launch_setup ?b q @ [Store (csr_addr ?b LAUNCH) (le_bytes 4 (1 :: u32))])) m)
        (csr_addr ?b LAUNCH) (length (le_bytes 4 (1 :: u32))) =
      read_bytes m (csr_addr ?b LAUNCH) (length (le_bytes 4 (1 :: u32)))"
    then have "read_csr ?b mk LAUNCH = read_csr ?b m LAUNCH"
      using assms(1,3) by (simp add: es w read_csr_def read32_def)
    then show ?thesis by (simp add: es)
  next
    assume "run_events (take k (launch_setup ?b q @ [Store (csr_addr ?b LAUNCH) (le_bytes 4 (1 :: u32))])) m =
      run_events (launch_setup ?b q @ [Store (csr_addr ?b LAUNCH) (le_bytes 4 (1 :: u32))]) m"
    then have mk: "mk = run_events (launch_setup ?b q @ write_csr ?b LAUNCH 1) m" using assms(3) by (simp add: es w)
    have "read_csr ?b mk LAUNCH = 1" unfolding mk run_events_append using assms(1) by (simp add: run_write_csr)
    moreover have "launched ?b mk q" unfolding mk using assms(1) by (rule launch_complete)
    ultimately show ?thesis using es by simp
  qed
qed

definition demo_gpu :: gpu_device where
  "demo_gpu = new_gpu_device\<lparr>gd_bar0_base := 0x7f0000000000, gd_bar0_fd := 3\<rparr>"

definition demo_request :: kernel_request where
  "demo_request = \<lparr>kr_kernel_addr = 0x123456789, kr_args_addr = 0x1000, kr_grid_x = 1, kr_grid_y = 2, kr_grid_z = 3,
     kr_block_x = 4, kr_block_y = 5, kr_block_z = 6, kr_completion_addr = 0, kr_dcoh_enabled = False, kr_timeout_ms = 0\<rparr>"

theorem gpu_launch_published_witness:
  "\<exists>es. gpu_launch_kernel demo_request demo_gpu = (True, es) \<and> length es = 11 \<and>
     (let b = gd_bar0_base demo_gpu; mk = run_events (take 10 es) (\<lambda>_. 0) in
      read_csr b mk LAUNCH = 0 \<or> read_csr b mk LAUNCH = 1 \<and> launched b mk demo_request)"
proof -
  have b: "gd_bar0_base demo_gpu \<noteq> 0" by (simp add: demo_gpu_def)
  obtain es where e: "gpu_launch_kernel demo_request demo_gpu = (True, es)" using b by (simp add: gpu_launch_kernel_def)
  then have "length es = 11"
    by (auto simp: gpu_launch_kernel_def launch_setup_def write_csr_def demo_request_def demo_gpu_def)
  moreover have "read_csr (gd_bar0_base demo_gpu) (\<lambda>_. 0) LAUNCH = 0"
    by (simp add: read_csr_def read32_def read_bytes_def upt_rec)
  ultimately show ?thesis
    using gpu_launch_published [OF b e refl, of 10 "\<lambda>_. 0"] e by (simp add: Let_def)
qed

section \<open>The polling wait\<close>

text \<open>
  What the wait says. A true outcome on a mapped device was read from the status register, no poll before
  saw the end or an error, and the counters are the registers at that poll. With a timeout the wait
  always returns, after as many polls as the computed number at most.
\<close>

definition poll_post :: "(nat \<Rightarrow> csr \<Rightarrow> u32) \<Rightarrow> (nat \<Rightarrow> int) \<Rightarrow> u32 \<Rightarrow> u32 \<Rightarrow> nat \<Rightarrow> bool \<times> nat \<Rightarrow> bool" where
  "poll_post regs ms t iter n r \<longleftrightarrow>
     (\<forall>i. n \<le> i \<and> i < snd r \<longrightarrow> regs i STATUS \<noteq> STATUS_DONE \<and> regs i STATUS \<noteq> STATUS_ERROR) \<and>
     (fst r \<longrightarrow> regs (snd r) STATUS = STATUS_DONE)"

lemma gpu_poll_result:
  assumes "gpu_poll regs ms t iter n = Some r"
  shows "poll_post regs ms t iter n r"
proof (rule gpu_poll.raw_induct [where P = poll_post, OF _ assms])
  fix f regs ms t iter n r
  assume IH: "\<And>regs ms t iter n r. f regs ms t iter n = Some r \<Longrightarrow> poll_post regs ms t iter n r"
    and eq: "(if iter < max_iterations t \<or> t = 0 then
        if regs n STATUS = STATUS_DONE then Some (True, n)
        else if regs n STATUS = STATUS_ERROR then Some (False, n)
        else if 0 < t \<and> int (unat t) < ms n then Some (False, n)
        else f regs ms t (iter + 1) (n + 1)
      else Some (False, n)) = Some r"
  show "poll_post regs ms t iter n r"
  proof (cases "(iter < max_iterations t \<or> t = 0) \<and> regs n STATUS \<noteq> STATUS_DONE \<and> regs n STATUS \<noteq> STATUS_ERROR \<and>
      \<not> (0 < t \<and> int (unat t) < ms n)")
    case True
    then have "f regs ms t (iter + 1) (n + 1) = Some r" using eq by (auto split: if_splits)
    from IH [OF this] show ?thesis
      using True unfolding poll_post_def by (metis Suc_eq_plus1 not_less_eq_eq le_antisym)
  next
    case False
    then show ?thesis using eq by (auto simp: poll_post_def split: if_splits)
  qed
qed

lemma gpu_poll_returns:
  "t \<noteq> 0 \<Longrightarrow> \<exists>ok k. gpu_poll regs ms t iter n = Some (ok, k)"
proof (induction "unat (max_iterations t) - unat iter" arbitrary: iter n rule: less_induct)
  case less
  show ?case
  proof (cases "iter < max_iterations t")
    case True
    then have "unat (max_iterations t) - unat (iter + 1) < unat (max_iterations t) - unat iter"
      by (simp add: unat_suc_less word_less_nat_alt)
    from less(1) [OF this less(2)] show ?thesis by (subst gpu_poll.simps) auto
  next
    case False
    then have "gpu_poll regs ms t iter n = Some (False, n)" using less(2) by (subst gpu_poll.simps) simp
    then show ?thesis by blast
  qed
qed

text \<open>
  The timeout in microseconds is computed in 32 bits: from 4294968 milliseconds (71 minutes) on it wraps.
  With exactly that timeout no poll takes place and a finished kernel is reported as timed out.
\<close>

lemma long_timeout_polls_nothing:
  "gd_bar0_base d \<noteq> 0 \<Longrightarrow> wait_kernel_completion regs ms 4294968 d = Some (False, d)"
  by (simp add: wait_kernel_completion_def gpu_poll.simps max_iterations_def)

theorem gpu_wait_sound:
  assumes "gd_bar0_base d \<noteq> 0" "timeout_ms \<noteq> 0"
  shows "\<exists>ok d'. wait_kernel_completion regs ms timeout_ms d = Some (ok, d') \<and>
    (if ok then \<exists>n. regs n STATUS = STATUS_DONE \<and>
         (\<forall>i<n. regs i STATUS \<noteq> STATUS_DONE \<and> regs i STATUS \<noteq> STATUS_ERROR) \<and>
         gd_cycles d' = push_bit 32 (ucast (regs n CYCLE_HI)) OR ucast (regs n CYCLE_LO) \<and>
         gd_instructions d' = push_bit 32 (ucast (regs n INSTR_HI)) OR ucast (regs n INSTR_LO)
     else d' = d)"
proof -
  obtain ok k where p: "gpu_poll regs ms timeout_ms 0 0 = Some (ok, k)" using gpu_poll_returns assms(2) by blast
  from gpu_poll_result [OF p] show ?thesis
    using assms(1) p by (cases ok) (auto simp: poll_post_def wait_kernel_completion_def intro!: exI [of _ k])
qed

theorem gpu_wait_sound_witness:
  "wait_kernel_completion (\<lambda>n r. if r = STATUS then (if n = 2 then 2 else 1) else 7) (\<lambda>_. 0) 5 demo_gpu =
     Some (True, demo_gpu\<lparr>gd_cycles := 0x700000007, gd_instructions := 0x700000007\<rparr>) \<and>
   (\<exists>ok d'. wait_kernel_completion (\<lambda>n r. 1) (\<lambda>_. 0) 5 demo_gpu = Some (ok, d') \<and> \<not> ok)"
proof -
  have b: "gd_bar0_base demo_gpu \<noteq> 0" and f: "(5 :: u32) \<noteq> 0" by (simp_all add: demo_gpu_def)
  have "wait_kernel_completion (\<lambda>n r. if r = STATUS then (if n = 2 then 2 else 1) else 7) (\<lambda>_. 0) 5 demo_gpu =
     Some (True, demo_gpu\<lparr>gd_cycles := 0x700000007, gd_instructions := 0x700000007\<rparr>)"
    by (simp add: wait_kernel_completion_def gpu_poll.simps max_iterations_def STATUS_DONE_def STATUS_ERROR_def
        demo_gpu_def push_bit_eq_mult)
  moreover have "\<exists>ok d'. wait_kernel_completion (\<lambda>n r. 1) (\<lambda>_. 0) 5 demo_gpu = Some (ok, d') \<and> \<not> ok"
    using gpu_wait_sound [OF b f, of "\<lambda>n r. 1" "\<lambda>_. 0"] by (auto simp: STATUS_DONE_def split: if_splits)
  ultimately show ?thesis by simp
qed

section \<open>The matrix product\<close>

text \<open>A counting loop is a fold over the numbers below its bound.\<close>

lemma u32_for_fold_from:
  "i \<le> n \<Longrightarrow> u32_for i n f s = fold (\<lambda>k. f (of_nat k)) [unat i..<unat n] s"
proof (induction i n f s rule: u32_for.induct)
  case (1 i n f s)
  show ?case
  proof (cases "i < n")
    case True
    have s: "unat (i + 1) = Suc (unat i)" using unat_suc_less [OF True] by simp
    then have "i + 1 \<le> n" using True by (simp add: word_le_nat_alt word_less_nat_alt)
    from 1(1) [OF True this] have "u32_for i n f s = fold (\<lambda>k. f (of_nat k)) [Suc (unat i)..<unat n] (f i s)"
      using True s by (subst u32_for.simps) simp
    moreover have "[unat i..<unat n] = unat i # [Suc (unat i)..<unat n]"
      using True by (simp add: word_less_nat_alt upt_conv_Cons)
    ultimately show ?thesis by simp
  next
    case False
    then show ?thesis using 1(2) by (subst u32_for.simps) (simp add: word_le_nat_alt word_less_nat_alt)
  qed
qed

lemma u32_for_fold: "u32_for 0 n f = fold (\<lambda>k. f (of_nat k)) [0..<unat n]"
  using u32_for_fold_from [of 0 n f] by (intro ext) simp

text \<open>
  Cells updated one after the other. If the value written for one does not depend on the others, every
  cell ends with the value computed from the memory at the start.
\<close>

definition cellwise :: "('p \<Rightarrow> addr) \<Rightarrow> 'p list \<Rightarrow> ('p \<Rightarrow> (addr \<Rightarrow> 'f) \<Rightarrow> 'f) \<Rightarrow> bool" where
  "cellwise loc ps g \<longleftrightarrow>
     (\<forall>p\<in>set ps. \<forall>fm fm'. (\<forall>x. x \<notin> loc ` (set ps - {p}) \<longrightarrow> fm x = fm' x) \<longrightarrow> g p fm = g p fm')"

lemma cellwise_tl:
  fixes g :: "'p \<Rightarrow> (addr \<Rightarrow> 'f) \<Rightarrow> 'f"
  assumes "cellwise loc (q # ps) g"
  shows "cellwise loc ps g"
  unfolding cellwise_def
proof (intro ballI allI impI)
  fix p and fm fm' :: "addr \<Rightarrow> 'f"
  assume p: "p \<in> set ps" and e: "\<forall>x. x \<notin> loc ` (set ps - {p}) \<longrightarrow> fm x = fm' x"
  then have "\<forall>x. x \<notin> loc ` (set (q # ps) - {p}) \<longrightarrow> fm x = fm' x" by auto
  then show "g p fm = g p fm'" using assms p unfolding cellwise_def by simp
qed

lemma fold_cells_other:
  "x \<notin> loc ` set ps \<Longrightarrow> fold (\<lambda>p m. m(loc p := g p m)) ps m0 x = m0 x"
  by (induction ps arbitrary: m0) simp_all

lemma fold_cells:
  "distinct (map loc ps) \<Longrightarrow> cellwise loc ps g \<Longrightarrow> p \<in> set ps \<Longrightarrow>
    fold (\<lambda>p m. m(loc p := g p m)) ps m0 (loc p) = g p m0"
proof (induction ps arbitrary: m0)
  case (Cons q ps)
  let ?m1 = "m0(loc q := g q m0)"
  have q: "loc q \<notin> loc ` set ps" and d: "distinct (map loc ps)" using Cons.prems(1) by auto
  show ?case
  proof (cases "p \<in> set ps")
    case True
    then have "q \<in> set (q # ps) - {p}" using q by auto
    then have "\<forall>x. x \<notin> loc ` (set (q # ps) - {p}) \<longrightarrow> ?m1 x = m0 x" by (metis fun_upd_other imageI)
    then have "g p ?m1 = g p m0" using Cons.prems(2,3) unfolding cellwise_def by blast
    then show ?thesis using Cons.IH [OF d cellwise_tl [OF Cons.prems(2)] True, of ?m1]
      by (simp del: fun_upd_apply)
  next
    case False
    then have "p = q" using Cons.prems(3) by simp
    then show ?thesis using fold_cells_other [OF q, of g ?m1] by (simp del: fun_upd_apply) simp
  qed
qed simp

text \<open>Cells of one array with different indices, and of arrays that do not overlap, are different.\<close>

lemma unat_cell_index: "unat (4 * ucast (i :: u32) :: u64) = 4 * unat i"
proof -
  have "unat i < 2 ^ 32" using unsigned_less [of i] by simp
  then show ?thesis by (simp add: unat_word_ariths)
qed

lemma cell_inj: "cell C i = cell C j \<longleftrightarrow> i = j"
proof -
  have "i = j" if "4 * ucast i = (4 * ucast j :: u64)"
    using arg_cong [OF that, of unat] unfolding unat_cell_index by (simp add: word_unat_eq_iff)
  then show ?thesis by (auto simp: cell_def)
qed

lemma cell_disjoint:
  assumes "disjoint_rng C (4 * n) A (4 * k)" "unat i < n" "unat j < k"
  shows "cell C i \<noteq> cell A j"
proof
  assume e: "cell C i = cell A j"
  have d: "4 * k \<le> unat (C - A)" "4 * n \<le> unat (A - C)" using assms by (auto simp: disjoint_rng_def)
  have "C - A = 4 * ucast j - 4 * ucast i" "A - C = 4 * ucast i - 4 * ucast j"
    using e by (simp_all add: cell_def algebra_simps)
  then have "unat (C - A) = 4 * unat j - 4 * unat i \<or> unat (A - C) = 4 * unat i - 4 * unat j"
    by (cases "unat i \<le> unat j") (simp_all add: unat_sub word_le_nat_alt unat_cell_index)
  then show False using d assms(2,3) by linarith
qed

text \<open>The index arithmetic does not wrap as long as the matrix has at most \<open>2 ^ 32\<close> elements.\<close>

lemma unat_index:
  assumes "r < m" "c < w" "m * w \<le> 2 ^ 32"
  shows "unat (of_nat r * of_nat w + of_nat c :: u32) = r * w + c" "r * w + c < m * w"
proof -
  have "r * w + c < (r + 1) * w" using assms(2) by (simp add: algebra_simps)
  also have "\<dots> \<le> m * w" using assms(1) by (intro mult_le_mono1) simp
  finally show l: "r * w + c < m * w" .
  have "of_nat r * of_nat w + of_nat c = (of_nat (r * w + c) :: u32)" by simp
  then show "unat (of_nat r * of_nat w + of_nat c :: u32) = r * w + c"
    using l assms(3) by (simp only: unat_of_nat) simp
qed

lemma index_inj:
  "c < w \<Longrightarrow> c' < w \<Longrightarrow> r * w + c = r' * w + (c' :: nat) \<longleftrightarrow> r = r' \<and> c = c'"
  by (metis div_mult_self3 div_less mod_mult_self3 mod_less add_0 add.commute less_nat_zero_code not_gr_zero)

lemma fold_nested: "fold (\<lambda>i. fold (f i) ys) xs s = fold (\<lambda>(i, j). f i j) (List.product xs ys) s"
proof (induction xs arbitrary: s)
  case (Cons x xs)
  have "fold (\<lambda>(i, j). f i j) (map (Pair x) ys) t = fold (f x) ys t" for t by (simp add: fold_map comp_def)
  then show ?case using Cons by simp
qed simp

text \<open>The product as it is defined in linear algebra, in the order in which the code adds.\<close>

definition matrix_entry :: "'f f32 \<Rightarrow> (addr \<Rightarrow> 'f) \<Rightarrow> addr \<Rightarrow> addr \<Rightarrow> nat \<Rightarrow> nat \<Rightarrow> nat \<Rightarrow> nat \<Rightarrow> 'f" where
  "matrix_entry R fm A B n k i j =
     foldl (\<lambda>acc l. f_add R acc (f_mul R (fm (A + of_nat (4 * (i * k + l)))) (fm (B + of_nat (4 * (l * n + j))))))
       (f_zero R) [0..<k]"

lemma cell_of_index:
  assumes "r < m" "c < w" "m * w \<le> 2 ^ 32"
  shows "cell A (of_nat r * of_nat w + of_nat c) = A + of_nat (4 * (r * w + c))"
proof -
  have "ucast (of_nat r * of_nat w + of_nat c :: u32) = (of_nat (unat (of_nat r * of_nat w + of_nat c :: u32)) :: u64)"
    by (simp only: unsigned_of_nat of_nat_unat)
  then show ?thesis by (simp add: cell_def unat_index(1) [OF assms])
qed

lemma gemm_dot_entry:
  assumes "i < m" "j < unat N" "m * unat K \<le> 2 ^ 32" "unat K * unat N \<le> 2 ^ 32"
  shows "gemm_dot R fm A B N K (of_nat i) (of_nat j) = matrix_entry R fm A B (unat N) (unat K) i j"
proof -
  have "cell A (of_nat i * K + of_nat l) = A + of_nat (4 * (i * unat K + l)) \<and>
      cell B (of_nat l * N + of_nat j) = B + of_nat (4 * (l * unat N + j))" if "l < unat K" for l
    using cell_of_index [OF assms(1) that assms(3), of A] cell_of_index [OF that assms(2,4), of B] by simp
  then show ?thesis
    unfolding gemm_dot_def matrix_entry_def u32_for_fold foldl_conv_fold by (intro fold_cong) auto
qed

lemma matrix_entry_cong:
  assumes "\<And>l. l < k \<Longrightarrow> fm (A + of_nat (4 * (i * k + l))) = fm' (A + of_nat (4 * (i * k + l)))"
    and "\<And>l. l < k \<Longrightarrow> fm (B + of_nat (4 * (l * n + j))) = fm' (B + of_nat (4 * (l * n + j)))"
  shows "matrix_entry R fm A B n k i j = matrix_entry R fm' A B n k i j"
  unfolding matrix_entry_def by (rule foldl_cong) (use assms in auto)

text \<open>An element of the result is a cell of neither factor, nor of another element.\<close>

lemma elem_disjoint:
  assumes "disjoint_rng C (4 * (m * n)) A (4 * (a * b))" "i < m" "j < n" "r < a" "c < b"
    and "m * n \<le> 2 ^ 32" "a * b \<le> 2 ^ 32"
  shows "C + of_nat (4 * (i * n + j)) \<noteq> A + of_nat (4 * (r * b + c))"
proof -
  have "cell C (of_nat i * of_nat n + of_nat j) \<noteq> cell A (of_nat r * of_nat b + of_nat c)"
    using unat_index [OF assms(2,3,6)] unat_index [OF assms(4,5,7)]
    by (intro cell_disjoint [OF assms(1)]) simp_all
  then show ?thesis unfolding cell_of_index [OF assms(2,3,6)] cell_of_index [OF assms(4,5,7)] .
qed

lemma elem_inj:
  fixes C :: addr
  assumes "i < m" "j < n" "r < m" "c < n" "m * n \<le> 2 ^ 32"
    and "C + of_nat (4 * (i * n + j)) = C + of_nat (4 * (r * n + c))"
  shows "i = r \<and> j = c"
proof -
  have "(of_nat i * of_nat n + of_nat j :: u32) = of_nat r * of_nat n + of_nat c"
    using assms(6) cell_of_index [OF assms(1,2,5), of C] cell_of_index [OF assms(3,4,5), of C]
      cell_inj [of C "of_nat i * of_nat n + of_nat j" "of_nat r * of_nat n + of_nat c"] by simp
  then have "i * n + j = r * n + c"
    using unat_index(1) [OF assms(1,2,5)] unat_index(1) [OF assms(3,4,5)] by simp
  then show ?thesis using index_inj [OF assms(2,4)] by simp
qed

text \<open>The loops of the code are the update of one cell after the other.\<close>

lemma gemm_as_fold:
  assumes "C \<noteq> 0" "A \<noteq> 0" "B \<noteq> 0" "m = unat M" "n = unat N" "k = unat K"
    and "m * n \<le> 2 ^ 32" "m * k \<le> 2 ^ 32" "k * n \<le> 2 ^ 32"
    and "gemm_f32 R C A B M N K alpha beta fm d = (ok, fm', d')"
  shows "ok \<and> fm' = fold (\<lambda>p s. s((\<lambda>(i, j). C + of_nat (4 * (i * n + j))) p :=
      (\<lambda>(i, j) s. f_add R (f_mul R alpha (matrix_entry R s A B n k i j)) (f_mul R beta (s (C + of_nat (4 * (i * n + j)))))) p s))
    (List.product [0..<m] [0..<n]) fm"
proof -
  have "ok" and f: "fm' = fold (\<lambda>p s. s(cell C (of_nat (fst p) * N + of_nat (snd p)) :=
      gemm_cell R C A B N K alpha beta (of_nat (fst p)) (of_nat (snd p)) s)) (List.product [0..<m] [0..<n]) fm"
    using assms(1-5,10) by (simp_all add: gemm_f32_def u32_for_fold fold_nested case_prod_beta')
  have "fold (\<lambda>p s. s(cell C (of_nat (fst p) * N + of_nat (snd p)) :=
      gemm_cell R C A B N K alpha beta (of_nat (fst p)) (of_nat (snd p)) s)) (List.product [0..<m] [0..<n]) fm =
    fold (\<lambda>p s. s((\<lambda>(i, j). C + of_nat (4 * (i * n + j))) p :=
      (\<lambda>(i, j) s. f_add R (f_mul R alpha (matrix_entry R s A B n k i j)) (f_mul R beta (s (C + of_nat (4 * (i * n + j)))))) p s))
    (List.product [0..<m] [0..<n]) fm"
  proof (rule fold_cong)
    fix p assume "p \<in> set (List.product [0..<m] [0..<n])"
    then obtain i j where p: "p = (i, j)" "i < m" "j < n" by auto
    have "cell C (of_nat i * N + of_nat j) = C + of_nat (4 * (i * n + j))"
      using cell_of_index [OF p(2,3) assms(7), of C] by (simp add: assms(5))
    moreover have "gemm_dot R s A B N K (of_nat i) (of_nat j) = matrix_entry R s A B n k i j" for s
      using gemm_dot_entry [of i m j N K R s A B] p assms(5,6,8,9) by simp
    ultimately show "(\<lambda>s. s(cell C (of_nat (fst p) * N + of_nat (snd p)) :=
        gemm_cell R C A B N K alpha beta (of_nat (fst p)) (of_nat (snd p)) s)) =
      (\<lambda>s. s((\<lambda>(i, j). C + of_nat (4 * (i * n + j))) p :=
        (\<lambda>(i, j) s. f_add R (f_mul R alpha (matrix_entry R s A B n k i j)) (f_mul R beta (s (C + of_nat (4 * (i * n + j)))))) p s))"
      by (simp add: p(1) gemm_cell_def del: fun_upd_apply)
  qed simp_all
  then show ?thesis using \<open>ok\<close> f by simp
qed

text \<open>C39
  The matrix product is computed. If no matrix has more than \<open>2 ^ 32\<close> elements and the result overlaps
  neither factor, then for every arithmetic each element of the result is \<open>alpha\<close> times the product's
  plus \<open>beta\<close> times the old one, and nothing else is written.
\<close>

theorem gemm_is_matrix_product:
  fixes fm fm' :: "addr \<Rightarrow> 'a"
  assumes "C \<noteq> 0" "A \<noteq> 0" "B \<noteq> 0" "m = unat M" "n = unat N" "k = unat K"
    and "m * n \<le> 2 ^ 32" "m * k \<le> 2 ^ 32" "k * n \<le> 2 ^ 32"
    and "disjoint_rng C (4 * (m * n)) A (4 * (m * k))" "disjoint_rng C (4 * (m * n)) B (4 * (k * n))"
    and "gemm_f32 R C A B M N K alpha beta fm d = (ok, fm', d')"
  shows "ok \<and>
    (\<forall>i<m. \<forall>j<n. fm' (C + of_nat (4 * (i * n + j))) =
       f_add R (f_mul R alpha (matrix_entry R fm A B n k i j)) (f_mul R beta (fm (C + of_nat (4 * (i * n + j)))))) \<and>
    (\<forall>x. (\<forall>i<m. \<forall>j<n. x \<noteq> C + of_nat (4 * (i * n + j))) \<longrightarrow> fm' x = fm x)"
proof -
  define loc where "loc = (\<lambda>(i, j). C + (of_nat (4 * (i * n + j)) :: addr))"
  define g where "g = (\<lambda>(i, j) s. f_add R (f_mul R alpha (matrix_entry R s A B n k i j)) (f_mul R beta (s (loc (i, j)))))"
  let ?ps = "List.product [0..<m] [0..<n]"
  have ok: "ok" and f: "fm' = fold (\<lambda>p s. s(loc p := g p s)) ?ps fm"
    using gemm_as_fold [OF assms(1-9) assms(12)] unfolding g_def loc_def by auto
  have inj: "inj_on loc (set ?ps)"
    using elem_inj [OF _ _ _ _ assms(7), of _ _ _ _ C] by (auto simp: loc_def inj_on_def)
  then have dist: "distinct (map loc ?ps)" by (simp add: distinct_map distinct_product)
  have "cellwise loc ?ps g"
    unfolding cellwise_def
  proof (intro ballI allI impI)
    fix p and s s' :: "addr \<Rightarrow> 'a"
    assume p: "p \<in> set ?ps" and e: "\<forall>x. x \<notin> loc ` (set ?ps - {p}) \<longrightarrow> s x = s' x"
    then obtain i j where ij: "p = (i, j)" "i < m" "j < n" by auto
    have "loc p \<notin> loc ` (set ?ps - {p})" using inj p unfolding inj_on_def by blast
    moreover have "A + of_nat (4 * (i * k + l)) \<notin> loc ` (set ?ps - {p})" if "l < k" for l
      using elem_disjoint [OF assms(10) _ _ ij(2) that assms(7,8)] by (fastforce simp: loc_def)
    moreover have "B + of_nat (4 * (l * n + j)) \<notin> loc ` (set ?ps - {p})" if "l < k" for l
      using elem_disjoint [OF assms(11) _ _ that ij(3) assms(7,9)] by (fastforce simp: loc_def)
    ultimately have "matrix_entry R s A B n k i j = matrix_entry R s' A B n k i j" "s (loc p) = s' (loc p)"
      using e by (auto intro!: matrix_entry_cong)
    then show "g p s = g p s'" by (simp add: g_def ij(1))
  qed
  then have "fm' (loc (i, j)) = g (i, j) fm" if "i < m" "j < n" for i j
    unfolding f using that by (intro fold_cells [OF dist]) auto
  moreover have "fm' x = fm x" if "\<forall>i<m. \<forall>j<n. x \<noteq> loc (i, j)" for x
    unfolding f using that by (intro fold_cells_other) force
  ultimately show ?thesis using ok by (simp add: loc_def g_def)
qed

definition int_f32 :: "int f32" where "int_f32 = \<lparr>f_zero = 0, f_add = (+), f_mul = (*)\<rparr>"

theorem gemm_is_matrix_product_witness:
  "case gemm_f32 int_f32 0x1000 0x2000 0x3000 1 1 2 10 1
      (\<lambda>x. if x = 0x2000 then 2 else if x = 0x2004 then 3 else if x = 0x3000 then 5 else if x = 0x3004 then 7 else 1)
      new_gpu_device of (ok, fm', d') \<Rightarrow> ok \<and> fm' 0x1000 = 10 * (2 * 5 + 3 * 7) + 1 \<and> fm' 0x1004 = 1"
proof -
  let ?fm = "\<lambda>x. if x = 0x2000 then 2 else if x = 0x2004 then 3 else if x = 0x3000 then 5 else if x = 0x3004 then 7
    else (1 :: int)"
  obtain ok fm' d' where e: "gemm_f32 int_f32 0x1000 0x2000 0x3000 1 1 2 10 1 ?fm new_gpu_device = (ok, fm', d')"
    by (rule prod_cases3)
  have d: "disjoint_rng 0x1000 (4 * (1 * 1)) 0x2000 (4 * (1 * 2))" "disjoint_rng 0x1000 (4 * (1 * 1)) 0x3000 (4 * (2 * 1))"
    by (simp_all add: disjoint_rng_def)
  have r: "matrix_entry int_f32 ?fm 0x2000 0x3000 1 2 0 0 = 31"
    by (simp add: matrix_entry_def int_f32_def upt_rec)
  have nz: "(0x1000 :: addr) \<noteq> 0" "(0x2000 :: addr) \<noteq> 0" "(0x3000 :: addr) \<noteq> 0" by simp_all
  have dims: "1 = unat (1 :: u32)" "2 = unat (2 :: u32)" by simp_all
  have fit: "1 * 1 \<le> (2 :: nat) ^ 32" "1 * 2 \<le> (2 :: nat) ^ 32" "2 * 1 \<le> (2 :: nat) ^ 32" by simp_all
  note g = gemm_is_matrix_product [OF nz dims(1,1,2) fit d e]
  have "fm' 0x1000 = 311" using conjunct1 [OF conjunct2 [OF g], rule_format, of 0 0] r by (simp add: int_f32_def)
  moreover have "fm' 0x1004 = 1" using conjunct2 [OF conjunct2 [OF g], rule_format, of "0x1004"] by simp
  ultimately show ?thesis unfolding e using conjunct1 [OF g] by simp
qed

end
