(* ===== verification/Mlir.thy ===== *)
theory Mlir
  imports Prelude "HOL-Library.AList"
begin

text \<open>
  What the compiler's analyses look at of an MLIR function: operations with operands, results, attributes
  and regions, blocks with arguments. An operation's kind is the C++ class the code tests it for, written
  as in the code (\<open>''memref::LoadOp''\<close>), a value is a number, and an operation is told from another by its
  own number, as pointers are. The traits and types MLIR knows of operations and values are arguments.
\<close>

section \<open>Operations\<close>

text \<open>An unset memory space, a number, or a symbolic one.\<close>

datatype memory_space = No_Space | Int_Space int | Symbolic_Space

datatype mtype = Mem_Ref "int list" nat memory_space | Llvm_Ptr nat | Tensor "int list option" nat
  | Integer_Type nat | Index_Type | F32_Type | F64_Type | Cira_Handle | Cira_Future | Cira_Stream | Remote_Mem_Ref
  | Other_Type

text \<open>An integer attribute has its width and its signed value.\<close>

datatype 'd attribute = Int_Attr nat int | Bool_Attr bool | Float_Attr 'd | Str_Attr string | Unit_Attr
  | Type_Attr mtype | Array_Attr "int list" | Types_Attr "mtype list"

datatype 'd op = Op (op_id: nat) (op_kind: string) (op_operands: "nat list") (op_results: "nat list")
    (op_attrs: "(string \<times> 'd attribute) list") (op_regions: "'d block list list")
  and 'd block = Block (blk_args: "nat list") (blk_ops: "'d op list")

definition isa :: "'d op \<Rightarrow> string list \<Rightarrow> bool" where "isa d ks \<longleftrightarrow> op_kind d \<in> set ks"

text \<open>The dialect is what stands before the class, for classes written with their namespace.\<close>

definition dialect :: "'d op \<Rightarrow> string" where "dialect d = takeWhile (\<lambda>c. c \<noteq> CHR '':'') (op_kind d)"

definition get_attr :: "'d op \<Rightarrow> string \<Rightarrow> 'd attribute option" where "get_attr d n = map_of (op_attrs d) n"

text \<open>A boolean is an integer of one bit.\<close>

definition int_attr :: "'d op \<Rightarrow> string \<Rightarrow> int option" where
  "int_attr d n = (case get_attr d n of Some (Int_Attr w i) \<Rightarrow> Some i | Some (Bool_Attr b) \<Rightarrow> Some (if b then -1 else 0) | _ \<Rightarrow> None)"

definition bool_attr :: "'d op \<Rightarrow> string \<Rightarrow> bool option" where
  "bool_attr d n = (case get_attr d n of Some (Bool_Attr b) \<Rightarrow> Some b | _ \<Rightarrow> None)"

definition str_attr :: "'d op \<Rightarrow> string \<Rightarrow> string option" where
  "str_attr d n = (case get_attr d n of Some (Str_Attr s) \<Rightarrow> Some s | _ \<Rightarrow> None)"

definition has_attr :: "'d op \<Rightarrow> string \<Rightarrow> bool" where "has_attr d n \<longleftrightarrow> get_attr d n \<noteq> None"

definition set_attr :: "string \<Rightarrow> 'd attribute \<Rightarrow> 'd op \<Rightarrow> 'd op" where
  "set_attr n a d = (case d of Op i k xs rs as bs \<Rightarrow> Op i k xs rs (AList.update n a as) bs)"

text \<open>The operations of a tree, a parent before its regions (\<open>walk\<close> in pre-order) and after them.\<close>

fun pre_op :: "'d op \<Rightarrow> 'd op list" and pre_block :: "'d block \<Rightarrow> 'd op list" where
  "pre_op (Op i k xs rs as bs) = Op i k xs rs as bs # concat (map (\<lambda>r. concat (map pre_block r)) bs)"
| "pre_block (Block args ds) = concat (map pre_op ds)"

fun post_op :: "'d op \<Rightarrow> 'd op list" and post_block :: "'d block \<Rightarrow> 'd op list" where
  "post_op (Op i k xs rs as bs) = concat (map (\<lambda>r. concat (map post_block r)) bs) @ [Op i k xs rs as bs]"
| "post_block (Block args ds) = concat (map post_op ds)"

text \<open>The blocks of a tree with the operation, the region and the block number they belong to.\<close>

definition own_blocks :: "'d op \<Rightarrow> ('d op \<times> nat \<times> 'd block) list" where
  "own_blocks d = concat (map (\<lambda>(i, r). map (\<lambda>b. (d, i, b)) r) (enumerate 0 (op_regions d)))"

definition all_blocks :: "'d op \<Rightarrow> ('d op \<times> nat \<times> 'd block) list" where
  "all_blocks f = concat (map own_blocks (pre_op f))"

definition def_of :: "'d op \<Rightarrow> nat \<Rightarrow> 'd op option" where
  "def_of f v = find (\<lambda>d. v \<in> set (op_results d)) (pre_op f)"

definition owner_of :: "'d op \<Rightarrow> nat \<Rightarrow> ('d op \<times> nat \<times> 'd block) option" where
  "owner_of f v = find (\<lambda>(d, i, b). v \<in> set (blk_args b)) (all_blocks f)"

definition block_of :: "'d op \<Rightarrow> 'd op \<Rightarrow> 'd block option" where
  "block_of f d = map_option (\<lambda>(p, i, b). b)
     (find (\<lambda>(p, i, b). op_id d \<in> set (map op_id (blk_ops b))) (all_blocks f))"

text \<open>The values defined in a region, the block arguments and results below it included.\<close>

definition region_values :: "'d block list \<Rightarrow> nat list" where
  "region_values r = concat (map (\<lambda>b. blk_args b @ concat (map op_results (pre_block b)) @
     concat (map (\<lambda>(d, i, b'). blk_args b') (concat (map all_blocks (blk_ops b))))) r)"

definition terminator :: "'d block \<Rightarrow> 'd op option" where
  "terminator b = (if blk_ops b = [] then None else Some (last (blk_ops b)))"

lemma find_SomeD: "find P xs = Some x \<Longrightarrow> x \<in> set xs \<and> P x"
  by (auto simp: find_Some_iff)

lemma def_ofD: "def_of f v = Some d \<Longrightarrow> d \<in> set (pre_op f) \<and> v \<in> set (op_results d)"
  unfolding def_of_def by (drule find_SomeD)

lemma own_blocksD:
  "(d, i, b) \<in> set (own_blocks e) \<Longrightarrow> d = e \<and> i < length (op_regions e) \<and> b \<in> set (op_regions e ! i)"
  by (auto simp: own_blocks_def in_set_enumerate_eq)

lemma owner_ofD:
  "owner_of f v = Some (d, i, b) \<Longrightarrow> d \<in> set (pre_op f) \<and> i < length (op_regions d) \<and> b \<in> set (op_regions d ! i)"
  unfolding owner_of_def all_blocks_def by (drule find_SomeD) (auto dest: own_blocksD)

lemma terminatorD: "terminator b = Some t \<Longrightarrow> t \<in> set (blk_ops b)"
  by (auto simp: terminator_def split: if_splits)

section \<open>Subtrees\<close>

lemma pre_op_self: "d \<in> set (pre_op d)"
  by (cases d) simp

lemma pre_op_trans:
  fixes f :: "'d op" and b :: "'d block"
  shows "d \<in> set (pre_op f) \<Longrightarrow> set (pre_op d) \<subseteq> set (pre_op f)"
  "d \<in> set (pre_block b) \<Longrightarrow> set (pre_op d) \<subseteq> set (pre_block b)"
  by (induction f and b rule: pre_op_pre_block.induct) fastforce+

lemma pre_op_child:
  assumes "d \<in> set (pre_op f)" "b \<in> set (concat (op_regions d))" "c \<in> set (blk_ops b)"
  shows "c \<in> set (pre_op f)"
proof -
  have "c \<in> set (pre_block b)" using assms(3) pre_op_self by (cases b) auto
  then have "c \<in> set (pre_op d)" using assms(2) by (cases d) auto
  then show ?thesis using pre_op_trans(1) [OF assms(1)] by blast
qed

lemma same_ops:
  fixes f :: "'d op" and b :: "'d block"
  shows "set (post_op f) = set (pre_op f)" "set (post_block b) = set (pre_block b)"
  by (induction f and b rule: pre_op_pre_block.induct) auto

section \<open>Changes in place\<close>

text \<open>A walk in post-order that changes operations in place: a parent is seen after what it contains.\<close>

fun walk_op :: "('d op \<Rightarrow> 'd op) \<Rightarrow> 'd op \<Rightarrow> 'd op" and walk_block :: "('d op \<Rightarrow> 'd op) \<Rightarrow> 'd block \<Rightarrow> 'd block" where
  "walk_op g (Op i k xs rs as bs) = g (Op i k xs rs as (map (map (walk_block g)) bs))"
| "walk_block g (Block args ds) = Block args (map (walk_op g) ds)"

definition set_attrs :: "(string \<times> 'd attribute) list \<Rightarrow> 'd op \<Rightarrow> 'd op" where
  "set_attrs kvs d = fold (\<lambda>(k, a). set_attr k a) kvs d"

text \<open>A function without its attributes.\<close>

fun strip_op :: "'d op \<Rightarrow> 'd op" and strip_block :: "'d block \<Rightarrow> 'd block" where
  "strip_op (Op i k xs rs as bs) = Op i k xs rs [] (map (map strip_block) bs)"
| "strip_block (Block args ds) = Block args (map strip_op ds)"

lemma strip_walk:
  fixes f :: "'d op" and b :: "'d block"
  assumes "\<And>d. strip_op (g d) = strip_op d"
  shows "strip_op (walk_op g f) = strip_op f" "strip_block (walk_block g b) = strip_block b"
  by (induction f and b rule: strip_op_strip_block.induct) (simp_all add: assms comp_def)

lemma walk_id:
  fixes f :: "'d op" and b :: "'d block"
  shows "walk_op (\<lambda>d. d) f = f" "walk_block (\<lambda>d. d) b = b"
  by (induction f and b rule: strip_op_strip_block.induct) (simp_all add: map_idI)

lemma strip_set_attr [simp]: "strip_op (set_attr k a d) = strip_op d"
  by (cases d) (simp add: set_attr_def)

lemma strip_set_attrs [simp]: "strip_op (set_attrs kvs d) = strip_op d"
  by (induction kvs arbitrary: d) (auto simp: set_attrs_def)

section \<open>Types and traits\<close>

record 'd mlir =
  ml_effect_free :: "'d op \<Rightarrow> bool"
  ml_read_effect :: "'d op \<Rightarrow> bool"
  ml_constant :: "'d op \<Rightarrow> bool"
  ml_type :: "nat \<Rightarrow> mtype"

end
