(* ===== verification/Backward_Slice.thy ===== *)
theory Backward_Slice
  imports Mlir
begin

text \<open>
  The backward slice of \<^verbatim>\<open>src/Dialect/Transforms/BackwardSlice.cpp\<close>: from a memory access on CXL-resident
  data back through the definitions of its address, as a worklist over the values of a function. The
  function \<open>f\<close> the access lies in is an argument; \<open>M\<close> is what MLIR knows of operations and values.
\<close>

section \<open>Classification\<close>

fun isRemoteAddressSpace :: "mtype \<Rightarrow> bool" where
  "isRemoteAddressSpace (Mem_Ref dims bits s) = (case s of No_Space \<Rightarrow> False | Int_Space n \<Rightarrow> n \<noteq> 0 | Symbolic_Space \<Rightarrow> True)"
| "isRemoteAddressSpace (Llvm_Ptr n) = (n \<noteq> 0)"
| "isRemoteAddressSpace t = False"

definition isRemoteHandleType :: "mtype \<Rightarrow> bool" where
  "isRemoteHandleType t \<longleftrightarrow> t = Cira_Handle \<or> t = Remote_Mem_Ref"

definition isMemoryRead :: "'d mlir \<Rightarrow> 'd op \<Rightarrow> bool" where
  "isMemoryRead M d \<longleftrightarrow>
     isa d [''LoadAsyncOp'', ''memref::LoadOp'', ''affine::AffineLoadOp'', ''LLVM::LoadOp'', ''cir::LoadOp''] \<or>
     ml_read_effect M d"

text \<open>
  The address operands of an access: all operands of a load on a memref or handle, all but the value of
  such a store, and the one address of an LLVM or CIR access.
\<close>

definition getAddressOperands :: "'d mlir \<Rightarrow> 'd op \<Rightarrow> nat list" where
  "getAddressOperands M d =
     (if isa d [''LoadAsyncOp'', ''memref::LoadOp'', ''affine::AffineLoadOp''] then op_operands d
      else if isa d [''StoreAsyncOp'', ''memref::StoreOp'', ''affine::AffineStoreOp''] then tl (op_operands d)
      else if isa d [''LLVM::LoadOp'', ''cir::LoadOp''] then take 1 (op_operands d)
      else if isa d [''LLVM::StoreOp'', ''cir::StoreOp''] then take 1 (tl (op_operands d))
      else filter (\<lambda>v. isRemoteHandleType (ml_type M v) \<or> isRemoteAddressSpace (ml_type M v)) (op_operands d))"

text \<open>The address of a CIR access is followed to its base, which may be a slot of the stack.\<close>

partial_function (option) isCirStackSlot :: "'d op \<Rightarrow> nat \<Rightarrow> bool option" where
  "isCirStackSlot f v =
     (case def_of f v of
        None \<Rightarrow> Some False
      | Some d \<Rightarrow>
          if isa d [''cir::AllocaOp''] then Some True
          else if isa d [''cir::GetMemberOp'', ''cir::PtrStrideOp'', ''cir::BaseClassAddrOp'', ''cir::CastOp'']
          then (case op_operands d of [] \<Rightarrow> None | u # us \<Rightarrow> isCirStackSlot f u)
          else Some False)"

definition isRemoteMemoryAccess :: "'d mlir \<Rightarrow> 'd op \<Rightarrow> 'd op \<Rightarrow> bool option" where
  "isRemoteMemoryAccess M f d =
     (if has_attr d ''cira.remote'' then Some True
      else if isa d [''LoadAsyncOp'', ''StoreAsyncOp'', ''InstallCachelineOp''] then Some True
      else if list_ex (\<lambda>v. isRemoteHandleType (ml_type M v)) (op_operands d)
      then Some (isMemoryRead M d \<or> \<not> ml_effect_free M d)
      else if isa d [''memref::LoadOp'', ''memref::StoreOp'', ''LLVM::LoadOp'', ''LLVM::StoreOp'',
          ''affine::AffineLoadOp'', ''affine::AffineStoreOp''] \<and>
        list_ex (\<lambda>v. isRemoteAddressSpace (ml_type M v)) (op_operands d)
      then Some True
      else if isa d [''cir::LoadOp'', ''cir::StoreOp'']
      then (case getAddressOperands M d of [] \<Rightarrow> None | a # as \<Rightarrow> map_option Not (isCirStackSlot f a))
      else Some False)"

definition isSupportedSliceOp :: "'d mlir \<Rightarrow> 'd op \<Rightarrow> bool" where
  "isSupportedSliceOp M d \<longleftrightarrow>
     (if dialect d = ''arith'' then ml_effect_free M d
      else if dialect d = ''affine''
      then isa d [''affine::AffineApplyOp'', ''affine::AffineMinOp'', ''affine::AffineMaxOp'', ''affine::AffineLoadOp'']
      else isa d [''LLVM::GEPOp'', ''LLVM::PtrToIntOp'', ''LLVM::IntToPtrOp'', ''LLVM::BitcastOp'',
        ''LLVM::AddrSpaceCastOp'', ''LLVM::ZExtOp'', ''LLVM::SExtOp'', ''LLVM::TruncOp'', ''LLVM::LoadOp'',
        ''memref::LoadOp'', ''memref::SubViewOp'', ''memref::ReinterpretCastOp'', ''memref::CastOp'', ''memref::DimOp'',
        ''LoadAsyncOp'', ''FutureAwaitOp'', ''GetPaddrOp'',
        ''cir::LoadOp'', ''cir::PtrStrideOp'', ''cir::GetMemberOp'', ''cir::BaseClassAddrOp'', ''cir::CastOp'',
        ''cir::ConstantOp'', ''cir::BinOp'', ''cir::UnaryOp'', ''cir::CmpOp'', ''cir::SelectOp'', ''cir::GetGlobalOp''])"

definition isHostOnlyOp :: "'d mlir \<Rightarrow> 'd op \<Rightarrow> bool" where
  "isHostOnlyOp M d \<longleftrightarrow>
     (if has_attr d ''cira.host_only'' then True
      else if isa d [''func::CallOp'', ''LLVM::CallOp'', ''func::CallIndirectOp'', ''cir::CallOp''] then True
      else if isa d [''memref::AllocOp'', ''memref::AllocaOp'', ''memref::DeallocOp'', ''LLVM::AllocaOp'', ''cir::AllocaOp'']
      then True
      else if isSupportedSliceOp M d then False
      else \<not> ml_effect_free M d)"

definition isDeviceLegalOp :: "'d mlir \<Rightarrow> 'd op \<Rightarrow> bool" where
  "isDeviceLegalOp M d \<longleftrightarrow> isSupportedSliceOp M d \<and> \<not> isHostOnlyOp M d"

section \<open>The slice builder\<close>

datatype boundary_reason = Constant_Boundary | Loop_Invariant_Base | Block_Argument | Host_Only | Side_Effecting
  | Unsupported | Depth_Limit

fun getBoundaryReasonName :: "boundary_reason \<Rightarrow> string" where
  "getBoundaryReasonName Constant_Boundary = ''constant''"
| "getBoundaryReasonName Loop_Invariant_Base = ''loop-invariant-base''"
| "getBoundaryReasonName Block_Argument = ''block-argument''"
| "getBoundaryReasonName Host_Only = ''host-only''"
| "getBoundaryReasonName Side_Effecting = ''side-effecting''"
| "getBoundaryReasonName Unsupported = ''unsupported''"
| "getBoundaryReasonName Depth_Limit = ''depth-limit''"

lemma boundary_names_distinct: "getBoundaryReasonName r = getBoundaryReasonName r' \<Longrightarrow> r = r'"
  by (cases r; cases r') simp_all

record 'd slice_options =
  so_scope :: "'d block list option"
  so_follow_loop_carried :: bool
  so_follow_loads :: bool
  so_max_ops :: nat

definition default_options :: "'d slice_options" where
  "default_options = \<lparr>so_scope = None, so_follow_loop_carried = True, so_follow_loads = True, so_max_ops = 256\<rparr>"

record 'd slice =
  sl_root :: "'d op"
  sl_ops :: "'d op list"
  sl_live_ins :: "nat list"
  sl_boundaries :: "(nat option \<times> 'd op option \<times> boundary_reason) list"
  sl_chain_depth :: nat
  sl_truncated :: bool

text \<open>A \<open>SetVector\<close>: insertion at the end, once.\<close>

definition sv_insert :: "'a \<Rightarrow> 'a list \<Rightarrow> 'a list" where
  "sv_insert x xs = (if x \<in> set xs then xs else xs @ [x])"

text \<open>The worklist is a stack, its top first.\<close>

record 'd slice_state =
  ss_slice :: "'d slice"
  ss_work :: "nat list"
  ss_visited :: "nat list"

definition scope_values :: "'d op \<Rightarrow> 'd slice_options \<Rightarrow> nat list" where
  "scope_values f opt = region_values (case so_scope opt of Some r \<Rightarrow> r | None \<Rightarrow> concat (op_regions f))"

text \<open>
  A loop-carried value is followed to the value at the start and the one the body yields, an induction
  variable to the bounds of its loop. Other block arguments are not followed.
\<close>

definition nth_opt :: "nat list \<Rightarrow> nat \<Rightarrow> nat list" where
  "nth_opt xs i = (if i < length xs then [xs ! i] else [])"

definition index_of :: "nat \<Rightarrow> nat list \<Rightarrow> nat" where
  "index_of v xs = length (takeWhile (\<lambda>u. u \<noteq> v) xs)"

definition terminator_operands :: "'d block list \<Rightarrow> nat list" where
  "terminator_operands r = (case r of [] \<Rightarrow> [] | b # bs \<Rightarrow> (case terminator b of None \<Rightarrow> [] | Some t \<Rightarrow> op_operands t))"

definition visitBlockArgument :: "'d op \<Rightarrow> 'd slice_options \<Rightarrow> nat \<Rightarrow> nat list option" where
  "visitBlockArgument f opt v =
     (case owner_of f v of
        None \<Rightarrow> None
      | Some (d, region, b) \<Rightarrow>
          if \<not> so_follow_loop_carried opt then None
          else let i = index_of v (blk_args b) in
            if isa d [''scf::ForOp''] then
              (if i = 0 then Some (take 3 (op_operands d))
               else if i + 2 < length (op_operands d)
               then Some (op_operands d ! (i + 2) # nth_opt (terminator_operands (op_regions d ! region)) (i - 1))
               else None)
            else if isa d [''scf::WhileOp''] \<and> length (op_regions d) = 2 then
              (if region = 0
               then Some (nth_opt (op_operands d) i @ nth_opt (terminator_operands (op_regions d ! 1)) i)
               else let args = tl (terminator_operands (op_regions d ! 0)) in
                 if i < length args then Some [args ! i] else None)
            else None)"

datatype 'd action = Stop boundary_reason | Truncate | Follow "nat list" | Take "'d op"

text \<open>What to do with a value, with \<open>n\<close> operations in the slice so far.\<close>

definition classify :: "'d mlir \<Rightarrow> 'd op \<Rightarrow> 'd slice_options \<Rightarrow> nat \<Rightarrow> nat \<Rightarrow> 'd action" where
  "classify M f opt n v =
     (let def = def_of f v in
      if (case def of Some d \<Rightarrow> ml_constant M d | None \<Rightarrow> False) then Stop Constant_Boundary
      else if v \<notin> set (scope_values f opt) then Stop Loop_Invariant_Base
      else case def of
          None \<Rightarrow> (case visitBlockArgument f opt v of None \<Rightarrow> Stop Block_Argument | Some us \<Rightarrow> Follow us)
        | Some d \<Rightarrow>
            if isHostOnlyOp M d then Stop (if ml_effect_free M d then Host_Only else Side_Effecting)
            else if \<not> isSupportedSliceOp M d then Stop Unsupported
            else if isMemoryRead M d \<and> \<not> so_follow_loads opt then Stop Depth_Limit
            else if so_max_ops opt \<le> n then Truncate
            else Take d)"

definition addBoundary :: "'d op \<Rightarrow> nat \<Rightarrow> boundary_reason \<Rightarrow> 'd slice \<Rightarrow> 'd slice" where
  "addBoundary f v r s =
     s\<lparr>sl_boundaries := sl_boundaries s @ [(Some v, def_of f v, r)],
       sl_live_ins := (if r \<noteq> Constant_Boundary then sv_insert v (sl_live_ins s) else sl_live_ins s)\<rparr>"

definition visit :: "'d mlir \<Rightarrow> 'd op \<Rightarrow> 'd slice_options \<Rightarrow> nat \<Rightarrow> 'd slice_state \<Rightarrow> 'd slice_state" where
  "visit M f opt v s =
     (case classify M f opt (length (sl_ops (ss_slice s))) v of
        Stop r \<Rightarrow> s\<lparr>ss_slice := addBoundary f v r (ss_slice s)\<rparr>
      | Truncate \<Rightarrow> s\<lparr>ss_slice := addBoundary f v Depth_Limit ((ss_slice s)\<lparr>sl_truncated := True\<rparr>)\<rparr>
      | Follow us \<Rightarrow> s\<lparr>ss_work := rev us @ ss_work s\<rparr>
      | Take d \<Rightarrow> s\<lparr>ss_slice := (ss_slice s)\<lparr>sl_ops := sv_insert d (sl_ops (ss_slice s))\<rparr>,
                    ss_work := rev (op_operands d) @ ss_work s\<rparr>)"

partial_function (option) slice_loop ::
  "'d mlir \<Rightarrow> 'd op \<Rightarrow> 'd slice_options \<Rightarrow> 'd slice_state \<Rightarrow> 'd slice_state option" where
  "slice_loop M f opt s =
     (case ss_work s of
        [] \<Rightarrow> Some s
      | v # vs \<Rightarrow>
          if v \<in> set (ss_visited s) then slice_loop M f opt (s\<lparr>ss_work := vs\<rparr>)
          else slice_loop M f opt (visit M f opt v (s\<lparr>ss_work := vs, ss_visited := v # ss_visited s\<rparr>)))"

text \<open>The slice in program order, by a walk over the function in pre-order.\<close>

definition orderSlice :: "'d op \<Rightarrow> 'd op list \<Rightarrow> 'd op list" where
  "orderSlice f ds =
     (let ordered = filter (\<lambda>d. d \<in> set ds) (pre_op f) in if length ordered = length ds then ordered else ds)"

text \<open>The longest chain of dependent reads: the depth of a value is that of the operation defining it.\<close>

definition incoming :: "'d op \<Rightarrow> (nat \<Rightarrow> nat) \<Rightarrow> 'd op \<Rightarrow> nat" where
  "incoming f depth d = foldl max 0 (map (\<lambda>v. case def_of f v of None \<Rightarrow> 0 | Some e \<Rightarrow> depth (op_id e)) (op_operands d))"

fun chain_depths :: "'d mlir \<Rightarrow> 'd op \<Rightarrow> 'd op list \<Rightarrow> (nat \<Rightarrow> nat) \<Rightarrow> nat \<Rightarrow> nat" where
  "chain_depths M f [] depth m = m"
| "chain_depths M f (d # ds) depth m =
     (let current = incoming f depth d + (if isMemoryRead M d then 1 else 0)
      in chain_depths M f ds (depth(op_id d := current)) (max m current))"

definition computeChainDepth :: "'d mlir \<Rightarrow> 'd op \<Rightarrow> 'd op list \<Rightarrow> nat" where
  "computeChainDepth M f ds = chain_depths M f ds (\<lambda>_. 0) 0 + 1"

definition slice_start :: "'d mlir \<Rightarrow> 'd op \<Rightarrow> 'd slice_state" where
  "slice_start M m =
     \<lparr>ss_slice = \<lparr>sl_root = m, sl_ops = [], sl_live_ins = [], sl_boundaries = [], sl_chain_depth = 0, sl_truncated = False\<rparr>,
      ss_work = rev (getAddressOperands M m), ss_visited = []\<rparr>"

definition computeBackwardSlice :: "'d mlir \<Rightarrow> 'd op \<Rightarrow> 'd slice_options \<Rightarrow> 'd op \<Rightarrow> 'd slice option" where
  "computeBackwardSlice M f opt m =
     map_option (\<lambda>s. let ds = orderSlice f (sl_ops (ss_slice s))
                     in (ss_slice s)\<lparr>sl_ops := ds, sl_chain_depth := computeChainDepth M f ds\<rparr>)
       (slice_loop M f opt (slice_start M m))"

section \<open>Pruning\<close>

function prune_loop :: "'d mlir \<Rightarrow> 'd slice \<Rightarrow> 'd slice" where
  "prune_loop M s =
     (let bad = filter (\<lambda>d. \<not> isDeviceLegalOp M d) (sl_ops s) in
      if bad = [] then s
      else prune_loop M (s\<lparr>sl_ops := filter (isDeviceLegalOp M) (sl_ops s),
        sl_live_ins := foldl (\<lambda>vs v. sv_insert v vs) (sl_live_ins s) (concat (map op_results bad)),
        sl_boundaries := sl_boundaries s @
          map (\<lambda>d. (if op_results d = [] then None else Some (hd (op_results d)), Some d, Unsupported)) bad\<rparr>))"
  by pat_completeness auto
termination
  by (relation "measure (\<lambda>(M, s). length (sl_ops s))") (auto simp: filter_empty_conv intro: length_filter_less)

definition external_operands :: "'d mlir \<Rightarrow> 'd op \<Rightarrow> 'd op list \<Rightarrow> nat list \<Rightarrow> nat list" where
  "external_operands M f ds vs =
     filter (\<lambda>v. case def_of f v of None \<Rightarrow> True | Some d \<Rightarrow> d \<notin> set ds \<and> \<not> ml_constant M d) vs"

definition pruneUnsupported :: "'d mlir \<Rightarrow> 'd op \<Rightarrow> 'd slice \<Rightarrow> 'd slice" where
  "pruneUnsupported M f s =
     (let p = prune_loop M s; m = sl_root p;
          vs = concat (map op_operands (sl_ops p)) @ (if isMemoryRead M m then op_operands m else getAddressOperands M m)
      in p\<lparr>sl_live_ins := foldl (\<lambda>us v. sv_insert v us) [] (external_operands M f (sl_ops p) vs)\<rparr>)"

definition isDeviceLegal :: "'d mlir \<Rightarrow> 'd slice \<Rightarrow> bool" where
  "isDeviceLegal M s \<longleftrightarrow> sl_ops s \<noteq> [] \<and> list_all (isDeviceLegalOp M) (sl_ops s)"

definition hasRemoteDependence :: "'d mlir \<Rightarrow> 'd slice \<Rightarrow> bool" where
  "hasRemoteDependence M s \<longleftrightarrow> list_ex (isMemoryRead M) (sl_ops s)"

section \<open>The walk ends\<close>

text \<open>Every value on the worklist is an operand of the access or of an operation of the function.\<close>

definition slice_universe :: "'d mlir \<Rightarrow> 'd op \<Rightarrow> 'd op \<Rightarrow> nat set" where
  "slice_universe M f m = set (getAddressOperands M m) \<union> (\<Union>d \<in> set (pre_op f). set (op_operands d))"

lemma operand_in_universe: "d \<in> set (pre_op f) \<Longrightarrow> v \<in> set (op_operands d) \<Longrightarrow> v \<in> slice_universe M f m"
  by (auto simp: slice_universe_def)

lemma nth_optD: "v \<in> set (nth_opt xs i) \<Longrightarrow> v \<in> set xs"
  by (auto simp: nth_opt_def split: if_splits)

lemma terminator_operandsD:
  "v \<in> set (terminator_operands r) \<Longrightarrow> \<exists>b t. b \<in> set r \<and> terminator b = Some t \<and> v \<in> set (op_operands t)"
  by (cases r; cases "terminator (hd r)") (auto simp: terminator_operands_def)

lemma terminator_operands_in_universe:
  assumes "d \<in> set (pre_op f)" "r \<in> set (op_regions d)" "v \<in> set (terminator_operands r)"
  shows "v \<in> slice_universe M f m"
proof -
  obtain b t where r: "b \<in> set r" "terminator b = Some t" "v \<in> set (op_operands t)"
    using terminator_operandsD [OF assms(3)] by blast
  then have "t \<in> set (blk_ops b)" "b \<in> set (concat (op_regions d))" using assms(2) terminatorD by auto
  then show ?thesis using pre_op_child [OF assms(1)] operand_in_universe r(3) by blast
qed

lemma visitBlockArgument_in_universe:
  assumes "visitBlockArgument f opt v = Some us" "u \<in> set us"
  shows "u \<in> slice_universe M f m"
proof -
  obtain d r b where o: "owner_of f v = Some (d, r, b)"
    using assms(1) by (auto simp: visitBlockArgument_def split: option.splits)
  note d = owner_ofD [OF o]
  have opnd: "x \<in> slice_universe M f m" if "x \<in> set (op_operands d)" for x
    using operand_in_universe d that by blast
  have yld: "x \<in> slice_universe M f m" if "j < length (op_regions d)" "x \<in> set (terminator_operands (op_regions d ! j))" for x j
    using terminator_operands_in_universe d that nth_mem by blast
  let ?i = "index_of v (blk_args b)"
  have "u \<in> set (op_operands d) \<or> (\<exists>j<length (op_regions d). u \<in> set (terminator_operands (op_regions d ! j)))"
  proof (cases "isa d [''scf::ForOp'']")
    case True
    then have us: "us = (if ?i = 0 then take 3 (op_operands d)
        else op_operands d ! (?i + 2) # nth_opt (terminator_operands (op_regions d ! r)) (?i - 1))"
      and l: "?i \<noteq> 0 \<longrightarrow> ?i + 2 < length (op_operands d)"
      using assms(1) o by (auto simp: visitBlockArgument_def Let_def split: if_splits)
    show ?thesis
    proof (cases "?i = 0")
      case True
      then show ?thesis using us assms(2) by (auto dest: in_set_takeD)
    next
      case False
      then have "u = op_operands d ! (?i + 2) \<or> u \<in> set (terminator_operands (op_regions d ! r))"
        using us assms(2) by (auto dest: nth_optD)
      then show ?thesis using l False d by auto
    qed
  next
    case False
    then have w: "length (op_regions d) = 2"
      and us: "us = nth_opt (op_operands d) ?i @ nth_opt (terminator_operands (op_regions d ! 1)) ?i \<or>
        (?i < length (tl (terminator_operands (op_regions d ! 0))) \<and> us = [tl (terminator_operands (op_regions d ! 0)) ! ?i])"
      using assms(1) o by (auto simp: visitBlockArgument_def Let_def split: if_splits)
    from us show ?thesis
    proof
      assume "us = nth_opt (op_operands d) ?i @ nth_opt (terminator_operands (op_regions d ! 1)) ?i"
      then have "u \<in> set (op_operands d) \<or> u \<in> set (terminator_operands (op_regions d ! 1))"
        using assms(2) by (auto dest: nth_optD)
      then show ?thesis using w by auto
    next
      assume "?i < length (tl (terminator_operands (op_regions d ! 0))) \<and> us = [tl (terminator_operands (op_regions d ! 0)) ! ?i]"
      then have "u \<in> set (tl (terminator_operands (op_regions d ! 0)))" using assms(2) by auto
      then show ?thesis using w by (metis list.set_sel(2) tl_Nil zero_less_numeral)
    qed
  qed
  then show ?thesis using opnd yld by blast
qed

text \<open>What is pushed for a value.\<close>

definition pushes :: "'d mlir \<Rightarrow> 'd op \<Rightarrow> 'd slice_options \<Rightarrow> nat \<Rightarrow> nat \<Rightarrow> nat list" where
  "pushes M f opt n v = (case classify M f opt n v of Follow us \<Rightarrow> us | Take d \<Rightarrow> op_operands d | _ \<Rightarrow> [])"

lemma classify_Take: "classify M f opt n v = Take d \<Longrightarrow> def_of f v = Some d \<and> isDeviceLegalOp M d"
  by (auto simp: classify_def Let_def isDeviceLegalOp_def split: if_splits option.splits)

lemma classify_Follow: "classify M f opt n v = Follow us \<Longrightarrow> visitBlockArgument f opt v = Some us \<and> def_of f v = None"
  by (auto simp: classify_def Let_def split: if_splits option.splits)

lemma pushes_in_universe: "u \<in> set (pushes M f opt n v) \<Longrightarrow> u \<in> slice_universe M f m"
  unfolding pushes_def
  by (auto split: action.splits dest: classify_Take classify_Follow def_ofD
      intro: visitBlockArgument_in_universe operand_in_universe)

lemma visit_work: "ss_work (visit M f opt v s) = rev (pushes M f opt (length (sl_ops (ss_slice s))) v) @ ss_work s"
  by (auto simp: visit_def pushes_def split: action.splits)

lemma visit_visited: "ss_visited (visit M f opt v s) = ss_visited s"
  by (auto simp: visit_def split: action.splits)

lemma slice_loop_returns:
  assumes "set (ss_work s) \<subseteq> slice_universe M f m"
  shows "\<exists>s'. slice_loop M f opt s = Some s'"
  using assms
proof (induction "(card (slice_universe M f m - set (ss_visited s)), length (ss_work s))" arbitrary: s
    rule: wf_induct_rule [OF wf_lex_prod [OF wf_less_than wf_less_than]])
  case 1
  show ?case
  proof (cases "ss_work s")
    case Nil
    then show ?thesis by (subst slice_loop.simps) simp
  next
    case (Cons v vs)
    let ?s1 = "s\<lparr>ss_work := vs\<rparr>" and ?s2 = "s\<lparr>ss_work := vs, ss_visited := v # ss_visited s\<rparr>"
    show ?thesis
    proof (cases "v \<in> set (ss_visited s)")
      case True
      have "\<exists>s'. slice_loop M f opt ?s1 = Some s'" using Cons 1(2) by (intro 1(1)) auto
      then show ?thesis using Cons True by (subst slice_loop.simps) simp
    next
      case False
      have fin: "finite (slice_universe M f m)" by (simp add: slice_universe_def)
      have "v \<in> slice_universe M f m" using Cons 1(2) by simp
      then have "card (slice_universe M f m - set (v # ss_visited s)) < card (slice_universe M f m - set (ss_visited s))"
        using False fin by (intro psubset_card_mono) auto
      moreover have "set (ss_work (visit M f opt v ?s2)) \<subseteq> slice_universe M f m"
        using Cons 1(2) pushes_in_universe [of _ M f opt _ v m] by (auto simp: visit_work)
      ultimately have "\<exists>s'. slice_loop M f opt (visit M f opt v ?s2) = Some s'"
        by (intro 1(1)) (simp_all add: visit_visited)
      then show ?thesis using Cons False by (subst slice_loop.simps) simp
    qed
  qed
qed

text \<open>C28
  The slicer always returns: on every function, also one whose values are defined in a circle.\<close>

theorem slice_returns: "\<exists>s. computeBackwardSlice M f opt m = Some s"
proof -
  have "set (ss_work (slice_start M m)) \<subseteq> slice_universe M f m" by (simp add: slice_start_def slice_universe_def)
  from slice_loop_returns [OF this] show ?thesis by (auto simp: computeBackwardSlice_def)
qed

section \<open>What the slice contains\<close>

text \<open>
  The specification: the values reached from the address by going from a value to what it is computed
  from, until a boundary stops. No worklist, no budget, no order.
\<close>

inductive reached :: "'d mlir \<Rightarrow> 'd op \<Rightarrow> 'd slice_options \<Rightarrow> 'd op \<Rightarrow> nat \<Rightarrow> bool" for M f opt m where
  address: "v \<in> set (getAddressOperands M m) \<Longrightarrow> reached M f opt m v"
| step_back: "reached M f opt m v \<Longrightarrow> u \<in> set (pushes M f opt 0 v) \<Longrightarrow> reached M f opt m u"

lemma classify_budget:
  "classify M f opt n v \<noteq> Truncate \<Longrightarrow> classify M f opt 0 v = classify M f opt n v"
  by (auto simp: classify_def Let_def split: if_splits option.splits)

lemma pushes_budget: "classify M f opt n v \<noteq> Truncate \<Longrightarrow> pushes M f opt n v = pushes M f opt 0 v"
  by (simp add: pushes_def classify_budget)

text \<open>A property of the state kept by dropping a value seen before and by visiting a new one.\<close>

lemma slice_loop_inv:
  assumes "slice_loop M f opt s = Some s'" "P s"
    and "\<And>s v vs. P s \<Longrightarrow> ss_work s = v # vs \<Longrightarrow> v \<in> set (ss_visited s) \<Longrightarrow> P (s\<lparr>ss_work := vs\<rparr>)"
    and "\<And>s v vs. P s \<Longrightarrow> ss_work s = v # vs \<Longrightarrow> v \<notin> set (ss_visited s) \<Longrightarrow>
      P (visit M f opt v (s\<lparr>ss_work := vs, ss_visited := v # ss_visited s\<rparr>))"
  shows "P s' \<and> ss_work s' = []"
proof -
  have "M = M \<and> f = f \<and> opt = opt \<and> P s \<longrightarrow> P s' \<and> ss_work s' = []"
  proof (rule slice_loop.raw_induct [where P = "\<lambda>M0 f0 opt0 s s'. M0 = M \<and> f0 = f \<and> opt0 = opt \<and> P s \<longrightarrow>
      P s' \<and> ss_work s' = []", OF _ assms(1)], intro impI, elim conjE)
    fix g M0 f0 opt0 s s'
    assume IH: "\<And>M0 f0 opt0 s s'. g M0 f0 opt0 s = Some s' \<Longrightarrow>
        M0 = M \<and> f0 = f \<and> opt0 = opt \<and> P s \<longrightarrow> P s' \<and> ss_work s' = []"
      and eq: "(case ss_work s of [] \<Rightarrow> Some s
        | v # vs \<Rightarrow> if v \<in> set (ss_visited s) then g M0 f0 opt0 (s\<lparr>ss_work := vs\<rparr>)
            else g M0 f0 opt0 (visit M0 f0 opt0 v (s\<lparr>ss_work := vs, ss_visited := v # ss_visited s\<rparr>))) = Some s'"
      and e: "M0 = M" "f0 = f" "opt0 = opt" and P: "P s"
    show "P s' \<and> ss_work s' = []"
    proof (cases "ss_work s")
      case Nil
      then show ?thesis using eq P by auto
    next
      case (Cons v vs)
      show ?thesis
      proof (cases "v \<in> set (ss_visited s)")
        case True
        then have "g M0 f0 opt0 (s\<lparr>ss_work := vs\<rparr>) = Some s'" using eq Cons by simp
        then show ?thesis using IH e assms(3) [OF P Cons True] by blast
      next
        case False
        then have "g M0 f0 opt0 (visit M0 f0 opt0 v (s\<lparr>ss_work := vs, ss_visited := v # ss_visited s\<rparr>)) = Some s'"
          using eq Cons by simp
        then show ?thesis using IH e assms(4) [OF P Cons False] by blast
      qed
    qed
  qed
  then show ?thesis using assms(2) by blast
qed

definition slice_inv :: "'d mlir \<Rightarrow> 'd op \<Rightarrow> 'd slice_options \<Rightarrow> 'd op \<Rightarrow> 'd slice_state \<Rightarrow> bool" where
  "slice_inv M f opt m s \<longleftrightarrow>
     (let S = ss_slice s; V = set (ss_visited s); W = set (ss_work s) in
      sl_root S = m \<and> distinct (sl_ops S) \<and> (\<forall>d \<in> set (sl_ops S). d \<in> set (pre_op f) \<and> isDeviceLegalOp M d) \<and>
      (\<not> sl_truncated S \<longrightarrow>
        (\<forall>v \<in> V \<union> W. reached M f opt m v) \<and> set (getAddressOperands M m) \<subseteq> V \<union> W \<and>
        (\<forall>v \<in> V. set (pushes M f opt 0 v) \<subseteq> V \<union> W) \<and>
        set (sl_ops S) = {d. \<exists>v \<in> V. classify M f opt 0 v = Take d} \<and>
        set (sl_live_ins S) = {v \<in> V. \<exists>r. r \<noteq> Constant_Boundary \<and> classify M f opt 0 v = Stop r}))"

lemma sv_insert_set [simp]: "set (sv_insert x xs) = insert x (set xs)"
  by (auto simp: sv_insert_def)

lemma sv_insert_distinct [simp]: "distinct (sv_insert x xs) = distinct xs"
  by (simp add: sv_insert_def)

lemma visit_slice:
  "ss_slice (visit M f opt v s) =
    (case classify M f opt (length (sl_ops (ss_slice s))) v of
       Stop r \<Rightarrow> addBoundary f v r (ss_slice s)
     | Truncate \<Rightarrow> addBoundary f v Depth_Limit ((ss_slice s)\<lparr>sl_truncated := True\<rparr>)
     | Follow us \<Rightarrow> ss_slice s
     | Take d \<Rightarrow> (ss_slice s)\<lparr>sl_ops := sv_insert d (sl_ops (ss_slice s))\<rparr>)"
  by (auto simp: visit_def split: action.splits)

lemma visit_inv:
  assumes inv: "slice_inv M f opt m s" and w: "ss_work s = v # vs" and new: "v \<notin> set (ss_visited s)"
  shows "slice_inv M f opt m (visit M f opt v (s\<lparr>ss_work := vs, ss_visited := v # ss_visited s\<rparr>))"
proof -
  let ?s = "s\<lparr>ss_work := vs, ss_visited := v # ss_visited s\<rparr>"
  let ?n = "length (sl_ops (ss_slice s))"
  let ?t = "visit M f opt v ?s"
  have static: "sl_root (ss_slice ?t) = m" "distinct (sl_ops (ss_slice ?t))"
      "\<forall>d \<in> set (sl_ops (ss_slice ?t)). d \<in> set (pre_op f) \<and> isDeviceLegalOp M d"
    using inv unfolding slice_inv_def Let_def visit_slice
    by (auto simp: addBoundary_def split: action.splits dest: classify_Take def_ofD)
  show ?thesis
  proof (cases "sl_truncated (ss_slice ?t)")
    case True
    then show ?thesis using static by (simp add: slice_inv_def Let_def)
  next
    case False
    then have nt: "classify M f opt ?n v \<noteq> Truncate" and old: "\<not> sl_truncated (ss_slice s)"
      by (auto simp: visit_slice addBoundary_def split: action.splits)
    note c = classify_budget [OF nt] pushes_budget [OF nt]
    from inv old have i: "\<forall>v \<in> set (ss_visited s) \<union> set (ss_work s). reached M f opt m v"
        "set (getAddressOperands M m) \<subseteq> set (ss_visited s) \<union> set (ss_work s)"
        "\<forall>v \<in> set (ss_visited s). set (pushes M f opt 0 v) \<subseteq> set (ss_visited s) \<union> set (ss_work s)"
        "set (sl_ops (ss_slice s)) = {d. \<exists>v \<in> set (ss_visited s). classify M f opt 0 v = Take d}"
        "set (sl_live_ins (ss_slice s)) =
          {v \<in> set (ss_visited s). \<exists>r. r \<noteq> Constant_Boundary \<and> classify M f opt 0 v = Stop r}"
      by (simp_all add: slice_inv_def Let_def)
    have work: "set (ss_work ?t) = set (pushes M f opt 0 v) \<union> set vs" and vis: "ss_visited ?t = v # ss_visited s"
      by (auto simp: visit_work visit_visited c)
    have "\<forall>u \<in> set (ss_visited ?t) \<union> set (ss_work ?t). reached M f opt m u"
      using i(1) w unfolding work vis by (auto intro: reached.step_back)
    moreover have "set (getAddressOperands M m) \<subseteq> set (ss_visited ?t) \<union> set (ss_work ?t)"
      using i(2) w unfolding work vis by auto
    moreover have "\<forall>u \<in> set (ss_visited ?t). set (pushes M f opt 0 u) \<subseteq> set (ss_visited ?t) \<union> set (ss_work ?t)"
      using i(3) w unfolding work vis by auto
    moreover have "set (sl_ops (ss_slice ?t)) = {d. \<exists>u \<in> set (ss_visited ?t). classify M f opt 0 u = Take d}"
      using i(4) nt unfolding vis visit_slice c by (auto simp: addBoundary_def c(1) split: action.splits)
    moreover have "set (sl_live_ins (ss_slice ?t)) =
        {u \<in> set (ss_visited ?t). \<exists>r. r \<noteq> Constant_Boundary \<and> classify M f opt 0 u = Stop r}"
      using i(5) nt unfolding vis visit_slice c by (auto simp: addBoundary_def c(1) split: action.splits)
    ultimately show ?thesis using static by (simp add: slice_inv_def Let_def)
  qed
qed

lemma slice_inv_start: "slice_inv M f opt m (slice_start M m)"
  by (auto simp: slice_inv_def slice_start_def Let_def intro: reached.address)

lemma slice_inv_drop:
  "slice_inv M f opt m s \<Longrightarrow> ss_work s = v # vs \<Longrightarrow> v \<in> set (ss_visited s) \<Longrightarrow> slice_inv M f opt m (s\<lparr>ss_work := vs\<rparr>)"
  by (auto simp: slice_inv_def Let_def)

lemma slice_loop_post:
  assumes "slice_loop M f opt (slice_start M m) = Some s"
  shows "slice_inv M f opt m s \<and> ss_work s = []"
  using slice_loop_inv [OF assms, of "slice_inv M f opt m"] slice_inv_start slice_inv_drop visit_inv by blast

text \<open>When nothing is left to do, the values visited are exactly those reached.\<close>

lemma visited_reached:
  assumes "slice_inv M f opt m s" "ss_work s = []" "\<not> sl_truncated (ss_slice s)"
  shows "set (ss_visited s) = {v. reached M f opt m v}"
proof
  show "set (ss_visited s) \<subseteq> {v. reached M f opt m v}" using assms by (auto simp: slice_inv_def Let_def)
  have a: "set (getAddressOperands M m) \<subseteq> set (ss_visited s)"
    and c: "\<forall>v \<in> set (ss_visited s). set (pushes M f opt 0 v) \<subseteq> set (ss_visited s)"
    using assms by (simp_all add: slice_inv_def Let_def)
  have "v \<in> set (ss_visited s)" if "reached M f opt m v" for v
    using that by induction (use a c in blast)+
  then show "{v. reached M f opt m v} \<subseteq> set (ss_visited s)" by blast
qed

text \<open>Ordering loses and adds nothing, as long as no operation occurs twice in the function.\<close>

lemma orderSlice_set:
  assumes "distinct (pre_op f)" "distinct ds" "set ds \<subseteq> set (pre_op f)"
  shows "orderSlice f ds = filter (\<lambda>d. d \<in> set ds) (pre_op f)" "set (orderSlice f ds) = set ds"
proof -
  let ?o = "filter (\<lambda>d. d \<in> set ds) (pre_op f)"
  have s: "set ?o = set ds" using assms(3) by auto
  moreover have "distinct ?o" using assms(1) by simp
  ultimately have "length ?o = length ds" using assms(2) by (metis distinct_card)
  then show "orderSlice f ds = ?o" by (simp add: orderSlice_def)
  then show "set (orderSlice f ds) = set ds" using s by simp
qed

lemma computeBackwardSlice_cases:
  assumes "computeBackwardSlice M f opt m = Some S"
  obtains s where "slice_inv M f opt m s" "ss_work s = []"
    "sl_ops S = orderSlice f (sl_ops (ss_slice s))" "sl_live_ins S = sl_live_ins (ss_slice s)" "sl_root S = m"
    "sl_truncated S = sl_truncated (ss_slice s)" "sl_chain_depth S = computeChainDepth M f (sl_ops S)"
proof -
  obtain s where s: "slice_loop M f opt (slice_start M m) = Some s"
    and S: "S = (ss_slice s)\<lparr>sl_ops := orderSlice f (sl_ops (ss_slice s)),
      sl_chain_depth := computeChainDepth M f (orderSlice f (sl_ops (ss_slice s)))\<rparr>"
    using assms by (auto simp: computeBackwardSlice_def Let_def)
  have p: "slice_inv M f opt m s" "ss_work s = []" using slice_loop_post [OF s] by simp_all
  then have "sl_root (ss_slice s) = m" by (simp add: slice_inv_def Let_def)
  then show ?thesis using p by (intro that [of s]) (simp_all add: S)
qed

text \<open>C6
  The slice is the specification. Unless the budget cut it off, the operations in the slice are the
  definitions of the values reached that the device can run, in program order, and the live-ins the values
  at which the way back stopped, constants excepted.
\<close>

theorem slice_is_backward_closure:
  assumes "computeBackwardSlice M f opt m = Some S" "distinct (pre_op f)" "\<not> sl_truncated S"
  shows "sl_ops S = filter (\<lambda>d. \<exists>v. reached M f opt m v \<and> classify M f opt 0 v = Take d) (pre_op f) \<and>
    set (sl_live_ins S) = {v. reached M f opt m v \<and> (\<exists>r. r \<noteq> Constant_Boundary \<and> classify M f opt 0 v = Stop r)}"
proof -
  obtain s where inv: "slice_inv M f opt m s" and w: "ss_work s = []"
    and S: "sl_ops S = orderSlice f (sl_ops (ss_slice s))" "sl_live_ins S = sl_live_ins (ss_slice s)"
      "sl_truncated S = sl_truncated (ss_slice s)"
    using computeBackwardSlice_cases [OF assms(1)] by metis
  have nt: "\<not> sl_truncated (ss_slice s)" using assms(3) S(3) by simp
  note v = visited_reached [OF inv w nt]
  have o: "sl_ops S = filter (\<lambda>d. d \<in> set (sl_ops (ss_slice s))) (pre_op f)"
    unfolding S(1) using inv assms(2) by (intro orderSlice_set) (auto simp: slice_inv_def Let_def)
  have "set (sl_ops (ss_slice s)) = {d. \<exists>v. reached M f opt m v \<and> classify M f opt 0 v = Take d}"
    using inv nt v by (auto simp: slice_inv_def Let_def)
  moreover have "set (sl_live_ins S) = {v. reached M f opt m v \<and> (\<exists>r. r \<noteq> Constant_Boundary \<and> classify M f opt 0 v = Stop r)}"
    using inv nt v unfolding S(2) by (auto simp: slice_inv_def Let_def)
  ultimately show ?thesis unfolding o by simp
qed

text \<open>Pruning removes nothing from a computed slice: only operations the device can run get in.\<close>

lemma computed_slice_ops:
  assumes "computeBackwardSlice M f opt m = Some S" "distinct (pre_op f)"
  shows "sl_root S = m" "\<forall>d \<in> set (sl_ops S). d \<in> set (pre_op f) \<and> isDeviceLegalOp M d"
    "sl_ops S = filter (\<lambda>d. d \<in> set (sl_ops S)) (pre_op f)"
proof -
  obtain s where inv: "slice_inv M f opt m s"
    and S: "sl_ops S = orderSlice f (sl_ops (ss_slice s))" "sl_root S = m"
    using computeBackwardSlice_cases [OF assms(1)] by metis
  show "sl_root S = m" by fact
  have sub: "distinct (sl_ops (ss_slice s))" "set (sl_ops (ss_slice s)) \<subseteq> set (pre_op f)"
    using inv by (auto simp: slice_inv_def Let_def)
  note o = orderSlice_set [OF assms(2) sub]
  show "\<forall>d \<in> set (sl_ops S). d \<in> set (pre_op f) \<and> isDeviceLegalOp M d"
    using inv unfolding S(1) o(2) by (simp add: slice_inv_def Let_def)
  show "sl_ops S = filter (\<lambda>d. d \<in> set (sl_ops S)) (pre_op f)"
    using o unfolding S(1) by simp
qed

lemma prune_loop_legal: "\<forall>d \<in> set (sl_ops S). isDeviceLegalOp M d \<Longrightarrow> prune_loop M S = S"
  by (subst prune_loop.simps) (simp add: Let_def filter_empty_conv)

lemma pruned_slice_ops:
  assumes "computeBackwardSlice M f opt m = Some S" "distinct (pre_op f)"
  shows "sl_ops (pruneUnsupported M f S) = sl_ops S" "sl_root (pruneUnsupported M f S) = m"
    "sl_chain_depth (pruneUnsupported M f S) = sl_chain_depth S"
  using computed_slice_ops [OF assms] prune_loop_legal [of S M] by (simp_all add: pruneUnsupported_def Let_def)

section \<open>The chain depth\<close>

text \<open>
  The specification: a chain in a set of operations is a sequence, its last operation first, in which each
  operation uses a result of the next. Its reads are those the device waits for one after the other.
\<close>

definition depends :: "'d op \<Rightarrow> 'd op \<Rightarrow> 'd op \<Rightarrow> bool" where
  "depends f e d \<longleftrightarrow> list_ex (\<lambda>v. def_of f v = Some e) (op_operands d)"

inductive dep_chain :: "'d op \<Rightarrow> 'd op set \<Rightarrow> 'd op list \<Rightarrow> bool" for f D where
  chain_one: "d \<in> D \<Longrightarrow> dep_chain f D [d]"
| chain_more: "dep_chain f D (e # p) \<Longrightarrow> depends f e d \<Longrightarrow> d \<in> D \<Longrightarrow> dep_chain f D (d # e # p)"

inductive_cases dep_chain_ConsE: "dep_chain f D (d # p)"

definition reads :: "'d mlir \<Rightarrow> 'd op list \<Rightarrow> nat" where "reads M p = length (filter (isMemoryRead M) p)"

text \<open>Definitions before uses: no operation uses a result of itself or of a later one.\<close>

fun in_order :: "'d op \<Rightarrow> 'd op list \<Rightarrow> bool" where
  "in_order f [] \<longleftrightarrow> True"
| "in_order f (d # ds) \<longleftrightarrow> list_all (\<lambda>e. \<not> depends f e d) (d # ds) \<and> in_order f ds"

lemma in_order_append:
  "in_order f (xs @ ys) \<longleftrightarrow> in_order f xs \<and> in_order f ys \<and> (\<forall>x \<in> set xs. \<forall>y \<in> set ys. \<not> depends f y x)"
  by (induction xs) (auto simp: list_all_iff)

lemma in_order_filter: "in_order f ds \<Longrightarrow> in_order f (filter P ds)"
  by (induction ds) (auto simp: list_all_iff)

lemma dep_chain_ne: "dep_chain f D p \<Longrightarrow> p \<noteq> [] \<and> hd p \<in> D"
  by (induction rule: dep_chain.induct) auto

lemma dep_chain_mono: "dep_chain f D p \<Longrightarrow> D \<subseteq> E \<Longrightarrow> dep_chain f E p"
  by (induction rule: dep_chain.induct) (auto intro: dep_chain.intros)

lemma dep_chain_shrink:
  assumes "dep_chain f (insert d D) p" "hd p \<in> D" "\<forall>x \<in> D. \<not> depends f d x"
  shows "dep_chain f D p"
  using assms
proof (induction rule: dep_chain.induct)
  case (chain_more e p c)
  then have "e \<noteq> d" and "e \<in> insert d D" using dep_chain_ne by fastforce+
  then show ?case using chain_more by (auto intro: dep_chain.intros)
qed (auto intro: dep_chain.intros)

text \<open>What the table holds after the operations \<open>D\<close>: the most reads of a chain that ends in each.\<close>

definition depth_table :: "'d mlir \<Rightarrow> 'd op \<Rightarrow> 'd op set \<Rightarrow> (nat \<Rightarrow> nat) \<Rightarrow> bool" where
  "depth_table M f D depth \<longleftrightarrow>
     (\<forall>d \<in> D. (\<forall>p. dep_chain f D (d # p) \<longrightarrow> reads M (d # p) \<le> depth (op_id d)) \<and>
       (\<exists>p. dep_chain f D (d # p) \<and> reads M (d # p) = depth (op_id d))) \<and>
     (\<forall>i. i \<notin> op_id ` D \<longrightarrow> depth i = 0)"

lemma foldl_max:
  fixes a :: nat
  shows "(\<forall>x \<in> set xs. x \<le> foldl max a xs) \<and> a \<le> foldl max a xs \<and> foldl max a xs \<in> insert a (set xs)"
proof (induction xs arbitrary: a)
  case (Cons x xs)
  then show ?case using Cons [of "max a x"] by (cases "a \<le> x") (simp_all add: max_absorb1 max_absorb2, (metis le_trans nat_le_linear)+)
qed simp

lemma incoming_ge: "depends f e d \<Longrightarrow> depth (op_id e) \<le> incoming f depth d"
  using foldl_max [of "map (\<lambda>v. case def_of f v of None \<Rightarrow> 0 | Some e \<Rightarrow> depth (op_id e)) (op_operands d)" 0]
  by (fastforce simp: depends_def list_ex_iff incoming_def)

lemma incoming_cases: "incoming f depth d = 0 \<or> (\<exists>e. depends f e d \<and> depth (op_id e) = incoming f depth d)"
proof -
  let ?g = "\<lambda>v. case def_of f v of None \<Rightarrow> 0 | Some e \<Rightarrow> depth (op_id e)"
  have "incoming f depth d = 0 \<or> incoming f depth d \<in> ?g ` set (op_operands d)"
    using foldl_max [of "map ?g (op_operands d)" 0] by (simp add: incoming_def)
  then show ?thesis by (force simp: depends_def list_ex_iff split: option.splits)
qed

lemma depth_table_step:
  assumes t: "depth_table M f D depth" and new: "op_id d \<notin> op_id ` D"
    and ids: "inj_on op_id P" "D \<subseteq> P" "d \<in> P" "\<And>e. depends f e d \<Longrightarrow> e \<in> P"
    and "\<not> depends f d d" "\<forall>x \<in> D. \<not> depends f d x"
  shows "depth_table M f (insert d D) (depth(op_id d := incoming f depth d + (if isMemoryRead M d then 1 else 0)))"
proof -
  let ?c = "incoming f depth d + (if isMemoryRead M d then 1 else 0)"
  let ?r = "if isMemoryRead M d then 1 else 0 :: nat"
  have dn: "d \<notin> D" using new by blast
  have upper: "reads M (d # p) \<le> ?c" if "dep_chain f (insert d D) (d # p)" for p
  proof (cases p)
    case (Cons e q)
    then have 2: "dep_chain f (insert d D) (e # q)" "depends f e d" using that by (auto elim: dep_chain_ConsE)
    have "e \<in> D" using dep_chain_ne [OF 2(1)] 2(2) assms(7) by auto
    then have "dep_chain f D (e # q)" using dep_chain_shrink [OF 2(1)] assms(8) by simp
    then have "reads M (e # q) \<le> depth (op_id e)" using t \<open>e \<in> D\<close> by (simp add: depth_table_def)
    then show ?thesis using incoming_ge [OF 2(2), of depth] Cons by (simp add: reads_def)
  qed (simp add: reads_def)
  have exact: "\<exists>p. dep_chain f (insert d D) (d # p) \<and> reads M (d # p) = ?c"
  proof (cases "incoming f depth d = 0")
    case True
    then show ?thesis by (intro exI [of _ "[]"]) (auto simp: reads_def intro: dep_chain.intros)
  next
    case False
    then obtain e where e: "depends f e d" "depth (op_id e) = incoming f depth d" using incoming_cases by metis
    then have "op_id e \<in> op_id ` D" using False t by (metis depth_table_def)
    then have "e \<in> D" using ids e(1) by (metis imageE inj_onD subsetD)
    then obtain p where p: "dep_chain f D (e # p)" "reads M (e # p) = depth (op_id e)" using t by (auto simp: depth_table_def)
    then have "dep_chain f (insert d D) (d # e # p)"
      using e(1) by (auto intro!: dep_chain.chain_more intro: dep_chain_mono)
    then show ?thesis using p e by (intro exI [of _ "e # p"]) (simp add: reads_def)
  qed
  have old: "(\<forall>p. dep_chain f (insert d D) (e # p) \<longrightarrow> reads M (e # p) \<le> depth (op_id e)) \<and>
      (\<exists>p. dep_chain f (insert d D) (e # p) \<and> reads M (e # p) = depth (op_id e))" if "e \<in> D" for e
    using t that dep_chain_shrink [of f d D "e # _"] assms(8) dep_chain_mono [of f D _ "insert d D"]
    by (simp add: depth_table_def) blast
  have "op_id e \<noteq> op_id d" if "e \<in> D" for e
    using imageI [OF that, of op_id] new by metis
  then show ?thesis
    using upper exact old t unfolding depth_table_def by auto
qed

lemma chain_depths_correct:
  assumes "depth_table M f (set xs) depth" "in_order f (xs @ ds)" "distinct (map op_id (xs @ ds))"
    "inj_on op_id P" "set (xs @ ds) \<subseteq> P" "\<And>d e. d \<in> set ds \<Longrightarrow> depends f e d \<Longrightarrow> e \<in> P"
    "\<forall>p. dep_chain f (set xs) p \<longrightarrow> reads M p \<le> m" "m = 0 \<or> (\<exists>p. dep_chain f (set xs) p \<and> reads M p = m)"
  shows "(\<forall>p. dep_chain f (set (xs @ ds)) p \<longrightarrow> reads M p \<le> chain_depths M f ds depth m) \<and>
    (chain_depths M f ds depth m = 0 \<or> (\<exists>p. dep_chain f (set (xs @ ds)) p \<and> reads M p = chain_depths M f ds depth m))"
  using assms
proof (induction ds arbitrary: xs depth m)
  case (Cons d ds)
  let ?c = "incoming f depth d + (if isMemoryRead M d then 1 else 0)"
  define depth' m' where "depth' = depth(op_id d := ?c)" and "m' = max m ?c"
  have o: "\<not> depends f d d" "\<forall>x \<in> set xs. \<not> depends f d x"
    using Cons.prems(2) by (auto simp: in_order_append)
  have t: "depth_table M f (insert d (set xs)) depth'"
    unfolding depth'_def using Cons.prems(3,5) by (intro depth_table_step [OF Cons.prems(1) _ Cons.prems(4) _ _ _ o]) (auto intro: Cons.prems(6))
  have new: "reads M p \<le> m'" if c: "dep_chain f (insert d (set xs)) p" for p
  proof (cases "hd p = d")
    case True
    then obtain q where "p = d # q" using dep_chain_ne [OF c] by (metis list.collapse)
    then show ?thesis using t c by (auto simp: depth_table_def depth'_def m'_def)
  next
    case False
    then have "dep_chain f (set xs) p" using dep_chain_ne [OF c] dep_chain_shrink [OF c] o(2) by auto
    then show ?thesis using Cons.prems(7) by (simp add: le_max_iff_disj m'_def)
  qed
  have attained: "m' = 0 \<or> (\<exists>p. dep_chain f (insert d (set xs)) p \<and> reads M p = m')"
  proof (cases "m \<le> ?c")
    case True
    then show ?thesis using t by (auto simp: depth_table_def max_def depth'_def m'_def)
  next
    case False
    then show ?thesis using Cons.prems(8) by (auto simp: max_def m'_def intro: dep_chain_mono)
  qed
  have "chain_depths M f (d # ds) depth m = chain_depths M f ds depth' m'"
    by (simp add: Let_def depth'_def m'_def)
  moreover have "(\<forall>p. dep_chain f (set ((xs @ [d]) @ ds)) p \<longrightarrow> reads M p \<le> chain_depths M f ds depth' m') \<and>
    (chain_depths M f ds depth' m' = 0 \<or>
     (\<exists>p. dep_chain f (set ((xs @ [d]) @ ds)) p \<and> reads M p = chain_depths M f ds depth' m'))"
    using t new attained Cons.prems(2-5) by (intro Cons.IH) (auto intro: Cons.prems(6))
  ultimately show ?case by simp
qed simp

definition ssa_order :: "'d op \<Rightarrow> bool" where
  "ssa_order f \<longleftrightarrow> distinct (map op_id (pre_op f)) \<and> in_order f (pre_op f)"

lemma ssa_orderD: "ssa_order f \<Longrightarrow> distinct (pre_op f)" "ssa_order f \<Longrightarrow> inj_on op_id (set (pre_op f))"
  by (simp_all add: ssa_order_def distinct_map)

lemma longest_chain:
  assumes "computeBackwardSlice M f opt m = Some S" "ssa_order f"
  shows "(\<forall>p. dep_chain f (set (sl_ops S)) p \<longrightarrow> reads M p < sl_chain_depth S) \<and>
    (sl_chain_depth S = 1 \<or> (\<exists>p. dep_chain f (set (sl_ops S)) p \<and> Suc (reads M p) = sl_chain_depth S))"
proof -
  obtain s where s: "sl_chain_depth S = computeChainDepth M f (sl_ops S)"
    using computeBackwardSlice_cases [OF assms(1)] by metis
  note o = computed_slice_ops [OF assms(1) ssa_orderD(1) [OF assms(2)]]
  have "in_order f (sl_ops S)" "distinct (map op_id (sl_ops S))"
    using assms(2) by (subst o(3), auto simp: ssa_order_def intro: in_order_filter distinct_map_filter)+
  moreover have "depth_table M f (set []) (\<lambda>_. 0)" by (simp add: depth_table_def)
  moreover have "\<not> dep_chain f {} p" for p using dep_chain_ne [of f "{}" p] by blast
  ultimately have "(\<forall>p. dep_chain f (set ([] @ sl_ops S)) p \<longrightarrow> reads M p \<le> chain_depths M f (sl_ops S) (\<lambda>_. 0) 0) \<and>
    (chain_depths M f (sl_ops S) (\<lambda>_. 0) 0 = 0 \<or>
      (\<exists>p. dep_chain f (set ([] @ sl_ops S)) p \<and> reads M p = chain_depths M f (sl_ops S) (\<lambda>_. 0) 0))"
    using o(2) ssa_orderD(2) [OF assms(2)]
    by (intro chain_depths_correct [where P = "set (pre_op f)"]) (auto simp: depends_def list_ex_iff dest: def_ofD)
  then show ?thesis by (auto simp: s computeChainDepth_def less_Suc_eq_le)
qed

text \<open>C27
  In a function in which definitions come before uses, the chain depth of a slice is one more than the most
  reads on a chain of dependent operations in it.
\<close>

theorem chain_depth_is_longest_chain:
  assumes "computeBackwardSlice M f opt m = Some S" "ssa_order f"
  shows "(\<forall>p. dep_chain f (set (sl_ops S)) p \<longrightarrow> reads M p < sl_chain_depth S) \<and>
    (sl_chain_depth S = 1 \<or> (\<exists>p. dep_chain f (set (sl_ops S)) p \<and> Suc (reads M p) = sl_chain_depth S))"
  using longest_chain [OF assms] .

section \<open>A pointer chase\<close>

declare slice_loop.simps [code]
declare isCirStackSlot.simps [code]

definition chase_machine :: "'d mlir" where
  "chase_machine = \<lparr>ml_effect_free = (\<lambda>d. \<not> isa d [''LLVM::LoadOp'', ''func::CallOp'']),
     ml_read_effect = (\<lambda>d. False), ml_constant = (\<lambda>d. isa d [''arith::ConstantOp'']),
     ml_type = (\<lambda>v. if v = 9 then Integer_Type 64 else Llvm_Ptr 1)\<rparr>"

text \<open>\<open>p[0]->next->next->next\<close>: four loads, each from the address the one before read.\<close>

definition pointer_chase :: "unit op" where
  "pointer_chase = Op 0 ''func::FuncOp'' [] [] [] [[Block [0]
     [Op 10 ''arith::ConstantOp'' [] [9] [] [], Op 1 ''LLVM::LoadOp'' [0] [1] [] [],
      Op 2 ''LLVM::GEPOp'' [1, 9] [2] [] [], Op 3 ''LLVM::LoadOp'' [2] [3] [] [],
      Op 4 ''LLVM::LoadOp'' [3] [4] [] [], Op 5 ''LLVM::LoadOp'' [4] [5] [] []]]]"

definition chase_root :: "unit op" where "chase_root = Op 5 ''LLVM::LoadOp'' [4] [5] [] []"

definition chase_slice :: "unit slice" where
  "chase_slice = \<lparr>sl_root = chase_root,
     sl_ops = [Op 1 ''LLVM::LoadOp'' [0] [1] [] [], Op 2 ''LLVM::GEPOp'' [1, 9] [2] [] [],
       Op 3 ''LLVM::LoadOp'' [2] [3] [] [], Op 4 ''LLVM::LoadOp'' [3] [4] [] []],
     sl_live_ins = [0], sl_boundaries = [(Some 9, Some (Op 10 ''arith::ConstantOp'' [] [9] [] []), Constant_Boundary), (Some 0, None, Block_Argument)],
     sl_chain_depth = 4, sl_truncated = False\<rparr>"

lemma chase_computed: "computeBackwardSlice chase_machine pointer_chase default_options chase_root = Some chase_slice"
  by code_simp

lemma chase_ssa: "ssa_order pointer_chase"
  by code_simp

theorem slice_is_backward_closure_witness:
  "sl_ops chase_slice = filter (\<lambda>d. \<exists>v. reached chase_machine pointer_chase default_options chase_root v \<and>
     classify chase_machine pointer_chase default_options 0 v = Take d) (pre_op pointer_chase)"
  using slice_is_backward_closure [OF chase_computed ssa_orderD(1) [OF chase_ssa]] by (simp add: chase_slice_def)

theorem chain_depth_is_longest_chain_witness:
  "\<exists>p. dep_chain pointer_chase (set (sl_ops chase_slice)) p \<and> Suc (reads chase_machine p) = 4"
  using chain_depth_is_longest_chain [OF chase_computed chase_ssa] by (simp add: chase_slice_def)

end
