(* ===== verification/Region_Formation.thy ===== *)
theory Region_Formation
  imports Backward_Slice
begin

text \<open>
  Static region formation (\<^verbatim>\<open>src/Dialect/Transforms/RegionFormation.cpp\<close>) and the cost model it asks
  (\<^verbatim>\<open>OffloadCostModelParams\<close> of \<^verbatim>\<open>include/Dialect/TwoPassTimingAnalysis.h\<close>): the slice of every remote
  access is cloned into the body of an offload operation, followed by a barrier before the access. Cloned
  operations and values get numbers the function does not use.
\<close>

section \<open>The cost model\<close>

text \<open>Latencies in whole nanoseconds; the doubles of the code are exact on them.\<close>

definition computeGain :: "nat \<Rightarrow> int \<Rightarrow> int" where
  "computeGain chainDepth vortexBusyNs = int chainDepth * (165 - 15) - (50 + vortexBusyNs)"

definition shouldOffload :: "nat \<Rightarrow> int \<Rightarrow> bool" where
  "shouldOffload chainDepth vortexBusyNs \<longleftrightarrow> computeGain chainDepth vortexBusyNs > 0 \<and> chainDepth \<ge> 4"

section \<open>Cloning\<close>

text \<open>
  A mapping relates values of the function to their clones; a value it does not know maps to itself. The
  state of the builder is the mapping with the next value and the next operation number.
\<close>

definition lookup :: "(nat \<times> nat) list \<Rightarrow> nat \<Rightarrow> nat" where
  "lookup mapping v = (case map_of mapping v of Some u \<Rightarrow> u | None \<Rightarrow> v)"

fun rename_op :: "(nat \<Rightarrow> nat) \<Rightarrow> (nat \<Rightarrow> nat) \<Rightarrow> 'd op \<Rightarrow> 'd op"
and rename_block :: "(nat \<Rightarrow> nat) \<Rightarrow> (nat \<Rightarrow> nat) \<Rightarrow> 'd block \<Rightarrow> 'd block" where
  "rename_op \<rho> \<iota> (Op i k xs rs as bs) =
     Op (\<iota> i) k (map \<rho> xs) (map \<rho> rs) as (map (map (rename_block \<rho> \<iota>)) bs)"
| "rename_block \<rho> \<iota> (Block args ds) = Block (map \<rho> args) (map (rename_op \<rho> \<iota>) ds)"

type_synonym builder = "(nat \<times> nat) list \<times> nat \<times> nat"

definition defined_in :: "'d op \<Rightarrow> nat list" where
  "defined_in d = concat (map op_results (pre_op d)) @ concat (map (\<lambda>(p, i, b). blk_args b) (all_blocks d))"

text \<open>\<open>OpBuilder::clone\<close>: the operands through the mapping, everything defined in the clone new and mapped.\<close>

definition clone :: "'d op \<Rightarrow> builder \<Rightarrow> 'd op \<times> builder" where
  "clone d \<beta> =
     (case \<beta> of (mapping, n, k) \<Rightarrow>
        let vs = defined_in d; ids = map op_id (pre_op d);
            new = zip vs [n..<n + length vs] @ mapping; \<iota> = lookup (zip ids [k..<k + length ids])
        in (Op (\<iota> (op_id d)) (op_kind d) (map (lookup mapping) (op_operands d)) (map (lookup new) (op_results d))
              (op_attrs d) (map (map (rename_block (lookup new) \<iota>)) (op_regions d)),
            new, n + length vs, k + length ids))"

fun clone_all :: "'d op list \<Rightarrow> builder \<Rightarrow> 'd op list \<times> builder" where
  "clone_all [] \<beta> = ([], \<beta>)"
| "clone_all (d # ds) \<beta> = (let (c, \<beta>') = clone d \<beta>; (cs, \<beta>'') = clone_all ds \<beta>' in (c # cs, \<beta>''))"

text \<open>The operations that define constants the slice or the access uses.\<close>

definition rematerializeConstants :: "'d mlir \<Rightarrow> 'd op \<Rightarrow> 'd slice \<Rightarrow> 'd op list" where
  "rematerializeConstants M f s =
     foldl (\<lambda>ds v. if v \<in> set (sl_live_ins s) then ds
         else case def_of f v of Some d \<Rightarrow> if ml_constant M d then sv_insert d ds else ds | None \<Rightarrow> ds)
       [] (concat (map op_operands (sl_ops s)) @ op_operands (sl_root s))"

section \<open>Outlining\<close>

text \<open>Insertion into a block, before the operation with a given number.\<close>

fun insert_op :: "nat \<Rightarrow> 'd op \<Rightarrow> 'd op \<Rightarrow> 'd op" and insert_block :: "nat \<Rightarrow> 'd op \<Rightarrow> 'd block \<Rightarrow> 'd block" where
  "insert_op t x (Op i k xs rs as bs) = Op i k xs rs as (map (map (insert_block t x)) bs)"
| "insert_block t x (Block args ds) =
     Block args (concat (map (\<lambda>d. if op_id d = t then [x, insert_op t x d] else [insert_op t x d]) ds))"

text \<open>Where an operation comes from in the sources.\<close>

datatype location = File_Line_Col string | Fused "location list" | Name_Loc location | Call_Site location
  | Unknown_Loc

fun findSourceFile :: "location \<Rightarrow> string" where
  "findSourceFile (File_Line_Col name) = name"
| "findSourceFile (Fused ls) = (case filter (\<lambda>n. n \<noteq> []) (map findSourceFile ls) of [] \<Rightarrow> [] | n # _ \<Rightarrow> n)"
| "findSourceFile (Name_Loc l) = findSourceFile l"
| "findSourceFile (Call_Site callee) = findSourceFile callee"
| "findSourceFile Unknown_Loc = []"

definition next_op :: "'d op \<Rightarrow> nat" where "next_op f = Suc (foldl max 0 (map op_id (pre_op f)))"

definition next_value :: "'d op \<Rightarrow> nat" where
  "next_value f = Suc (foldl max 0 (defined_in f @ concat (map op_operands (pre_op f))))"

definition i32_attr :: "nat \<Rightarrow> 'd attribute" where
  "i32_attr n = Int_Attr 32 (signed_take_bit 31 (int n))"

definition offload_attrs :: "(nat \<Rightarrow> location) \<Rightarrow> 'd slice \<Rightarrow> nat \<Rightarrow> (string \<times> 'd attribute) list" where
  "offload_attrs loc s regionId =
     [(''cira.region_id'', i32_attr regionId), (''cira.chain_depth'', i32_attr (sl_chain_depth s)),
      (''cira.slice_size'', i32_attr (length (sl_ops s)))] @
     (let source = findSourceFile (loc (op_id (sl_root s))) in if source = [] then [] else [(''cira.source'', Str_Attr source)])"

text \<open>What is cloned: the constants, the slice, and the access itself unless it is a store.\<close>

definition outlined :: "'d mlir \<Rightarrow> 'd op \<Rightarrow> 'd slice \<Rightarrow> 'd op list" where
  "outlined M f s =
     rematerializeConstants M f s @ sl_ops s @ (if isMemoryRead M (sl_root s) then [sl_root s] else [])"

definition body_args :: "'d op \<Rightarrow> 'd slice \<Rightarrow> nat list" where
  "body_args f s = [next_value f..<next_value f + length (sl_live_ins s)]"

definition outline_body :: "'d mlir \<Rightarrow> 'd op \<Rightarrow> 'd slice \<Rightarrow> 'd op list \<times> builder" where
  "outline_body M f s =
     clone_all (outlined M f s)
       (zip (sl_live_ins s) (body_args f s), next_value f + length (sl_live_ins s), next_op f + 2)"

definition offload_op :: "'d mlir \<Rightarrow> (nat \<Rightarrow> location) \<Rightarrow> 'd op \<Rightarrow> 'd slice \<Rightarrow> nat \<Rightarrow> 'd op" where
  "offload_op M loc f s regionId =
     Op (next_op f) ''OffloadRegionOp'' (sl_live_ins s) [] (offload_attrs loc s regionId)
       [[Block (body_args f s) (fst (outline_body M f s))]]"

definition insertion_point :: "'d op \<Rightarrow> 'd slice \<Rightarrow> 'd op" where
  "insertion_point f s =
     (case sl_ops s of [] \<Rightarrow> sl_root s
      | d # _ \<Rightarrow> if block_of f d \<noteq> block_of f (sl_root s) then sl_root s else d)"

definition outlineAsDeviceKernel :: "'d mlir \<Rightarrow> (nat \<Rightarrow> location) \<Rightarrow> 'd op \<Rightarrow> 'd slice \<Rightarrow> nat \<Rightarrow> 'd op" where
  "outlineAsDeviceKernel M loc f s regionId =
     insert_op (op_id (sl_root s)) (Op (Suc (next_op f)) ''BarrierOp'' [] [] [] [])
       (insert_op (op_id (insertion_point f s)) (offload_op M loc f s regionId) f)"

section \<open>The pass\<close>

record pass_options =
  maxSliceOps :: nat
  followDependentLoads :: bool
  requireProfitable :: bool

definition slice_options_of :: "pass_options \<Rightarrow> 'd slice_options" where
  "slice_options_of po = default_options\<lparr>so_max_ops := maxSliceOps po, so_follow_loads := followDependentLoads po\<rparr>"

text \<open>One access: the function with its region, or no region.\<close>

definition accepted :: "'d mlir \<Rightarrow> pass_options \<Rightarrow> 'd slice \<Rightarrow> bool" where
  "accepted M po s \<longleftrightarrow>
     isDeviceLegal M s \<and> hasRemoteDependence M s \<and> (requireProfitable po \<longrightarrow> shouldOffload (sl_chain_depth s) 0)"

definition formRegion :: "'d mlir \<Rightarrow> (nat \<Rightarrow> location) \<Rightarrow> pass_options \<Rightarrow> 'd op \<Rightarrow> 'd op \<Rightarrow> nat \<Rightarrow> 'd op option option" where
  "formRegion M loc po f m regionId =
     (case computeBackwardSlice M f (slice_options_of po) m of
        None \<Rightarrow> None
      | Some s0 \<Rightarrow>
          let s = pruneUnsupported M f s0
          in Some (if accepted M po s then Some (outlineAsDeviceKernel M loc f s regionId) else None))"

definition in_offload :: "'d op \<Rightarrow> 'd op \<Rightarrow> bool" where
  "in_offload f d \<longleftrightarrow> list_ex (\<lambda>e. isa e [''OffloadRegionOp''] \<and> op_id d \<in> set (map op_id (tl (pre_op e)))) (pre_op f)"

text \<open>The accesses are collected before the function is changed, in the order of a walk.\<close>

fun collect_roots :: "'d mlir \<Rightarrow> 'd op \<Rightarrow> 'd op list \<Rightarrow> nat list option" where
  "collect_roots M f [] = Some []"
| "collect_roots M f (d # ds) =
     (if in_offload f d then collect_roots M f ds
      else case isRemoteMemoryAccess M f d of None \<Rightarrow> None
        | Some r \<Rightarrow> map_option (\<lambda>is. if r then op_id d # is else is) (collect_roots M f ds))"

definition op_by_id :: "'d op \<Rightarrow> nat \<Rightarrow> 'd op option" where
  "op_by_id f i = find (\<lambda>d. op_id d = i) (pre_op f)"

fun form_regions :: "'d mlir \<Rightarrow> (nat \<Rightarrow> location) \<Rightarrow> pass_options \<Rightarrow> nat list \<Rightarrow> 'd op \<Rightarrow> nat \<Rightarrow> ('d op \<times> nat) option" where
  "form_regions M loc po [] f regionId = Some (f, regionId)"
| "form_regions M loc po (i # is) f regionId =
     (case op_by_id f i of None \<Rightarrow> None
      | Some m \<Rightarrow>
          (case formRegion M loc po f m regionId of
             None \<Rightarrow> None
           | Some None \<Rightarrow> form_regions M loc po is f regionId
           | Some (Some f') \<Rightarrow> form_regions M loc po is f' (Suc regionId)))"

fun runOnFunctions :: "'d mlir \<Rightarrow> (nat \<Rightarrow> location) \<Rightarrow> pass_options \<Rightarrow> 'd op list \<Rightarrow> nat \<Rightarrow> ('d op list \<times> nat) option" where
  "runOnFunctions M loc po [] regionId = Some ([], regionId)"
| "runOnFunctions M loc po (f # fs) regionId =
     (if concat (op_regions f) = [] then map_option (\<lambda>(gs, r). (f # gs, r)) (runOnFunctions M loc po fs regionId)
      else case collect_roots M f (post_op f) of None \<Rightarrow> None
        | Some roots \<Rightarrow>
            (case form_regions M loc po roots f regionId of None \<Rightarrow> None
             | Some (g, r) \<Rightarrow> map_option (\<lambda>(gs, r'). (g # gs, r')) (runOnFunctions M loc po fs r)))"

section \<open>Only insertions\<close>

fun keep_op :: "(nat \<Rightarrow> bool) \<Rightarrow> 'd op \<Rightarrow> 'd op" and keep_block :: "(nat \<Rightarrow> bool) \<Rightarrow> 'd block \<Rightarrow> 'd block" where
  "keep_op P (Op i k xs rs as bs) = Op i k xs rs as (map (map (keep_block P)) bs)"
| "keep_block P (Block args ds) = Block args (concat (map (\<lambda>d. if P (op_id d) then [keep_op P d] else []) ds))"

definition op_ids :: "'d op \<Rightarrow> nat set" where "op_ids f = op_id ` set (pre_op f)"

lemma insert_op_id [simp]: "op_id (insert_op t x d) = op_id d"
  by (cases d) simp

lemma keep_inserted:
  fixes f :: "'d op" and b :: "'d block"
  assumes "\<not> P (op_id x)"
  shows "keep_op P (insert_op t x f) = keep_op P f" "keep_block P (insert_block t x b) = keep_block P b"
proof (induction f and b rule: pre_op_pre_block.induct)
  case (2 args ds)
  let ?k = "\<lambda>d. if P (op_id d) then [keep_op P d] else []"
  have "concat (map ?k (concat (map (\<lambda>d. if op_id d = t then [x, insert_op t x d] else [insert_op t x d]) es))) = concat (map ?k es)"
    if "\<forall>d \<in> set es. keep_op P (insert_op t x d) = keep_op P d" for es
    using that
  proof (induction es)
    case (Cons d es)
    then show ?case using assms by (cases "op_id d = t") simp_all
  qed simp
  then show ?case using 2 by simp
next
  case (1 i k xs rs as bs)
  then show ?case by simp
qed

lemma keep_all:
  fixes f :: "'d op" and b :: "'d block"
  shows "(\<And>d. d \<in> set (pre_op f) \<Longrightarrow> P (op_id d)) \<Longrightarrow> keep_op P f = f"
    "(\<And>d. d \<in> set (pre_block b) \<Longrightarrow> P (op_id d)) \<Longrightarrow> keep_block P b = b"
proof (induction f and b rule: pre_op_pre_block.induct)
  case (1 i k xs rs as bs)
  have "keep_block P b = b" if "r \<in> set bs" "b \<in> set r" for r b
    using 1(2) that by (intro 1(1)) auto
  then have "map (keep_block P) r = r" if "r \<in> set bs" for r using that by (simp add: map_idI)
  then show ?case by (simp add: map_idI)
next
  case (2 args ds)
  then have "P (op_id d) \<and> keep_op P d = d" if "d \<in> set ds" for d
    using that pre_op_self by fastforce
  then have "concat (map (\<lambda>d. if P (op_id d) then [keep_op P d] else []) ds) = ds"
    by (induction ds) auto
  then show ?case by simp
qed

lemma op_ids_insert:
  fixes f :: "'d op" and b :: "'d block"
  shows "op_id ` set (pre_op f) \<subseteq> op_id ` set (pre_op (insert_op t x f))"
    "op_id ` set (pre_block b) \<subseteq> op_id ` set (pre_block (insert_block t x b))"
proof (induction f and b rule: pre_op_pre_block.induct)
  case (1 i k xs rs as bs)
  have "op_id ` (\<Union>r \<in> set bs. \<Union>b \<in> set r. set (pre_block b)) \<subseteq>
      op_id ` (\<Union>r \<in> set bs. \<Union>b \<in> set r. set (pre_block (insert_block t x b)))"
    using 1 by (simp add: image_UN) (intro UN_mono order_refl, simp)
  then show ?case unfolding insert_op.simps pre_op.simps set_simps set_concat set_map by (simp add: image_UN) blast
next
  case (2 args ds)
  have "op_id ` (\<Union>d \<in> set ds. set (pre_op d)) \<subseteq> op_id ` (\<Union>d \<in> set ds. set (pre_op (insert_op t x d)))"
    using 2 by (simp add: image_UN) (intro UN_mono order_refl, simp)
  moreover have "(\<Union>d \<in> set ds. set (pre_op (insert_op t x d))) \<subseteq> set (pre_block (insert_block t x (Block args ds)))"
  proof (rule UN_least)
    fix d assume "d \<in> set ds"
    then obtain ys zs where "ds = ys @ d # zs" by (auto dest: split_list)
    then show "set (pre_op (insert_op t x d)) \<subseteq> set (pre_block (insert_block t x (Block args ds)))"
      by (cases "op_id d = t") (simp_all, blast+)
  qed
  ultimately show ?case by (simp del: insert_block.simps) (meson image_mono order_trans)
qed

lemma next_op_new: "i \<in> op_ids f \<Longrightarrow> i < next_op f"
  using foldl_max [of "map op_id (pre_op f)" 0] by (auto simp: op_ids_def next_op_def less_Suc_eq_le)

lemma outlined_keeps:
  assumes "op_ids f0 \<subseteq> op_ids f"
  shows "keep_op (\<lambda>i. i \<in> op_ids f0) (outlineAsDeviceKernel M loc f s r) = keep_op (\<lambda>i. i \<in> op_ids f0) f \<and>
    op_ids f0 \<subseteq> op_ids (outlineAsDeviceKernel M loc f s r)"
proof -
  have "next_op f \<notin> op_ids f0" "Suc (next_op f) \<notin> op_ids f0" using assms next_op_new [of _ f] by fastforce+
  moreover have "op_ids f \<subseteq> op_ids (outlineAsDeviceKernel M loc f s r)"
    unfolding outlineAsDeviceKernel_def op_ids_def by (rule order_trans [OF op_ids_insert(1) op_ids_insert(1)])
  ultimately show ?thesis using assms
    by (auto simp: outlineAsDeviceKernel_def keep_inserted offload_op_def)
qed

lemma formRegion_Some:
  assumes "formRegion M loc po f m r = Some (Some f')"
  obtains s0 where "computeBackwardSlice M f (slice_options_of po) m = Some s0"
    "accepted M po (pruneUnsupported M f s0)" "f' = outlineAsDeviceKernel M loc f (pruneUnsupported M f s0) r"
  using assms by (auto simp: formRegion_def Let_def split: option.splits if_splits)

lemma form_regions_keep:
  assumes "form_regions M loc po is f r = Some (g, r')" "op_ids f0 \<subseteq> op_ids f"
  shows "keep_op (\<lambda>i. i \<in> op_ids f0) g = keep_op (\<lambda>i. i \<in> op_ids f0) f"
  using assms
proof (induction M loc po "is" f r rule: form_regions.induct)
  case (2 M loc po i "is" f r)
  then obtain m x where m: "op_by_id f i = Some m" and x: "formRegion M loc po f m r = Some x"
    by (auto split: option.splits)
  show ?case
  proof (cases x)
    case None
    then show ?thesis using 2(1) [OF m x] 2(3,4) m x by simp
  next
    case (Some f')
    then have "keep_op (\<lambda>i. i \<in> op_ids f0) f' = keep_op (\<lambda>i. i \<in> op_ids f0) f" "op_ids f0 \<subseteq> op_ids f'"
      using x 2(4) outlined_keeps by (metis formRegion_Some)+
    then show ?thesis using 2(2) [OF m x] 2(3) m x Some by simp
  qed
qed simp

text \<open>C7
  The host keeps its program: region formation only inserts operations, so dropping those a function did
  not have gives back the function, for every function of the module.
\<close>

theorem formation_only_inserts:
  assumes "runOnFunctions M loc po fs r = Some (gs, r')"
  shows "list_all2 (\<lambda>f g. keep_op (\<lambda>i. i \<in> op_ids f) g = f) fs gs"
  using assms
proof (induction M loc po fs r arbitrary: gs r' rule: runOnFunctions.induct)
  case (2 M loc po f fs r)
  have self: "keep_op (\<lambda>i. i \<in> op_ids f) f = f" by (rule keep_all) (simp add: op_ids_def)
  show ?case
  proof (cases "concat (op_regions f) = []")
    case True
    then show ?thesis using 2 self by (auto simp del: concat_eq_Nil_conv)
  next
    case False
    then obtain roots g k gs' where "collect_roots M f (post_op f) = Some roots"
        "form_regions M loc po roots f r = Some (g, k)" "runOnFunctions M loc po fs k = Some (gs', r')" "gs = g # gs'"
      using 2(3) by (auto split: option.splits simp del: concat_eq_Nil_conv)
    then show ?thesis using 2(2) [OF False] form_regions_keep [of M loc po roots f r g k f] self by simp
  qed
qed simp

section \<open>The body is closed\<close>

text \<open>
  \<open>IsolatedFromAbove\<close>: in a list of operations run with the values \<open>V\<close>, every operand is one of \<open>V\<close> or the
  result of an earlier operation.
\<close>

fun closed_ops :: "nat set \<Rightarrow> 'd op list \<Rightarrow> bool" where
  "closed_ops V [] \<longleftrightarrow> True"
| "closed_ops V (d # ds) \<longleftrightarrow> set (op_operands d) \<subseteq> V \<and> closed_ops (V \<union> set (op_results d)) ds"

text \<open>Operations without regions that define each of their results once.\<close>

definition simple :: "'d op \<Rightarrow> bool" where "simple d \<longleftrightarrow> op_regions d = [] \<and> distinct (op_results d)"

text \<open>
  What the pass assumes of a function: values are defined before they are used, constants have no operands
  (as MLIR's constants do), and neither the operations the device runs nor the access have regions.
\<close>

definition sliceable :: "'d mlir \<Rightarrow> 'd op \<Rightarrow> 'd op \<Rightarrow> bool" where
  "sliceable M f m \<longleftrightarrow> ssa_order f \<and> simple m \<and>
     list_all (\<lambda>d. (ml_constant M d \<longrightarrow> op_operands d = []) \<and>
       (ml_constant M d \<or> isDeviceLegalOp M d \<longrightarrow> simple d)) (pre_op f)"

lemma clone_simple:
  assumes "simple d"
  shows "clone d (mapping, n, k) =
    (Op k (op_kind d) (map (lookup mapping) (op_operands d)) [n..<n + length (op_results d)] (op_attrs d) [],
     zip (op_results d) [n..<n + length (op_results d)] @ mapping, n + length (op_results d), Suc k)"
proof -
  have p: "pre_op d = [d]" and a: "all_blocks d = []"
    using assms by (cases d, simp add: simple_def all_blocks_def own_blocks_def)+
  have "map (lookup (zip rs us @ mapping)) rs = us" if "distinct rs" "length us = length rs" for rs us :: "nat list"
    using that by (intro nth_equalityI) (simp_all add: lookup_def map_of_zip_nth)
  then show ?thesis using assms
    by (simp add: clone_def Let_def defined_in_def p a simple_def lookup_def [of "[_]"])
qed

lemma closed_in_order:
  assumes "in_order f ds" "\<forall>d \<in> set ds. \<forall>v \<in> set (op_operands d). v \<in> V \<or> (\<exists>e \<in> set ds. def_of f v = Some e)"
  shows "closed_ops V ds"
  using assms
proof (induction ds arbitrary: V)
  case (Cons d ds)
  have "set (op_operands d) \<subseteq> V"
    using Cons.prems by (auto simp: depends_def list_all_iff list_ex_iff)
  moreover have "closed_ops (V \<union> set (op_results d)) ds"
    using Cons.prems by (intro Cons.IH) (auto dest: def_ofD)
  ultimately show ?case by simp
qed simp

lemma closed_ops_append:
  "closed_ops V (ds @ es) \<longleftrightarrow> closed_ops V ds \<and> closed_ops (V \<union> (\<Union>d \<in> set ds. set (op_results d))) es"
  by (induction ds arbitrary: V) (auto simp: Un_assoc)

lemma closed_no_operands: "\<forall>d \<in> set ds. op_operands d = [] \<Longrightarrow> closed_ops V ds"
  by (induction ds arbitrary: V) auto

lemma sv_inserts_set: "set (foldl (\<lambda>us v. sv_insert v us) us vs) = set us \<union> set vs"
  by (induction vs arbitrary: us) auto

lemma rematerializeConstants_set:
  "set (rematerializeConstants M f s) = {d. ml_constant M d \<and> (\<exists>v. def_of f v = Some d \<and> v \<notin> set (sl_live_ins s) \<and>
     v \<in> set (concat (map op_operands (sl_ops s)) @ op_operands (sl_root s)))}"
proof -
  let ?g = "\<lambda>ds v. if v \<in> set (sl_live_ins s) then ds
         else case def_of f v of Some d \<Rightarrow> if ml_constant M d then sv_insert d ds else ds | None \<Rightarrow> ds"
  have "set (foldl ?g ds vs) =
      set ds \<union> {d. ml_constant M d \<and> (\<exists>v. def_of f v = Some d \<and> v \<notin> set (sl_live_ins s) \<and> v \<in> set vs)}" for ds vs
    by (induction vs arbitrary: ds) (auto split: option.splits)
  then show ?thesis by (simp add: rematerializeConstants_def) blast
qed

text \<open>Every operand of the slice or of a read access is live in, a constant, or defined by the slice.\<close>

lemma operand_covered:
  assumes "s = pruneUnsupported M f s0" "sl_ops s = sl_ops s0" "sl_root s = sl_root s0"
    and "v \<in> set (concat (map op_operands (sl_ops s))) \<or> isMemoryRead M (sl_root s) \<and> v \<in> set (op_operands (sl_root s))"
  shows "v \<in> set (sl_live_ins s) \<or> (\<exists>e \<in> set (rematerializeConstants M f s) \<union> set (sl_ops s). def_of f v = Some e)"
proof (cases "v \<in> set (sl_live_ins s)")
  case False
  have "prune_loop M s0 = s\<lparr>sl_live_ins := sl_live_ins (prune_loop M s0)\<rparr>" using assms(1)
    by (simp add: pruneUnsupported_def Let_def)
  then have ops: "sl_ops (prune_loop M s0) = sl_ops s" "sl_root (prune_loop M s0) = sl_root s"
    by (metis slice.select_convs slice.surjective slice.update_convs)+
  have "set (sl_live_ins s) = set (external_operands M f (sl_ops s) (concat (map op_operands (sl_ops s)) @
      (if isMemoryRead M (sl_root s) then op_operands (sl_root s) else getAddressOperands M (sl_root s))))"
    unfolding assms(1) pruneUnsupported_def Let_def by (simp add: sv_inserts_set ops(1,2) [unfolded assms(1)])
  then obtain e where "def_of f v = Some e" "e \<in> set (sl_ops s) \<or> ml_constant M e"
    using False assms(4) by (auto simp: external_operands_def split: option.splits)
  then show ?thesis using False assms(4) by (auto simp: rematerializeConstants_set)
qed simp

lemma outlined_closed:
  assumes "computeBackwardSlice M f opt m = Some s0" "s = pruneUnsupported M f s0" "sliceable M f m"
  shows "closed_ops (set (sl_live_ins s)) (outlined M f s)" "\<forall>d \<in> set (outlined M f s). simple d"
    "sl_root s = m" "sl_ops s = sl_ops s0"
proof -
  have ssa: "ssa_order f" using assms(3) by (simp add: sliceable_def)
  note p = pruned_slice_ops [OF assms(1) ssa_orderD(1) [OF ssa]] computed_slice_ops [OF assms(1) ssa_orderD(1) [OF ssa]]
  then show ops: "sl_root s = m" "sl_ops s = sl_ops s0" using assms(2) by simp_all
  note covered = operand_covered [OF assms(2) ops(2), OF trans [OF ops(1) p(4) [symmetric]]]
  let ?C = "rematerializeConstants M f s" and ?L = "set (sl_live_ins s)"
  have const: "e \<in> set (pre_op f) \<and> op_operands e = [] \<and> simple e" if "e \<in> set ?C" for e
    using that assms(3) by (auto simp: rematerializeConstants_set sliceable_def list_all_iff dest: def_ofD)
  have legal: "\<forall>e \<in> set (sl_ops s). simple e"
    using p(5) ops(2) assms(3) by (simp add: sliceable_def list_all_iff)
  show "\<forall>d \<in> set (outlined M f s). simple d"
    using const legal assms(3) ops(1) by (auto simp: outlined_def sliceable_def)
  let ?V = "?L \<union> (\<Union>d \<in> set ?C. set (op_results d))"
  have cov: "v \<in> ?V \<or> (\<exists>e \<in> set (sl_ops s). def_of f v = Some e)"
    if "v \<in> set (concat (map op_operands (sl_ops s))) \<or> isMemoryRead M (sl_root s) \<and> v \<in> set (op_operands (sl_root s))" for v
    using covered [OF that] by (auto dest: def_ofD)
  have "in_order f (sl_ops s)"
    using ssa unfolding ops(2) ssa_order_def by (subst p(6)) (auto intro: in_order_filter)
  then have "closed_ops ?V (sl_ops s)"
    using cov by (intro closed_in_order) auto
  moreover have "set (op_operands (sl_root s)) \<subseteq> ?V \<union> (\<Union>d \<in> set (sl_ops s). set (op_results d))" if "isMemoryRead M (sl_root s)"
    using cov that by (fastforce dest: def_ofD)
  moreover have "closed_ops ?L ?C" using const by (intro closed_no_operands) blast
  ultimately show "closed_ops ?L (outlined M f s)"
    by (simp add: outlined_def closed_ops_append)
qed

lemma lookup_in:
  assumes "v \<in> fst ` set mapping"
  shows "(v, lookup mapping v) \<in> set mapping"
proof -
  obtain u where "map_of mapping v = Some u" using assms by (metis map_of_eq_None_iff not_None_eq)
  then show ?thesis by (simp add: lookup_def map_of_SomeD)
qed

lemma clone_all_closed:
  assumes "closed_ops (fst ` set mapping) ds" "\<forall>d \<in> set ds. simple d" "clone_all ds (mapping, n, k) = (cs, \<beta>)"
  shows "closed_ops (snd ` set mapping) cs"
  using assms
proof (induction ds arbitrary: mapping n k cs \<beta>)
  case (Cons d ds)
  let ?us = "[n..<n + length (op_results d)]"
  obtain c cs' where c: "cs = c # cs'" "op_operands c = map (lookup mapping) (op_operands d)" "op_results c = ?us"
      and cs': "clone_all ds (zip (op_results d) ?us @ mapping, n + length (op_results d), Suc k) = (cs', \<beta>)"
    using Cons.prems(2,3) by (auto simp: clone_simple split: prod.splits)
  have "fst ` set (zip (op_results d) ?us @ mapping) = fst ` set mapping \<union> set (op_results d)"
    by (simp add: image_Un flip: set_map) auto
  then have "closed_ops (snd ` set (zip (op_results d) ?us @ mapping)) cs'"
    using Cons.prems(1,2) by (intro Cons.IH [OF _ _ cs']) simp_all
  moreover have "snd ` set (zip (op_results d) ?us @ mapping) = snd ` set mapping \<union> set ?us"
    by (simp add: image_Un flip: set_map) auto
  moreover have "lookup mapping v \<in> snd ` set mapping" if "v \<in> fst ` set mapping" for v
    using lookup_in [OF that] by force
  moreover have "set (op_operands d) \<subseteq> fst ` set mapping" using Cons.prems(1) by simp
  ultimately show ?case using c by (auto simp: subset_iff)
qed simp

text \<open>C26
  The region is isolated: the body of the offload uses nothing but its own arguments and what it computes
  before, and its arguments are the live-ins, one to one.
\<close>

theorem offload_body_closed:
  assumes "computeBackwardSlice M f opt m = Some s0" "s = pruneUnsupported M f s0" "sliceable M f m"
  shows "\<exists>args body. op_regions (offload_op M loc f s r) = [[Block args body]] \<and> closed_ops (set args) body \<and>
    length args = length (op_operands (offload_op M loc f s r))"
proof -
  let ?mp = "zip (sl_live_ins s) (body_args f s)"
  obtain cs \<beta> where b: "outline_body M f s = (cs, \<beta>)" by (metis surj_pair)
  have "fst ` set ?mp = set (sl_live_ins s)" "snd ` set ?mp = set (body_args f s)"
    by (simp_all add: body_args_def flip: set_map)
  then have "closed_ops (set (body_args f s)) cs"
    using clone_all_closed [OF _ _ b [unfolded outline_body_def]] outlined_closed(1,2) [OF assms] by simp
  then show ?thesis by (simp add: offload_op_def b body_args_def)
qed

section \<open>The device computes what the host computes\<close>

text \<open>
  A meaning of operations: the results, from the kind, the attributes and the operands. The device runs the
  body from the values of the arguments.
\<close>

type_synonym ('d, 'v) meaning = "string \<Rightarrow> (string \<times> 'd attribute) list \<Rightarrow> 'v list \<Rightarrow> 'v list"

definition bind_values :: "nat list \<Rightarrow> 'v list \<Rightarrow> (nat \<Rightarrow> 'v) \<Rightarrow> nat \<Rightarrow> 'v" where
  "bind_values rs xs env v = (case map_of (zip rs xs) v of Some x \<Rightarrow> x | None \<Rightarrow> env v)"

definition apply_op :: "('d, 'v) meaning \<Rightarrow> 'd op \<Rightarrow> (nat \<Rightarrow> 'v) \<Rightarrow> 'v list" where
  "apply_op I d env = I (op_kind d) (op_attrs d) (map env (op_operands d))"

fun run_ops :: "('d, 'v) meaning \<Rightarrow> 'd op list \<Rightarrow> (nat \<Rightarrow> 'v) \<Rightarrow> nat \<Rightarrow> 'v" where
  "run_ops I [] env = env"
| "run_ops I (d # ds) env = run_ops I ds (bind_values (op_results d) (apply_op I d env) env)"

text \<open>On the host a value has one definition: its values solve the equations of the operations.\<close>

definition solves :: "('d, 'v) meaning \<Rightarrow> (nat \<Rightarrow> 'v) \<Rightarrow> 'd op \<Rightarrow> bool" where
  "solves I env d \<longleftrightarrow> apply_op I d env = map env (op_results d)"

lemma bind_values_map:
  assumes "distinct rs" "length xs = length rs"
  shows "map (bind_values rs xs env) rs = xs"
  using assms by (intro nth_equalityI) (simp_all add: bind_values_def map_of_zip_nth)

lemma bind_values_other: "v \<notin> set rs \<Longrightarrow> bind_values rs xs env v = env v"
  by (auto simp: bind_values_def split: option.split dest!: map_of_SomeD in_set_zipE)

lemma clone_all_results:
  assumes "\<forall>d \<in> set ds. simple d" "clone_all ds (mapping, n, k) = (cs, \<beta>)" "c \<in> set cs" "v \<in> set (op_results c)"
  shows "n \<le> v"
  using assms
proof (induction ds arbitrary: mapping n k cs)
  case (Cons d ds)
  then show ?case by (fastforce simp: clone_simple split: prod.splits dest: add_leD1)
qed simp

lemma run_ops_below:
  assumes "\<forall>c \<in> set cs. v \<notin> set (op_results c)"
  shows "run_ops I cs env v = env v"
  using assms by (induction cs arbitrary: env) (simp_all add: bind_values_other)

text \<open>The mapping keeps the values: what a clone reads and computes is what its original does.\<close>

lemma clone_all_run:
  assumes "closed_ops (fst ` set mapping) ds" "\<forall>d \<in> set ds. simple d" "clone_all ds (mapping, n, k) = (cs, \<beta>)"
    and "\<forall>v \<in> fst ` set mapping. lookup mapping v < n \<and> dev (lookup mapping v) = env v"
    and "\<forall>d \<in> set ds. solves I env d"
  shows "list_all2 (\<lambda>d c. op_kind c = op_kind d \<and>
     map (run_ops I cs dev) (op_operands c) = map env (op_operands d) \<and>
     map (run_ops I cs dev) (op_results c) = map env (op_results d)) ds cs"
  using assms
proof (induction ds arbitrary: mapping n k cs \<beta> dev)
  case (Cons d ds)
  let ?m = "length (op_results d)"
  let ?us = "[n..<n + ?m]"
  let ?mp = "zip (op_results d) ?us @ mapping"
  let ?c = "Op k (op_kind d) (map (lookup mapping) (op_operands d)) ?us (op_attrs d) []"
  let ?dev = "bind_values ?us (apply_op I ?c dev) dev"
  obtain cs' where c: "cs = ?c # cs'" and cs': "clone_all ds (?mp, n + ?m, Suc k) = (cs', \<beta>)"
    using Cons.prems(2,3) by (auto simp: clone_simple split: prod.splits)
  have opnds: "map dev (op_operands ?c) = map env (op_operands d)" "\<forall>u \<in> set (op_operands ?c). u < n"
    using Cons.prems(1,4) by auto
  have "apply_op I ?c dev = apply_op I d env" 
    unfolding apply_op_def opnds(1) by simp
  then have res: "apply_op I ?c dev = map env (op_results d)"
    using Cons.prems(5) by (simp add: solves_def)
  have new: "map ?dev ?us = map env (op_results d)"
    unfolding res by (rule bind_values_map) simp_all
  have old: "?dev u = dev u" if "u < n" for u
    using that by (intro bind_values_other) simp
  have rel: "lookup ?mp v < n + ?m \<and> ?dev (lookup ?mp v) = env v" if "v \<in> fst ` set ?mp" for v
  proof (cases "v \<in> set (op_results d)")
    case True
    then obtain i where i: "i < ?m" "v = op_results d ! i" by (auto simp: in_set_conv_nth)
    moreover have "distinct (op_results d)" using Cons.prems(2) by (simp add: simple_def)
    ultimately have "lookup ?mp v = n + i" by (simp add: lookup_def map_of_zip_nth)
    then show ?thesis using i arg_cong [OF new, of "\<lambda>xs. xs ! i"] by simp
  next
    case False
    then have "v \<notin> fst ` set (zip (op_results d) ?us)" by (auto dest: set_zip_leftD)
    then have "lookup ?mp v = lookup mapping v" "v \<in> fst ` set mapping"
      using that by (simp_all add: lookup_def map_add_def map_of_eq_None_iff [THEN iffD2] image_Un split: option.split)
    then show ?thesis using Cons.prems(4) old by auto
  qed
  have stable: "run_ops I cs' ?dev u = ?dev u" if "u < n + ?m" for u
    using that clone_all_results [OF _ cs'] Cons.prems(2) by (intro run_ops_below) fastforce
  have "fst ` set ?mp = fst ` set mapping \<union> set (op_results d)"
    by (simp add: image_Un flip: set_map) auto
  then have "list_all2 (\<lambda>d c. op_kind c = op_kind d \<and>
     map (run_ops I cs' ?dev) (op_operands c) = map env (op_operands d) \<and>
     map (run_ops I cs' ?dev) (op_results c) = map env (op_results d)) ds cs'"
    using Cons.prems rel by (intro Cons.IH [OF _ _ cs']) simp_all
  moreover have "map (run_ops I cs' ?dev) (op_operands ?c) = map env (op_operands d)"
  proof -
    have "run_ops I cs' ?dev u = dev u" if "u < n" for u using stable [OF trans_less_add1 [OF that]] old [OF that] by (rule trans)
    then have "map (run_ops I cs' ?dev) (op_operands ?c) = map dev (op_operands ?c)"
      using opnds(2) by (intro map_cong [OF refl]) blast
    then show ?thesis using opnds(1) by (rule trans)
  qed
  moreover have "map (run_ops I cs' ?dev) ?us = map env (op_results d)"
  proof -
    have "map (run_ops I cs' ?dev) ?us = map ?dev ?us" using stable by (intro map_cong [OF refl]) simp
    then show ?thesis using new by (rule trans)
  qed
  moreover have "run_ops I cs dev = run_ops I cs' ?dev" unfolding c by (simp only: run_ops.simps op.sel)
  ultimately show ?case unfolding c list_all2_Cons op.sel by (simp only:)
qed simp


section \<open>What is formed\<close>

text \<open>The gain is positive from the first level on: only the depth decides.\<close>

lemma shouldOffload_depth: "shouldOffload n 0 \<longleftrightarrow> 4 \<le> n"
  by (auto simp: shouldOffload_def computeGain_def)

lemma dep_chain_within: "dep_chain f D p \<Longrightarrow> set p \<subseteq> D"
  by (induction rule: dep_chain.induct) auto

text \<open>C8
  With the profitability test on, an access gets a region exactly when the device has at least three reads,
  each depending on the one before, to do ahead of it.
\<close>

theorem formed_iff_chases:
  assumes "computeBackwardSlice M f (slice_options_of po) m = Some s0" "ssa_order f" "requireProfitable po"
  shows "(\<exists>g. formRegion M loc po f m r = Some (Some g)) \<longleftrightarrow> (\<exists>p. dep_chain f (set (sl_ops s0)) p \<and> 3 \<le> reads M p)"
proof -
  let ?s = "pruneUnsupported M f s0"
  note o = computed_slice_ops [OF assms(1) ssa_orderD(1) [OF assms(2)]]
  note p = pruned_slice_ops [OF assms(1) ssa_orderD(1) [OF assms(2)]]
  have depth: "4 \<le> sl_chain_depth s0 \<longleftrightarrow> (\<exists>p. dep_chain f (set (sl_ops s0)) p \<and> 3 \<le> reads M p)" (is "?l \<longleftrightarrow> ?r")
  proof
    show "?l \<Longrightarrow> ?r" using longest_chain [OF assms(1,2)] by fastforce
    show "?r \<Longrightarrow> ?l" using longest_chain [OF assms(1,2)] by fastforce
  qed
  have "hasRemoteDependence M ?s" if c: "dep_chain f (set (sl_ops s0)) q" "3 \<le> reads M q" for q
  proof -
    have "filter (isMemoryRead M) q \<noteq> []" using c(2) unfolding reads_def by auto
    then show ?thesis using dep_chain_within [OF c(1)] p(1) by (auto simp: hasRemoteDependence_def list_ex_iff filter_empty_conv)
  qed
  moreover have "isDeviceLegal M ?s" if "dep_chain f (set (sl_ops s0)) q" for q
    using o(2) p(1) dep_chain_ne [OF that] by (auto simp: isDeviceLegal_def list_all_iff)
  ultimately have "accepted M po ?s \<longleftrightarrow> (\<exists>p. dep_chain f (set (sl_ops s0)) p \<and> 3 \<le> reads M p)"
    using depth p(3) assms(3) by (auto simp: accepted_def shouldOffload_depth)
  then show ?thesis using assms(1) by (simp add: formRegion_def Let_def)
qed

section \<open>Examples\<close>

definition default_pass :: pass_options where
  "default_pass = \<lparr>maxSliceOps = 256, followDependentLoads = True, requireProfitable = True\<rparr>"

definition forced_pass :: pass_options where "forced_pass = default_pass\<lparr>requireProfitable := False\<rparr>"

lemma default_slice_options: "slice_options_of default_pass = default_options"
  by (simp add: slice_options_of_def default_pass_def default_options_def)

definition nowhere :: "nat \<Rightarrow> location" where "nowhere i = Unknown_Loc"

definition chase_pruned :: "unit slice" where "chase_pruned = pruneUnsupported chase_machine pointer_chase chase_slice"

lemma chase_sliceable: "sliceable chase_machine pointer_chase chase_root"
  by code_simp

definition chase_body :: "unit op list" where "chase_body = fst (outline_body chase_machine pointer_chase chase_pruned)"

lemma chase_body_ops: "map (\<lambda>d. (op_kind d, op_operands d, op_results d)) chase_body =
  [(''arith::ConstantOp'', [], [11]), (''LLVM::LoadOp'', [10], [12]), (''LLVM::GEPOp'', [12, 11], [13]),
   (''LLVM::LoadOp'', [13], [14]), (''LLVM::LoadOp'', [14], [15]), (''LLVM::LoadOp'', [15], [16])]"
  by code_simp

theorem formed_iff_chases_witness: "\<exists>g. formRegion chase_machine nowhere default_pass pointer_chase chase_root 0 = Some (Some g)"
proof -
  obtain p where "dep_chain pointer_chase (set (sl_ops chase_slice)) p" "3 \<le> reads chase_machine p"
    using longest_chain [OF chase_computed chase_ssa] by (auto simp: chase_slice_def)
  moreover have "computeBackwardSlice chase_machine pointer_chase (slice_options_of default_pass) chase_root = Some chase_slice"
    unfolding default_slice_options by (rule chase_computed)
  moreover have "requireProfitable default_pass" by (simp add: default_pass_def)
  ultimately show ?thesis using formed_iff_chases [OF _ chase_ssa] by blast
qed

theorem offload_body_closed_witness: "\<exists>args body. closed_ops (set args) body \<and> length args = 1 \<and>
    op_regions (offload_op chase_machine nowhere pointer_chase chase_pruned 0) = [[Block args body]]"
proof -
  have "length (op_operands (offload_op chase_machine nowhere pointer_chase chase_pruned 0)) = 1" by code_simp
  then show ?thesis using offload_body_closed [OF chase_computed chase_pruned_def chase_sliceable, of nowhere 0] by auto
qed

text \<open>A memory in which the word after an address holds the next one.\<close>

definition chase_meaning :: "(unit, nat) meaning" where
  "chase_meaning k as xs = (if k = ''arith::ConstantOp'' then [8] else if k = ''LLVM::GEPOp'' then [sum_list xs] else map ((+) 100) xs)"

definition host_values :: "nat \<Rightarrow> nat" where
  "host_values v = (if v = 9 then 8 else if v = 0 then 1000 else if v = 1 then 1100 else if v = 2 then 1108
     else if v = 3 then 1208 else if v = 4 then 1308 else 1408)"


text \<open>Two functions of a module: one with the chase, one external.\<close>

definition other_function :: "unit op" where "other_function = Op 50 ''func::FuncOp'' [] [] [] [[]]"

theorem formation_only_inserts_witness:
  "\<exists>g. runOnFunctions chase_machine nowhere default_pass [pointer_chase, other_function] 0 = Some ([g, other_function], 1) \<and>
     g \<noteq> pointer_chase \<and> keep_op (\<lambda>i. i \<in> op_ids pointer_chase) g = pointer_chase"
proof -
  define run where "run = runOnFunctions chase_machine nowhere default_pass [pointer_chase, other_function] 0"
  have "case run of Some ([g, h], r) \<Rightarrow> g \<noteq> pointer_chase \<and> h = other_function \<and> r = 1 | _ \<Rightarrow> False"
    unfolding run_def by code_simp
  then obtain g where g: "run = Some ([g, other_function], 1)" "g \<noteq> pointer_chase"
    by (cases run; cases "fst (the run)"; cases "tl (fst (the run))"; cases "tl (tl (fst (the run)))") auto
  then show ?thesis using formation_only_inserts [OF g(1) [unfolded run_def]] unfolding run_def by simp
qed

section \<open>Regions that are wrong or never formed\<close>

text \<open>
  The address goes through the result of a call on the host, after the first operation of the slice. The
  offload operation stands before that operation and takes the result of the call: used before it is
  defined, the function is no longer in SSA form.
\<close>

definition late_root :: "unit op" where "late_root = Op 4 ''LLVM::LoadOp'' [3] [4] [] []"

definition late_call :: "unit op" where
  "late_call = Op 0 ''func::FuncOp'' [] [] [] [[Block [0]
     [Op 1 ''LLVM::LoadOp'' [0] [1] [] [], Op 2 ''func::CallOp'' [] [2] [] [],
      Op 3 ''LLVM::GEPOp'' [1, 2] [3] [] [], late_root]]]"

lemma live_in_after_offload:
  "ssa_order late_call \<and>
   (case formRegion chase_machine nowhere forced_pass late_call late_root 0 of
      Some (Some g) \<Rightarrow> \<not> ssa_order g | _ \<Rightarrow> False)"
  by code_simp

text \<open>A loop over a linked list reads the next node from the current one.\<close>

definition list_root :: "unit op" where "list_root = Op 3 ''LLVM::LoadOp'' [2] [3] [] []"

definition list_loop :: "unit op" where
  "list_loop = Op 0 ''func::FuncOp'' [] [] [] [[Block [0, 6, 7, 8]
     [Op 1 ''scf::ForOp'' [6, 7, 8, 0] [5] [] [[Block [1, 2] [list_root, Op 4 ''scf::YieldOp'' [3] [] [] []]]]]]]"

text \<open>
  Its chain depth is two, whatever the length of the list, so the default pass forms no region; a forced
  one holds the access twice, because the access is itself on the way back from its address.
\<close>

lemma list_walk_not_formed:
  "map_option sl_chain_depth (computeBackwardSlice chase_machine list_loop default_options list_root) = Some 2 \<and>
   formRegion chase_machine nowhere default_pass list_loop list_root 0 = Some None"
  by code_simp

lemma list_walk_cloned_twice:
  "map_option (\<lambda>s. outlined chase_machine list_loop (pruneUnsupported chase_machine list_loop s))
     (computeBackwardSlice chase_machine list_loop default_options list_root) = Some [list_root, list_root]"
  by code_simp

text \<open>An address computed from the induction variable: the variable is live in, not the bounds it comes from.\<close>

definition index_root :: "unit op" where "index_root = Op 3 ''LLVM::LoadOp'' [2] [3] [] []"

definition index_loop :: "unit op" where
  "index_loop = Op 0 ''func::FuncOp'' [] [] [] [[Block [0, 6, 7, 8]
     [Op 1 ''scf::ForOp'' [6, 7, 8] [] [] [[Block [1] [Op 2 ''LLVM::GEPOp'' [0, 1] [2] [] [], index_root]]]]]]"

lemma induction_variable_live_in:
  "map_option (\<lambda>s. (set (sl_live_ins s), set (sl_live_ins (pruneUnsupported chase_machine index_loop s))))
     (computeBackwardSlice chase_machine index_loop default_options index_root) = Some ({0, 6, 7, 8}, {0, 1})"
  by code_simp

end
