(* ===== verification/Json.thy ===== *)
theory Json
  imports Prelude "HOL-Library.AList"
begin

text \<open>
  JSON values as \<^verbatim>\<open>llvm::json\<close> gives them to the compiler's passes, with the typed accessors the code calls.
  The text is read and written by LLVM, so a document is a value; only what printing may change is here:
  a number without fraction is printed as an integer and comes back as one.
\<close>

datatype 'd json = J_Null | J_Bool bool | J_Int u64 | J_Num 'd | J_Str string | J_Arr "'d json list"
  | J_Obj "(string \<times> 'd json) list"

type_synonym 'd json_object = "(string \<times> 'd json) list"

text \<open>
  Numbers: \<open>jn_of_int\<close> converts a signed integer to a double, \<open>jn_to_int\<close> gives the integer a double is
  exactly; \<open>jn_fix\<close> replaces invalid UTF-8 in a string.
\<close>

record 'd json_num =
  jn_of_int :: "u64 \<Rightarrow> 'd"
  jn_to_int :: "'d \<Rightarrow> u64 option"
  jn_fix :: "string \<Rightarrow> string"

definition getInteger :: "'d json_num \<Rightarrow> 'd json_object \<Rightarrow> string \<Rightarrow> u64 option" where
  "getInteger J ob k = (case map_of ob k of Some (J_Int n) \<Rightarrow> Some n | Some (J_Num d) \<Rightarrow> jn_to_int J d | _ \<Rightarrow> None)"

definition getNumber :: "'d json_num \<Rightarrow> 'd json_object \<Rightarrow> string \<Rightarrow> 'd option" where
  "getNumber J ob k = (case map_of ob k of Some (J_Int n) \<Rightarrow> Some (jn_of_int J n) | Some (J_Num d) \<Rightarrow> Some d | _ \<Rightarrow> None)"

definition getString :: "'d json_object \<Rightarrow> string \<Rightarrow> string option" where
  "getString ob k = (case map_of ob k of Some (J_Str s) \<Rightarrow> Some s | _ \<Rightarrow> None)"

definition getBoolean :: "'d json_object \<Rightarrow> string \<Rightarrow> bool option" where
  "getBoolean ob k = (case map_of ob k of Some (J_Bool b) \<Rightarrow> Some b | _ \<Rightarrow> None)"

definition getObject :: "'d json_object \<Rightarrow> string \<Rightarrow> 'd json_object option" where
  "getObject ob k = (case map_of ob k of Some (J_Obj fs) \<Rightarrow> Some fs | _ \<Rightarrow> None)"

definition getArray :: "'d json_object \<Rightarrow> string \<Rightarrow> 'd json list option" where
  "getArray ob k = (case map_of ob k of Some (J_Arr vs) \<Rightarrow> Some vs | _ \<Rightarrow> None)"

definition getAsObject :: "'d json \<Rightarrow> 'd json_object option" where
  "getAsObject v = (case v of J_Obj fs \<Rightarrow> Some fs | _ \<Rightarrow> None)"

lemmas json_getters = getInteger_def getNumber_def getString_def getBoolean_def getObject_def getArray_def getAsObject_def

text \<open>\<open>if (auto v = ...) field = *v;\<close>\<close>

definition set_if :: "'a option \<Rightarrow> ('a \<Rightarrow> 'r \<Rightarrow> 'r) \<Rightarrow> 'r \<Rightarrow> 'r" where
  "set_if x upd r = (case x of Some a \<Rightarrow> upd a r | None \<Rightarrow> r)"

lemma set_if_simps [simp]: "set_if (Some a) upd r = upd a r" "set_if None upd r = r"
  by (simp_all add: set_if_def)

text \<open>The value a reader gets for a value that was printed.\<close>

fun reread :: "'d json_num \<Rightarrow> 'd json \<Rightarrow> 'd json" where
  "reread J (J_Num d) = (case jn_to_int J d of Some n \<Rightarrow> J_Int n | None \<Rightarrow> J_Num d)"
| "reread J (J_Arr vs) = J_Arr (map (reread J) vs)"
| "reread J (J_Obj fs) = J_Obj (map (\<lambda>(k, v). (k, reread J v)) fs)"
| "reread J v = v"

lemma map_of_reread:
  "map_of (map (\<lambda>(k, v). (k, reread J v)) fs) k = map_option (reread J) (map_of fs k)"
  by (induction fs) auto

end
