(* ===== verification/Timing_Analysis.thy ===== *)
theory Timing_Analysis
  imports Json Mlir Jit_Cost C_Env
begin

text \<open>
  The compiler side of the two-pass method (\<^verbatim>\<open>src/Dialect/TwoPassTimingAnalysis.cpp\<close>): the profile of the
  first pass is read from JSON, offload regions are annotated with it, prefetch operations get its depth,
  and the regions whose latency is not hidden get a synchronization point.
\<close>

section \<open>Profiles\<close>

record region_timing =
  rt_regionId :: u32
  rt_regionName :: string
  rt_hostIndependentWorkNs :: u64
  rt_vortexTotalCycles :: u64
  rt_vortexTotalTimeNs :: u64
  rt_vortexComputeCycles :: u64
  rt_vortexMemoryStallCycles :: u64
  rt_cacheHits :: u64
  rt_cacheMisses :: u64
  rt_injectionDelayNs :: u64
  rt_latencyHidden :: bool
  rt_optimalPrefetchDepth :: u32
  rt_shouldHoistH2D :: bool
  rt_shouldSinkD2H :: bool

record 'd timing_profile =
  pd_regions :: "region_timing list"
  pd_clockFreqMhz :: 'd
  pd_cxlLatencyNs :: u64
  pd_regionNameToIndex :: "string \<Rightarrow> nat option"

definition new_timing_profile :: "'d fpu \<Rightarrow> 'd timing_profile" where
  "new_timing_profile F = \<lparr>pd_regions = [], pd_clockFreqMhz = fp_lit F 200, pd_cxlLatencyNs = 165,
     pd_regionNameToIndex = (\<lambda>_. None)\<rparr>"

definition getRegion :: "'d timing_profile \<Rightarrow> string \<Rightarrow> region_timing option" where
  "getRegion P name = (case pd_regionNameToIndex P name of Some i \<Rightarrow> Some (pd_regions P ! i) | None \<Rightarrow> None)"

text \<open>
  One region. Its numbers are not initialized: a field the document does not have keeps what the memory of
  \<open>profile\<close> held, an argument. The name is empty at the start.
\<close>

definition load_vortex_timing :: "'d json_num \<Rightarrow> 'd json_object \<Rightarrow> region_timing \<Rightarrow> region_timing" where
  "load_vortex_timing J t r =
     (let r1 = set_if (getInteger J t ''total_cycles'') (\<lambda>v. rt_vortexTotalCycles_update (\<lambda>_. v)) r;
          r2 = set_if (getInteger J t ''total_time_ns'') (\<lambda>v. rt_vortexTotalTimeNs_update (\<lambda>_. v)) r1;
          r3 = set_if (getInteger J t ''compute_cycles'') (\<lambda>v. rt_vortexComputeCycles_update (\<lambda>_. v)) r2;
          r4 = set_if (getInteger J t ''memory_stall_cycles'') (\<lambda>v. rt_vortexMemoryStallCycles_update (\<lambda>_. v)) r3;
          r5 = set_if (getInteger J t ''cache_hits'') (\<lambda>v. rt_cacheHits_update (\<lambda>_. v)) r4
      in set_if (getInteger J t ''cache_misses'') (\<lambda>v. rt_cacheMisses_update (\<lambda>_. v)) r5)"

definition load_region :: "'d json_num \<Rightarrow> 'd json_object \<Rightarrow> region_timing \<Rightarrow> region_timing" where
  "load_region J ob uninit =
     (let r0 = uninit\<lparr>rt_regionName := []\<rparr>;
          r1 = set_if (getInteger J ob ''region_id'') (\<lambda>v. rt_regionId_update (\<lambda>_. ucast v)) r0;
          r2 = set_if (getString ob ''region_name'') (\<lambda>s. rt_regionName_update (\<lambda>_. s)) r1;
          r3 = set_if (getInteger J ob ''host_independent_work_ns'') (\<lambda>v. rt_hostIndependentWorkNs_update (\<lambda>_. v)) r2;
          r4 = set_if (getObject ob ''vortex_timing'') (load_vortex_timing J) r3;
          r5 = set_if (getInteger J ob ''injection_delay_ns'') (\<lambda>v. rt_injectionDelayNs_update (\<lambda>_. v)) r4;
          r6 = set_if (getBoolean ob ''latency_hidden'') (\<lambda>b. rt_latencyHidden_update (\<lambda>_. b)) r5;
          r7 = set_if (getInteger J ob ''optimal_prefetch_depth'') (\<lambda>v. rt_optimalPrefetchDepth_update (\<lambda>_. ucast v)) r6
      in r7\<lparr>rt_shouldHoistH2D := True, rt_shouldSinkD2H := True\<rparr>)"

text \<open>Entries that are no objects are skipped. A name that comes again now stands for the later region.\<close>

definition add_region :: "region_timing \<Rightarrow> 'd timing_profile \<Rightarrow> 'd timing_profile" where
  "add_region r P = P\<lparr>pd_regionNameToIndex := (pd_regionNameToIndex P)(rt_regionName r \<mapsto> length (pd_regions P)),
     pd_regions := pd_regions P @ [r]\<rparr>"

fun load_region_array :: "'d json_num \<Rightarrow> (nat \<Rightarrow> region_timing) \<Rightarrow> 'd json list \<Rightarrow> 'd timing_profile \<Rightarrow> 'd timing_profile" where
  "load_region_array J mem [] P = P"
| "load_region_array J mem (v # vs) P =
     (case getAsObject v of None \<Rightarrow> load_region_array J mem vs P
      | Some ob \<Rightarrow> load_region_array J mem vs (add_region (load_region J ob (mem (length vs))) P))"

text \<open>
  \<open>load\<close>: the file may be missing, its text no JSON, the document no object. A document without regions
  is refused after its clock and latency were taken.
\<close>

definition load_timing :: "'d json_num \<Rightarrow> (string \<Rightarrow> 'd json option) \<Rightarrow> (nat \<Rightarrow> region_timing) \<Rightarrow> string option \<Rightarrow>
    'd timing_profile \<Rightarrow> bool \<times> 'd timing_profile" where
  "load_timing J parse mem file P =
     (case file of None \<Rightarrow> (False, P) | Some content \<Rightarrow>
      case parse content of None \<Rightarrow> (False, P) | Some json \<Rightarrow>
      case getAsObject json of None \<Rightarrow> (False, P) | Some doc \<Rightarrow>
        let P1 = set_if (getNumber J doc ''clock_freq_mhz'') (\<lambda>d. pd_clockFreqMhz_update (\<lambda>_. d)) P;
            P2 = set_if (getInteger J doc ''cxl_latency_ns'') (\<lambda>v. pd_cxlLatencyNs_update (\<lambda>_. v)) P1
        in (case getArray doc ''regions'' of None \<Rightarrow> (False, P2)
            | Some vs \<Rightarrow> (True, load_region_array J mem vs P2)))"

definition save_region :: "'d json_num \<Rightarrow> region_timing \<Rightarrow> 'd json" where
  "save_region J r = J_Obj
     [(''region_id'', J_Int (ucast (rt_regionId r))), (''region_name'', J_Str (jn_fix J (rt_regionName r))),
      (''host_independent_work_ns'', J_Int (rt_hostIndependentWorkNs r)),
      (''vortex_timing'', J_Obj
        [(''total_cycles'', J_Int (rt_vortexTotalCycles r)), (''total_time_ns'', J_Int (rt_vortexTotalTimeNs r)),
         (''compute_cycles'', J_Int (rt_vortexComputeCycles r)),
         (''memory_stall_cycles'', J_Int (rt_vortexMemoryStallCycles r)),
         (''cache_hits'', J_Int (rt_cacheHits r)), (''cache_misses'', J_Int (rt_cacheMisses r))]),
      (''injection_delay_ns'', J_Int (rt_injectionDelayNs r)), (''latency_hidden'', J_Bool (rt_latencyHidden r)),
      (''optimal_prefetch_depth'', J_Int (ucast (rt_optimalPrefetchDepth r)))]"

definition save_timing :: "'d json_num \<Rightarrow> 'd timing_profile \<Rightarrow> 'd json" where
  "save_timing J P = J_Obj
     [(''num_regions'', J_Int (of_nat (length (pd_regions P)))), (''clock_freq_mhz'', J_Num (pd_clockFreqMhz P)),
      (''cxl_latency_ns'', J_Int (pd_cxlLatencyNs P)), (''regions'', J_Arr (map (save_region J) (pd_regions P)))]"

section \<open>What is saved is loaded\<close>

lemma load_save_region:
  assumes "jn_fix J (rt_regionName r) = rt_regionName r"
  shows "\<exists>ob. reread J (save_region J r) = J_Obj ob \<and>
    load_region J ob uninit = r\<lparr>rt_shouldHoistH2D := True, rt_shouldSinkD2H := True\<rparr>"
proof -
  have u: "ucast (ucast x :: u64) = x" for x :: u32 by (rule bit_word_eqI) (simp add: bit_simps)
  show ?thesis
    using assms by (cases r) (simp add: save_region_def load_region_def load_vortex_timing_def json_getters Let_def u)
qed

text \<open>The last region of a name is the one found, and an index is in range.\<close>

definition index_ok :: "'d timing_profile \<Rightarrow> bool" where
  "index_ok P \<longleftrightarrow> (\<forall>name i. pd_regionNameToIndex P name = Some i \<longrightarrow> i < length (pd_regions P)) \<and>
     (\<forall>name. getRegion P name = find (\<lambda>r. rt_regionName r = name) (rev (pd_regions P)))"

lemma new_index_ok: "index_ok (new_timing_profile F)"
  by (simp add: index_ok_def new_timing_profile_def getRegion_def)

lemma add_region_index_ok:
  assumes "index_ok P"
  shows "index_ok (add_region r P)"
proof -
  have "getRegion (add_region r P) name = find (\<lambda>r. rt_regionName r = name) (rev (pd_regions (add_region r P)))" for name
  proof (cases "rt_regionName r = name")
    case False
    have "\<forall>i. pd_regionNameToIndex P name = Some i \<longrightarrow> i < length (pd_regions P)" using assms unfolding index_ok_def by blast
    then have "getRegion (add_region r P) name = getRegion P name"
      using False by (simp add: getRegion_def add_region_def nth_append split: option.split)
    then show ?thesis using False assms by (simp add: index_ok_def add_region_def)
  qed (simp add: getRegion_def add_region_def)
  then show ?thesis using assms by (auto simp: index_ok_def add_region_def less_Suc_eq)
qed

lemma load_region_array_index_ok: "index_ok P \<Longrightarrow> index_ok (load_region_array J mem vs P)"
  by (induction J mem vs P rule: load_region_array.induct) (auto simp: add_region_index_ok split: option.split)

definition hoisted :: "region_timing \<Rightarrow> region_timing" where
  "hoisted r = r\<lparr>rt_shouldHoistH2D := True, rt_shouldSinkD2H := True\<rparr>"

lemma load_saved_regions:
  assumes "\<forall>r \<in> set rs. jn_fix J (rt_regionName r) = rt_regionName r"
  shows "pd_regions (load_region_array J mem (map (\<lambda>r. reread J (save_region J r)) rs) P) = pd_regions P @ map hoisted rs \<and>
    pd_clockFreqMhz (load_region_array J mem (map (\<lambda>r. reread J (save_region J r)) rs) P) = pd_clockFreqMhz P \<and>
    pd_cxlLatencyNs (load_region_array J mem (map (\<lambda>r. reread J (save_region J r)) rs) P) = pd_cxlLatencyNs P"
  using assms
proof (induction rs arbitrary: P)
  case (Cons r rs)
  obtain ob where "reread J (save_region J r) = J_Obj ob" "\<And>u. load_region J ob u = hoisted r"
      proof -
    have "rt_regionName r = jn_fix J (rt_regionName r)" using Cons.prems by simp
    note eq = load_save_region [OF this [symmetric], folded hoisted_def]
    show ?thesis using that eq by (metis json.inject(6))
  qed
  then have "load_region_array J mem (map (\<lambda>r. reread J (save_region J r)) (r # rs)) P =
      load_region_array J mem (map (\<lambda>r. reread J (save_region J r)) rs) (add_region (hoisted r) P)"
    by (simp only: list.map load_region_array.simps getAsObject_def json.case option.case)
  moreover have "pd_regions (add_region (hoisted r) P) = pd_regions P @ [hoisted r]"
      "pd_clockFreqMhz (add_region (hoisted r) P) = pd_clockFreqMhz P"
      "pd_cxlLatencyNs (add_region (hoisted r) P) = pd_cxlLatencyNs P" by (simp_all add: add_region_def)
  moreover have "\<forall>r \<in> set rs. jn_fix J (rt_regionName r) = rt_regionName r" using Cons.prems by simp
  ultimately show ?case using Cons.IH [of "add_region (hoisted r) P"] by (simp only:) simp
qed simp

lemma find_map: "find Q (map g xs) = map_option g (find (Q \<circ> g) xs)"
  by (induction xs) auto

text \<open>C29
  A profile written by \<open>save\<close> and read by \<open>load\<close> is the profile, with the placement flags set, and a
  region is found under its name, the last one if a name occurs twice.
\<close>

theorem timing_profile_roundtrip:
  assumes "\<forall>r \<in> set (pd_regions P). jn_fix J (rt_regionName r) = rt_regionName r"
    and "\<forall>n. jn_to_int J (pd_clockFreqMhz P) = Some n \<longrightarrow> jn_of_int J n = pd_clockFreqMhz P"
    and "parse content = Some (reread J (save_timing J P))"
  shows "\<exists>P'. load_timing J parse mem (Some content) (new_timing_profile F) = (True, P') \<and>
    pd_regions P' = map hoisted (pd_regions P) \<and> pd_clockFreqMhz P' = pd_clockFreqMhz P \<and>
    pd_cxlLatencyNs P' = pd_cxlLatencyNs P \<and>
    (\<forall>name. getRegion P' name = map_option hoisted (find (\<lambda>r. rt_regionName r = name) (rev (pd_regions P))))"
proof -
  let ?P0 = "(new_timing_profile F)\<lparr>pd_clockFreqMhz := pd_clockFreqMhz P, pd_cxlLatencyNs := pd_cxlLatencyNs P\<rparr>"
  let ?P' = "load_region_array J mem (map (\<lambda>r. reread J (save_region J r)) (pd_regions P)) ?P0"
  have "load_timing J parse mem (Some content) (new_timing_profile F) = (True, ?P')"
    using assms(2,3) by (auto simp: load_timing_def save_timing_def json_getters Let_def comp_def split: option.split)
  moreover have "index_ok ?P0" by (simp add: index_ok_def getRegion_def new_timing_profile_def)
  then have "index_ok ?P'" by (rule load_region_array_index_ok)
  moreover note load_saved_regions [OF assms(1), of mem ?P0]
  ultimately show ?thesis
    by (intro exI [of _ ?P'])
      (simp add: new_timing_profile_def index_ok_def rev_map find_map comp_def, simp add: hoisted_def)
qed

section \<open>Annotating offload regions\<close>

definition cache_hit_rate :: "'d fpu \<Rightarrow> region_timing \<Rightarrow> 'd" where
  "cache_hit_rate F r = fp_div F (fp_of_u64 F (rt_cacheHits r)) (fp_of_u64 F (rt_cacheHits r + rt_cacheMisses r + 1))"

definition timing_attrs :: "'d fpu \<Rightarrow> region_timing \<Rightarrow> (string \<times> 'd attribute) list" where
  "timing_attrs F r =
     [(''twopass.injection_delay_ns'', Int_Attr 64 (sint (rt_injectionDelayNs r))),
      (''twopass.latency_hidden'', Bool_Attr (rt_latencyHidden r)),
      (''twopass.optimal_prefetch_depth'', Int_Attr 32 (sint (rt_optimalPrefetchDepth r))),
      (''twopass.should_hoist_h2d'', Bool_Attr (rt_shouldHoistH2D r)),
      (''twopass.should_sink_d2h'', Bool_Attr (rt_shouldSinkD2H r)),
      (''twopass.vortex_cycles'', Int_Attr 64 (sint (rt_vortexTotalCycles r))),
      (''twopass.cache_hit_rate'', Float_Attr (cache_hit_rate F r))]"

definition set_depths :: "region_timing \<Rightarrow> 'd op \<Rightarrow> 'd op" where
  "set_depths r = walk_op (\<lambda>d. if isa d [''PrefetchChainOp'', ''PrefetchIndirectOp'']
     then set_attr ''depth'' (Int_Attr 64 (int (unat (rt_optimalPrefetchDepth r)))) d else d)"

text \<open>The name of a region: its attribute, or one made from its location in the source (\<open>loc\<close>).\<close>

definition timing_region_name :: "(nat \<Rightarrow> string) \<Rightarrow> 'd op \<Rightarrow> string" where
  "timing_region_name loc d = (case str_attr d ''region_name'' of Some s \<Rightarrow> s | None \<Rightarrow> ''region_'' @ loc (op_id d))"

definition processOffloadRegion :: "'d fpu \<Rightarrow> (nat \<Rightarrow> string) \<Rightarrow> bool \<Rightarrow> 'd timing_profile \<Rightarrow> 'd op \<Rightarrow> 'd op" where
  "processOffloadRegion F loc annotate_only P d =
     (if isa d [''OffloadRegionOp'']
      then case getRegion P (timing_region_name loc d) of None \<Rightarrow> d
        | Some r \<Rightarrow> (let d' = set_attrs (timing_attrs F r) d in if annotate_only then d' else set_depths r d')
      else d)"

definition processLegacyOffload :: "'d timing_profile \<Rightarrow> 'd op \<Rightarrow> 'd op" where
  "processLegacyOffload P d =
     (if isa d [''OffloadOp'']
      then case getRegion P (case str_attr d ''command'' of Some s \<Rightarrow> s | None \<Rightarrow> []) of None \<Rightarrow> d
        | Some r \<Rightarrow> set_attrs [(''twopass.injection_delay_ns'', Int_Attr 64 (sint (rt_injectionDelayNs r))),
            (''twopass.latency_hidden'', Bool_Attr (rt_latencyHidden r))] d
      else d)"

definition annotate_function :: "'d fpu \<Rightarrow> (nat \<Rightarrow> string) \<Rightarrow> bool \<Rightarrow> 'd timing_profile \<Rightarrow> 'd op \<Rightarrow> 'd op" where
  "annotate_function F loc annotate_only P f =
     walk_op (processLegacyOffload P) (walk_op (processOffloadRegion F loc annotate_only P) f)"

definition annotate_timing :: "'d fpu \<Rightarrow> (nat \<Rightarrow> string) \<Rightarrow> bool \<Rightarrow> 'd timing_profile \<Rightarrow> 'd op \<Rightarrow> 'd op" where
  "annotate_timing F loc annotate_only P =
     walk_op (\<lambda>f. if isa f [''func::FuncOp''] then annotate_function F loc annotate_only P f else f)"

text \<open>The pass over a module; without a path nothing is loaded, a profile that does not load fails the pass.\<close>

definition runTimingInjection :: "'d json_num \<Rightarrow> (string \<Rightarrow> 'd json option) \<Rightarrow> (nat \<Rightarrow> region_timing) \<Rightarrow> 'd fpu \<Rightarrow>
    (nat \<Rightarrow> string) \<Rightarrow> bool \<Rightarrow> string \<Rightarrow> (string \<Rightarrow> string option) \<Rightarrow> 'd op \<Rightarrow> 'd op option" where
  "runTimingInjection J parse mem F loc annotate_only path files m =
     (if path = [] then Some (annotate_timing F loc annotate_only (new_timing_profile F) m)
      else case load_timing J parse mem (files path) (new_timing_profile F) of
          (False, P) \<Rightarrow> None
        | (True, P) \<Rightarrow> Some (annotate_timing F loc annotate_only P m))"

section \<open>Optimizing prefetches\<close>

text \<open>A region inside a counted loop: the placement flags are copied, a delay of at most 0 means hidden.\<close>

definition optimizeLoopRegion :: "'d op \<Rightarrow> 'd op" where
  "optimizeLoopRegion d =
     (if \<not> isa d [''OffloadRegionOp''] then d
      else case int_attr d ''twopass.injection_delay_ns'' of None \<Rightarrow> d
        | Some delay \<Rightarrow>
            (let hoist = bool_attr d ''twopass.should_hoist_h2d'' = Some True;
                 sink = bool_attr d ''twopass.should_sink_d2h'' = Some True
             in set_attrs ((if delay \<le> 0 then [(''optimization.latency_hidden'', Bool_Attr True)] else []) @
                  (if hoist then [(''optimization.hoist_h2d'', Bool_Attr True)] else []) @
                  (if sink then [(''optimization.sink_d2h'', Bool_Attr True)] else [])) d))"

definition optimizeLoopPrefetch :: "'d op \<Rightarrow> 'd op" where
  "optimizeLoopPrefetch d = (if isa d [''scf::ForOp''] then walk_op optimizeLoopRegion d else d)"

text \<open>
  A prefetch chain inside a while loop gets the depth of the nearest region around it, the attribute as it
  is. \<open>enclosing\<close> is that region's attribute, \<open>inside\<close> says whether a while loop is around.
\<close>

definition depth_attr :: "'d op \<Rightarrow> 'd attribute option" where
  "depth_attr d = (case get_attr d ''twopass.optimal_prefetch_depth'' of
     Some (Int_Attr w i) \<Rightarrow> Some (Int_Attr w i) | Some (Bool_Attr b) \<Rightarrow> Some (Bool_Attr b) | _ \<Rightarrow> None)"

fun while_op :: "'d attribute option \<Rightarrow> bool \<Rightarrow> 'd op \<Rightarrow> 'd op"
and while_block :: "'d attribute option \<Rightarrow> bool \<Rightarrow> 'd block \<Rightarrow> 'd block" where
  "while_op enclosing inside (Op i k xs rs as bs) =
     (let d = Op i k xs rs as bs;
          e = (if isa d [''OffloadRegionOp''] then depth_attr d else enclosing);
          d' = Op i k xs rs as (map (map (while_block e (inside \<or> isa d [''scf::WhileOp'']))) bs)
      in case enclosing of Some a \<Rightarrow> if inside \<and> isa d [''PrefetchChainOp''] then set_attr ''depth'' a d' else d' | None \<Rightarrow> d')"
| "while_block enclosing inside (Block args ds) = Block args (map (while_op enclosing inside) ds)"

definition optimizeFunctionPrefetch :: "'d op \<Rightarrow> 'd op" where
  "optimizeFunctionPrefetch f = while_op None False (walk_op optimizeLoopPrefetch f)"

section \<open>Synchronization points\<close>

text \<open>The state of the walk: the region counter, the next operation and the next value of the builder.\<close>

type_synonym inj_state = "u32 \<times> nat \<times> nat"

definition insert_calls :: "'d op \<Rightarrow> inj_state \<Rightarrow> 'd op list \<times> inj_state" where
  "insert_calls d s =
     (case s of (c, n, v) \<Rightarrow>
        if int_attr d ''twopass.injection_delay_ns'' = None then ([d], s)
        else if bool_attr d ''twopass.latency_hidden'' = Some True then ([d], c + 1, n, v)
        else ([Op n ''arith::ConstantOp'' [] [v] [(''value'', Int_Attr 32 (sint c))] [],
               set_attr ''twopass.region_id'' (Int_Attr 32 (sint c)) d,
               Op (Suc n) ''PhaseBoundaryOp'' [] [] [(''phase_name'', Str_Attr (''sync_'' @ dec_digits (unat c)))] []],
              c + 1, n + 2, Suc v))"

fun inject_op :: "'d op \<Rightarrow> inj_state \<Rightarrow> 'd op list \<times> inj_state"
and inject_regions :: "'d block list list \<Rightarrow> inj_state \<Rightarrow> 'd block list list \<times> inj_state"
and inject_blocks :: "'d block list \<Rightarrow> inj_state \<Rightarrow> 'd block list \<times> inj_state"
and inject_ops :: "'d op list \<Rightarrow> inj_state \<Rightarrow> 'd op list \<times> inj_state" where
  "inject_op (Op i k xs rs as bs) s =
     (case inject_regions bs s of (bs', s1) \<Rightarrow>
        if k = ''OffloadRegionOp'' then insert_calls (Op i k xs rs as bs') s1 else ([Op i k xs rs as bs'], s1))"
| "inject_regions [] s = ([], s)"
| "inject_regions (r # rs) s = (case inject_blocks r s of (r', s1) \<Rightarrow> case inject_regions rs s1 of (rs', s2) \<Rightarrow> (r' # rs', s2))"
| "inject_blocks [] s = ([], s)"
| "inject_blocks (Block args ds # bs) s =
     (case inject_ops ds s of (ds', s1) \<Rightarrow> case inject_blocks bs s1 of (bs', s2) \<Rightarrow> (Block args ds' # bs', s2))"
| "inject_ops [] s = ([], s)"
| "inject_ops (d # ds) s = (case inject_op d s of (xs, s1) \<Rightarrow> case inject_ops ds s1 of (ys, s2) \<Rightarrow> (xs @ ys, s2))"

text \<open>One function, then all functions of a module, each with a counter of its own.\<close>

definition insertTimingCalls :: "'d op \<Rightarrow> nat \<times> nat \<Rightarrow> 'd op list \<times> nat \<times> nat" where
  "insertTimingCalls f nv = (case inject_op f (0, nv) of (fs, c, nv') \<Rightarrow> (fs, nv'))"

definition timing_declarations :: "nat \<Rightarrow> 'd op list" where
  "timing_declarations n =
     map (\<lambda>(i, s). Op (n + i) ''LLVM::LLVMFuncOp'' [] [] [(''sym_name'', Str_Attr s)] [[]])
       (enumerate 0 [''twopass_sync_point'', ''twopass_host_work_start'', ''twopass_host_work_end''])"

fun inject_functions :: "'d op list \<Rightarrow> nat \<times> nat \<Rightarrow> 'd op list" where
  "inject_functions [] nv = []"
| "inject_functions (f # fs) nv =
     (if isa f [''func::FuncOp'']
      then case insertTimingCalls f nv of (gs, nv') \<Rightarrow> gs @ inject_functions fs nv'
      else f # inject_functions fs nv)"

text \<open>The module's operations, with numbers from \<open>n\<close> and \<open>v\<close> on unused.\<close>

definition runTimingCalls :: "'d op list \<Rightarrow> nat \<Rightarrow> nat \<Rightarrow> 'd op list" where
  "runTimingCalls ds n v = timing_declarations n @ inject_functions ds (n + 3, v)"

section \<open>Annotations are attributes\<close>

lemma strip_set_depths [simp]: "strip_op (set_depths r d) = strip_op d"
  unfolding set_depths_def by (rule strip_walk) simp

lemma strip_annotate_function [simp]: "strip_op (annotate_function F loc ao P f) = strip_op f"
proof -
  have "strip_op (processOffloadRegion F loc ao P d) = strip_op d" for d
    by (simp add: processOffloadRegion_def Let_def split: option.split)
  moreover have "strip_op (processLegacyOffload P d) = strip_op d" for d
    by (simp add: processLegacyOffload_def split: option.split)
  ultimately show ?thesis by (simp add: annotate_function_def strip_walk)
qed

text \<open>Annotating changes attributes only.\<close>

theorem annotation_only_attributes: "strip_op (annotate_timing F loc ao P m) = strip_op m"
  unfolding annotate_timing_def by (rule strip_walk) simp

section \<open>One synchronization point per exposed region\<close>

text \<open>The offload regions of a function with their attributes.\<close>

definition region_attrs :: "'d op \<Rightarrow> (nat \<times> (string \<times> 'd attribute) list) list" where
  "region_attrs f = map (\<lambda>d. (op_id d, op_attrs d)) (filter (\<lambda>d. op_kind d = ''OffloadRegionOp'') (pre_op f))"

lemma pre_block_ops: "pre_block b = concat (map pre_op (blk_ops b))"
  by (cases b) simp

lemma region_attrs_Op:
  "region_attrs (Op i k xs rs as bs) = (if k = ''OffloadRegionOp'' then [(i, as)] else []) @
     concat (map (\<lambda>r. concat (map (\<lambda>b. concat (map region_attrs (blk_ops b))) r)) bs)"
  by (simp add: region_attrs_def [abs_def] pre_block_ops filter_concat map_concat comp_def)

lemma region_attrs_walk:
  fixes f :: "'d op" and b :: "'d block"
  assumes "\<And>i k xs rs as bs. region_attrs (g (Op i k xs rs as bs)) =
    (if k = ''OffloadRegionOp'' then [(i, A i as)] else []) @
     concat (map (\<lambda>r. concat (map (\<lambda>b. concat (map region_attrs (blk_ops b))) r)) bs)"
  shows "region_attrs (walk_op g f) = map (\<lambda>(i, as). (i, A i as)) (region_attrs f)"
    "map region_attrs (blk_ops (walk_block g b)) = map (map (\<lambda>(i, as). (i, A i as)) \<circ> region_attrs) (blk_ops b)"
proof (induction f and b rule: strip_op_strip_block.induct)
  case (1 i k xs rs as bs)
  have "map region_attrs (blk_ops (walk_block g b)) = map (map (\<lambda>(i, as). (i, A i as)) \<circ> region_attrs) (blk_ops b)"
    if "r \<in> set bs" "b \<in> set r" for r b using 1 that by blast
  then have "concat (map (\<lambda>r. concat (map (\<lambda>b. concat (map region_attrs (blk_ops (walk_block g b)))) r)) bs) =
      map (\<lambda>(i, as). (i, A i as)) (concat (map (\<lambda>r. concat (map (\<lambda>b. concat (map region_attrs (blk_ops b))) r)) bs))"
    by (simp add: map_concat comp_def cong: map_cong)
  then show ?case by (simp add: assms region_attrs_Op comp_def)
qed simp

lemma region_attrs_set_attr:
  "k \<noteq> ''OffloadRegionOp'' \<Longrightarrow> region_attrs (set_attr n a (Op i k xs rs as bs)) = region_attrs (Op i k xs rs as bs)"
  by (simp add: set_attr_def region_attrs_Op)

lemma set_attrs_Op: "set_attrs kvs (Op i k xs rs as bs) = Op i k xs rs (fold (\<lambda>(n, a). AList.update n a) kvs as) bs"
  by (induction kvs arbitrary: as) (auto simp: set_attrs_def set_attr_def)

lemma region_attrs_set_depths: "region_attrs (set_depths r f) = region_attrs f"
proof -
  have "region_attrs (set_depths r f) = map (\<lambda>(i, as). (i, (\<lambda>i as. as) i as)) (region_attrs f)"
    unfolding set_depths_def by (rule region_attrs_walk) (auto simp: isa_def region_attrs_set_attr region_attrs_Op)
  then show ?thesis by simp
qed

text \<open>What annotating does to the attributes of a region.\<close>

definition annotated_attrs :: "'d fpu \<Rightarrow> (nat \<Rightarrow> string) \<Rightarrow> 'd timing_profile \<Rightarrow> nat \<Rightarrow> (string \<times> 'd attribute) list \<Rightarrow>
    (string \<times> 'd attribute) list" where
  "annotated_attrs F loc P i as =
     (case getRegion P (timing_region_name loc (Op i [] [] [] as [])) of None \<Rightarrow> as
      | Some r \<Rightarrow> fold (\<lambda>(n, a). AList.update n a) (timing_attrs F r) as)"

lemma timing_region_name_Op: "timing_region_name loc (Op i k xs rs as bs) = timing_region_name loc (Op i [] [] [] as [])"
  by (simp add: timing_region_name_def str_attr_def get_attr_def split: option.split attribute.split)

lemma region_attrs_annotated:
  "region_attrs (annotate_function F loc ao P f) = map (\<lambda>(i, as). (i, annotated_attrs F loc P i as)) (region_attrs f)"
proof -
  have "region_attrs (walk_op (processLegacyOffload P) h) = map (\<lambda>(i, as). (i, (\<lambda>i as. as) i as)) (region_attrs h)" for h
    by (rule region_attrs_walk)
      (auto simp: processLegacyOffload_def isa_def set_attrs_Op region_attrs_Op split: option.split)
  moreover have "region_attrs (walk_op (processOffloadRegion F loc ao P) f) =
      map (\<lambda>(i, as). (i, annotated_attrs F loc P i as)) (region_attrs f)"
    by (rule region_attrs_walk)
      (auto simp: processOffloadRegion_def annotated_attrs_def timing_region_name_Op [where k = "''OffloadRegionOp''"]
        isa_def Let_def set_attrs_Op region_attrs_set_depths region_attrs_Op split: option.split)
  ultimately show ?thesis by (simp add: annotate_function_def)
qed

definition exposed :: "(string \<times> 'd attribute) list \<Rightarrow> bool" where
  "exposed as \<longleftrightarrow> int_attr (Op 0 [] [] [] as []) ''twopass.injection_delay_ns'' \<noteq> None \<and>
     bool_attr (Op 0 [] [] [] as []) ''twopass.latency_hidden'' \<noteq> Some True"

definition count_kind :: "string \<Rightarrow> 'd op list \<Rightarrow> nat" where
  "count_kind k ds = length (filter (\<lambda>d. op_kind d = k) (concat (map pre_op ds)))"

lemma count_kind_append [simp]: "count_kind k (xs @ ys) = count_kind k xs + count_kind k ys"
  by (simp add: count_kind_def)

lemma count_kind_Nil [simp]: "count_kind k [] = 0"
  by (simp add: count_kind_def)

lemma count_kind_Cons: "count_kind k (d # ds) = count_kind k [d] + count_kind k ds"
  by (simp add: count_kind_def)

definition ops_of_regions :: "'d block list list \<Rightarrow> 'd op list" where
  "ops_of_regions bs = concat (map (\<lambda>r. concat (map blk_ops r)) bs)"

lemma concat_blocks: "concat (map g (concat (map blk_ops r))) = concat (map (\<lambda>b. concat (map g (blk_ops b))) r)"
  by (induction r) simp_all

lemma concat_regions:
  "concat (map g (ops_of_regions bs)) = concat (map (\<lambda>r. concat (map (\<lambda>b. concat (map g (blk_ops b))) r)) bs)"
  by (induction bs) (simp_all add: ops_of_regions_def concat_blocks)

lemma count_kind_Op: "count_kind k [Op i k' xs rs as bs] = (if k' = k then 1 else 0) + count_kind k (ops_of_regions bs)"
  by (simp add: count_kind_def concat_regions pre_block_ops [abs_def])

lemma count_kind_strip: "count_kind k [strip_op f] = count_kind k [f]"
proof -
  have "map op_kind (pre_op (strip_op f)) = map op_kind (pre_op f)"
    "map op_kind (pre_block (strip_block b)) = map op_kind (pre_block b)" for b :: "'a block"
    by (induction f and b rule: strip_op_strip_block.induct) (simp_all add: map_concat comp_def cong: map_cong)
  then have "length (filter (\<lambda>x. x = k) (map op_kind (pre_op (strip_op f)))) = length (filter (\<lambda>x. x = k) (map op_kind (pre_op f)))"
    by simp
  then show ?thesis by (simp add: count_kind_def filter_map comp_def)
qed

definition exposed_count :: "'d op list \<Rightarrow> nat" where
  "exposed_count ds = length (filter (\<lambda>(i, as). exposed as) (concat (map region_attrs ds)))"

lemma exposed_count_append [simp]:
  "exposed_count (xs @ ys) = exposed_count xs + exposed_count ys" "exposed_count [] = 0"
  by (simp_all add: exposed_count_def)

lemma exposed_count_Cons: "exposed_count (d # ds) = exposed_count [d] + exposed_count ds"
  by (simp add: exposed_count_def)

lemma exposed_count_Op:
  "exposed_count [Op i k xs rs as bs] =
     (if k = ''OffloadRegionOp'' \<and> exposed as then 1 else 0) + exposed_count (ops_of_regions bs)"
  by (simp add: exposed_count_def region_attrs_Op concat_regions)

lemma insert_calls_count:
  "count_kind ''PhaseBoundaryOp'' (fst (insert_calls (Op i ''OffloadRegionOp'' xs rs as bs) s)) =
     (if exposed as then 1 else 0) + count_kind ''PhaseBoundaryOp'' (ops_of_regions bs)"
  by (cases s)
    (auto simp: insert_calls_def exposed_def set_attr_def int_attr_def bool_attr_def get_attr_def
      count_kind_Cons [of _ _ "_ # _"] count_kind_Op ops_of_regions_def)

text \<open>Every exposed region gets one boundary, nothing else does.\<close>

lemma inject_counts:
  fixes d :: "'d op" and bs :: "'d block list list" and r :: "'d block list" and ds :: "'d op list"
  shows "count_kind ''PhaseBoundaryOp'' (fst (inject_op d s)) = count_kind ''PhaseBoundaryOp'' [d] + exposed_count [d]"
    "count_kind ''PhaseBoundaryOp'' (ops_of_regions (fst (inject_regions bs s))) =
      count_kind ''PhaseBoundaryOp'' (ops_of_regions bs) + exposed_count (ops_of_regions bs)"
    "count_kind ''PhaseBoundaryOp'' (concat (map blk_ops (fst (inject_blocks r s)))) =
      count_kind ''PhaseBoundaryOp'' (concat (map blk_ops r)) + exposed_count (concat (map blk_ops r))"
    "count_kind ''PhaseBoundaryOp'' (fst (inject_ops ds s)) = count_kind ''PhaseBoundaryOp'' ds + exposed_count ds"
proof (induction d s and bs s and r s and ds s rule: inject_op_inject_regions_inject_blocks_inject_ops.induct)
  case (1 i k xs rs as bs s)
  then show ?case
    by (auto simp: insert_calls_count count_kind_Op exposed_count_Op split: prod.splits)
next
  case (3 r rs s)
  then show ?case by (auto simp: ops_of_regions_def split: prod.splits)
next
  case (5 args ds bs s)
  then show ?case by (auto split: prod.splits)
next
  case (7 d ds s)
  then show ?case by (auto simp: count_kind_Cons [of _ d ds] exposed_count_Cons [of d ds] split: prod.splits)
qed (simp_all add: ops_of_regions_def)

lemma exposed_annotated:
  "exposed (annotated_attrs F loc P i as) =
     (case getRegion P (timing_region_name loc (Op i [] [] [] as [])) of Some r \<Rightarrow> \<not> rt_latencyHidden r | None \<Rightarrow> exposed as)"
  by (auto simp: annotated_attrs_def exposed_def int_attr_def bool_attr_def get_attr_def update_conv'
      timing_attrs_def split: option.split)


section \<open>Examples\<close>

definition some_region :: region_timing where
  "some_region = \<lparr>rt_regionId = 7, rt_regionName = ''hot'', rt_hostIndependentWorkNs = 500, rt_vortexTotalCycles = 400,
     rt_vortexTotalTimeNs = 2000, rt_vortexComputeCycles = 100, rt_vortexMemoryStallCycles = 300, rt_cacheHits = 3,
     rt_cacheMisses = 1, rt_injectionDelayNs = 1500, rt_latencyHidden = False, rt_optimalPrefetchDepth = 8,
     rt_shouldHoistH2D = False, rt_shouldSinkD2H = True\<rparr>"

definition some_profile :: "rat timing_profile" where
  "some_profile = \<lparr>pd_regions = [some_region, some_region\<lparr>rt_regionName := ''cold'', rt_latencyHidden := True\<rparr>],
     pd_clockFreqMhz = 200, pd_cxlLatencyNs = 165, pd_regionNameToIndex = [''hot'' \<mapsto> 0, ''cold'' \<mapsto> 1]\<rparr>"

definition rat_num :: "rat json_num" where
  "rat_num = \<lparr>jn_of_int = (\<lambda>n. of_int (sint n)), jn_to_int = (\<lambda>d. if d = 200 then Some 200 else None), jn_fix = (\<lambda>s. s)\<rparr>"

theorem timing_profile_roundtrip_witness:
  "\<exists>P'. load_timing rat_num (\<lambda>content. Some (reread rat_num (save_timing rat_num some_profile))) (\<lambda>_. some_region) (Some ''{}'')
      (new_timing_profile exact_fpu) = (True, P') \<and> map rt_regionId (pd_regions P') = [7, 7]"
proof -
  have "\<forall>r \<in> set (pd_regions some_profile). jn_fix rat_num (rt_regionName r) = rt_regionName r"
    "\<forall>n. jn_to_int rat_num (pd_clockFreqMhz some_profile) = Some n \<longrightarrow> jn_of_int rat_num n = pd_clockFreqMhz some_profile"
    by (simp_all add: rat_num_def some_profile_def)
  from timing_profile_roundtrip [OF this refl, where mem = "\<lambda>_. some_region" and F = exact_fpu and content = "''{}''"]
  show ?thesis by (auto simp: some_profile_def some_region_def hoisted_def)
qed

definition region_op :: "nat \<Rightarrow> string \<Rightarrow> rat op" where
  "region_op i name = Op i ''OffloadRegionOp'' [] [] [(''region_name'', Str_Attr name)] [[Block []
     [Op (Suc i) ''PrefetchChainOp'' [5] [] [(''depth'', Int_Attr 64 16)] []]]]"

definition region_function :: "nat \<Rightarrow> string list \<Rightarrow> rat op" where
  "region_function i names = Op i ''func::FuncOp'' [] [] [] [[Block [5]
     (map (\<lambda>(k, s). region_op (i + 1 + 2 * k) s) (enumerate 0 names))]]"

definition no_loc :: "nat \<Rightarrow> string" where "no_loc i = ''loc(unknown)''"


section \<open>Where code and comments part\<close>

definition name_and_id :: "rat op \<Rightarrow> string \<times> int option" where
  "name_and_id d = (case str_attr d ''phase_name'' of Some s \<Rightarrow> s | None \<Rightarrow> [], int_attr d ''twopass.region_id'')"

definition sync_marks :: "rat op list \<Rightarrow> (string \<times> int option) list" where
  "sync_marks ds = map name_and_id (filter (\<lambda>d. isa d [''OffloadRegionOp'', ''PhaseBoundaryOp'']) (concat (map pre_op ds)))"

text \<open>The counter starts anew in every function: two regions of a module have the same number.\<close>

lemma region_ids_repeat:
  "sync_marks (runTimingCalls (map (annotate_function exact_fpu no_loc True some_profile)
     [region_function 0 [''hot''], region_function 10 [''hot'']]) 100 100) =
   [([], Some 0), (''sync_0'', None), ([], Some 0), (''sync_0'', None)]"
  by code_simp

text \<open>A while loop around a chain inside an annotated region: the depth gets the 32-bit annotation, where
  the operation has a 64-bit attribute.\<close>

definition while_function :: "rat op" where
  "while_function = Op 0 ''func::FuncOp'' [] [] [] [[Block [5] [Op 1 ''scf::WhileOp'' [] [] [] [[Block [] []], [Block [] [region_op 2 ''hot'']]]]]]"

lemma while_depth_has_32_bits:
  "map (\<lambda>d. get_attr d ''depth'') (filter (\<lambda>d. isa d [''PrefetchChainOp''])
     (pre_op (annotate_function exact_fpu no_loc False some_profile while_function))) = [Some (Int_Attr 64 8)] \<and>
   map (\<lambda>d. get_attr d ''depth'') (filter (\<lambda>d. isa d [''PrefetchChainOp''])
     (pre_op (optimizeFunctionPrefetch (annotate_function exact_fpu no_loc False some_profile while_function)))) = [Some (Int_Attr 32 8)]"
  by code_simp

text \<open>A region with delay 0 still gets a synchronization point, only the flag counts.\<close>

lemma zero_delay_still_synchronized:
  "int_attr d ''twopass.injection_delay_ns'' = Some 0 \<Longrightarrow> bool_attr d ''twopass.latency_hidden'' \<noteq> Some True \<Longrightarrow>
   length (fst (insert_calls d s)) = 3"
  by (cases s) (simp add: insert_calls_def)

text \<open>What the document does not say is what the memory held; the placement flags are set whatever it says.\<close>

lemma missing_fields_uninitialized:
  "load_region J [] uninit = uninit\<lparr>rt_regionName := [], rt_shouldHoistH2D := True, rt_shouldSinkD2H := True\<rparr>"
  by (simp add: load_region_def json_getters)

lemma placement_always_recommended: "rt_shouldHoistH2D (load_region J ob uninit) \<and> rt_shouldSinkD2H (load_region J ob uninit)"
  by (simp add: load_region_def Let_def)

end
