(* ===== verification/Offload_Profile.thy ===== *)
theory Offload_Profile
  imports Json Mlir Jit_Cost "HOL-Library.Signed_Division"
begin

text \<open>
  Profile-guided offload decisions (\<^verbatim>\<open>src/Dialect/OffloadProfile.cpp\<close>): the profile read from JSON, the
  strategy for a function, the pass that annotates functions and loops, and the cost model. Arithmetic on
  doubles is an argument as in \<open>Jit_Cost\<close>; \<open>None\<close> is a division by zero or a signed overflow.
\<close>

section \<open>Profiles\<close>

record 'd function_profile =
  fn_name :: string
  fn_calls :: u64
  fn_total_ns :: u64
  fn_avg_ns :: 'd
  fn_elements_processed :: u64
  fn_throughput :: 'd
  fn_offload_candidate :: bool
  fn_parallelism_type :: string

record 'd offload_profile =
  op_profile_type :: string
  op_target :: string
  op_functions :: "string \<Rightarrow> 'd function_profile option"
  op_total_simplex_iterations :: u64
  op_total_execution_ns :: u64
  op_primary_offload_target :: string
  op_secondary_offload_target :: string
  op_expected_speedup :: 'd
  op_min_elements_for_offload :: u64
  op_data_transfer_cost_factor :: 'd
  op_h2d_latency_ns :: u64
  op_kernel_latency_ns :: u64
  op_d2h_latency_ns :: u64
  op_h2d_bandwidth_gbps :: 'd
  op_d2h_bandwidth_gbps :: 'd
  op_optimal_prefetch_distance :: u64

definition first_of :: "'a option \<Rightarrow> 'a option \<Rightarrow> 'a option" where
  "first_of x y = (if x = None then y else x)"

text \<open>A function's profile: the fields of \<open>uninit\<close> are what the memory held, except its strings, which are empty.\<close>

definition load_function :: "'d json_num \<Rightarrow> string \<Rightarrow> 'd json \<Rightarrow> 'd function_profile \<Rightarrow> 'd function_profile" where
  "load_function J name v uninit =
     (let p0 = uninit\<lparr>fn_name := name, fn_parallelism_type := []\<rparr> in
      case getAsObject v of None \<Rightarrow> p0
      | Some ob \<Rightarrow>
          let p1 = set_if (getInteger J ob ''calls'') (\<lambda>n. fn_calls_update (\<lambda>_. n)) p0;
              p2 = set_if (getInteger J ob ''total_ns'') (\<lambda>n. fn_total_ns_update (\<lambda>_. n)) p1;
              p3 = set_if (getNumber J ob ''avg_ns'') (\<lambda>d. fn_avg_ns_update (\<lambda>_. d)) p2;
              p4 = set_if (first_of (getInteger J ob ''arcs_processed'') (getInteger J ob ''arcs_generated''))
                     (\<lambda>n. fn_elements_processed_update (\<lambda>_. n)) p3;
              p5 = set_if (getNumber J ob ''throughput_arcs_per_sec'') (\<lambda>d. fn_throughput_update (\<lambda>_. d)) p4;
              p6 = set_if (getBoolean ob ''offload_candidate'') (\<lambda>b. fn_offload_candidate_update (\<lambda>_. b)) p5
          in set_if (getString ob ''parallelism'') (\<lambda>s. fn_parallelism_type_update (\<lambda>_. s)) p6)"

fun load_functions :: "'d json_num \<Rightarrow> (string \<Rightarrow> 'd function_profile) \<Rightarrow> 'd json_object \<Rightarrow>
    (string \<Rightarrow> 'd function_profile option) \<Rightarrow> string \<Rightarrow> 'd function_profile option" where
  "load_functions J mem [] fs = fs"
| "load_functions J mem ((name, v) # kvs) fs = load_functions J mem kvs (fs(name \<mapsto> load_function J name v (mem name)))"

definition load_hints :: "'d json_num \<Rightarrow> 'd json_object \<Rightarrow> 'd offload_profile \<Rightarrow> 'd offload_profile" where
  "load_hints J h P =
     (let P1 = set_if (getString h ''primary_target'') (\<lambda>s. op_primary_offload_target_update (\<lambda>_. s)) P;
          P2 = set_if (getString h ''secondary_target'') (\<lambda>s. op_secondary_offload_target_update (\<lambda>_. s)) P1;
          P3 = set_if (getNumber J h ''expected_speedup_pricing'') (\<lambda>d. op_expected_speedup_update (\<lambda>_. d)) P2;
          P4 = set_if (getInteger J h ''min_arcs_for_offload'') (\<lambda>n. op_min_elements_for_offload_update (\<lambda>_. n)) P3
      in set_if (getNumber J h ''data_transfer_cost_factor'') (\<lambda>d. op_data_transfer_cost_factor_update (\<lambda>_. d)) P4)"

definition load_overall :: "'d json_num \<Rightarrow> 'd json_object \<Rightarrow> 'd offload_profile \<Rightarrow> 'd offload_profile" where
  "load_overall J ob P =
     set_if (getInteger J ob ''total_execution_ns'') (\<lambda>n. op_total_execution_ns_update (\<lambda>_. n))
       (set_if (getInteger J ob ''simplex_iterations'') (\<lambda>n. op_total_simplex_iterations_update (\<lambda>_. n)) P)"

definition load_latencies :: "'d json_num \<Rightarrow> 'd json_object \<Rightarrow> 'd offload_profile \<Rightarrow> 'd offload_profile" where
  "load_latencies J ob P =
     (let P1 = set_if (getInteger J ob ''h2d_latency_ns'') (\<lambda>n. op_h2d_latency_ns_update (\<lambda>_. n)) P;
          P2 = set_if (getInteger J ob ''kernel_latency_ns'') (\<lambda>n. op_kernel_latency_ns_update (\<lambda>_. n)) P1
      in set_if (getInteger J ob ''d2h_latency_ns'') (\<lambda>n. op_d2h_latency_ns_update (\<lambda>_. n)) P2)"

definition load_bandwidth :: "'d json_num \<Rightarrow> 'd json_object \<Rightarrow> 'd offload_profile \<Rightarrow> 'd offload_profile" where
  "load_bandwidth J ob P =
     set_if (getNumber J ob ''d2h_gbps'') (\<lambda>d. op_d2h_bandwidth_gbps_update (\<lambda>_. d))
       (set_if (getNumber J ob ''h2d_gbps'') (\<lambda>d. op_h2d_bandwidth_gbps_update (\<lambda>_. d)) P)"

definition load_prefetch_hints :: "'d json_num \<Rightarrow> 'd json_object \<Rightarrow> 'd offload_profile \<Rightarrow> 'd offload_profile" where
  "load_prefetch_hints J ob P =
     set_if (getInteger J ob ''optimal_distance_bytes'') (\<lambda>n. op_optimal_prefetch_distance_update (\<lambda>_. n)) P"

text \<open>The functions, totals and hints may be below \<open>baseline\<close>; timing, bandwidth and prefetching are not.\<close>

definition load_document :: "'d json_num \<Rightarrow> (string \<Rightarrow> 'd function_profile) \<Rightarrow> 'd json_object \<Rightarrow> 'd offload_profile \<Rightarrow> 'd offload_profile" where
  "load_document J mem top_object P =
     (let data = (case getObject top_object ''baseline'' of Some b \<Rightarrow> b | None \<Rightarrow> top_object);
          P1 = set_if (getString data ''profile_type'') (\<lambda>s. op_profile_type_update (\<lambda>_. s)) P;
          P2 = set_if (getString data ''target'') (\<lambda>s. op_target_update (\<lambda>_. s)) P1;
          P3 = set_if (getObject data ''functions'') (\<lambda>kvs. op_functions_update (load_functions J mem kvs)) P2;
          P4 = set_if (getObject data ''overall'') (load_overall J) P3;
          P5 = set_if (getObject data ''offload_hints'') (load_hints J) P4;
          P6 = set_if (getObject top_object ''timing'') (load_latencies J) P5;
          P7 = set_if (getObject top_object ''bandwidth'') (load_bandwidth J) P6
      in set_if (getObject top_object ''prefetch_hints'') (load_prefetch_hints J) P7)"

definition loadOffloadProfile :: "'d json_num \<Rightarrow> (string \<Rightarrow> 'd json option) \<Rightarrow> (string \<Rightarrow> 'd function_profile) \<Rightarrow>
    string option \<Rightarrow> 'd offload_profile \<Rightarrow> bool \<times> 'd offload_profile" where
  "loadOffloadProfile J parse mem file P =
     (case file of None \<Rightarrow> (False, P) | Some content \<Rightarrow>
      case parse content of None \<Rightarrow> (False, P) | Some json \<Rightarrow>
      case getAsObject json of None \<Rightarrow> (False, P) | Some ob \<Rightarrow> (True, load_document J mem ob P))"

section \<open>Decisions\<close>

datatype offload_decision = CPU_ONLY | GPU_ALWAYS | GPU_CONDITIONAL | HYBRID

record 'd strategy =
  st_decision :: offload_decision
  st_min_elements :: u64
  st_expected_speedup :: 'd
  st_target_device :: string

definition base_speedup :: "'d fpu \<Rightarrow> string \<Rightarrow> 'd" where
  "base_speedup F t =
     (if t = ''embarrassingly_parallel'' then fp_lit F 10 else if t = ''reduction'' then fp_lit F 5
      else if t = ''data_dependent'' then fp_lit F 3 else fp_lit F 1)"

definition transfer_time :: "'d fpu \<Rightarrow> 'd offload_profile \<Rightarrow> u64 \<Rightarrow> 'd" where
  "transfer_time F P bytes =
     (if fp_lt F (fp_lit F 0) (op_h2d_bandwidth_gbps P) \<and> fp_lt F (fp_lit F 0) (op_d2h_bandwidth_gbps P)
      then fp_add F (fp_div F (fp_of_u64 F bytes) (fp_mul F (op_h2d_bandwidth_gbps P) (fp_lit F 1000000000)))
        (fp_div F (fp_of_u64 F bytes) (fp_mul F (op_d2h_bandwidth_gbps P) (fp_lit F 1000000000)))
      else fp_lit F 0)"

definition computeOffloadStrategy :: "'d fpu \<Rightarrow> 'd offload_profile \<Rightarrow> string \<Rightarrow> u64 \<Rightarrow> u64 \<Rightarrow> 'd strategy option" where
  "computeOffloadStrategy F P name elements bytes =
     (let s0 = \<lparr>st_decision = CPU_ONLY, st_min_elements = op_min_elements_for_offload P,
                 st_expected_speedup = fp_lit F 1, st_target_device = ''cpu''\<rparr>
      in case op_functions P name of None \<Rightarrow> Some s0
      | Some p \<Rightarrow>
          if \<not> fn_offload_candidate p then Some s0
          else if fn_calls p = 0 then None
          else let cpu = fp_mul F (fn_avg_ns p) (fp_of_u64 F (elements div max 1 (fn_elements_processed p div fn_calls p)));
                   gpu = fp_add F (fp_div F cpu (base_speedup F (fn_parallelism_type p)))
                     (fp_mul F (transfer_time F P bytes) (fp_lit F 1000000000));
                   speedup = fp_div F cpu gpu; s1 = s0\<lparr>st_expected_speedup := speedup\<rparr>
               in Some (if fp_lt F (fp_lit F (3 / 2)) speedup
                   then s1\<lparr>st_decision := (if op_min_elements_for_offload P \<le> elements then GPU_ALWAYS else GPU_CONDITIONAL),
                           st_target_device := ''vortex''\<rparr>
                   else if fp_lt F (fp_lit F 1) speedup
                   then s1\<lparr>st_decision := GPU_CONDITIONAL, st_target_device := ''vortex''\<rparr>
                   else s1))"

definition shouldOffloadFunction :: "'d offload_profile \<Rightarrow> string \<Rightarrow> u64 \<Rightarrow> bool" where
  "shouldOffloadFunction P name elements \<longleftrightarrow>
     (case op_functions P name of None \<Rightarrow> False
      | Some p \<Rightarrow> fn_offload_candidate p \<and> op_min_elements_for_offload P \<le> elements)"

definition getExpectedSpeedup :: "'d fpu \<Rightarrow> 'd offload_profile \<Rightarrow> string \<Rightarrow> 'd" where
  "getExpectedSpeedup F P name =
     (case op_functions P name of None \<Rightarrow> fp_lit F 1 | Some p \<Rightarrow> base_speedup F (fn_parallelism_type p))"

section \<open>Estimates from the code\<close>

definition int64_ok :: "int \<Rightarrow> bool" where "int64_ok x \<longleftrightarrow> -(2 ^ 63) \<le> x \<and> x < 2 ^ 63"

definition constant_int :: "'d op \<Rightarrow> nat \<Rightarrow> int option" where
  "constant_int f v = (case def_of f v of Some d \<Rightarrow> if isa d [''arith::ConstantOp''] then int_attr d ''value'' else None | None \<Rightarrow> None)"

text \<open>The trips of one loop dimension with constant bounds and a positive step, in 64-bit signed arithmetic.\<close>

definition trips :: "int \<Rightarrow> int \<Rightarrow> int \<Rightarrow> u64 option" where
  "trips lb ub s =
     (if int64_ok (ub - lb) \<and> int64_ok (ub - lb + s) \<and> int64_ok (ub - lb + s - 1)
      then Some (of_int ((ub - lb + s - 1) sdiv s)) else None)"

fun parallel_trips :: "'d op \<Rightarrow> (nat \<times> nat \<times> nat) list \<Rightarrow> u64 \<Rightarrow> u64 option" where
  "parallel_trips f [] acc = Some acc"
| "parallel_trips f ((l, u, s) # ds) acc =
     (case (constant_int f l, constant_int f u, constant_int f s) of
        (Some lb, Some ub, Some st) \<Rightarrow>
          if st > 0 then (case trips lb ub st of None \<Rightarrow> None | Some n \<Rightarrow> parallel_trips f ds (acc * n))
          else parallel_trips f ds acc
      | _ \<Rightarrow> parallel_trips f ds acc)"

text \<open>
  The operands of a parallel loop are its lower bounds, its upper bounds and its steps, \<open>k\<close> of each, as
  many as the arguments of its body.
\<close>

definition parallel_dims :: "'d op \<Rightarrow> (nat \<times> nat \<times> nat) list" where
  "parallel_dims d =
     (let k = (case concat (op_regions d) of [] \<Rightarrow> 0 | b # bs \<Rightarrow> length (blk_args b)); xs = op_operands d
      in zip (take k xs) (zip (take k (drop k xs)) (take k (drop (2 * k) xs))))"

definition estimateLoopTripCount :: "'d op \<Rightarrow> 'd op \<Rightarrow> u64 option" where
  "estimateLoopTripCount f d =
     (if isa d [''scf::ForOp'']
      then (case op_operands d of
          l # u # s # inits \<Rightarrow>
            (case (constant_int f l, constant_int f u, constant_int f s) of
               (Some lb, Some ub, Some st) \<Rightarrow> if st > 0 then trips lb ub st else Some 10000
             | _ \<Rightarrow> Some 10000)
        | _ \<Rightarrow> None)
      else if isa d [''scf::ParallelOp'']
      then map_option (\<lambda>acc. if acc > 1 then acc else 10000) (parallel_trips f (parallel_dims d) 1)
      else Some 10000)"

fun sum_trips :: "'d op \<Rightarrow> 'd op list \<Rightarrow> u64 \<Rightarrow> u64 option" where
  "sum_trips f [] acc = Some acc"
| "sum_trips f (d # ds) acc =
     (if isa d [''scf::ForOp'', ''scf::WhileOp'', ''scf::ParallelOp'']
      then case estimateLoopTripCount f d of None \<Rightarrow> None | Some n \<Rightarrow> sum_trips f ds (acc + n)
      else sum_trips f ds acc)"

fun memref_elements :: "int list \<Rightarrow> int \<Rightarrow> int option" where
  "memref_elements [] n = Some n"
| "memref_elements (d # ds) n =
     (let n' = n * (if d > 0 then d else 1024) in if int64_ok n' then memref_elements ds n' else None)"

fun estimateDataTransfer :: "mtype list \<Rightarrow> u64 \<Rightarrow> u64 option" where
  "estimateDataTransfer [] bytes = Some bytes"
| "estimateDataTransfer (t # ts) bytes =
     (case t of
        Mem_Ref dims bits s \<Rightarrow>
          (case memref_elements dims 1 of None \<Rightarrow> None
           | Some n \<Rightarrow> if int64_ok (n * int (bits div 8)) then estimateDataTransfer ts (bytes + of_int (n * int (bits div 8))) else None)
      | Llvm_Ptr n \<Rightarrow> estimateDataTransfer ts (bytes + 4096)
      | _ \<Rightarrow> estimateDataTransfer ts bytes)"

section \<open>The pass\<close>

record 'd offload_options =
  oo_min_elements :: u64
  oo_speedup_threshold :: 'd
  oo_force_offload :: bool

definition default_offload_options :: "'d fpu \<Rightarrow> 'd offload_options" where
  "default_offload_options F = \<lparr>oo_min_elements = 1000, oo_speedup_threshold = fp_lit F (3 / 2), oo_force_offload = False\<rparr>"

definition decide_strategy :: "'d fpu \<Rightarrow> 'd offload_profile \<Rightarrow> 'd offload_options \<Rightarrow> string \<Rightarrow> u64 \<Rightarrow> u64 \<Rightarrow> 'd strategy option" where
  "decide_strategy F P po name estimated bytes =
     (let elements = (if estimated = 0 then oo_min_elements po else estimated);
          strategy = (if oo_force_offload po
            then Some \<lparr>st_decision = GPU_ALWAYS, st_min_elements = oo_min_elements po,
              st_expected_speedup = op_expected_speedup P, st_target_device = ''vortex''\<rparr>
            else computeOffloadStrategy F P name elements bytes)
      in map_option (\<lambda>s. if fp_lt F (st_expected_speedup s) (oo_speedup_threshold po) \<and> \<not> oo_force_offload po
           then s\<lparr>st_decision := CPU_ONLY\<rparr> else s) strategy)"

definition decision_attrs :: "'d strategy \<Rightarrow> string \<Rightarrow> (string \<times> 'd attribute) list" where
  "decision_attrs s word =
     [(''offload_target'', Str_Attr (st_target_device s)), (''offload_decision'', Str_Attr word),
      (''expected_speedup'', Float_Attr (st_expected_speedup s)), (''min_elements'', Int_Attr 64 (sint (st_min_elements s)))]"

definition annotateFunction :: "'d strategy \<Rightarrow> 'd op \<Rightarrow> 'd op" where
  "annotateFunction s f =
     (case st_decision s of
        GPU_ALWAYS \<Rightarrow> set_attrs (decision_attrs s ''always'') f
      | GPU_CONDITIONAL \<Rightarrow> set_attrs (decision_attrs s ''conditional'') f
      | HYBRID \<Rightarrow> set_attrs [(''offload_target'', Str_Attr ''hetero''), (''offload_decision'', Str_Attr ''hybrid'')] f
      | CPU_ONLY \<Rightarrow> f)"

definition annotateLoop :: "'d offload_profile \<Rightarrow> 'd strategy \<Rightarrow> 'd op \<Rightarrow> 'd op" where
  "annotateLoop P s d =
     (if st_decision s = CPU_ONLY then d
      else set_attrs ([(''gpu_offload'', Str_Attr (st_target_device s))] @
        (if op_optimal_prefetch_distance P > 0
         then [(''prefetch_distance'', Int_Attr 64 (sint (op_optimal_prefetch_distance P)))] else []) @
        (if isa d [''scf::ForOp''] then [(''parallel_strategy'', Str_Attr ''thread_strided'')]
         else if isa d [''scf::ParallelOp''] then [(''parallel_strategy'', Str_Attr ''block_parallel'')] else [])) d)"

definition function_name :: "'d op \<Rightarrow> string" where
  "function_name f = (case str_attr f ''sym_name'' of Some s \<Rightarrow> s | None \<Rightarrow> [])"

text \<open>One function; \<open>types\<close> are the types of its arguments.\<close>

definition offload_function :: "'d fpu \<Rightarrow> 'd offload_profile \<Rightarrow> 'd offload_options \<Rightarrow> mtype list \<Rightarrow> 'd op \<Rightarrow> 'd op option" where
  "offload_function F P po types f =
     (case estimateDataTransfer types 0 of None \<Rightarrow> None | Some bytes \<Rightarrow>
      case sum_trips f (post_op f) 0 of None \<Rightarrow> None | Some estimated \<Rightarrow>
      case decide_strategy F P po (function_name f) estimated bytes of None \<Rightarrow> None | Some s \<Rightarrow>
        Some (walk_op (\<lambda>d. if isa d [''scf::ForOp'', ''scf::ParallelOp''] then annotateLoop P s d else d) (annotateFunction s f)))"

fun offload_functions :: "'d fpu \<Rightarrow> 'd offload_profile \<Rightarrow> 'd offload_options \<Rightarrow> (nat \<Rightarrow> mtype list) \<Rightarrow> 'd op list \<Rightarrow> 'd op list option" where
  "offload_functions F P po types [] = Some []"
| "offload_functions F P po types (f # fs) =
     (case (if isa f [''func::FuncOp''] then offload_function F P po (types (op_id f)) f else Some f) of
        None \<Rightarrow> None
      | Some g \<Rightarrow> map_option ((#) g) (offload_functions F P po types fs))"

text \<open>A profile that does not load leaves what was there; the member of the pass is all zero.\<close>

definition runProfileGuidedOffload :: "'d json_num \<Rightarrow> (string \<Rightarrow> 'd json option) \<Rightarrow> (string \<Rightarrow> 'd function_profile) \<Rightarrow> 'd fpu \<Rightarrow>
    'd offload_options \<Rightarrow> string option option \<Rightarrow> (nat \<Rightarrow> mtype list) \<Rightarrow> 'd offload_profile \<Rightarrow> 'd op list \<Rightarrow> 'd op list option" where
  "runProfileGuidedOffload J parse mem F po file types P fs =
     offload_functions F (case file of None \<Rightarrow> P | Some fl \<Rightarrow> snd (loadOffloadProfile J parse mem fl P)) po types fs"

section \<open>The cost model\<close>

definition bandwidth_or_default :: "'d fpu \<Rightarrow> 'd \<Rightarrow> 'd" where
  "bandwidth_or_default F bw = (if fp_lt F (fp_lit F 0) bw then bw else fp_lit F 10)"

definition estimateCPUTime :: "'d fpu \<Rightarrow> 'd offload_profile \<Rightarrow> string \<Rightarrow> u64 \<Rightarrow> 'd" where
  "estimateCPUTime F P name elements =
     (case op_functions P name of None \<Rightarrow> fp_mul F (fp_of_u64 F elements) (fp_lit F 100)
      | Some p \<Rightarrow> if fp_lt F (fp_lit F 0) (fn_throughput p)
          then fp_mul F (fp_div F (fp_of_u64 F elements) (fn_throughput p)) (fp_lit F 1000000000)
          else fp_mul F (fn_avg_ns p) (fp_of_u64 F elements))"

definition bytes_time :: "'d fpu \<Rightarrow> u64 \<Rightarrow> 'd \<Rightarrow> 'd" where
  "bytes_time F bytes bw =
     fp_mul F (fp_div F (fp_of_u64 F bytes) (fp_mul F bw (fp_lit F 1000000000))) (fp_lit F 1000000000)"

definition estimateGPUTime :: "'d fpu \<Rightarrow> 'd offload_profile \<Rightarrow> string \<Rightarrow> u64 \<Rightarrow> u64 \<Rightarrow> u64 \<Rightarrow> 'd" where
  "estimateGPUTime F P name elements h2dBytes d2hBytes =
     (let kernelTime = fp_div F (estimateCPUTime F P name elements) (fp_lit F 10);
          h2dTime = bytes_time F h2dBytes (bandwidth_or_default F (op_h2d_bandwidth_gbps P));
          d2hTime = bytes_time F d2hBytes (bandwidth_or_default F (op_d2h_bandwidth_gbps P))
      in fp_add F (fp_add F (fp_add F kernelTime h2dTime) d2hTime) (fp_lit F 10000))"

definition getRecommendation :: "'d fpu \<Rightarrow> 'd offload_profile \<Rightarrow> string \<Rightarrow> u64 \<Rightarrow> u64 \<Rightarrow> u64 \<Rightarrow> offload_decision" where
  "getRecommendation F P name elements h2dBytes d2hBytes =
     (let speedup = fp_div F (estimateCPUTime F P name elements) (estimateGPUTime F P name elements h2dBytes d2hBytes)
      in if fp_lt F (fp_lit F 2) speedup then GPU_ALWAYS
         else if fp_lt F (fp_lit F (12 / 10)) speedup then GPU_CONDITIONAL else CPU_ONLY)"

definition cpu_per_element :: "'d fpu \<Rightarrow> 'd offload_profile \<Rightarrow> string \<Rightarrow> 'd" where
  "cpu_per_element F P name =
     (case op_functions P name of None \<Rightarrow> fp_lit F 100
      | Some p \<Rightarrow> if fp_lt F (fp_lit F 0) (fn_throughput p) then fp_div F (fp_lit F 1000000000) (fn_throughput p) else fp_lit F 100)"

text \<open>The conversion of a double to an unsigned integer is an argument.\<close>

definition getCrossoverPoint :: "'d fpu \<Rightarrow> ('d \<Rightarrow> u64) \<Rightarrow> 'd offload_profile \<Rightarrow> string \<Rightarrow> u64 \<Rightarrow> u64" where
  "getCrossoverPoint F to_u64 P name bytesPerElement =
     (let cpu = cpu_per_element F P name; gpu = fp_div F cpu (fp_lit F 10);
          transfer = fp_mul F (bytes_time F bytesPerElement (bandwidth_or_default F (op_h2d_bandwidth_gbps P))) (fp_lit F 2);
          diff = fp_sub F (fp_sub F cpu gpu) transfer
      in if fp_le F diff (fp_lit F 0) then 0xFFFFFFFFFFFFFFFF else to_u64 (fp_div F (fp_lit F 10000) diff))"

section \<open>Only profiled candidates are offloaded\<close>

lemma strategy_candidate:
  assumes "computeOffloadStrategy F P name elements bytes = Some s" "st_decision s \<noteq> CPU_ONLY"
  shows "\<exists>p. op_functions P name = Some p \<and> fn_offload_candidate p \<and> fn_calls p \<noteq> 0 \<and>
    fp_lt F (fp_lit F 1) (st_expected_speedup s) \<or> fp_lt F (fp_lit F (3 / 2)) (st_expected_speedup s)"
  using assms by (auto simp: computeOffloadStrategy_def Let_def split: option.splits if_splits)

lemma decide_candidate:
  assumes "decide_strategy F P po name estimated bytes = Some s" "st_decision s \<noteq> CPU_ONLY" "\<not> oo_force_offload po"
  shows "\<exists>p. op_functions P name = Some p \<and> fn_offload_candidate p \<and> \<not> fp_lt F (st_expected_speedup s) (oo_speedup_threshold po)"
  using assms by (auto simp: decide_strategy_def computeOffloadStrategy_def Let_def split: option.splits if_splits)

lemma never_hybrid: "decide_strategy F P po name estimated bytes = Some s \<Longrightarrow> st_decision s \<noteq> HYBRID"
  by (auto simp: decide_strategy_def computeOffloadStrategy_def Let_def split: option.splits if_splits)

lemma strip_annotateFunction [simp]: "strip_op (annotateFunction s f) = strip_op f"
  by (simp add: annotateFunction_def split: offload_decision.split)

lemma strip_annotateLoop [simp]: "strip_op (annotateLoop P s d) = strip_op d"
  by (simp add: annotateLoop_def)

lemma offload_function_cases:
  assumes "offload_function F P po types f = Some g"
  obtains s estimated bytes where "decide_strategy F P po (function_name f) estimated bytes = Some s"
    "g = walk_op (\<lambda>d. if isa d [''scf::ForOp'', ''scf::ParallelOp''] then annotateLoop P s d else d) (annotateFunction s f)"
  using assms by (auto simp: offload_function_def split: option.splits)

lemma offload_function_effect:
  assumes "offload_function F P po types f = Some g" "\<not> oo_force_offload po"
  shows "strip_op g = strip_op f \<and>
    (g \<noteq> f \<longrightarrow> (\<exists>p. op_functions P (function_name f) = Some p \<and> fn_offload_candidate p))"
  using assms(1)
proof (rule offload_function_cases)
  fix s estimated bytes
  assume s: "decide_strategy F P po (function_name f) estimated bytes = Some s"
    and g: "g = walk_op (\<lambda>d. if isa d [''scf::ForOp'', ''scf::ParallelOp''] then annotateLoop P s d else d) (annotateFunction s f)"
  have "strip_op g = strip_op f" unfolding g by (subst strip_walk) simp_all
  moreover have "g = f" if "st_decision s = CPU_ONLY"
    using that by (simp add: g annotateFunction_def annotateLoop_def walk_id cong: if_cong)
  ultimately show ?thesis using decide_candidate [OF s _ assms(2)] by blast
qed


section \<open>The crossover point\<close>

text \<open>Truncation of a rational, as the conversion of a double to an unsigned integer.\<close>

definition exact_to_u64 :: "rat \<Rightarrow> u64" where "exact_to_u64 x = of_int \<lfloor>x\<rfloor>"

definition profiled_by_throughput :: "rat offload_profile \<Rightarrow> string \<Rightarrow> bool" where
  "profiled_by_throughput P name \<longleftrightarrow> (case op_functions P name of None \<Rightarrow> True | Some p \<Rightarrow> fn_throughput p > 0)"

lemma cpu_time_linear:
  assumes "profiled_by_throughput P name"
  shows "estimateCPUTime exact_fpu P name e = of_nat (unat e) * cpu_per_element exact_fpu P name"
  using assms by (auto simp: estimateCPUTime_def cpu_per_element_def profiled_by_throughput_def exact_fpu_def split: option.splits)

lemma bytes_time_linear: "bytes_time exact_fpu b w = of_nat (unat b) / w"
  by (simp add: bytes_time_def exact_fpu_def)

lemma above_floor: "x < (unsigned (e :: u64) :: rat) \<longleftrightarrow> \<lfloor>x\<rfloor> < uint e"
  using floor_less_iff [of x "uint e"] by simp

definition crossover_gain :: "rat offload_profile \<Rightarrow> string \<Rightarrow> u64 \<Rightarrow> rat" where
  "crossover_gain P name b = cpu_per_element exact_fpu P name - cpu_per_element exact_fpu P name / 10 -
     2 * of_nat (unat b) / bandwidth_or_default exact_fpu (op_h2d_bandwidth_gbps P)"


section \<open>Examples\<close>

definition pricing_profile :: "rat function_profile" where
  "pricing_profile = \<lparr>fn_name = ''pricing'', fn_calls = 10, fn_total_ns = 1000000, fn_avg_ns = 100000, fn_elements_processed = 10000,
     fn_throughput = 10000000, fn_offload_candidate = True, fn_parallelism_type = ''embarrassingly_parallel''\<rparr>"

definition network_profile :: "rat offload_profile" where
  "network_profile = \<lparr>op_profile_type = [], op_target = [],
     op_functions = [''pricing'' \<mapsto> pricing_profile, ''update'' \<mapsto> pricing_profile\<lparr>fn_offload_candidate := False\<rparr>,
       ''latent'' \<mapsto> pricing_profile\<lparr>fn_throughput := 0, fn_avg_ns := 1\<rparr>, ''idle'' \<mapsto> pricing_profile\<lparr>fn_calls := 0\<rparr>],
     op_total_simplex_iterations = 0, op_total_execution_ns = 0, op_primary_offload_target = [], op_secondary_offload_target = [],
     op_expected_speedup = 0, op_min_elements_for_offload = 5000, op_data_transfer_cost_factor = 0, op_h2d_latency_ns = 0,
     op_kernel_latency_ns = 0, op_d2h_latency_ns = 0, op_h2d_bandwidth_gbps = 10, op_d2h_bandwidth_gbps = 10,
     op_optimal_prefetch_distance = 0\<rparr>"

definition pricing_function :: "rat op" where
  "pricing_function = Op 0 ''func::FuncOp'' [] [] [(''sym_name'', Str_Attr ''pricing'')] [[Block [0]
     [Op 1 ''arith::ConstantOp'' [] [1] [(''value'', Int_Attr 64 0)] [], Op 2 ''arith::ConstantOp'' [] [2] [(''value'', Int_Attr 64 9000)] [],
      Op 3 ''arith::ConstantOp'' [] [3] [(''value'', Int_Attr 64 1)] [], Op 4 ''scf::ForOp'' [1, 2, 3] [] [] [[Block [4] []]]]]]"

definition update_function :: "rat op" where
  "update_function = set_attr ''sym_name'' (Str_Attr ''update'') pricing_function"

lemma pricing_decision:
  "map_option st_decision (decide_strategy exact_fpu network_profile (default_offload_options exact_fpu) ''pricing'' 9000 8000) =
   Some GPU_ALWAYS"
  by (simp add: decide_strategy_def computeOffloadStrategy_def default_offload_options_def network_profile_def pricing_profile_def
      exact_fpu_def base_speedup_def transfer_time_def Let_def)


lemma crossover_113: "\<lfloor>25000 / 221 :: rat\<rfloor> = 113"
  by (simp add: floor_eq_iff)


section \<open>Where the decisions go wrong\<close>

text \<open>A candidate that was never called: the average over its calls divides by zero.\<close>

lemma uncalled_candidate_divides_by_zero:
  "computeOffloadStrategy exact_fpu network_profile ''idle'' 9000 0 = None"
  by code_simp

text \<open>
  Fewer elements than one profiled call had on average: the integer quotient is 0 and so are both times,
  the function stays on the host however fast the device is.
\<close>

lemma partial_call_counts_as_nothing:
  assumes "op_functions P name = Some p" "fn_calls p \<noteq> 0" "elements < fn_elements_processed p div fn_calls p"
    and "computeOffloadStrategy exact_fpu P name elements bytes = Some s"
  shows "st_decision s = CPU_ONLY"
proof -
  let ?n = "max 1 (fn_elements_processed p div fn_calls p)"
  have "elements < ?n" using assms(3) by (simp add: less_max_iff_disj)
  then have "elements div ?n = 0" by (rule div_word_less)
  then show ?thesis using assms by (auto simp: computeOffloadStrategy_def Let_def exact_fpu_def split: if_splits)
qed

text \<open>A loop that runs down counts as almost \<open>2 ^ 64\<close> trips.\<close>

lemma reversed_loop_is_huge: "trips 10 0 1 = Some (2 ^ 64 - 10)"
  by code_simp

text \<open>
  Without a throughput the crossover point assumes 100 ns for an element where the time estimates take the
  average of the profile: above the crossover the device is not faster.
\<close>

lemma crossover_ignores_average:
  "getCrossoverPoint exact_fpu exact_to_u64 network_profile ''latent'' 8 < 200 \<and>
   \<not> estimateGPUTime exact_fpu network_profile ''latent'' 200 1600 1600 < estimateCPUTime exact_fpu network_profile ''latent'' 200"
  by (simp add: getCrossoverPoint_def estimateGPUTime_def estimateCPUTime_def cpu_per_element_def bytes_time_def
      bandwidth_or_default_def network_profile_def pricing_profile_def exact_fpu_def exact_to_u64_def Let_def crossover_113)

end
