(* ===== verification/Offload_Overhead.thy ===== *)
theory Offload_Overhead
  imports Offload_Profile C_Env
begin

text \<open>
  The overhead analysis (\<^verbatim>\<open>src/Dialect/OffloadOverheadAnalysis.cpp\<close>): what goes into and comes out of a
  loop, what moving it costs, whether offloading the loop pays, and whether the transfers can leave the
  loop around it. Sets are lists without repetition. Dominance is MLIR's and an argument, so are the
  conversions of doubles to integers and to text.
\<close>

section \<open>Liveness\<close>

record liveness =
  lv_in :: "nat list"
  lv_out :: "nat list"
  lv_defined :: "nat list"
  lv_used :: "nat list"

text \<open>The operations below an operation, and whether an operation is one of them.\<close>

definition region_ops :: "'d op \<Rightarrow> 'd op list" where "region_ops r = butlast (post_op r)"

definition is_below :: "'d op \<Rightarrow> 'd op \<Rightarrow> bool" where
  "is_below r u \<longleftrightarrow> op_id u \<in> set (map op_id (region_ops r))"

definition users :: "'d op \<Rightarrow> nat \<Rightarrow> 'd op list" where
  "users f v = filter (\<lambda>u. v \<in> set (op_operands u)) (pre_op f)"

definition loop_args :: "'d op \<Rightarrow> nat list" where
  "loop_args r = (if isa r [''scf::ForOp''] then (case concat (op_regions r) of [] \<Rightarrow> [] | b # bs \<Rightarrow> blk_args b) else [])"

definition computeLiveness :: "'d op \<Rightarrow> 'd op \<Rightarrow> liveness" where
  "computeLiveness f r =
     (let ds = region_ops r;
          defined = remdups (concat (map op_results ds) @ loop_args r);
          used = remdups (concat (map op_operands ds));
          live_out = filter (\<lambda>v. list_ex (\<lambda>u. \<not> is_below r u) (users f v)) defined
      in \<lparr>lv_in = filter (\<lambda>v. v \<notin> set defined) used,
          lv_out = remdups (live_out @ (if isa r [''scf::ForOp''] then op_results r else [])),
          lv_defined = defined, lv_used = used\<rparr>)"

section \<open>Transfers\<close>

fun tensor_elements :: "int list \<Rightarrow> int \<Rightarrow> int option" where
  "tensor_elements [] n = Some n"
| "tensor_elements (d # ds) n = (if int64_ok (n * d) then tensor_elements ds (n * d) else None)"

definition sized :: "int option \<Rightarrow> nat \<Rightarrow> u64 option" where
  "sized n bits = (case n of None \<Rightarrow> None
     | Some n \<Rightarrow> if int64_ok (n * int (bits div 8)) then Some (of_int (n * int (bits div 8))) else None)"

definition estimateValueSize :: "mtype \<Rightarrow> u64 option" where
  "estimateValueSize t =
     (case t of
        Mem_Ref dims bits s \<Rightarrow> sized (memref_elements dims 1) bits
      | Llvm_Ptr n \<Rightarrow> Some 4096
      | Tensor shape bits \<Rightarrow> sized (case shape of Some dims \<Rightarrow> tensor_elements dims 1 | None \<Rightarrow> Some 1024) bits
      | Integer_Type n \<Rightarrow> Some (of_nat (n div 8))
      | F32_Type \<Rightarrow> Some 4
      | F64_Type \<Rightarrow> Some 8
      | _ \<Rightarrow> Some 8)"

record transfer_value =
  tv_value :: nat
  tv_sizeBytes :: u64
  tv_isInput :: bool
  tv_isOutput :: bool

definition is_constant_op :: "'d op \<Rightarrow> nat \<Rightarrow> bool" where
  "is_constant_op f v = (case def_of f v of Some d \<Rightarrow> isa d [''arith::ConstantOp''] | None \<Rightarrow> False)"

definition transfer_of :: "'d mlir \<Rightarrow> bool \<Rightarrow> bool \<Rightarrow> nat \<Rightarrow> transfer_value option" where
  "transfer_of M input output v =
     map_option (\<lambda>n. \<lparr>tv_value = v, tv_sizeBytes = n, tv_isInput = input, tv_isOutput = output\<rparr>) (estimateValueSize (ml_type M v))"

text \<open>Values to the device, then values back; what is in the first list as an output is not in the second.\<close>

definition computeTransferValues :: "'d mlir \<Rightarrow> 'd op \<Rightarrow> 'd op \<Rightarrow> (transfer_value list \<times> transfer_value list) option" where
  "computeTransferValues M f r =
     (let L = computeLiveness f r in
      case those (map (\<lambda>v. transfer_of M True (v \<in> set (lv_out L)) v) (filter (\<lambda>v. \<not> is_constant_op f v) (lv_in L))) of
        None \<Rightarrow> None
      | Some h2d \<Rightarrow>
          map_option (\<lambda>d2h. (h2d, d2h))
            (those (map (transfer_of M False True)
               (filter (\<lambda>v. \<not> list_ex (\<lambda>tv. tv_value tv = v \<and> tv_isOutput tv) h2d) (lv_out L)))))"

section \<open>Overhead\<close>

record 'd overhead =
  oh_h2dBytes :: u64
  oh_d2hBytes :: u64
  oh_h2dLatencyNs :: u64
  oh_d2hLatencyNs :: u64
  oh_kernelCycles :: u64
  oh_totalOverheadNs :: u64
  oh_expectedSpeedup :: 'd
  oh_shouldOffload :: bool
  oh_reason :: string

record 'd conversions =
  cv_to_u64 :: "'d \<Rightarrow> u64"
  cv_show :: "'d \<Rightarrow> string"

definition transfer_latency :: "'d fpu \<Rightarrow> 'd conversions \<Rightarrow> u64 \<Rightarrow> u64 \<Rightarrow> 'd \<Rightarrow> u64" where
  "transfer_latency F C base bytes bw =
     cv_to_u64 C (fp_add F (fp_of_u64 F base)
       (fp_div F (fp_mul F (fp_of_u64 F bytes) (fp_lit F 1000000000)) (fp_mul F bw (fp_lit F 1000000000))))"

definition kernel_cycles :: "'d fpu \<Rightarrow> 'd conversions \<Rightarrow> 'd offload_profile \<Rightarrow> u64 \<Rightarrow> u64" where
  "kernel_cycles F C P elements =
     (let c = (if op_kernel_latency_ns P = 0 then elements * 100 else op_kernel_latency_ns P)
      in if op_min_elements_for_offload P > 0 \<and> elements > 0
         then cv_to_u64 C (fp_mul F (fp_of_u64 F c)
           (fp_div F (fp_of_u64 F elements) (fp_of_u64 F (op_min_elements_for_offload P))))
         else c)"

definition cpu_time :: "'d fpu \<Rightarrow> 'd offload_profile \<Rightarrow> u64 \<Rightarrow> 'd" where
  "cpu_time F P elements =
     (if op_total_execution_ns P > 0 then fp_of_u64 F (op_total_execution_ns P)
      else fp_mul F (fp_of_u64 F elements) (fp_lit F 1000))"

text \<open>The decision: too slow, too few elements, all transfer, or worth it.\<close>

definition decide_overhead :: "'d fpu \<Rightarrow> 'd conversions \<Rightarrow> 'd \<Rightarrow> 'd \<Rightarrow> u64 \<Rightarrow> u64 \<Rightarrow> bool \<times> string" where
  "decide_overhead F C speedup kernelRatio elements minElements =
     (if fp_lt F speedup (fp_lit F (12 / 10))
      then (False, ''Expected speedup '' @ cv_show C speedup @ ''x below threshold '' @ cv_show C (fp_lit F (12 / 10)) @ ''x'')
      else if elements < minElements
      then (False, ''Element count '' @ dec_digits (unat elements) @ '' below minimum '' @ dec_digits (unat minElements))
      else if fp_lt F kernelRatio (fp_lit F (1 / 10))
      then (False, ''Transfer overhead dominates (kernel only '' @ cv_show C (fp_mul F kernelRatio (fp_lit F 100)) @ ''% of total)'')
      else (True, ''Offload beneficial: '' @ cv_show C speedup @ ''x speedup''))"

definition sum_bytes :: "transfer_value list \<Rightarrow> u64" where "sum_bytes tvs = sum_list (map tv_sizeBytes tvs)"

definition computeOverhead :: "'d mlir \<Rightarrow> 'd fpu \<Rightarrow> 'd conversions \<Rightarrow> 'd offload_profile \<Rightarrow> 'd op \<Rightarrow> 'd op \<Rightarrow> u64 \<Rightarrow> 'd overhead option" where
  "computeOverhead M F C P f r elements =
     map_option (\<lambda>(h2d, d2h).
       let hb = sum_bytes h2d; db = sum_bytes d2h;
           hl = transfer_latency F C 100000 hb (bandwidth_or_default F (op_h2d_bandwidth_gbps P));
           dl = transfer_latency F C 50000 db (bandwidth_or_default F (op_d2h_bandwidth_gbps P));
           k = kernel_cycles F C P elements;
           total_ns = hl + k + dl;
           speedup = fp_div F (cpu_time F P elements) (fp_of_u64 F total_ns);
           ratio = fp_div F (fp_of_u64 F k) (fp_of_u64 F total_ns);
           minElements = (if op_min_elements_for_offload P > 0 then op_min_elements_for_offload P else 1000);
           decision = decide_overhead F C speedup ratio elements minElements
       in \<lparr>oh_h2dBytes = hb, oh_d2hBytes = db, oh_h2dLatencyNs = hl, oh_d2hLatencyNs = dl, oh_kernelCycles = k,
           oh_totalOverheadNs = total_ns, oh_expectedSpeedup = speedup, oh_shouldOffload = fst decision,
           oh_reason = snd decision\<rparr>)
     (computeTransferValues M f r)"

section \<open>Placement\<close>

text \<open>The nearest counted loop around an operation, or the nearest while loop: innermost comes last in a walk.\<close>

definition enclosing_ops :: "'d op \<Rightarrow> 'd op \<Rightarrow> 'd op list" where
  "enclosing_ops f r = filter (\<lambda>p. is_below p r) (pre_op f)"

definition nearest :: "string \<Rightarrow> 'd op list \<Rightarrow> 'd op option" where
  "nearest k ps = find (\<lambda>p. isa p [k]) (rev ps)"

definition parent_loop :: "'d op \<Rightarrow> 'd op \<Rightarrow> 'd op option" where
  "parent_loop f r =
     (case nearest ''scf::ForOp'' (enclosing_ops f r) of Some p \<Rightarrow> Some p
      | None \<Rightarrow> nearest ''scf::WhileOp'' (enclosing_ops f r))"

definition can_hoist :: "('d op \<Rightarrow> 'd op \<Rightarrow> bool) \<Rightarrow> 'd op \<Rightarrow> 'd op \<Rightarrow> transfer_value list \<Rightarrow> bool" where
  "can_hoist dominates f loop h2d \<longleftrightarrow>
     list_all (\<lambda>tv. case def_of f (tv_value tv) of None \<Rightarrow> True | Some d \<Rightarrow> dominates d loop) h2d"

definition can_sink :: "'d op \<Rightarrow> 'd op \<Rightarrow> transfer_value list \<Rightarrow> bool" where
  "can_sink f loop d2h \<longleftrightarrow>
     list_all (\<lambda>tv. list_all (\<lambda>u. \<not> is_below loop u \<and> op_id u \<noteq> op_id loop) (users f (tv_value tv))) d2h"

text \<open>Whether the transfers to and from the device may leave the loop.\<close>

definition getOptimalPlacement :: "'d mlir \<Rightarrow> ('d op \<Rightarrow> 'd op \<Rightarrow> bool) \<Rightarrow> 'd op \<Rightarrow> 'd op \<Rightarrow> (bool \<times> bool) option" where
  "getOptimalPlacement M dominates f r =
     (case parent_loop f r of None \<Rightarrow> Some (False, False)
      | Some loop \<Rightarrow> map_option (\<lambda>(h2d, d2h). (can_hoist dominates f loop h2d, can_sink f loop d2h)) (computeTransferValues M f r))"

section \<open>The pass\<close>

definition loop_elements :: "'d op \<Rightarrow> 'd op \<Rightarrow> u64 option" where
  "loop_elements f d =
     (if isa d [''scf::ForOp'']
      then (case op_operands d of
          l # u # xs \<Rightarrow>
            (case (constant_int f l, constant_int f u) of
               (Some lb, Some ub) \<Rightarrow> if int64_ok (ub - lb) then Some (of_int (ub - lb)) else None
             | _ \<Rightarrow> Some 10000)
        | _ \<Rightarrow> None)
      else Some 10000)"

definition overhead_attrs :: "'d overhead \<Rightarrow> bool \<times> bool \<Rightarrow> (string \<times> 'd attribute) list" where
  "overhead_attrs ov pl =
     [(''h2d_bytes'', Int_Attr 64 (sint (oh_h2dBytes ov))), (''d2h_bytes'', Int_Attr 64 (sint (oh_d2hBytes ov))),
      (''h2d_latency_ns'', Int_Attr 64 (sint (oh_h2dLatencyNs ov))), (''d2h_latency_ns'', Int_Attr 64 (sint (oh_d2hLatencyNs ov))),
      (''kernel_cycles'', Int_Attr 64 (sint (oh_kernelCycles ov))),
      (''total_overhead_ns'', Int_Attr 64 (sint (oh_totalOverheadNs ov))),
      (''expected_speedup'', Float_Attr (oh_expectedSpeedup ov)), (''should_offload'', Bool_Attr (oh_shouldOffload ov)),
      (''offload_reason'', Str_Attr (oh_reason ov)),
      (''can_hoist_h2d'', Bool_Attr (fst pl)), (''can_sink_d2h'', Bool_Attr (snd pl))]"

definition analyze_loop :: "'d mlir \<Rightarrow> 'd fpu \<Rightarrow> 'd conversions \<Rightarrow> 'd offload_profile \<Rightarrow> ('d op \<Rightarrow> 'd op \<Rightarrow> bool) \<Rightarrow>
    'd op \<Rightarrow> 'd op \<Rightarrow> 'd op option" where
  "analyze_loop M F C P dominates f d =
     (if \<not> isa d [''scf::ForOp'', ''scf::ParallelOp''] then Some d
      else case loop_elements f d of None \<Rightarrow> None | Some elements \<Rightarrow>
           case computeOverhead M F C P f d elements of None \<Rightarrow> None | Some ov \<Rightarrow>
             map_option (\<lambda>pl. set_attrs (overhead_attrs ov pl) d) (getOptimalPlacement M dominates f d))"

text \<open>A walk in post-order whose steps may fail.\<close>

fun try_op :: "('d op \<Rightarrow> 'd op option) \<Rightarrow> 'd op \<Rightarrow> 'd op option"
and try_block :: "('d op \<Rightarrow> 'd op option) \<Rightarrow> 'd block \<Rightarrow> 'd block option" where
  "try_op g (Op i k xs rs as bs) =
     (case those (map (\<lambda>r. those (map (try_block g) r)) bs) of None \<Rightarrow> None | Some bs' \<Rightarrow> g (Op i k xs rs as bs'))"
| "try_block g (Block args ds) = map_option (Block args) (those (map (try_op g) ds))"

definition analyzeAndAnnotate :: "'d mlir \<Rightarrow> 'd fpu \<Rightarrow> 'd conversions \<Rightarrow> 'd offload_profile \<Rightarrow> ('d op \<Rightarrow> 'd op \<Rightarrow> bool) \<Rightarrow>
    'd op \<Rightarrow> 'd op option" where
  "analyzeAndAnnotate M F C P dominates f = try_op (analyze_loop M F C P dominates f) f"

section \<open>Experiment results and export\<close>

text \<open>Results of an experiment overlay the profile; the bandwidths are set whatever it says.\<close>

definition load_experiment_document :: "'d json_num \<Rightarrow> 'd fpu \<Rightarrow> 'd json_object \<Rightarrow> 'd offload_profile \<Rightarrow> 'd offload_profile" where
  "load_experiment_document J F ob P =
     (let P1 = set_if (getObject ob ''x86_baseline'') (\<lambda>x. set_if (getInteger J x ''total_execution_ns'')
                 (\<lambda>n. op_total_execution_ns_update (\<lambda>_. n))) P;
          P2 = set_if (getObject ob ''vortex_execution'') (\<lambda>x Q.
                 set_if (getInteger J x ''d2h_latency_ns'') (\<lambda>n. op_d2h_latency_ns_update (\<lambda>_. n))
                   (set_if (getInteger J x ''h2d_latency_ns'') (\<lambda>n. op_h2d_latency_ns_update (\<lambda>_. n))
                     (set_if (getInteger J x ''kernel_cycles'') (\<lambda>n. op_kernel_latency_ns_update (\<lambda>_. n)) Q))) P1;
          P3 = set_if (getObject ob ''analysis'') (\<lambda>x. set_if (getNumber J x ''kernel_speedup'')
                 (\<lambda>d. op_expected_speedup_update (\<lambda>_. d))) P2;
          P4 = set_if (getObject ob ''offload_hints'') (\<lambda>x Q.
                 set_if (getInteger J x ''min_arcs_for_offload'') (\<lambda>n. op_min_elements_for_offload_update (\<lambda>_. n))
                   (set_if (getString x ''primary_target'') (\<lambda>s. op_primary_offload_target_update (\<lambda>_. s)) Q)) P3
      in P4\<lparr>op_h2d_bandwidth_gbps := fp_lit F 10, op_d2h_bandwidth_gbps := fp_lit F 10\<rparr>)"

definition loadExperimentResults :: "'d json_num \<Rightarrow> 'd fpu \<Rightarrow> (string \<Rightarrow> 'd json option) \<Rightarrow> string option \<Rightarrow>
    'd offload_profile \<Rightarrow> bool \<times> 'd offload_profile" where
  "loadExperimentResults J F parse file P =
     (case file of None \<Rightarrow> (False, P) | Some content \<Rightarrow>
      case parse content of None \<Rightarrow> (False, P) | Some json \<Rightarrow>
      case getAsObject json of None \<Rightarrow> (False, P) | Some ob \<Rightarrow> (True, load_experiment_document J F ob P))"

definition exportProfileForCompiler :: "'d json_num \<Rightarrow> 'd overhead \<Rightarrow> 'd json_object" where
  "exportProfileForCompiler J ov =
     [(''profile_type'', J_Str ''compiler_offload_profile''), (''version'', J_Str ''2.0''),
      (''overhead_analysis'', J_Obj
        [(''h2d_bytes'', J_Int (oh_h2dBytes ov)), (''d2h_bytes'', J_Int (oh_d2hBytes ov)),
         (''h2d_latency_ns'', J_Int (oh_h2dLatencyNs ov)), (''d2h_latency_ns'', J_Int (oh_d2hLatencyNs ov)),
         (''kernel_cycles'', J_Int (oh_kernelCycles ov)), (''total_overhead_ns'', J_Int (oh_totalOverheadNs ov))]),
      (''offload_decision'', J_Obj
        [(''expected_speedup'', J_Num (oh_expectedSpeedup ov)), (''should_offload'', J_Bool (oh_shouldOffload ov)),
         (''reason'', J_Str (jn_fix J (oh_reason ov)))])]"

text \<open>The whole pass: both files are optional, and one that does not load leaves the profile as it was.\<close>

definition runEnhancedOffloadAnalysis :: "'d json_num \<Rightarrow> (string \<Rightarrow> 'd json option) \<Rightarrow> (string \<Rightarrow> 'd function_profile) \<Rightarrow>
    'd mlir \<Rightarrow> 'd fpu \<Rightarrow> 'd conversions \<Rightarrow> ('d op \<Rightarrow> 'd op \<Rightarrow> bool) \<Rightarrow> string option option \<Rightarrow> string option option \<Rightarrow>
    'd offload_profile \<Rightarrow> 'd op list \<Rightarrow> 'd op list option" where
  "runEnhancedOffloadAnalysis J parse mem M F C dominates profile_file results_file P fs =
     (let P1 = (case profile_file of None \<Rightarrow> P | Some fl \<Rightarrow> snd (loadOffloadProfile J parse mem fl P));
          P2 = (case results_file of None \<Rightarrow> P1 | Some fl \<Rightarrow> snd (loadExperimentResults J F parse fl P1))
      in those (map (\<lambda>f. if isa f [''func::FuncOp''] then analyzeAndAnnotate M F C P2 dominates f else Some f) fs))"

section \<open>Every value is transferred\<close>

lemma those_map_Some: "those (map g xs) = Some ys \<longleftrightarrow> list_all2 (\<lambda>x y. g x = Some y) xs ys"
  by (induction xs arbitrary: ys) (auto simp: list_all2_Cons1 split: option.splits)

lemma region_ops_loop:
  assumes "op_regions r = [[b]]"
  shows "set (region_ops r) = set (pre_block b)"
  using assms same_ops(2) [of b] by (cases r) (simp add: region_ops_def)

lemma loop_defined:
  assumes "op_regions r = [[b]]" "isa r [''scf::ForOp'']"
  shows "set (lv_defined (computeLiveness f r)) = set (blk_args b) \<union> (\<Union>d \<in> set (pre_block b). set (op_results d))"
  using assms by (auto simp: computeLiveness_def Let_def loop_args_def region_ops_loop)

lemma transfer_of_value: "transfer_of M input output v = Some tv \<Longrightarrow> tv_value tv = v \<and> tv_isInput tv = input \<and> tv_isOutput tv = output"
  by (auto simp: transfer_of_def)

lemma computeTransferValues_D:
  assumes "computeTransferValues M f r = Some (h2d, d2h)"
  shows "list_all2 (\<lambda>v tv. transfer_of M True (v \<in> set (lv_out (computeLiveness f r))) v = Some tv)
      (filter (\<lambda>v. \<not> is_constant_op f v) (lv_in (computeLiveness f r))) h2d"
    "list_all2 (\<lambda>v tv. transfer_of M False True v = Some tv)
      (filter (\<lambda>v. \<not> list_ex (\<lambda>tv. tv_value tv = v \<and> tv_isOutput tv) h2d) (lv_out (computeLiveness f r))) d2h"
  using assms by (auto simp: computeTransferValues_def Let_def those_map_Some split: option.splits)

lemma list_all2_left: "list_all2 R xs ys \<Longrightarrow> x \<in> set xs \<Longrightarrow> \<exists>y \<in> set ys. R x y"
  by (induction rule: list_all2_induct) auto


text \<open>
  When no operation of the body has arguments in its own regions, nothing superfluous is live in either.
\<close>

lemma liveness_exact:
  assumes "op_regions r = [[b]]" "isa r [''scf::ForOp'']"
    and "\<forall>d \<in> set (pre_block b). \<forall>b' \<in> set (concat (op_regions d)). blk_args b' = []"
  shows "set (lv_in (computeLiveness f r)) = (\<Union>d \<in> set (pre_block b). set (op_operands d)) - set (region_values [b])"
proof -
  have "blk_args b' = []" if c: "c \<in> set (blk_ops b)" "(d, i, b') \<in> set (all_blocks c)" for c d i b'
  proof -
    obtain e where e: "e \<in> set (pre_op c)" "(d, i, b') \<in> set (own_blocks e)" using c(2) by (auto simp: all_blocks_def)
    then have "e \<in> set (pre_block b)" using c(1) by (cases b) auto
    moreover have "b' \<in> set (concat (op_regions e))" using own_blocksD [OF e(2)] nth_mem by auto
    ultimately show ?thesis using assms(3) by blast
  qed
  then have "set (region_values [b]) = set (lv_defined (computeLiveness f r))"
    unfolding loop_defined [OF assms(1,2)] by (fastforce simp: region_values_def)
  then show ?thesis using region_ops_loop [OF assms(1)] by (auto simp: computeLiveness_def Let_def)
qed

section \<open>Examples and defects\<close>

definition some_types :: "'d mlir" where
  "some_types = \<lparr>ml_effect_free = (\<lambda>d. False), ml_read_effect = (\<lambda>d. False), ml_constant = (\<lambda>d. False),
     ml_type = (\<lambda>v. if v = 0 then Mem_Ref [100] 32 No_Space else Integer_Type 64)\<rparr>"

text \<open>
  Two nested loops, \<open>i\<close> (value 4) and \<open>j\<close> (value 5), over an array (value 0) from 0 to 100 in steps of 10;
  the sum (value 9) goes to a call.
\<close>

definition inner_loop :: "rat op" where
  "inner_loop = Op 11 ''scf::ForOp'' [1, 2, 3] [6] [] [[Block [5]
     [Op 12 ''memref::LoadOp'' [0, 4] [7] [] [], Op 13 ''arith::AddIOp'' [7, 5] [8] [] [],
      Op 14 ''scf::YieldOp'' [8] [] [] []]]]"

definition outer_loop :: "rat op" where
  "outer_loop = Op 10 ''scf::ForOp'' [1, 2, 3] [9] [] [[Block [4] [inner_loop, Op 15 ''scf::YieldOp'' [6] [] [] []]]]"

definition nested_loops :: "rat op" where
  "nested_loops = Op 0 ''func::FuncOp'' [] [] [] [[Block [0]
     [Op 1 ''arith::ConstantOp'' [] [1] [(''value'', Int_Attr 64 0)] [], Op 2 ''arith::ConstantOp'' [] [2] [(''value'', Int_Attr 64 100)] [],
      Op 3 ''arith::ConstantOp'' [] [3] [(''value'', Int_Attr 64 10)] [], outer_loop, Op 20 ''func::CallOp'' [9] [] [] []]]]"

definition values_of :: "(transfer_value list \<times> transfer_value list) option \<Rightarrow> (nat list \<times> nat list) option" where
  "values_of = map_option (\<lambda>(xs, ys). (map tv_value xs, map tv_value ys))"


text \<open>Seen from the outer loop the inner induction variable is an input: only the loop's own is known as defined.\<close>

lemma inner_induction_variable_transferred:
  "values_of (computeTransferValues some_types nested_loops outer_loop) = Some ([0, 5], [9])"
  by code_simp

text \<open>
  The inner loop reads the outer induction variable, and its input transfer is still declared free to leave
  the outer loop, whatever dominates what: arguments of blocks count as available.
\<close>

lemma induction_variable_hoisted:
  "values_of (computeTransferValues some_types nested_loops inner_loop) = Some ([0, 4], [6]) \<and>
   getOptimalPlacement some_types (\<lambda>_ _. False) nested_loops inner_loop = Some (True, False)"
  by code_simp

text \<open>The step is not looked at: ten trips count as a hundred elements.\<close>

lemma step_ignored: "loop_elements nested_loops inner_loop = Some 100 \<and> estimateLoopTripCount nested_loops inner_loop = Some 10"
  by code_simp

text \<open>What is exported for the compiler is not what the compiler loads: all figures and the decision are lost.\<close>

lemma export_not_read:
  "load_document J mem (exportProfileForCompiler J ov) P = P\<lparr>op_profile_type := ''compiler_offload_profile''\<rparr>"
  by (simp add: load_document_def exportProfileForCompiler_def json_getters Let_def)

lemma experiment_resets_bandwidth:
  "op_h2d_bandwidth_gbps (load_experiment_document J F ob P) = fp_lit F 10"
  by (simp add: load_experiment_document_def Let_def)

end
