(* ===== verification/Workload.thy ===== *)
theory Workload
  imports Mlir
begin

text \<open>
  The workload estimate (\<^verbatim>\<open>src/Dialect/WorkloadAnalysis.cpp\<close>): a number of operations executed, in 32 bits,
  cut off at \<open>uncertain\<close>, with a table of loops and functions seen. \<open>divideCeil\<close> is LLVM's and an argument.
  \<open>None\<close> is the else block of a conditional that has none.
\<close>

definition uncertain :: u32 where "uncertain = 0xAAAA"

type_synonym complexity_table = "nat \<Rightarrow> u32 option"

definition index_constant :: "'d op \<Rightarrow> nat \<Rightarrow> int option" where
  "index_constant f v = (case def_of f v of Some d \<Rightarrow> if isa d [''arith::ConstantOp''] then int_attr d ''value'' else None | None \<Rightarrow> None)"

text \<open>The product is computed in 64 bits and cut to 32.\<close>

definition for_complexity :: "(u64 \<Rightarrow> u64 \<Rightarrow> u64) \<Rightarrow> int \<Rightarrow> int \<Rightarrow> int \<Rightarrow> u32 \<Rightarrow> u32" where
  "for_complexity divideCeil lb ub step body =
     (let n = divideCeil (of_int ub - of_int lb) (of_int step); c = (ucast (ucast body * n) :: u32)
      in if c < uncertain then c else uncertain)"

text \<open>
  The visits: an operation (\<open>visitOperation\<close> with \<open>visitSCFForOp\<close> and \<open>visitMLIRFuncOp\<close>), a block, and the
  blocks of a function. \<open>f\<close> is the tree in which definitions are looked up.
\<close>

fun visitOperation :: "(u64 \<Rightarrow> u64 \<Rightarrow> u64) \<Rightarrow> 'd op \<Rightarrow> 'd op \<Rightarrow> complexity_table \<Rightarrow> (u32 \<times> complexity_table) option"
and visitBlock :: "(u64 \<Rightarrow> u64 \<Rightarrow> u64) \<Rightarrow> 'd op \<Rightarrow> 'd op list \<Rightarrow> u32 \<Rightarrow> complexity_table \<Rightarrow> (u32 \<times> complexity_table) option"
and visitBlocks :: "(u64 \<Rightarrow> u64 \<Rightarrow> u64) \<Rightarrow> 'd op \<Rightarrow> 'd block list \<Rightarrow> u32 \<Rightarrow> complexity_table \<Rightarrow> (u32 \<times> complexity_table) option" where
  "visitOperation divideCeil f (Op i k xs rs as bs) rel =
     (case rel i of Some c \<Rightarrow> Some (c, rel)
      | None \<Rightarrow>
          if k = ''scf::ForOp''
          then (case (xs, bs) of
              (l # u # s # inits, (Block args ds # rest) # regions) \<Rightarrow>
                (case (index_constant f l, index_constant f u) of
                   (Some lb, Some ub) \<Rightarrow>
                     (case visitBlock divideCeil f ds 0 rel of None \<Rightarrow> None
                      | Some (body, rel') \<Rightarrow>
                          (let step = (case index_constant f s of Some st \<Rightarrow> st | None \<Rightarrow> 1);
                               c = for_complexity divideCeil lb ub step body
                           in Some (c, rel'(i \<mapsto> c))))
                 | _ \<Rightarrow> Some (uncertain, rel))
            | _ \<Rightarrow> None)
          else if k = ''scf::WhileOp'' then Some (uncertain, rel)
          else if k = ''func::FuncOp''
          then (case bs of [] \<Rightarrow> None
             | r # regions \<Rightarrow> (case visitBlocks divideCeil f r 0 rel of None \<Rightarrow> None | Some (c, rel') \<Rightarrow> Some (c, rel'(i \<mapsto> c))))
          else if k = ''scf::IfOp''
          then (case bs of
              [Block args ds # rest, Block args' ds' # rest'] \<Rightarrow>
                (case visitBlock divideCeil f ds 0 rel of None \<Rightarrow> None
                 | Some (a, rel1) \<Rightarrow> (case visitBlock divideCeil f ds' 0 rel1 of None \<Rightarrow> None | Some (b, rel2) \<Rightarrow> Some (min a b, rel2)))
            | _ \<Rightarrow> None)
          else Some (1, rel))"
| "visitBlock divideCeil f [] acc rel = Some (acc, rel)"
| "visitBlock divideCeil f (d # ds) acc rel =
     (case visitOperation divideCeil f d rel of None \<Rightarrow> None
      | Some (c, rel') \<Rightarrow> if acc + c > uncertain then Some (uncertain, rel') else visitBlock divideCeil f ds (acc + c) rel')"
| "visitBlocks divideCeil f [] acc rel = Some (acc, rel)"
| "visitBlocks divideCeil f (Block args ds # bs) acc rel =
     (case visitBlock divideCeil f ds 0 rel of None \<Rightarrow> None
      | Some (c, rel') \<Rightarrow> if acc + c > uncertain then Some (uncertain, rel') else visitBlocks divideCeil f bs (acc + c) rel')"

section \<open>The estimate is bounded\<close>

definition table_bounded :: "complexity_table \<Rightarrow> bool" where
  "table_bounded rel \<longleftrightarrow> (\<forall>i c. rel i = Some c \<longrightarrow> c \<le> uncertain)"

lemma for_complexity_bounded: "for_complexity divideCeil lb ub step body \<le> uncertain"
  by (auto simp: for_complexity_def Let_def)

lemma table_bounded_update: "table_bounded rel \<Longrightarrow> c \<le> uncertain \<Longrightarrow> table_bounded (rel(i \<mapsto> c))"
  by (simp add: table_bounded_def)

definition bounded_result :: "(u32 \<times> complexity_table) option \<Rightarrow> bool" where
  "bounded_result x \<longleftrightarrow> (case x of Some (c, rel) \<Rightarrow> c \<le> uncertain \<and> table_bounded rel | None \<Rightarrow> True)"

lemma bounded_resultD: "bounded_result x \<Longrightarrow> x = Some (c, rel) \<Longrightarrow> c \<le> uncertain \<and> table_bounded rel"
  by (simp add: bounded_result_def)

lemma bounded_result_simps [simp]:
  "bounded_result None" "bounded_result (Some (c, rel)) \<longleftrightarrow> c \<le> uncertain \<and> table_bounded rel"
  by (simp_all add: bounded_result_def)

lemma visits_bounded:
  fixes f d :: "'d op" and ds :: "'d op list" and bs :: "'d block list"
  shows "table_bounded rel \<Longrightarrow> bounded_result (visitOperation D f d rel)"
    "table_bounded rel \<Longrightarrow> acc \<le> uncertain \<Longrightarrow> bounded_result (visitBlock D f ds acc rel)"
    "table_bounded rel \<Longrightarrow> acc \<le> uncertain \<Longrightarrow> bounded_result (visitBlocks D f bs acc rel)"
proof (induction D f d rel and D f ds acc rel and D f bs acc rel rule: visitOperation_visitBlock_visitBlocks.induct)
  case (1 D f i k xs rs as bs rel)
  show ?case
  proof (cases "rel i")
    case (Some c)
    then show ?thesis using 1(5) by (simp add: table_bounded_def)
  next
    case None
    note IH = 1(1-4) [OF None] and tab = 1(5)
    consider "k = ''scf::ForOp''" | "k = ''scf::WhileOp''" | "k = ''func::FuncOp''" | "k = ''scf::IfOp''"
      | "k \<notin> {''scf::ForOp'', ''scf::WhileOp'', ''func::FuncOp'', ''scf::IfOp''}" by blast
    then show ?thesis
    proof cases
      case 1
      show ?thesis
        using IH(1) [OF 1] tab
        by (auto simp: None 1 Let_def for_complexity_bounded table_bounded_update
            split: option.split list.split block.split dest!: bounded_resultD)
    next
      case 3
      show ?thesis
        using IH(2) tab
        by (auto simp: None 3 table_bounded_update uncertain_def split: option.split list.split dest!: bounded_resultD)
    next
      case 4
      show ?thesis
        using IH(3,4) tab
        by (auto simp: None 4 min_le_iff_disj uncertain_def split: option.split list.split block.split dest!: bounded_resultD)
    qed (use None tab in \<open>auto simp: uncertain_def\<close>)
  qed
next
  case (3 D f d ds acc rel)
  then show ?case by (auto split: option.split prod.split simp: not_less dest!: bounded_resultD)
next
  case (5 D f args ds bs acc rel)
  then show ?case by (auto split: option.split prod.split simp: not_less dest!: bounded_resultD)
qed auto

text \<open>Every estimate is at most \<open>uncertain\<close>, however large the loops are and whatever the division does.\<close>

theorem workload_bounded:
  assumes "visitOperation divideCeil f d (\<lambda>_. None) = Some (c, rel)"
  shows "c \<le> 0xAAAA"
  using visits_bounded(1) [of "\<lambda>_. None" divideCeil f d] bounded_resultD [OF _ assms]
  by (simp add: table_bounded_def uncertain_def)

section \<open>Examples\<close>

definition ceil_division :: "u64 \<Rightarrow> u64 \<Rightarrow> u64" where "ceil_division a b = (a + b - 1) div b"

definition counted_loop :: "int \<Rightarrow> unit op" where
  "counted_loop n = Op 0 ''func::FuncOp'' [] [] [] [[Block []
     [Op 1 ''arith::ConstantOp'' [] [1] [(''value'', Int_Attr 64 0)] [], Op 2 ''arith::ConstantOp'' [] [2] [(''value'', Int_Attr 64 n)] [],
      Op 3 ''arith::ConstantOp'' [] [3] [(''value'', Int_Attr 64 1)] [],
      Op 4 ''scf::ForOp'' [1, 2, 3] [] [] [[Block [4] [Op 5 ''memref::LoadOp'' [4] [5] [] []]]]]]]"

theorem workload_bounded_witness:
  "\<exists>c rel. visitOperation ceil_division (counted_loop 100) (counted_loop 100) (\<lambda>_. None) = Some (c, rel) \<and> c = 103 \<and> c \<le> 0xAAAA"
proof -
  define x where "x = visitOperation ceil_division (counted_loop 100) (counted_loop 100) (\<lambda>_. None)"
  have "map_option fst x = Some 103" unfolding x_def by code_simp
  then obtain rel where x: "x = Some (103, rel)" by (cases x) auto
  from workload_bounded [OF x [unfolded x_def]] show ?thesis using x by (simp add: x_def)
qed

text \<open>The product is cut to 32 bits before it is compared: a loop of \<open>2 ^ 32\<close> trips counts as nothing.\<close>

lemma huge_loop_counts_as_nothing:
  "for_complexity ceil_division 0 (2 ^ 32) 1 1 = 0 \<and> for_complexity ceil_division 0 100000 1 1 = uncertain"
  by code_simp

text \<open>A conditional without an else part has no else block to visit.\<close>

lemma if_without_else_is_null:
  "visitOperation D f (Op i ''scf::IfOp'' [0] [] [] [[Block [] ds], []]) (\<lambda>_. None) = None"
  by simp

end
