(* ===== verification/Rewriter.thy ===== *)
theory Rewriter
  imports Region_Formation "HOL-Library.State_Monad"
begin

text \<open>
  What the conversion patterns use of MLIR's rewriter: operations are created one after another with new
  values, bodies are cloned, an operation is replaced or erased, and types are converted. The patterns
  are programs of the state monad, as they are sequences of calls on the rewriter in the code.
\<close>

section \<open>The rewriter\<close>

text \<open>\<open>rw_types\<close> has the type of every value, \<open>rw_ops\<close> what was created, in order.\<close>

record 'd rewriter =
  rw_value :: nat
  rw_id :: nat
  rw_types :: "nat \<Rightarrow> mtype"
  rw_ops :: "'d op list"

type_synonym ('d, 'a) rewriting = "('d rewriter, 'a) state"

definition emit :: "'d op \<Rightarrow> 'd rewriter \<Rightarrow> 'd rewriter" where
  "emit d s = s\<lparr>rw_id := Suc (rw_id s), rw_ops := rw_ops s @ [d]\<rparr>"

text \<open>\<open>rewriter.create\<close>, without and with a result, and with one for each of a list of types.\<close>

definition create0 :: "string \<Rightarrow> nat list \<Rightarrow> (string \<times> 'd attribute) list \<Rightarrow> ('d, unit) rewriting" where
  "create0 k xs as = State (\<lambda>s. ((), emit (Op (rw_id s) k xs [] as []) s))"

definition create1 :: "string \<Rightarrow> mtype \<Rightarrow> nat list \<Rightarrow> (string \<times> 'd attribute) list \<Rightarrow> ('d, nat) rewriting" where
  "create1 k t xs as = State (\<lambda>s. (rw_value s,
     (emit (Op (rw_id s) k xs [rw_value s] as []) s)\<lparr>rw_value := Suc (rw_value s), rw_types := (rw_types s)(rw_value s := t)\<rparr>))"

definition set_types :: "(nat \<times> mtype) list \<Rightarrow> (nat \<Rightarrow> mtype) \<Rightarrow> nat \<Rightarrow> mtype" where
  "set_types ts ty = (\<lambda>v. case map_of ts v of Some t \<Rightarrow> t | None \<Rightarrow> ty v)"

definition create_many :: "string \<Rightarrow> mtype list \<Rightarrow> nat list \<Rightarrow> (string \<times> 'd attribute) list \<Rightarrow> ('d, nat list) rewriting" where
  "create_many k ts xs as = State (\<lambda>s. let rs = [rw_value s..<rw_value s + length ts] in (rs,
     (emit (Op (rw_id s) k xs rs as []) s)\<lparr>rw_value := rw_value s + length ts, rw_types := set_types (zip rs ts) (rw_types s)\<rparr>))"

text \<open>\<open>rewriter.clone\<close> through a mapping that it extends.\<close>

definition clone_into :: "'d op \<Rightarrow> (nat \<times> nat) list \<Rightarrow> ('d, (nat \<times> nat) list) rewriting" where
  "clone_into d mapping = State (\<lambda>s.
     case clone d (mapping, rw_value s, rw_id s) of (c, mapping', n, k) \<Rightarrow>
       (mapping', s\<lparr>rw_value := n, rw_id := k, rw_ops := rw_ops s @ [c],
          rw_types := set_types (map (\<lambda>v. (lookup mapping' v, rw_types s v)) (defined_in d)) (rw_types s)\<rparr>))"

text \<open>
  An operation with regions: \<open>body\<close> builds them at an insertion point inside. \<open>new_block\<close> puts what is
  created at the end of a new block.
\<close>

definition create_region ::
  "string \<Rightarrow> mtype list \<Rightarrow> nat list \<Rightarrow> (string \<times> 'd attribute) list \<Rightarrow> ('d, 'd block list list) rewriting \<Rightarrow> ('d, nat list) rewriting" where
  "create_region k ts xs as body = State (\<lambda>s. let rs = [rw_value s..<rw_value s + length ts] in
     case run_state body (s\<lparr>rw_value := rw_value s + length ts, rw_id := Suc (rw_id s),
            rw_types := set_types (zip rs ts) (rw_types s), rw_ops := []\<rparr>) of
       (bs, s') \<Rightarrow> (rs, s'\<lparr>rw_ops := rw_ops s @ [Op (rw_id s) k xs rs as bs]\<rparr>))"

definition new_block :: "nat list \<Rightarrow> ('d, 'a) rewriting \<Rightarrow> ('d, 'd block) rewriting" where
  "new_block args m = State (\<lambda>s. case run_state m (s\<lparr>rw_ops := []\<rparr>) of
     (x, s') \<Rightarrow> (Block args (rw_ops s'), s'\<lparr>rw_ops := rw_ops s\<rparr>))"

text \<open>New block arguments with their types, and a region cloned.\<close>

definition new_args :: "mtype list \<Rightarrow> ('d, nat list) rewriting" where
  "new_args ts = State (\<lambda>s. let rs = [rw_value s..<rw_value s + length ts] in
     (rs, s\<lparr>rw_value := rw_value s + length ts, rw_types := set_types (zip rs ts) (rw_types s)\<rparr>))"

definition clone_region :: "'d block list \<Rightarrow> ('d, 'd block list) rewriting" where
  "clone_region r = State (\<lambda>s. let d = Op 0 [] [] [] [] [r] in
     case clone d ([], rw_value s, rw_id s) of (c, mapping, n, k) \<Rightarrow>
       (hd (op_regions c), s\<lparr>rw_value := n, rw_id := k,
          rw_types := set_types (map (\<lambda>v. (lookup mapping v, rw_types s v)) (defined_in d)) (rw_types s)\<rparr>))"

definition type_of :: "nat \<Rightarrow> ('d, mtype) rewriting" where
  "type_of v = State (\<lambda>s. (rw_types s v, s))"

text \<open>How a pattern ends; some change the attributes of the operation in place.\<close>

datatype 'd rewrite_result = Failure | Erased | Replaced "nat list" | Updated "'d op"

section \<open>Types\<close>

text \<open>
  The type converter for LLVM: \<open>base\<close> are the conversions it has of its own, \<open>None\<close> that there is none.
\<close>

type_synonym type_converter = "mtype \<Rightarrow> mtype option"

abbreviation ptr_type :: mtype where "ptr_type \<equiv> Llvm_Ptr 0"
abbreviation i8 :: mtype where "i8 \<equiv> Integer_Type 8"
abbreviation i32 :: mtype where "i32 \<equiv> Integer_Type 32"
abbreviation i64 :: mtype where "i64 \<equiv> Integer_Type 64"

definition addCiraLLVMTypeConversions :: "type_converter \<Rightarrow> type_converter" where
  "addCiraLLVMTypeConversions base t =
     (case t of Cira_Handle \<Rightarrow> Some ptr_type | Cira_Future \<Rightarrow> Some ptr_type | Cira_Stream \<Rightarrow> Some ptr_type | _ \<Rightarrow> base t)"

text \<open>What \<open>LLVMTypeConverter\<close> documents: types of LLVM are kept, an index is a word of the target.\<close>

definition llvm_converter :: "type_converter \<Rightarrow> bool" where
  "llvm_converter base \<longleftrightarrow> (\<forall>a. base (Llvm_Ptr a) = Some (Llvm_Ptr a)) \<and> (\<forall>n. base (Integer_Type n) = Some (Integer_Type n)) \<and>
     base Index_Type = Some i64 \<and> (\<forall>t u. base t = Some u \<longrightarrow> base u = Some u)"

section \<open>Constants and calls\<close>

definition const_i32 :: "int \<Rightarrow> ('d, nat) rewriting" where
  "const_i32 n = create1 ''LLVM::ConstantOp'' i32 [] [(''value'', Int_Attr 32 (signed_take_bit 31 n))]"

definition const_i64 :: "int \<Rightarrow> ('d, nat) rewriting" where
  "const_i64 n = create1 ''LLVM::ConstantOp'' i64 [] [(''value'', Int_Attr 64 (signed_take_bit 63 n))]"

definition call0 :: "string \<Rightarrow> nat list \<Rightarrow> ('d, unit) rewriting" where
  "call0 f xs = create0 ''LLVM::CallOp'' xs [(''callee'', Str_Attr f)]"

definition call1 :: "string \<Rightarrow> mtype \<Rightarrow> nat list \<Rightarrow> ('d, nat) rewriting" where
  "call1 f t xs = create1 ''LLVM::CallOp'' t xs [(''callee'', Str_Attr f)]"

definition null_ptr :: "('d, nat) rewriting" where
  "null_ptr = create1 ''LLVM::ZeroOp'' ptr_type [] []"

definition fence :: "('d, unit) rewriting" where
  "fence = create0 ''LLVM::FenceOp'' [] [(''ordering'', Str_Attr ''seq_cst'')]"

end
