(* ===== verification/Cira_Patterns.thy ===== *)
theory Cira_Patterns
  imports Rewriter
begin

text \<open>
  The conversion patterns of \<^verbatim>\<open>src/Conversion/CiraToLLVM.cpp\<close>: each cira operation becomes operations
  of LLVM and calls of the runtime. A pattern reads the operation it replaces and runs on the rewriter.
\<close>

section \<open>Targets\<close>

datatype target_arch = X86 | ARM | RISCV_VORTEX | Heterogeneous

text \<open>What \<open>llvm::Triple\<close> says of a target triple.\<close>

record triple =
  tr_x86 :: bool
  tr_arm :: bool
  tr_aarch64 :: bool
  tr_riscv :: bool
  tr_vendor :: string

text \<open>The option \<open>--target-arch\<close>, then the module's triple, then the default.\<close>

definition option_architecture :: "string \<Rightarrow> target_arch option" where
  "option_architecture a =
     (if a = ''x86'' then Some X86 else if a = ''arm'' then Some ARM
      else if a = ''vortex'' \<or> a = ''riscv-vortex'' then Some RISCV_VORTEX
      else if a = ''hetero'' then Some Heterogeneous else None)"

definition getTargetArchitecture :: "(string \<Rightarrow> triple) \<Rightarrow> string \<Rightarrow> 'd op \<Rightarrow> target_arch" where
  "getTargetArchitecture parse targetArch m =
     (case if targetArch = ''auto'' then None else option_architecture targetArch of
        Some a \<Rightarrow> a
      | None \<Rightarrow>
          (case str_attr m ''llvm.target_triple'' of
             None \<Rightarrow> Heterogeneous
           | Some s \<Rightarrow>
               let t = parse s in
               if tr_x86 t then X86 else if tr_arm t \<or> tr_aarch64 t then ARM
               else if tr_riscv t \<and> (tr_vendor t = ''vortex'' \<or> has_attr m ''vortex.target'') then RISCV_VORTEX
               else Heterogeneous))"

section \<open>Patterns\<close>

abbreviation operand :: "'d op \<Rightarrow> nat \<Rightarrow> nat" where "operand d i \<equiv> op_operands d ! i"

text \<open>The converted type of the operation's result.\<close>

definition result_type :: "type_converter \<Rightarrow> 'd op \<Rightarrow> ('d, mtype option) rewriting" where
  "result_type conv d = do { t \<leftarrow> type_of (hd (op_results d)); State_Monad.return (conv t) }"

definition generic_prefetch :: "nat \<Rightarrow> ('d, unit) rewriting" where
  "generic_prefetch addr = do {
     rw \<leftarrow> const_i32 0;
     locality \<leftarrow> const_i32 3;
     cacheType \<leftarrow> const_i32 1;
     call0 ''llvm.prefetch.p0'' [addr, rw, locality, cacheType] }"

definition LoadEdgeOpLowering :: "type_converter \<Rightarrow> target_arch \<Rightarrow> 'd op \<Rightarrow> ('d, 'd rewrite_result) rewriting" where
  "LoadEdgeOpLowering conv arch d = do {
     rt \<leftarrow> result_type conv d;
     (case rt of
        None \<Rightarrow> State_Monad.return Failure
      | Some t \<Rightarrow> do {
          elementSize \<leftarrow> const_i64 32;
          offset \<leftarrow> create1 ''LLVM::MulOp'' i64 [operand d 1, elementSize] [];
          gep \<leftarrow> create1 ''LLVM::GEPOp'' ptr_type [operand d 0, offset] [(''elem_type'', Type_Attr t)];
          loadedValue \<leftarrow> create1 ''LLVM::LoadOp'' t [gep] [];
          (if 2 < length (op_operands d) then generic_prefetch gep else State_Monad.return ());
          State_Monad.return (Replaced [loadedValue]) }) }"

definition LoadNodeOpLowering :: "type_converter \<Rightarrow> target_arch \<Rightarrow> 'd op \<Rightarrow> ('d, 'd rewrite_result) rewriting" where
  "LoadNodeOpLowering conv arch d = do {
     rt \<leftarrow> result_type conv d;
     (case rt of
        None \<Rightarrow> State_Monad.return Failure
      | Some t \<Rightarrow>
          if str_attr d ''field_name'' = Some ''from'' then do {
            nodePtr \<leftarrow> create1 ''LLVM::ExtractValueOp'' t [operand d 0] [(''position'', Array_Attr [0])];
            State_Monad.return (Replaced [nodePtr]) }
          else if str_attr d ''field_name'' = Some ''to'' then do {
            nodePtr \<leftarrow> create1 ''LLVM::ExtractValueOp'' t [operand d 0] [(''position'', Array_Attr [1])];
            State_Monad.return (Replaced [nodePtr]) }
          else State_Monad.return Failure) }"

definition GetPaddrOpLowering :: "type_converter \<Rightarrow> target_arch \<Rightarrow> 'd op \<Rightarrow> ('d, 'd rewrite_result) rewriting" where
  "GetPaddrOpLowering conv arch d = do {
     rt \<leftarrow> result_type conv d;
     (case rt of
        None \<Rightarrow> State_Monad.return Failure
      | Some t \<Rightarrow> do {
          nullFieldName \<leftarrow> null_ptr;
          translated \<leftarrow> call1 ''cira_translate_paddr'' t [nullFieldName, operand d 0];
          State_Monad.return (Replaced [translated]) }) }"

definition emitPrefetchForTarget :: "nat \<Rightarrow> target_arch \<Rightarrow> ('d, unit) rewriting" where
  "emitPrefetchForTarget addr arch = do {
     (if arch = X86 \<or> arch = Heterogeneous then generic_prefetch addr else State_Monad.return ());
     (if arch = ARM then do {
        rw \<leftarrow> const_i32 0;
        target \<leftarrow> const_i32 3;
        stream \<leftarrow> const_i32 0;
        keep \<leftarrow> const_i32 1;
        call0 ''llvm.aarch64.prefetch.p0'' [addr, rw, target, stream, keep] }
      else State_Monad.return ());
     (if arch = RISCV_VORTEX then do {
        level \<leftarrow> const_i32 1;
        hint \<leftarrow> const_i32 0;
        call0 ''llvm.nvvm.prefetch.global'' [addr, level, hint] }
      else State_Monad.return ()) }"

definition EvictEdgeOpLowering :: "type_converter \<Rightarrow> target_arch \<Rightarrow> 'd op \<Rightarrow> ('d, 'd rewrite_result) rewriting" where
  "EvictEdgeOpLowering conv arch d = do {
     (if arch = X86 \<or> arch = Heterogeneous then call0 ''llvm.x86.sse2.clflush'' [operand d 0] else State_Monad.return ());
     (if arch = ARM then call0 ''llvm.aarch64.dc.civac'' [operand d 0] else State_Monad.return ());
     (if arch = RISCV_VORTEX then call0 ''llvm.nvvm.membar.gl'' [] else State_Monad.return ());
     State_Monad.return Erased }"

fun convert_types :: "type_converter \<Rightarrow> mtype list \<Rightarrow> mtype list option" where
  "convert_types conv [] = Some []"
| "convert_types conv (t # ts) =
     (case conv t of None \<Rightarrow> None | Some u \<Rightarrow> map_option ((#) u) (convert_types conv ts))"

definition types_of :: "nat list \<Rightarrow> ('d, mtype list) rewriting" where
  "types_of vs = State (\<lambda>s. (map (rw_types s) vs, s))"

definition CallOpLowering :: "type_converter \<Rightarrow> target_arch \<Rightarrow> 'd op \<Rightarrow> ('d, 'd rewrite_result) rewriting" where
  "CallOpLowering conv arch d = do {
     ts \<leftarrow> types_of (op_results d);
     (case convert_types conv ts of
        None \<Rightarrow> State_Monad.return Failure
      | Some resultTypes \<Rightarrow> do {
          rs \<leftarrow> create_many ''LLVM::CallOp'' resultTypes (op_operands d)
                  (case get_attr d ''callee'' of Some a \<Rightarrow> [(''callee'', a)] | None \<Rightarrow> []);
          State_Monad.return (Replaced rs) }) }"

definition AllocCxlOpLowering :: "type_converter \<Rightarrow> target_arch \<Rightarrow> 'd op \<Rightarrow> ('d, 'd rewrite_result) rewriting" where
  "AllocCxlOpLowering conv arch d = do {
     result \<leftarrow> call1 ''cira_llc_tile_alloc'' ptr_type [operand d 0];
     State_Monad.return (Replaced [result]) }"

text \<open>A load with a null type, which the converter never gives for a future, would be no operation.\<close>

definition LoadAsyncOpLowering :: "type_converter \<Rightarrow> target_arch \<Rightarrow> 'd op \<Rightarrow> ('d, 'd rewrite_result) rewriting" where
  "LoadAsyncOpLowering conv arch d = do {
     rt \<leftarrow> result_type conv d;
     emitPrefetchForTarget (operand d 0) arch;
     (case rt of
        None \<Rightarrow> State_Monad.return Failure
      | Some t \<Rightarrow> do {
          loadResult \<leftarrow> create1 ''LLVM::LoadOp'' t [operand d 0] [];
          State_Monad.return (Replaced [loadResult]) }) }"

definition StoreAsyncOpLowering :: "type_converter \<Rightarrow> target_arch \<Rightarrow> 'd op \<Rightarrow> ('d, 'd rewrite_result) rewriting" where
  "StoreAsyncOpLowering conv arch d = do {
     create0 ''LLVM::StoreOp'' [operand d 0, operand d 1] [(''nontemporal'', Unit_Attr)];
     nullPtr \<leftarrow> null_ptr;
     State_Monad.return (Replaced [nullPtr]) }"

definition FlushOpLowering :: "type_converter \<Rightarrow> target_arch \<Rightarrow> 'd op \<Rightarrow> ('d, 'd rewrite_result) rewriting" where
  "FlushOpLowering conv arch d = do { fence; State_Monad.return Erased }"

definition InstallCachelineOpLowering :: "type_converter \<Rightarrow> target_arch \<Rightarrow> 'd op \<Rightarrow> ('d, 'd rewrite_result) rewriting" where
  "InstallCachelineOpLowering conv arch d =
     (let cacheLevel = (case int_attr d ''cache_level'' of Some l \<Rightarrow> l | None \<Rightarrow> 3);
          ptr = operand d 0; sz = operand d 1
      in do {
        (if arch = X86 \<or> arch = Heterogeneous then do {
           rw \<leftarrow> const_i32 0;
           localityVal \<leftarrow> const_i32 (if cacheLevel = 1 then 3 else if cacheLevel = 2 then 2 else 1);
           cacheType \<leftarrow> const_i32 1;
           cacheLineSize \<leftarrow> const_i64 64;
           zero64 \<leftarrow> const_i64 0;
           levelArg \<leftarrow> const_i32 cacheLevel;
           call0 ''cira_install_cacheline_x86'' [ptr, sz, levelArg] }
         else State_Monad.return ());
        (if arch = RISCV_VORTEX then do {
           levelArg \<leftarrow> const_i32 cacheLevel;
           call0 ''__vortex_install_cacheline'' [ptr, sz, levelArg] }
         else State_Monad.return ());
        State_Monad.return Erased })"

definition EvictHintOpLowering :: "type_converter \<Rightarrow> target_arch \<Rightarrow> 'd op \<Rightarrow> ('d, 'd rewrite_result) rewriting" where
  "EvictHintOpLowering conv arch d = do {
     (if arch = X86 \<or> arch = Heterogeneous then
        (if 1 < length (op_operands d) then call0 ''cira_evict_hint_x86'' [operand d 0, operand d 1]
         else do {
           defaultSize \<leftarrow> const_i64 64;
           call0 ''cira_evict_hint_x86'' [operand d 0, defaultSize] })
      else State_Monad.return ());
     (if arch = RISCV_VORTEX then call0 ''llvm.nvvm.membar.gl'' [] else State_Monad.return ());
     State_Monad.return Erased }"

definition PrefetchStreamOpLowering :: "type_converter \<Rightarrow> target_arch \<Rightarrow> 'd op \<Rightarrow> ('d, 'd rewrite_result) rewriting" where
  "PrefetchStreamOpLowering conv arch d = do {
     emitPrefetchForTarget (operand d 0) arch;
     State_Monad.return Erased }"

text \<open>A constant of 64 bits with an attribute of the operation as its value.\<close>

definition const_attr :: "'d op \<Rightarrow> string \<Rightarrow> ('d, nat) rewriting" where
  "const_attr d n = create1 ''LLVM::ConstantOp'' i64 []
     (case get_attr d n of Some a \<Rightarrow> [(''value'', a)] | None \<Rightarrow> [])"

definition PrefetchIndirectOpLowering :: "type_converter \<Rightarrow> target_arch \<Rightarrow> 'd op \<Rightarrow> ('d, 'd rewrite_result) rewriting" where
  "PrefetchIndirectOpLowering conv arch d = do {
     (if arch = RISCV_VORTEX then do {
        offset \<leftarrow> const_attr d ''next_ptr_offset'';
        depth \<leftarrow> const_attr d ''depth'';
        call0 ''__vortex_prefetch_chain'' [operand d 0, offset, depth] }
      else emitPrefetchForTarget (operand d 0) arch);
     State_Monad.return Erased }"

definition FutureCreateOpLowering :: "type_converter \<Rightarrow> target_arch \<Rightarrow> 'd op \<Rightarrow> ('d, 'd rewrite_result) rewriting" where
  "FutureCreateOpLowering conv arch d = do {
     result \<leftarrow> call1 ''cira_future_alloc'' ptr_type [];
     zeroMagic \<leftarrow> const_i32 0;
     create0 ''LLVM::StoreOp'' [zeroMagic, result] [(''alignment'', Int_Attr 64 64)];
     State_Monad.return (Replaced [result]) }"

definition FutureAwaitOpLowering :: "type_converter \<Rightarrow> target_arch \<Rightarrow> 'd op \<Rightarrow> ('d, 'd rewrite_result) rewriting" where
  "FutureAwaitOpLowering conv arch d = do {
     rt \<leftarrow> result_type conv d;
     (case rt of
        None \<Rightarrow> State_Monad.return Failure
      | Some t \<Rightarrow> do {
          result \<leftarrow> call1 ''cira_future_await'' ptr_type [operand d 0];
          loadResult \<leftarrow> create1 ''LLVM::LoadOp'' t [result] [];
          State_Monad.return (Replaced [loadResult]) }) }"

definition BarrierOpLowering :: "type_converter \<Rightarrow> target_arch \<Rightarrow> 'd op \<Rightarrow> ('d, 'd rewrite_result) rewriting" where
  "BarrierOpLowering conv arch d = do { fence; State_Monad.return Erased }"

definition ReleaseOpLowering :: "type_converter \<Rightarrow> target_arch \<Rightarrow> 'd op \<Rightarrow> ('d, 'd rewrite_result) rewriting" where
  "ReleaseOpLowering conv arch d = do {
     call0 ''cira_llc_tile_free'' [operand d 0];
     State_Monad.return Erased }"

definition PhaseBoundaryOpLowering :: "type_converter \<Rightarrow> target_arch \<Rightarrow> 'd op \<Rightarrow> ('d, 'd rewrite_result) rewriting" where
  "PhaseBoundaryOpLowering conv arch d = do {
     fence;
     (if has_attr d ''phase_name'' then call0 ''cira_phase_barrier'' [] else call0 ''cira_phase_barrier'' []);
     fence;
     State_Monad.return Erased }"

text \<open>The first block of the body.\<close>

definition body_ops :: "'d op \<Rightarrow> 'd op list" where
  "body_ops d = (case concat (take 1 (op_regions d)) of [] \<Rightarrow> [] | b # bs \<Rightarrow> blk_ops b)"

definition body_block_args :: "'d op \<Rightarrow> nat list" where
  "body_block_args d = (case concat (take 1 (op_regions d)) of [] \<Rightarrow> [] | b # bs \<Rightarrow> blk_args b)"

text \<open>Cloning a body operation by operation with nothing mapped; the values it yields are collected.\<close>

fun clone_body :: "'d op list \<Rightarrow> ('d, nat list) rewriting" where
  "clone_body [] = State_Monad.return []"
| "clone_body (b # bs) =
     (if isa b [''YieldOp''] then do {
        results \<leftarrow> clone_body bs;
        State_Monad.return (op_operands b @ results) }
      else do {
        clone_into b [];
        clone_body bs })"

definition SpeculateOpLowering :: "type_converter \<Rightarrow> target_arch \<Rightarrow> 'd op \<Rightarrow> ('d, 'd rewrite_result) rewriting" where
  "SpeculateOpLowering conv arch d = do {
     results \<leftarrow> clone_body (body_ops d);
     State_Monad.return (Replaced results) }"

definition StreamCreateIndirectOpLowering :: "type_converter \<Rightarrow> target_arch \<Rightarrow> 'd op \<Rightarrow> ('d, 'd rewrite_result) rewriting" where
  "StreamCreateIndirectOpLowering conv arch d = State_Monad.return (Replaced [operand d 0])"

definition PrefetchChainOpLowering :: "type_converter \<Rightarrow> target_arch \<Rightarrow> 'd op \<Rightarrow> ('d, 'd rewrite_result) rewriting" where
  "PrefetchChainOpLowering conv arch d = do {
     (if arch = RISCV_VORTEX then do {
        depth \<leftarrow> const_attr d ''depth'';
        call0 ''__vortex_prefetch_chain_kernel'' [operand d 0, depth] }
      else State_Monad.return ());
     State_Monad.return Erased }"

definition PeekStreamOpLowering :: "type_converter \<Rightarrow> target_arch \<Rightarrow> 'd op \<Rightarrow> ('d, 'd rewrite_result) rewriting" where
  "PeekStreamOpLowering conv arch d = do {
     rt \<leftarrow> result_type conv d;
     (case rt of
        None \<Rightarrow> State_Monad.return Failure
      | Some t \<Rightarrow> do {
          loadResult \<leftarrow> create1 ''LLVM::LoadOp'' t [operand d 0] [];
          State_Monad.return (Replaced [loadResult]) }) }"

definition AdvanceStreamOpLowering :: "type_converter \<Rightarrow> target_arch \<Rightarrow> 'd op \<Rightarrow> ('d, 'd rewrite_result) rewriting" where
  "AdvanceStreamOpLowering conv arch d = State_Monad.return Erased"

fun clone_each :: "'d op list \<Rightarrow> ('d, unit) rewriting" where
  "clone_each [] = State_Monad.return ()"
| "clone_each (b # bs) = do { clone_into b []; clone_each bs }"

definition OffloadStartOpLowering :: "type_converter \<Rightarrow> target_arch \<Rightarrow> 'd op \<Rightarrow> ('d, 'd rewrite_result) rewriting" where
  "OffloadStartOpLowering conv arch d = do {
     clone_each (body_ops d);
     State_Monad.return Erased }"

definition Type2CacheLoadOpLowering :: "type_converter \<Rightarrow> target_arch \<Rightarrow> 'd op \<Rightarrow> ('d, 'd rewrite_result) rewriting" where
  "Type2CacheLoadOpLowering conv arch d = do {
     one \<leftarrow> const_i64 1;
     stateAlloca \<leftarrow> create1 ''LLVM::AllocaOp'' ptr_type [one] [(''elem_type'', Type_Attr i8)];
     result \<leftarrow> call1 ''cira_type2_cache_load'' ptr_type [operand d 0, operand d 0, operand d 1, stateAlloca];
     (if arch = RISCV_VORTEX then do {
        offset \<leftarrow> const_i64 0;
        depth \<leftarrow> const_i64 4;
        call0 ''__vortex_prefetch_chain'' [operand d 0, offset, depth] }
      else State_Monad.return ());
     State_Monad.return (Replaced [result]) }"

text \<open>The operand's type is the one after conversion.\<close>

definition operand_type :: "type_converter \<Rightarrow> nat \<Rightarrow> ('d, mtype) rewriting" where
  "operand_type conv v = do {
     t \<leftarrow> type_of v;
     State_Monad.return (case conv t of Some u \<Rightarrow> u | None \<Rightarrow> t) }"

definition Type2CacheStoreOpLowering :: "type_converter \<Rightarrow> target_arch \<Rightarrow> 'd op \<Rightarrow> ('d, 'd rewrite_result) rewriting" where
  "Type2CacheStoreOpLowering conv arch d = do {
     one \<leftarrow> const_i64 1;
     t \<leftarrow> operand_type conv (operand d 0);
     valAlloca \<leftarrow> create1 ''LLVM::AllocaOp'' ptr_type [one] [(''elem_type'', Type_Attr t)];
     create0 ''LLVM::StoreOp'' [operand d 0, valAlloca] [];
     sz \<leftarrow> const_i64 8;
     call0 ''cira_type2_cache_store'' [operand d 1, operand d 1, valAlloca, sz];
     nullPtr \<leftarrow> null_ptr;
     State_Monad.return (Replaced [nullPtr]) }"

definition Type2MemLoadOpLowering :: "type_converter \<Rightarrow> target_arch \<Rightarrow> 'd op \<Rightarrow> ('d, 'd rewrite_result) rewriting" where
  "Type2MemLoadOpLowering conv arch d = do {
     rt \<leftarrow> result_type conv d;
     (case rt of
        None \<Rightarrow> State_Monad.return Failure
      | Some t \<Rightarrow> do {
          gep \<leftarrow> create1 ''LLVM::GEPOp'' ptr_type [operand d 0, operand d 1] [(''elem_type'', Type_Attr t)];
          loadResult \<leftarrow> create1 ''LLVM::LoadOp'' t [gep] [(''nontemporal'', Unit_Attr)];
          State_Monad.return (Replaced [loadResult]) }) }"

definition Type2MemStoreOpLowering :: "type_converter \<Rightarrow> target_arch \<Rightarrow> 'd op \<Rightarrow> ('d, 'd rewrite_result) rewriting" where
  "Type2MemStoreOpLowering conv arch d = do {
     t \<leftarrow> operand_type conv (operand d 0);
     gep \<leftarrow> create1 ''LLVM::GEPOp'' ptr_type [operand d 1, operand d 2] [(''elem_type'', Type_Attr t)];
     create0 ''LLVM::StoreOp'' [operand d 0, gep] [(''nontemporal'', Unit_Attr)];
     State_Monad.return Erased }"

definition Type2DrainOpLowering :: "type_converter \<Rightarrow> target_arch \<Rightarrow> 'd op \<Rightarrow> ('d, 'd rewrite_result) rewriting" where
  "Type2DrainOpLowering conv arch d = do {
     nullCtrl \<leftarrow> null_ptr;
     call0 ''cira_type2_drain_delay_buffer'' [nullCtrl];
     fence;
     State_Monad.return Erased }"

text \<open>The operands of an offload are stored into an array of pointers.\<close>

fun pack_operands :: "nat \<Rightarrow> nat \<Rightarrow> nat list \<Rightarrow> ('d, unit) rewriting" where
  "pack_operands opsArray i [] = State_Monad.return ()"
| "pack_operands opsArray i (x # xs) = do {
     idx \<leftarrow> const_i64 (int i);
     slot \<leftarrow> create1 ''LLVM::GEPOp'' ptr_type [opsArray, idx] [(''elem_type'', Type_Attr ptr_type)];
     create0 ''LLVM::StoreOp'' [x, slot] [];
     pack_operands opsArray (Suc i) xs }"

text \<open>Cloning the body through one mapping, with the yielded values looked up.\<close>

fun inline_body :: "'d op list \<Rightarrow> (nat \<times> nat) list \<Rightarrow> ('d, nat list) rewriting" where
  "inline_body [] mapping = State_Monad.return []"
| "inline_body (b # bs) mapping =
     (if isa b [''YieldOp''] then do {
        results \<leftarrow> inline_body bs mapping;
        State_Monad.return (map (lookup mapping) (op_operands b) @ results) }
      else do {
        mapping' \<leftarrow> clone_into b mapping;
        inline_body bs mapping' })"

definition submit_offload :: "'d op \<Rightarrow> ('d, unit) rewriting" where
  "submit_offload d = do {
     completionPtr \<leftarrow> call1 ''cira_future_alloc'' ptr_type [];
     zeroMagic \<leftarrow> const_i32 0;
     create0 ''LLVM::StoreOp'' [zeroMagic, completionPtr] [(''alignment'', Int_Attr 64 64)];
     (if op_operands d \<noteq> [] then do {
        numOps \<leftarrow> const_i32 (int (length (op_operands d)));
        one64 \<leftarrow> const_i64 (int (length (op_operands d)));
        opsArray \<leftarrow> create1 ''LLVM::AllocaOp'' ptr_type [one64] [(''elem_type'', Type_Attr ptr_type)];
        pack_operands opsArray 0 (op_operands d);
        targetFuncPtr \<leftarrow> (if has_attr d ''target'' then call1 ''cira_get_device_func_addr'' ptr_type [] else null_ptr);
        call0 ''cira_offload_submit'' [targetFuncPtr, opsArray, numOps, completionPtr] }
      else do {
        nullOps \<leftarrow> null_ptr;
        zeroOps \<leftarrow> const_i32 0;
        nullFunc \<leftarrow> null_ptr;
        call0 ''cira_offload_submit'' [nullFunc, nullOps, zeroOps, completionPtr] }) }"

definition OffloadRegionOpLowering :: "type_converter \<Rightarrow> target_arch \<Rightarrow> 'd op \<Rightarrow> ('d, 'd rewrite_result) rewriting" where
  "OffloadRegionOpLowering conv arch d = do {
     (if arch = RISCV_VORTEX \<or> arch = Heterogeneous then submit_offload d else State_Monad.return ());
     results \<leftarrow> inline_body (body_ops d) (zip (body_block_args d) (op_operands d));
     State_Monad.return (Replaced results) }"

definition GenericOffloadOpLowering :: "type_converter \<Rightarrow> target_arch \<Rightarrow> 'd op \<Rightarrow> ('d, 'd rewrite_result) rewriting" where
  "GenericOffloadOpLowering conv arch d = State_Monad.return Erased"

section \<open>The pattern of an operation\<close>

type_synonym 'd pattern = "target_arch \<Rightarrow> 'd op \<Rightarrow> ('d, 'd rewrite_result) rewriting"

definition populateCiraToLLVMConversionPatterns :: "type_converter \<Rightarrow> (string \<times> 'd pattern) list" where
  "populateCiraToLLVMConversionPatterns base =
     (let conv = addCiraLLVMTypeConversions base in
      [(''LoadEdgeOp'', LoadEdgeOpLowering conv), (''EvictEdgeOp'', EvictEdgeOpLowering conv),
       (''LoadNodeOp'', LoadNodeOpLowering conv), (''GetPaddrOp'', GetPaddrOpLowering conv),
       (''CallOp'', CallOpLowering conv), (''AllocCxlOp'', AllocCxlOpLowering conv),
       (''LoadAsyncOp'', LoadAsyncOpLowering conv), (''StoreAsyncOp'', StoreAsyncOpLowering conv),
       (''FlushOp'', FlushOpLowering conv), (''InstallCachelineOp'', InstallCachelineOpLowering conv),
       (''EvictHintOp'', EvictHintOpLowering conv), (''PrefetchStreamOp'', PrefetchStreamOpLowering conv),
       (''PrefetchIndirectOp'', PrefetchIndirectOpLowering conv), (''FutureCreateOp'', FutureCreateOpLowering conv),
       (''FutureAwaitOp'', FutureAwaitOpLowering conv), (''BarrierOp'', BarrierOpLowering conv),
       (''ReleaseOp'', ReleaseOpLowering conv), (''PhaseBoundaryOp'', PhaseBoundaryOpLowering conv),
       (''SpeculateOp'', SpeculateOpLowering conv), (''StreamCreateIndirectOp'', StreamCreateIndirectOpLowering conv),
       (''PrefetchChainOp'', PrefetchChainOpLowering conv), (''PeekStreamOp'', PeekStreamOpLowering conv),
       (''AdvanceStreamOp'', AdvanceStreamOpLowering conv), (''OffloadStartOp'', OffloadStartOpLowering conv),
       (''OffloadRegionOp'', OffloadRegionOpLowering conv), (''Type2CacheLoadOp'', Type2CacheLoadOpLowering conv),
       (''Type2CacheStoreOp'', Type2CacheStoreOpLowering conv), (''Type2MemLoadOp'', Type2MemLoadOpLowering conv),
       (''Type2MemStoreOp'', Type2MemStoreOpLowering conv), (''Type2DrainOp'', Type2DrainOpLowering conv),
       (''OffloadOp'', GenericOffloadOpLowering conv)])"

text \<open>The operations of the dialect (\<^verbatim>\<open>include/Dialect/CiraOps.td\<close>): those with a pattern, and the yield.\<close>

definition cira_ops :: "string list" where
  "cira_ops = [''LoadEdgeOp'', ''EvictEdgeOp'', ''LoadNodeOp'', ''GetPaddrOp'', ''CallOp'', ''AllocCxlOp'', ''LoadAsyncOp'',
     ''StoreAsyncOp'', ''FlushOp'', ''InstallCachelineOp'', ''EvictHintOp'', ''PrefetchStreamOp'', ''PrefetchIndirectOp'',
     ''FutureCreateOp'', ''FutureAwaitOp'', ''BarrierOp'', ''ReleaseOp'', ''PhaseBoundaryOp'', ''SpeculateOp'',
     ''StreamCreateIndirectOp'', ''PrefetchChainOp'', ''PeekStreamOp'', ''AdvanceStreamOp'', ''OffloadStartOp'',
     ''OffloadRegionOp'', ''Type2CacheLoadOp'', ''Type2CacheStoreOp'', ''Type2MemLoadOp'', ''Type2MemStoreOp'',
     ''Type2DrainOp'', ''OffloadOp'', ''YieldOp'']"

end
