(* ===== verification/Partial_Conversion.thy ===== *)
theory Partial_Conversion
  imports Rewriter
begin

text \<open>
  MLIR's partial conversion, as its documentation describes it and the passes call it. The operations of a
  module are visited in order. One that is not legal for the target is given to the patterns for its
  kind; what a pattern creates, at any depth, must be legal or made so by patterns that are not being
  applied already, otherwise the pattern is undone and the next is tried. An operation that was there before
  and that no pattern converts is an error if it is illegal, and stays if nothing is known of it. In the end
  the uses of replaced values are replaced. Casts between a value and its converted type are left out, and
  folding, which is MLIR's own.
\<close>

section \<open>The driver\<close>

datatype legality = Legal | Illegal | Unknown

type_synonym 'd target = "(nat \<Rightarrow> mtype) \<Rightarrow> 'd op \<Rightarrow> legality"
type_synonym 'd rewrite_pattern = "string \<times> ('d op \<Rightarrow> ('d, 'd rewrite_result) rewriting)"

text \<open>The rewriter with what was replaced so far.\<close>

type_synonym 'd conversion = "'d rewriter \<times> (nat \<times> nat) list"

text \<open>The conversion stops when an operation is replaced by another number of values than it has.\<close>

datatype 'a legalized = Legalized 'a | Not_Legalized | Stopped

lemma smaller_parts:
  fixes d :: "'d op" and b :: "'d block"
  shows "size_list (size_list size) (op_regions d) < Suc (size d + n)" "size_list size (blk_ops b) < Suc (size b + n)"
  by (cases d, simp) (cases b, simp)

text \<open>One pattern on one operation: no match, an error, new operations, or the operation changed.\<close>

datatype 'd pattern_outcome = No_Match | Mismatch | Creates "'d op list" "'d conversion" | Updates "'d op" "'d conversion"

definition run_pattern :: "('d op \<Rightarrow> ('d, 'd rewrite_result) rewriting) \<Rightarrow> 'd op \<Rightarrow> 'd conversion \<Rightarrow> 'd pattern_outcome" where
  "run_pattern p d st =
     (case run_state (p d) ((fst st)\<lparr>rw_ops := []\<rparr>) of (r, s') \<Rightarrow>
        (case r of
           Failure \<Rightarrow> No_Match
         | Erased \<Rightarrow> if op_results d = [] then Creates (rw_ops s') (s', snd st) else Mismatch
         | Replaced vs \<Rightarrow>
             if length vs = length (op_results d) then Creates (rw_ops s') (s', zip (op_results d) vs @ snd st) else Mismatch
         | Updated e \<Rightarrow> Updates e (s', snd st)))"

text \<open>
  \<open>was_there\<close> says that the operations were in the module before. \<open>tried\<close> are the patterns an operation
  has been given to in vain; they are available for what the other patterns create.
\<close>

function try_patterns :: "'d target \<Rightarrow> 'd rewrite_pattern list \<Rightarrow> 'd rewrite_pattern list \<Rightarrow> 'd op \<Rightarrow> 'd conversion \<Rightarrow>
    ('d op list \<times> 'd conversion) legalized"
and legalize_op :: "'d target \<Rightarrow> 'd rewrite_pattern list \<Rightarrow> 'd op \<Rightarrow> 'd conversion \<Rightarrow>
    ('d op list \<times> 'd conversion) legalized"
and convert_ops :: "bool \<Rightarrow> 'd target \<Rightarrow> 'd rewrite_pattern list \<Rightarrow> 'd op list \<Rightarrow> 'd conversion \<Rightarrow>
    ('d op list \<times> 'd conversion) legalized"
and convert_blocks :: "bool \<Rightarrow> 'd target \<Rightarrow> 'd rewrite_pattern list \<Rightarrow> 'd block list \<Rightarrow> 'd conversion \<Rightarrow>
    ('d block list \<times> 'd conversion) legalized"
and convert_regions :: "bool \<Rightarrow> 'd target \<Rightarrow> 'd rewrite_pattern list \<Rightarrow> 'd block list list \<Rightarrow> 'd conversion \<Rightarrow>
    ('d block list list \<times> 'd conversion) legalized" where
  "try_patterns T tried [] d st = Not_Legalized"
| "try_patterns T tried (p # ps) d st =
     (if fst p \<noteq> op_kind d then try_patterns T (tried @ [p]) ps d st
      else case run_pattern (snd p) d st of
             No_Match \<Rightarrow> try_patterns T (tried @ [p]) ps d st
           | Mismatch \<Rightarrow> Stopped
           | Creates new st1 \<Rightarrow>
               (case convert_ops False T (tried @ ps) new st1 of
                  Not_Legalized \<Rightarrow> try_patterns T (tried @ [p]) ps d st
                | Stopped \<Rightarrow> Stopped | Legalized x \<Rightarrow> Legalized x)
           | Updates e st1 \<Rightarrow>
               (case legalize_op T (tried @ ps) e st1 of
                  Not_Legalized \<Rightarrow> try_patterns T (tried @ [p]) ps d st
                | Stopped \<Rightarrow> Stopped | Legalized x \<Rightarrow> Legalized x))"
| "legalize_op T ps d st =
     (if T (rw_types (fst st)) d = Legal then Legalized ([d], st) else try_patterns T [] ps d st)"
| "convert_ops was_there T ps [] st = Legalized ([], st)"
| "convert_ops was_there T ps (d # ds) st =
     (case (if T (rw_types (fst st)) d = Legal then Not_Legalized else try_patterns T [] ps d st) of
        Stopped \<Rightarrow> Stopped
      | Legalized (new, st1) \<Rightarrow>
          (case convert_ops was_there T ps ds st1 of
             Legalized (es, st2) \<Rightarrow> Legalized (new @ es, st2) | Not_Legalized \<Rightarrow> Not_Legalized | Stopped \<Rightarrow> Stopped)
      | Not_Legalized \<Rightarrow>
          if T (rw_types (fst st)) d = Legal \<or> T (rw_types (fst st)) d = Unknown \<and> was_there
          then (case convert_regions was_there T ps (op_regions d) st of
                  Not_Legalized \<Rightarrow> Not_Legalized
                | Stopped \<Rightarrow> Stopped
                | Legalized (rs, st1) \<Rightarrow>
                    (case convert_ops was_there T ps ds st1 of
                       Not_Legalized \<Rightarrow> Not_Legalized
                     | Stopped \<Rightarrow> Stopped
                     | Legalized (es, st2) \<Rightarrow>
                         Legalized (Op (op_id d) (op_kind d) (op_operands d) (op_results d) (op_attrs d) rs # es, st2)))
          else Not_Legalized)"
| "convert_blocks was_there T ps [] st = Legalized ([], st)"
| "convert_blocks was_there T ps (b # bs) st =
     (case convert_ops was_there T ps (blk_ops b) st of
        Not_Legalized \<Rightarrow> Not_Legalized
      | Stopped \<Rightarrow> Stopped
      | Legalized (es, st1) \<Rightarrow>
          (case convert_blocks was_there T ps bs st1 of
             Not_Legalized \<Rightarrow> Not_Legalized | Stopped \<Rightarrow> Stopped
           | Legalized (cs, st2) \<Rightarrow> Legalized (Block (blk_args b) es # cs, st2)))"
| "convert_regions was_there T ps [] st = Legalized ([], st)"
| "convert_regions was_there T ps (r # rs) st =
     (case convert_blocks was_there T ps r st of
        Not_Legalized \<Rightarrow> Not_Legalized
      | Stopped \<Rightarrow> Stopped
      | Legalized (cs, st1) \<Rightarrow>
          (case convert_regions was_there T ps rs st1 of
             Not_Legalized \<Rightarrow> Not_Legalized | Stopped \<Rightarrow> Stopped | Legalized (qs, st2) \<Rightarrow> Legalized (cs # qs, st2)))"
  by pat_completeness auto
termination
  by (relation "measures
    [\<lambda>x. case x of Inl (Inl (_, tried, ps, _, _)) \<Rightarrow> length tried + length ps | Inl (Inr (_, ps, _, _)) \<Rightarrow> length ps
         | Inr (Inl (_, _, ps, _, _)) \<Rightarrow> length ps | Inr (Inr (Inl (_, _, ps, _, _))) \<Rightarrow> length ps
         | Inr (Inr (Inr (_, _, ps, _, _))) \<Rightarrow> length ps,
     \<lambda>x. case x of Inl (Inl (_, _, _, d, _)) \<Rightarrow> size d | Inl (Inr (_, _, d, _)) \<Rightarrow> size d
         | Inr (Inl (_, _, _, ds, _)) \<Rightarrow> size_list size ds | Inr (Inr (Inl (_, _, _, bs, _))) \<Rightarrow> size_list size bs
         | Inr (Inr (Inr (_, _, _, rs, _))) \<Rightarrow> size_list (size_list size) rs,
     \<lambda>x. case x of Inl (Inl (_, _, ps, _, _)) \<Rightarrow> length ps | Inl (Inr (_, ps, _, _)) \<Rightarrow> Suc (length ps) | _ \<Rightarrow> 0]")
    (auto simp: smaller_parts)

text \<open>
  Induction over a conversion: what a pattern creates is converted with fewer patterns, whatever it is, and
  the parts of an operation with the same.
\<close>

lemma conversion_induct [case_names no_pattern pattern one no_op op no_block block no_region region]:
  fixes P1 :: "'d rewrite_pattern list \<Rightarrow> 'd rewrite_pattern list \<Rightarrow> 'd op \<Rightarrow> 'd conversion \<Rightarrow> bool"
    and P3 :: "bool \<Rightarrow> 'd rewrite_pattern list \<Rightarrow> 'd op list \<Rightarrow> 'd conversion \<Rightarrow> bool"
  assumes "\<And>tried d st. P1 tried [] d st"
    and "\<And>tried p ps d st. P1 (tried @ [p]) ps d st \<Longrightarrow> (\<And>new st1. P3 False (tried @ ps) new st1) \<Longrightarrow>
      (\<And>e st1. P2 (tried @ ps) e st1) \<Longrightarrow> P1 tried (p # ps) d st"
    and "\<And>ps d st. P1 [] ps d st \<Longrightarrow> P2 ps d st"
    and "\<And>w ps st. P3 w ps [] st"
    and "\<And>w ps d ds st. P1 [] ps d st \<Longrightarrow> P5 w ps (op_regions d) st \<Longrightarrow> (\<And>st1. P3 w ps ds st1) \<Longrightarrow> P3 w ps (d # ds) st"
    and "\<And>w ps st. P4 w ps [] st"
    and "\<And>w ps b bs st. P3 w ps (blk_ops b) st \<Longrightarrow> (\<And>st1. P4 w ps bs st1) \<Longrightarrow> P4 w ps (b # bs) st"
    and "\<And>w ps st. P5 w ps [] st"
    and "\<And>w ps r rs st. P4 w ps r st \<Longrightarrow> (\<And>st1. P5 w ps rs st1) \<Longrightarrow> P5 w ps (r # rs) st"
  shows "P1 tried ps d st" "P2 ps d st" "P3 w ps ds st" "P4 w ps bs st" "P5 w ps rs st"
proof -
  have all: "P1 tried ps d st \<and> (\<forall>w ds. P3 w (tried @ ps) ds st)" for tried ps d st
  proof (induction "length tried + length ps" arbitrary: tried ps d st rule: less_induct)
    case less
    have P1: "P1 tried' ps' d st" if "length tried' + length ps' = length tried + length ps" for tried' ps' d st
      using that
    proof (induction ps' arbitrary: tried')
      case (Cons p ps')
      have few: "P3 w (tried' @ ps') ds st1" for w ds st1
        using less [of "tried'" ps'] Cons.prems by simp
      have "P1 [] (tried' @ ps') e st1" for e st1
        using less [of "[]" "tried' @ ps'"] Cons.prems by simp
      then show ?case using Cons few by (intro assms(2) assms(3)) simp_all
    qed (rule assms(1))
    let ?ps = "tried @ ps"
    have one: "P1 [] ?ps d st" for d st using P1 by simp
    have P4: "P4 w ?ps r st" if "\<forall>b \<in> set r. \<forall>st. P3 w ?ps (blk_ops b) st" for w r st
      using that by (induction r arbitrary: st) (auto intro!: assms(6,7) simp del: split_paired_All)
    have P5: "P5 w ?ps rs st" if "\<forall>r \<in> set rs. \<forall>b \<in> set r. \<forall>st. P3 w ?ps (blk_ops b) st" for w rs st
      using that by (induction rs arbitrary: st) (auto intro!: assms(8,9) P4 simp del: split_paired_All)
    have P3: "P3 w ?ps ds st" if "\<forall>d \<in> set ds. \<forall>st. P5 w ?ps (op_regions d) st" for w ds st
      using that by (induction ds arbitrary: st) (auto intro!: assms(4,5) one simp del: split_paired_All)
    have "\<forall>st. P5 w ?ps (op_regions d) st" "\<forall>st. P3 w ?ps (blk_ops b) st" for w and d :: "'d op" and b :: "'d block"
      by (induction d and b rule: pre_op_pre_block.induct) (auto intro: P3 P5)
    then show ?case using P1 P3 by simp
  qed
  show "P1 tried ps d st" using all by blast
  then have one: "P1 [] ps d st" for d st using all by blast
  then show "P2 ps d st" by (rule assms(3))
  show P3: "P3 w ps ds st" for ds st using all [of "[]" ps] by simp
  show P4: "P4 w ps bs st" for bs st by (induction bs arbitrary: st) (simp_all add: assms(6,7) P3)
  show "P5 w ps rs st" by (induction rs arbitrary: st) (simp_all add: assms(8,9) P4)
qed

declare try_patterns.simps [simp del] legalize_op.simps [simp del] convert_ops.simps [simp del]
  convert_blocks.simps [simp del] convert_regions.simps [simp del]

lemmas convert_Nil [simp] = try_patterns.simps(1) convert_ops.simps(1) convert_blocks.simps(1) convert_regions.simps(1)

lemma try_patterns_ConsE:
  assumes "try_patterns T tried (p # ps) d st = Legalized x"
  obtains (later) "try_patterns T (tried @ [p]) ps d st = Legalized x"
    | (created) new st1 where "fst p = op_kind d" "run_pattern (snd p) d st = Creates new st1"
      "convert_ops False T (tried @ ps) new st1 = Legalized x"
    | (updated) e st1 where "fst p = op_kind d" "run_pattern (snd p) d st = Updates e st1"
      "legalize_op T (tried @ ps) e st1 = Legalized x"
  using assms by (auto simp: try_patterns.simps(2) [of T tried p ps] split: if_split_asm legalized.splits pattern_outcome.splits)

lemma no_pattern_matches: "\<forall>p \<in> set ps. fst p \<noteq> op_kind d \<Longrightarrow> try_patterns T tried ps d st = Not_Legalized"
  by (induction ps arbitrary: tried) (simp_all add: try_patterns.simps(2))

lemma convert_ops_ConsE:
  assumes "convert_ops w T ps (d # ds) st = Legalized (es, st')"
  obtains (replaced) new st1 es' where "T (rw_types (fst st)) d \<noteq> Legal" "try_patterns T [] ps d st = Legalized (new, st1)"
      "convert_ops w T ps ds st1 = Legalized (es', st')" "es = new @ es'"
    | (kept) rs st1 es' where "T (rw_types (fst st)) d = Legal \<or>
        T (rw_types (fst st)) d = Unknown \<and> w \<and> try_patterns T [] ps d st = Not_Legalized"
      "convert_regions w T ps (op_regions d) st = Legalized (rs, st1)"
      "convert_ops w T ps ds st1 = Legalized (es', st')"
      "es = Op (op_id d) (op_kind d) (op_operands d) (op_results d) (op_attrs d) rs # es'"
  using assms by (auto simp: convert_ops.simps(2) [of w T ps] split: if_split_asm legalized.splits)

lemma convert_blocks_ConsE:
  assumes "convert_blocks w T ps (b # bs) st = Legalized (cs, st')"
  obtains es st1 cs' where "convert_ops w T ps (blk_ops b) st = Legalized (es, st1)"
    "convert_blocks w T ps bs st1 = Legalized (cs', st')" "cs = Block (blk_args b) es # cs'"
  using assms by (auto simp: convert_blocks.simps(2) split: legalized.splits)

lemma convert_regions_ConsE:
  assumes "convert_regions w T ps (r # rs) st = Legalized (qs, st')"
  obtains cs st1 qs' where "convert_blocks w T ps r st = Legalized (cs, st1)"
    "convert_regions w T ps rs st1 = Legalized (qs', st')" "qs = cs # qs'"
  using assms by (auto simp: convert_regions.simps(2) split: legalized.splits)

text \<open>The uses of a replaced value become uses of what replaced it, which may be replaced too.\<close>

fun resolve :: "nat \<Rightarrow> (nat \<times> nat) list \<Rightarrow> nat \<Rightarrow> nat" where
  "resolve 0 \<sigma> v = v"
| "resolve (Suc n) \<sigma> v = (case map_of \<sigma> v of None \<Rightarrow> v | Some u \<Rightarrow> resolve n \<sigma> u)"

definition start_rewriter :: "(nat \<Rightarrow> mtype) \<Rightarrow> 'd op \<Rightarrow> 'd rewriter" where
  "start_rewriter ty m = \<lparr>rw_value = next_value m, rw_id = next_op m, rw_types = ty, rw_ops = []\<rparr>"

definition applyPartialConversion :: "'d target \<Rightarrow> 'd rewrite_pattern list \<Rightarrow> (nat \<Rightarrow> mtype) \<Rightarrow> 'd op \<Rightarrow> 'd op option" where
  "applyPartialConversion T ps ty m =
     (case convert_ops True T ps [m] (start_rewriter ty m, []) of
        Legalized ([m'], s, \<sigma>) \<Rightarrow> Some (rename_op (resolve (length \<sigma>) \<sigma>) (\<lambda>i. i) m')
      | _ \<Rightarrow> None)"

section \<open>Clones have the shape of what they clone\<close>

text \<open>An operation without its numbers and values.\<close>

definition shape_op :: "'d op \<Rightarrow> 'd op" where "shape_op = rename_op (\<lambda>_. 0) (\<lambda>_. 0)"

lemma rename_rename:
  fixes d :: "'d op" and b :: "'d block"
  shows "rename_op \<rho> \<iota> (rename_op \<rho>' \<iota>' d) = rename_op (\<rho> \<circ> \<rho>') (\<iota> \<circ> \<iota>') d"
    "rename_block \<rho> \<iota> (rename_block \<rho>' \<iota>' b) = rename_block (\<rho> \<circ> \<rho>') (\<iota> \<circ> \<iota>') b"
  by (induction d and b rule: strip_op_strip_block.induct) simp_all

lemma rename_id:
  fixes d :: "'d op" and b :: "'d block"
  shows "rename_op (\<lambda>v. v) (\<lambda>i. i) d = d" "rename_block (\<lambda>v. v) (\<lambda>i. i) b = b"
  by (induction d and b rule: strip_op_strip_block.induct) (simp_all add: map_idI)

lemma shape_rename: "shape_op (rename_op \<rho> \<iota> d) = shape_op d"
  by (simp add: shape_op_def rename_rename comp_def)

lemma shape_clone: "shape_op (fst (clone d \<beta>)) = shape_op d"
  by (cases d) (simp add: clone_def Let_def shape_op_def rename_rename comp_def split: prod.splits)

lemma shape_simps [simp]:
  "op_kind (shape_op d) = op_kind d" "length (op_operands (shape_op d)) = length (op_operands d)"
  "length (op_results (shape_op d)) = length (op_results d)" "op_attrs (shape_op d) = op_attrs d"
  by (cases d; simp add: shape_op_def)+

lemma pre_op_rename:
  fixes d :: "'d op" and b :: "'d block"
  shows "pre_op (rename_op \<rho> \<iota> d) = map (rename_op \<rho> \<iota>) (pre_op d)"
    "pre_block (rename_block \<rho> \<iota> b) = map (rename_op \<rho> \<iota>) (pre_block b)"
  by (induction d and b rule: strip_op_strip_block.induct) (simp_all add: map_concat comp_def cong: map_cong)

definition same_shape :: "'d op \<Rightarrow> 'd op \<Rightarrow> bool" where "same_shape b c \<longleftrightarrow> shape_op c = shape_op b"

section \<open>Targets that look at the kind\<close>

text \<open>A pattern that does not change operations in place.\<close>

definition replacing :: "'d rewrite_pattern \<Rightarrow> bool" where
  "replacing p \<longleftrightarrow> (\<forall>d st e st'. run_pattern (snd p) d st \<noteq> Updates e st')"

text \<open>Every operation of a tree is legal.\<close>

definition all_legal :: "'d target \<Rightarrow> 'd op \<Rightarrow> bool" where
  "all_legal T d \<longleftrightarrow> (\<forall>ty. list_all (\<lambda>e. T ty e = Legal) (pre_op d))"

abbreviation everywhere :: "('d op \<Rightarrow> bool) \<Rightarrow> 'd op \<Rightarrow> bool" where "everywhere W d \<equiv> list_all W (pre_op d)"

lemma everywhere_op:
  "everywhere W d \<longleftrightarrow> W d \<and> list_all (list_all (\<lambda>b. list_all (everywhere W) (blk_ops b))) (op_regions d)"
proof -
  have "set (pre_block b) = (\<Union>c \<in> set (blk_ops b). set (pre_op c))" for b :: "'a block" by (cases b) simp
  then show ?thesis by (cases d) (auto simp: list_all_iff)
qed

abbreviation blocks_legal :: "'d target \<Rightarrow> 'd block list \<Rightarrow> bool" where
  "blocks_legal T bs \<equiv> list_all (\<lambda>b. list_all (all_legal T) (blk_ops b)) bs"

locale kind_target =
  fixes T :: "'d target"
  assumes by_kind: "op_kind d = op_kind e \<Longrightarrow> T ty d = T ty' e"
begin

lemma all_legal_op:
  "all_legal T (Op i k xs rs as bs) \<longleftrightarrow> T ty (Op i k ys qs cs es) = Legal \<and> list_all (blocks_legal T) bs"
proof -
  have b: "set (pre_block b) = (\<Union>c \<in> set (blk_ops b). set (pre_op c))" for b :: "'d block" by (cases b) simp
  have "T ty' (Op i k xs rs as bs) = T ty (Op i k ys qs cs es)" for ty' by (rule by_kind) simp
  then show ?thesis by (simp add: all_legal_def b list_all_iff) blast
qed

lemma all_legal_rename: "all_legal T (rename_op \<rho> \<iota> d) = all_legal T d"
proof -
  have "T ty (rename_op \<rho> \<iota> e) = T ty e" for ty e by (rule by_kind) (cases e, simp)
  then show ?thesis by (simp add: all_legal_def pre_op_rename list_all_iff)
qed

text \<open>What the conversion leaves is legal, or, of what was there, unknown.\<close>

abbreviation acceptable :: "bool \<Rightarrow> 'd op \<Rightarrow> bool" where
  "acceptable w \<equiv> everywhere (\<lambda>e. \<forall>ty. T ty e = Legal \<or> T ty e = Unknown \<and> w)"

lemma converted_is_acceptable:
  "list_all replacing (tried @ ps) \<Longrightarrow> try_patterns T tried ps d st = Legalized (es, st') \<Longrightarrow> list_all (acceptable False) es"
  "(ps, d, st) = (ps :: 'd rewrite_pattern list, d :: 'd op, st :: 'd conversion)"
  "list_all replacing ps \<Longrightarrow> convert_ops w T ps ds st = Legalized (es, st') \<Longrightarrow> list_all (acceptable w) es"
  "list_all replacing ps \<Longrightarrow> convert_blocks w T ps bs st = Legalized (cs, st') \<Longrightarrow>
     list_all (\<lambda>b. list_all (acceptable w) (blk_ops b)) cs"
  "list_all replacing ps \<Longrightarrow> convert_regions w T ps rs st = Legalized (qs, st') \<Longrightarrow>
     list_all (list_all (\<lambda>b. list_all (acceptable w) (blk_ops b))) qs"
proof (induction tried ps d st and ps d st and w ps ds st and w ps bs st and w ps rs st
    arbitrary: es st' and and es st' and cs st' and qs st' rule: conversion_induct)
  case (pattern tried p ps d st)
  from pattern(5) show ?case
  proof (cases rule: try_patterns_ConsE)
    case (updated e st1)
    then show ?thesis using pattern(4) unfolding replacing_def by (cases st, cases st1) simp
  qed (use pattern in auto)
next
  case (op w ps d ds st)
  from op(5) show ?case
  proof (cases rule: convert_ops_ConsE)
    case (replaced new st1 es')
    have "list_all (acceptable False) new" using op(1) [of new st1] op(4) replaced(2) by simp
    then have "list_all (acceptable w) new" by (auto simp: list_all_iff)
    then show ?thesis using op(3) [OF op(4) replaced(3)] replaced(4) by simp
  next
    case (kept rs st1 es')
    let ?d = "Op (op_id d) (op_kind d) (op_operands d) (op_results d) (op_attrs d) rs"
    have "T ty ?d = T (rw_types (fst st)) d" for ty by (rule by_kind) simp
    then have "acceptable w ?d" using kept(1) op(2) [OF op(4) kept(2)] by (subst everywhere_op) auto
    then show ?thesis using op(3) [OF op(4) kept(3)] kept(4) by simp
  qed
next
  case (block w ps b bs st)
  from block(4) show ?case by (cases rule: convert_blocks_ConsE) (use block in auto)
next
  case (region w ps r rs st)
  from region(4) show ?case by (cases rule: convert_regions_ConsE) (use region in auto)
qed auto

text \<open>What is legal is not changed.\<close>

lemma legal_unchanged:
  "(tried, ps, d, st) = (tried :: 'd rewrite_pattern list, ps :: 'd rewrite_pattern list, d :: 'd op, st :: 'd conversion)"
  "(ps, d, st) = (ps :: 'd rewrite_pattern list, d :: 'd op, st :: 'd conversion)"
  "list_all (all_legal T) ds \<Longrightarrow> convert_ops w T ps ds st = Legalized (ds, st)"
  "blocks_legal T bs \<Longrightarrow> convert_blocks w T ps bs st = Legalized (bs, st)"
  "list_all (blocks_legal T) rs \<Longrightarrow> convert_regions w T ps rs st = Legalized (rs, st)"
proof (induction tried ps d st and ps d st and w ps ds st and w ps bs st and w ps rs st
    rule: conversion_induct)
  case (op w ps d ds st)
  have "T (rw_types (fst st)) d = Legal" "list_all (blocks_legal T) (op_regions d)"
    using op(4) all_legal_op [of "op_id d" "op_kind d" "op_operands d" "op_results d" "op_attrs d" "op_regions d"
        "rw_types (fst st)" "op_operands d" "op_results d" "op_attrs d" "op_regions d"] by simp_all
  then show ?case using op by (simp add: convert_ops.simps(2))
qed (simp_all add: convert_blocks.simps(2) convert_regions.simps(2))

lemma kind_legal: "T ty (Op (op_id d) (op_kind d) (op_operands d) (op_results d) (op_attrs d) rs) = T ty' d"
  by (rule by_kind) simp

lemma all_legal_parts: "all_legal T d \<longleftrightarrow> T ty d = Legal \<and> list_all (blocks_legal T) (op_regions d)"
  by (metis all_legal_op op.collapse kind_legal)

text \<open>
  A pattern whose result is never legal at once has no effect: what it leaves would have to be converted by
  the other patterns, which leave something again. With only such patterns a module is not changed. \<open>W\<close>
  is what is known of the operations of the module and of what the patterns create.
\<close>

definition ineffective :: "('d op \<Rightarrow> bool) \<Rightarrow> 'd rewrite_pattern \<Rightarrow> bool" where
  "ineffective W p \<longleftrightarrow> (\<forall>d st. W d \<and> fst p = op_kind d \<and> T (rw_types (fst st)) d \<noteq> Legal \<longrightarrow> (case run_pattern (snd p) d st of
     No_Match \<Rightarrow> True | Mismatch \<Rightarrow> False
   | Creates new st' \<Rightarrow> \<not> list_all (all_legal T) new \<and> list_all (everywhere W) new
   | Updates e st' \<Rightarrow> T (rw_types (fst st')) e \<noteq> Legal \<and> W e))"

lemma ineffectiveE:
  assumes "ineffective W p" "W d" "fst p = op_kind d" "T (rw_types (fst st)) d \<noteq> Legal"
  obtains "run_pattern (snd p) d st = No_Match"
    | new st1 where "run_pattern (snd p) d st = Creates new st1" "\<not> list_all (all_legal T) new" "list_all (everywhere W) new"
    | e st1 where "run_pattern (snd p) d st = Updates e st1" "T (rw_types (fst st1)) e \<noteq> Legal" "W e"
proof -
  have "case run_pattern (snd p) d st of No_Match \<Rightarrow> True | Mismatch \<Rightarrow> False
     | Creates new st' \<Rightarrow> \<not> list_all (all_legal T) new \<and> list_all (everywhere W) new
     | Updates e st' \<Rightarrow> T (rw_types (fst st')) e \<noteq> Legal \<and> W e"
    using assms unfolding ineffective_def by blast
  then show ?thesis by (cases "run_pattern (snd p) d st") (auto intro: that)
qed

lemma ineffective_patterns:
  "list_all (ineffective W) (tried @ ps) \<Longrightarrow> W d \<Longrightarrow> T (rw_types (fst st)) d \<noteq> Legal \<Longrightarrow> try_patterns T tried ps d st = Not_Legalized"
  "list_all (ineffective W) ps \<Longrightarrow> W d \<Longrightarrow> T (rw_types (fst st)) d \<noteq> Legal \<Longrightarrow> legalize_op T ps d st = Not_Legalized"
  "list_all (ineffective W) ps \<Longrightarrow> list_all (everywhere W) ds \<Longrightarrow>
     (w \<and> (\<forall>ty d. W d \<longrightarrow> T ty d \<noteq> Illegal) \<longrightarrow> convert_ops w T ps ds st = Legalized (ds, st)) \<and>
     (\<not> w \<and> \<not> list_all (all_legal T) ds \<longrightarrow> convert_ops w T ps ds st = Not_Legalized)"
  "list_all (ineffective W) ps \<Longrightarrow> list_all (\<lambda>b. list_all (everywhere W) (blk_ops b)) bs \<Longrightarrow>
     (w \<and> (\<forall>ty d. W d \<longrightarrow> T ty d \<noteq> Illegal) \<longrightarrow> convert_blocks w T ps bs st = Legalized (bs, st)) \<and>
     (\<not> w \<and> \<not> blocks_legal T bs \<longrightarrow> convert_blocks w T ps bs st = Not_Legalized)"
  "list_all (ineffective W) ps \<Longrightarrow> list_all (list_all (\<lambda>b. list_all (everywhere W) (blk_ops b))) rs \<Longrightarrow>
     (w \<and> (\<forall>ty d. W d \<longrightarrow> T ty d \<noteq> Illegal) \<longrightarrow> convert_regions w T ps rs st = Legalized (rs, st)) \<and>
     (\<not> w \<and> \<not> list_all (blocks_legal T) rs \<longrightarrow> convert_regions w T ps rs st = Not_Legalized)"
proof (induction tried ps d st and ps d st and w ps ds st and w ps bs st and w ps rs st rule: conversion_induct)
  case (pattern tried p ps d st)
  have p: "list_all (ineffective W) (tried @ ps)" "list_all (ineffective W) ((tried @ [p]) @ ps)"
    using pattern(4) by simp_all
  have later: "try_patterns T (tried @ [p]) ps d st = Not_Legalized" by (rule pattern(1) [OF p(2) pattern(5,6)])
  show ?case
  proof (cases "fst p = op_kind d")
    case True
    then have step: "try_patterns T tried (p # ps) d st = (case run_pattern (snd p) d st of
        No_Match \<Rightarrow> try_patterns T (tried @ [p]) ps d st
      | Mismatch \<Rightarrow> Stopped
      | Creates new st1 \<Rightarrow>
          (case convert_ops False T (tried @ ps) new st1 of
             Not_Legalized \<Rightarrow> try_patterns T (tried @ [p]) ps d st | Stopped \<Rightarrow> Stopped | Legalized x \<Rightarrow> Legalized x)
      | Updates e st1 \<Rightarrow>
          (case legalize_op T (tried @ ps) e st1 of
             Not_Legalized \<Rightarrow> try_patterns T (tried @ [p]) ps d st | Stopped \<Rightarrow> Stopped | Legalized x \<Rightarrow> Legalized x))"
      by (simp add: try_patterns.simps(2))
    have "ineffective W p" using pattern(4) by simp
    from this pattern(5) True pattern(6) show ?thesis
    proof (rule ineffectiveE [of W p d st])
      fix new st1
      assume new: "run_pattern (snd p) d st = Creates new st1" "\<not> list_all (all_legal T) new" "list_all (everywhere W) new"
      have "convert_ops False T (tried @ ps) new st1 = Not_Legalized"
        using pattern(2) [OF p(1) new(3), of st1] new(2) by blast
      then show ?thesis unfolding step new(1) using later by simp
    next
      fix e st1
      assume e: "run_pattern (snd p) d st = Updates e st1" "T (rw_types (fst st1)) e \<noteq> Legal" "W e"
      have "legalize_op T (tried @ ps) e st1 = Not_Legalized" by (rule pattern(3) [OF p(1) e(3,2)])
      then show ?thesis unfolding step e(1) using later by simp
    qed (simp add: step later)
  qed (simp add: try_patterns.simps(2) later)
next
  case (one ps d st)
  have "try_patterns T [] ps d st = Not_Legalized" using one by simp
  then show ?case unfolding legalize_op.simps using one(4) by simp
next
  case (op w ps d ds st)
  have W: "W d" "list_all (everywhere W) ds" "list_all (list_all (\<lambda>b. list_all (everywhere W) (blk_ops b))) (op_regions d)"
    using op(5) everywhere_op [of W d] by simp_all
  note parts = op(2) [OF op(4) W(3)] and rest = op(3) [OF op(4) W(2)]
  note run = convert_ops.simps(2) [of w T ps d ds st]
  show ?case
  proof (cases "T (rw_types (fst st)) d = Legal")
    case True
    then have step: "convert_ops w T ps (d # ds) st = (case convert_regions w T ps (op_regions d) st of
        Not_Legalized \<Rightarrow> Not_Legalized | Stopped \<Rightarrow> Stopped | Legalized (rs, st1) \<Rightarrow>
          (case convert_ops w T ps ds st1 of Not_Legalized \<Rightarrow> Not_Legalized | Stopped \<Rightarrow> Stopped
           | Legalized (es, st2) \<Rightarrow> Legalized (Op (op_id d) (op_kind d) (op_operands d) (op_results d) (op_attrs d) rs # es, st2)))"
      by (simp add: run)
    show ?thesis
    proof (cases "list_all (blocks_legal T) (op_regions d)")
      case legal: True
      show ?thesis unfolding step legal_unchanged(5) [OF legal] legalized.case prod.case
        using rest [of st] all_legal_parts [of d] legal True by (cases w) simp_all
    next
      case False
      then show ?thesis unfolding step using parts rest [of st] all_legal_parts [of d] True by (cases w) simp_all
    qed
  next
    case False
    have "try_patterns T [] ps d st = Not_Legalized" using op(1,4) W(1) False by simp
    then have step: "convert_ops w T ps (d # ds) st = (if T (rw_types (fst st)) d = Unknown \<and> w
        then (case convert_regions w T ps (op_regions d) st of
                Not_Legalized \<Rightarrow> Not_Legalized | Stopped \<Rightarrow> Stopped | Legalized (rs, st1) \<Rightarrow>
                  (case convert_ops w T ps ds st1 of Not_Legalized \<Rightarrow> Not_Legalized | Stopped \<Rightarrow> Stopped
                   | Legalized (es, st2) \<Rightarrow> Legalized (Op (op_id d) (op_kind d) (op_operands d) (op_results d) (op_attrs d) rs # es, st2)))
        else Not_Legalized)"
      using False by (simp add: run)
    have "T (rw_types (fst st)) d = Unknown" if "\<forall>ty d. W d \<longrightarrow> T ty d \<noteq> Illegal"
      using that False W(1) by (metis legality.exhaust)
    then show ?thesis unfolding step using parts rest [of st] by (cases w) simp_all
  qed
next
  case (block w ps b bs st)
  have W: "list_all (everywhere W) (blk_ops b)" "list_all (\<lambda>b. list_all (everywhere W) (blk_ops b)) bs" using block(4) by simp_all
  note parts = block(1) [OF block(3) W(1)] and rest = block(2) [OF block(3) W(2)]
  show ?case
    using parts rest [of st] legal_unchanged(3) [of "blk_ops b" w ps st]
    by (cases w; cases "list_all (all_legal T) (blk_ops b)") (simp_all add: convert_blocks.simps(2))
next
  case (region w ps r rs st)
  have W: "list_all (\<lambda>b. list_all (everywhere W) (blk_ops b)) r" "list_all (list_all (\<lambda>b. list_all (everywhere W) (blk_ops b))) rs"
    using region(4) by simp_all
  note parts = region(1) [OF region(3) W(1)] and rest = region(2) [OF region(3) W(2)]
  show ?case
    using parts rest [of st] legal_unchanged(4) [of r w ps st]
    by (cases w; cases "blocks_legal T r") (simp_all add: convert_regions.simps(2))
qed simp_all

theorem ineffective_conversion:
  assumes "list_all (ineffective W) ps" "\<And>ty d. W d \<Longrightarrow> T ty d \<noteq> Illegal" "everywhere W m"
  shows "applyPartialConversion T ps ty m = Some m"
proof -
  have "convert_ops True T ps [m] (start_rewriter ty m, []) = Legalized ([m], start_rewriter ty m, [])"
    using ineffective_patterns(3) [OF assms(1), of "[m]" True] assms(2,3) by simp
  then show ?thesis using rename_id(1) [of m] by (simp add: applyPartialConversion_def resolve.simps [abs_def])
qed

end

end
