(* ===== verification/Pattern_Facts.thy ===== *)
theory Pattern_Facts
  imports Cira_Patterns Partial_Conversion
begin

text \<open>What the patterns of \<^verbatim>\<open>src/Conversion/CiraToLLVM.cpp\<close> create: operations of LLVM and clones of a body.\<close>

section \<open>What the rewriter creates\<close>

text \<open>An operation of LLVM without regions.\<close>

definition llvm_op :: "'d op \<Rightarrow> bool" where
  "llvm_op d \<longleftrightarrow> take 6 (op_kind d) = ''LLVM::'' \<and> op_regions d = []"

named_theorems llvm_only_intros

definition llvm_only :: "('d, 'a) rewriting \<Rightarrow> bool" where
  "llvm_only m \<longleftrightarrow> (\<forall>s. \<exists>new. rw_ops (snd (run_state m s)) = rw_ops s @ new \<and> list_all llvm_op new)"

lemma llvm_only_return [llvm_only_intros]: "llvm_only (State_Monad.return x)"
  by (simp add: llvm_only_def)

lemma llvm_only_bind [llvm_only_intros]:
  assumes "llvm_only m" "\<And>x. llvm_only (f x)"
  shows "llvm_only (m \<bind> f)"
  unfolding llvm_only_def
proof
  fix s
  obtain x s1 where 1: "run_state m s = (x, s1)" by fastforce
  obtain n1 where n1: "rw_ops s1 = rw_ops s @ n1" "list_all llvm_op n1"
    using assms(1) 1 unfolding llvm_only_def by (metis snd_conv)
  obtain n2 where n2: "rw_ops (snd (run_state (f x) s1)) = rw_ops s1 @ n2" "list_all llvm_op n2"
    using assms(2) unfolding llvm_only_def by blast
  show "\<exists>new. rw_ops (snd (run_state (m \<bind> f) s)) = rw_ops s @ new \<and> list_all llvm_op new"
    by (rule exI [of _ "n1 @ n2"]) (simp add: 1 n1 n2)
qed

lemma llvm_only_create [llvm_only_intros]:
  "take 6 k = ''LLVM::'' \<Longrightarrow> llvm_only (create0 k xs as)"
  "take 6 k = ''LLVM::'' \<Longrightarrow> llvm_only (create1 k t xs as)"
  "take 6 k = ''LLVM::'' \<Longrightarrow> llvm_only (create_many k ts xs as)"
  by (auto simp: llvm_only_def create0_def create1_def create_many_def emit_def llvm_op_def Let_def)

lemma llvm_only_read [llvm_only_intros]:
  "llvm_only (type_of v)" "llvm_only (types_of vs)" "llvm_only (result_type conv d)" "llvm_only (operand_type conv v)"
  by (auto simp: llvm_only_def type_of_def types_of_def result_type_def operand_type_def)

lemma llvm_only_if [llvm_only_intros]:
  "(b \<Longrightarrow> llvm_only m) \<Longrightarrow> (\<not> b \<Longrightarrow> llvm_only n) \<Longrightarrow> llvm_only (if b then m else n)"
  by simp

lemma llvm_only_option [llvm_only_intros]:
  "llvm_only m \<Longrightarrow> (\<And>x. llvm_only (f x)) \<Longrightarrow> llvm_only (case v of None \<Rightarrow> m | Some x \<Rightarrow> f x)"
  by (simp split: option.split)

lemma llvm_only_emitters [llvm_only_intros]:
  "llvm_only (const_i32 n)" "llvm_only (const_i64 n)" "llvm_only (call0 f xs)" "llvm_only (call1 f t xs)"
  "llvm_only null_ptr" "llvm_only fence" "llvm_only (const_attr d l)"
  by (simp_all add: const_i32_def const_i64_def call0_def call1_def null_ptr_def fence_def const_attr_def llvm_only_create)

lemma llvm_only_prefetch [llvm_only_intros]:
  "llvm_only (generic_prefetch v)" "llvm_only (emitPrefetchForTarget v arch)"
  by (auto simp: generic_prefetch_def emitPrefetchForTarget_def intro!: llvm_only_intros)

lemma llvm_only_pack [llvm_only_intros]: "llvm_only (pack_operands a i xs)"
  by (induction a i xs rule: pack_operands.induct) (auto intro!: llvm_only_intros)

lemma llvm_only_submit [llvm_only_intros]: "llvm_only (submit_offload d)"
  unfolding submit_offload_def by (intro llvm_only_intros) simp_all

text \<open>The patterns without a body.\<close>

lemmas flat_patterns =
  LoadEdgeOpLowering_def EvictEdgeOpLowering_def LoadNodeOpLowering_def GetPaddrOpLowering_def CallOpLowering_def
  AllocCxlOpLowering_def LoadAsyncOpLowering_def StoreAsyncOpLowering_def FlushOpLowering_def
  InstallCachelineOpLowering_def EvictHintOpLowering_def PrefetchStreamOpLowering_def PrefetchIndirectOpLowering_def
  FutureCreateOpLowering_def FutureAwaitOpLowering_def BarrierOpLowering_def ReleaseOpLowering_def
  PhaseBoundaryOpLowering_def StreamCreateIndirectOpLowering_def PrefetchChainOpLowering_def PeekStreamOpLowering_def
  AdvanceStreamOpLowering_def Type2CacheLoadOpLowering_def Type2CacheStoreOpLowering_def Type2MemLoadOpLowering_def
  Type2MemStoreOpLowering_def Type2DrainOpLowering_def GenericOffloadOpLowering_def

lemma flat_patterns_llvm_only:
  "llvm_only (LoadEdgeOpLowering c a d)" "llvm_only (EvictEdgeOpLowering c a d)" "llvm_only (LoadNodeOpLowering c a d)"
  "llvm_only (GetPaddrOpLowering c a d)" "llvm_only (CallOpLowering c a d)" "llvm_only (AllocCxlOpLowering c a d)"
  "llvm_only (LoadAsyncOpLowering c a d)" "llvm_only (StoreAsyncOpLowering c a d)" "llvm_only (FlushOpLowering c a d)"
  "llvm_only (InstallCachelineOpLowering c a d)" "llvm_only (EvictHintOpLowering c a d)"
  "llvm_only (PrefetchStreamOpLowering c a d)" "llvm_only (PrefetchIndirectOpLowering c a d)"
  "llvm_only (FutureCreateOpLowering c a d)" "llvm_only (FutureAwaitOpLowering c a d)" "llvm_only (BarrierOpLowering c a d)"
  "llvm_only (ReleaseOpLowering c a d)" "llvm_only (PhaseBoundaryOpLowering c a d)"
  "llvm_only (StreamCreateIndirectOpLowering c a d)" "llvm_only (PrefetchChainOpLowering c a d)"
  "llvm_only (PeekStreamOpLowering c a d)" "llvm_only (AdvanceStreamOpLowering c a d)"
  "llvm_only (Type2CacheLoadOpLowering c a d)" "llvm_only (Type2CacheStoreOpLowering c a d)"
  "llvm_only (Type2MemLoadOpLowering c a d)" "llvm_only (Type2MemStoreOpLowering c a d)"
  "llvm_only (Type2DrainOpLowering c a d)" "llvm_only (GenericOffloadOpLowering c a d)"
  unfolding flat_patterns Let_def by (intro llvm_only_intros; simp)+

text \<open>What of the body a pattern clones.\<close>

definition cloned :: "'d op \<Rightarrow> 'd op list" where
  "cloned d = (if isa d [''SpeculateOp'', ''OffloadRegionOp''] then filter (\<lambda>b. \<not> isa b [''YieldOp'']) (body_ops d)
     else if isa d [''OffloadStartOp''] then body_ops d else [])"

lemma run_clone_into:
  assumes "run_state (clone_into b m) s = (m', s')"
  shows "\<exists>c. rw_ops s' = rw_ops s @ [c] \<and> same_shape b c"
proof -
  obtain c m1 n k where c: "clone b (m, rw_value s, rw_id s) = (c, m1, n, k)" by (metis prod_cases4)
  then have "rw_ops s' = rw_ops s @ [c]" using assms by (auto simp: clone_into_def)
  moreover have "same_shape b c" using shape_clone [of b "(m, rw_value s, rw_id s)"] c by (simp add: same_shape_def)
  ultimately show ?thesis by blast
qed

lemma clone_loops:
  fixes bs :: "'d op list"
  shows "\<exists>cs. rw_ops (snd (run_state (clone_body bs) s)) = rw_ops s @ cs \<and>
     list_all2 same_shape (filter (\<lambda>b. \<not> isa b [''YieldOp'']) bs) cs"
  "\<exists>cs. rw_ops (snd (run_state (inline_body bs m) s)) = rw_ops s @ cs \<and>
     list_all2 same_shape (filter (\<lambda>b. \<not> isa b [''YieldOp'']) bs) cs"
  "\<exists>cs. rw_ops (snd (run_state (clone_each bs) s)) = rw_ops s @ cs \<and> list_all2 same_shape bs cs"
proof (induction bs arbitrary: s m)
  case (Cons b bs)
  have step: "\<exists>cs'. rw_ops s2 = rw_ops s @ cs' \<and> list_all2 same_shape (b # es) cs'"
    if "run_state (clone_into b m') s = (m'', s1)" "\<exists>cs. rw_ops s2 = rw_ops s1 @ cs \<and> list_all2 same_shape es cs"
    for m' m'' s s1 and s2 :: "'d rewriter" and es :: "'d op list"
    using that run_clone_into [OF that(1)] by auto
  {
    case 1
    obtain m1 s1 where r: "run_state (clone_into b []) s = (m1, s1)" by fastforce
    show ?case using Cons(1) [of s] step [OF r Cons(1) [of s1]]
      by (cases "isa b [''YieldOp'']") (auto simp: r split: prod.split)
  next
    case 2
    obtain m1 s1 where r: "run_state (clone_into b m) s = (m1, s1)" by fastforce
    show ?case using Cons(2) [of m s] step [OF r Cons(2) [of m1 s1]]
      by (cases "isa b [''YieldOp'']") (auto simp: r split: prod.split)
  next
    case 3
    obtain m1 s1 where r: "run_state (clone_into b []) s = (m1, s1)" by fastforce
    show ?case using step [OF r Cons(3) [of s1]] by (simp add: r)
  }
qed simp_all

lemma llvm_onlyD: "llvm_only m \<Longrightarrow> run_state m s = (r, s') \<Longrightarrow> \<exists>new. rw_ops s' = rw_ops s @ new \<and> list_all llvm_op new"
  unfolding llvm_only_def by (metis snd_conv)

lemma creates_clones:
  "rw_ops s' = rw_ops s @ cs \<Longrightarrow> list_all2 same_shape bs cs \<Longrightarrow>
     \<exists>pre cs. rw_ops s' = rw_ops s @ pre @ cs \<and> list_all llvm_op pre \<and> list_all2 same_shape bs cs"
  by (rule exI [of _ "[]"]) simp

text \<open>What a pattern creates: operations of LLVM, then the clones.\<close>

lemma pattern_creates:
  assumes "map_of (populateCiraToLLVMConversionPatterns base) (op_kind d) = Some p" "run_state (p arch d) s = (r, s')"
  shows "\<exists>pre cs. rw_ops s' = rw_ops s @ pre @ cs \<and> list_all llvm_op pre \<and> list_all2 same_shape (cloned d) cs"
proof -
  let ?c = "addCiraLLVMTypeConversions base"
  have mem: "(op_kind d, p) \<in> set (populateCiraToLLVMConversionPatterns base)" using assms(1) by (rule map_of_SomeD)
  consider (spec) "op_kind d = ''SpeculateOp''" | (start) "op_kind d = ''OffloadStartOp''"
    | (region) "op_kind d = ''OffloadRegionOp''"
    | (flat) "llvm_only (p arch d)" "\<not> isa d [''SpeculateOp'', ''OffloadRegionOp'', ''OffloadStartOp'']"
    using mem unfolding populateCiraToLLVMConversionPatterns_def Let_def
    by (auto simp: isa_def flat_patterns_llvm_only)
  then show ?thesis
  proof cases
    case spec
    then have "p = SpeculateOpLowering ?c" using assms(1) by (simp add: populateCiraToLLVMConversionPatterns_def Let_def)
    then have "s' = snd (run_state (clone_body (body_ops d)) s)"
      using assms(2) by (auto simp: SpeculateOpLowering_def split: prod.splits)
    moreover have "cloned d = filter (\<lambda>b. \<not> isa b [''YieldOp'']) (body_ops d)" using spec by (simp add: cloned_def isa_def)
    ultimately show ?thesis using clone_loops(1) [of "body_ops d" s] creates_clones by metis
  next
    case start
    then have "p = OffloadStartOpLowering ?c" using assms(1) by (simp add: populateCiraToLLVMConversionPatterns_def Let_def)
    then have "s' = snd (run_state (clone_each (body_ops d)) s)"
      using assms(2) by (auto simp: OffloadStartOpLowering_def split: prod.splits)
    moreover have "cloned d = body_ops d" using start by (simp add: cloned_def isa_def)
    ultimately show ?thesis using clone_loops(3) [of "body_ops d" s] creates_clones by metis
  next
    case region
    then have p: "p = OffloadRegionOpLowering ?c"
      using assms(1) by (simp add: populateCiraToLLVMConversionPatterns_def Let_def)
    let ?m = "if arch = RISCV_VORTEX \<or> arch = Heterogeneous then submit_offload d else State_Monad.return ()"
    obtain u s1 where 1: "run_state ?m s = (u, s1)" by (rule prod.exhaust)
    have "llvm_only ?m" by (intro llvm_only_intros)
    from llvm_onlyD [OF this 1] obtain pre where "rw_ops s1 = rw_ops s @ pre" "list_all llvm_op pre" by blast
    moreover have "s' = snd (run_state (inline_body (body_ops d) (zip (body_block_args d) (op_operands d))) s1)"
      using assms(2) 1 unfolding p OffloadRegionOpLowering_def by (auto split: prod.splits)
    ultimately show ?thesis
      using clone_loops(2) [of "body_ops d" "zip (body_block_args d) (op_operands d)" s1] region
      by (auto simp: cloned_def isa_def)
  next
    case flat
    then show ?thesis using llvm_onlyD [OF flat(1) assms(2)] by (fastforce simp: cloned_def isa_def)
  qed
qed

end
