(* ===== verification/Cira_To_Llvm.thy ===== *)
theory Cira_To_Llvm
  imports Pattern_Facts
begin

text \<open>
  The conversion of a module to LLVM (\<^verbatim>\<open>src/Conversion/CiraToLLVM.cpp\<close>): the target of the passes, what they
  give to MLIR's partial conversion, and that no cira operation is left when it succeeds.
\<close>

section \<open>Target and patterns\<close>

text \<open>The dialects every pass names, which are the same in all five.\<close>

definition legal_dialects :: "string list" where
  "legal_dialects = [''LLVM'', ''cir'', ''scf'', ''cf'', ''arith'', ''func'', ''memref'']"

definition llvm_target :: "'d target" where
  "llvm_target ty d =
     (if isa d cira_ops then Illegal
      else if dialect d \<in> set legal_dialects then Legal
      else Unknown)"

text \<open>A pattern with a type converter gets the operands converted; it does not run if one has no converted type.\<close>

definition converted_operands ::
  "type_converter \<Rightarrow> ('d op \<Rightarrow> ('d, 'd rewrite_result) rewriting) \<Rightarrow> 'd op \<Rightarrow> ('d, 'd rewrite_result) rewriting" where
  "converted_operands base p d = do {
     ts \<leftarrow> types_of (op_operands d);
     (if list_all (\<lambda>t. addCiraLLVMTypeConversions base t \<noteq> None) ts then p d else State_Monad.return Failure) }"

definition llvm_patterns :: "type_converter \<Rightarrow> target_arch \<Rightarrow> 'd rewrite_pattern list" where
  "llvm_patterns base arch =
     map (\<lambda>(k, p). (k, converted_operands base (p arch))) (populateCiraToLLVMConversionPatterns base)"

definition convert_cira_to_llvm :: "type_converter \<Rightarrow> target_arch \<Rightarrow> (nat \<Rightarrow> mtype) \<Rightarrow> 'd op \<Rightarrow> 'd op option" where
  "convert_cira_to_llvm base arch ty m = applyPartialConversion llvm_target (llvm_patterns base arch) ty m"

text \<open>What the pattern of one operation creates.\<close>

definition apply_pattern ::
  "type_converter \<Rightarrow> target_arch \<Rightarrow> 'd op \<Rightarrow> 'd conversion \<Rightarrow> ('d op list \<times> 'd conversion) option" where
  "apply_pattern base arch d st =
     (case map_of (llvm_patterns base arch) (op_kind d) of
        None \<Rightarrow> None
      | Some p \<Rightarrow> (case run_pattern p d st of Creates new st' \<Rightarrow> Some (new, st') | _ \<Rightarrow> None))"

interpretation llvm: kind_target llvm_target
  by unfold_locales (simp add: llvm_target_def isa_def dialect_def)

lemma pattern_of:
  "map_of (llvm_patterns base arch) k =
     map_option (\<lambda>p. converted_operands base (p arch)) (map_of (populateCiraToLLVMConversionPatterns base) k)"
  unfolding llvm_patterns_def by (simp add: map_of_map)

lemma apply_patternE:
  assumes "apply_pattern base arch d st = Some (new, st')"
  obtains p r s' where "map_of (populateCiraToLLVMConversionPatterns base) (op_kind d) = Some p"
    "run_state (p arch d) ((fst st)\<lparr>rw_ops := []\<rparr>) = (r, s')" "new = rw_ops s'"
    "r = Erased \<and> op_results d = [] \<and> st' = (s', snd st) \<or>
     (\<exists>vs. r = Replaced vs \<and> length vs = length (op_results d) \<and> st' = (s', zip (op_results d) vs @ snd st))"
  using assms
  by (auto simp: apply_pattern_def pattern_of run_pattern_def converted_operands_def types_of_def
      split: option.splits pattern_outcome.splits prod.splits rewrite_result.splits if_split_asm)

lemma cira_ops_not_llvm: "list_all (\<lambda>k. take 6 k \<noteq> ''LLVM::'') cira_ops"
  by (simp add: cira_ops_def)

lemma llvm_op_not_cira: "llvm_op d \<Longrightarrow> \<not> isa d cira_ops"
  using cira_ops_not_llvm by (auto simp: llvm_op_def isa_def list_all_iff)

section \<open>Patterns replace\<close>

definition never_updates :: "('d, 'd rewrite_result) rewriting \<Rightarrow> bool" where
  "never_updates m \<longleftrightarrow> (\<forall>s e. fst (run_state m s) \<noteq> Updated e)"

named_theorems never_updates_intros

lemma never_updates_bind [never_updates_intros]: "(\<And>x. never_updates (f x)) \<Longrightarrow> never_updates (m \<bind> f)"
  by (simp add: never_updates_def split: prod.split)

lemma never_updates_cases [never_updates_intros]:
  "never_updates (State_Monad.return Erased)" "never_updates (State_Monad.return Failure)"
  "never_updates (State_Monad.return (Replaced vs))"
  "never_updates m \<Longrightarrow> never_updates n \<Longrightarrow> never_updates (if b then m else n)"
  "never_updates m \<Longrightarrow> (\<And>x. never_updates (f x)) \<Longrightarrow> never_updates (case v of None \<Rightarrow> m | Some x \<Rightarrow> f x)"
  by (auto simp: never_updates_def split: option.split)

lemma patterns_never_update:
  assumes "(k, p) \<in> set (populateCiraToLLVMConversionPatterns base)"
  shows "never_updates (p arch d)"
  using assms unfolding populateCiraToLLVMConversionPatterns_def Let_def
  by (simp, elim disjE conjE; hypsubst;
      unfold flat_patterns SpeculateOpLowering_def OffloadRegionOpLowering_def OffloadStartOpLowering_def Let_def;
      intro never_updates_intros)

lemma llvm_patterns_replace: "list_all replacing (llvm_patterns base arch)"
proof -
  have "replacing (k, converted_operands base (p arch))" if "(k, p) \<in> set (populateCiraToLLVMConversionPatterns base)"
    for k and p :: "'a pattern"
    using patterns_never_update [OF that, of arch]
    by (auto simp: replacing_def run_pattern_def converted_operands_def types_of_def never_updates_def
        split: prod.splits rewrite_result.splits if_split_asm) (metis fst_conv)
  then show ?thesis by (auto simp: llvm_patterns_def list_all_iff)
qed

lemma pattern_kinds: "p \<in> set (llvm_patterns base arch) \<Longrightarrow> fst p \<in> set cira_ops"
proof -
  have "fst ` set (llvm_patterns base arch) \<subseteq> set cira_ops"
    by (simp add: llvm_patterns_def populateCiraToLLVMConversionPatterns_def cira_ops_def Let_def)
  then show "p \<in> set (llvm_patterns base arch) \<Longrightarrow> fst p \<in> set cira_ops" by blast
qed

lemma no_llvm_pattern: "\<not> isa d cira_ops \<Longrightarrow> map_of (llvm_patterns base arch) (op_kind d) = None"
  using pattern_kinds by (fastforce simp: map_of_eq_None_iff isa_def)

section \<open>The conversion is complete\<close>

lemma module_kept:
  assumes "convert_ops w llvm_target (llvm_patterns base arch) [m] st = Legalized (es, st')" "op_kind m = ''ModuleOp''"
  obtains rs where "es = [Op (op_id m) (op_kind m) (op_operands m) (op_results m) (op_attrs m) rs]"
proof -
  have "\<forall>p \<in> set (llvm_patterns base arch). fst p \<noteq> op_kind m"
    using pattern_kinds [of _ base arch] assms(2) by (fastforce simp: cira_ops_def)
  then have none: "try_patterns llvm_target [] (llvm_patterns base arch) m st = Not_Legalized" by (rule no_pattern_matches)
  from assms(1) show ?thesis by (cases rule: convert_ops_ConsE) (use none in \<open>auto intro: that\<close>)
qed

lemma converted_has_no_cira:
  assumes "convert_ops w llvm_target (llvm_patterns base arch) ds st = Legalized (es, st')" "e \<in> set es" "c \<in> set (pre_op e)"
  shows "\<not> isa c cira_ops"
  using llvm.converted_is_acceptable(3) [OF llvm_patterns_replace assms(1)] assms(2,3)
  by (fastforce simp: list_all_iff llvm_target_def)

lemma rename_not_cira:
  fixes e :: "'d op"
  assumes "\<forall>c \<in> set (pre_op e). \<not> isa c cira_ops"
  shows "\<forall>c \<in> set (pre_op (rename_op \<rho> \<iota> e)). \<not> isa c cira_ops"
proof -
  have "isa (rename_op \<rho> \<iota> c) ks = isa c ks" for c :: "'d op" and ks by (cases c) (simp add: isa_def)
  then show ?thesis using assms by (simp add: pre_op_rename)
qed

text \<open>A module without cira operations is not changed.\<close>

lemma nothing_to_convert:
  assumes "\<forall>c \<in> set (pre_op m). \<not> isa c cira_ops"
  shows "convert_cira_to_llvm base arch ty m = Some m"
proof -
  let ?W = "\<lambda>d :: 'a op. \<not> isa d cira_ops"
  have "fst p \<noteq> op_kind d" if "p \<in> set (llvm_patterns base arch)" "?W d" for p :: "'a rewrite_pattern" and d
    using pattern_kinds [OF that(1)] that(2) by (auto simp: isa_def)
  then have "list_all (llvm.ineffective ?W) (llvm_patterns base arch)"
    unfolding llvm.ineffective_def list_all_iff by blast
  then show ?thesis unfolding convert_cira_to_llvm_def
    by (rule llvm.ineffective_conversion) (use assms in \<open>simp_all add: llvm_target_def list_all_iff\<close>)
qed

end
