(* ===== verification/Conversion_Progress.thy ===== *)
theory Conversion_Progress
  imports Cira_To_Llvm
begin

text \<open>
  A verified module is converted: the operations have the operands, results and attributes the dialect
  (\<^verbatim>\<open>include/Dialect/CiraOps.td\<close>) asks of them, every value has a type LLVM can represent, and then no
  pattern fails.
\<close>

section \<open>What the dialect asks of an operation\<close>

text \<open>For each operation the fewest and the most operands, and the number of results.\<close>

definition cira_signature :: "(string \<times> nat \<times> nat option \<times> nat option) list" where
  "cira_signature =
     [(''LoadEdgeOp'', 2, Some 3, Some 1), (''EvictEdgeOp'', 2, Some 2, Some 0), (''LoadNodeOp'', 1, Some 2, Some 1),
      (''GetPaddrOp'', 1, Some 1, Some 1), (''CallOp'', 0, None, None), (''AllocCxlOp'', 1, Some 1, Some 1),
      (''LoadAsyncOp'', 1, Some 2, Some 1), (''StoreAsyncOp'', 2, Some 3, Some 1), (''FlushOp'', 0, Some 0, Some 0),
      (''InstallCachelineOp'', 2, Some 2, Some 0), (''EvictHintOp'', 1, Some 2, Some 0),
      (''PrefetchStreamOp'', 2, Some 3, Some 0), (''PrefetchIndirectOp'', 1, Some 1, Some 0),
      (''FutureCreateOp'', 0, Some 0, Some 1), (''FutureAwaitOp'', 1, Some 1, Some 1), (''BarrierOp'', 0, Some 0, Some 0),
      (''ReleaseOp'', 1, Some 1, Some 0), (''PhaseBoundaryOp'', 0, Some 0, Some 0), (''SpeculateOp'', 0, Some 0, None),
      (''StreamCreateIndirectOp'', 1, Some 1, Some 1), (''PrefetchChainOp'', 1, Some 1, Some 0),
      (''PeekStreamOp'', 1, Some 1, Some 1), (''AdvanceStreamOp'', 1, Some 1, Some 0), (''OffloadStartOp'', 0, Some 0, Some 0),
      (''OffloadRegionOp'', 0, None, None), (''Type2CacheLoadOp'', 2, Some 2, Some 1), (''Type2CacheStoreOp'', 2, Some 2, Some 1),
      (''Type2MemLoadOp'', 3, Some 3, Some 1), (''Type2MemStoreOp'', 3, Some 3, Some 0), (''Type2DrainOp'', 0, Some 0, Some 0),
      (''OffloadOp'', 0, None, None), (''YieldOp'', 0, None, Some 0)]"

definition yielded :: "'d op \<Rightarrow> nat list" where
  "yielded d = concat (map op_operands (filter (\<lambda>b. isa b [''YieldOp'']) (body_ops d)))"

text \<open>
  The counts of the table, one of the two fields a node has, and as many values yielded from a body as the
  operation has results.
\<close>

definition verify_op :: "'d op \<Rightarrow> bool" where
  "verify_op d \<longleftrightarrow>
     (case map_of cira_signature (op_kind d) of
        None \<Rightarrow> True
      | Some (lo, hi, n) \<Rightarrow>
          lo \<le> length (op_operands d) \<and> (case hi of None \<Rightarrow> True | Some h \<Rightarrow> length (op_operands d) \<le> h) \<and>
          (case n of None \<Rightarrow> True | Some r \<Rightarrow> length (op_results d) = r)) \<and>
     (isa d [''LoadNodeOp''] \<longrightarrow> str_attr d ''field_name'' \<in> {Some ''from'', Some ''to''}) \<and>
     (isa d [''SpeculateOp'', ''OffloadRegionOp''] \<longrightarrow> length (yielded d) = length (op_results d))"

text \<open>A yield stands in the body of an offload or a speculation only.\<close>

fun verified :: "bool \<Rightarrow> 'd op \<Rightarrow> bool" and verified_block :: "bool \<Rightarrow> 'd block \<Rightarrow> bool" where
  "verified y (Op i k xs rs as bs) \<longleftrightarrow> (k = ''YieldOp'' \<longrightarrow> y) \<and> verify_op (Op i k xs rs as bs) \<and>
     list_all (list_all (verified_block (k = ''SpeculateOp'' \<or> k = ''OffloadRegionOp''))) bs"
| "verified_block y (Block args ds) \<longleftrightarrow> list_all (verified y) ds"

lemma body_ops_rename: "body_ops (rename_op \<rho> \<iota> d) = map (rename_op \<rho> \<iota>) (body_ops d)"
proof (cases d)
  case (Op i k xs rs as bs)
  show ?thesis
  proof (cases "concat (take 1 bs)")
    case Nil
    then have "concat (take 1 (map (map (rename_block \<rho> \<iota>)) bs)) = []" by (cases bs) auto
    then show ?thesis using Op Nil by (simp add: body_ops_def del: concat_eq_Nil_conv)
  next
    case (Cons b cs)
    then have "concat (take 1 (map (map (rename_block \<rho> \<iota>)) bs)) = rename_block \<rho> \<iota> b # map (rename_block \<rho> \<iota>) cs"
      by (cases bs) auto
    then show ?thesis using Op Cons by (cases b) (simp add: body_ops_def)
  qed
qed

lemma rename_simps [simp]:
  "op_kind (rename_op \<rho> \<iota> d) = op_kind d" "op_operands (rename_op \<rho> \<iota> d) = map \<rho> (op_operands d)"
  "op_results (rename_op \<rho> \<iota> d) = map \<rho> (op_results d)" "op_attrs (rename_op \<rho> \<iota> d) = op_attrs d"
  by (cases d; simp)+

lemma yielded_rename: "length (yielded (rename_op \<rho> \<iota> d)) = length (yielded d)"
  by (simp add: yielded_def body_ops_rename filter_map isa_def comp_def length_concat)

lemma verify_op_rename: "verify_op (rename_op \<rho> \<iota> d) = verify_op d"
  unfolding verify_op_def yielded_rename isa_def str_attr_def get_attr_def rename_simps length_map by (rule refl)

lemma verified_rename:
  fixes d :: "'d op" and b :: "'d block"
  shows "verified y (rename_op \<rho> \<iota> d) = verified y d" "verified_block y (rename_block \<rho> \<iota> b) = verified_block y b"
proof (induction y d and y b rule: verified_verified_block.induct)
  case (1 y i k xs rs as bs)
  have v: "verify_op (Op (\<iota> i) k (map \<rho> xs) (map \<rho> rs) as (map (map (rename_block \<rho> \<iota>)) bs)) = verify_op (Op i k xs rs as bs)"
    using verify_op_rename [of \<rho> \<iota> "Op i k xs rs as bs"] by simp
  show ?case using 1 by (auto simp: v list_all_iff)
qed (auto simp: list_all_iff)

lemma verified_shape: "same_shape b c \<Longrightarrow> verified y c = verified y b"
  unfolding same_shape_def shape_op_def by (metis verified_rename(1))

lemma verified_shapes: "list_all2 same_shape bs cs \<Longrightarrow> list_all (verified y) bs \<Longrightarrow> list_all (verified y) cs"
  by (induction rule: list_all2_induct) (simp_all add: verified_shape)

lemma verified_yield: "\<not> isa d [''YieldOp''] \<Longrightarrow> verified y d = verified False d"
  by (cases d) (simp add: isa_def)

lemma verified_body:
  assumes "verified y d"
  shows "list_all (verified (isa d [''SpeculateOp'', ''OffloadRegionOp''])) (body_ops d)"
proof (cases d)
  case (Op i k xs rs as bs)
  show ?thesis
  proof (cases "concat (take 1 bs)")
    case (Cons b cs)
    then obtain r rest where "bs = r # rest" "r = b # cs" by (cases bs) auto
    then have "verified_block (isa d [''SpeculateOp'', ''OffloadRegionOp'']) b" using assms Op by (simp add: isa_def)
    then show ?thesis using Op Cons by (cases b) (simp add: body_ops_def)
  qed (simp add: Op body_ops_def del: concat_eq_Nil_conv)
qed

lemma verified_cloned:
  assumes "verified y d"
  shows "list_all (verified False) (cloned d)"
  using verified_body [OF assms] verified_yield
  by (auto simp: cloned_def list_all_iff isa_def split: if_splits)

lemma verified_llvm: "list_all llvm_op ds \<Longrightarrow> list_all (verified False) ds"
proof (induction ds)
  case (Cons d ds)
  have "list_all (\<lambda>(k, x). take 6 k \<noteq> ''LLVM::'') cira_signature" by (simp add: cira_signature_def)
  then have "map_of cira_signature (op_kind d) = None" "op_kind d \<noteq> ''YieldOp''" "op_regions d = []"
      "\<not> isa d [''LoadNodeOp'', ''SpeculateOp'', ''OffloadRegionOp'']"
    using Cons.prems by (auto simp: llvm_op_def map_of_eq_None_iff list_all_iff isa_def)
  then have "verified False d" by (cases d) (simp add: verify_op_def isa_def)
  then show ?case using Cons by simp
qed simp


section \<open>No pattern fails\<close>

text \<open>Every value has a type LLVM can represent.\<close>

definition convertible :: "type_converter \<Rightarrow> 'd rewriter \<Rightarrow> bool" where
  "convertible base s \<longleftrightarrow> (\<forall>v. addCiraLLVMTypeConversions base (rw_types s v) \<noteq> None)"

text \<open>A step that keeps this and has a result with \<open>Q\<close>.\<close>

definition gives :: "type_converter \<Rightarrow> ('d, 'a) rewriting \<Rightarrow> ('a \<Rightarrow> bool) \<Rightarrow> bool" where
  "gives base m Q \<longleftrightarrow> (\<forall>s. convertible base s \<longrightarrow>
     convertible base (snd (run_state m s)) \<and> Q (fst (run_state m s)))"

named_theorems gives_intros

lemma gives_return [gives_intros]: "Q x \<Longrightarrow> gives base (State_Monad.return x) Q"
  by (simp add: gives_def)

lemma gives_bind [gives_intros]:
  "gives base m R \<Longrightarrow> (\<And>x. R x \<Longrightarrow> gives base (f x) Q) \<Longrightarrow> gives base (m \<bind> f) Q"
  unfolding gives_def by (simp split: prod.split) (metis fst_conv snd_conv)

lemma gives_weaken: "gives base m R \<Longrightarrow> (\<And>x. R x \<Longrightarrow> Q x) \<Longrightarrow> gives base m Q"
  by (auto simp: gives_def)

lemma gives_if [gives_intros]: "(b \<Longrightarrow> gives base m Q) \<Longrightarrow> (\<not> b \<Longrightarrow> gives base n Q) \<Longrightarrow> gives base (if b then m else n) Q"
  by simp

lemma gives_Some [gives_intros]:
  "\<exists>t. v = Some t \<and> R t \<Longrightarrow> (\<And>t. v = Some t \<Longrightarrow> R t \<Longrightarrow> gives base (f t) Q) \<Longrightarrow>
     gives base (case v of None \<Rightarrow> m | Some t \<Rightarrow> f t) Q"
  by auto

lemma gives_create [gives_intros]:
  "gives base (create0 k xs as) (\<lambda>_. True)"
  "addCiraLLVMTypeConversions base t \<noteq> None \<Longrightarrow> gives base (create1 k t xs as) (\<lambda>_. True)"
  by (auto simp: gives_def convertible_def create0_def create1_def emit_def)

lemma llvm_types:
  assumes "llvm_converter base"
  shows "addCiraLLVMTypeConversions base (Llvm_Ptr a) = Some (Llvm_Ptr a)"
    "addCiraLLVMTypeConversions base (Integer_Type n) = Some (Integer_Type n)"
  using assms by (auto simp: llvm_converter_def addCiraLLVMTypeConversions_def)

lemma converted_convertible:
  assumes "llvm_converter base" "addCiraLLVMTypeConversions base t = Some u"
  shows "addCiraLLVMTypeConversions base u \<noteq> None"
proof (cases "base t = Some u")
  case True
  then have "base u = Some u" using assms(1) by (auto simp: llvm_converter_def)
  then show ?thesis by (cases u) (simp_all add: addCiraLLVMTypeConversions_def)
next
  case False
  then have "u = ptr_type" using assms(2) by (auto simp: addCiraLLVMTypeConversions_def split: mtype.splits)
  then show ?thesis using llvm_types(1) [OF assms(1)] by simp
qed

abbreviation llvm_type :: "type_converter \<Rightarrow> mtype \<Rightarrow> bool" where
  "llvm_type base t \<equiv> addCiraLLVMTypeConversions base t \<noteq> None"

lemma gives_types [gives_intros]:
  assumes "llvm_converter base"
  shows "gives base (result_type (addCiraLLVMTypeConversions base) d) (\<lambda>rt. \<exists>t. rt = Some t \<and> llvm_type base t)"
    "gives base (operand_type (addCiraLLVMTypeConversions base) v) (llvm_type base)"
    "gives base (types_of vs) (\<lambda>ts. length ts = length vs \<and> list_all (llvm_type base) ts)"
  using converted_convertible [OF assms]
  by (auto simp: gives_def result_type_def operand_type_def types_of_def type_of_def convertible_def list_all_iff
      split: option.split) blast+

lemma gives_emitters [gives_intros]:
  assumes "llvm_converter base"
  shows "gives base (const_i32 n) (\<lambda>_. True)" "gives base (const_i64 n) (\<lambda>_. True)" "gives base (call0 f xs) (\<lambda>_. True)"
    "gives base (call1 f ptr_type xs) (\<lambda>_. True)" "gives base null_ptr (\<lambda>_. True)" "gives base fence (\<lambda>_. True)"
    "gives base (const_attr d l) (\<lambda>_. True)" "gives base (create1 k ptr_type xs as) (\<lambda>_. True)"
    "gives base (create1 k i64 xs as) (\<lambda>_. True)"
  using llvm_types [OF assms]
  by (auto simp: const_i32_def const_i64_def call0_def call1_def null_ptr_def fence_def const_attr_def intro!: gives_create)

lemma gives_call1 [gives_intros]: "llvm_type base t \<Longrightarrow> gives base (call1 f t xs) (\<lambda>_. True)"
  by (simp add: call1_def gives_create)

lemma gives_prefetch [gives_intros]:
  assumes "llvm_converter base"
  shows "gives base (generic_prefetch v) (\<lambda>_. True)" "gives base (emitPrefetchForTarget v arch) (\<lambda>_. True)"
  unfolding generic_prefetch_def emitPrefetchForTarget_def by (rule gives_intros assms TrueI)+

lemma gives_pack [gives_intros]: "llvm_converter base \<Longrightarrow> gives base (pack_operands a i xs) (\<lambda>_. True)"
proof (induction a i xs rule: pack_operands.induct)
  case (2 a i x xs)
  show ?case unfolding pack_operands.simps by (rule gives_intros 2 TrueI)+
qed (simp add: gives_def)

lemma gives_submit [gives_intros]: "llvm_converter base \<Longrightarrow> gives base (submit_offload d) (\<lambda>_. True)"
  unfolding submit_offload_def by (rule gives_intros TrueI | assumption)+

text \<open>How a pattern may end.\<close>

definition result_ok :: "'d op \<Rightarrow> 'd rewrite_result \<Rightarrow> bool" where
  "result_ok d r = (case r of Failure \<Rightarrow> False | Erased \<Rightarrow> op_results d = [] | Replaced vs \<Rightarrow> length vs = length (op_results d)
     | Updated e \<Rightarrow> False)"

lemma result_ok_simps [simp]:
  "result_ok d Erased \<longleftrightarrow> op_results d = []" "result_ok d (Replaced vs) \<longleftrightarrow> length vs = length (op_results d)"
  by (simp_all add: result_ok_def)

lemma gives_patterns:
  assumes "llvm_converter base" and c: "c = addCiraLLVMTypeConversions base" and "length (op_results d) = Suc 0"
  shows "gives base (LoadEdgeOpLowering c a d) (result_ok d)" "gives base (GetPaddrOpLowering c a d) (result_ok d)"
    "gives base (AllocCxlOpLowering c a d) (result_ok d)" "gives base (LoadAsyncOpLowering c a d) (result_ok d)"
    "gives base (StoreAsyncOpLowering c a d) (result_ok d)" "gives base (FutureCreateOpLowering c a d) (result_ok d)"
    "gives base (FutureAwaitOpLowering c a d) (result_ok d)" "gives base (StreamCreateIndirectOpLowering c a d) (result_ok d)"
    "gives base (PeekStreamOpLowering c a d) (result_ok d)" "gives base (Type2CacheLoadOpLowering c a d) (result_ok d)"
    "gives base (Type2CacheStoreOpLowering c a d) (result_ok d)" "gives base (Type2MemLoadOpLowering c a d) (result_ok d)"
  unfolding flat_patterns c
  by (rule gives_intros assms(1) | simp add: assms(3))+


lemma gives_patterns_erased:
  assumes "llvm_converter base" and c: "c = addCiraLLVMTypeConversions base" and r: "op_results d = []"
  shows "gives base (EvictEdgeOpLowering c a d) (result_ok d)" "gives base (FlushOpLowering c a d) (result_ok d)"
    "gives base (InstallCachelineOpLowering c a d) (result_ok d)" "gives base (EvictHintOpLowering c a d) (result_ok d)"
    "gives base (PrefetchStreamOpLowering c a d) (result_ok d)" "gives base (PrefetchIndirectOpLowering c a d) (result_ok d)"
    "gives base (BarrierOpLowering c a d) (result_ok d)" "gives base (ReleaseOpLowering c a d) (result_ok d)"
    "gives base (PhaseBoundaryOpLowering c a d) (result_ok d)" "gives base (PrefetchChainOpLowering c a d) (result_ok d)"
    "gives base (AdvanceStreamOpLowering c a d) (result_ok d)" "gives base (Type2MemStoreOpLowering c a d) (result_ok d)"
    "gives base (Type2DrainOpLowering c a d) (result_ok d)" "gives base (GenericOffloadOpLowering c a d) (result_ok d)"
  unfolding flat_patterns c Let_def
  by (rule gives_intros assms(1) TrueI | simp add: r)+

lemma gives_LoadNode:
  assumes "llvm_converter base" "length (op_results d) = Suc 0" "str_attr d ''field_name'' \<in> {Some ''from'', Some ''to''}"
  shows "gives base (LoadNodeOpLowering (addCiraLLVMTypeConversions base) a d) (result_ok d)"
  unfolding LoadNodeOpLowering_def
  by (rule gives_intros assms(1) | use assms in simp)+

lemma convert_types_all: "list_all (llvm_type base) ts \<Longrightarrow>
  \<exists>us. convert_types (addCiraLLVMTypeConversions base) ts = Some us \<and> length us = length ts \<and>
    set us \<subseteq> {u. \<exists>t. addCiraLLVMTypeConversions base t = Some u}"
  by (induction ts) auto

lemma convertible_set_types:
  "convertible base s \<Longrightarrow> snd ` set ts \<subseteq> {t. llvm_type base t} \<Longrightarrow> convertible base (s\<lparr>rw_types := set_types ts (rw_types s)\<rparr>)"
  by (auto simp: convertible_def set_types_def split: option.split dest!: map_of_SomeD)

lemma gives_Call:
  assumes "llvm_converter base"
  shows "gives base (CallOpLowering (addCiraLLVMTypeConversions base) a d) (result_ok d)"
proof -
  have "gives base (create_many k us xs as) (\<lambda>rs. length rs = length us)"
    if "set us \<subseteq> {u. \<exists>t. addCiraLLVMTypeConversions base t = Some u}" for k us xs and as :: "(string \<times> 'b attribute) list"
    using that converted_convertible [OF assms]
    by (auto simp: gives_def create_many_def emit_def convertible_def set_types_def Let_def split: option.split
        dest!: map_of_SomeD set_zip_rightD)
  then show ?thesis
    unfolding CallOpLowering_def
    by (intro gives_bind [OF gives_types(3) [OF assms]])
      (use convert_types_all in \<open>fastforce intro!: gives_bind gives_return\<close>)
qed

lemma gives_clone [gives_intros]: "gives base (clone_into b m) (\<lambda>_. True)"
proof -
  have "convertible base (snd (run_state (clone_into b m) s))" if "convertible base s" for s :: "'a rewriter"
    using that by (auto simp: clone_into_def convertible_def set_types_def split: prod.split option.split dest!: map_of_SomeD)
  then show ?thesis by (simp add: gives_def)
qed

lemma gives_bodies:
  "gives base (clone_body bs) (\<lambda>vs. length vs = length (concat (map op_operands (filter (\<lambda>b. isa b [''YieldOp'']) bs))))"
  "gives base (inline_body bs m) (\<lambda>vs. length vs = length (concat (map op_operands (filter (\<lambda>b. isa b [''YieldOp'']) bs))))"
  "gives base (clone_each bs) (\<lambda>_. True)"
proof (induction bs arbitrary: m)
  case (Cons b bs)
  {
    case 1 show ?case using Cons(1) by (cases "isa b [''YieldOp'']") (auto intro!: gives_bind [OF Cons(1)] gives_bind [OF gives_clone] gives_return)
  next
    case 2 show ?case using Cons(2) by (cases "isa b [''YieldOp'']") (auto intro!: gives_bind [OF Cons(2)] gives_bind [OF gives_clone] gives_return)
  next
    case 3 show ?case using Cons(3) by (auto intro!: gives_bind [OF gives_clone])
  }
qed (auto intro: gives_return)

text \<open>The pattern of a verified operation does not fail.\<close>

lemma pattern_gives:
  assumes "llvm_converter base" "verify_op d" "isa d cira_ops" "\<not> isa d [''YieldOp'']"
    "isa d [''OffloadOp''] \<Longrightarrow> op_results d = []"
  shows "\<exists>p. map_of (populateCiraToLLVMConversionPatterns base) (op_kind d) = Some p \<and> gives base (p arch d) (result_ok d)"
proof -
  let ?c = "addCiraLLVMTypeConversions base"
  have spec: "gives base (SpeculateOpLowering ?c arch d) (result_ok d)" if "op_kind d = ''SpeculateOp''"
    unfolding SpeculateOpLowering_def using that assms(2)
    by (intro gives_bind [OF gives_bodies(1)] gives_return) (simp add: verify_op_def isa_def yielded_def)
  have region: "gives base (OffloadRegionOpLowering ?c arch d) (result_ok d)" if "op_kind d = ''OffloadRegionOp''"
  proof -
    have "gives base (if arch = RISCV_VORTEX \<or> arch = Heterogeneous then submit_offload d else State_Monad.return ()) (\<lambda>_. True)"
      by (rule gives_intros assms(1) TrueI)+
    then show ?thesis unfolding OffloadRegionOpLowering_def using that assms(2)
      by (intro gives_bind [OF _ gives_bind [OF gives_bodies(2) gives_return]])
        (assumption, simp add: verify_op_def isa_def yielded_def)
  qed
  have start: "gives base (OffloadStartOpLowering ?c arch d) (result_ok d)" if "op_results d = []"
    unfolding OffloadStartOpLowering_def by (intro gives_bind [OF gives_bodies(3)] gives_return) (simp add: that)
  note one = gives_patterns [OF assms(1) refl, of d arch]
  note rest = gives_patterns_erased [OF assms(1) refl, of d arch] gives_Call [OF assms(1), of arch d]
    gives_LoadNode [OF assms(1), of d arch] spec region start
  have "op_kind d \<in> set cira_ops" "op_kind d \<noteq> ''YieldOp''" using assms(3,4) by (simp_all add: isa_def)
  then show ?thesis using assms(2,5) one rest
    unfolding cira_ops_def
    by (simp add: populateCiraToLLVMConversionPatterns_def Let_def)
      (elim disjE; simp add: verify_op_def cira_signature_def isa_def)
qed


section \<open>What can be lowered\<close>

text \<open>
  The operations whose body is inlined. While it is, the pattern is not applied to what it creates: none of
  these may contain another of its kind, at any depth, and nothing the target knows nothing of. The legacy
  offload is erased, so that it must have no results. \<open>A\<close> are the kinds around an operation.
\<close>

definition inlined_kinds :: "string list" where
  "inlined_kinds = [''SpeculateOp'', ''OffloadRegionOp'', ''OffloadStartOp'']"

fun lowerable :: "string list \<Rightarrow> 'd op \<Rightarrow> bool" and lowerable_block :: "string list \<Rightarrow> 'd block \<Rightarrow> bool" where
  "lowerable A (Op i k xs rs as bs) \<longleftrightarrow>
     k \<notin> set A \<and> (A \<noteq> [] \<longrightarrow> k \<in> set cira_ops \<or> takeWhile (\<lambda>c. c \<noteq> CHR '':'') k \<in> set legal_dialects) \<and>
     (k = ''OffloadOp'' \<longrightarrow> rs = []) \<and>
     list_all (list_all (lowerable_block (if k \<in> set inlined_kinds then k # A else A))) bs"
| "lowerable_block A (Block args ds) \<longleftrightarrow> list_all (lowerable A) ds"

lemma lowerable_rename:
  fixes d :: "'d op" and b :: "'d block"
  shows "lowerable A (rename_op \<rho> \<iota> d) = lowerable A d" "lowerable_block A (rename_block \<rho> \<iota> b) = lowerable_block A b"
  by (induction A d and A b rule: lowerable_lowerable_block.induct) (auto simp: list_all_iff)

lemma lowerable_llvm:
  assumes "list_all llvm_op ds" "set A \<subseteq> set cira_ops"
  shows "list_all (lowerable A) ds"
  using assms(1)
proof (induction ds)
  case (Cons d ds)
  then have d: "take 6 (op_kind d) = ''LLVM::''" "op_regions d = []" "\<not> isa d cira_ops"
    using llvm_op_not_cira [of d] by (simp_all add: llvm_op_def)
  obtain x where x: "op_kind d = ''LLVM::'' @ x" using d(1) by (metis append_take_drop_id)
  have "lowerable A d"
    using d(2,3) assms(2) x by (cases d) (auto simp: isa_def legal_dialects_def cira_ops_def)
  then show ?case using Cons by simp
qed simp

lemma lowerable_shapes: "list_all2 same_shape bs cs \<Longrightarrow> list_all (lowerable A) bs \<Longrightarrow> list_all (lowerable A) cs"
proof (induction rule: list_all2_induct)
  case (Cons b bs c cs)
  then have "lowerable A c = lowerable A b" unfolding same_shape_def shape_op_def by (metis lowerable_rename(1))
  then show ?case using Cons by simp
qed simp

lemma cloned_in: "set (cloned d) \<subseteq> set (concat (map blk_ops (concat (op_regions d))))"
proof (cases "op_regions d")
  case (Cons r rs)
  then show ?thesis by (cases r) (auto simp: cloned_def body_ops_def)
qed (simp add: cloned_def body_ops_def)

lemma lowerable_parts:
  assumes "lowerable A d"
  shows "list_all (list_all (\<lambda>b. list_all (lowerable (if op_kind d \<in> set inlined_kinds then op_kind d # A else A)) (blk_ops b))) (op_regions d)"
proof -
  have b: "lowerable_block B = (\<lambda>b. list_all (lowerable B) (blk_ops (b :: 'a block)))" for B
  proof (rule ext)
    show "lowerable_block B b = list_all (lowerable B) (blk_ops b)" for b :: "'a block" by (cases b) simp
  qed
  show ?thesis using assms by (cases d; cases "op_kind d \<in> set inlined_kinds") (simp_all add: b)
qed

lemma lowerable_op: "lowerable A d \<Longrightarrow> op_kind d \<notin> set A \<and> (isa d [''OffloadOp''] \<longrightarrow> op_results d = [])"
  by (cases d) (simp add: isa_def)

lemma lowerable_cloned:
  assumes "lowerable A d" "op_kind d \<in> set inlined_kinds"
  shows "list_all (lowerable (op_kind d # A)) (cloned d)"
  using lowerable_parts [OF assms(1)] cloned_in [of d] assms(2) by (fastforce simp: list_all_iff)

lemma nothing_cloned: "op_kind d \<notin> set inlined_kinds \<Longrightarrow> cloned d = []"
  by (simp add: cloned_def inlined_kinds_def isa_def)

section \<open>A verified module is converted\<close>

lemma convertible_rw_ops: "convertible base (s\<lparr>rw_ops := xs\<rparr>) = convertible base s"
  by (simp add: convertible_def)

lemma run_pattern_succeeds:
  assumes "llvm_converter base" "verified False d" "isa d cira_ops" "convertible base (fst st)" "isa d [''OffloadOp''] \<Longrightarrow> op_results d = []"
  shows "\<exists>p pre cs st'. map_of (llvm_patterns base arch) (op_kind d) = Some p \<and> run_pattern p d st = Creates (pre @ cs) st' \<and>
    convertible base (fst st') \<and> list_all llvm_op pre \<and> list_all2 same_shape (cloned d) cs"
proof -
  have d: "verify_op d" "\<not> isa d [''YieldOp'']" using assms(2) by (cases d, simp add: isa_def)+
  obtain p where p: "map_of (populateCiraToLLVMConversionPatterns base) (op_kind d) = Some p" "gives base (p arch d) (result_ok d)"
    using pattern_gives [OF assms(1) d(1) assms(3) d(2) assms(5)] by blast
  obtain r s' where r: "run_state (p arch d) ((fst st)\<lparr>rw_ops := []\<rparr>) = (r, s')" by fastforce
  have ok: "convertible base s'" "result_ok d r"
    using p(2) r assms(4) unfolding gives_def by (metis convertible_rw_ops fst_conv snd_conv)+
  obtain pre cs where new: "rw_ops s' = pre @ cs" "list_all llvm_op pre" "list_all2 same_shape (cloned d) cs"
    using pattern_creates [OF p(1) r] by auto
  have "list_all (\<lambda>v. addCiraLLVMTypeConversions base (rw_types (fst st) v) \<noteq> None) (op_operands d)"
    using assms(4) by (simp add: convertible_def list_all_iff)
  then have "run_state (converted_operands base (p arch) d) ((fst st)\<lparr>rw_ops := []\<rparr>) = (r, s')"
    using r by (simp add: converted_operands_def types_of_def list_all_iff)
  then have "\<exists>\<sigma>. run_pattern (converted_operands base (p arch)) d st = Creates (pre @ cs) (s', \<sigma>)"
    using ok(2) new(1) by (cases r) (auto simp: run_pattern_def result_ok_def)
  then show ?thesis using p(1) ok(1) new(2,3) by (fastforce simp: pattern_of)
qed

text \<open>The patterns that are left: all but those that are being applied.\<close>

definition left_for :: "type_converter \<Rightarrow> target_arch \<Rightarrow> string list \<Rightarrow> 'd rewrite_pattern list \<Rightarrow> bool" where
  "left_for base arch A ps \<longleftrightarrow> set A \<subseteq> set cira_ops \<and> distinct (map fst ps) \<and>
     (\<forall>k. k \<notin> set A \<longrightarrow> map_of ps k = map_of (llvm_patterns base arch) k)"

lemma all_left: "left_for base arch [] (llvm_patterns base arch)"
proof -
  have "distinct (map fst (llvm_patterns base arch))"
    by (simp add: llvm_patterns_def populateCiraToLLVMConversionPatterns_def Let_def)
  then show ?thesis by (simp add: left_for_def)
qed

lemma llvm_legal: "list_all llvm_op ds \<Longrightarrow> list_all (all_legal llvm_target) ds"
proof (induction ds)
  case (Cons d ds)
  then have d: "take 6 (op_kind d) = ''LLVM::''" "op_regions d = []" by (simp_all add: llvm_op_def)
  obtain x where "op_kind d = ''LLVM::'' @ x" using d(1) by (metis append_take_drop_id)
  then have "dialect d = ''LLVM''" by (simp add: dialect_def)
  then have "all_legal llvm_target d"
    using d(2) llvm_op_not_cira [of d] Cons.prems by (cases d) (simp add: all_legal_def llvm_target_def legal_dialects_def dialect_def isa_def)
  then show ?case using Cons by simp
qed simp

lemma conversion_succeeds:
  assumes "llvm_converter base"
  shows "left_for base arch A (tried @ ps) \<Longrightarrow> op_kind d \<notin> fst ` set tried \<Longrightarrow> isa d cira_ops \<Longrightarrow>
     verified False d \<Longrightarrow> lowerable A d \<Longrightarrow> convertible base (fst st) \<Longrightarrow>
     \<exists>es st'. try_patterns llvm_target tried ps d st = Legalized (es, st') \<and> convertible base (fst st')"
  "(ps, d, st) = (ps :: 'd rewrite_pattern list, d :: 'd op, st :: 'd conversion)"
  "left_for base arch A ps \<Longrightarrow> (A = [] \<longleftrightarrow> w) \<Longrightarrow> list_all (verified False) ds \<Longrightarrow> list_all (lowerable A) ds \<Longrightarrow>
     convertible base (fst st) \<Longrightarrow>
     \<exists>es st'. convert_ops w llvm_target ps ds st = Legalized (es, st') \<and> convertible base (fst st')"
  "left_for base arch A ps \<Longrightarrow> (A = [] \<longleftrightarrow> w) \<Longrightarrow> list_all (verified_block False) bs \<Longrightarrow> list_all (lowerable_block A) bs \<Longrightarrow>
     convertible base (fst st) \<Longrightarrow>
     \<exists>cs st'. convert_blocks w llvm_target ps bs st = Legalized (cs, st') \<and> convertible base (fst st')"
  "left_for base arch A ps \<Longrightarrow> (A = [] \<longleftrightarrow> w) \<Longrightarrow> list_all (list_all (verified_block False)) rs \<Longrightarrow>
     list_all (list_all (lowerable_block A)) rs \<Longrightarrow> convertible base (fst st) \<Longrightarrow>
     \<exists>qs st'. convert_regions w llvm_target ps rs st = Legalized (qs, st') \<and> convertible base (fst st')"
proof (induction tried ps d st and ps d st and w ps ds st and w ps bs st and w ps rs st
    arbitrary: A and and A and A and A rule: conversion_induct)
  case (no_pattern tried d st)
  obtain p where "map_of (llvm_patterns base arch) (op_kind d) = Some (p :: 'd op \<Rightarrow> ('d, 'd rewrite_result) rewriting)"
    using run_pattern_succeeds [OF assms no_pattern(4,3,6), of arch] lowerable_op [OF no_pattern(5)] by blast
  then have "map_of tried (op_kind d) = Some p" using no_pattern(1) lowerable_op [OF no_pattern(5)] by (auto simp: left_for_def)
  then show ?case using no_pattern(2) by (force dest: map_of_SomeD)
next
  case (pattern tried p ps d st)
  show ?case
  proof (cases "fst p = op_kind d")
    case False
    then show ?thesis using pattern by (simp add: try_patterns.simps(2))
  next
    case True
    obtain q :: "'d op \<Rightarrow> ('d, 'd rewrite_result) rewriting" and pre cs st1 where q: "map_of (llvm_patterns base arch) (op_kind d) = Some q"
        and new: "run_pattern q d st = Creates (pre @ cs) st1" "convertible base (fst st1)" "list_all llvm_op pre"
          "list_all2 same_shape (cloned d) cs"
      using run_pattern_succeeds [OF assms pattern(7,6,9), of arch] lowerable_op [OF pattern(8)] by blast
    have "op_kind d \<notin> set A" using lowerable_op [OF pattern(8)] by simp
    moreover have "map_of (tried @ p # ps) (op_kind d) = Some (snd p)"
      using True pattern(5) by (cases p) (force simp: map_add_def dest: map_of_SomeD split: option.split)
    ultimately have "q = snd p" using q pattern(4) by (auto simp: left_for_def)
    then have run: "run_pattern (snd p) d st = Creates (pre @ cs) st1" using new(1) by simp
    have "\<exists>es st'. convert_ops False llvm_target (tried @ ps) (pre @ cs) st1 = Legalized (es, st') \<and> convertible base (fst st')"
    proof (cases "op_kind d \<in> set inlined_kinds")
      case False
      then have "pre @ cs = pre" using new(4) nothing_cloned [of d] by simp
      then show ?thesis using llvm.legal_unchanged(3) [OF llvm_legal [OF new(3)]] new(2) by simp
    next
      case inline: True
      have left: "left_for base arch (op_kind d # A) (tried @ ps)"
        using pattern(4,6) True by (cases p) (auto simp: left_for_def map_add_def isa_def split: option.splits if_splits)
      have "list_all (verified False) (pre @ cs)" "list_all (lowerable (op_kind d # A)) cs"
        using verified_llvm [OF new(3)] verified_shapes [OF new(4) verified_cloned [OF pattern(7)]]
          lowerable_shapes [OF new(4) lowerable_cloned [OF pattern(8) inline]] by simp_all
      moreover have "list_all (lowerable (op_kind d # A)) pre" using lowerable_llvm [OF new(3)] left by (simp add: left_for_def)
      ultimately show ?thesis using pattern(2) [OF left _ _ _ new(2), of "pre @ cs"] by simp
    qed
    then show ?thesis using True run by (auto simp: try_patterns.simps(2))
  qed
next
  case (op w ps d ds st)
  have ds: "list_all (verified False) ds" "list_all (lowerable A) ds" using op(6,7) by simp_all
  show ?case
  proof (cases "isa d cira_ops")
    case True
    then have T: "llvm_target (rw_types (fst st)) d = Illegal" by (simp add: llvm_target_def)
    obtain new st1 where "try_patterns llvm_target [] ps d st = Legalized (new, st1)" "convertible base (fst st1)"
      using op(1) [OF _ _ True _ _ op(8), of A] op(4,6,7) by auto
    then show ?thesis using op(3) [OF op(4,5) ds, of st1] T by (auto simp: convert_ops.simps(2))
  next
    case False
    have "op_kind d \<notin> set A" "map_of (llvm_patterns base arch) (op_kind d) = (None :: ('d op \<Rightarrow> ('d, 'd rewrite_result) rewriting) option)"
      using False op(4) no_llvm_pattern [OF False] by (auto simp: left_for_def isa_def)
    then have "map_of ps (op_kind d) = None" using op(4) by (simp add: left_for_def)
    then have none: "try_patterns llvm_target [] ps d st = Not_Legalized"
      by (intro no_pattern_matches) (force simp: map_of_eq_None_iff)
    have T: "llvm_target (rw_types (fst st)) d = Legal \<or> llvm_target (rw_types (fst st)) d = Unknown \<and> w"
      using False op(5,7) by (cases d; cases "A = []") (auto simp: llvm_target_def isa_def dialect_def)
    have "list_all (list_all (verified_block False)) (op_regions d)" "list_all (list_all (lowerable_block A)) (op_regions d)"
      using op(6,7) False by (cases d; auto simp: isa_def cira_ops_def inlined_kinds_def)+
    then obtain rs st1 where "convert_regions w llvm_target ps (op_regions d) st = Legalized (rs, st1)" "convertible base (fst st1)"
      using op(2) [OF op(4,5) _ _ op(8)] by blast
    then show ?thesis using op(3) [OF op(4,5) ds, of st1] T none by (auto simp: convert_ops.simps(2))
  qed
next
  case (block w ps b bs st)
  have b: "list_all (verified False) (blk_ops b)" "list_all (lowerable A) (blk_ops b)" using block(5,6) by (cases b; simp)+
  obtain es st1 where "convert_ops w llvm_target ps (blk_ops b) st = Legalized (es, st1)" "convertible base (fst st1)"
    using block(1) [OF block(3,4) b block(7)] by blast
  then show ?case using block(2) [OF block(3,4), of st1] block(5,6) by (auto simp: convert_blocks.simps(2))
next
  case (region w ps r rs st)
  then obtain cs st1 where "convert_blocks w llvm_target ps r st = Legalized (cs, st1)" "convertible base (fst st1)"
    by fastforce
  then show ?case using region(2) [OF region(3,4), of st1] region(5,6) by (auto simp: convert_regions.simps(2))
qed auto


end
