(* ===== verification/Runtime_Abi.thy ===== *)
theory Runtime_Abi
  imports Rewriter
begin

text \<open>
  The C entry points the compiler's output calls: what \<^verbatim>\<open>runtime/include/CiraRuntime.h\<close> declares, and the
  symbols the just-in-time engine (\<^verbatim>\<open>runtime/cira_jit_engine.cpp\<close>) gives to specialized kernels.
\<close>

section \<open>Declarations\<close>

datatype c_type = C_Void | C_Ptr | C_Int | C_U32 | C_U64 | C_Size | C_Uintptr

text \<open>The type of LLVM of a C type on the targets, where pointers have 64 bits.\<close>

fun llvm_of_c :: "c_type \<Rightarrow> mtype list" where
  "llvm_of_c C_Void = []"
| "llvm_of_c C_Ptr = [ptr_type]"
| "llvm_of_c C_Int = [i32]"
| "llvm_of_c C_U32 = [i32]"
| "llvm_of_c C_U64 = [i64]"
| "llvm_of_c C_Size = [i64]"
| "llvm_of_c C_Uintptr = [i64]"

definition cira_runtime_h :: "(string \<times> c_type \<times> c_type list) list" where
  "cira_runtime_h =
     [(''cira_runtime_create'', C_Ptr, []), (''cira_runtime_destroy'', C_Void, [C_Ptr]),
      (''cira_offload_load_edge'', C_Ptr, [C_Ptr, C_Ptr, C_Size, C_Size]),
      (''cira_offload_load_node'', C_Ptr, [C_Ptr, C_Ptr, C_Ptr, C_Size]),
      (''cira_offload_get_paddr'', C_Uintptr, [C_Ptr, C_Ptr, C_Ptr]),
      (''cira_register_linear_region'', C_Int, [C_Ptr, C_U64, C_U64, C_U64]),
      (''cira_unregister_linear_region'', C_Int, [C_Ptr]), (''cira_translate_registered_addr'', C_Uintptr, [C_Ptr]),
      (''cira_translate_paddr'', C_Uintptr, [C_Ptr, C_Ptr]), (''cira_translate_llc_addr'', C_Uintptr, [C_Ptr]),
      (''cira_gapbs_region_marker'', C_Void, [C_U32, C_U32, C_Ptr, C_U64]),
      (''cira_offload_evict_edge'', C_Void, [C_Ptr, C_Ptr, C_Size]),
      (''cira_type2_configure'', C_Void, [C_Ptr, C_Ptr, C_U64, C_U64, C_U64, C_U64]),
      (''cira_type2_set_delay'', C_Void, [C_Ptr, C_U32, C_U32, C_U32]),
      (''cira_type2_cache_load'', C_Ptr, [C_Ptr, C_Ptr, C_U64, C_Ptr]),
      (''cira_type2_cache_store'', C_Void, [C_Ptr, C_Ptr, C_Ptr, C_U64]),
      (''cira_type2_cache_evict'', C_Void, [C_Ptr, C_Ptr, C_Int]),
      (''cira_type2_mem_load'', C_Ptr, [C_Ptr, C_U64, C_U64]), (''cira_type2_mem_store'', C_Void, [C_Ptr, C_U64, C_Ptr, C_U64]),
      (''cira_type2_drain_delay_buffer'', C_Void, [C_Ptr]),
      (''cira_install_cacheline_x86'', C_Void, [C_Ptr, C_U64, C_Int]),
      (''cira_llc_tile_alloc'', C_Ptr, [C_U64]), (''cira_llc_tile_free'', C_Void, [C_Ptr]),
      (''cira_llc_tile_future'', C_Ptr, [C_Ptr]),
      (''cira_llc_tile_install_from_cxl'', C_Ptr, [C_Ptr, C_Ptr, C_U64, C_Ptr]), (''cira_llc_tile_get_mwait'', C_Ptr, [C_Ptr]),
      (''cira_evict_hint_x86'', C_Void, [C_Ptr, C_U64]), (''cira_future_alloc'', C_Ptr, []),
      (''cira_future_pool_alloc'', C_Ptr, [C_U32]), (''cira_future_pool_free'', C_Void, [C_Ptr]),
      (''cira_future_pool_depth'', C_U32, [C_Ptr]), (''cira_future_pool_get'', C_Ptr, [C_Ptr, C_U32]),
      (''cira_future_pool_get_device_addr'', C_Uintptr, [C_Ptr, C_U32]),
      (''cira_future_pool_register'', C_Int, [C_Ptr, C_U64, C_U64]), (''cira_future_pool_unregister'', C_Int, [C_Ptr]),
      (''cira_future_pool_arm'', C_Int, [C_Ptr, C_U32]), (''cira_future_await'', C_Ptr, [C_Ptr]),
      (''cira_future_free'', C_Void, [C_Ptr]), (''cira_phase_barrier'', C_Void, []),
      (''cira_offload_submit'', C_Void, [C_Ptr, C_Ptr, C_Int, C_Ptr]), (''cira_get_device_func_addr'', C_Ptr, []),
      (''__vortex_install_cacheline'', C_Void, [C_Ptr, C_U64, C_Int]),
      (''__vortex_prefetch_chain'', C_Void, [C_Ptr, C_U64, C_U64]), (''__vortex_prefetch_chain_kernel'', C_Void, [C_Ptr, C_U64])]"

text \<open>The names bound for a specialized kernel.\<close>

definition kRuntimeAbiSymbols :: "string list" where
  "kRuntimeAbiSymbols =
     [''cira_offload_submit'', ''cira_phase_barrier'', ''cira_future_alloc'', ''cira_future_free'', ''cira_future_await'',
      ''cira_future_pool_alloc'', ''cira_future_pool_free'', ''cira_future_pool_get'', ''cira_future_pool_arm'',
      ''cira_future_pool_get_device_addr'', ''cira_install_cacheline_x86'', ''cira_evict_hint_x86'', ''cira_llc_tile_alloc'',
      ''cira_llc_tile_free'', ''cira_llc_tile_future'', ''cira_llc_tile_install_from_cxl'', ''cira_llc_tile_get_mwait'',
      ''cira_mmio_default'', ''cira_mmio_base'', ''cira_mmio_size'', ''cira_mmio_read32'', ''cira_mmio_read64'',
      ''cira_mmio_write32'', ''cira_mmio_write64'', ''cira_mmio_write_block'', ''cira_mmio_fence'', ''cira_mmio_submit_job'',
      ''cira_mmio_submit_call'', ''cira_mmio_wait_seq'', ''cira_mmio_wait_completion'', ''cira_mmio_arm_completion'',
      ''cira_mmio_signal_completion'', ''cira_mmio_device_func'', ''cira_wait_u32'', ''cira_wait_u32_ne'', ''cira_wait_relax'',
      ''cira_wait_backend'', ''vortex_cxl_submit_job_mmio'', ''vortex_cxl_submit_call_mmio'', ''__vortex_install_cacheline'',
      ''__vortex_prefetch_chain'', ''__vortex_prefetch_chain_kernel'']"

text \<open>A call, with the types of its arguments and results, agrees with the declaration of what it calls.\<close>

definition declared_call :: "string \<Rightarrow> mtype list \<Rightarrow> mtype list \<Rightarrow> bool" where
  "declared_call f args res \<longleftrightarrow>
     (case map_of cira_runtime_h f of None \<Rightarrow> False | Some (r, ps) \<Rightarrow> args = concat (map llvm_of_c ps) \<and> res = llvm_of_c r)"

text \<open>An intrinsic of LLVM is not a function of the runtime.\<close>

definition intrinsic :: "string \<Rightarrow> bool" where "intrinsic f \<longleftrightarrow> take 5 f = ''llvm.''"

end
