(* ===== verification/Lowered_Calls.thy ===== *)
theory Lowered_Calls
  imports Conversion_Progress Runtime_Abi
begin

text \<open>
  The calls the lowering makes, against the runtime they call: every call a pattern creates is of an
  intrinsic of LLVM or has the argument and result types \<^verbatim>\<open>runtime/include/CiraRuntime.h\<close> declares.
\<close>

section \<open>Calls and their types\<close>

definition typed :: "type_converter \<Rightarrow> 'd rewriter \<Rightarrow> nat \<Rightarrow> mtype \<Rightarrow> bool" where
  "typed base s v t \<longleftrightarrow> v < rw_value s \<and> addCiraLLVMTypeConversions base (rw_types s v) = Some t"

definition call_type :: "type_converter \<Rightarrow> 'd rewriter \<Rightarrow> nat \<Rightarrow> mtype" where
  "call_type base s v = (case addCiraLLVMTypeConversions base (rw_types s v) of Some t \<Rightarrow> t | None \<Rightarrow> Other_Type)"

text \<open>A call of a function, not of an intrinsic.\<close>

definition runtime_call :: "'d op \<Rightarrow> bool" where
  "runtime_call d \<longleftrightarrow> op_kind d = ''LLVM::CallOp'' \<and> (case str_attr d ''callee'' of None \<Rightarrow> True | Some f \<Rightarrow> \<not> intrinsic f)"

definition call_ok :: "type_converter \<Rightarrow> 'd rewriter \<Rightarrow> 'd op \<Rightarrow> bool" where
  "call_ok base s d \<longleftrightarrow> \<not> runtime_call d \<or>
     (case str_attr d ''callee'' of None \<Rightarrow> False
      | Some f \<Rightarrow> declared_call f (map (call_type base s) (op_operands d)) (map (call_type base s) (op_results d)))"

text \<open>
  The types the dialect gives the operands, after conversion: handles, futures and streams are pointers,
  an index is a word, \<open>None\<close> is any type. The data of \<open>get_paddr\<close> must be a pointer, as the runtime takes it.
\<close>

definition cira_operand_types :: "(string \<times> mtype option list) list" where
  "cira_operand_types =
     [(''GetPaddrOp'', [Some ptr_type]), (''AllocCxlOp'', [Some i64]), (''InstallCachelineOp'', [Some ptr_type, Some i64]),
      (''EvictHintOp'', [Some ptr_type, Some i64]), (''PrefetchIndirectOp'', [Some ptr_type]),
      (''FutureAwaitOp'', [Some ptr_type]), (''ReleaseOp'', [Some ptr_type]), (''PrefetchChainOp'', [Some ptr_type]),
      (''Type2CacheLoadOp'', [Some ptr_type, Some i64]), (''Type2CacheStoreOp'', [None, Some ptr_type])]"

definition expected :: "'d op \<Rightarrow> (nat \<times> mtype) list" where
  "expected d =
     (case map_of cira_operand_types (op_kind d) of None \<Rightarrow> []
      | Some ts \<Rightarrow> concat (map (\<lambda>(v, t). case t of None \<Rightarrow> [] | Some u \<Rightarrow> [(v, u)]) (zip (op_operands d) ts))) @
     (if isa d [''GetPaddrOp''] then map (\<lambda>v. (v, i64)) (op_results d) else [])"

definition has_types :: "type_converter \<Rightarrow> 'd rewriter \<Rightarrow> (nat \<times> mtype) list \<Rightarrow> bool" where
  "has_types base s \<Gamma> \<longleftrightarrow> list_all (\<lambda>(v, t). typed base s v t) \<Gamma>"

definition well_typed :: "type_converter \<Rightarrow> 'd rewriter \<Rightarrow> 'd op \<Rightarrow> bool" where
  "well_typed base s d \<longleftrightarrow> has_types base s (expected d)"

section \<open>Steps that only make declared calls\<close>

definition calls_ok :: "type_converter \<Rightarrow> 'd rewriter \<Rightarrow> bool" where
  "calls_ok base s \<longleftrightarrow> list_all (\<lambda>c. call_ok base s c \<and>
     (runtime_call c \<longrightarrow> list_all (\<lambda>v. v < rw_value s) (op_operands c @ op_results c))) (rw_ops s)"

text \<open>Older values keep their types.\<close>

definition extends_types :: "'d rewriter \<Rightarrow> 'd rewriter \<Rightarrow> bool" where
  "extends_types s s' \<longleftrightarrow> rw_value s \<le> rw_value s' \<and> (\<forall>v < rw_value s. rw_types s' v = rw_types s v)"

lemma has_types_extend: "has_types base s \<Gamma> \<Longrightarrow> extends_types s s' \<Longrightarrow> has_types base s' \<Gamma>"
  by (auto simp: has_types_def typed_def extends_types_def list_all_iff)

lemma call_ok_extend:
  assumes "call_ok base s c" "list_all (\<lambda>v. v < rw_value s) (op_operands c @ op_results c)" "extends_types s s'"
  shows "call_ok base s' c"
proof -
  have "call_type base s' v = call_type base s v" if "v < rw_value s" for v
    using that assms(3) by (simp add: call_type_def extends_types_def)
  then have "map (call_type base s') (op_operands c) = map (call_type base s) (op_operands c)"
      "map (call_type base s') (op_results c) = map (call_type base s) (op_results c)"
    using assms(2) by (auto simp: list_all_iff)
  then show ?thesis using assms(1) by (simp only: call_ok_def)
qed

lemma calls_ok_extend:
  assumes "calls_ok base s" "extends_types s s'" "rw_ops s' = rw_ops s @ new"
    "list_all (\<lambda>c. call_ok base s' c \<and>
       (runtime_call c \<longrightarrow> list_all (\<lambda>v. v < rw_value s') (op_operands c @ op_results c))) new"
  shows "calls_ok base s'"
proof -
  have "call_ok base s' c \<and> (runtime_call c \<longrightarrow> list_all (\<lambda>v. v < rw_value s') (op_operands c @ op_results c))"
    if "c \<in> set (rw_ops s)" for c
  proof (cases "runtime_call c")
    case True
    then have c: "call_ok base s c" "list_all (\<lambda>v. v < rw_value s) (op_operands c @ op_results c)"
      using assms(1) that by (auto simp: calls_ok_def list_all_iff)
    moreover have "list_all (\<lambda>v. v < rw_value s') (op_operands c @ op_results c)"
      using c(2) assms(2) unfolding extends_types_def list_all_iff by (meson less_le_trans)
    ultimately show ?thesis using call_ok_extend [OF _ _ assms(2)] by blast
  qed (simp add: call_ok_def)
  then show ?thesis using assms(3,4) by (auto simp: calls_ok_def list_all_iff)
qed

text \<open>With the types \<open>\<Gamma>\<close>, a step makes declared calls only and its result \<open>x\<close> adds the types \<open>R x\<close>.\<close>

definition calls :: "type_converter \<Rightarrow> (nat \<times> mtype) list \<Rightarrow> ('d, 'a) rewriting \<Rightarrow> ('a \<Rightarrow> (nat \<times> mtype) list) \<Rightarrow> bool" where
  "calls base \<Gamma> m R \<longleftrightarrow> (\<forall>s. calls_ok base s \<longrightarrow> has_types base s \<Gamma> \<longrightarrow>
     (case run_state m s of (x, s') \<Rightarrow> calls_ok base s' \<and> has_types base s' (R x @ \<Gamma>)))"

named_theorems calls_intros

lemma calls_return [calls_intros]: "calls base \<Gamma> (State_Monad.return x) (\<lambda>_. [])"
  by (simp add: calls_def)

lemma calls_bind [calls_intros]:
  fixes m :: "('d, 'a) rewriting"
  assumes "calls base \<Gamma> m R" "\<And>x. calls base (R x @ \<Gamma>) (f x) (\<lambda>_. [])"
  shows "calls base \<Gamma> (m \<bind> f) (\<lambda>_. [])"
  unfolding calls_def
proof (intro allI impI)
  fix s :: "'d rewriter"
  assume s: "calls_ok base s" "has_types base s \<Gamma>"
  obtain x s1 where m: "run_state m s = (x, s1)" by (rule prod.exhaust)
  obtain y s2 where f: "run_state (f x) s1 = (y, s2)" by (rule prod.exhaust)
  have 1: "calls_ok base s1" "has_types base s1 (R x @ \<Gamma>)" using assms(1) s m by (auto simp: calls_def)
  then have "calls_ok base s2" "has_types base s2 (R x @ \<Gamma>)" using assms(2) [of x] f by (auto simp: calls_def)
  then show "case run_state (m \<bind> f) s of (x, s') \<Rightarrow> calls_ok base s' \<and> has_types base s' ([] @ \<Gamma>)"
    using m f by (simp add: has_types_def)
qed

lemma calls_if [calls_intros]: "calls base \<Gamma> m R \<Longrightarrow> calls base \<Gamma> n R \<Longrightarrow> calls base \<Gamma> (if b then m else n) R"
  by simp

lemma calls_option [calls_intros]:
  "calls base \<Gamma> m R \<Longrightarrow> (\<And>t. calls base \<Gamma> (f t) R) \<Longrightarrow> calls base \<Gamma> (case v of None \<Rightarrow> m | Some t \<Rightarrow> f t) R"
  by (cases v) simp_all

lemma calls_weaken: "calls base \<Gamma> m R \<Longrightarrow> calls base \<Gamma> m (\<lambda>_. [])"
  by (fastforce simp: calls_def has_types_def)

text \<open>One more operation.\<close>

lemma one_more:
  assumes "calls_ok base s" "has_types base s \<Gamma>" "extends_types s s'" "rw_ops s' = rw_ops s @ [c]"
    "runtime_call c \<Longrightarrow> call_ok base s' c \<and> list_all (\<lambda>v. v < rw_value s') (op_operands c @ op_results c)"
  shows "calls_ok base s'" "has_types base s' \<Gamma>"
  using calls_ok_extend [OF assms(1,3,4)] has_types_extend [OF assms(2,3)] assms(5)
  by (cases "runtime_call c"; simp add: call_ok_def)+

lemma callsI0:
  fixes as :: "(string \<times> 'd attribute) list"
  assumes "\<And>(s :: 'd rewriter) (s' :: 'd rewriter). has_types base s \<Gamma> \<Longrightarrow> s' = emit (Op (rw_id s) k xs [] as []) s \<Longrightarrow> runtime_call (Op (rw_id s) k xs [] as []) \<Longrightarrow>
     call_ok base s' (Op (rw_id s) k xs [] as []) \<and> list_all (\<lambda>v. v < rw_value s') xs"
  shows "calls base \<Gamma> (create0 k xs as) (\<lambda>_. [])"
  unfolding calls_def create0_def state.sel prod.case append_Nil
proof (intro allI impI)
  fix s :: "'d rewriter"
  let ?s' = "emit (Op (rw_id s) k xs [] as []) s"
  assume s: "calls_ok base s" "has_types base s \<Gamma>"
  have "extends_types s ?s'" "rw_ops ?s' = rw_ops s @ [Op (rw_id s) k xs [] as []]"
    by (simp_all add: extends_types_def emit_def)
  note more = one_more [OF s this]
  show "calls_ok base ?s' \<and> has_types base ?s' \<Gamma>"
    using assms [OF s(2) refl] by (intro conjI more) simp_all
qed

lemma callsI1:
  fixes as :: "(string \<times> 'd attribute) list"
  assumes "\<And>(s :: 'd rewriter) (s' :: 'd rewriter). has_types base s' \<Gamma> \<Longrightarrow> typed base s' (rw_value s) u \<Longrightarrow> rw_value s < rw_value s' \<Longrightarrow> runtime_call (Op (rw_id s) k xs [rw_value s] as []) \<Longrightarrow>
     call_ok base s' (Op (rw_id s) k xs [rw_value s] as []) \<and> list_all (\<lambda>v. v < rw_value s') xs"
    "addCiraLLVMTypeConversions base t = Some u"
  shows "calls base \<Gamma> (create1 k t xs as) (\<lambda>v. [(v, u)])"
  unfolding calls_def create1_def state.sel prod.case
proof (intro allI impI)
  fix s :: "'d rewriter"
  let ?c = "Op (rw_id s) k xs [rw_value s] as []"
  let ?s' = "(emit ?c s)\<lparr>rw_value := Suc (rw_value s), rw_types := (rw_types s)(rw_value s := t)\<rparr>"
  assume s: "calls_ok base s" "has_types base s \<Gamma>"
  have e: "extends_types s ?s'" "rw_ops ?s' = rw_ops s @ [?c]" by (simp_all add: extends_types_def emit_def)
  have t: "typed base ?s' (rw_value s) u" using assms(2) by (simp add: typed_def)
  note more = one_more [OF s e]
  have "calls_ok base ?s'" "has_types base ?s' \<Gamma>"
    using assms(1) [OF has_types_extend [OF s(2) e(1)] t] by (intro more; simp)+
  then show "calls_ok base ?s' \<and> has_types base ?s' ([(rw_value s, u)] @ \<Gamma>)" using t by (simp add: has_types_def)
qed


section \<open>The steps of the patterns\<close>

lemma call_types:
  assumes "has_types base s \<Gamma>" "list_all2 (\<lambda>v t. (v, t) \<in> set \<Gamma>) xs ts"
  shows "map (call_type base s) xs = ts" "list_all (\<lambda>v. v < rw_value s) xs"
proof -
  have "typed base s v t" if "(v, t) \<in> set \<Gamma>" for v t using assms(1) that by (auto simp: has_types_def list_all_iff)
  then have "list_all2 (typed base s) xs ts" using assms(2) by (auto elim: list_all2_mono)
  then show "map (call_type base s) xs = ts" "list_all (\<lambda>v. v < rw_value s) xs"
    by (induction rule: list_all2_induct) (simp_all add: typed_def call_type_def)
qed

lemma str_attr_callee: "str_attr (Op i k xs rs [(''callee'', Str_Attr f)] bs) ''callee'' = Some f"
  by (simp add: str_attr_def get_attr_def)

lemma calls_call0:
  assumes "declared_call f ts []" "list_all2 (\<lambda>v t. (v, t) \<in> set \<Gamma>) xs ts"
  shows "calls base \<Gamma> (call0 f xs) (\<lambda>_. [])"
  unfolding call0_def
proof (rule callsI0)
  fix s s' :: "'a rewriter"
  assume h: "has_types base s \<Gamma>" and s': "s' = emit (Op (rw_id s) ''LLVM::CallOp'' xs [] [(''callee'', Str_Attr f)] []) s"
  then have "has_types base s' \<Gamma>" by (intro has_types_extend [OF h]) (simp add: extends_types_def emit_def)
  from call_types [OF this assms(2)]
  show "call_ok base s' (Op (rw_id s) ''LLVM::CallOp'' xs [] [(''callee'', Str_Attr f)] []) \<and> list_all (\<lambda>v. v < rw_value s') xs"
    using assms(1) by (simp add: call_ok_def str_attr_callee)
qed

lemma calls_call1:
  assumes "declared_call f ts [u]" "list_all2 (\<lambda>v t. (v, t) \<in> set \<Gamma>) xs ts" "addCiraLLVMTypeConversions base t = Some u"
  shows "calls base \<Gamma> (call1 f t xs) (\<lambda>v. [(v, u)])"
  unfolding call1_def
proof (rule callsI1 [OF _ assms(3)])
  fix s s' :: "'a rewriter"
  assume h: "has_types base s' \<Gamma>" and t: "typed base s' (rw_value s) u"
  from call_types [OF h assms(2)]
  show "call_ok base s' (Op (rw_id s) ''LLVM::CallOp'' xs [rw_value s] [(''callee'', Str_Attr f)] []) \<and>
      list_all (\<lambda>v. v < rw_value s') xs"
    using assms(1) t by (simp add: call_ok_def str_attr_callee typed_def call_type_def)
qed

lemma calls_other:
  assumes "k \<noteq> ''LLVM::CallOp''"
  shows "calls base \<Gamma> (create0 k xs as) (\<lambda>_. [])"
    "addCiraLLVMTypeConversions base t = Some u \<Longrightarrow> calls base \<Gamma> (create1 k t xs as) (\<lambda>v. [(v, u)])"
  using assms by (auto intro!: callsI0 callsI1 simp: runtime_call_def)

lemma calls_intrinsic: "intrinsic f \<Longrightarrow> calls base \<Gamma> (call0 f xs) (\<lambda>_. [])"
  unfolding call0_def by (rule callsI0) (simp add: runtime_call_def str_attr_callee)


text \<open>The functions the patterns call, as declared.\<close>

lemma declared_functions:
  "declared_call ''cira_translate_paddr'' [ptr_type, ptr_type] [i64]" "declared_call ''cira_llc_tile_alloc'' [i64] [ptr_type]"
  "declared_call ''cira_llc_tile_free'' [ptr_type] []" "declared_call ''cira_install_cacheline_x86'' [ptr_type, i64, i32] []"
  "declared_call ''__vortex_install_cacheline'' [ptr_type, i64, i32] []" "declared_call ''cira_evict_hint_x86'' [ptr_type, i64] []"
  "declared_call ''__vortex_prefetch_chain'' [ptr_type, i64, i64] []"
  "declared_call ''__vortex_prefetch_chain_kernel'' [ptr_type, i64] []" "declared_call ''cira_future_alloc'' [] [ptr_type]"
  "declared_call ''cira_future_await'' [ptr_type] [ptr_type]" "declared_call ''cira_phase_barrier'' [] []"
  "declared_call ''cira_type2_cache_load'' [ptr_type, ptr_type, i64, ptr_type] [ptr_type]"
  "declared_call ''cira_type2_cache_store'' [ptr_type, ptr_type, ptr_type, i64] []"
  "declared_call ''cira_type2_drain_delay_buffer'' [ptr_type] []"
  "declared_call ''cira_offload_submit'' [ptr_type, ptr_type, i32, ptr_type] []"
  "declared_call ''cira_get_device_func_addr'' [] [ptr_type]"
  by (simp_all add: declared_call_def cira_runtime_h_def)

lemma intrinsics:
  "intrinsic ''llvm.prefetch.p0''" "intrinsic ''llvm.aarch64.prefetch.p0''" "intrinsic ''llvm.nvvm.prefetch.global''"
  "intrinsic ''llvm.x86.sse2.clflush''" "intrinsic ''llvm.aarch64.dc.civac''" "intrinsic ''llvm.nvvm.membar.gl''"
  by (simp_all add: intrinsic_def)

lemmas calls_intrinsics [calls_intros] = intrinsics [THEN calls_intrinsic]

lemma calls_values [calls_intros]:
  assumes "llvm_converter base"
  shows "calls base \<Gamma> (const_i32 n) (\<lambda>v. [(v, i32)])" "calls base \<Gamma> (const_i64 n) (\<lambda>v. [(v, i64)])"
    "calls base \<Gamma> null_ptr (\<lambda>v. [(v, ptr_type)])" "calls base \<Gamma> (const_attr d l) (\<lambda>v. [(v, i64)])"
    "calls base \<Gamma> fence (\<lambda>_. [])"
  using llvm_types [OF assms]
  by (simp_all add: const_i32_def const_i64_def null_ptr_def const_attr_def fence_def calls_other)

lemma calls_pointer [calls_intros]:
  "llvm_converter base \<Longrightarrow> k \<noteq> ''LLVM::CallOp'' \<Longrightarrow> calls base \<Gamma> (create1 k ptr_type xs as) (\<lambda>v. [(v, ptr_type)])"
  "llvm_converter base \<Longrightarrow> declared_call f ts [ptr_type] \<Longrightarrow> list_all2 (\<lambda>v t. (v, t) \<in> set \<Gamma>) xs ts \<Longrightarrow>
     calls base \<Gamma> (call1 f ptr_type xs) (\<lambda>v. [(v, ptr_type)])"
  by (simp_all add: calls_other calls_call1 llvm_types)

text \<open>An operation other than a call, whatever the type of its result.\<close>

lemma calls_any [calls_intros]:
  fixes as :: "(string \<times> 'd attribute) list"
  assumes "k \<noteq> ''LLVM::CallOp''"
  shows "calls base \<Gamma> (create1 k t xs as) (\<lambda>_. [])"
  unfolding calls_def create1_def state.sel prod.case append_Nil
proof (intro allI impI)
  fix s :: "'d rewriter"
  let ?c = "Op (rw_id s) k xs [rw_value s] as []"
  let ?s' = "(emit ?c s)\<lparr>rw_value := Suc (rw_value s), rw_types := (rw_types s)(rw_value s := t)\<rparr>"
  assume s: "calls_ok base s" "has_types base s \<Gamma>"
  have e: "extends_types s ?s'" "rw_ops ?s' = rw_ops s @ [?c]" by (simp_all add: extends_types_def emit_def)
  note more = one_more [OF s e]
  show "calls_ok base ?s' \<and> has_types base ?s' \<Gamma>" using assms by (intro conjI more) (simp_all add: runtime_call_def)
qed

lemma calls_read [calls_intros]:
  "calls base \<Gamma> (type_of v) (\<lambda>_. [])" "calls base \<Gamma> (types_of vs) (\<lambda>_. [])" "calls base \<Gamma> (result_type conv d) (\<lambda>_. [])"
  "calls base \<Gamma> (operand_type conv v) (\<lambda>_. [])"
  by (simp_all add: calls_def type_of_def types_of_def result_type_def operand_type_def)

lemma calls_prefetch [calls_intros]:
  assumes "llvm_converter base"
  shows "calls base \<Gamma> (generic_prefetch v) (\<lambda>_. [])" "calls base \<Gamma> (emitPrefetchForTarget v arch) (\<lambda>_. [])"
  unfolding generic_prefetch_def emitPrefetchForTarget_def
  by (rule calls_intros assms)+

lemma calls_pack [calls_intros]: "llvm_converter base \<Longrightarrow> calls base \<Gamma> (pack_operands a i xs) (\<lambda>_. [])"
proof (induction a i xs arbitrary: \<Gamma> rule: pack_operands.induct)
  case (2 a i x xs)
  show ?case unfolding pack_operands.simps
    by (rule calls_intros 2 | rule calls_other | simp)+
qed (simp add: calls_return)

lemma calls_submit [calls_intros]: "llvm_converter base \<Longrightarrow> calls base \<Gamma> (submit_offload d) (\<lambda>_. [])"
  unfolding submit_offload_def
  by (rule calls_intros declared_functions | assumption | rule calls_other calls_call0 | simp)+


section \<open>The patterns\<close>

lemma calls_patterns:
  assumes "llvm_converter base"
  shows "calls base \<Gamma> (LoadEdgeOpLowering c a d) (\<lambda>_. [])" "calls base \<Gamma> (EvictEdgeOpLowering c a d) (\<lambda>_. [])"
    "calls base \<Gamma> (LoadNodeOpLowering c a d) (\<lambda>_. [])" "calls base \<Gamma> (LoadAsyncOpLowering c a d) (\<lambda>_. [])"
    "calls base \<Gamma> (StoreAsyncOpLowering c a d) (\<lambda>_. [])" "calls base \<Gamma> (FlushOpLowering c a d) (\<lambda>_. [])"
    "calls base \<Gamma> (PrefetchStreamOpLowering c a d) (\<lambda>_. [])" "calls base \<Gamma> (FutureCreateOpLowering c a d) (\<lambda>_. [])"
    "calls base \<Gamma> (BarrierOpLowering c a d) (\<lambda>_. [])" "calls base \<Gamma> (PhaseBoundaryOpLowering c a d) (\<lambda>_. [])"
    "calls base \<Gamma> (StreamCreateIndirectOpLowering c a d) (\<lambda>_. [])" "calls base \<Gamma> (PeekStreamOpLowering c a d) (\<lambda>_. [])"
    "calls base \<Gamma> (AdvanceStreamOpLowering c a d) (\<lambda>_. [])" "calls base \<Gamma> (Type2MemLoadOpLowering c a d) (\<lambda>_. [])"
    "calls base \<Gamma> (Type2MemStoreOpLowering c a d) (\<lambda>_. [])" "calls base \<Gamma> (Type2DrainOpLowering c a d) (\<lambda>_. [])"
    "calls base \<Gamma> (GenericOffloadOpLowering c a d) (\<lambda>_. [])"
  unfolding flat_patterns
  by (rule calls_intros declared_functions assms | rule calls_other(1) calls_call0 | simp)+

lemma calls_patterns_typed:
  assumes "llvm_converter base" "(operand d 0, ptr_type) \<in> set \<Gamma>"
  shows "calls base \<Gamma> (PrefetchIndirectOpLowering c a d) (\<lambda>_. [])" "calls base \<Gamma> (FutureAwaitOpLowering c a d) (\<lambda>_. [])"
    "calls base \<Gamma> (ReleaseOpLowering c a d) (\<lambda>_. [])" "calls base \<Gamma> (PrefetchChainOpLowering c a d) (\<lambda>_. [])"
    "(operand d 1, i64) \<in> set \<Gamma> \<Longrightarrow> calls base \<Gamma> (InstallCachelineOpLowering c a d) (\<lambda>_. [])"
    "(1 < length (op_operands d) \<Longrightarrow> (operand d 1, i64) \<in> set \<Gamma>) \<Longrightarrow> calls base \<Gamma> (EvictHintOpLowering c a d) (\<lambda>_. [])"
    "(operand d 1, i64) \<in> set \<Gamma> \<Longrightarrow> calls base \<Gamma> (Type2CacheLoadOpLowering c a d) (\<lambda>_. [])"
proof -
  have evict: "calls base \<Gamma> (if 1 < length (op_operands d) then call0 ''cira_evict_hint_x86'' [operand d 0, operand d 1]
         else do { defaultSize \<leftarrow> const_i64 64; call0 ''cira_evict_hint_x86'' [operand d 0, defaultSize] }) (\<lambda>_. [])"
    if "1 < length (op_operands d) \<Longrightarrow> (operand d 1, i64) \<in> set \<Gamma>"
    using that by (cases "1 < length (op_operands d)")
      (simp_all, (rule calls_intros declared_functions assms calls_call0 | simp add: assms)+)
  show "calls base \<Gamma> (EvictHintOpLowering c a d) (\<lambda>_. [])" if "1 < length (op_operands d) \<Longrightarrow> (operand d 1, i64) \<in> set \<Gamma>"
    unfolding EvictHintOpLowering_def by (rule evict that calls_intros | assumption)+
  show "calls base \<Gamma> (PrefetchIndirectOpLowering c a d) (\<lambda>_. [])" "calls base \<Gamma> (FutureAwaitOpLowering c a d) (\<lambda>_. [])"
    "calls base \<Gamma> (ReleaseOpLowering c a d) (\<lambda>_. [])" "calls base \<Gamma> (PrefetchChainOpLowering c a d) (\<lambda>_. [])"
    "(operand d 1, i64) \<in> set \<Gamma> \<Longrightarrow> calls base \<Gamma> (InstallCachelineOpLowering c a d) (\<lambda>_. [])"
    "(operand d 1, i64) \<in> set \<Gamma> \<Longrightarrow> calls base \<Gamma> (Type2CacheLoadOpLowering c a d) (\<lambda>_. [])"
    unfolding flat_patterns Let_def
    by (rule calls_intros declared_functions assms | rule calls_other(1) calls_call0 | simp add: assms)+
qed

lemma calls_alloc:
  assumes "llvm_converter base" "(operand d 0, i64) \<in> set \<Gamma>"
  shows "calls base \<Gamma> (AllocCxlOpLowering c a d) (\<lambda>_. [])"
  unfolding AllocCxlOpLowering_def
  by (rule calls_intros declared_functions assms | simp add: assms)+

lemma calls_store:
  assumes "llvm_converter base" "(operand d 1, ptr_type) \<in> set \<Gamma>"
  shows "calls base \<Gamma> (Type2CacheStoreOpLowering c a d) (\<lambda>_. [])"
  unfolding Type2CacheStoreOpLowering_def
  by (rule calls_intros declared_functions assms | rule calls_other(1) calls_call0 | simp add: assms(2) [simplified])+

text \<open>\<open>get_paddr\<close> calls with the type of its result, an index.\<close>

lemma calls_paddr:
  fixes d :: "'d op"
  assumes "llvm_converter base" "c = addCiraLLVMTypeConversions base" "(operand d 0, ptr_type) \<in> set \<Gamma>"
    "(hd (op_results d), i64) \<in> set \<Gamma>"
  shows "calls base \<Gamma> (GetPaddrOpLowering c a d) (\<lambda>_. [])"
proof -
  let ?body = "\<lambda>t. do { nullFieldName \<leftarrow> null_ptr; translated \<leftarrow> call1 ''cira_translate_paddr'' t [nullFieldName, operand d 0];
    State_Monad.return (Replaced [translated]) }"
  have "calls base \<Gamma> (?body i64) (\<lambda>_. [])"
    using llvm_types(2) [OF assms(1), of 64]
    by (rule_tac calls_intros declared_functions assms(1) calls_call1 | simp add: assms(3))+
  moreover have "run_state (GetPaddrOpLowering c a d) s = run_state (?body i64) s" if "has_types base s \<Gamma>" for s :: "'d rewriter"
  proof -
    have "typed base s (hd (op_results d)) i64" using that assms(4) by (auto simp: has_types_def list_all_iff)
    then show ?thesis by (simp add: GetPaddrOpLowering_def result_type_def type_of_def typed_def assms(2))
  qed
  ultimately show ?thesis by (simp add: calls_def)
qed


lemma clone_new_values:
  assumes "clone b (m, n, k) = (c, m', n', k')"
  shows "n \<le> n'" "v \<in> set (defined_in b) \<Longrightarrow> n \<le> lookup m' v" "op_kind c = op_kind b" "op_attrs c = op_attrs b"
proof -
  let ?vs = "defined_in b"
  have m': "m' = zip ?vs [n..<n + length ?vs] @ m" and "n' = n + length ?vs"
    using assms by (auto simp: clone_def Let_def)
  then show "n \<le> n'" by simp
  show "n \<le> lookup m' v" if "v \<in> set ?vs"
  proof -
    obtain u where u: "map_of (zip ?vs [n..<n + length ?vs]) v = Some u"
      using \<open>v \<in> set ?vs\<close> by (cases "map_of (zip ?vs [n..<n + length ?vs]) v") (auto simp: map_of_zip_is_None)
    then have "u \<in> set [n..<n + length ?vs]" by (meson map_of_SomeD set_zip_rightD)
    then show ?thesis using u by (simp add: lookup_def m')
  qed
  show "op_kind c = op_kind b" "op_attrs c = op_attrs b" using assms by (auto simp: clone_def Let_def)
qed

lemma calls_clone:
  fixes b :: "'d op"
  assumes "\<not> runtime_call b"
  shows "calls base \<Gamma> (clone_into b m) (\<lambda>_. [])"
  unfolding calls_def
proof (intro allI impI)
  fix s :: "'d rewriter"
  assume s: "calls_ok base s" "has_types base s \<Gamma>"
  obtain c m' n k where c: "clone b (m, rw_value s, rw_id s) = (c, m', n, k)" by (metis prod_cases4)
  note new = clone_new_values [OF c]
  let ?s' = "s\<lparr>rw_value := n, rw_id := k, rw_ops := rw_ops s @ [c],
    rw_types := set_types (map (\<lambda>v. (lookup m' v, rw_types s v)) (defined_in b)) (rw_types s)\<rparr>"
  have "set_types (map (\<lambda>v. (lookup m' v, rw_types s v)) (defined_in b)) (rw_types s) v = rw_types s v" if "v < rw_value s" for v
  proof -
    have "v \<noteq> lookup m' u" if "u \<in> set (defined_in b)" for u using new(2) [OF that] \<open>v < rw_value s\<close> by simp
    then have "map_of (map (\<lambda>v. (lookup m' v, rw_types s v)) (defined_in b)) v = None" by (fastforce simp: map_of_eq_None_iff)
    then show ?thesis by (simp add: set_types_def)
  qed
  then have e: "extends_types s ?s'" using new(1) by (simp add: extends_types_def)
  have "\<not> runtime_call c" using assms new(3,4) by (simp add: runtime_call_def str_attr_def get_attr_def)
  then have "calls_ok base ?s'" "has_types base ?s' \<Gamma>"
    using one_more [OF s e] by (simp_all add: call_ok_def)
  then show "case run_state (clone_into b m) s of (x, s') \<Rightarrow> calls_ok base s' \<and> has_types base s' ([] @ \<Gamma>)"
    by (simp add: clone_into_def c)
qed

lemma calls_bodies:
  fixes bs :: "'d op list"
  assumes "list_all (\<lambda>b. \<not> runtime_call b) bs"
  shows "calls base \<Gamma> (clone_body bs) (\<lambda>_. [])" "calls base \<Gamma> (inline_body bs m) (\<lambda>_. [])" "calls base \<Gamma> (clone_each bs) (\<lambda>_. [])"
  using assms
proof (induction bs arbitrary: \<Gamma> m)
  case (Cons b bs)
  {
    case 1 then show ?case using Cons.IH(1) by (auto intro!: calls_bind [where R = "\<lambda>_. []"] calls_return calls_clone)
  next
    case 2 then show ?case using Cons.IH(2) by (auto intro!: calls_bind [where R = "\<lambda>_. []"] calls_return calls_clone)
  next
    case 3 then show ?case using Cons.IH(3) by (auto intro!: calls_bind [where R = "\<lambda>_. []"] calls_clone)
  }
qed (simp_all add: calls_return)

lemma pattern_calls:
  assumes "llvm_converter base" "map_of (populateCiraToLLVMConversionPatterns base) (op_kind d) = Some p"
    "op_kind d \<noteq> ''CallOp''" "verify_op d" "list_all (\<lambda>b. \<not> runtime_call b) (body_ops d)"
  shows "calls base (expected d) (p arch d) (\<lambda>_. [])"
proof -
  let ?c = "addCiraLLVMTypeConversions base"
  have spec: "calls base (expected d) (SpeculateOpLowering ?c arch d) (\<lambda>_. [])"
    unfolding SpeculateOpLowering_def by (rule calls_bind calls_bodies assms(5) calls_return)+
  have region: "calls base (expected d) (OffloadRegionOpLowering ?c arch d) (\<lambda>_. [])"
    unfolding OffloadRegionOpLowering_def by (rule calls_intros assms(1) calls_bodies(2) assms(5))+
  have start: "calls base (expected d) (OffloadStartOpLowering ?c arch d) (\<lambda>_. [])"
    unfolding OffloadStartOpLowering_def by (rule calls_bind calls_bodies assms(5) calls_return)+
  have v: "(case map_of cira_signature (op_kind d) of None \<Rightarrow> True
      | Some (lo, hi, n) \<Rightarrow> lo \<le> length (op_operands d) \<and> (case hi of None \<Rightarrow> True | Some h \<Rightarrow> length (op_operands d) \<le> h) \<and>
          (case n of None \<Rightarrow> True | Some r \<Rightarrow> length (op_results d) = r))"
    using assms(4) by (simp add: verify_op_def)
  have one: "(operand d 0, ptr_type) \<in> set (expected d)"
    if "op_kind d \<in> {''PrefetchIndirectOp'', ''FutureAwaitOp'', ''ReleaseOp'', ''PrefetchChainOp'', ''InstallCachelineOp'',
      ''EvictHintOp'', ''Type2CacheLoadOp'', ''GetPaddrOp''}"
    using that v by (cases "op_operands d") (auto simp: expected_def cira_operand_types_def cira_signature_def isa_def)
  have two: "(operand d 1, i64) \<in> set (expected d)"
    if "op_kind d \<in> {''InstallCachelineOp'', ''Type2CacheLoadOp''} \<or> op_kind d = ''EvictHintOp'' \<and> 1 < length (op_operands d)"
    using that v by (cases "op_operands d"; cases "tl (op_operands d)")
      (auto simp: expected_def cira_operand_types_def cira_signature_def isa_def)
  have store: "(operand d 1, ptr_type) \<in> set (expected d)" if "op_kind d = ''Type2CacheStoreOp''"
    using that v by (cases "op_operands d"; cases "tl (op_operands d)")
      (auto simp: expected_def cira_operand_types_def cira_signature_def isa_def)
  have tile: "(operand d 0, i64) \<in> set (expected d)" if "op_kind d = ''AllocCxlOp''"
    using that v by (cases "op_operands d") (auto simp: expected_def cira_operand_types_def cira_signature_def isa_def)
  have paddr: "(hd (op_results d), i64) \<in> set (expected d)" if "op_kind d = ''GetPaddrOp''"
    using that v by (cases "op_results d") (auto simp: expected_def cira_operand_types_def cira_signature_def isa_def)
  note flat = calls_patterns [OF assms(1), of "expected d" ?c arch d]
  have mem: "(op_kind d, p) \<in> set (populateCiraToLLVMConversionPatterns base)" using assms(2) by (rule map_of_SomeD)
  then show ?thesis
    using assms(3) flat spec region start calls_patterns_typed [OF assms(1), of d "expected d" ?c arch]
      calls_store [OF assms(1) store, of ?c arch] calls_alloc [OF assms(1) tile, of ?c arch] calls_paddr [OF assms(1) refl one paddr, of arch] one two
    unfolding populateCiraToLLVMConversionPatterns_def Let_def set_simps insert_iff prod.inject
    by (elim disjE conjE) simp_all
qed



end
