(* ===== verification/Offload_Inline.thy ===== *)
theory Offload_Inline
  imports Conversion_Progress
begin

text \<open>
  What the lowering of an offload leaves on the host: the body is inlined, with the operands in the place of
  the block arguments. For other regions the lowering loses values: \<open>speculate\<close> and \<open>offload_start\<close> clone
  their bodies without relating the clones to each other.
\<close>

section \<open>New values\<close>

named_theorems fresh_intros

text \<open>A step only defines values that were not used.\<close>

definition fresh :: "('d, 'a) rewriting \<Rightarrow> bool" where
  "fresh m \<longleftrightarrow> (\<forall>s. case run_state m s of (x, s') \<Rightarrow> rw_value s \<le> rw_value s' \<and>
     (\<exists>new. rw_ops s' = rw_ops s @ new \<and> list_all (\<lambda>c. list_all (\<lambda>v. rw_value s \<le> v) (op_results c)) new))"

lemma fresh_return [fresh_intros]: "fresh (State_Monad.return x)"
  by (simp add: fresh_def)

lemma fresh_bind [fresh_intros]:
  fixes m :: "('d, 'a) rewriting"
  assumes "fresh m" "\<And>x. fresh (f x)"
  shows "fresh (m \<bind> f)"
  unfolding fresh_def
proof
  fix s :: "'d rewriter"
  obtain x s1 where m: "run_state m s = (x, s1)" by (rule prod.exhaust)
  obtain y s2 where f: "run_state (f x) s1 = (y, s2)" by (rule prod.exhaust)
  obtain n1 where n1: "rw_value s \<le> rw_value s1" "rw_ops s1 = rw_ops s @ n1"
      "list_all (\<lambda>c. list_all (\<lambda>v. rw_value s \<le> v) (op_results c)) n1"
    using assms(1) [unfolded fresh_def, rule_format, of s] unfolding m by auto
  obtain n2 where n2: "rw_value s1 \<le> rw_value s2" "rw_ops s2 = rw_ops s1 @ n2"
      "list_all (\<lambda>c. list_all (\<lambda>v. rw_value s1 \<le> v) (op_results c)) n2"
    using assms(2) [of x, unfolded fresh_def, rule_format, of s1] unfolding f by auto
  have "list_all (\<lambda>c. list_all (\<lambda>v. rw_value s \<le> v) (op_results c)) n2"
    using n1(1) n2(3) by (auto simp: list_all_iff intro: order_trans)
  then show "case run_state (m \<bind> f) s of (x, s') \<Rightarrow> rw_value s \<le> rw_value s' \<and>
     (\<exists>new. rw_ops s' = rw_ops s @ new \<and> list_all (\<lambda>c. list_all (\<lambda>v. rw_value s \<le> v) (op_results c)) new)"
    using m f n1 n2 by simp
qed

lemma fresh_if [fresh_intros]: "fresh m \<Longrightarrow> fresh n \<Longrightarrow> fresh (if b then m else n)"
  by simp

lemma fresh_create [fresh_intros]: "fresh (create0 k xs as)" "fresh (create1 k t xs as)"
  by (simp_all add: fresh_def create0_def create1_def emit_def)

lemma fresh_emitters [fresh_intros]:
  "fresh (const_i32 n)" "fresh (const_i64 n)" "fresh (call0 f xs)" "fresh (call1 f t xs)" "fresh null_ptr"
  by (simp_all add: const_i32_def const_i64_def call0_def call1_def null_ptr_def fresh_create)

lemma fresh_pack [fresh_intros]: "fresh (pack_operands a i xs)"
  by (induction a i xs rule: pack_operands.induct) (auto intro!: fresh_intros)

lemma fresh_submit [fresh_intros]: "fresh (submit_offload d)"
  unfolding submit_offload_def by (rule fresh_intros)+

section \<open>The inlined body\<close>

lemma inline_yields:
  assumes "\<forall>y \<in> set ys. isa y [''YieldOp'']"
  shows "run_state (inline_body ys m) s = (map (lookup m) (concat (map op_operands ys)), s)"
  using assms by (induction ys) auto

lemma run_clone_into_eq:
  assumes "clone b (m, rw_value s, rw_id s) = (c, m', n, k)"
  shows "\<exists>s1. run_state (clone_into b m) s = (m', s1) \<and> rw_value s1 = n \<and> rw_id s1 = k \<and> rw_ops s1 = rw_ops s @ [c]"
  using assms by (simp add: clone_into_def)

lemma inline_body_clones:
  assumes "\<forall>d \<in> set ds. \<not> isa d [''YieldOp'']" "\<forall>y \<in> set ys. isa y [''YieldOp'']"
    "clone_all ds (m, rw_value s, rw_id s) = (cs, m', n, k)" "run_state (inline_body (ds @ ys) m) s = (vs, s')"
  shows "rw_ops s' = rw_ops s @ cs \<and> vs = map (lookup m') (concat (map op_operands ys))"
  using assms
proof (induction ds arbitrary: m s cs)
  case Nil
  then show ?case using inline_yields [OF Nil(2), of m s] by simp
next
  case (Cons d ds)
  obtain c m1 n1 k1 where c: "clone d (m, rw_value s, rw_id s) = (c, m1, n1, k1)" by (metis prod_cases4)
  obtain s1 where s1: "run_state (clone_into d m) s = (m1, s1)" "rw_value s1 = n1" "rw_id s1 = k1" "rw_ops s1 = rw_ops s @ [c]"
    using run_clone_into_eq [OF c] by blast
  obtain cs' where cs': "clone_all ds (m1, rw_value s1, rw_id s1) = (cs', m', n, k)" "cs = c # cs'"
    using Cons.prems(3) c s1 by (auto split: prod.splits)
  have "run_state (inline_body (ds @ ys) m1) s1 = (vs, s')" using Cons.prems(1,4) s1(1) by simp
  then show ?case using Cons.IH [OF _ Cons.prems(2) cs'(1)] Cons.prems(1) s1(4) cs'(2) by simp
qed

lemma clone_all_append:
  "clone_all (ds @ es) \<beta> = (case clone_all ds \<beta> of (cs, \<beta>') \<Rightarrow> case clone_all es \<beta>' of (cs', \<beta>'') \<Rightarrow> (cs @ cs', \<beta>''))"
  by (induction ds arbitrary: \<beta>) (simp_all split: prod.splits)

lemma run_ops_append: "run_ops I (ds @ es) env = run_ops I es (run_ops I ds env)"
  by (induction ds arbitrary: env) simp_all

lemma run_ops_cong:
  "(\<And>d. d \<in> set ds \<Longrightarrow> \<forall>as xs. I (op_kind d) as xs = I' (op_kind d) as xs) \<Longrightarrow> run_ops I ds env = run_ops I' ds env"
  by (induction ds arbitrary: env) (simp_all add: apply_op_def)

lemma list_all2_snoc: "list_all2 P (xs @ [x]) (ys @ [y]) \<longleftrightarrow> list_all2 P xs ys \<and> P x y"
  using list_all2_rev [of P "xs @ [x]" "ys @ [y]"] by simp (metis list_all2_rev)

text \<open>Values looked up in the mapping after cloning have the values of their originals.\<close>

lemma clone_all_yield:
  fixes ds :: "'d op list"
  assumes "closed_ops (fst ` set mapping) ds" "\<forall>d \<in> set ds. simple d" "clone_all ds (mapping, n, k) = (cs, mapping', n', k')"
    and "\<forall>v \<in> fst ` set mapping. lookup mapping v < n \<and> dev (lookup mapping v) = env v"
    and "\<forall>d \<in> set ds. solves I env d" "\<forall>d \<in> set ds. \<not> isa d [''YieldOp'']"
    and "set ys \<subseteq> fst ` set mapping \<union> (\<Union>d \<in> set ds. set (op_results d))"
  shows "map (run_ops I cs dev) (map (lookup mapping') ys) = map env ys"
proof -
  let ?y = "Op 0 ''YieldOp'' ys [] [] [] :: 'd op"
  let ?I = "\<lambda>k as xs. if k = ''YieldOp'' then [] else I k as xs"
  have "simple ?y" by (simp add: simple_def)
  then have "clone_all (ds @ [?y]) (mapping, n, k) = (cs @ [Op k' ''YieldOp'' (map (lookup mapping') ys) [] [] []], mapping', n', Suc k')"
    using assms(3) clone_simple [of ?y mapping' n' k'] by (simp add: clone_all_append)
  moreover have "closed_ops (fst ` set mapping) (ds @ [?y])" using assms(1,7) by (simp add: closed_ops_append)
  moreover have "\<forall>d \<in> set (ds @ [?y]). solves ?I env d" using assms(5,6) by (auto simp: solves_def apply_op_def isa_def)
  ultimately have "list_all2 (\<lambda>d c. op_kind c = op_kind d \<and>
     map (run_ops ?I (cs @ [Op k' ''YieldOp'' (map (lookup mapping') ys) [] [] []]) dev) (op_operands c) = map env (op_operands d) \<and>
     map (run_ops ?I (cs @ [Op k' ''YieldOp'' (map (lookup mapping') ys) [] [] []]) dev) (op_results c) = map env (op_results d))
     (ds @ [?y]) (cs @ [Op k' ''YieldOp'' (map (lookup mapping') ys) [] [] []])"
    using assms(2,4) \<open>simple ?y\<close> by (intro clone_all_run) auto
  note all = this [unfolded list_all2_snoc]
  have kinds: "list_all2 (\<lambda>d c. op_kind c = op_kind d) ds cs"
      and y: "map (run_ops ?I (cs @ [Op k' ''YieldOp'' (map (lookup mapping') ys) [] [] []]) dev) (map (lookup mapping') ys) = map env ys"
    using all [THEN conjunct1] all [THEN conjunct2] by (auto elim: list_all2_mono)
  have "op_kind c \<noteq> ''YieldOp''" if "c \<in> set cs" for c
    using kinds that assms(6) by (auto simp: list_all2_conv_all_nth in_set_conv_nth isa_def) (metis nth_mem)
  then have "run_ops ?I cs dev = run_ops I cs dev" by (intro run_ops_cong) simp
  moreover have "run_ops ?I (cs @ [Op k' ''YieldOp'' (map (lookup mapping') ys) [] [] []]) dev = run_ops ?I cs dev"
    by (rule ext) (simp add: run_ops_append bind_values_def)
  ultimately show ?thesis using y by simp
qed


end
