(* ===== verification/Lowering_Passes.thy ===== *)
theory Lowering_Passes
  imports Lowered_Calls Offload_Inline C_Env
begin

text \<open>
  The passes of \<^verbatim>\<open>src/Conversion/CiraToLLVM.cpp\<close>: for one target each, with the target detected, and for the
  host together with the device, where the body of every offload becomes a kernel function of its own.
\<close>

section \<open>One target\<close>

definition ConvertCiraToLLVMX86Pass :: "type_converter \<Rightarrow> (nat \<Rightarrow> mtype) \<Rightarrow> 'd op \<Rightarrow> 'd op option" where
  "ConvertCiraToLLVMX86Pass base ty m =
     convert_cira_to_llvm base X86 ty (set_attr ''llvm.target_triple'' (Str_Attr ''x86_64-unknown-linux-gnu'') m)"

definition ConvertCiraToLLVMARMPass :: "type_converter \<Rightarrow> (nat \<Rightarrow> mtype) \<Rightarrow> 'd op \<Rightarrow> 'd op option" where
  "ConvertCiraToLLVMARMPass base ty m =
     convert_cira_to_llvm base ARM ty (set_attr ''llvm.target_triple'' (Str_Attr ''aarch64-unknown-linux-gnu'') m)"

definition device_ops :: "string list" where
  "device_ops = [''LoadEdgeOp'', ''LoadNodeOp'', ''EvictEdgeOp'', ''InstallCachelineOp'', ''PrefetchChainOp'',
     ''PrefetchIndirectOp'', ''PrefetchStreamOp'', ''OffloadRegionOp'']"

text \<open>A function is a kernel if something in it runs on the device, or if it is marked.\<close>

definition hasOffload :: "'d op \<Rightarrow> bool" where
  "hasOffload f \<longleftrightarrow> list_ex (\<lambda>e. isa e device_ops \<or> has_attr f ''vortex.kernel'') (post_op f)"

definition mark_kernel :: "'d op \<Rightarrow> 'd op" where
  "mark_kernel f =
     (if isa f [''func::FuncOp''] \<and> hasOffload f
      then set_attrs [(''nvvm.kernel'', Unit_Attr), (''nvvm.maxntid'', Array_Attr [256, 1, 1])] f else f)"

definition ConvertCiraToLLVMVortexPass :: "type_converter \<Rightarrow> (nat \<Rightarrow> mtype) \<Rightarrow> 'd op \<Rightarrow> 'd op option" where
  "ConvertCiraToLLVMVortexPass base ty m =
     convert_cira_to_llvm base RISCV_VORTEX ty (walk_op mark_kernel (set_attrs
       [(''llvm.target_triple'', Str_Attr ''nvptx64-nvidia-cuda''), (''vortex.target'', Unit_Attr),
        (''llvm.data_layout'', Str_Attr (''e-p:64:64:64-i1:8:8-i8:8:8-i16:16:16-i32:32:32-'' @
           ''i64:64:64-f32:32:32-f64:64:64-v16:16:16-v32:32:32-'' @ ''v64:64:64-v128:128:128-n16:32:64''))] m))"

definition ConvertCiraToLLVMPass ::
  "(string \<Rightarrow> triple) \<Rightarrow> string \<Rightarrow> type_converter \<Rightarrow> (nat \<Rightarrow> mtype) \<Rightarrow> 'd op \<Rightarrow> 'd op option" where
  "ConvertCiraToLLVMPass parse targetArch base ty m =
     convert_cira_to_llvm base (getTargetArchitecture parse targetArch m) ty m"

section \<open>Host and device\<close>

text \<open>The kernel of an offload: a function without arguments, with the body cloned through an empty mapping.\<close>

definition kernel_name :: "nat \<Rightarrow> 'd op \<Rightarrow> string" where
  "kernel_name kernelId d =
     (case str_attr d ''region_name'' of
        Some n \<Rightarrow> ''__vortex_'' @ n | None \<Rightarrow> ''__vortex_kernel_'' @ dec_digits kernelId)"

definition copied_attr :: "'d op \<Rightarrow> string \<Rightarrow> (string \<times> 'd attribute) list" where
  "copied_attr d n = (case get_attr d n of Some a \<Rightarrow> [(n, a)] | None \<Rightarrow> [])"

definition kernel_attrs :: "nat \<Rightarrow> 'd op \<Rightarrow> (string \<times> 'd attribute) list" where
  "kernel_attrs kernelId d =
     [(''sym_name'', Str_Attr (kernel_name kernelId d)), (''vortex.kernel'', Unit_Attr), (''nvvm.kernel'', Unit_Attr),
      (''target-cpu'', Str_Attr ''riscv64-vortex'')] @ copied_attr d ''cira.access_pattern'' @ copied_attr d ''cira.chain_depth_estimate''"

definition kernel_ops :: "'d op \<Rightarrow> 'd op list" where
  "kernel_ops d = filter (\<lambda>b. \<not> isa b [''YieldOp'']) (body_ops d)"

definition kernel_body :: "'d op \<Rightarrow> nat \<Rightarrow> nat \<Rightarrow> 'd op list \<times> builder" where
  "kernel_body d n k = clone_all (kernel_ops d) ([], n, k)"

definition kernel_func :: "nat \<Rightarrow> 'd op \<Rightarrow> nat \<Rightarrow> nat \<Rightarrow> 'd op" where
  "kernel_func kernelId d n k =
     Op k ''func::FuncOp'' [] [] (kernel_attrs kernelId d)
       [[Block [] (fst (kernel_body d n (k + 2)) @ [Op (Suc k) ''func::ReturnOp'' [] [] [] []])]]"

fun append_to_module :: "'d op \<Rightarrow> 'd op \<Rightarrow> 'd op" where
  "append_to_module f (Op i k xs rs as bs) =
     Op i k xs rs as (case bs of ((Block args ds # cs) # qs) \<Rightarrow> (Block args (ds @ [f]) # cs) # qs | _ \<Rightarrow> bs)"

text \<open>One kernel for each offload, with the types of the values that are cloned.\<close>

fun extract_kernels :: "nat \<Rightarrow> 'd op list \<Rightarrow> 'd op \<times> (nat \<Rightarrow> mtype) \<Rightarrow> 'd op \<times> (nat \<Rightarrow> mtype)" where
  "extract_kernels kernelId [] mt = mt"
| "extract_kernels kernelId (d # ds) (m, ty) =
     (let n = next_value m; k = next_op m; mapping = fst (snd (kernel_body d n (k + 2)))
      in extract_kernels (Suc kernelId) ds
           (append_to_module (kernel_func kernelId d n k) m,
            set_types (map (\<lambda>v. (lookup mapping v, ty v)) (concat (map defined_in (kernel_ops d)))) ty))"

definition mark_host :: "'d op \<Rightarrow> 'd op" where
  "mark_host f =
     (if isa f [''func::FuncOp''] \<and> \<not> has_attr f ''vortex.kernel''
      then set_attrs [(''target-cpu'', Str_Attr ''x86-64''), (''target-features'', Str_Attr ''+sse4.2,+avx2,+avx512f'')] f
      else f)"

definition ConvertCiraToLLVMHeteroPass :: "type_converter \<Rightarrow> (nat \<Rightarrow> mtype) \<Rightarrow> 'd op \<Rightarrow> 'd op option" where
  "ConvertCiraToLLVMHeteroPass base ty m =
     (let offloadOps = filter (\<lambda>e. isa e [''OffloadRegionOp'']) (post_op m);
          (m1, ty1) = extract_kernels 0 offloadOps (m, ty)
      in convert_cira_to_llvm base Heterogeneous ty1 (walk_op mark_host m1))"


section \<open>The kernels\<close>

definition module_functions :: "'d op \<Rightarrow> 'd op list" where "module_functions m = body_ops m"

definition is_module :: "'d op \<Rightarrow> bool" where "is_module m \<longleftrightarrow> (\<exists>b. op_regions m = [[b]])"

lemma append_functions:
  assumes "is_module m"
  shows "module_functions (append_to_module f m) = module_functions m @ [f]" "is_module (append_to_module f m)"
proof -
  obtain i k xs rs as args ds where "m = Op i k xs rs as [[Block args ds]]"
    using assms unfolding is_module_def by (metis op.exhaust_sel block.exhaust)
  then show "module_functions (append_to_module f m) = module_functions m @ [f]" "is_module (append_to_module f m)"
    by (simp_all add: module_functions_def body_ops_def is_module_def)
qed

lemma extracted_functions:
  assumes "is_module m" "extract_kernels i ds (m, ty) = (m', ty')"
  shows "\<exists>ks. module_functions m' = module_functions m @ ks \<and> length ks = length ds \<and> is_module m' \<and>
    (\<forall>j < length ds. \<exists>n k. ks ! j = kernel_func (i + j) (ds ! j) n k)"
  using assms
proof (induction ds arbitrary: i m ty)
  case (Cons d ds)
  let ?f = "kernel_func i d (next_value m) (next_op m)"
  have "extract_kernels (Suc i) ds (append_to_module ?f m,
      set_types (map (\<lambda>v. (lookup (fst (snd (kernel_body d (next_value m) (next_op m + 2)))) v, ty v))
        (concat (map defined_in (kernel_ops d)))) ty) = (m', ty')"
    using Cons.prems(2) by (simp add: Let_def)
  from Cons.IH [OF append_functions(2) [OF Cons.prems(1)] this] obtain ks where ks:
    "module_functions m' = module_functions (append_to_module ?f m) @ ks" "length ks = length ds" "is_module m'"
    "\<forall>j < length ds. \<exists>n k. ks ! j = kernel_func (Suc i + j) (ds ! j) n k" by blast
  have "\<exists>n k. (?f # ks) ! j = kernel_func (i + j) ((d # ds) ! j) n k" if "j < length (d # ds)" for j
    using ks(4) that by (cases j) auto
  then show ?case using ks(1,2,3) append_functions(1) [OF Cons.prems(1)] by (intro exI [of _ "?f # ks"]) simp
qed simp


text \<open>What a kernel reads from outside stays: the arguments of the body are not arguments of the kernel.\<close>

lemma clone_all_outer:
  assumes "\<forall>d \<in> set ds. simple d" "clone_all ds (mapping, n, k) = (cs, \<beta>)" "b \<in> set ds" "a \<in> set (op_operands b)"
    "a \<notin> fst ` set mapping" "\<forall>d \<in> set ds. a \<notin> set (op_results d)"
  shows "\<exists>c \<in> set cs. a \<in> set (op_operands c)"
  using assms
proof (induction ds arbitrary: mapping n k cs)
  case (Cons d ds)
  let ?us = "[n..<n + length (op_results d)]"
  obtain c cs' where c: "cs = c # cs'" "op_operands c = map (lookup mapping) (op_operands d)"
      and cs': "clone_all ds (zip (op_results d) ?us @ mapping, n + length (op_results d), Suc k) = (cs', \<beta>)"
    using Cons.prems(1,2) by (auto simp: clone_simple split: prod.splits)
  show ?case
  proof (cases "b = d")
    case True
    have "lookup mapping a = a" using Cons.prems(5) by (simp add: lookup_def map_of_eq_None_iff [THEN iffD2])
    then show ?thesis using c Cons.prems(4) True by (metis image_eqI list.set_intros(1) list.set_map)
  next
    case False
    have "a \<notin> fst ` set (zip (op_results d) ?us @ mapping)" using Cons.prems(5,6) by (auto dest: set_zip_leftD)
    then show ?thesis using Cons.IH [OF _ cs'] Cons.prems False c(1) by auto
  qed
qed simp

theorem kernel_is_not_closed:
  assumes "\<forall>b \<in> set (kernel_ops d). simple b" "b \<in> set (kernel_ops d)" "a \<in> set (op_operands b)"
    "a \<in> set (body_block_args d)" "\<forall>b \<in> set (kernel_ops d). a \<notin> set (op_results b)" "a < n"
  shows "\<not> closed_ops {} (fst (kernel_body d n k))"
proof
  assume closed: "closed_ops {} (fst (kernel_body d n k))"
  obtain cs \<beta> where cs: "clone_all (kernel_ops d) ([], n, k) = (cs, \<beta>)" by (rule prod.exhaust)
  obtain c where c: "c \<in> set cs" "a \<in> set (op_operands c)"
    using clone_all_outer [OF assms(1) cs assms(2,3)] assms(5) by auto
  have used: "u \<in> V \<or> (\<exists>e \<in> set es. u \<in> set (op_results e))"
    if "closed_ops V es" "e \<in> set es" "u \<in> set (op_operands e)" for V u e and es :: "'a op list"
    using that by (induction es arbitrary: V) fastforce+
  obtain e where "e \<in> set cs" "a \<in> set (op_results e)"
    using used [OF _ c] closed cs by (auto simp: kernel_body_def)
  then have "n \<le> a" using clone_all_results [OF assms(1) cs] by blast
  then show False using assms(6) by simp
qed

section \<open>What the patterns leave out\<close>

lemmas run_pattern = emit_def create0_def create1_def const_i32_def const_i64_def call0_def call1_def null_ptr_def
  fence_def generic_prefetch_def emitPrefetchForTarget_def result_type_def type_of_def operand_type_def const_attr_def

definition callees :: "'d op list \<Rightarrow> string option list" where
  "callees ds = map (\<lambda>c. str_attr c ''callee'') (filter (\<lambda>c. isa c [''LLVM::CallOp'']) ds)"

text \<open>The drain of the delay buffer is called with a null pointer, which the runtime dereferences.\<close>

lemma drain_passes_null:
  "rw_ops (snd (run_state (Type2DrainOpLowering conv arch d) s)) = rw_ops s @
     [Op (rw_id s) ''LLVM::ZeroOp'' [] [rw_value s] [] [],
      Op (Suc (rw_id s)) ''LLVM::CallOp'' [rw_value s] [] [(''callee'', Str_Attr ''cira_type2_drain_delay_buffer'')] [],
      Op (rw_id s + 2) ''LLVM::FenceOp'' [] [] [(''ordering'', Str_Attr ''seq_cst'')] []]"
  by (simp add: Type2DrainOpLowering_def run_pattern)

text \<open>
  The load and the store through the cache pass the host address where the runtime wants its controller, and
  a store is of 8 bytes, whatever is stored.
\<close>

lemma cache_load_passes_address_as_controller:
  "\<exists>new. rw_ops (snd (run_state (Type2CacheLoadOpLowering conv arch d) s)) = rw_ops s @
     [Op (rw_id s) ''LLVM::ConstantOp'' [] [rw_value s] [(''value'', Int_Attr 64 1)] [],
      Op (rw_id s + 1) ''LLVM::AllocaOp'' [rw_value s] [rw_value s + 1] [(''elem_type'', Type_Attr i8)] [],
      Op (rw_id s + 2) ''LLVM::CallOp'' [operand d 0, operand d 0, operand d 1, rw_value s + 1] [rw_value s + 2]
        [(''callee'', Str_Attr ''cira_type2_cache_load'')] []] @ new"
  by (simp add: Type2CacheLoadOpLowering_def run_pattern)

lemma cache_store_passes_address_as_controller:
  "\<exists>t. rw_ops (snd (run_state (Type2CacheStoreOpLowering conv arch d) s)) = rw_ops s @
     [Op (rw_id s) ''LLVM::ConstantOp'' [] [rw_value s] [(''value'', Int_Attr 64 1)] [],
      Op (rw_id s + 1) ''LLVM::AllocaOp'' [rw_value s] [rw_value s + 1] [(''elem_type'', Type_Attr t)] [],
      Op (rw_id s + 2) ''LLVM::StoreOp'' [operand d 0, rw_value s + 1] [] [] [],
      Op (rw_id s + 3) ''LLVM::ConstantOp'' [] [rw_value s + 2] [(''value'', Int_Attr 64 8)] [],
      Op (rw_id s + 4) ''LLVM::CallOp'' [operand d 1, operand d 1, rw_value s + 1, rw_value s + 2] []
        [(''callee'', Str_Attr ''cira_type2_cache_store'')] [],
      Op (rw_id s + 5) ''LLVM::ZeroOp'' [] [rw_value s + 3] [] []]"
  by (simp add: Type2CacheStoreOpLowering_def run_pattern eval_nat_numeral)

text \<open>The index of an access, the count and stride of a stream and the delay of a load have no effect.\<close>

lemma index_is_ignored:
  assumes "hd (op_results d) = hd (op_results e)" "operand d 0 = operand e 0" "operand d 1 = operand e 1"
  shows "LoadAsyncOpLowering conv arch d = LoadAsyncOpLowering conv arch e"
    "StoreAsyncOpLowering conv arch d = StoreAsyncOpLowering conv arch e"
    "EvictEdgeOpLowering conv arch d = EvictEdgeOpLowering conv arch e"
    "PrefetchStreamOpLowering conv arch d = PrefetchStreamOpLowering conv arch e"
    "Type2CacheLoadOpLowering conv arch d = Type2CacheLoadOpLowering conv arch e"
    "Type2CacheStoreOpLowering conv arch d = Type2CacheStoreOpLowering conv arch e"
  unfolding flat_patterns result_type_def assms by (rule refl)+

text \<open>
  A future of a load is the data itself, a future of a store is null; \<open>future_await\<close> calls the runtime with
  either as the address of a completion line.
\<close>

lemma future_is_not_a_completion:
  assumes "conv (rw_types s (hd (op_results d))) = Some t"
  shows "\<exists>v i s'. run_state (LoadAsyncOpLowering conv arch d) s = (Replaced [v], s') \<and>
      last (rw_ops s') = Op i ''LLVM::LoadOp'' [operand d 0] [v] [] []"
    "\<exists>v i s'. run_state (StoreAsyncOpLowering conv arch e) s = (Replaced [v], s') \<and>
      last (rw_ops s') = Op i ''LLVM::ZeroOp'' [] [v] [] []"
    "\<exists>i r v s'. run_state (FutureAwaitOpLowering conv arch d) s = (Replaced [v], s') \<and>
      rw_ops s' = rw_ops s @ [Op i ''LLVM::CallOp'' [operand d 0] [r] [(''callee'', Str_Attr ''cira_future_await'')] [],
        Op (Suc i) ''LLVM::LoadOp'' [r] [v] [] []]"
proof -
  show "\<exists>v i s'. run_state (LoadAsyncOpLowering conv arch d) s = (Replaced [v], s') \<and>
      last (rw_ops s') = Op i ''LLVM::LoadOp'' [operand d 0] [v] [] []"
    using assms by (cases arch) (simp_all add: LoadAsyncOpLowering_def run_pattern)
qed (use assms in \<open>simp_all add: StoreAsyncOpLowering_def FutureAwaitOpLowering_def run_pattern\<close>)

text \<open>On ARM lines are neither installed nor evicted, and a chain is prefetched on Vortex only.\<close>

lemma no_operation_elsewhere:
  "run_state (InstallCachelineOpLowering conv ARM d) s = (Erased, s)" "run_state (EvictHintOpLowering conv ARM d) s = (Erased, s)"
  "arch \<noteq> RISCV_VORTEX \<Longrightarrow> run_state (PrefetchChainOpLowering conv arch d) s = (Erased, s)"
  by (simp_all add: InstallCachelineOpLowering_def EvictHintOpLowering_def PrefetchChainOpLowering_def Let_def)

text \<open>The name of a phase does not reach the runtime.\<close>

lemma phase_name_is_dropped: "PhaseBoundaryOpLowering conv arch d = PhaseBoundaryOpLowering conv arch e"
  by (simp add: PhaseBoundaryOpLowering_def)

text \<open>All targets of offloads are the one function the runtime has, and nothing waits for or frees the completion line.\<close>

lemma offload_target_is_ignored:
  assumes "has_attr d ''target''" "has_attr e ''target''" "op_operands d = op_operands e"
  shows "submit_offload d = submit_offload e"
  unfolding submit_offload_def assms(3) eqTrueI [OF assms(1)] eqTrueI [OF assms(2)] by (rule refl)

definition calls_of :: "string option list \<Rightarrow> ('d, 'a) rewriting \<Rightarrow> bool" where
  "calls_of fs m \<longleftrightarrow> (\<forall>s. callees (rw_ops (snd (run_state m s))) = callees (rw_ops s) @ fs)"

lemma calls_of_bind: "calls_of fs m \<Longrightarrow> (\<And>x. calls_of gs (f x)) \<Longrightarrow> calls_of (fs @ gs) (m \<bind> f)"
  by (auto simp: calls_of_def split: prod.split) (metis snd_conv)

lemma calls_of_emitters:
  "calls_of [] (const_i32 n)" "calls_of [] (const_i64 n)" "calls_of [] null_ptr"
  "calls_of [Some f] (call0 f xs)" "calls_of [Some f] (call1 f t xs)"
  "k \<noteq> ''LLVM::CallOp'' \<Longrightarrow> calls_of [] (create0 k xs as)" "k \<noteq> ''LLVM::CallOp'' \<Longrightarrow> calls_of [] (create1 k t xs as)"
  by (simp_all add: calls_of_def run_pattern callees_def isa_def str_attr_def get_attr_def)

lemma calls_of_pack: "calls_of [] (pack_operands a i xs :: ('d, unit) rewriting)"
proof (induction a i xs rule: pack_operands.induct)
  case (2 a i x xs)
  have "calls_of ([] @ [] @ [] @ []) (pack_operands a i (x # xs) :: ('d, unit) rewriting)"
    unfolding pack_operands.simps by (rule calls_of_bind calls_of_emitters 2 | simp)+
  then show ?case by simp
qed (simp add: calls_of_def)

lemma offload_allocates_and_submits:
  "calls_of ([Some ''cira_future_alloc''] @ (if op_operands d \<noteq> [] \<and> has_attr d ''target'' then [Some ''cira_get_device_func_addr''] else []) @
     [Some ''cira_offload_submit'']) (submit_offload d)"
proof -
  let ?t = "if has_attr d ''target'' then [Some ''cira_get_device_func_addr''] else []"
  have t: "calls_of ?t (if has_attr d ''target'' then call1 ''cira_get_device_func_addr'' ptr_type [] else null_ptr)"
    by (simp add: calls_of_emitters)
  show ?thesis
  proof (cases "op_operands d = []")
    case True
    have "calls_of ([Some ''cira_future_alloc''] @ [] @ [] @ [] @ [] @ [] @ [Some ''cira_offload_submit'']) (submit_offload d)"
      unfolding submit_offload_def True by (simp only: simp_thms if_False) (rule calls_of_bind calls_of_emitters | simp)+
    then show ?thesis using True by simp
  next
    case False
    have "calls_of ([Some ''cira_future_alloc''] @ [] @ [] @ [] @ [] @ [] @ [] @ ?t @ [Some ''cira_offload_submit'']) (submit_offload d)"
      unfolding submit_offload_def eqTrueI [OF False] by (simp only: if_True) (rule calls_of_bind calls_of_emitters t calls_of_pack | simp)+
    then show ?thesis using False by (simp split: if_splits)
  qed
qed

text \<open>
  The pass for host and device lowers the kernels with the rest of the module, as for the host: a line the
  device should install is installed by the host's function.
\<close>

lemma kernel_is_lowered_for_the_host:
  "calls_of [Some ''cira_install_cacheline_x86''] (InstallCachelineOpLowering conv Heterogeneous d)"
  "calls_of [Some ''__vortex_install_cacheline''] (InstallCachelineOpLowering conv RISCV_VORTEX d)"
  by (simp_all add: calls_of_def InstallCachelineOpLowering_def Let_def run_pattern callees_def isa_def str_attr_def get_attr_def)

text \<open>An edge is addressed by 32 times the index, in units of the loaded type.\<close>

lemma edge_offset_is_scaled_twice:
  assumes "conv (rw_types s (hd (op_results d))) = Some t"
  shows "\<exists>s'. run_state (LoadEdgeOpLowering conv arch d) s = (Replaced [rw_value s + 3], s') \<and>
    take 4 (drop (length (rw_ops s)) (rw_ops s')) =
      [Op (rw_id s) ''LLVM::ConstantOp'' [] [rw_value s] [(''value'', Int_Attr 64 32)] [],
       Op (rw_id s + 1) ''LLVM::MulOp'' [operand d 1, rw_value s] [rw_value s + 1] [] [],
       Op (rw_id s + 2) ''LLVM::GEPOp'' [operand d 0, rw_value s + 1] [rw_value s + 2] [(''elem_type'', Type_Attr t)] [],
       Op (rw_id s + 3) ''LLVM::LoadOp'' [rw_value s + 2] [rw_value s + 3] [] []]"
  using assms by (simp add: LoadEdgeOpLowering_def run_pattern eval_nat_numeral)

text \<open>With no conversion of remote references, as the pass registers none, no edge operation is lowered.\<close>

lemma edge_operations_are_not_lowered:
  assumes "base Remote_Mem_Ref = None" "op_operands d = x # xs" "rw_types (fst st) x = Remote_Mem_Ref"
  shows "apply_pattern base arch d st = None"
  using assms
  by (auto simp: apply_pattern_def pattern_of run_pattern_def converted_operands_def types_of_def addCiraLLVMTypeConversions_def
      split: option.split)

text \<open>
  An offload inside the body of another is never lowered: the pattern is being applied already when the inner
  one comes up, and there is no other.
\<close>

lemma nested_offload_is_not_lowered:
  fixes e :: "'d op"
  assumes "run_pattern p d st = Creates new st1" "e \<in> set new" "op_kind e = op_kind d" "\<forall>q \<in> set ps. fst q \<noteq> op_kind d"
    "isa d cira_ops" "try_patterns llvm_target [] ((op_kind d, p) # ps) d st = r"
  shows "\<forall>x. r \<noteq> Legalized x"
proof -
  have T: "llvm_target ty e = Illegal" for ty using assms(3,5) by (simp add: llvm_target_def isa_def)
  have "convert_ops False llvm_target ps ds st \<noteq> Legalized x" if "e \<in> set ds" for ds st x
    using that
  proof (induction ds arbitrary: st x)
    case (Cons c ds)
    then show ?case
      using no_pattern_matches [of ps e llvm_target "[]" st] assms(3,4) T
      by (auto simp: convert_ops.simps(2) split: legalized.splits)
  qed simp
  then have "convert_ops False llvm_target ps new st1 \<noteq> Legalized x" for x using assms(2) by blast
  moreover have "try_patterns llvm_target [(op_kind d, p)] ps d st = Not_Legalized" by (rule no_pattern_matches [OF assms(4)])
  ultimately show ?thesis using assms(1,6) by (auto simp: try_patterns.simps(2) split: legalized.splits)
qed

text \<open>A legacy offload with results stops the conversion: it is erased, but nothing replaces its results.\<close>

lemma legacy_offload_stops:
  assumes "op_results d \<noteq> []"
  shows "run_pattern (GenericOffloadOpLowering conv arch) d st = Mismatch"
  using assms by (simp add: run_pattern_def GenericOffloadOpLowering_def)

text \<open>
  Speculation gives its results the values of the body it removes: none of the operations it leaves defines
  a value older than itself.
\<close>

lemma speculation_results:
  "\<exists>s'. run_state (SpeculateOpLowering conv arch d) s = (Replaced (yielded d), s')"
proof -
  have "fst (run_state (clone_body bs) s) = concat (map op_operands (filter (\<lambda>b. isa b [''YieldOp'']) bs))" for bs :: "'a op list" and s
    by (induction bs arbitrary: s) (auto split: prod.split, metis fst_conv)
  then show ?thesis
    by (auto simp: SpeculateOpLowering_def yielded_def split: prod.split) (metis fst_conv)
qed

section \<open>An example\<close>

text \<open>LLVM's own conversions, and a function that offloads the installation of a line.\<close>

definition demo_base :: type_converter where
  "demo_base t =
     (case t of Cira_Handle \<Rightarrow> None | Cira_Future \<Rightarrow> None | Cira_Stream \<Rightarrow> None | Remote_Mem_Ref \<Rightarrow> None
      | Index_Type \<Rightarrow> Some i64 | Other_Type \<Rightarrow> None | _ \<Rightarrow> Some t)"

lemma demo_converter: "llvm_converter demo_base"
proof -
  have "demo_base u = Some u" if "demo_base t = Some u" for t u using that by (cases t) (auto simp: demo_base_def)
  then show ?thesis by (simp add: llvm_converter_def demo_base_def)
qed

definition demo_offload :: "int op" where
  "demo_offload = Op 3 ''OffloadRegionOp'' [1, 2] [] [] [[Block [5, 6] [Op 4 ''InstallCachelineOp'' [5, 6] [] [] []]]]"

definition demo_module :: "int op" where
  "demo_module = Op 1 ''ModuleOp'' [] [] [] [[Block [] [Op 2 ''func::FuncOp'' [] [] [(''sym_name'', Str_Attr ''f'')]
     [[Block [1, 2] [demo_offload, Op 7 ''BarrierOp'' [] [] [] [], Op 8 ''func::ReturnOp'' [] [] [] []]]]]]]"

definition demo_types :: "nat \<Rightarrow> mtype" where "demo_types v = (if v = 1 \<or> v = 5 then Cira_Handle else Index_Type)"

definition demo_rewriter :: "int rewriter" where
  "demo_rewriter = \<lparr>rw_value = 20, rw_id = 20, rw_types = demo_types, rw_ops = []\<rparr>"

lemma demo_patterns:
  "map_of (populateCiraToLLVMConversionPatterns base) ''OffloadRegionOp'' = Some (OffloadRegionOpLowering (addCiraLLVMTypeConversions base))"
  "map_of (populateCiraToLLVMConversionPatterns base) ''InstallCachelineOp'' = Some (InstallCachelineOpLowering (addCiraLLVMTypeConversions base))"
  "map_of (populateCiraToLLVMConversionPatterns base) ''BarrierOp'' = Some (BarrierOpLowering (addCiraLLVMTypeConversions base))"
  by (simp_all add: populateCiraToLLVMConversionPatterns_def Let_def)

lemmas run_demo = apply_pattern_def pattern_of run_pattern_def converted_operands_def types_of_def demo_patterns addCiraLLVMTypeConversions_def demo_base_def demo_types_def demo_rewriter_def
  run_pattern InstallCachelineOpLowering_def OffloadRegionOpLowering_def BarrierOpLowering_def submit_offload_def
  clone_into_def clone_simple simple_def body_ops_def body_block_args_def isa_def int_attr_def get_attr_def has_attr_def Let_def

lemma demo_verified: "verified False demo_module" "lowerable [] demo_module" "op_kind demo_module = ''ModuleOp''" "is_module demo_module"
  by (code_simp, code_simp, code_simp) (simp add: is_module_def demo_module_def)

lemma demo_convertible: "\<forall>v. addCiraLLVMTypeConversions demo_base (demo_types v) \<noteq> None"
  by (simp add: demo_types_def addCiraLLVMTypeConversions_def demo_base_def)



theorem kernel_is_not_closed_witness:
  "\<not> closed_ops {} (fst (kernel_body demo_offload 20 40))"
proof -
  have "kernel_ops demo_offload = [Op 4 ''InstallCachelineOp'' [5, 6] [] [] []]" "body_block_args demo_offload = [5, 6]"
    by code_simp+
  then show ?thesis
    using kernel_is_not_closed [of demo_offload "Op 4 ''InstallCachelineOp'' [5, 6] [] [] []" 5 20 40] by (simp add: simple_def)
qed

definition demo_install :: "int op" where "demo_install = Op 4 ''InstallCachelineOp'' [1, 2] [] [] []"


definition demo_sum :: "int op" where
  "demo_sum = Op 3 ''OffloadRegionOp'' [1] [9] [] [[Block [5] [Op 4 ''arith::AddIOp'' [5, 5] [6] [] [], Op 10 ''YieldOp'' [6] [] [] []]]]"

definition demo_meaning :: "(int, int) meaning" where
  "demo_meaning k as xs = (if k = ''arith::AddIOp'' then [sum_list xs] else [])"


end
