(* ===== verification/Spec2Isabelle.thy ===== *)
theory Spec2Isabelle
  imports Prelude C_Env Mwait Cxl_Job Publication Mmio Firmware Protocol Type2_Cache Addr_Translate
    Futures Runtime_Services Jit_Engine Vortex_Backend Two_Pass Type2_Gpu Backward_Slice Region_Formation
    Timing_Analysis Offload_Overhead Workload Lowering_Passes
begin

text \<open>
  A model of CXLMemUring, its runtime (the C++ code under \<^verbatim>\<open>runtime/\<close>), analyses of its compiler (under
  \<^verbatim>\<open>src/Dialect\<close>) and its lowering to LLVM (under \<^verbatim>\<open>src/Conversion\<close>), and the theorems that make them correct. All paths are below \<^verbatim>\<open>src/\<close>.

  \<^bold>\<open>The program.\<close> Compiled code on the host offloads memory-bound regions to a CXL Type 2 device with
  a Vortex GPU. The host writes a job into a control window in device memory and rings a doorbell; the
  firmware on the device polls the doorbell, runs the job (installing cache lines, chasing pointers,
  gathering a stream, calling a function), and answers in a status line and in a completion line in
  host memory, on which the host waits with a cache-resident wait instruction. Around this the runtime
  keeps futures and tiles in the last-level cache, a table of registered memory regions, a software
  model of the Type 2 cache, a library for the Vortex device with an offload backend on top, a just-in-
  time specializer with its cost model, and a two-pass timing tool that profiles a program and injects
  the missing delay in a second run. The compiler finds what to offload: for each access to remote memory
  it slices back to what its address is computed from and clones that into a region for the device.

  \<^bold>\<open>Theories and sources.\<close>

  \<^item> \<open>Prelude\<close>: machine words, memory as a function from 64-bit addresses to bytes, little-endian
    fields, block copies, cache-line alignment; the collections \<open>mem_simps\<close> and \<open>wire_defs\<close>.
  \<^item> \<open>C_Env\<close>: \<open>strtoull\<close> with base 0 and the environment knobs, one parser per source file
    (\<^verbatim>\<open>cira_mwait.cpp\<close>, \<^verbatim>\<open>cira_mmio.cpp\<close>, \<^verbatim>\<open>CiraRuntime.cpp\<close>).
  \<^item> \<open>Mwait\<close> (\<^verbatim>\<open>runtime/cira_mwait.cpp\<close>): the choice of the wait instruction and the wait loop with its
    spinning and monitoring phases.
  \<^item> \<open>Cxl_Job\<close> (\<^verbatim>\<open>runtime/include/cira_cxl_job.h\<close>): constants and structs with their C layout. The
    locale \<open>wire_struct\<close> (a view of memory and its byte image), an extension of \<open>wire_view\<close>, is
    interpreted for every struct.
  \<^item> \<open>Publication\<close>: stores another agent can observe, as lists of events; the locale \<open>publication\<close> says
    that a payload stored before its flag is seen whole or not at all. It is interpreted for the
    completion line and the status line of the device (\<open>Firmware\<close>) and the host's own completion
    (\<open>Mmio\<close>).
  \<^item> \<open>Mmio\<close> (\<^verbatim>\<open>runtime/cira_mmio.cpp\<close>): the life of a control window, register and block access, completion
    lines, submission, and waiting for a sequence number.
  \<^item> \<open>Firmware\<close> (\<^verbatim>\<open>runtime/vortex_device.cpp\<close> from line 536): cache-line installation, the four jobs, the
    status report, one service of the doorbell and one round of the firmware loop, the hooks the
    compiler emits, the submission the device library offers.
  \<^item> \<open>Protocol\<close>: host and device together. The inductive relation \<open>sys_step\<close> interleaves single stores
    of a submission with rounds of the firmware; \<open>sys_inv\<close> holds in every reachable state.
  \<^item> \<open>Type2_Cache\<close> (\<^verbatim>\<open>Type2CacheControllerImpl\<close> of \<^verbatim>\<open>runtime/src/CiraRuntime.cpp\<close>): lines, coherency states,
    delay buffer, windows. The locale \<open>line_store\<close> states what a cache of one memory promises.
  \<^item> \<open>Addr_Translate\<close> (the translation part of \<^verbatim>\<open>CiraRuntime.cpp\<close>): the region table (locale
    \<open>address_table\<close>), the LLC token, the kernel's and the page map's answers.
  \<^item> \<open>Futures\<close> (the C entry points of \<^verbatim>\<open>CiraRuntime.cpp\<close>): cache-line hints, tiles, futures, pools, the
    phase barrier, offload submission with the software fallback, the GAPBS marker.
  \<^item> \<open>Runtime_Services\<close> (the service classes of \<^verbatim>\<open>CiraRuntime.cpp\<close>): offload engine, remote memory manager,
    prefetch controller, graph runtime, the runtime object.
  \<^item> \<open>Jit_Cost\<close> (\<^verbatim>\<open>runtime/cira_jit.cpp\<close>) and \<open>Jit_Engine\<close> (\<^verbatim>\<open>runtime/cira_jit_engine.cpp\<close>): the decision
    and its limits; knobs, folding of knobs into a module, fingerprints, the cache of functions.
  \<^item> \<open>Vortex_Device\<close> (\<^verbatim>\<open>runtime/vortex_device.cpp\<close> up to line 535): devices, buffers, kernels, arguments.
  \<^item> \<open>Vortex_Backend\<close> (\<^verbatim>\<open>runtime/vortex_offload_backend.cpp\<close>): the global backend with its tables. The
    locale \<open>object_dtor\<close> (what destroying one object promises) is interpreted for kernels and buffers.
  \<^item> \<open>Two_Pass\<close> (\<^verbatim>\<open>runtime/vortex_verilator_sim.cpp\<close>): the simulator wrapper, regions and their profile,
    the synchronization point, profile files, prefetch placement, the latency model.
  \<^item> \<open>Type2_Gpu\<close> (\<^verbatim>\<open>runtime/src/Type2GpuDevice.cpp\<close>): the mappings of the PCI device with their fallbacks,
    launching through registers (the locale \<open>publication\<close> again), the polling wait, the matrix product.
  \<^item> \<open>Mlir\<close>: what the analyses of the compiler look at of an MLIR function, as a tree of operations.
  \<^item> \<open>Backward_Slice\<close> (\<^verbatim>\<open>src/Dialect/Transforms/BackwardSlice.cpp\<close>): classification of operations, the
    worklist, chain depth, pruning.
  \<^item> \<open>Region_Formation\<close> (\<^verbatim>\<open>src/Dialect/Transforms/RegionFormation.cpp\<close>): the cost model, outlining of a
    slice, the pass over a module.
  \<^item> \<open>Json\<close>: JSON values with the accessors of \<^verbatim>\<open>llvm::json\<close>.
  \<^item> \<open>Timing_Analysis\<close> (\<^verbatim>\<open>src/Dialect/TwoPassTimingAnalysis.cpp\<close>): the compiler's timing profile, annotation
    of regions, prefetch depths, synchronization points.
  \<^item> \<open>Offload_Profile\<close> (\<^verbatim>\<open>src/Dialect/OffloadProfile.cpp\<close>): profiles of functions, the strategy and the pass,
    the cost model. \<open>Offload_Overhead\<close> (\<^verbatim>\<open>src/Dialect/OffloadOverheadAnalysis.cpp\<close>) imports it: liveness of a
    loop, transfers, their cost and placement, experiment results.
  \<^item> \<open>Workload\<close> (\<^verbatim>\<open>src/Dialect/WorkloadAnalysis.cpp\<close>): the complexity estimate.
  \<^item> \<open>Rewriter\<close>: what a pattern does to the code, as steps of a state monad: operations are created,
    bodies cloned, types converted. \<open>Cira_Patterns\<close> (\<^verbatim>\<open>src/Conversion/CiraToLLVM.cpp\<close> up to line 1248): the
    pattern of each operation, one definition for each struct. \<open>Pattern_Facts\<close>: what patterns create.
  \<^item> \<open>Cira_To_Llvm\<close>: the conversion of a module, which recurses on the number of operations of the dialect
    left; \<open>Conversion_Progress\<close>: what \<^verbatim>\<open>include/Dialect/CiraOps.td\<close> asks of an operation, and that the
    conversion then succeeds.
  \<^item> \<open>Runtime_Abi\<close> (\<^verbatim>\<open>runtime/include/CiraRuntime.h\<close>, the table of \<^verbatim>\<open>runtime/cira_jit_engine.cpp\<close>): the C
    entry points with their types; \<open>Lowered_Calls\<close>: the calls of the patterns checked against them.
  \<^item> \<open>Offload_Inline\<close>: the meaning of a lowered offload. \<open>Lowering_Passes\<close>: the five passes, the kernels.

  \<^bold>\<open>How the code is read.\<close> Definitions keep the names of the code. A C++ object is a record, a global
  table a field of the state passed along, a pointer a 64-bit word with 0 for \<open>nullptr\<close>; unsigned
  arithmetic wraps, as in the code. An integer return code is an \<open>int\<close>, an enumeration a datatype.
  \<open>None\<close> as the result of an operation is undefined behaviour (a stale handle, an access past an array,
  a second \<open>free\<close>) or a loop that never ends; the loops that may not end are \<open>partial_function\<close>s, and
  that they do end is proved where it is true. No bound or fuel is used: loops over descriptors, lists
  and lines recurse on what the code counts, with a measure.

  \<^bold>\<open>What the model is given.\<close> Code that is not in the repository is an argument: the answers of the
  Vortex SDK, which may depend on all earlier calls (\<open>vx\<close>), of the simulator's shared library, of LLVM
  and of ORC, of the kernel and the page map, of \<open>posix_memalign\<close>, \<open>mmap\<close> and \<open>libnuma\<close>, and of \<open>new\<close>;
  the floating-point unit (\<open>exact_fpu\<close> is one such unit, over the rationals); the readings of clocks and cycle counters; the
  functions a CALL job names; the environment; what MLIR knows of an operation's effects and of types (\<open>mlir\<close>) and of
  dominance; LLVM's reading and printing of JSON and its rounding division. What another agent writes during a wait is a sequence
  of memories. Properties name what they need of these: allocations are fresh and disjoint
  (\<open>good_alloc\<close>), a handle the SDK gives out is new and not 0 (\<open>vx_handles_ok\<close>), an SDK that copies
  (\<open>vx_copies_ok\<close>), and each has a concrete instance in its witness.

  \<^bold>\<open>What is shown.\<close>

  \<^item> Host and device: under every interleaving each submitted job is served once, whole and in order, and
    a stored job is served by the next round (\<open>Protocol\<close>); a submission is never seen torn (\<open>Mmio\<close>); the
    jobs do what they say on every memory and always end, and mismatched requests are refused
    (\<open>Firmware\<close>).
  \<^item> Waiting: what each return code of a wait says about what was loaded, and when a wait returns
    (\<open>Mwait\<close>, \<open>Mmio\<close>); the barrier waits for all (\<open>Futures\<close>).
  \<^item> Caches and tables: the Type 2 cache with its evictions refines one flat memory and follows the MESI
    table; the edge cache is invisible; the region table has one entry per base and translates what is
    registered.
  \<^item> Ownership: window descriptors, tiles, pools, remote memory, SDK allocations and library objects are
    released exactly once, over whole sequences of calls and failures. Where the code breaks this (a
    refused argument buffer, \<open>migrate\<close>) the failing path is a theorem too, and the ownership theorems
    exclude exactly that path.
  \<^item> Data: argument packing, copies to and from the device, saved profiles read back, numbers in the
    environment, LLC tokens.
  \<^item> Decisions: the specializer's choice respects the hardware limits whatever the arithmetic does; equal
    requests have equal keys and are compiled once; the second pass of a profile waits exactly the gap.
  \<^item> Compiler: the slice is the backward closure of the address and the slicer always returns; the chain
    depth is the longest chain of dependent reads; an outlined region is closed, and each of its operations
    reads and computes what its original does on the host; region formation only inserts operations. Timing
    profiles survive saving and loading, and each region with exposed latency gets one synchronization
    point; the transfers of a loop miss no value; in exact arithmetic the crossover point of the cost model
    is exact; only candidates are annotated.
  \<^item> Lowering: a module the dialect accepts is converted completely and in one go; what the patterns call
    is declared by the runtime with these types; a lowered offload computes what its body yields; each
    offload has its kernel. What the patterns leave out are lemmas too (\<open>Lowering_Passes\<close>).
  \<^item> Defects: the theorems whose names tell of one (\<open>running_job_reported_as_error\<close>, \<open>device_submit_tears\<close>,
    \<open>type2_wraps\<close>, \<open>refused_args_freed_twice\<close>, \<open>mixed_alignment_overflows\<close>, \<open>loaded_profile_hides_all\<close> and
    others) hold on concrete inputs or under the stated conditions of the code as it is.

  \<^bold>\<open>Not modelled.\<close> Printing and debug output, the performance dump, the asynchronous launch thread and
  the annotation header of the two-pass tool; the mutexes, which make each entry point one step. The
  hardware's cache coherency is a sequentially consistent memory with the stores in program order. The
  driver of MLIR's conversion is modelled as it is documented: it visits the operations in order, converts
  what a pattern creates, and renames the replaced values at the end. Of the compiler, the TOSA analysis is
  not part of the build; the placement analysis of the timing pass is not called by anything; the front
  ends and the generators of kernel text build on dialects and tools that are not in the repository.
  Benchmarks, tests, examples, the kernel module and the support shims are no part of the program's logic.
\<close>

end
